(* ===== verification/Prelude.thy ===== *)
theory Prelude
  imports Main "HOL-Library.Word"
begin

section \<open>Prelude\<close>

text \<open>
  What every component shares: bytes and C strings, decimal and hexadecimal printing, lists
  updated by index, and the collections of facts the component proofs use.

  A byte is a \<^typ>\<open>char\<close> (an 8-bit value in this logic) and a buffer of \<open>n\<close> bytes is a
  \<^typ>\<open>string\<close> of length \<open>n\<close>; \<open>byte c\<close> is its unsigned value. A C string is the prefix of its
  buffer before the first NUL byte, \<open>cstr\<close>.
\<close>

named_theorems intr_inv "invariants of a component, kept by each of its operations"
named_theorems frame "what an operation leaves unchanged"
named_theorems codec "decoding what was encoded"

abbreviation byte :: "char \<Rightarrow> nat" where
  "byte c \<equiv> of_char c"

abbreviation NUL :: char where
  "NUL \<equiv> CHR 0x00"

abbreviation BACKSLASH :: char where
  "BACKSLASH \<equiv> CHR 0x5C"

abbreviation DQUOTE :: char where
  "DQUOTE \<equiv> CHR 0x22"

type_synonym u64 = "64 word"
type_synonym u32 = "32 word"

lemma byte_bound [simp]: "byte c < 256"
  by (metis of_char_eq_iff of_char_mod_256 mod_less_divisor zero_less_numeral)

lemma byte_char_of [simp]: "n < 256 \<Longrightarrow> byte (char_of n) = n"
  by simp

definition cstr :: "string \<Rightarrow> string" where
  "cstr s = takeWhile (\<lambda>c. c \<noteq> NUL) s"

lemma cstr_id: "NUL \<notin> set s \<Longrightarrow> cstr s = s"
  by (auto simp: cstr_def takeWhile_eq_all_conv)

lemma cstr_no_nul [simp]: "NUL \<notin> set (cstr s)"
  by (auto simp: cstr_def dest: set_takeWhileD)

lemma length_cstr_le: "length (cstr s) \<le> length s"
  by (simp add: cstr_def length_takeWhile_le)

text \<open>The loops that compare two strings without stopping early: \<open>diff |= a[i] ^ b[i]\<close>.\<close>

unbundle bit_operations_syntax

lemma xor_fold_zero:
  "foldl (\<lambda>acc i. acc OR (byte (s ! i) XOR byte (t ! i))) a is = 0 \<longleftrightarrow> a = (0::nat) \<and> (\<forall>i \<in> set is. s ! i = t ! i)"
proof -
  have "a OR b = 0 \<longleftrightarrow> a = 0 \<and> b = (0::nat)" for a b by (rule or_eq_0_iff)
  moreover have "a XOR b = 0 \<longleftrightarrow> a = (b::nat)" for a b by (auto simp: bit_eq_iff bit_xor_iff)
  ultimately show ?thesis by (induction "is" arbitrary: a) (auto simp: of_char_eq_iff)
qed

lemma xor_fold_eq:
  assumes "length s = length t"
  shows "foldl (\<lambda>acc i. acc OR (byte (s ! i) XOR byte (t ! i))) 0 [0..<length t] = (0::nat) \<longleftrightarrow> s = t"
  using assms by (auto simp: xor_fold_zero intro: nth_equalityI)

subsection \<open>Lists updated by index\<close>

lemma nth_upd: "j < length xs \<Longrightarrow> xs[i := v] ! j = (if i = j then v else xs ! j)"
  by (cases "i < length xs") (auto simp: nth_list_update)

lemma upd_append_left: "i < length xs \<Longrightarrow> (xs @ ys)[i := v] = xs[i := v] @ ys"
  by (simp add: list_update_append)

lemma map_sum_Inr_iff: "map_sum f g s = Inr y \<longleftrightarrow> (\<exists>x. s = Inr x \<and> y = g x)"
  by (cases s) auto

end
