(* ===== verification/Jsmn.thy ===== *)
theory Jsmn
  imports Prelude
begin

section \<open>The JSON tokenizer (src/src/jsmn.h)\<close>

text \<open>
  \<open>jsmn_parse\<close> as the repository compiles it, with JSMN_STRICT and JSMN_PARENT_LINKS. The text
  is the first \<open>len\<close> bytes given to the call, a string; \<open>parser->pos\<close> is \<open>pos\<close>, the tokens
  handed out so far are \<open>toks\<close> (so \<open>parser->toknext\<close> is its length) and \<open>num\<close> is the
  capacity of the caller's array. Both callers pass an array, so the counting mode for
  \<open>tokens == NULL\<close> is left out; an error code ends the parse and neither caller reads the
  parser or the tokens then, so an error is the code alone. \<open>pos\<close> is 32 bits wide in C; the
  callers bound the text by 16 MiB, so it never wraps.
\<close>

subsection \<open>Data\<close>

datatype jsmntype_t =
    JSMN_UNDEFINED
  | JSMN_OBJECT
  | JSMN_ARRAY
  | JSMN_STRING
  | JSMN_PRIMITIVE

text \<open>The error codes, and \<open>JSMN_HANG\<close> for a walk up the parent links that does not end within
  as many steps as there are tokens; it is no code of the program and is proved unreachable.\<close>

datatype jsmnerr =
    JSMN_ERROR_NOMEM
  | JSMN_ERROR_INVAL
  | JSMN_ERROR_PART
  | JSMN_HANG

record jsmntok_t =
  tok_type :: jsmntype_t
  tok_start :: int
  tok_end :: int
  tok_size :: int
  tok_parent :: int

record jsmn_parser =
  pos :: nat
  toksuper :: int
  toks :: "jsmntok_t list"
  tok_count :: int

definition jsmn_init :: jsmn_parser where
  "jsmn_init = \<lparr>pos = 0, toksuper = -1, toks = [], tok_count = 0\<rparr>"

subsection \<open>Token allocation\<close>

text \<open>A fresh token; its type field is whatever the array held, and is set before it is read.\<close>

definition jsmn_alloc_token :: "nat \<Rightarrow> jsmn_parser \<Rightarrow> jsmn_parser option" where
  "jsmn_alloc_token num p =
     (if length (toks p) \<ge> num then None
      else Some (p\<lparr>toks := toks p @
             [\<lparr>tok_type = JSMN_UNDEFINED, tok_start = -1, tok_end = -1, tok_size = 0,
               tok_parent = -1\<rparr>]\<rparr>))"

definition jsmn_fill_token :: "jsmntype_t \<Rightarrow> int \<Rightarrow> int \<Rightarrow> jsmntok_t \<Rightarrow> jsmntok_t" where
  "jsmn_fill_token ty s e t = t\<lparr>tok_type := ty, tok_start := s, tok_end := e, tok_size := 0\<rparr>"

text \<open>Change the token with index \<open>i\<close>.\<close>

definition upd_tok :: "nat \<Rightarrow> (jsmntok_t \<Rightarrow> jsmntok_t) \<Rightarrow> jsmn_parser \<Rightarrow> jsmn_parser" where
  "upd_tok i f p = p\<lparr>toks := (toks p)[i := f (toks p ! i)]\<rparr>"

subsection \<open>Primitives\<close>

definition prim_end :: "char \<Rightarrow> bool" where
  "prim_end c \<longleftrightarrow> c \<in> {CHR 0x09, CHR 0x0D, CHR 0x0A, CHR '' '', CHR '','', CHR '']'', CHR ''}''}"

text \<open>The scanning loop. \<open>char\<close> may be signed: bytes from 128 on are then negative, below 32.\<close>

function prim_scan :: "string \<Rightarrow> nat \<Rightarrow> jsmnerr + nat" where
  "prim_scan js p =
     (if p < length js \<and> js ! p \<noteq> NUL then
        (if prim_end (js ! p) then Inr p
         else if byte (js ! p) < 32 \<or> byte (js ! p) \<ge> 127 then Inl JSMN_ERROR_INVAL
         else prim_scan js (Suc p))
      else Inl JSMN_ERROR_PART)"
  by pat_completeness auto
termination by (relation "measure (\<lambda>(js, p). length js - p)") auto

declare prim_scan.simps [simp del]

definition jsmn_parse_primitive :: "string \<Rightarrow> nat \<Rightarrow> jsmn_parser \<Rightarrow> jsmnerr + jsmn_parser" where
  "jsmn_parse_primitive js num p =
     (case prim_scan js (pos p) of
        Inl e \<Rightarrow> Inl e
      | Inr q \<Rightarrow>
          (case jsmn_alloc_token num p of
             None \<Rightarrow> Inl JSMN_ERROR_NOMEM
           | Some p' \<Rightarrow>
               Inr ((upd_tok (length (toks p))
                       (\<lambda>t. (jsmn_fill_token JSMN_PRIMITIVE (int (pos p)) (int q) t)
                              \<lparr>tok_parent := toksuper p\<rparr>) p')\<lparr>pos := q - 1\<rparr>)))"

subsection \<open>Strings\<close>

definition is_hex :: "char \<Rightarrow> bool" where
  "is_hex c \<longleftrightarrow> (48 \<le> byte c \<and> byte c \<le> 57) \<or> (65 \<le> byte c \<and> byte c \<le> 70)
             \<or> (97 \<le> byte c \<and> byte c \<le> 102)"

text \<open>The loop over at most \<open>i\<close> more hexadecimal digits; the position after them.\<close>

fun hex_scan :: "string \<Rightarrow> nat \<Rightarrow> nat \<Rightarrow> jsmnerr + nat" where
  "hex_scan js q 0 = Inr q"
| "hex_scan js q (Suc i) =
     (if q < length js \<and> js ! q \<noteq> NUL then
        (if is_hex (js ! q) then hex_scan js (Suc q) i else Inl JSMN_ERROR_INVAL)
      else Inr q)"

definition simple_escape :: "char \<Rightarrow> bool" where
  "simple_escape c \<longleftrightarrow> c \<in> {DQUOTE, CHR ''/'', BACKSLASH, CHR ''b'', CHR ''f'', CHR ''r'', CHR ''n'',
                          CHR ''t''}"

text \<open>One escape, with \<open>q\<close> at the byte after the backslash: the position after the escape.\<close>

definition escape_scan :: "string \<Rightarrow> nat \<Rightarrow> jsmnerr + nat" where
  "escape_scan js q =
     (if simple_escape (js ! q) then Inr (Suc q)
      else if js ! q = CHR ''u'' then hex_scan js (Suc q) 4
      else Inl JSMN_ERROR_INVAL)"

lemma hex_scan_ge: "hex_scan js q i = Inr r \<Longrightarrow> q \<le> r"
  by (induction js q i rule: hex_scan.induct) (auto split: if_splits)

lemma hex_scan_le: "hex_scan js q i = Inr r \<Longrightarrow> q \<le> length js \<Longrightarrow> r \<le> length js"
  by (induction js q i rule: hex_scan.induct) (auto split: if_splits)

lemma escape_scan_gt: "escape_scan js q = Inr r \<Longrightarrow> q < r"
  by (auto simp: escape_scan_def split: if_splits dest: hex_scan_ge)

lemma escape_scan_le: "escape_scan js q = Inr r \<Longrightarrow> q < length js \<Longrightarrow> r \<le> length js"
  by (auto simp: escape_scan_def split: if_splits dest: hex_scan_le)

text \<open>The loop of \<open>jsmn_parse_string\<close>, from the byte after the opening quote: the position of the
  closing quote.\<close>

function str_scan :: "string \<Rightarrow> nat \<Rightarrow> jsmnerr + nat" where
  "str_scan js p =
     (if p < length js \<and> js ! p \<noteq> NUL then
        (if js ! p = DQUOTE then Inr p
         else if js ! p = BACKSLASH \<and> Suc p < length js then
           (case escape_scan js (Suc p) of
              Inl e \<Rightarrow> Inl e
            | Inr r \<Rightarrow> str_scan js r)
         else str_scan js (Suc p))
      else Inl JSMN_ERROR_PART)"
  by pat_completeness auto
termination
  by (relation "measure (\<lambda>(js, p). length js - p)") (auto dest: escape_scan_gt)

declare str_scan.simps [simp del]

definition jsmn_parse_string :: "string \<Rightarrow> nat \<Rightarrow> jsmn_parser \<Rightarrow> jsmnerr + jsmn_parser" where
  "jsmn_parse_string js num p =
     (case str_scan js (Suc (pos p)) of
        Inl e \<Rightarrow> Inl e
      | Inr q \<Rightarrow>
          (case jsmn_alloc_token num p of
             None \<Rightarrow> Inl JSMN_ERROR_NOMEM
           | Some p' \<Rightarrow>
               Inr ((upd_tok (length (toks p))
                       (\<lambda>t. (jsmn_fill_token JSMN_STRING (int (pos p) + 1) (int q) t)
                              \<lparr>tok_parent := toksuper p\<rparr>) p')\<lparr>pos := q\<rparr>)))"

subsection \<open>The parse loop\<close>

text \<open>An opening bracket: a new token under the current super token, which it becomes.\<close>

definition jsmn_open :: "nat \<Rightarrow> char \<Rightarrow> jsmn_parser \<Rightarrow> jsmnerr + jsmn_parser" where
  "jsmn_open num c p =
     (let p0 = p\<lparr>tok_count := tok_count p + 1\<rparr>; n = length (toks p) in
      case jsmn_alloc_token num p0 of
        None \<Rightarrow> Inl JSMN_ERROR_NOMEM
      | Some p1 \<Rightarrow>
          if toksuper p \<noteq> -1 \<and> tok_type (toks p1 ! nat (toksuper p)) = JSMN_OBJECT
          then Inl JSMN_ERROR_INVAL
          else
            let p2 = (if toksuper p \<noteq> -1 then
                        upd_tok n (\<lambda>t. t\<lparr>tok_parent := toksuper p\<rparr>)
                          (upd_tok (nat (toksuper p)) (\<lambda>t. t\<lparr>tok_size := tok_size t + 1\<rparr>) p1)
                      else p1)
            in Inr ((upd_tok n (\<lambda>t. t\<lparr>tok_type := (if c = CHR ''{'' then JSMN_OBJECT
                                                    else JSMN_ARRAY),
                                      tok_start := int (pos p)\<rparr>) p2)
                      \<lparr>toksuper := int n\<rparr>))"

text \<open>The walk from token \<open>i\<close> up the parent links to the innermost token still open, at most
  \<open>fuel\<close> steps.\<close>

fun jsmn_close_walk :: "nat \<Rightarrow> nat \<Rightarrow> jsmntype_t \<Rightarrow> jsmn_parser \<Rightarrow> jsmnerr + jsmn_parser" where
  "jsmn_close_walk 0 i ty p = Inl JSMN_HANG"
| "jsmn_close_walk (Suc fuel) i ty p =
     (let t = toks p ! i in
      if tok_start t \<noteq> -1 \<and> tok_end t = -1 then
        (if tok_type t \<noteq> ty then Inl JSMN_ERROR_INVAL
         else Inr ((upd_tok i (\<lambda>t. t\<lparr>tok_end := int (pos p) + 1\<rparr>) p)\<lparr>toksuper := tok_parent t\<rparr>))
      else if tok_parent t = -1 then
        (if tok_type t \<noteq> ty \<or> toksuper p = -1 then Inl JSMN_ERROR_INVAL else Inr p)
      else jsmn_close_walk fuel (nat (tok_parent t)) ty p)"

definition jsmn_close :: "char \<Rightarrow> jsmn_parser \<Rightarrow> jsmnerr + jsmn_parser" where
  "jsmn_close c p =
     (if length (toks p) < 1 then Inl JSMN_ERROR_INVAL
      else jsmn_close_walk (length (toks p)) (length (toks p) - 1)
             (if c = CHR ''}'' then JSMN_OBJECT else JSMN_ARRAY) p)"

text \<open>After a string or a primitive: count it and, under a super token, in that token's size.\<close>

definition jsmn_counted :: "jsmn_parser \<Rightarrow> jsmn_parser" where
  "jsmn_counted p =
     (let p1 = p\<lparr>tok_count := tok_count p + 1\<rparr> in
      if toksuper p \<noteq> -1 then
        upd_tok (nat (toksuper p)) (\<lambda>t. t\<lparr>tok_size := tok_size t + 1\<rparr>) p1
      else p1)"

definition jsmn_comma :: "jsmn_parser \<Rightarrow> jsmn_parser" where
  "jsmn_comma p =
     (if toksuper p \<noteq> -1 \<and> tok_type (toks p ! nat (toksuper p)) \<noteq> JSMN_ARRAY
         \<and> tok_type (toks p ! nat (toksuper p)) \<noteq> JSMN_OBJECT
      then p\<lparr>toksuper := tok_parent (toks p ! nat (toksuper p))\<rparr> else p)"

definition prim_start :: "char \<Rightarrow> bool" where
  "prim_start c \<longleftrightarrow> c = CHR ''-'' \<or> (48 \<le> byte c \<and> byte c \<le> 57) \<or> c \<in> {CHR ''t'', CHR ''f'', CHR ''n''}"

definition json_space :: "char \<Rightarrow> bool" where
  "json_space c \<longleftrightarrow> c \<in> {CHR 0x09, CHR 0x0D, CHR 0x0A, CHR '' ''}"

text \<open>A primitive must not be the key of an object or the second value of a key.\<close>

definition prim_refused :: "jsmn_parser \<Rightarrow> bool" where
  "prim_refused p \<longleftrightarrow>
     toksuper p \<noteq> -1 \<and>
     (let t = toks p ! nat (toksuper p) in
      tok_type t = JSMN_OBJECT \<or> (tok_type t = JSMN_STRING \<and> tok_size t \<noteq> 0))"

text \<open>The body of the loop, one byte \<open>js[pos]\<close>.\<close>

definition jsmn_step :: "string \<Rightarrow> nat \<Rightarrow> jsmn_parser \<Rightarrow> jsmnerr + jsmn_parser" where
  "jsmn_step js num p =
     (let c = js ! pos p in
      if c = CHR ''{'' \<or> c = CHR ''['' then jsmn_open num c p
      else if c = CHR ''}'' \<or> c = CHR '']'' then jsmn_close c p
      else if c = DQUOTE then map_sum id jsmn_counted (jsmn_parse_string js num p)
      else if json_space c then Inr p
      else if c = CHR '':'' then Inr (p\<lparr>toksuper := int (length (toks p)) - 1\<rparr>)
      else if c = CHR '','' then Inr (jsmn_comma p)
      else if prim_start c then
        (if prim_refused p then Inl JSMN_ERROR_INVAL
         else map_sum id jsmn_counted (jsmn_parse_primitive js num p))
      else Inl JSMN_ERROR_INVAL)"

subsection \<open>Every step moves on\<close>

lemma prim_scan_ge: "prim_scan js p = Inr q \<Longrightarrow> p \<le> q"
proof (induction js p rule: prim_scan.induct)
  case (1 js p)
  from "1.IH" "1.prems" show ?case
    by (auto simp: prim_scan.simps [of js p] split: if_splits)
qed

lemma prim_scan_lt: "prim_scan js p = Inr q \<Longrightarrow> q < length js"
proof (induction js p rule: prim_scan.induct)
  case (1 js p)
  from "1.IH" "1.prems" show ?case
    by (auto simp: prim_scan.simps [of js p] split: if_splits)
qed

lemma prim_scan_gt:
  assumes "prim_scan js p = Inr q" and "\<not> prim_end (js ! p)"
  shows "p < q"
  using assms by (subst (asm) prim_scan.simps) (auto split: if_splits dest: prim_scan_ge)

lemma str_scan_ge: "str_scan js p = Inr q \<Longrightarrow> p \<le> q"
proof (induction js p rule: str_scan.induct)
  case (1 js p)
  from "1.IH" "1.prems" show ?case
    by (auto simp: str_scan.simps [of js p] split: if_splits sum.splits dest!: escape_scan_gt)
qed

lemma str_scan_lt: "str_scan js p = Inr q \<Longrightarrow> q < length js"
proof (induction js p rule: str_scan.induct)
  case (1 js p)
  from "1.IH" "1.prems" show ?case
    by (auto simp: str_scan.simps [of js p] split: if_splits sum.splits)
qed

lemma prim_start_not_end: "prim_start c \<Longrightarrow> \<not> prim_end c"
  by (auto simp: prim_start_def prim_end_def)

lemma pos_upd_tok [simp]: "pos (upd_tok i f p) = pos p"
  and toksuper_upd_tok [simp]: "toksuper (upd_tok i f p) = toksuper p"
  and toks_upd_tok [simp]: "toks (upd_tok i f p) = (toks p)[i := f (toks p ! i)]"
  and tok_count_upd_tok [simp]: "tok_count (upd_tok i f p) = tok_count p"
  by (simp_all add: upd_tok_def)

lemma jsmn_close_walk_pos:
  "jsmn_close_walk fuel i ty p = Inr p' \<Longrightarrow> pos p' = pos p"
  by (induction fuel i ty p rule: jsmn_close_walk.induct) (auto simp: Let_def split: if_splits)

lemma jsmn_open_pos: "jsmn_open num c p = Inr p' \<Longrightarrow> pos p' = pos p"
  by (auto simp: jsmn_open_def jsmn_alloc_token_def Let_def split: if_splits)

lemma jsmn_counted_pos [simp]: "pos (jsmn_counted p) = pos p"
  by (simp add: jsmn_counted_def Let_def)

lemma jsmn_comma_pos [simp]: "pos (jsmn_comma p) = pos p"
  by (simp add: jsmn_comma_def)

lemma jsmn_parse_string_pos: "jsmn_parse_string js num p = Inr p' \<Longrightarrow> pos p < pos p'"
  by (auto simp: jsmn_parse_string_def split: sum.splits option.splits dest: str_scan_ge)

lemma jsmn_parse_primitive_pos:
  "jsmn_parse_primitive js num p = Inr p' \<Longrightarrow> prim_start (js ! pos p) \<Longrightarrow> pos p \<le> pos p'"
  by (auto simp: jsmn_parse_primitive_def split: sum.splits option.splits
      dest!: prim_scan_gt prim_start_not_end)

lemma jsmn_step_pos: "jsmn_step js num p = Inr p' \<Longrightarrow> pos p \<le> pos p'"
  by (auto simp: jsmn_step_def Let_def jsmn_close_def map_sum_Inr_iff split: if_splits
      dest: jsmn_open_pos jsmn_close_walk_pos jsmn_parse_string_pos
        jsmn_parse_primitive_pos)

text \<open>The loop itself: each round ends with \<open>parser->pos++\<close>.\<close>

function jsmn_loop :: "string \<Rightarrow> nat \<Rightarrow> jsmn_parser \<Rightarrow> jsmnerr + jsmn_parser" where
  "jsmn_loop js num p =
     (if pos p < length js \<and> js ! pos p \<noteq> NUL then
        (case jsmn_step js num p of
           Inl e \<Rightarrow> Inl e
         | Inr p' \<Rightarrow> jsmn_loop js num (p'\<lparr>pos := Suc (pos p')\<rparr>))
      else Inr p)"
  by pat_completeness auto
termination
  by (relation "measure (\<lambda>(js, num, p). length js - pos p)") (auto dest!: jsmn_step_pos)

declare jsmn_loop.simps [simp del]

text \<open>\<open>jsmn_parse\<close>: the count of tokens and the tokens, or the error.\<close>

definition jsmn_parse :: "string \<Rightarrow> nat \<Rightarrow> jsmnerr + (int \<times> jsmntok_t list)" where
  "jsmn_parse js num =
     (case jsmn_loop js num jsmn_init of
        Inl e \<Rightarrow> Inl e
      | Inr p \<Rightarrow>
          if \<exists>t \<in> set (toks p). tok_start t \<noteq> -1 \<and> tok_end t = -1 then Inl JSMN_ERROR_PART
          else Inr (tok_count p, toks p))"

subsection \<open>The tokenizer's invariant\<close>

text \<open>Token \<open>i\<close> of a text of \<open>n\<close> bytes, with the parser at byte \<open>q\<close>: typed, linked to an
  earlier token or to none, and with bounds inside the text once it is closed.\<close>

definition tok_ok :: "nat \<Rightarrow> nat \<Rightarrow> nat \<Rightarrow> jsmntok_t \<Rightarrow> bool" where
  "tok_ok n q i t \<longleftrightarrow> tok_type t \<noteq> JSMN_UNDEFINED \<and> -1 \<le> tok_parent t \<and> tok_parent t < int i
     \<and> 0 \<le> tok_start t \<and> tok_start t \<le> int q
     \<and> (tok_end t = -1 \<or> (tok_start t \<le> tok_end t \<and> tok_end t \<le> int n))"

definition jsmn_inv :: "string \<Rightarrow> nat \<Rightarrow> jsmn_parser \<Rightarrow> bool" where
  "jsmn_inv js num p \<longleftrightarrow>
     length (toks p) \<le> num \<and> tok_count p = int (length (toks p))
     \<and> -1 \<le> toksuper p \<and> toksuper p < int (length (toks p))
     \<and> (\<forall>i < length (toks p). tok_ok (length js) (pos p) i (toks p ! i))"

lemma tok_ok_size [simp]: "tok_ok n q i (t\<lparr>tok_size := s\<rparr>) = tok_ok n q i t"
  by (simp add: tok_ok_def)

lemma tok_ok_mono: "tok_ok n q i t \<Longrightarrow> q \<le> q' \<Longrightarrow> tok_ok n q' i t"
  by (auto simp: tok_ok_def)

lemma jsmn_inv_init: "jsmn_inv js num jsmn_init"
  by (simp add: jsmn_inv_def jsmn_init_def)

lemma jsmn_inv_advance:
  "jsmn_inv js num p \<Longrightarrow> pos p \<le> q \<Longrightarrow> jsmn_inv js num (p\<lparr>pos := q\<rparr>)"
  by (auto simp: jsmn_inv_def intro: tok_ok_mono)

lemma jsmn_inv_super:
  "jsmn_inv js num p \<Longrightarrow> -1 \<le> s \<Longrightarrow> s < int (length (toks p)) \<Longrightarrow>
   jsmn_inv js num (p\<lparr>toksuper := s\<rparr>)"
  by (auto simp: jsmn_inv_def)

text \<open>The token of a string or a primitive, as the two leaf parsers leave it.\<close>

abbreviation leaf_tok :: "jsmntype_t \<Rightarrow> int \<Rightarrow> int \<Rightarrow> int \<Rightarrow> jsmntok_t" where
  "leaf_tok ty s e par \<equiv>
     \<lparr>tok_type = ty, tok_start = s, tok_end = e, tok_size = 0, tok_parent = par\<rparr>"

lemma jsmn_parse_string_Inr:
  "jsmn_parse_string js num p = Inr p' \<longleftrightarrow>
     (\<exists>q. str_scan js (Suc (pos p)) = Inr q \<and> length (toks p) < num \<and>
        p' = p\<lparr>toks := toks p @ [leaf_tok JSMN_STRING (int (pos p) + 1) (int q) (toksuper p)],
               pos := q\<rparr>)"
  by (auto simp: jsmn_parse_string_def jsmn_alloc_token_def jsmn_fill_token_def upd_tok_def
      split: sum.splits)

lemma jsmn_parse_primitive_Inr:
  "jsmn_parse_primitive js num p = Inr p' \<longleftrightarrow>
     (\<exists>q. prim_scan js (pos p) = Inr q \<and> length (toks p) < num \<and>
        p' = p\<lparr>toks := toks p @ [leaf_tok JSMN_PRIMITIVE (int (pos p)) (int q) (toksuper p)],
               pos := q - 1\<rparr>)"
  by (auto simp: jsmn_parse_primitive_def jsmn_alloc_token_def jsmn_fill_token_def upd_tok_def
      split: sum.splits)

lemma jsmn_inv_append:
  assumes "jsmn_inv js num p" and "length (toks p) < num" and "pos p \<le> q"
    and "tok_ok (length js) q (length (toks p)) t"
  shows "jsmn_inv js num (p\<lparr>toks := toks p @ [t], tok_count := tok_count p + 1, pos := q\<rparr>)"
  using assms by (auto simp: jsmn_inv_def nth_append less_Suc_eq intro: tok_ok_mono)

lemma jsmn_inv_size:
  "jsmn_inv js num p \<Longrightarrow> jsmn_inv js num (upd_tok i (\<lambda>t. t\<lparr>tok_size := f t\<rparr>) p)"
  by (auto simp: jsmn_inv_def nth_upd)

lemma jsmn_counted_append:
  "jsmn_inv js num (p\<lparr>tok_count := tok_count p + 1\<rparr>) \<Longrightarrow> jsmn_inv js num (jsmn_counted p)"
  by (auto simp: jsmn_counted_def Let_def intro: jsmn_inv_size)

lemma jsmn_inv_string:
  assumes "jsmn_inv js num p" and "jsmn_parse_string js num p = Inr p'"
  shows "jsmn_inv js num (jsmn_counted p')"
proof -
  from assms(2) obtain q where q: "str_scan js (Suc (pos p)) = Inr q" "length (toks p) < num"
    and p': "p' = p\<lparr>toks := toks p @ [leaf_tok JSMN_STRING (int (pos p) + 1) (int q) (toksuper p)],
                    pos := q\<rparr>"
    by (auto simp: jsmn_parse_string_Inr)
  from q(1) have "Suc (pos p) \<le> q" "q < length js"
    by (auto dest: str_scan_ge str_scan_lt)
  with assms(1) q(2) have "jsmn_inv js num (p'\<lparr>tok_count := tok_count p' + 1\<rparr>)"
    using jsmn_inv_append [of js num p q
        "leaf_tok JSMN_STRING (int (pos p) + 1) (int q) (toksuper p)"]
    by (simp add: p' tok_ok_def jsmn_inv_def)
  then show ?thesis by (rule jsmn_counted_append)
qed

lemma jsmn_inv_primitive:
  assumes "jsmn_inv js num p" and "jsmn_parse_primitive js num p = Inr p'"
    and "prim_start (js ! pos p)"
  shows "jsmn_inv js num (jsmn_counted p')"
proof -
  from assms(2) obtain q where q: "prim_scan js (pos p) = Inr q" "length (toks p) < num"
    and p': "p' = p\<lparr>toks := toks p @ [leaf_tok JSMN_PRIMITIVE (int (pos p)) (int q) (toksuper p)],
                    pos := q - 1\<rparr>"
    by (auto simp: jsmn_parse_primitive_Inr)
  from q(1) assms(3) have "pos p < q" "q < length js"
    by (auto dest: prim_scan_gt prim_scan_lt prim_start_not_end)
  with assms(1) q(2) have "jsmn_inv js num (p'\<lparr>tok_count := tok_count p' + 1\<rparr>)"
    using jsmn_inv_append [of js num p "q - 1"
        "leaf_tok JSMN_PRIMITIVE (int (pos p)) (int q) (toksuper p)"]
    by (simp add: p' tok_ok_def jsmn_inv_def)
  then show ?thesis by (rule jsmn_counted_append)
qed

text \<open>What an opening bracket does when the super token is one of the tokens.\<close>

lemma jsmn_open_Inr:
  assumes "toksuper p \<noteq> -1 \<Longrightarrow> nat (toksuper p) < length (toks p)"
  shows "jsmn_open num c p = Inr p' \<longleftrightarrow>
     length (toks p) < num \<and>
     (toksuper p \<noteq> -1 \<longrightarrow> tok_type (toks p ! nat (toksuper p)) \<noteq> JSMN_OBJECT) \<and>
     p' = (let p1 = (if toksuper p \<noteq> -1 then
                       upd_tok (nat (toksuper p)) (\<lambda>t. t\<lparr>tok_size := tok_size t + 1\<rparr>) p
                     else p)
           in p1\<lparr>toks := toks p1 @ [\<lparr>tok_type = (if c = CHR ''{'' then JSMN_OBJECT else JSMN_ARRAY),
                  tok_start = int (pos p), tok_end = -1, tok_size = 0,
                  tok_parent = toksuper p\<rparr>],
                 toksuper := int (length (toks p)), tok_count := tok_count p + 1\<rparr>)"
proof -
  from assms show ?thesis
    by (cases "toksuper p = -1")
      (auto simp: jsmn_open_def jsmn_alloc_token_def Let_def upd_tok_def nth_append
        upd_append_left list_update_append)
qed

lemma jsmn_inv_open:
  assumes "jsmn_inv js num p" and "jsmn_open num c p = Inr p'" and "pos p < length js"
  shows "jsmn_inv js num p'"
proof -
  define p1 where "p1 = (if toksuper p \<noteq> -1 then
      upd_tok (nat (toksuper p)) (\<lambda>t. t\<lparr>tok_size := tok_size t + 1\<rparr>) p else p)"
  define t where "t = \<lparr>tok_type = (if c = CHR ''{'' then JSMN_OBJECT else JSMN_ARRAY),
      tok_start = int (pos p), tok_end = -1, tok_size = 0, tok_parent = toksuper p\<rparr>"
  have len: "length (toks p) < num"
    and p': "p' = p1\<lparr>toks := toks p1 @ [t], toksuper := int (length (toks p)),
                    tok_count := tok_count p + 1\<rparr>"
    using assms(1,2) jsmn_open_Inr [of p num c p']
    by (auto simp: p1_def t_def Let_def jsmn_inv_def)
  have p1: "jsmn_inv js num p1" "length (toks p1) = length (toks p)" "pos p1 = pos p"
    "tok_count p1 = tok_count p"
    using assms(1) by (auto simp: p1_def intro: jsmn_inv_size)
  have "tok_ok (length js) (pos p1) (length (toks p1)) t"
    using assms(1) by (auto simp: t_def tok_ok_def jsmn_inv_def p1)
  with p1 len have "jsmn_inv js num (p1\<lparr>toks := toks p1 @ [t], tok_count := tok_count p1 + 1,
      pos := pos p1\<rparr>)"
    by (intro jsmn_inv_append) auto
  then have "jsmn_inv js num ((p1\<lparr>toks := toks p1 @ [t], tok_count := tok_count p1 + 1,
      pos := pos p1\<rparr>)\<lparr>toksuper := int (length (toks p))\<rparr>)"
    by (rule jsmn_inv_super) (auto simp: p1)
  then show ?thesis using p1(3,4) unfolding p' by (cases p1) simp
qed

lemma jsmn_inv_end:
  assumes "jsmn_inv js num p" and "pos p < length js" and "i < length (toks p)"
  shows "jsmn_inv js num (upd_tok i (\<lambda>t. t\<lparr>tok_end := int (pos p) + 1\<rparr>) p)"
  using assms by (auto simp: jsmn_inv_def nth_upd tok_ok_def)

text \<open>The walk up the parent links ends, and stays inside the tokens.\<close>

lemma jsmn_inv_close_walk:
  assumes "jsmn_inv js num p" and "pos p < length js" and "i < length (toks p)" and "i < fuel"
  shows "jsmn_close_walk fuel i ty p \<noteq> Inl JSMN_HANG \<and>
         (\<forall>p'. jsmn_close_walk fuel i ty p = Inr p' \<longrightarrow> jsmn_inv js num p')"
  using assms
proof (induction fuel i ty p rule: jsmn_close_walk.induct)
  case (1 i ty p)
  then show ?case by simp
next
  case (2 fuel i ty p)
  have ok: "tok_ok (length js) (pos p) i (toks p ! i)"
    using "2.prems" by (auto simp: jsmn_inv_def)
  have closed: "jsmn_inv js num
      ((upd_tok i (\<lambda>t. t\<lparr>tok_end := int (pos p) + 1\<rparr>) p)\<lparr>toksuper := tok_parent (toks p ! i)\<rparr>)"
    using ok "2.prems" by (intro jsmn_inv_super jsmn_inv_end) (auto simp: tok_ok_def)
  have up: "tok_parent (toks p ! i) \<noteq> -1 \<Longrightarrow>
      nat (tok_parent (toks p ! i)) < length (toks p) \<and> nat (tok_parent (toks p ! i)) < fuel"
    using ok "2.prems" by (auto simp: tok_ok_def)
  show ?case
    using closed up "2.IH" "2.prems" by (auto simp: Let_def)
qed

lemma jsmn_inv_close:
  assumes "jsmn_inv js num p" and "pos p < length js"
  shows "jsmn_close c p \<noteq> Inl JSMN_HANG \<and> (\<forall>p'. jsmn_close c p = Inr p' \<longrightarrow> jsmn_inv js num p')"
  using jsmn_inv_close_walk [of js num p "length (toks p) - 1" "length (toks p)"] assms
  by (auto simp: jsmn_close_def)

lemma jsmn_inv_comma: "jsmn_inv js num p \<Longrightarrow> jsmn_inv js num (jsmn_comma p)"
proof -
  assume inv: "jsmn_inv js num p"
  show ?thesis
  proof (cases "toksuper p = -1")
    case False
    with inv have "nat (toksuper p) < length (toks p)" by (auto simp: jsmn_inv_def)
    with inv have "-1 \<le> tok_parent (toks p ! nat (toksuper p))"
      "tok_parent (toks p ! nat (toksuper p)) < int (nat (toksuper p))"
      by (auto simp: jsmn_inv_def tok_ok_def simp del: int_nat_eq)
    then have "tok_parent (toks p ! nat (toksuper p)) < int (length (toks p))"
      using \<open>nat (toksuper p) < length (toks p)\<close> by linarith
    with inv \<open>-1 \<le> tok_parent (toks p ! nat (toksuper p))\<close> show ?thesis
      by (auto simp: jsmn_comma_def intro!: jsmn_inv_super)
  qed (use inv in \<open>simp add: jsmn_comma_def\<close>)
qed

lemma prim_scan_no_hang: "prim_scan js p \<noteq> Inl JSMN_HANG"
proof (induction js p rule: prim_scan.induct)
  case (1 js p)
  then show ?case by (auto simp: prim_scan.simps [of js p])
qed

lemma hex_scan_no_hang: "hex_scan js q i \<noteq> Inl JSMN_HANG"
  by (induction js q i rule: hex_scan.induct) auto

lemma str_scan_no_hang: "str_scan js p \<noteq> Inl JSMN_HANG"
proof (induction js p rule: str_scan.induct)
  case (1 js p)
  then show ?case
    by (auto simp: str_scan.simps [of js p] escape_scan_def hex_scan_no_hang split: sum.splits)
qed

lemma jsmn_leaf_no_hang:
  "jsmn_parse_string js num p \<noteq> Inl JSMN_HANG" "jsmn_parse_primitive js num p \<noteq> Inl JSMN_HANG"
  "jsmn_open num c p \<noteq> Inl JSMN_HANG"
  using str_scan_no_hang [of js] prim_scan_no_hang [of js]
  by (auto simp: jsmn_parse_string_def jsmn_parse_primitive_def jsmn_open_def Let_def
      split: sum.splits option.splits)

lemma map_sum_Inl_iff: "map_sum id g s = Inl e \<longleftrightarrow> s = Inl e"
  by (cases s) auto

lemma jsmn_inv_step:
  assumes "jsmn_inv js num p" and "pos p < length js"
  shows "jsmn_step js num p \<noteq> Inl JSMN_HANG \<and>
         (\<forall>p'. jsmn_step js num p = Inr p' \<longrightarrow> jsmn_inv js num p')"
proof -
  have "jsmn_inv js num (p\<lparr>toksuper := int (length (toks p)) - 1\<rparr>)"
    using assms(1) by (rule jsmn_inv_super) auto
  moreover note jsmn_inv_close [OF assms] jsmn_inv_open [OF assms(1) _ assms(2)]
    jsmn_inv_string [OF assms(1)] jsmn_inv_primitive [OF assms(1)] jsmn_inv_comma [OF assms(1)]
  ultimately show ?thesis
    using assms
    by (auto simp: jsmn_step_def Let_def map_sum_Inr_iff map_sum_Inl_iff jsmn_leaf_no_hang)
qed

lemma jsmn_inv_loop:
  "jsmn_inv js num p \<Longrightarrow> jsmn_loop js num p \<noteq> Inl JSMN_HANG \<and>
     (\<forall>p'. jsmn_loop js num p = Inr p' \<longrightarrow> jsmn_inv js num p')"
proof (induction js num p rule: jsmn_loop.induct)
  case (1 js num p)
  show ?case
  proof (cases "pos p < length js \<and> js ! pos p \<noteq> NUL")
    case True
    with "1.prems" have step: "jsmn_step js num p \<noteq> Inl JSMN_HANG"
      "\<And>p'. jsmn_step js num p = Inr p' \<Longrightarrow> jsmn_inv js num p'"
      using jsmn_inv_step by auto
    show ?thesis
    proof (cases "jsmn_step js num p")
      case (Inl e)
      with True step(1) show ?thesis by (auto simp: jsmn_loop.simps [of js num p])
    next
      case (Inr p')
      then have "jsmn_inv js num (p'\<lparr>pos := Suc (pos p')\<rparr>)"
        using step(2) jsmn_inv_advance by auto
      with True Inr show ?thesis
        using "1.IH" [OF True Inr] by (simp add: jsmn_loop.simps [of js num p])
    qed
  next
    case False
    with "1.prems" show ?thesis by (auto simp: jsmn_loop.simps [of js num p])
  qed
qed

subsection \<open>What a successful parse promises\<close>

text \<open>Every token is closed, lies inside the text and is linked to an earlier token.\<close>

definition tok_closed :: "nat \<Rightarrow> nat \<Rightarrow> jsmntok_t \<Rightarrow> bool" where
  "tok_closed n i t \<longleftrightarrow> tok_type t \<noteq> JSMN_UNDEFINED \<and> 0 \<le> tok_start t \<and> tok_start t \<le> tok_end t
     \<and> tok_end t \<le> int n \<and> -1 \<le> tok_parent t \<and> tok_parent t < int i"

lemma jsmn_parse_closed:
  assumes "jsmn_parse js num = Inr (n, ts)"
  shows "n = int (length ts) \<and> length ts \<le> num
         \<and> (\<forall>i < length ts. tok_closed (length js) i (ts ! i))"
proof -
  from assms obtain p where p: "jsmn_loop js num jsmn_init = Inr p" "toks p = ts" "tok_count p = n"
    and ends: "\<forall>t \<in> set ts. tok_start t \<noteq> -1 \<longrightarrow> tok_end t \<noteq> -1"
    by (auto simp: jsmn_parse_def split: sum.splits if_splits)
  from p have "jsmn_inv js num p" using jsmn_inv_loop [OF jsmn_inv_init] by auto
  with p ends show ?thesis
    by (fastforce simp: jsmn_inv_def tok_ok_def tok_closed_def)
qed

lemma jsmn_parse_no_hang: "jsmn_parse js num \<noteq> Inl JSMN_HANG"
  using jsmn_inv_loop [OF jsmn_inv_init, of js num]
  by (auto simp: jsmn_parse_def split: sum.splits)

end
