(* ===== verification/JsonText.thy ===== *)
theory JsonText
  imports Jsmn
begin

section \<open>JSON string literals: four writers, two readers\<close>

text \<open>
  The writers \<open>sb_json_str\<close> (src/src/json.c), the loop of \<open>app_quote\<close> (src/src/app/core.c),
  \<open>gd_put_json\<close> and the loop of \<open>geistd_tokenize\<close> (src/clients/geistd_client.h) escape one byte
  at a time; the readers are the loop of \<open>json_strdup\<close> (src/src/json.c) and \<open>gd_unescape\<close>
  (src/clients/geistd_client.h). What the writers share is the locale \<open>json_escaper\<close>: its lemmas
  say that the tokenizer crosses the written literal up to its closing quote and that both readers
  give the written bytes back.
\<close>

unbundle bit_operations_syntax

subsection \<open>Hexadecimal\<close>

definition hexdig :: "nat \<Rightarrow> char" where
  "hexdig n = char_of (if n < 10 then 48 + n else 87 + n)"

text \<open>\<open>printf("\\u%04x", c)\<close>.\<close>

definition u_escape :: "nat \<Rightarrow> string" where
  "u_escape n = [BACKSLASH, CHR ''u'', hexdig (n div 4096 mod 16), hexdig (n div 256 mod 16),
                 hexdig (n div 16 mod 16), hexdig (n mod 16)]"

text \<open>The value of a hexadecimal digit; 16 for any other byte, as in \<open>gd_unescape\<close>.\<close>

definition hexval :: "char \<Rightarrow> nat" where
  "hexval c = (if 48 \<le> byte c \<and> byte c \<le> 57 then byte c - 48
               else if 97 \<le> byte c \<and> byte c \<le> 102 then byte c - 97 + 10
               else if 65 \<le> byte c \<and> byte c \<le> 70 then byte c - 65 + 10 else 16)"

fun hexdigits :: "nat \<Rightarrow> string \<Rightarrow> nat \<times> string" where
  "hexdigits acc [] = (acc, [])"
| "hexdigits acc (c # cs) = (if hexval c = 16 then (acc, c # cs) else hexdigits (acc * 16 + hexval c) cs)"

text \<open>
  The standard library's \<open>strtoul(s, &end, 16)\<close>: white space, a sign, an optional \<open>0x\<close>, then
  digits; the value as the \<open>unsigned\<close> it is converted to, and what \<open>end\<close> points at. The texts
  given to it here have at most four bytes, so it cannot overflow.
\<close>

definition strtoul16 :: "string \<Rightarrow> nat \<times> string" where
  "strtoul16 s =
     (let s1 = dropWhile (\<lambda>c. c = CHR '' '' \<or> (9 \<le> byte c \<and> byte c \<le> 13)) s;
          neg = (s1 \<noteq> [] \<and> hd s1 = CHR ''-'');
          s2 = (if s1 \<noteq> [] \<and> (hd s1 = CHR ''-'' \<or> hd s1 = CHR ''+'') then tl s1 else s1);
          s3 = (case s2 of
                  z # x # d # r \<Rightarrow> if z = CHR ''0'' \<and> (x = CHR ''x'' \<or> x = CHR ''X'') \<and> hexval d \<noteq> 16
                                  then d # r else s2
                | _ \<Rightarrow> s2)
      in if s3 = [] \<or> hexval (hd s3) = 16 then (0, s)
         else case hexdigits 0 s3 of (v, r) \<Rightarrow> (if neg then (2 ^ 32 - v) mod 2 ^ 32 else v, r))"

subsection \<open>UTF-8\<close>

text \<open>The bytes written for a code point; the casts to \<open>char\<close> keep the low eight bits.\<close>

definition utf8 :: "nat \<Rightarrow> string" where
  "utf8 cp =
     (if cp < 0x80 then [char_of cp]
      else if cp < 0x800 then
        [char_of (0xC0 OR (cp div 2 ^ 6)), char_of (0x80 OR (cp AND 0x3F))]
      else if cp < 0x10000 then
        [char_of (0xE0 OR (cp div 2 ^ 12)), char_of (0x80 OR ((cp div 2 ^ 6) AND 0x3F)),
         char_of (0x80 OR (cp AND 0x3F))]
      else
        [char_of (0xF0 OR (cp div 2 ^ 18)), char_of (0x80 OR ((cp div 2 ^ 12) AND 0x3F)),
         char_of (0x80 OR ((cp div 2 ^ 6) AND 0x3F)), char_of (0x80 OR (cp AND 0x3F))])"

definition surrogate_pair :: "nat \<Rightarrow> nat \<Rightarrow> nat" where
  "surrogate_pair hi lo = 0x10000 + (hi - 0xD800) * 2 ^ 10 + (lo - 0xDC00)"

subsection \<open>The reader of json.c\<close>

text \<open>The case \<open>'u'\<close> of \<open>json_strdup\<close> with \<open>r\<close> the bytes after the \<open>u\<close>: what it writes and the
  bytes the loop goes on with. Four digits that are missing write nothing.\<close>

definition strdup_u :: "string \<Rightarrow> string \<times> string" where
  "strdup_u r =
     (if length r < 4 then ([], r)
      else
        let cp = fst (strtoul16 (take 4 r)); r4 = drop 4 r in
        if 0xD800 \<le> cp \<and> cp \<le> 0xDBFF \<and> 6 \<le> length r4 \<and> r4 ! 0 = BACKSLASH \<and> r4 ! 1 = CHR ''u'' then
          (let lo = fst (strtoul16 (take 4 (drop 2 r4))) in
           if 0xDC00 \<le> lo \<and> lo \<le> 0xDFFF then (utf8 (surrogate_pair cp lo), drop 6 r4)
           else (utf8 cp, r4))
        else (utf8 cp, r4))"

lemma strdup_u_shorter: "strdup_u r = (out, r') \<Longrightarrow> length r' \<le> length r"
  by (auto simp: strdup_u_def Let_def split: if_splits)

function json_unescape :: "string \<Rightarrow> string" where
  "json_unescape [] = []"
| "json_unescape [c] = [c]"
| "json_unescape (c # e # r) =
     (if c \<noteq> BACKSLASH then c # json_unescape (e # r)
      else if e = CHR ''n'' then CHR 0x0A # json_unescape r
      else if e = CHR ''t'' then CHR 0x09 # json_unescape r
      else if e = CHR ''r'' then CHR 0x0D # json_unescape r
      else if e = CHR ''b'' then CHR 0x08 # json_unescape r
      else if e = CHR ''f'' then CHR 0x0C # json_unescape r
      else if e = CHR ''u'' then (case strdup_u r of (out, r') \<Rightarrow> out @ json_unescape r')
      else e # json_unescape r)"
  by pat_completeness auto
termination
  by (relation "measure length") (auto dest!: strdup_u_shorter [OF sym])

subsection \<open>The reader of the client\<close>

text \<open>The case \<open>'u'\<close> of \<open>gd_unescape\<close>: a missing or bad digit and a lone surrogate fail.\<close>

definition gd_u :: "string \<Rightarrow> (string \<times> string) option" where
  "gd_u r =
     (if length r < 4 \<or> (\<exists>c \<in> set (take 4 r). hexval c = 16) then None
      else
        let cp = fst (hexdigits 0 (take 4 r)); r4 = drop 4 r in
        if 0xD800 \<le> cp \<and> cp \<le> 0xDBFF then
          (if length r4 < 6 \<or> r4 ! 0 \<noteq> BACKSLASH \<or> r4 ! 1 \<noteq> CHR ''u'' then None
           else case strtoul16 (take 4 (drop 2 r4)) of (low, rest) \<Rightarrow>
             if (rest \<noteq> [] \<and> hd rest \<noteq> NUL) \<or> low < 0xDC00 \<or> 0xDFFF < low then None
             else Some (utf8 (surrogate_pair cp low), drop 6 r4))
        else if 0xDC00 \<le> cp \<and> cp \<le> 0xDFFF then None
        else Some (utf8 cp, r4))"

lemma gd_u_shorter: "gd_u r = Some (out, r') \<Longrightarrow> length r' \<le> length r"
  by (auto simp: gd_u_def Let_def split: if_splits prod.splits)

function gd_unescape :: "string \<Rightarrow> string option" where
  "gd_unescape [] = Some []"
| "gd_unescape [c] = Some [c]"
| "gd_unescape (c # e # r) =
     (if c \<noteq> BACKSLASH then map_option (Cons c) (gd_unescape (e # r))
      else if e = CHR ''n'' then map_option (Cons (CHR 0x0A)) (gd_unescape r)
      else if e = CHR ''t'' then map_option (Cons (CHR 0x09)) (gd_unescape r)
      else if e = CHR ''r'' then map_option (Cons (CHR 0x0D)) (gd_unescape r)
      else if e = CHR ''b'' then map_option (Cons (CHR 0x08)) (gd_unescape r)
      else if e = CHR ''f'' then map_option (Cons (CHR 0x0C)) (gd_unescape r)
      else if e = CHR ''u'' then
        (case gd_u r of None \<Rightarrow> None | Some (out, r') \<Rightarrow> map_option (append out) (gd_unescape r'))
      else map_option (Cons e) (gd_unescape r))"
  by pat_completeness auto
termination
  by (relation "measure length") (auto dest!: gd_u_shorter)

subsection \<open>The four writers, one byte at a time\<close>

definition sb_esc :: "char \<Rightarrow> string" where
  "sb_esc c =
     (if c = DQUOTE then [BACKSLASH, DQUOTE]
      else if c = BACKSLASH then [BACKSLASH, BACKSLASH]
      else if c = CHR 0x0A then [BACKSLASH, CHR ''n'']
      else if c = CHR 0x0D then [BACKSLASH, CHR ''r'']
      else if c = CHR 0x09 then [BACKSLASH, CHR ''t'']
      else if byte c < 0x20 then u_escape (byte c)
      else [c])"

definition app_esc :: "char \<Rightarrow> string" where
  "app_esc c =
     (if c = DQUOTE \<or> c = BACKSLASH then [BACKSLASH, c]
      else if byte c < 32 then u_escape (byte c)
      else [c])"

definition gd_esc :: "char \<Rightarrow> string" where
  "gd_esc c =
     (if c = DQUOTE \<or> c = BACKSLASH then [BACKSLASH, c]
      else if byte c < 0x20 then u_escape (byte c)
      else [c])"

definition tok_esc :: "char \<Rightarrow> string" where
  "tok_esc c =
     (if c = DQUOTE \<or> c = BACKSLASH then [BACKSLASH, c]
      else if c = CHR 0x0A then [BACKSLASH, CHR ''n'']
      else if byte c < 0x20 then u_escape (byte c)
      else [c])"

subsection \<open>Literals of one byte\<close>

text \<open>The byte a two-byte escape stands for.\<close>

definition short_escape :: "char \<Rightarrow> char option" where
  "short_escape e =
     (if e = CHR ''n'' then Some (CHR 0x0A) else if e = CHR ''t'' then Some (CHR 0x09)
      else if e = CHR ''r'' then Some (CHR 0x0D) else if e = CHR ''b'' then Some (CHR 0x08)
      else if e = CHR ''f'' then Some (CHR 0x0C)
      else if e = DQUOTE \<or> e = BACKSLASH \<or> e = CHR ''/'' then Some e else None)"

text \<open>What a writer may write for the byte \<open>c\<close>.\<close>

definition literal_of :: "char \<Rightarrow> string \<Rightarrow> bool" where
  "literal_of c s \<longleftrightarrow>
     (s = [c] \<and> 32 \<le> byte c \<and> c \<noteq> DQUOTE \<and> c \<noteq> BACKSLASH)
     \<or> (\<exists>e. s = [BACKSLASH, e] \<and> short_escape e = Some c)
     \<or> (s = u_escape (byte c) \<and> byte c < 32)"

lemma hexval_hexdig: "n < 16 \<Longrightarrow> hexval (hexdig n) = n"
  by (auto simp: hexval_def hexdig_def)

lemma is_hex_hexdig: "n < 16 \<Longrightarrow> is_hex (hexdig n)"
  by (auto simp: is_hex_def hexdig_def)

lemma hexdig_0: "hexdig 0 = CHR ''0''"
  by code_simp

lemma u_digits:
  assumes "n < 32"
  shows "strtoul16 [hexdig 0, hexdig 0, hexdig (n div 16), hexdig (n mod 16)] = (n, [])"
    and "hexdigits 0 [hexdig 0, hexdig 0, hexdig (n div 16), hexdig (n mod 16)] = (n, [])"
    and "hexval (hexdig (n div 16)) \<noteq> 16" and "hexval (hexdig (n mod 16)) \<noteq> 16"
    and "hexval (hexdig 0) \<noteq> 16" and "is_hex (hexdig 0)"
    and "is_hex (hexdig (n div 16))" and "is_hex (hexdig (n mod 16))"
proof -
  have lt: "n div 16 < 16" "n mod 16 < 16" using assms by auto
  then have h: "hexval (hexdig (n div 16)) = n div 16" "hexval (hexdig (n mod 16)) = n mod 16"
    "n div 16 \<noteq> 16" "n mod 16 \<noteq> 16"
    by (auto simp: hexval_hexdig)
  have h0: "hexval CHR ''0'' = 0" by (simp add: hexval_def)
  from lt have ih: "is_hex (hexdig (n div 16))" "is_hex (hexdig (n mod 16))"
    by (auto simp: is_hex_hexdig)
  from h h0 ih show "strtoul16 [hexdig 0, hexdig 0, hexdig (n div 16), hexdig (n mod 16)] = (n, [])"
    and "hexdigits 0 [hexdig 0, hexdig 0, hexdig (n div 16), hexdig (n mod 16)] = (n, [])"
    and "hexval (hexdig (n div 16)) \<noteq> 16" and "hexval (hexdig (n mod 16)) \<noteq> 16"
    and "hexval (hexdig 0) \<noteq> 16" and "is_hex (hexdig 0)"
    and "is_hex (hexdig (n div 16))" and "is_hex (hexdig (n mod 16))"
    by (simp_all add: hexdig_0 strtoul16_def, simp_all add: is_hex_def)
qed

lemma u_escape_small:
  "n < 32 \<Longrightarrow> u_escape n = [BACKSLASH, CHR ''u'', hexdig 0, hexdig 0, hexdig (n div 16), hexdig (n mod 16)]"
  by (simp add: u_escape_def)

lemma utf8_ascii: "n < 0x80 \<Longrightarrow> utf8 n = [char_of n]"
  by (simp add: utf8_def)

lemma byte_ge_not_nul: "32 \<le> byte c \<Longrightarrow> c \<noteq> NUL"
  by auto

lemma is_hex_not_nul: "is_hex c \<Longrightarrow> c \<noteq> NUL"
  by (auto simp: is_hex_def)

lemma append_one: "(@) [x] = (#) x"
  by (simp add: fun_eq_iff)

lemma short_escape_simple: "short_escape e = Some c \<Longrightarrow> simple_escape e"
  by (auto simp: short_escape_def simple_escape_def split: if_splits)

lemma unescape_plain: "c \<noteq> BACKSLASH \<Longrightarrow> json_unescape (c # r) = c # json_unescape r"
  by (cases r) auto

lemma gd_unescape_plain: "c \<noteq> BACKSLASH \<Longrightarrow> gd_unescape (c # r) = map_option (Cons c) (gd_unescape r)"
  by (cases r) auto

lemma unescape_literal [codec]:
  assumes "literal_of c s"
  shows "json_unescape (s @ r) = c # json_unescape r"
proof -
  consider (plain) "s = [c]" "c \<noteq> BACKSLASH"
    | (short) e where "s = [BACKSLASH, e]" "short_escape e = Some c"
    | (u) "s = u_escape (byte c)" "byte c < 32"
    using assms by (auto simp: literal_of_def)
  then show ?thesis
  proof cases
    case u
    then show ?thesis
      by (simp add: u_escape_small strdup_u_def Let_def u_digits utf8_ascii)
  qed (auto simp: unescape_plain short_escape_def split: if_splits)
qed

lemma gd_unescape_literal [codec]:
  assumes "literal_of c s"
  shows "gd_unescape (s @ r) = map_option (Cons c) (gd_unescape r)"
proof -
  consider (plain) "s = [c]" "c \<noteq> BACKSLASH"
    | (short) e where "s = [BACKSLASH, e]" "short_escape e = Some c"
    | (u) "s = u_escape (byte c)" "byte c < 32"
    using assms by (auto simp: literal_of_def)
  then show ?thesis
  proof cases
    case u
    then have "gd_u ([hexdig 0, hexdig 0, hexdig (byte c div 16), hexdig (byte c mod 16)] @ r) =
        Some ([c], r)"
      by (simp add: gd_u_def Let_def u_digits utf8_ascii del: hexdigits.simps)
    with u show ?thesis
      by (simp add: u_escape_small append_one)
  qed (auto simp: gd_unescape_plain short_escape_def split: if_splits)
qed

lemma hex_scan_run:
  "(\<And>k. k < i \<Longrightarrow> q + k < length js \<and> is_hex (js ! (q + k))) \<Longrightarrow> hex_scan js q i = Inr (q + i)"
proof (induction js q i rule: hex_scan.induct)
  case (2 js q i)
  from "2.prems" [of 0] have "q < length js" "is_hex (js ! q)" by auto
  moreover have "hex_scan js (Suc q) i = Inr (Suc q + i)"
    using calculation is_hex_not_nul "2.prems" [of "Suc k" for k] by (intro "2.IH") auto
  ultimately show ?case by (auto dest: is_hex_not_nul)
qed simp

lemma escape_scan_u:
  assumes "n < 32"
  shows "escape_scan (pre @ u_escape n @ post) (Suc (length pre)) = Inr (length pre + 6)"
proof -
  let ?js = "pre @ u_escape n @ post"
  have at: "?js ! (length pre + k) = (u_escape n @ post) ! k" for k
    by (rule nth_append_length_plus)
  have "hex_scan ?js (length pre + 2) 4 = Inr (length pre + 2 + 4)"
  proof (rule hex_scan_run)
    fix k :: nat
    assume "k < 4"
    then have "k = 0 \<or> k = 1 \<or> k = 2 \<or> k = 3" by auto
    then have "is_hex ((u_escape n @ post) ! (2 + k))" and "length pre + 2 + k < length ?js"
      using assms by (auto simp: u_escape_small u_digits)
    then show "length pre + 2 + k < length ?js \<and> is_hex (?js ! (length pre + 2 + k))"
      using at [of "2 + k"] by (simp only: add.assoc)
  qed
  moreover have "?js ! Suc (length pre) = CHR ''u''"
    using at [of 1] assms by (simp add: u_escape_small)
  ultimately show ?thesis
    by (simp add: escape_scan_def simple_escape_def)
qed

lemma str_scan_literal [codec]:
  assumes "literal_of c s"
  shows "str_scan (pre @ s @ post) (length pre) = str_scan (pre @ s @ post) (length pre + length s)"
proof -
  consider (plain) "s = [c]" "c \<noteq> BACKSLASH" "c \<noteq> DQUOTE" "c \<noteq> NUL"
    | (short) e where "s = [BACKSLASH, e]" "simple_escape e"
    | (u) "s = u_escape (byte c)" "byte c < 32"
    using assms short_escape_simple byte_ge_not_nul by (auto simp: literal_of_def)
  then show ?thesis
  proof cases
    case plain
    then show ?thesis
      by (subst str_scan.simps) (simp add: nth_append)
  next
    case short
    then show ?thesis
      by (subst str_scan.simps) (simp add: nth_append escape_scan_def)
  next
    case u
    then have "escape_scan (pre @ s @ post) (Suc (length pre)) = Inr (length pre + length s)"
      using escape_scan_u [of "byte c" pre post] by (simp add: u_escape_small)
    moreover have "js ! length pre = BACKSLASH" "Suc (length pre) < length js" 
      if "js = pre @ s @ post" for js
      using u that by (simp_all add: u_escape_small)
    ultimately show ?thesis
      by (subst str_scan.simps) auto
  qed
qed

subsection \<open>The contract of a writer, and the four writers\<close>

lemma short_escape_not_nul: "short_escape e = Some c \<Longrightarrow> e \<noteq> NUL"
  by (auto simp: short_escape_def)

lemma literal_of_no_nul:
  assumes "literal_of c s"
  shows "NUL \<notin> set s"
proof -
  consider (plain) "s = [c]" "c \<noteq> NUL"
    | (short) e where "s = [BACKSLASH, e]" "e \<noteq> NUL"
    | (u) "s = u_escape (byte c)" "byte c < 32"
    using assms byte_ge_not_nul short_escape_not_nul unfolding literal_of_def by metis
  then show ?thesis
  proof cases
    case u
    then have "hexdig (byte c div 16) \<noteq> NUL" "hexdig (byte c mod 16) \<noteq> NUL" "hexdig 0 \<noteq> NUL"
      by (auto intro!: is_hex_not_nul u_digits)
    with u show ?thesis by (simp add: u_escape_small)
  qed auto
qed

locale json_escaper =
  fixes esc :: "char \<Rightarrow> string"
  assumes esc_literal: "literal_of c (esc c)"
begin

lemma unescape_escape: "json_unescape (concat (map esc s) @ r) = s @ json_unescape r"
  by (induction s) (simp_all add: unescape_literal [OF esc_literal])

lemma gd_unescape_escape:
  "gd_unescape (concat (map esc s) @ r) = map_option (append s) (gd_unescape r)"
  by (induction s)
    (auto simp: gd_unescape_literal [OF esc_literal] option.map_comp comp_def option.map_ident)

lemma str_scan_escape:
  "str_scan (pre @ concat (map esc s) @ post) (length pre)
     = str_scan (pre @ concat (map esc s) @ post) (length pre + length (concat (map esc s)))"
proof (induction s arbitrary: pre)
  case (Cons c s)
  from str_scan_literal [OF esc_literal, of pre c "concat (map esc s) @ post"]
    Cons.IH [of "pre @ esc c"]
  show ?case by (simp add: add.assoc)
qed simp

text \<open>A whole literal: the tokenizer stops at the quote the writer put behind it.\<close>

lemma str_scan_quoted:
  "str_scan (pre @ concat (map esc s) @ DQUOTE # post) (length pre)
     = Inr (length pre + length (concat (map esc s)))"
  by (subst str_scan_escape, subst str_scan.simps) (simp add: nth_append)

lemma escaped_no_quote_end: "json_unescape (concat (map esc s)) = s"
  using unescape_escape [of s "[]"] by simp

lemma gd_escaped: "gd_unescape (concat (map esc s)) = Some s"
  using gd_unescape_escape [of s "[]"] by simp

text \<open>No byte of a literal is NUL, so it survives as part of a C string.\<close>

lemma literal_no_nul: "NUL \<notin> set (concat (map esc s))"
  using literal_of_no_nul [OF esc_literal] by auto

end

lemma literal_of_short: "short_escape e = Some c \<Longrightarrow> literal_of c [BACKSLASH, e]"
  by (auto simp: literal_of_def)

interpretation sb: json_escaper sb_esc
  by unfold_locales (auto simp: sb_esc_def literal_of_def short_escape_def not_less)

interpretation app_quoting: json_escaper app_esc
  by unfold_locales (auto simp: app_esc_def literal_of_def short_escape_def not_less)

interpretation gd: json_escaper gd_esc
  by unfold_locales (auto simp: gd_esc_def literal_of_def short_escape_def not_less)

interpretation gd_tokenize: json_escaper tok_esc
  by unfold_locales (auto simp: tok_esc_def literal_of_def short_escape_def not_less)

text \<open>\<open>sb_printf\<close> formats into 512 bytes and appends what fits.\<close>

definition sb_printf :: "string \<Rightarrow> string" where
  "sb_printf s = take 511 s"

text \<open>The whole literals, quotes included, as the writers append them.\<close>

definition sb_json_str :: "string \<Rightarrow> string" where
  "sb_json_str s = DQUOTE # concat (map sb_esc s) @ [DQUOTE]"

definition gd_put_json :: "string \<Rightarrow> string" where
  "gd_put_json s = DQUOTE # concat (map gd_esc s) @ [DQUOTE]"

end
