(* ===== verification/Cnum.thy ===== *)
theory Cnum
  imports Complex_Main JsonText
begin

section \<open>Numbers of the C library: doubles, strtod, decimal output\<close>

text \<open>
  A double is an exact rational, an infinity or NaN: comparisons and classification are those of
  C, while the rounding of a result to 53 bits is not modelled. What the repository does with
  doubles read from a request is compare them, clamp them and cast them to an integer, and every
  bound it compares with is a small decimal.
\<close>

datatype dbl = Fin rat | PInf | MInf | NaN

fun dlt :: "dbl \<Rightarrow> dbl \<Rightarrow> bool" where
  "dlt (Fin a) (Fin b) = (a < b)"
| "dlt (Fin a) PInf = True"
| "dlt MInf (Fin b) = True"
| "dlt MInf PInf = True"
| "dlt x y = False"

definition dle :: "dbl \<Rightarrow> dbl \<Rightarrow> bool" where
  "dle x y \<longleftrightarrow> dlt x y \<or> (x = y \<and> x \<noteq> NaN)"

definition dfinite :: "dbl \<Rightarrow> bool" where
  "dfinite x \<longleftrightarrow> (case x of Fin _ \<Rightarrow> True | _ \<Rightarrow> False)"

lemma dlt_Fin [simp]: "dle (Fin a) (Fin b) = (a \<le> b)"
  by (auto simp: dle_def)

lemma dlt_NaN [simp]: "\<not> dlt NaN y" "\<not> dlt x NaN"
  by (cases y; simp) (cases x; simp)

text \<open>A cast to an unsigned type of \<open>w\<close> bits drops the fraction; out of range it is undefined.\<close>

definition to_unsigned :: "nat \<Rightarrow> dbl \<Rightarrow> nat option" where
  "to_unsigned w x =
     (case x of Fin q \<Rightarrow> if -1 < q \<and> q < 2 ^ w then Some (nat \<lfloor>q\<rfloor>) else None | _ \<Rightarrow> None)"

subsection \<open>Decimal digits\<close>

definition is_digit :: "char \<Rightarrow> bool" where
  "is_digit c \<longleftrightarrow> 48 \<le> byte c \<and> byte c \<le> 57"

definition digit_val :: "char \<Rightarrow> nat" where
  "digit_val c = byte c - 48"

fun digits :: "nat \<Rightarrow> string \<Rightarrow> nat \<times> string" where
  "digits acc [] = (acc, [])"
| "digits acc (c # cs) = (if is_digit c then digits (acc * 10 + digit_val c) cs else (acc, c # cs))"

text \<open>The digits \<open>printf\<close> writes for \<open>%u\<close> and \<open>%zu\<close>.\<close>

function dec :: "nat \<Rightarrow> string" where
  "dec n = (if n < 10 then [char_of (48 + n)] else dec (n div 10) @ [char_of (48 + n mod 10)])"
  by pat_completeness auto
termination by (relation "measure id") auto

declare dec.simps [simp del]

text \<open>\<open>%d\<close>.\<close>

definition deci :: "int \<Rightarrow> string" where
  "deci i = (if i < 0 then CHR ''-'' # dec (nat (- i)) else dec (nat i))"

lemma dec_digits: "list_all is_digit (dec n)"
proof (induction n rule: dec.induct)
  case (1 n)
  show ?case
  proof (cases "n < 10")
    case True
    then show ?thesis by (simp add: dec.simps [of n] is_digit_def)
  next
    case False
    moreover from False have "n mod 10 < 10" by simp
    ultimately show ?thesis
      using "1.IH" by (simp add: dec.simps [of n] is_digit_def)
  qed
qed

lemma dec_nonempty: "dec n \<noteq> []"
  by (subst dec.simps) simp

lemma digits_append:
  "list_all is_digit ds \<Longrightarrow> digits acc (ds @ r) = digits (fst (digits acc ds)) r"
  by (induction ds arbitrary: acc) auto

lemma digits_snoc:
  "list_all is_digit ds \<Longrightarrow> is_digit d \<Longrightarrow>
     fst (digits acc (ds @ [d])) = fst (digits acc ds) * 10 + digit_val d"
  by (induction ds arbitrary: acc) auto

text \<open>Reading back what was printed, up to the first byte that is no digit.\<close>

lemma digits_dec_value: "fst (digits 0 (dec n)) = n"
proof (induction n rule: dec.induct)
  case (1 n)
  show ?case
  proof (cases "n < 10")
    case True
    then show ?thesis by (simp add: dec.simps [of n] is_digit_def digit_val_def)
  next
    case False
    have "n mod 10 < 10" by simp
    with False "1.IH" show ?thesis
      by (simp add: dec.simps [of n] digits_snoc [OF dec_digits] is_digit_def digit_val_def)
  qed
qed

lemma digits_all: "list_all is_digit ds \<Longrightarrow> snd (digits acc ds) = []"
  by (induction ds arbitrary: acc) auto

lemma digits_dec [codec]: "r = [] \<or> \<not> is_digit (hd r) \<Longrightarrow> digits 0 (dec n @ r) = (n, r)"
  using digits_all [OF dec_digits, of 0 n] digits_dec_value [of n]
  by (cases r) (auto simp: digits_append [OF dec_digits] prod_eq_iff)

subsection \<open>strtod\<close>

text \<open>
  \<open>strtod\<close> at a text whose first byte is a minus sign or a digit, the only way the repository
  calls it on a request: an optional sign, then \<open>nan\<close>, \<open>inf\<close>, a hexadecimal or a decimal number
  with an optional fraction and exponent; 0 when nothing can be read.
\<close>

definition lower :: "char \<Rightarrow> char" where
  "lower c = (if 65 \<le> byte c \<and> byte c \<le> 90 then char_of (byte c + 32) else c)"

definition exponent :: "char \<Rightarrow> string \<Rightarrow> int" where
  "exponent e s =
     (case s of
        x # r \<Rightarrow>
          if lower x = e then
            (let neg = (r \<noteq> [] \<and> hd r = CHR ''-'');
                 r1 = (if r \<noteq> [] \<and> (hd r = CHR ''-'' \<or> hd r = CHR ''+'') then tl r else r);
                 v = int (fst (digits 0 r1))
             in if neg then - v else v)
          else 0
      | [] \<Rightarrow> 0)"

definition strtod_abs :: "string \<Rightarrow> dbl" where
  "strtod_abs s =
     (let l = map lower s in
      if take 3 l = ''nan'' then NaN
      else if take 3 l = ''inf'' then PInf
      else if take 2 l = ''0x'' \<and> (case drop 2 s of d # r \<Rightarrow> hexval d \<noteq> 16
                \<or> (d = CHR ''.'' \<and> r \<noteq> [] \<and> hexval (hd r) \<noteq> 16) | [] \<Rightarrow> False) then
        (case hexdigits 0 (drop 2 s) of (m, r) \<Rightarrow>
           let f = (if r \<noteq> [] \<and> hd r = CHR ''.'' then tl r else []);
               fd = takeWhile (\<lambda>c. hexval c \<noteq> 16) f;
               r1 = (if r \<noteq> [] \<and> hd r = CHR ''.'' then drop (length fd) f else r)
           in Fin ((of_nat m + of_nat (fst (hexdigits 0 fd)) / 16 ^ length fd)
                   * 2 powi (exponent CHR ''p'' r1)))
      else
        (case digits 0 s of (m, r) \<Rightarrow>
           let f = (if r \<noteq> [] \<and> hd r = CHR ''.'' then tl r else []);
               fd = takeWhile is_digit f;
               r1 = (if r \<noteq> [] \<and> hd r = CHR ''.'' then drop (length fd) f else r)
           in Fin ((of_nat m + of_nat (fst (digits 0 fd)) / 10 ^ length fd)
                   * 10 powi (exponent CHR ''e'' r1))))"

definition dneg :: "dbl \<Rightarrow> dbl" where
  "dneg x = (case x of Fin q \<Rightarrow> Fin (- q) | PInf \<Rightarrow> MInf | MInf \<Rightarrow> PInf | NaN \<Rightarrow> NaN)"

definition strtod :: "string \<Rightarrow> dbl" where
  "strtod s = (if s \<noteq> [] \<and> hd s = CHR ''-'' then dneg (strtod_abs (tl s)) else strtod_abs s)"

text \<open>A printed integer, followed by what ends a JSON value, is read back exactly.\<close>

lemma dec_hd: "is_digit (hd (dec n))"
  using dec_digits [of n] dec_nonempty [of n] by (cases "dec n") auto

lemma strtod_dec [codec]:
  assumes "r \<noteq> []" and "hd r \<in> {CHR '','', CHR ''}'', CHR '']''}"
  shows "strtod (dec n @ r) = Fin (of_nat n)"
proof -
  obtain c ds where ds: "dec n = c # ds" and c: "is_digit c"
    using dec_hd [of n] dec_nonempty [of n] by (cases "dec n") auto
  obtain e r' where r: "r = e # r'" and e: "e \<in> {CHR '','', CHR ''}'', CHR '']''}"
    using assms by (cases r) auto
  define s where "s = dec n @ r"
  have "\<not> is_digit e" using e by (auto simp: is_digit_def)
  then have d: "digits 0 s = (n, r)" using digits_dec [of r n] by (simp add: r s_def)
  have x: "exponent CHR ''e'' r = 0"
    using e by (auto simp: exponent_def r lower_def)
  have c': "lower c \<noteq> CHR ''n''" "lower c \<noteq> CHR ''i''" "c \<noteq> CHR ''-''"
    using c by (auto simp: lower_def is_digit_def)
  have "take 2 (map lower s) \<noteq> ''0x''"
  proof (cases ds)
    case Nil
    then show ?thesis using e by (auto simp: s_def ds r lower_def)
  next
    case (Cons d ds')
    then have "is_digit d" using dec_digits [of n] by (simp add: ds)
    then show ?thesis by (auto simp: s_def ds Cons lower_def is_digit_def)
  qed
  moreover have "take 3 (map lower s) \<noteq> ''nan''" "take 3 (map lower s) \<noteq> ''inf''"
    "s \<noteq> []" "hd s \<noteq> CHR ''-''"
    using c' by (simp_all add: s_def ds)
  moreover have "hd r \<noteq> CHR ''.''" using e r by auto
  ultimately have "strtod s = Fin (of_nat n)"
    using d x by (simp add: strtod_def strtod_abs_def Let_def)
  then show ?thesis by (simp add: s_def)
qed

end
