(* ===== verification/Json.thy ===== *)
theory Json
  imports Cnum
begin

section \<open>The JSON reader (src/src/json.c)\<close>

text \<open>
  \<open>struct json\<close>: the text, its tokens and their number. \<open>json_parse\<close> returns the record, or
  \<open>None\<close> where the C leaves \<open>j->n = -1\<close> and returns it (every caller gives up on a negative
  result). Token numbers are \<^typ>\<open>int\<close>, \<open>-1\<close> for an absent one, as in the code. Allocations
  are taken to succeed.
\<close>

definition JSON_TOK_CAP :: nat where
  "JSON_TOK_CAP = 4096"

record json =
  src :: string
  tok :: "jsmntok_t list"
  json_n :: int

abbreviation (input) tok_at :: "json \<Rightarrow> int \<Rightarrow> jsmntok_t" where
  "tok_at j t \<equiv> tok j ! nat t"

definition json_parse :: "string \<Rightarrow> json option" where
  "json_parse s =
     (case jsmn_parse s JSON_TOK_CAP of
        Inl e \<Rightarrow> None
      | Inr (n, ts) \<Rightarrow>
          if n < 1 \<or> tok_type (ts ! 0) \<noteq> JSMN_OBJECT then None
          else if \<exists>i \<in> {1..<nat n}. tok_parent (ts ! i) < 0 then None
          else Some \<lparr>src = s, tok = ts, json_n = n\<rparr>)"

text \<open>The bytes of token \<open>t\<close>.\<close>

definition tok_text :: "json \<Rightarrow> int \<Rightarrow> string" where
  "tok_text j t =
     take (nat (tok_end (tok_at j t) - tok_start (tok_at j t))) (drop (nat (tok_start (tok_at j t))) (src j))"

definition json_key_at :: "json \<Rightarrow> int \<Rightarrow> string \<Rightarrow> nat \<Rightarrow> bool" where
  "json_key_at j obj key i \<longleftrightarrow>
     tok_parent (tok j ! i) = obj \<and> tok_type (tok j ! i) = JSMN_STRING
     \<and> tok_end (tok j ! i) - tok_start (tok j ! i) = int (length key)
     \<and> tok_text j (int i) = key \<and> int i + 1 < json_n j"

definition json_get :: "json \<Rightarrow> int \<Rightarrow> string \<Rightarrow> int" where
  "json_get j obj key =
     (if obj < 0 \<or> tok_type (tok_at j obj) \<noteq> JSMN_OBJECT then -1
      else case find (json_key_at j obj key) [nat obj + 1 ..< nat (json_n j)] of
             None \<Rightarrow> -1
           | Some i \<Rightarrow> int i + 1)"

definition json_is_str :: "json \<Rightarrow> int \<Rightarrow> bool" where
  "json_is_str j t \<longleftrightarrow> t \<ge> 0 \<and> tok_type (tok_at j t) = JSMN_STRING"

text \<open>The result is used as a C string, so what counts is the part before a NUL byte.\<close>

definition json_strdup :: "json \<Rightarrow> int \<Rightarrow> string option" where
  "json_strdup j t = (if json_is_str j t then Some (cstr (json_unescape (tok_text j t))) else None)"

text \<open>The byte at the start of token \<open>t\<close>, and the text \<open>strtod\<close> is called on, which goes on to
  the NUL byte the reader of a frame puts behind the text.\<close>

definition tok_char :: "json \<Rightarrow> int \<Rightarrow> char" where
  "tok_char j t = src j ! nat (tok_start (tok_at j t))"

definition tok_rest :: "json \<Rightarrow> int \<Rightarrow> string" where
  "tok_rest j t = drop (nat (tok_start (tok_at j t))) (src j)"

definition json_num :: "json \<Rightarrow> int \<Rightarrow> dbl \<Rightarrow> dbl" where
  "json_num j t dflt =
     (if t < 0 \<or> tok_type (tok_at j t) \<noteq> JSMN_PRIMITIVE then dflt
      else if tok_char j t \<noteq> CHR ''-'' \<and> \<not> is_digit (tok_char j t) then dflt
      else strtod (tok_rest j t))"

text \<open>The clamped number, and whether \<open>*bad\<close> is set.\<close>

definition json_clamp :: "json \<Rightarrow> int \<Rightarrow> dbl \<Rightarrow> dbl \<Rightarrow> dbl \<Rightarrow> dbl \<times> bool" where
  "json_clamp j t dflt lo hi =
     (let bad = (t \<ge> 0 \<and> (tok_type (tok_at j t) \<noteq> JSMN_PRIMITIVE
                          \<or> tok_char j t = CHR ''t'' \<or> tok_char j t = CHR ''f''));
          v = json_num j t dflt;
          v1 = (if v = NaN then dflt else v)
      in (if dlt v1 lo then lo else if dlt hi v1 then hi else v1, bad))"

definition json_bool :: "json \<Rightarrow> int \<Rightarrow> bool \<Rightarrow> bool" where
  "json_bool j t dflt =
     (if t < 0 \<or> tok_type (tok_at j t) \<noteq> JSMN_PRIMITIVE then dflt else tok_char j t = CHR ''t'')"

subsection \<open>Well-formed documents\<close>

definition json_ok :: "json \<Rightarrow> bool" where
  "json_ok j \<longleftrightarrow> json_n j = int (length (tok j)) \<and> 1 \<le> json_n j \<and> length (tok j) \<le> JSON_TOK_CAP
     \<and> tok_type (tok j ! 0) = JSMN_OBJECT
     \<and> (\<forall>i < length (tok j). tok_closed (length (src j)) i (tok j ! i))
     \<and> (\<forall>i. 1 \<le> i \<and> i < length (tok j) \<longrightarrow> 0 \<le> tok_parent (tok j ! i))"

lemma json_parse_ok: "json_parse s = Some j \<Longrightarrow> json_ok j \<and> src j = s"
proof -
  assume "json_parse s = Some j"
  then obtain n ts where p: "jsmn_parse s JSON_TOK_CAP = Inr (n, ts)"
    and n: "1 \<le> n" "tok_type (ts ! 0) = JSMN_OBJECT" "\<forall>i \<in> {1..<nat n}. 0 \<le> tok_parent (ts ! i)"
    and j: "j = \<lparr>src = s, tok = ts, json_n = n\<rparr>"
    by (fastforce simp: json_parse_def not_less split: sum.splits if_splits)
  from jsmn_parse_closed [OF p] n j show ?thesis
    by (auto simp: json_ok_def)
qed

text \<open>A found value is a token: it can be read, and it comes after its object.\<close>

lemma json_get_range:
  assumes "json_ok j" and "json_get j obj key \<noteq> -1"
  shows "obj + 2 \<le> json_get j obj key \<and> json_get j obj key < json_n j"
proof -
  from assms(2) obtain i where "find (json_key_at j obj key) [nat obj + 1 ..< nat (json_n j)] = Some i"
    and o: "0 \<le> obj" and r: "json_get j obj key = int i + 1"
    by (auto simp: json_get_def split: if_splits option.splits)
  then have "i \<in> set [nat obj + 1 ..< nat (json_n j)]" "json_key_at j obj key i"
    by (auto simp: find_Some_iff in_set_conv_nth)
  with o r show ?thesis by (auto simp: json_key_at_def)
qed

end
