(* ===== verification/JsonTree.thy ===== *)
theory JsonTree
  imports Json
begin

section \<open>Written JSON is read back\<close>

text \<open>
  JSON values, the text a writer of the repository makes of them (no white space, strings escaped
  byte by byte), and the tokens the tokenizer makes of that text. The main lemma,
  \<open>jsmn_parse_render\<close>, says that these are exactly the tokens of the tree; \<open>get_render\<close> and
  \<open>strdup_render\<close> read a member of an object back. They hold for every writer that keeps the
  contract \<open>json_escaper\<close>, hence for the daemon's replies and for the client's requests.
\<close>

datatype jval =
    JStr string
  | JPrim string
  | JArr "jval list"
  | JObj "(string \<times> jval) list"

subsection \<open>The text\<close>

definition quoted :: "(char \<Rightarrow> string) \<Rightarrow> string \<Rightarrow> string" where
  "quoted esc s = DQUOTE # concat (map esc s) @ [DQUOTE]"

fun render :: "(char \<Rightarrow> string) \<Rightarrow> jval \<Rightarrow> string"
  and render_elems :: "(char \<Rightarrow> string) \<Rightarrow> jval list \<Rightarrow> string"
  and render_fields :: "(char \<Rightarrow> string) \<Rightarrow> (string \<times> jval) list \<Rightarrow> string"
where
  "render esc (JStr s) = quoted esc s"
| "render esc (JPrim s) = s"
| "render esc (JArr vs) = ''['' @ render_elems esc vs @ '']''"
| "render esc (JObj fs) = ''{'' @ render_fields esc fs @ ''}''"
| "render_elems esc [] = []"
| "render_elems esc (v # vs) = render esc v @ (if vs = [] then [] else CHR '','' # render_elems esc vs)"
| "render_fields esc [] = []"
| "render_fields esc ((k, v) # fs) =
     quoted esc k @ CHR '':'' # render esc v @ (if fs = [] then [] else CHR '','' # render_fields esc fs)"

text \<open>A primitive as the writers print it: a number or a literal, ended by what follows it.\<close>

definition prim_ok :: "string \<Rightarrow> bool" where
  "prim_ok s \<longleftrightarrow> s \<noteq> [] \<and> prim_start (hd s)
     \<and> (\<forall>c \<in> set s. \<not> prim_end c \<and> 32 \<le> byte c \<and> byte c < 127)"

fun jval_ok :: "jval \<Rightarrow> bool" and jvals_ok :: "jval list \<Rightarrow> bool"
  and jfields_ok :: "(string \<times> jval) list \<Rightarrow> bool"
where
  "jval_ok (JStr s) = True"
| "jval_ok (JPrim s) = prim_ok s"
| "jval_ok (JArr vs) = jvals_ok vs"
| "jval_ok (JObj fs) = jfields_ok fs"
| "jvals_ok [] = True"
| "jvals_ok (v # vs) = (jval_ok v \<and> jvals_ok vs)"
| "jfields_ok [] = True"
| "jfields_ok ((k, v) # fs) = (jval_ok v \<and> jfields_ok fs)"

subsection \<open>The tokens\<close>

fun ntoks :: "jval \<Rightarrow> nat" and nelems :: "jval list \<Rightarrow> nat"
  and nfields :: "(string \<times> jval) list \<Rightarrow> nat"
where
  "ntoks (JStr s) = 1"
| "ntoks (JPrim s) = 1"
| "ntoks (JArr vs) = Suc (nelems vs)"
| "ntoks (JObj fs) = Suc (nfields fs)"
| "nelems [] = 0"
| "nelems (v # vs) = ntoks v + nelems vs"
| "nfields [] = 0"
| "nfields ((k, v) # fs) = Suc (ntoks v) + nfields fs"

text \<open>The tokens of a value whose text starts at byte \<open>q\<close>, whose first token has number \<open>n\<close> and
  the parent \<open>par\<close>.\<close>

fun val_toks :: "(char \<Rightarrow> string) \<Rightarrow> nat \<Rightarrow> nat \<Rightarrow> int \<Rightarrow> jval \<Rightarrow> jsmntok_t list"
  and elem_toks :: "(char \<Rightarrow> string) \<Rightarrow> nat \<Rightarrow> nat \<Rightarrow> int \<Rightarrow> jval list \<Rightarrow> jsmntok_t list"
  and field_toks :: "(char \<Rightarrow> string) \<Rightarrow> nat \<Rightarrow> nat \<Rightarrow> int \<Rightarrow> (string \<times> jval) list \<Rightarrow> jsmntok_t list"
where
  "val_toks esc q n par (JStr s) =
     [leaf_tok JSMN_STRING (int q + 1) (int q + int (length (quoted esc s)) - 1) par]"
| "val_toks esc q n par (JPrim s) =
     [leaf_tok JSMN_PRIMITIVE (int q) (int q + int (length s)) par]"
| "val_toks esc q n par (JArr vs) =
     \<lparr>tok_type = JSMN_ARRAY, tok_start = int q, tok_end = int q + int (length (render esc (JArr vs))),
      tok_size = int (length vs), tok_parent = par\<rparr> # elem_toks esc (Suc q) (Suc n) (int n) vs"
| "val_toks esc q n par (JObj fs) =
     \<lparr>tok_type = JSMN_OBJECT, tok_start = int q, tok_end = int q + int (length (render esc (JObj fs))),
      tok_size = int (length fs), tok_parent = par\<rparr> # field_toks esc (Suc q) (Suc n) (int n) fs"
| "elem_toks esc q n par [] = []"
| "elem_toks esc q n par (v # vs) =
     val_toks esc q n par v @ elem_toks esc (q + length (render esc v) + 1) (n + ntoks v) par vs"
| "field_toks esc q n par [] = []"
| "field_toks esc q n par ((k, v) # fs) =
     \<lparr>tok_type = JSMN_STRING, tok_start = int q + 1, tok_end = int q + int (length (quoted esc k)) - 1,
      tok_size = 1, tok_parent = par\<rparr>
     # val_toks esc (q + length (quoted esc k) + 1) (Suc n) (int n) v
     @ field_toks esc (q + length (quoted esc k) + 1 + length (render esc v) + 1) (Suc n + ntoks v) par fs"

lemma length_toks [simp]:
  "length (val_toks esc q n par v) = ntoks v"
  "length (elem_toks esc q n par vs) = nelems vs"
  "length (field_toks esc q n par fs) = nfields fs"
  by (induction esc q n par v and esc q n par vs and esc q n par fs
      rule: val_toks_elem_toks_field_toks.induct) auto

text \<open>The numbers of the first tokens of the elements of an array.\<close>

fun elem_pos :: "nat \<Rightarrow> jval list \<Rightarrow> nat list" where
  "elem_pos m [] = []"
| "elem_pos m (v # vs) = m # elem_pos (m + ntoks v) vs"

lemma val_toks_hd: "tok_parent (val_toks esc q n par v ! 0) = par"
  by (cases v) auto

lemma quoted_length: "2 \<le> length (quoted esc s)"
  by (simp add: quoted_def)

text \<open>Tokens from number \<open>n\<close> on that are closed and hang below token \<open>a\<close>.\<close>

fun linked :: "int \<Rightarrow> nat \<Rightarrow> jsmntok_t list \<Rightarrow> bool" where
  "linked a n [] = True"
| "linked a n (t # ts) =
     (tok_end t \<noteq> -1 \<and> a \<le> tok_parent t \<and> tok_parent t < int n \<and> linked a (Suc n) ts)"

lemma linked_append [simp]: "linked a n (xs @ ys) = (linked a n xs \<and> linked a (n + length xs) ys)"
  by (induction a n xs rule: linked.induct) auto

lemma linked_mono: "linked a n ts \<Longrightarrow> b \<le> a \<Longrightarrow> linked b n ts"
  by (induction a n ts rule: linked.induct) auto

lemma linked_nth:
  "linked a n ts \<Longrightarrow> i < length ts \<Longrightarrow>
     tok_end (ts ! i) \<noteq> -1 \<and> a \<le> tok_parent (ts ! i) \<and> tok_parent (ts ! i) < int (n + i)"
proof (induction a n ts arbitrary: i rule: linked.induct)
  case (2 a n t ts)
  then show ?case by (cases i) auto
qed simp

lemma toks_linked:
  "par < int n \<Longrightarrow> linked par n (val_toks esc q n par v)"
  "par < int n \<Longrightarrow> linked par n (elem_toks esc q n par vs)"
  "par < int n \<Longrightarrow> linked par n (field_toks esc q n par fs)"
proof (induction esc q n par v and esc q n par vs and esc q n par fs
    rule: val_toks_elem_toks_field_toks.induct)
  case (8 esc q n par k v fs)
  from 8 have "linked par (Suc n) (val_toks esc (q + length (quoted esc k) + 1) (Suc n) (int n) v)"
    by (auto intro: linked_mono [of "int n"])
  with 8 quoted_length [of esc k] show ?case by simp
next
  case (3 esc q n par vs)
  from 3 have "linked par (Suc n) (elem_toks esc (Suc q) (Suc n) (int n) vs)"
    by (auto intro: linked_mono [of "int n"])
  with 3 show ?case by simp
next
  case (4 esc q n par fs)
  from 4 have "linked par (Suc n) (field_toks esc (Suc q) (Suc n) (int n) fs)"
    by (auto intro: linked_mono [of "int n"])
  with 4 show ?case by simp
qed (auto simp: quoted_def)

lemma val_toks_tl: "linked (int n) (Suc n) (tl (val_toks esc q n par v))"
  by (cases v) (auto intro: toks_linked)

subsection \<open>Steps over written text\<close>

text \<open>Grow the size of the super token.\<close>

definition grow :: "nat \<Rightarrow> int \<Rightarrow> jsmntok_t list \<Rightarrow> jsmntok_t list" where
  "grow k s ts = (if s = -1 then ts
                  else ts[nat s := (ts ! nat s)\<lparr>tok_size := tok_size (ts ! nat s) + int k\<rparr>])"

lemma length_grow [simp]: "length (grow k s ts) = length ts"
  by (simp add: grow_def)

lemma grow_0 [simp]: "grow 0 s ts = ts"
  by (cases "nat s < length ts") (simp_all add: grow_def)

lemma grow_append: "s = -1 \<or> nat s < length ts \<Longrightarrow> grow k s (ts @ us) = grow k s ts @ us"
  by (auto simp: grow_def nth_append upd_append_left)

lemma grow_grow: "grow j s (grow k s ts) = grow (k + j) s ts"
  by (cases "nat s < length ts") (simp_all add: grow_def add.assoc not_less list_update_beyond)

lemma grow_type [simp]: "i < length ts \<Longrightarrow> tok_type (grow k s ts ! i) = tok_type (ts ! i)"
  by (auto simp: grow_def nth_upd)

definition super_ok :: "jsmn_parser \<Rightarrow> bool" where
  "super_ok p \<longleftrightarrow> -1 \<le> toksuper p \<and> toksuper p < int (length (toks p))"

lemma super_ok_idx: "super_ok p \<Longrightarrow> toksuper p = -1 \<or> nat (toksuper p) < length (toks p)"
  by (auto simp: super_ok_def)

lemma jsmn_counted_grow:
  "jsmn_counted p = p\<lparr>tok_count := tok_count p + 1, toks := grow 1 (toksuper p) (toks p)\<rparr>"
  by (simp add: jsmn_counted_def Let_def grow_def upd_tok_def)

lemma grow_super:
  "s = -1 \<or> nat s < length ts \<Longrightarrow> s \<noteq> -1 \<Longrightarrow>
     grow k s ts ! nat s = (ts ! nat s)\<lparr>tok_size := tok_size (ts ! nat s) + int k\<rparr>"
  by (simp add: grow_def)

abbreviation (input) st_at :: "nat \<Rightarrow> int \<Rightarrow> jsmntok_t list \<Rightarrow> int \<Rightarrow> jsmn_parser" where
  "st_at q s ts c \<equiv> \<lparr>pos = q, toksuper = s, toks = ts, tok_count = c\<rparr>"

lemma jsmn_loop_step:
  assumes "js = pre @ c # post" and "c \<noteq> NUL"
    and "jsmn_step js num (st_at (length pre) s ts n) = Inr p'"
  shows "jsmn_loop js num (st_at (length pre) s ts n) = jsmn_loop js num (p'\<lparr>pos := Suc (pos p')\<rparr>)"
  using assms by (subst jsmn_loop.simps) simp

lemma loop_end: "length js \<le> q \<Longrightarrow> jsmn_loop js num (st_at q s ts n) = Inr (st_at q s ts n)"
  by (subst jsmn_loop.simps) simp

lemma loop_open:
  assumes "js = pre @ c # post" and "c = CHR ''{'' \<or> c = CHR ''[''" and "length ts < num"
    and "s = -1 \<or> nat s < length ts" and "s \<noteq> -1 \<Longrightarrow> tok_type (ts ! nat s) \<noteq> JSMN_OBJECT"
  shows "jsmn_loop js num (st_at (length pre) s ts n) =
     jsmn_loop js num (st_at (Suc (length pre)) (int (length ts))
       (grow 1 s ts @ [\<lparr>tok_type = (if c = CHR ''{'' then JSMN_OBJECT else JSMN_ARRAY),
          tok_start = int (length pre), tok_end = -1, tok_size = 0, tok_parent = s\<rparr>]) (n + 1))"
proof -
  have nz: "c \<noteq> NUL" using assms(2) by auto
  have "jsmn_step js num (st_at (length pre) s ts n) = Inr (st_at (length pre) (int (length ts))
       (grow 1 s ts @ [\<lparr>tok_type = (if c = CHR ''{'' then JSMN_OBJECT else JSMN_ARRAY),
          tok_start = int (length pre), tok_end = -1, tok_size = 0, tok_parent = s\<rparr>]) (n + 1))"
  proof -
    have "jsmn_step js num (st_at (length pre) s ts n) = jsmn_open num c (st_at (length pre) s ts n)"
      using assms(1,2) by (simp add: jsmn_step_def nth_append)
    moreover have "jsmn_open num c (st_at (length pre) s ts n) = Inr (st_at (length pre) (int (length ts))
       (grow 1 s ts @ [\<lparr>tok_type = (if c = CHR ''{'' then JSMN_OBJECT else JSMN_ARRAY),
          tok_start = int (length pre), tok_end = -1, tok_size = 0, tok_parent = s\<rparr>]) (n + 1))"
      using assms(3-5) by (subst jsmn_open_Inr) (auto simp: grow_def upd_tok_def Let_def)
    ultimately show ?thesis by simp
  qed
  from jsmn_loop_step [OF assms(1) nz this] show ?thesis by simp
qed

lemma loop_comma:
  assumes "js = pre @ CHR '','' # post"
  shows "jsmn_loop js num (st_at (length pre) s ts n) =
     jsmn_loop js num ((jsmn_comma (st_at (length pre) s ts n))\<lparr>pos := Suc (length pre)\<rparr>)"
proof -
  have "jsmn_step js num (st_at (length pre) s ts n) = Inr (jsmn_comma (st_at (length pre) s ts n))"
    using assms by (simp add: jsmn_step_def nth_append json_space_def)
  from jsmn_loop_step [OF assms _ this] show ?thesis by simp
qed

lemma loop_colon:
  assumes "js = pre @ CHR '':'' # post"
  shows "jsmn_loop js num (st_at (length pre) s ts n) =
     jsmn_loop js num (st_at (Suc (length pre)) (int (length ts) - 1) ts n)"
proof -
  have "jsmn_step js num (st_at (length pre) s ts n) = Inr (st_at (length pre) (int (length ts) - 1) ts n)"
    using assms by (simp add: jsmn_step_def nth_append json_space_def)
  from jsmn_loop_step [OF assms _ this] show ?thesis by simp
qed

lemma loop_spaces:
  assumes "js = pre @ w" and "\<forall>c \<in> set w. json_space c"
  shows "jsmn_loop js num (st_at (length pre) s ts n) = Inr (st_at (length js) s ts n)"
  using assms
proof (induction w arbitrary: pre)
  case Nil
  then show ?case by (simp add: loop_end)
next
  case (Cons c w)
  have c: "c \<noteq> NUL" "json_space c" using Cons.prems(2) by (auto simp: json_space_def)
  have js: "js = pre @ c # w" using Cons.prems(1) .
  have "jsmn_step js num (st_at (length pre) s ts n) = Inr (st_at (length pre) s ts n)"
    using c by (auto simp: js jsmn_step_def nth_append json_space_def)
  from jsmn_loop_step [OF js c(1) this] show ?case
    using Cons.IH [of "pre @ [c]"] Cons.prems by simp
qed

text \<open>A closing bracket: the walk passes the closed tokens behind the open one.\<close>

lemma close_walk:
  assumes "toks p = us @ t # vs" and "tok_start t \<noteq> -1" and "tok_end t = -1" and "tok_type t = ty"
    and "linked (int (length us)) (Suc (length us)) vs"
    and "length us \<le> i" and "i \<le> length us + length vs" and "i < fuel"
  shows "jsmn_close_walk fuel i ty p =
     Inr (p\<lparr>toks := us @ t\<lparr>tok_end := int (pos p) + 1\<rparr> # vs, toksuper := tok_parent t\<rparr>)"
  using assms
proof (induction fuel arbitrary: i)
  case (Suc fuel)
  show ?case
  proof (cases "i = length us")
    case True
    with Suc.prems show ?thesis
      by (simp add: Let_def nth_append upd_tok_def list_update_append)
  next
    case False
    then obtain j where j: "i = Suc (length us + j)" "j < length vs"
      using Suc.prems(6,7) by (metis Suc_le_lessD add_Suc_right le_neq_implies_less
          less_imp_Suc_add nat_add_left_cancel_le)
    have t: "toks p ! i = vs ! j" using j Suc.prems(1) by (simp add: nth_append)
    from linked_nth [OF Suc.prems(5) j(2)] have l: "tok_end (vs ! j) \<noteq> -1"
      "int (length us) \<le> tok_parent (vs ! j)" "tok_parent (vs ! j) < int (Suc (length us) + j)"
      by auto
    let ?k = "nat (tok_parent (vs ! j))"
    have "jsmn_close_walk (Suc fuel) i ty p = jsmn_close_walk fuel ?k ty p"
      using l by (simp add: t)
    also have "\<dots> = Inr (p\<lparr>toks := us @ t\<lparr>tok_end := int (pos p) + 1\<rparr> # vs,
        toksuper := tok_parent t\<rparr>)"
      using l j t Suc.prems by (intro Suc.IH) auto
    finally show ?thesis .
  qed
qed simp

lemma loop_close:
  assumes "js = pre @ c # post" and "c = CHR ''}'' \<and> tok_type t = JSMN_OBJECT \<or> c = CHR '']'' \<and> tok_type t = JSMN_ARRAY"
    and "ts = us @ t # vs" and "tok_start t \<noteq> -1" and "tok_end t = -1"
    and "linked (int (length us)) (Suc (length us)) vs"
  shows "jsmn_loop js num (st_at (length pre) s ts n) = jsmn_loop js num
     (st_at (Suc (length pre)) (tok_parent t)
       (us @ t\<lparr>tok_end := int (length pre) + 1\<rparr> # vs) n)"
proof -
  have nz: "c \<noteq> NUL" using assms(2) by auto
  have "jsmn_step js num (st_at (length pre) s ts n) = jsmn_close c (st_at (length pre) s ts n)"
    using assms(1,2) by (auto simp: jsmn_step_def nth_append)
  also have "\<dots> = jsmn_close_walk (length ts) (length ts - 1) (tok_type t) (st_at (length pre) s ts n)"
    using assms(2,3) by (auto simp: jsmn_close_def simp del: jsmn_close_walk.simps)
  also have "\<dots> = Inr (st_at (length pre) (tok_parent t)
       (us @ t\<lparr>tok_end := int (length pre) + 1\<rparr> # vs) n)"
    using assms(3-6) by (subst close_walk [of _ us t vs]) auto
  finally show ?thesis using jsmn_loop_step [OF assms(1) nz] by simp
qed

lemma prim_scan_run:
  assumes "\<And>c. c \<in> set x \<Longrightarrow> \<not> prim_end c \<and> 32 \<le> byte c \<and> byte c < 127" and "prim_end d"
  shows "prim_scan (pre @ x @ d # post) (length pre) = Inr (length pre + length x)"
  using assms(1)
proof (induction x arbitrary: pre)
  case Nil
  from assms(2) have "d \<noteq> NUL" by (auto simp: prim_end_def)
  with assms(2) show ?case by (subst prim_scan.simps) (simp add: nth_append)
next
  case (Cons c x)
  have c: "\<not> prim_end c" "32 \<le> byte c" "byte c < 127" using Cons.prems [of c] by auto
  have "c \<noteq> NUL"
  proof
    assume "c = NUL"
    with c(2) show False by simp
  qed
  with c have "prim_scan (pre @ (c # x) @ d # post) (length pre)
      = prim_scan (pre @ (c # x) @ d # post) (Suc (length pre))"
    by (subst prim_scan.simps) (simp add: nth_append)
  with Cons.IH [of "pre @ [c]"] Cons.prems show ?case by simp
qed

text \<open>Where a value may stand: not directly under an object, and under a key only once.\<close>

definition value_place :: "jsmntok_t list \<Rightarrow> int \<Rightarrow> bool" where
  "value_place ts s \<longleftrightarrow> (s = -1 \<or> (0 \<le> s \<and> nat s < length ts
     \<and> tok_type (ts ! nat s) \<noteq> JSMN_OBJECT
     \<and> (tok_type (ts ! nat s) = JSMN_STRING \<longrightarrow> tok_size (ts ! nat s) = 0)))"

lemma loop_prim:
  assumes "js = pre @ x @ d # post" and "prim_ok x" and "prim_end d" and "length ts < num"
    and "value_place ts s"
  shows "jsmn_loop js num (st_at (length pre) s ts n) = jsmn_loop js num
     (st_at (length pre + length x) s (grow 1 s ts @ [leaf_tok JSMN_PRIMITIVE (int (length pre))
        (int (length pre) + int (length x)) s]) (n + 1))"
proof -
  obtain c y where x: "x = c # y" using assms(2) by (cases x) (auto simp: prim_ok_def)
  have c: "prim_start c" using assms(2) by (simp add: prim_ok_def x)
  then have nz: "c \<noteq> NUL" by (auto simp: prim_start_def)
  have "prim_scan js (length pre) = Inr (length pre + length x)"
    using assms(1-3) by (auto simp: prim_ok_def intro!: prim_scan_run)
  then have "jsmn_parse_primitive js num (st_at (length pre) s ts n) =
      Inr (st_at (length pre + length x - 1) s (ts @ [leaf_tok JSMN_PRIMITIVE (int (length pre))
        (int (length pre) + int (length x)) s]) n)"
    using assms(4) by (simp add: jsmn_parse_primitive_Inr)
  moreover have "\<not> prim_refused (st_at (length pre) s ts n)"
    using assms(5) by (auto simp: prim_refused_def value_place_def Let_def)
  moreover have "js ! length pre = c" using assms(1) x by simp
  moreover have "c \<noteq> CHR ''{'' \<and> c \<noteq> CHR ''['' \<and> c \<noteq> CHR ''}'' \<and> c \<noteq> CHR '']'' \<and> c \<noteq> DQUOTE
      \<and> \<not> json_space c \<and> c \<noteq> CHR '':'' \<and> c \<noteq> CHR '',''"
    using c by (auto simp: prim_start_def json_space_def)
  ultimately have "jsmn_step js num (st_at (length pre) s ts n) = Inr (jsmn_counted
      (st_at (length pre + length x - 1) s (ts @ [leaf_tok JSMN_PRIMITIVE (int (length pre))
        (int (length pre) + int (length x)) s]) n))"
    using c by (simp add: jsmn_step_def)
  moreover have "s = -1 \<or> nat s < length ts" using assms(5) by (auto simp: value_place_def)
  ultimately show ?thesis
    using jsmn_loop_step [of js pre c "y @ d # post" num s ts n] nz assms(1)
    by (simp add: x jsmn_counted_grow grow_append)
qed

subsection \<open>Where a value stands\<close>

text \<open>Token \<open>n\<close> of a document is the first token of the value \<open>v\<close>.\<close>

definition is_at :: "(char \<Rightarrow> string) \<Rightarrow> json \<Rightarrow> nat \<Rightarrow> jval \<Rightarrow> bool" where
  "is_at esc j n v \<longleftrightarrow> json_n j = int (length (tok j)) \<and>
     (\<exists>q par r r'. drop n (tok j) = val_toks esc q n par v @ r \<and> drop q (src j) = render esc v @ r'
        \<and> (case v of JPrim x \<Rightarrow> r' \<noteq> [] \<and> hd r' \<in> {CHR '','', CHR ''}'', CHR '']''} | _ \<Rightarrow> True))"

text \<open>The members of an object by their keys as written.\<close>

definition raw_fields :: "(char \<Rightarrow> string) \<Rightarrow> (string \<times> jval) list \<Rightarrow> (string \<times> jval) list" where
  "raw_fields esc fs = map (\<lambda>(k, v). (concat (map esc k), v)) fs"

lemma drop_nth: "drop m xs = ys @ r \<Longrightarrow> i < length ys \<Longrightarrow> xs ! (m + i) = ys ! i \<and> m + i < length xs"
proof -
  assume a: "drop m xs = ys @ r" "i < length ys"
  then have "length xs - m = length ys + length r" by (metis length_append length_drop)
  with a(2) have l: "m + i < length xs" by linarith
  then have "xs ! (m + i) = drop m xs ! i" by (simp add: add.commute)
  with a l show ?thesis by (simp add: nth_append)
qed

lemma find_upt_skip:
  assumes "\<And>i. a \<le> i \<Longrightarrow> i < b \<Longrightarrow> \<not> P i" and "a \<le> b" and "b \<le> n"
  shows "find P [a..<n] = find P [b..<n]"
proof -
  have "[a..<n] = [a..<b] @ [b..<n]" using assms(2,3) by (metis le_add_diff_inverse upt_add_eq_append)
  moreover have "find P (xs @ ys) = find P ys" if "\<forall>x \<in> set xs. \<not> P x" for xs ys
    using that by (induction xs) auto
  ultimately show ?thesis using assms(1) by simp
qed

lemma drop_seg: "drop q xs = a @ b \<Longrightarrow> drop (q + length a) xs = b"
  by (metis add.commute append_eq_conv_conj drop_drop)

subsection \<open>Any writer that keeps the contract\<close>

context json_escaper
begin

lemma loop_string:
  assumes "js = pre @ quoted esc x @ post" and "length ts < num" and "s = -1 \<or> nat s < length ts"
  shows "jsmn_loop js num (st_at (length pre) s ts n) = jsmn_loop js num
     (st_at (length pre + length (quoted esc x)) s (grow 1 s ts @ [leaf_tok JSMN_STRING
        (int (length pre) + 1) (int (length pre) + int (length (quoted esc x)) - 1) s]) (n + 1))"
proof -
  have js: "js = pre @ DQUOTE # concat (map esc x) @ DQUOTE # post"
    using assms(1) by (simp add: quoted_def)
  have "str_scan js (Suc (length pre)) = Inr (Suc (length pre) + length (concat (map esc x)))"
    using str_scan_quoted [of "pre @ [DQUOTE]" x post] by (simp add: js)
  then have "jsmn_parse_string js num (st_at (length pre) s ts n) =
      Inr (st_at (Suc (length pre) + length (concat (map esc x))) s (ts @ [leaf_tok JSMN_STRING
        (int (length pre) + 1) (int (Suc (length pre) + length (concat (map esc x)))) s]) n)"
    using assms(2) by (simp add: jsmn_parse_string_Inr)
  moreover have "js ! length pre = DQUOTE" by (simp add: js)
  ultimately have "jsmn_step js num (st_at (length pre) s ts n) = Inr (jsmn_counted
      (st_at (Suc (length pre) + length (concat (map esc x))) s (ts @ [leaf_tok JSMN_STRING
        (int (length pre) + 1) (int (Suc (length pre) + length (concat (map esc x)))) s]) n))"
    by (simp add: jsmn_step_def)
  then show ?thesis
    using jsmn_loop_step [OF js] assms(3)
    by (simp add: jsmn_counted_grow grow_append quoted_def algebra_simps)
qed

text \<open>The three statements of the induction: a value, the rest of an array, the rest of an object.\<close>

abbreviation value_read :: "string \<Rightarrow> nat \<Rightarrow> jval \<Rightarrow> bool" where
  "value_read js num v \<equiv> (\<forall>pre post ts s n.
     js = pre @ render esc v @ post \<longrightarrow> jval_ok v \<longrightarrow> length ts + ntoks v \<le> num \<longrightarrow>
     value_place ts s \<longrightarrow> (if post = [] then \<forall>x. v \<noteq> JPrim x else prim_end (hd post)) \<longrightarrow>
     jsmn_loop js num (st_at (length pre) s ts n) = jsmn_loop js num
       (st_at (length pre + length (render esc v)) s
          (grow 1 s ts @ val_toks esc (length pre) (length ts) s v) (n + int (ntoks v))))"

abbreviation elems_read :: "string \<Rightarrow> nat \<Rightarrow> jval list \<Rightarrow> bool" where
  "elems_read js num vs \<equiv> (\<forall>pre d post ts s n.
     js = pre @ render_elems esc vs @ d # post \<longrightarrow> jvals_ok vs \<longrightarrow> length ts + nelems vs \<le> num \<longrightarrow>
     0 \<le> s \<and> nat s < length ts \<and> tok_type (ts ! nat s) = JSMN_ARRAY \<longrightarrow> prim_end d \<longrightarrow>
     jsmn_loop js num (st_at (length pre) s ts n) = jsmn_loop js num
       (st_at (length pre + length (render_elems esc vs)) s
          (grow (length vs) s ts @ elem_toks esc (length pre) (length ts) s vs) (n + int (nelems vs))))"

abbreviation fields_read :: "string \<Rightarrow> nat \<Rightarrow> (string \<times> jval) list \<Rightarrow> bool" where
  "fields_read js num fs \<equiv> (\<forall>pre d post ts s n.
     js = pre @ render_fields esc fs @ d # post \<longrightarrow> jfields_ok fs \<longrightarrow> length ts + nfields fs \<le> num \<longrightarrow>
     0 \<le> s \<and> nat s < length ts \<and> tok_type (ts ! nat s) = JSMN_OBJECT \<longrightarrow> prim_end d \<longrightarrow>
     (\<exists>s'. jsmn_loop js num (st_at (length pre) s ts n) = jsmn_loop js num
       (st_at (length pre + length (render_fields esc fs)) s'
          (grow (length fs) s ts @ field_toks esc (length pre) (length ts) s fs)
          (n + int (nfields fs)))))"

lemma elems_read_Cons:
  assumes v: "value_read js num v" and vs: "elems_read js num vs"
  shows "elems_read js num (v # vs)"
proof (intro allI impI)
  fix pre d post and ts :: "jsmntok_t list" and s n
  assume js: "js = pre @ render_elems esc (v # vs) @ d # post" and ok: "jvals_ok (v # vs)"
    and len: "length ts + nelems (v # vs) \<le> num" and d: "prim_end d"
    and s: "0 \<le> s \<and> nat s < length ts \<and> tok_type (ts ! nat s) = JSMN_ARRAY"
  let ?r = "render esc v" and ?q = "length pre + length (render esc v)"
  let ?ts = "grow 1 s ts @ val_toks esc (length pre) (length ts) s v"
  let ?rest = "(if vs = [] then [] else CHR '','' # render_elems esc vs) @ d # post"
  have rest: "?rest \<noteq> []" "prim_end (hd ?rest)" using d by (auto simp: prim_end_def)
  have place: "value_place ts s" using s by (simp add: value_place_def)
  have js1: "js = pre @ render esc v @ ?rest" using js by simp
  have len1: "length ts + ntoks v \<le> num" using len by simp
  have ok1: "jval_ok v" using ok by simp
  have step1: "jsmn_loop js num (st_at (length pre) s ts n)
      = jsmn_loop js num (st_at ?q s ?ts (n + int (ntoks v)))"
    using v js1 ok1 len1 place rest by presburger
  show "jsmn_loop js num (st_at (length pre) s ts n) = jsmn_loop js num
       (st_at (length pre + length (render_elems esc (v # vs))) s
          (grow (length (v # vs)) s ts @ elem_toks esc (length pre) (length ts) s (v # vs))
          (n + int (nelems (v # vs))))"
  proof (cases "vs = []")
    case True
    with step1 show ?thesis by simp
  next
    case False
    have js2: "js = (pre @ ?r) @ CHR '','' # render_elems esc vs @ d # post"
      using js False by simp
    have js3: "js = (pre @ ?r @ '','') @ render_elems esc vs @ d # post"
      using js False by simp
    have s2: "0 \<le> s \<and> nat s < length ?ts \<and> tok_type (?ts ! nat s) = JSMN_ARRAY"
      using s by (simp add: nth_append)
    have len2: "length ?ts + nelems vs \<le> num" using len by simp
    have ok2: "jvals_ok vs" using ok by simp
    have "jsmn_comma (st_at ?q s ?ts (n + int (ntoks v))) = st_at ?q s ?ts (n + int (ntoks v))"
      using s2 by (simp add: jsmn_comma_def)
    with loop_comma [OF js2, of num s ?ts "n + int (ntoks v)"]
    have "jsmn_loop js num (st_at ?q s ?ts (n + int (ntoks v)))
        = jsmn_loop js num (st_at (length (pre @ ?r @ '','')) s ?ts (n + int (ntoks v)))"
      by simp
    also have "\<dots> = jsmn_loop js num
       (st_at (length (pre @ ?r @ '','') + length (render_elems esc vs)) s
          (grow (length vs) s ?ts @ elem_toks esc (length (pre @ ?r @ '','')) (length ?ts) s vs)
          (n + int (ntoks v) + int (nelems vs)))"
      using vs js3 ok2 len2 s2 d by presburger
    finally show ?thesis
      using step1 s False by (simp add: grow_append grow_grow add.assoc)
  qed
qed

lemma fields_read_Cons:
  assumes v: "value_read js num v" and fs: "fields_read js num fs"
  shows "fields_read js num ((k, v) # fs)"
proof (intro allI impI)
  fix pre d post and ts :: "jsmntok_t list" and s n
  assume js: "js = pre @ render_fields esc ((k, v) # fs) @ d # post" and ok: "jfields_ok ((k, v) # fs)"
    and len: "length ts + nfields ((k, v) # fs) \<le> num" and d: "prim_end d"
    and s: "0 \<le> s \<and> nat s < length ts \<and> tok_type (ts ! nat s) = JSMN_OBJECT"
  let ?k = "quoted esc k" and ?r = "render esc v"
  let ?key = "\<lambda>z. \<lparr>tok_type = JSMN_STRING, tok_start = int (length pre) + 1,
    tok_end = int (length pre) + int (length (quoted esc k)) - 1, tok_size = z, tok_parent = s\<rparr>"
  let ?ts1 = "grow 1 s ts @ [?key 0]" and ?s1 = "int (length ts)"
  let ?pre1 = "pre @ quoted esc k @ '':''"
  let ?vt = "val_toks esc (length (pre @ quoted esc k @ '':'')) (Suc (length ts)) (int (length ts)) v"
  let ?ts2 = "grow 1 s ts @ ?key 1 # ?vt"
  let ?rest = "(if fs = [] then [] else CHR '','' # render_fields esc fs) @ d # post"
  have rest: "?rest \<noteq> []" "prim_end (hd ?rest)" using d by (auto simp: prim_end_def)
  have "jsmn_loop js num (st_at (length pre) s ts n)
      = jsmn_loop js num (st_at (length pre + length ?k) s ?ts1 (n + 1))"
    using js len s by (subst loop_string [of js pre k]) auto
  also have "\<dots> = jsmn_loop js num (st_at (length ?pre1) ?s1 ?ts1 (n + 1))"
    using loop_colon [of js "pre @ ?k" "?r @ ?rest"] js by simp
  also have "\<dots> = jsmn_loop js num (st_at (length ?pre1 + length ?r) ?s1
       (grow 1 ?s1 ?ts1 @ val_toks esc (length ?pre1) (length ?ts1) ?s1 v) (n + 1 + int (ntoks v)))"
  proof -
    have "js = ?pre1 @ ?r @ ?rest" using js by simp
    moreover have "jval_ok v" using ok by simp
    moreover have "length ?ts1 + ntoks v \<le> num" using len by simp
    moreover have "value_place ?ts1 ?s1" by (simp add: value_place_def nth_append)
    ultimately show ?thesis using v rest by presburger
  qed
  also have "grow 1 ?s1 ?ts1 @ val_toks esc (length ?pre1) (length ?ts1) ?s1 v = ?ts2"
    by (simp add: grow_def [of "Suc 0" "int (length ts)"] nth_append list_update_append)
  finally have step1: "jsmn_loop js num (st_at (length pre) s ts n) = jsmn_loop js num
      (st_at (length ?pre1 + length ?r) ?s1 ?ts2 (n + 1 + int (ntoks v)))" .
  show "\<exists>s'. jsmn_loop js num (st_at (length pre) s ts n) = jsmn_loop js num
       (st_at (length pre + length (render_fields esc ((k, v) # fs))) s'
          (grow (length ((k, v) # fs)) s ts @ field_toks esc (length pre) (length ts) s ((k, v) # fs))
          (n + int (nfields ((k, v) # fs))))"
  proof (cases "fs = []")
    case True
    with step1 show ?thesis by (intro exI [of _ ?s1]) (simp add: algebra_simps)
  next
    case False
    let ?pre2 = "pre @ ?k @ '':'' @ ?r @ '',''"
    have js2: "js = (?pre1 @ ?r) @ CHR '','' # render_fields esc fs @ d # post"
      using js False by simp
    have js3: "js = ?pre2 @ render_fields esc fs @ d # post"
      using js False by simp
    have s2: "0 \<le> s \<and> nat s < length ?ts2 \<and> tok_type (?ts2 ! nat s) = JSMN_OBJECT"
      using s by (simp add: nth_append)
    have len2: "length ?ts2 + nfields fs \<le> num" using len by simp
    have ok2: "jfields_ok fs" using ok by simp
    have "jsmn_comma (st_at q ?s1 ?ts2 m) = st_at q s ?ts2 m" for q m
      by (simp add: jsmn_comma_def nth_append)
    with loop_comma [OF js2, of num ?s1 ?ts2 "n + 1 + int (ntoks v)"] step1
    have step2: "jsmn_loop js num (st_at (length pre) s ts n)
        = jsmn_loop js num (st_at (length ?pre2) s ?ts2 (n + 1 + int (ntoks v)))"
      by (simp add: add.assoc)
    obtain s' where "jsmn_loop js num (st_at (length ?pre2) s ?ts2 (n + 1 + int (ntoks v)))
      = jsmn_loop js num (st_at (length ?pre2 + length (render_fields esc fs)) s'
          (grow (length fs) s ?ts2 @ field_toks esc (length ?pre2) (length ?ts2) s fs)
          (n + 1 + int (ntoks v) + int (nfields fs)))"
      using fs js3 ok2 len2 s2 d by presburger
    with step2 s False show ?thesis
      by (intro exI [of _ s']) (simp add: grow_append grow_grow algebra_simps)
  qed
qed

lemma bracket_read:
  assumes js: "js = pre @ c # body @ d # post"
    and c: "c = CHR ''{'' \<and> d = CHR ''}'' \<and> ty = JSMN_OBJECT \<or> c = CHR ''['' \<and> d = CHR '']'' \<and> ty = JSMN_ARRAY"
    and num: "length ts < num" and place: "value_place ts s"
    and body: "jsmn_loop js num (st_at (Suc (length pre)) (int (length ts))
        (grow 1 s ts @ [\<lparr>tok_type = ty, tok_start = int (length pre), tok_end = -1, tok_size = 0,
           tok_parent = s\<rparr>]) (n + 1)) =
      jsmn_loop js num (st_at (Suc (length pre) + length body) s'
        (grow k (int (length ts)) (grow 1 s ts @ [\<lparr>tok_type = ty, tok_start = int (length pre),
           tok_end = -1, tok_size = 0, tok_parent = s\<rparr>]) @ vs) m)"
    and vs: "linked (int (length ts)) (Suc (length ts)) vs"
  shows "jsmn_loop js num (st_at (length pre) s ts n) =
      jsmn_loop js num (st_at (length pre + length body + 2) s
        (grow 1 s ts @ \<lparr>tok_type = ty, tok_start = int (length pre),
           tok_end = int (length pre) + int (length body) + 2, tok_size = int k, tok_parent = s\<rparr> # vs) m)"
proof -
  let ?t = "\<lparr>tok_type = ty, tok_start = int (length pre), tok_end = -1, tok_size = int k,
    tok_parent = s\<rparr>"
  have super: "s = -1 \<or> nat s < length ts" "s \<noteq> -1 \<Longrightarrow> tok_type (ts ! nat s) \<noteq> JSMN_OBJECT"
    using place by (auto simp: value_place_def)
  have ty: "(if c = CHR ''{'' then JSMN_OBJECT else JSMN_ARRAY) = ty" using c by auto
  have "jsmn_loop js num (st_at (length pre) s ts n) =
      jsmn_loop js num (st_at (Suc (length pre)) (int (length ts))
        (grow 1 s ts @ [\<lparr>tok_type = ty, tok_start = int (length pre), tok_end = -1, tok_size = 0,
           tok_parent = s\<rparr>]) (n + 1))"
    using loop_open [OF js _ num super] c ty by auto
  also note body
  also have "grow k (int (length ts)) (grow 1 s ts @ [\<lparr>tok_type = ty, tok_start = int (length pre),
      tok_end = -1, tok_size = 0, tok_parent = s\<rparr>]) @ vs = grow 1 s ts @ ?t # vs"
    by (simp add: grow_def [of k "int (length ts)"] nth_append list_update_append)
  also have "jsmn_loop js num (st_at (Suc (length pre) + length body) s' (grow 1 s ts @ ?t # vs) m)
      = jsmn_loop js num (st_at (Suc (length (pre @ c # body))) s
          (grow 1 s ts @ ?t\<lparr>tok_end := int (length (pre @ c # body)) + 1\<rparr> # vs) m)"
    using loop_close [of js "pre @ c # body" d post ?t "grow 1 s ts @ ?t # vs" "grow 1 s ts" vs num s' m]
      js c vs by (auto simp: add.commute)
  finally show ?thesis by (simp add: algebra_simps)
qed

lemma all_read:
  shows value_read: "value_read js num v" and elems_read: "elems_read js num vs"
    and fields_read: "fields_read js num fs"
proof (induction v and vs and fs rule: ntoks_nelems_nfields.induct)
  case (1 x)
  show ?case
    by (intro allI impI, subst loop_string) (auto simp: value_place_def)
next
  case (2 x)
  show ?case
  proof (intro allI impI)
    fix pre post and ts :: "jsmntok_t list" and s n
    assume a: "js = pre @ render esc (JPrim x) @ post" "jval_ok (JPrim x)"
      "length ts + ntoks (JPrim x) \<le> num" "value_place ts s"
      "if post = [] then \<forall>y. JPrim x \<noteq> JPrim y else prim_end (hd post)"
    then obtain d r where "post = d # r" "prim_end d" by (cases post) auto
    with a show "jsmn_loop js num (st_at (length pre) s ts n) = jsmn_loop js num
       (st_at (length pre + length (render esc (JPrim x))) s
          (grow 1 s ts @ val_toks esc (length pre) (length ts) s (JPrim x)) (n + int (ntoks (JPrim x))))"
      by (subst loop_prim) auto
  qed
next
  case (3 vs)
  show ?case
  proof (intro allI impI)
    fix pre post and ts :: "jsmntok_t list" and s n
    assume a: "js = pre @ render esc (JArr vs) @ post" "jval_ok (JArr vs)"
      "length ts + ntoks (JArr vs) \<le> num" "value_place ts s"
    let ?t = "\<lparr>tok_type = JSMN_ARRAY, tok_start = int (length pre), tok_end = -1, tok_size = 0,
           tok_parent = s\<rparr>"
    have js: "js = pre @ CHR ''['' # render_elems esc vs @ CHR '']'' # post" using a(1) by simp
    have "jsmn_loop js num (st_at (length (pre @ ''['')) (int (length ts)) (grow 1 s ts @ [?t]) (n + 1)) =
      jsmn_loop js num (st_at (length (pre @ ''['') + length (render_elems esc vs)) (int (length ts))
        (grow (length vs) (int (length ts)) (grow 1 s ts @ [?t])
         @ elem_toks esc (length (pre @ ''['')) (length (grow 1 s ts @ [?t])) (int (length ts)) vs)
        (n + 1 + int (nelems vs)))"
    proof -
      have "js = (pre @ ''['') @ render_elems esc vs @ CHR '']'' # post" using js by simp
      moreover have "jvals_ok vs" using a(2) by simp
      moreover have "length (grow 1 s ts @ [?t]) + nelems vs \<le> num" using a(3) by simp
      moreover have "0 \<le> int (length ts) \<and> nat (int (length ts)) < length (grow 1 s ts @ [?t])
          \<and> tok_type ((grow 1 s ts @ [?t]) ! nat (int (length ts))) = JSMN_ARRAY"
        by (simp add: nth_append)
      moreover have "prim_end (CHR '']'')" by (simp add: prim_end_def)
      ultimately show ?thesis using "3.IH" by presburger
    qed
    then show "jsmn_loop js num (st_at (length pre) s ts n) = jsmn_loop js num
       (st_at (length pre + length (render esc (JArr vs))) s
          (grow 1 s ts @ val_toks esc (length pre) (length ts) s (JArr vs)) (n + int (ntoks (JArr vs))))"
      using a(3,4) bracket_read [OF js, of JSMN_ARRAY ts num s n "int (length ts)" "length vs"
          "elem_toks esc (Suc (length pre)) (Suc (length ts)) (int (length ts)) vs"
          "n + 1 + int (nelems vs)"]
        toks_linked(2) [of "int (length ts)" "Suc (length ts)" esc "Suc (length pre)" vs]
      by (simp add: algebra_simps)
  qed
next
  case (4 fs)
  show ?case
  proof (intro allI impI)
    fix pre post and ts :: "jsmntok_t list" and s n
    assume a: "js = pre @ render esc (JObj fs) @ post" "jval_ok (JObj fs)"
      "length ts + ntoks (JObj fs) \<le> num" "value_place ts s"
    let ?t = "\<lparr>tok_type = JSMN_OBJECT, tok_start = int (length pre), tok_end = -1, tok_size = 0,
           tok_parent = s\<rparr>"
    have js: "js = pre @ CHR ''{'' # render_fields esc fs @ CHR ''}'' # post" using a(1) by simp
    obtain s' where "jsmn_loop js num (st_at (length (pre @ ''{'')) (int (length ts)) (grow 1 s ts @ [?t]) (n + 1)) =
      jsmn_loop js num (st_at (length (pre @ ''{'') + length (render_fields esc fs)) s'
        (grow (length fs) (int (length ts)) (grow 1 s ts @ [?t])
         @ field_toks esc (length (pre @ ''{'')) (length (grow 1 s ts @ [?t])) (int (length ts)) fs)
        (n + 1 + int (nfields fs)))"
    proof -
      have "js = (pre @ ''{'') @ render_fields esc fs @ CHR ''}'' # post" using js by simp
      moreover have "jfields_ok fs" using a(2) by simp
      moreover have "length (grow 1 s ts @ [?t]) + nfields fs \<le> num" using a(3) by simp
      moreover have "0 \<le> int (length ts) \<and> nat (int (length ts)) < length (grow 1 s ts @ [?t])
          \<and> tok_type ((grow 1 s ts @ [?t]) ! nat (int (length ts))) = JSMN_OBJECT"
        by (simp add: nth_append)
      moreover have "prim_end (CHR ''}'')" by (simp add: prim_end_def)
      ultimately show ?thesis using "4.IH" that by presburger
    qed
    then show "jsmn_loop js num (st_at (length pre) s ts n) = jsmn_loop js num
       (st_at (length pre + length (render esc (JObj fs))) s
          (grow 1 s ts @ val_toks esc (length pre) (length ts) s (JObj fs)) (n + int (ntoks (JObj fs))))"
      using a(3,4) bracket_read [OF js, of JSMN_OBJECT ts num s n s' "length fs"
          "field_toks esc (Suc (length pre)) (Suc (length ts)) (int (length ts)) fs"
          "n + 1 + int (nfields fs)"]
        toks_linked(3) [of "int (length ts)" "Suc (length ts)" esc "Suc (length pre)" fs]
      by (simp add: algebra_simps)
  qed
next
  case 5
  show ?case by simp
next
  case (6 v vs)
  then show ?case by (rule elems_read_Cons)
next
  case 7
  show ?case by auto
next
  case (8 k v fs)
  then show ?case by (rule fields_read_Cons)
qed

text \<open>The tokens of a written object are those of its tree; white space may follow it.\<close>

lemma jsmn_parse_render:
  assumes "jfields_ok fs" and "ntoks (JObj fs) \<le> num" and "\<forall>c \<in> set w. json_space c"
  shows "jsmn_parse (render esc (JObj fs) @ w) num =
     Inr (int (ntoks (JObj fs)), val_toks esc 0 0 (-1) (JObj fs))"
proof -
  let ?r = "render esc (JObj fs)" and ?js = "render esc (JObj fs) @ w"
  have "jsmn_loop ?js num (st_at (length ([] :: string)) (-1) [] 0) = jsmn_loop ?js num
      (st_at (length ([] :: string) + length ?r) (-1)
         (grow 1 (-1) [] @ val_toks esc (length ([] :: string)) (length ([] :: jsmntok_t list)) (-1) (JObj fs))
         (0 + int (ntoks (JObj fs))))"
  proof -
    have "?js = [] @ ?r @ w" by simp
    moreover have "jval_ok (JObj fs)" using assms(1) by simp
    moreover have "length ([] :: jsmntok_t list) + ntoks (JObj fs) \<le> num" using assms(2) by simp
    moreover have "value_place [] (-1)" by (simp add: value_place_def)
    moreover have "if w = [] then \<forall>x. JObj fs \<noteq> JPrim x else prim_end (hd w)"
      using assms(3) by (cases w) (auto simp: json_space_def prim_end_def)
    ultimately show ?thesis
      using value_read [where v = "JObj fs" and js = ?js and num = num,
          THEN spec [of _ "[]"], THEN spec [of _ w], THEN spec [of _ "[]"],
          THEN spec [of _ "-1"], THEN spec [of _ 0]] by iprover
  qed
  moreover have "length ?r = length ([] :: string) + length ?r" by simp
  ultimately have loop: "jsmn_loop ?js num jsmn_init =
      Inr (st_at (length ?js) (-1) (val_toks esc 0 0 (-1) (JObj fs)) (int (ntoks (JObj fs))))"
    using loop_spaces [of ?js ?r w, OF refl assms(3)] by (simp add: jsmn_init_def grow_def)
  have "linked (-1) 0 (val_toks esc 0 0 (-1) (JObj fs))" by (rule toks_linked) simp
  then have "\<forall>t \<in> set (val_toks esc 0 0 (-1) (JObj fs)). tok_end t \<noteq> -1"
    using linked_nth by (metis in_set_conv_nth)
  with loop show ?thesis by (simp add: jsmn_parse_def)
qed

lemma json_parse_render:
  assumes "jfields_ok fs" and "ntoks (JObj fs) \<le> JSON_TOK_CAP" and "\<forall>c \<in> set w. json_space c"
  shows "json_parse (render esc (JObj fs) @ w) = Some \<lparr>src = render esc (JObj fs) @ w,
     tok = val_toks esc 0 0 (-1) (JObj fs), json_n = int (ntoks (JObj fs))\<rparr>"
proof -
  have "linked 0 1 (field_toks esc 1 1 0 fs)" by (rule toks_linked) simp
  then have "0 \<le> tok_parent (field_toks esc 1 1 0 fs ! i)" if "i < nfields fs" for i
    using linked_nth that by fastforce
  then have "0 \<le> tok_parent (val_toks esc 0 0 (-1) (JObj fs) ! i)" if "1 \<le> i" "i < ntoks (JObj fs)" for i
    using that by (cases i) auto
  then have "\<not> (\<exists>i \<in> {1..<nat (int (ntoks (JObj fs)))}.
      tok_parent (val_toks esc 0 0 (-1) (JObj fs) ! i) < 0)"
    by (metis atLeastLessThan_iff leD nat_int)
  then show ?thesis
    unfolding json_parse_def jsmn_parse_render [OF assms] by simp
qed

subsection \<open>Reading a member back\<close>

lemma ntoks_pos: "0 < ntoks v"
  by (cases v) auto

text \<open>A token of the members hangs below their object or below one of them.\<close>

lemma field_parents: "d < nfields fs \<Longrightarrow> tok_parent (field_toks esc q n par fs ! d) \<in> {par} \<union> {int n..}"
proof (induction fs arbitrary: q n d)
  case (Cons kv fs)
  obtain k w where kv: "kv = (k, w)" by (cases kv)
  show ?case
  proof (cases d)
    case (Suc e)
    show ?thesis
    proof (cases "e < ntoks w")
      case True
      have "linked (int n) (Suc n) (val_toks esc (q + length (quoted esc k) + 1) (Suc n) (int n) w)" by (rule toks_linked) simp
      from linked_nth [OF this, of e] True show ?thesis by (simp add: kv Suc nth_append)
    next
      case False
      have "e - ntoks w < nfields fs" using Cons.prems False by (simp add: kv Suc)
      from Cons.IH [OF this, of "q + length (quoted esc k) + 1 + length (render esc w) + 1" "Suc n + ntoks w"] False
      show ?thesis by (auto simp: kv Suc nth_append)
    qed
  qed (simp add: kv)
qed simp

text \<open>The scan of \<open>json_get\<close> over the members of object \<open>n\<close>, from token \<open>m\<close> on.\<close>

lemma find_field:
  assumes "drop m (tok j) = field_toks esc q m (int n) fs @ r" and "drop q (src j) = render_fields esc fs @ r'"
    and "n < m" and "json_n j = int (length (tok j))" and "map_of (raw_fields esc fs) key = Some v"
    and "r' \<noteq> []" and "hd r' \<in> {CHR '','', CHR ''}'', CHR '']''}"
  shows "\<exists>i. find (json_key_at j (int n) key) [m..<length (tok j)] = Some i \<and> m \<le> i \<and> is_at esc j (Suc i) v
     \<and> (\<forall>l. Suc i + ntoks v \<le> l \<and> l < m + nfields fs \<longrightarrow> tok_parent (tok j ! l) \<noteq> int (Suc i))"
  using assms
proof (induction fs arbitrary: m q)
  case (Cons kv fs)
  obtain k w where kv: "kv = (k, w)" by (cases kv)
  let ?q = "q + length (quoted esc k) + 1" and ?L = "length (tok j)"
  have t0: "drop m (tok j) = (\<lparr>tok_type = JSMN_STRING, tok_start = int q + 1,
      tok_end = int q + int (length (quoted esc k)) - 1, tok_size = 1, tok_parent = int n\<rparr>
      # val_toks esc ?q (Suc m) (int m) w)
      @ field_toks esc (?q + length (render esc w) + 1) (Suc m + ntoks w) (int n) fs @ r"
    using Cons.prems(1) by (simp add: kv)
  have key: "tok j ! m = \<lparr>tok_type = JSMN_STRING, tok_start = int q + 1,
      tok_end = int q + int (length (quoted esc k)) - 1, tok_size = 1, tok_parent = int n\<rparr>"
    using drop_nth [OF t0, of 0] by simp
  have L: "Suc m < ?L" "Suc m + ntoks w \<le> ?L"
    using drop_nth [OF t0, of "ntoks w"] ntoks_pos [of w] by auto
  have rest: "drop (Suc m) (tok j) = val_toks esc ?q (Suc m) (int m) w
      @ field_toks esc (?q + length (render esc w) + 1) (Suc m + ntoks w) (int n) fs @ r"
    using t0 by (metis append_Cons drop_Suc list.sel(3) tl_drop)
  have src: "drop q (src j) = quoted esc k @ CHR '':'' # render esc w
      @ (if fs = [] then [] else CHR '','' # render_fields esc fs) @ r'"
    using Cons.prems(2) by (simp add: kv)
  have src2: "drop ?q (src j) = render esc w
      @ (if fs = [] then [] else CHR '','' # render_fields esc fs) @ r'"
  proof -
    have "drop ?q (src j) = drop (length (quoted esc k) + 1) (drop q (src j))"
      by (simp add: drop_drop add.commute add.left_commute)
    then show ?thesis by (simp add: src)
  qed
  have kt: "tok_text j (int m) = concat (map esc k)"
  proof -
    have "drop (Suc q) (src j) = drop 1 (drop q (src j))" by simp
    also have "\<dots> = concat (map esc k) @ DQUOTE # CHR '':'' # render esc w
        @ (if fs = [] then [] else CHR '','' # render_fields esc fs) @ r'"
      by (simp add: src quoted_def)
    finally show ?thesis by (simp add: tok_text_def key quoted_def nat_add_distrib)
  qed
  have width: "tok_end (tok j ! m) - tok_start (tok j ! m) = int (length (concat (map esc k)))"
    by (simp add: key quoted_def)
  show ?case
  proof (cases "concat (map esc k) = key")
    case True
    then have "json_key_at j (int n) key m"
      using kt width L(1) Cons.prems(4) by (simp add: json_key_at_def key)
    moreover have "[m..<?L] = m # [Suc m..<?L]" using L by (simp add: upt_rec)
    moreover have "v = w" using Cons.prems(5) True by (simp add: raw_fields_def kv)
    moreover have "is_at esc j (Suc m) w"
    proof -
      define r2 where "r2 = (if fs = [] then [] else CHR '','' # render_fields esc fs) @ r'"
      have "r2 \<noteq> []" "hd r2 \<in> {CHR '','', CHR ''}'', CHR '']''}"
        using Cons.prems(6,7) by (auto simp: r2_def)
      then have "case w of JPrim x \<Rightarrow> r2 \<noteq> [] \<and> hd r2 \<in> {CHR '','', CHR ''}'', CHR '']''} | _ \<Rightarrow> True"
        by (simp split: jval.splits)
      with rest src2 Cons.prems(4) show ?thesis unfolding is_at_def r2_def by blast
    qed
    moreover have "tok_parent (tok j ! l) \<noteq> int (Suc m)" if "Suc m + ntoks w \<le> l" "l < m + nfields (kv # fs)" for l
    proof -
      define d where "d = l - (Suc m + ntoks w)"
      have d: "l = Suc m + ntoks w + d" using that(1) by (simp add: d_def)
      then have "d < nfields fs" using that(2) by (simp add: kv)
      then have p: "tok_parent (field_toks esc (?q + length (render esc w) + 1) (Suc m + ntoks w) (int n) fs ! d) \<in> {int n} \<union> {int (Suc m + ntoks w)..}"
        using field_parents by blast
      have "tok j ! l = field_toks esc (?q + length (render esc w) + 1) (Suc m + ntoks w) (int n) fs ! d"
        using drop_nth [OF rest [folded append_assoc], of "ntoks w + d"] d \<open>d < nfields fs\<close> by (simp add: nth_append add.assoc)
      with p Cons.prems(3) ntoks_pos [of w] show ?thesis by auto
    qed
    ultimately show ?thesis by (intro exI [of _ m]) simp
  next
    case False
    have "\<not> json_key_at j (int n) key i" if i: "m \<le> i" "i < Suc m + ntoks w" for i
    proof (cases "i = m")
      case True
      with False kt show ?thesis by (simp add: json_key_at_def)
    next
      case False
      then obtain d where d: "i = Suc m + d" "d < ntoks w"
        using i by (metis Suc_leI add_less_cancel_left le_Suc_ex le_neq_implies_less)
      have "linked (int m) (Suc m) (val_toks esc ?q (Suc m) (int m) w)" by (rule toks_linked) simp
      from linked_nth [OF this, of d] d(2) drop_nth [OF rest, of d]
      have "int m \<le> tok_parent (tok j ! i)" by (simp add: d(1))
      with Cons.prems(3) show ?thesis by (auto simp: json_key_at_def)
    qed
    then have skip: "find (json_key_at j (int n) key) [m..<?L]
        = find (json_key_at j (int n) key) [Suc m + ntoks w..<?L]"
      using L by (intro find_upt_skip) auto
    have fs: "fs \<noteq> []" "map_of (raw_fields esc fs) key = Some v"
      using Cons.prems(5) False by (auto simp: raw_fields_def kv)
    moreover have "drop (Suc m + ntoks w) (tok j) =
        field_toks esc (?q + length (render esc w) + 1) (Suc m + ntoks w) (int n) fs @ r"
    proof -
      have "drop (Suc m + ntoks w) (tok j) = drop (ntoks w) (drop (Suc m) (tok j))"
        by (simp add: drop_drop add.commute)
      then show ?thesis by (simp add: rest)
    qed
    moreover have "drop (?q + length (render esc w) + 1) (src j) = render_fields esc fs @ r'"
      using drop_seg [of ?q "src j" "render esc w @ '',''" "render_fields esc fs @ r'"] src2 fs(1)
      by (simp add: add.assoc)
    moreover have "n < Suc m + ntoks w" using Cons.prems(3) by simp
    ultimately obtain i where i: "find (json_key_at j (int n) key) [Suc m + ntoks w..<?L] = Some i" "Suc m + ntoks w \<le> i"
        "is_at esc j (Suc i) v"
      and later: "\<forall>l. Suc i + ntoks v \<le> l \<and> l < Suc m + ntoks w + nfields fs \<longrightarrow> tok_parent (tok j ! l) \<noteq> int (Suc i)"
      using Cons.IH [of "Suc m + ntoks w" "?q + length (render esc w) + 1"] Cons.prems(4,6,7) by blast
    have "m + nfields (kv # fs) = Suc m + ntoks w + nfields fs" by (simp add: kv)
    with i later skip show ?thesis by (intro exI [of _ i]) simp
  qed
qed (simp add: raw_fields_def)

lemma get_render_last:
  assumes "is_at esc j n (JObj fs)" and "map_of (raw_fields esc fs) key = Some v"
  shows "\<exists>m. json_get j (int n) key = int m \<and> n < m \<and> is_at esc j m v
     \<and> (\<forall>l. m + ntoks v \<le> l \<and> l < n + ntoks (JObj fs) \<longrightarrow> tok_parent (tok j ! l) \<noteq> int m)"
proof -
  from assms(1) obtain q par r r' where t: "drop n (tok j) = val_toks esc q n par (JObj fs) @ r"
    and src: "drop q (src j) = render esc (JObj fs) @ r'" and L: "json_n j = int (length (tok j))"
    by (auto simp: is_at_def)
  have ty: "tok_type (tok j ! n) = JSMN_OBJECT"
    using drop_nth [OF t, of 0] by simp
  have "drop (Suc n) (tok j) = field_toks esc (Suc q) (Suc n) (int n) fs @ r"
    using t by (metis append_Cons drop_Suc list.sel(3) tl_drop val_toks.simps(4))
  moreover have "drop (Suc q) (src j) = render_fields esc fs @ ''}'' @ r'"
    using src by (metis append.assoc append_Cons append_Nil drop_Suc list.sel(3) render.simps(4) tl_drop)
  ultimately obtain i where "find (json_key_at j (int n) key) [Suc n..<length (tok j)] = Some i"
    "Suc n \<le> i" "is_at esc j (Suc i) v"
    "\<forall>l. Suc i + ntoks v \<le> l \<and> l < Suc n + nfields fs \<longrightarrow> tok_parent (tok j ! l) \<noteq> int (Suc i)"
    using find_field [of "Suc n" j "Suc q" n fs r "''}'' @ r'" key v] L assms(2) by auto
  then show ?thesis
    using ty L by (intro exI [of _ "Suc i"]) (simp add: json_get_def nat_add_distrib)
qed

lemma get_render:
  assumes "is_at esc j n (JObj fs)" and "map_of (raw_fields esc fs) key = Some v"
  shows "\<exists>m. json_get j (int n) key = int m \<and> n < m \<and> is_at esc j m v"
  using get_render_last [OF assms] by blast

lemma strdup_render: "is_at esc j m (JStr x) \<Longrightarrow> json_strdup j (int m) = Some (cstr x)"
proof -
  assume "is_at esc j m (JStr x)"
  then obtain q par r r' where t: "drop m (tok j) = val_toks esc q m par (JStr x) @ r"
    and src: "drop q (src j) = render esc (JStr x) @ r'"
    by (auto simp: is_at_def)
  have t0: "tok j ! m = leaf_tok JSMN_STRING (int q + 1) (int q + int (length (quoted esc x)) - 1) par"
    using drop_nth [OF t, of 0] by simp
  have "drop (Suc q) (src j) = drop 1 (drop q (src j))" by simp
  also have "\<dots> = concat (map esc x) @ DQUOTE # r'" by (simp add: src quoted_def)
  finally have "tok_text j (int m) = concat (map esc x)"
    by (simp add: tok_text_def t0 quoted_def nat_add_distrib)
  then show ?thesis by (simp add: json_strdup_def json_is_str_def t0 escaped_no_quote_end)
qed

lemma num_render:
  assumes "is_at esc j m (JPrim (dec k))"
  shows "json_num j (int m) d = Fin (of_nat k)"
proof -
  from assms obtain q par r r' where t: "drop m (tok j) = val_toks esc q m par (JPrim (dec k)) @ r"
    and src: "drop q (src j) = dec k @ r'"
    and r': "r' \<noteq> []" "hd r' \<in> {CHR '','', CHR ''}'', CHR '']''}"
    by (auto simp: is_at_def)
  have t0: "tok j ! m = leaf_tok JSMN_PRIMITIVE (int q) (int q + int (length (dec k))) par"
    using drop_nth [OF t, of 0] by simp
  have "src j ! q = hd (dec k)"
    using drop_nth [OF src, of 0] dec_nonempty [of k] by (cases "dec k") auto
  then have "is_digit (tok_char j (int m))" using dec_hd [of k] by (simp add: tok_char_def t0)
  moreover have "tok_rest j (int m) = dec k @ r'" by (simp add: tok_rest_def t0 src)
  ultimately show ?thesis using strtod_dec [OF r'] by (simp add: json_num_def t0)
qed

text \<open>The elements of a written array: where their first tokens are, and that a scan for the
  children of the array finds them in order.\<close>

lemma find_elems:
  assumes "drop m (tok j) = elem_toks esc q m (int n) vs @ r" and "drop q (src j) = render_elems esc vs @ r'"
    and "n < m" and "json_n j = int (length (tok j))"
    and "r' \<noteq> []" and "hd r' \<in> {CHR '','', CHR ''}'', CHR '']''}"
  shows "filter (\<lambda>i. tok_parent (tok j ! i) = int n) [m..<length (tok j)]
             = elem_pos m vs @ filter (\<lambda>i. tok_parent (tok j ! i) = int n) [m + nelems vs..<length (tok j)]
           \<and> list_all2 (is_at esc j) (elem_pos m vs) vs"
  using assms
proof (induction vs arbitrary: m q)
  case (Cons v vs)
  let ?L = "length (tok j)" and ?P = "\<lambda>i. tok_parent (tok j ! i) = int n"
  define r2 where "r2 = (if vs = [] then [] else CHR '','' # render_elems esc vs) @ r'"
  have t: "drop m (tok j) = val_toks esc q m (int n) v
      @ elem_toks esc (q + length (render esc v) + 1) (m + ntoks v) (int n) vs @ r"
    using Cons.prems(1) by simp
  have src: "drop q (src j) = render esc v @ r2" using Cons.prems(2) by (simp add: r2_def)
  have L: "m + ntoks v \<le> ?L"
    using arg_cong [OF t, of length] ntoks_pos [of v] by simp
  have at: "is_at esc j m v"
  proof -
    have "r2 \<noteq> []" "hd r2 \<in> {CHR '','', CHR ''}'', CHR '']''}"
      using Cons.prems(5,6) by (auto simp: r2_def)
    then have "case v of JPrim x \<Rightarrow> r2 \<noteq> [] \<and> hd r2 \<in> {CHR '','', CHR ''}'', CHR '']''} | _ \<Rightarrow> True"
      by (simp split: jval.splits)
    with t src Cons.prems(4) show ?thesis unfolding is_at_def by blast
  qed
  have hd: "?P m" using drop_nth [OF t, of 0] ntoks_pos [of v] val_toks_hd [of esc q m "int n" v] by simp
  have inner: "\<not> ?P i" if i: "Suc m \<le> i" "i < m + ntoks v" for i
  proof -
    define d where "d = i - Suc m"
    have d: "i = m + Suc d" "Suc d < ntoks v" using i by (auto simp: d_def)
    have "linked (int m) (Suc m) (tl (val_toks esc q m (int n) v))" by (rule val_toks_tl)
    from linked_nth [OF this, of d] d(2) have "int m \<le> tok_parent (val_toks esc q m (int n) v ! Suc d)"
      by (simp add: nth_tl)
    with drop_nth [OF t, of "Suc d"] d Cons.prems(3) show ?thesis by simp
  qed
  have "[m..<?L] = m # [Suc m..<m + ntoks v] @ [m + ntoks v..<?L]"
  proof -
    have "[m..<?L] = [m..<m + ntoks v] @ [m + ntoks v..<?L]"
      using L by (metis le_add_diff_inverse upt_add_eq_append le_add1)
    then show ?thesis using ntoks_pos [of v] by (simp add: upt_conv_Cons)
  qed
  then have f: "filter ?P [m..<?L] = m # filter ?P [m + ntoks v..<?L]"
    using hd inner by (simp add: filter_empty_conv)
  show ?case
  proof (cases "vs = []")
    case True
    with f at show ?thesis by simp
  next
    case False
    have "drop (m + ntoks v) (tok j) = elem_toks esc (q + length (render esc v) + 1) (m + ntoks v) (int n) vs @ r"
      using drop_seg [OF t] by simp
    moreover have "drop (q + length (render esc v) + 1) (src j) = render_elems esc vs @ r'"
      using drop_seg [of q "src j" "render esc v @ '',''" "render_elems esc vs @ r'"] src False
      by (simp add: r2_def add.assoc)
    ultimately have "filter ?P [m + ntoks v..<?L] = elem_pos (m + ntoks v) vs @ filter ?P [m + ntoks v + nelems vs..<?L]"
      "list_all2 (is_at esc j) (elem_pos (m + ntoks v) vs) vs"
      using Cons.IH [of "m + ntoks v" "q + length (render esc v) + 1"] Cons.prems(3-6) by auto
    with f at show ?thesis by (simp add: add.assoc)
  qed
qed auto

lemma array_render:
  assumes "is_at esc j n (JArr vs)"
  shows "tok_type (tok j ! n) = JSMN_ARRAY \<and> tok_size (tok j ! n) = int (length vs) \<and>
     (\<exists>ps later. filter (\<lambda>i. tok_parent (tok j ! i) = int n) [Suc n..<length (tok j)] = ps @ later
        \<and> list_all2 (is_at esc j) ps vs)"
proof -
  from assms obtain q par r r' where t: "drop n (tok j) = val_toks esc q n par (JArr vs) @ r"
    and src: "drop q (src j) = render esc (JArr vs) @ r'" and L: "json_n j = int (length (tok j))"
    by (auto simp: is_at_def)
  have "drop (Suc n) (tok j) = elem_toks esc (Suc q) (Suc n) (int n) vs @ r"
    using t by (metis append_Cons drop_Suc list.sel(3) tl_drop val_toks.simps(3))
  moreover have "drop (Suc q) (src j) = render_elems esc vs @ '']'' @ r'"
    using src by (metis append.assoc append_Cons append_Nil drop_Suc list.sel(3) render.simps(3) tl_drop)
  ultimately show ?thesis
    using find_elems [of "Suc n" j "Suc q" n vs r "'']'' @ r'"] L drop_nth [OF t, of 0] by auto
qed

text \<open>An array that is a member of the document has no children but its elements.\<close>

lemma array_member:
  assumes "is_at esc j 0 (JObj fs)" and "length (tok j) = ntoks (JObj fs)" and "map_of (raw_fields esc fs) key = Some (JArr vs)"
  shows "\<exists>m ps. json_get j 0 key = int m
     \<and> filter (\<lambda>i. tok_parent (tok j ! i) = int m) [Suc m..<length (tok j)] = ps \<and> list_all2 (is_at esc j) ps vs"
proof -
  obtain m where m: "json_get j 0 key = int m" "is_at esc j m (JArr vs)"
    and later: "\<forall>l. m + ntoks (JArr vs) \<le> l \<and> l < ntoks (JObj fs) \<longrightarrow> tok_parent (tok j ! l) \<noteq> int m"
    using get_render_last [OF assms(1,3)] by auto
  from m(2) obtain q par r r' where t: "drop m (tok j) = val_toks esc q m par (JArr vs) @ r"
    and src: "drop q (src j) = render esc (JArr vs) @ r'" and L: "json_n j = int (length (tok j))"
    by (auto simp: is_at_def)
  have 1: "drop (Suc m) (tok j) = elem_toks esc (Suc q) (Suc m) (int m) vs @ r"
    using t by (metis append_Cons drop_Suc list.sel(3) tl_drop val_toks.simps(3))
  have 2: "drop (Suc q) (src j) = render_elems esc vs @ '']'' @ r'"
    using src by (metis append.assoc append_Cons append_Nil drop_Suc list.sel(3) render.simps(3) tl_drop)
  have "filter (\<lambda>i. tok_parent (tok j ! i) = int m) [Suc m + nelems vs..<length (tok j)] = []"
    using later unfolding filter_empty_conv assms(2) by (simp del: upt_Suc)
  with find_elems [OF 1 2] L m(1) show ?thesis by auto
qed

text \<open>The root of a written object.\<close>

lemma root_render_spaced:
  assumes "jfields_ok fs" and "ntoks (JObj fs) \<le> JSON_TOK_CAP" and "\<forall>c \<in> set w. json_space c"
  obtains j where "json_parse (render esc (JObj fs) @ w) = Some j" and "is_at esc j 0 (JObj fs)"
proof
  show "json_parse (render esc (JObj fs) @ w) = Some \<lparr>src = render esc (JObj fs) @ w,
     tok = val_toks esc 0 0 (-1) (JObj fs), json_n = int (ntoks (JObj fs))\<rparr>"
    using assms by (rule json_parse_render)
  show "is_at esc \<lparr>src = render esc (JObj fs) @ w, tok = val_toks esc 0 0 (-1) (JObj fs),
     json_n = int (ntoks (JObj fs))\<rparr> 0 (JObj fs)"
    unfolding is_at_def by (rule conjI, simp, rule exI [of _ 0], rule exI [of _ "-1"], rule exI [of _ "[]"], rule exI [of _ w]) simp
qed

lemma root_tokens:
  assumes "jfields_ok fs" and "ntoks (JObj fs) \<le> JSON_TOK_CAP"
  obtains j where "json_parse (render esc (JObj fs)) = Some j" and "is_at esc j 0 (JObj fs)" and "length (tok j) = ntoks (JObj fs)"
proof -
  obtain j where j: "json_parse (render esc (JObj fs)) = Some j" "is_at esc j 0 (JObj fs)"
    using root_render_spaced [OF assms, of "[]"] by auto
  with json_parse_render [OF assms, of "[]"] have "length (tok j) = ntoks (JObj fs)" by auto
  with j show thesis by (rule that)
qed

lemma root_render:
  assumes "jfields_ok fs" and "ntoks (JObj fs) \<le> JSON_TOK_CAP"
  obtains j where "json_parse (render esc (JObj fs)) = Some j" and "is_at esc j 0 (JObj fs)"
  using root_render_spaced [OF assms, of "[]"] that by auto

end

lemma digit_start: "is_digit c \<Longrightarrow> prim_start c"
proof -
  assume "is_digit c"
  then have "byte c \<in> set [48..<58]" unfolding is_digit_def set_upt by auto
  moreover have "\<forall>k \<in> set [48..<58]. prim_start (char_of (k::nat))" by code_simp
  ultimately have "prim_start (char_of (byte c))" by blast
  then show ?thesis by simp
qed

lemma digit_inside: "is_digit c \<Longrightarrow> \<not> prim_end c \<and> 32 \<le> byte c \<and> byte c < 127"
  by (auto simp: is_digit_def prim_end_def)

lemma prim_ok_dec: "prim_ok (dec n)"
  using dec_digits [of n] dec_hd [of n] dec_nonempty [of n] digit_start digit_inside
  unfolding prim_ok_def list_all_iff by blast

end
