(* ===== verification/Framing.thy ===== *)
theory Framing
  imports Prelude
begin

section \<open>Frames (src/src/geistd.c, src/clients/geistd_client.h)\<close>

text \<open>
  A frame is two little-endian 32-bit lengths, a JSON header and a raw body. This theory has the
  daemon's connection with \<open>read_all\<close>, \<open>write_all\<close>, \<open>read_frame\<close> and \<open>write_frame\<close>, and the
  client's encoding and decoding of the eight length bytes. The contract of a length encoding is
  the locale \<open>framing\<close>; its lemma \<open>take_frame_of\<close> says that a frame is taken off the front of a
  stream as it was put there, whatever follows. The daemon's pair, the client's pair and the two
  mixed pairs the wire really has are its interpretations.
\<close>

unbundle bit_operations_syntax

definition HDR_CAP :: nat where "HDR_CAP = 64 * 1024"
definition BODY_CAP :: nat where "BODY_CAP = 16 * 1024 * 1024"

subsection \<open>The connection\<close>

text \<open>
  \<open>c_in\<close> holds the bytes that still arrive on \<open>fd\<close> before it ends, fails or times out, \<open>c_out\<close>
  those written to \<open>out\<close>, and \<open>c_room\<close> says how many more the peer takes before a write fails:
  the environment of the two loops over \<open>read\<close> and \<open>write\<close>, whose short counts and EINTR retries
  make no difference to what they return.
\<close>

record conn =
  c_in :: string
  c_out :: string
  c_room :: nat
  broken :: bool
  authed :: bool

definition read_all :: "nat \<Rightarrow> conn \<Rightarrow> string option \<times> conn" where
  "read_all n c =
     (if n \<le> length (c_in c) then (Some (take n (c_in c)), c\<lparr>c_in := drop n (c_in c)\<rparr>)
      else (None, c\<lparr>c_in := []\<rparr>))"

definition write_all :: "string \<Rightarrow> conn \<Rightarrow> bool \<times> conn" where
  "write_all buf c =
     (if broken c then (False, c)
      else if length buf \<le> c_room c then
        (True, c\<lparr>c_out := c_out c @ buf, c_room := c_room c - length buf\<rparr>)
      else (False, c\<lparr>c_out := c_out c @ take (c_room c) buf, c_room := 0, broken := True\<rparr>))"

subsection \<open>Lengths on the wire\<close>

definition byte_word :: "char \<Rightarrow> 32 word" where
  "byte_word c = word_of_nat (byte c)"

text \<open>The cast to \<open>unsigned char\<close>.\<close>

definition low_byte :: "32 word \<Rightarrow> char" where
  "low_byte w = char_of (unat w)"

definition rd_u32 :: "string \<Rightarrow> 32 word" where
  "rd_u32 b = byte_word (b ! 0) OR push_bit 8 (byte_word (b ! 1)) OR push_bit 16 (byte_word (b ! 2))
              OR push_bit 24 (byte_word (b ! 3))"

definition wr_u32 :: "32 word \<Rightarrow> string" where
  "wr_u32 v = [low_byte v, low_byte (drop_bit 8 v), low_byte (drop_bit 16 v), low_byte (drop_bit 24 v)]"

lemma length_wr_u32 [simp]: "length (wr_u32 v) = 4"
  by (simp add: wr_u32_def)

text \<open>The client writes a length with \<open>hl >> (8 * i)\<close> and reads it with \<open>hl << 8 | pre[i]\<close>,
  from the last byte to the first, in a \<open>size_t\<close>.\<close>

definition gd_wr :: "nat \<Rightarrow> string" where
  "gd_wr n = map (\<lambda>i. char_of (n div 2 ^ (8 * i))) [0..<4]"

definition gd_rd :: "string \<Rightarrow> nat" where
  "gd_rd pre = foldl (\<lambda>acc i. (acc * 2 ^ 8) OR byte (pre ! i)) 0 [3, 2, 1, 0]"

subsection \<open>Reading and writing a frame\<close>

datatype frame =
    Eof
  | Malformed
  | Frame (frame_hdr: string) (frame_body: string)

definition read_frame :: "conn \<Rightarrow> frame \<times> conn" where
  "read_frame c =
     (case read_all 8 c of
        (None, c1) \<Rightarrow> (Eof, c1)
      | (Some pre, c1) \<Rightarrow>
          let hl = unat (rd_u32 pre); bl = unat (rd_u32 (drop 4 pre)) in
          if hl = 0 \<or> HDR_CAP < hl \<or> BODY_CAP < bl then (Malformed, c1)
          else
            (case read_all hl c1 of
               (None, c2) \<Rightarrow> (Malformed, c2)
             | (Some hdr, c2) \<Rightarrow>
                 if bl = 0 then (Frame hdr [], c2)
                 else
                   (case read_all bl c2 of
                      (None, c3) \<Rightarrow> (Malformed, c3)
                    | (Some body, c3) \<Rightarrow> (Frame hdr body, c3))))"

definition write_frame :: "string \<Rightarrow> string \<Rightarrow> conn \<Rightarrow> bool \<times> conn" where
  "write_frame hdr body c =
     (case write_all (wr_u32 (word_of_nat (length hdr)) @ wr_u32 (word_of_nat (length body))) c of
        (False, c1) \<Rightarrow> (False, c1)
      | (True, c1) \<Rightarrow>
          (case write_all hdr c1 of
             (False, c2) \<Rightarrow> (False, c2)
           | (True, c2) \<Rightarrow> if body = [] then (True, c2) else write_all body c2))"

subsection \<open>The contract of a length encoding\<close>

text \<open>The bytes of a frame, and a reader of the front of a stream, over any length encoding.\<close>

definition frame_of :: "(nat \<Rightarrow> string) \<Rightarrow> string \<Rightarrow> string \<Rightarrow> string" where
  "frame_of put hdr body = put (length hdr) @ put (length body) @ hdr @ body"

definition take_frame :: "(string \<Rightarrow> nat) \<Rightarrow> string \<Rightarrow> (string \<times> string \<times> string) option" where
  "take_frame get s =
     (if length s < 8 then None
      else
        let hl = get (take 4 s); bl = get (take 4 (drop 4 s)); r = drop 8 s in
        if hl = 0 \<or> HDR_CAP < hl \<or> BODY_CAP < bl \<or> length r < hl + bl then None
        else Some (take hl r, take bl (drop hl r), drop (hl + bl) r))"

text \<open>Frames the protocol allows.\<close>

definition fits :: "string \<Rightarrow> string \<Rightarrow> bool" where
  "fits hdr body \<longleftrightarrow> hdr \<noteq> [] \<and> length hdr \<le> HDR_CAP \<and> length body \<le> BODY_CAP"

locale framing =
  fixes put :: "nat \<Rightarrow> string" and get :: "string \<Rightarrow> nat"
  assumes length_put: "length (put n) = 4"
    and get_put: "n < 2 ^ 32 \<Longrightarrow> get (put n) = n"
begin

lemma take_frame_of:
  assumes "fits hdr body"
  shows "take_frame get (frame_of put hdr body @ rest) = Some (hdr, body, rest)"
proof -
  have "length hdr < 2 ^ 32" "length body < 2 ^ 32"
    using assms by (auto simp: fits_def HDR_CAP_def BODY_CAP_def)
  then have "get (put (length hdr)) = length hdr" "get (put (length body)) = length body"
    by (simp_all add: get_put)
  with assms show ?thesis
    by (simp add: take_frame_def frame_of_def fits_def length_put)
qed

text \<open>So a stream of frames is read back frame by frame.\<close>

lemma frame_inj:
  assumes "fits h b" and "fits h' b'" and "frame_of put h b @ r = frame_of put h' b' @ r'"
  shows "h = h' \<and> b = b' \<and> r = r'"
proof -
  have "Some (h, b, r) = Some (h', b', r')"
    by (simp only: take_frame_of [OF assms(1), of r, symmetric]
        take_frame_of [OF assms(2), of r', symmetric] assms(3))
  then show ?thesis by simp
qed

end

subsection \<open>The two encodings keep it\<close>

lemma byte_low_byte: "byte (low_byte w) = take_bit 8 (unat w)"
  by (simp add: low_byte_def take_bit_eq_mod)

lemma byte_word_low_byte: "byte_word (low_byte w) = take_bit 8 w"
  unfolding byte_word_def byte_low_byte
  by (simp add: word_unat_eq_iff unsigned_take_bit_eq unat_of_nat)
    (simp add: take_bit_eq_mod)

lemma rd_wr_u32 [codec]: "rd_u32 (wr_u32 v) = v"
proof (rule bit_word_eqI)
  fix n
  assume "n < LENGTH(32)"
  then consider "n < 8" | "8 \<le> n \<and> n < 16" | "16 \<le> n \<and> n < 24" | "24 \<le> n \<and> n < 32"
    by (simp only: len_num1 len_bit0) linarith
  then show "bit (rd_u32 (wr_u32 v)) n = bit v n"
    by cases (auto simp: rd_u32_def wr_u32_def byte_word_low_byte bit_simps)
qed

lemma gd_wr_u32: "n < 2 ^ 32 \<Longrightarrow> gd_wr n = wr_u32 (word_of_nat n)"
proof -
  assume "n < 2 ^ 32"
  then have n: "unat (word_of_nat n :: 32 word) = n" by (simp add: unat_of_nat take_bit_nat_eq_self)
  have "char_of (n div 2 ^ k) = low_byte (drop_bit k (word_of_nat n))" for k
    unfolding low_byte_def unat_drop_bit_eq n by (simp only: drop_bit_eq_div)
  from this [of 0] this [of 8] this [of 16] this [of 24] show ?thesis
    by (simp add: gd_wr_def wr_u32_def upt_rec del: drop_bit_eq_div)
qed

lemma or_byte: "(x * 2 ^ 8) OR byte c = x * 2 ^ 8 + byte c"
proof -
  have "bit (x * 2 ^ 8) n \<Longrightarrow> \<not> bit (byte c) n" for n
  proof -
    assume "bit (x * 2 ^ 8) n"
    then have n: "8 \<le> n" by (simp only: push_bit_eq_mult [symmetric] bit_push_bit_iff_nat)
    have "byte c < 2 ^ 8" using byte_bound [of c] by simp
    also have "(2::nat) ^ 8 \<le> 2 ^ n" using n by (intro power_increasing) simp_all
    finally have "byte c < 2 ^ n" .
    then show ?thesis by (simp add: bit_iff_odd)
  qed
  then have "(x * 2 ^ 8) AND byte c = 0"
    by (intro bit_eqI) (auto simp only: bit_and_iff bit_0_eq)
  then show ?thesis by (simp only: disjunctive_add_eq_or)
qed

lemma gd_rd_wr [codec]: "n < 2 ^ 32 \<Longrightarrow> gd_rd (gd_wr n) = n"
proof -
  assume n: "n < 2 ^ 32"
  have w: "gd_wr n = [char_of n, char_of (n div 2 ^ 8), char_of (n div 2 ^ 16), char_of (n div 2 ^ 24)]"
    by (simp add: gd_wr_def upt_rec)
  have r: "gd_rd [a, b, c, d] = ((byte d * 2 ^ 8 + byte c) * 2 ^ 8 + byte b) * 2 ^ 8 + byte a" for a b c d
  proof -
    have "0 * 2 ^ 8 OR byte d = byte d" by simp
    then show ?thesis by (simp only: gd_rd_def foldl.simps nth_Cons_0 nth_Cons_numeral or_byte) simp
  qed
  have up: "(n div 2 ^ (k + 8)) * 2 ^ 8 + n div 2 ^ k mod 2 ^ 8 = n div 2 ^ k" for k
    by (simp only: power_add div_mult2_eq div_mult_mod_eq)
  have top: "n div 2 ^ 24 mod 2 ^ 8 = n div 2 ^ 24" using n by (simp add: less_mult_imp_div_less)
  have b: "byte (char_of m) = m mod 2 ^ 8" for m :: nat by simp
  show ?thesis
    unfolding w r b top using up [of 16] up [of 8] up [of 0] by simp
qed

interpretation daemon_frames: framing "\<lambda>n. wr_u32 (word_of_nat n)" "\<lambda>b. unat (rd_u32 b)"
  by unfold_locales
    (simp add: wr_u32_def, simp only: rd_wr_u32 unat_of_nat, simp add: take_bit_nat_eq_self)

interpretation client_frames: framing gd_wr gd_rd
  by unfold_locales (simp add: gd_wr_def, rule gd_rd_wr)

interpretation requests: framing gd_wr "\<lambda>b. unat (rd_u32 b)"
  by unfold_locales
    (simp add: gd_wr_def, simp only: gd_wr_u32 rd_wr_u32 unat_of_nat, simp add: take_bit_nat_eq_self)

interpretation replies: framing "\<lambda>n. wr_u32 (word_of_nat n)" gd_rd
  by unfold_locales (simp add: wr_u32_def, metis gd_wr_u32 gd_rd_wr)

subsection \<open>What the daemon reads and writes\<close>

lemma read_all_append [simp]:
  "c_in c = s @ r \<Longrightarrow> read_all (length s) c = (Some s, c\<lparr>c_in := r\<rparr>)"
  by (simp add: read_all_def)

lemma take4_8: "length s = 4 \<Longrightarrow> rd_u32 (s @ t) = rd_u32 s"
  by (simp add: rd_u32_def nth_append)

lemma read_frame_request:
  assumes "fits hdr body" and "c_in c = frame_of gd_wr hdr body @ rest"
  shows "read_frame c = (Frame hdr body, c\<lparr>c_in := rest\<rparr>)"
proof -
  let ?p = "gd_wr (length hdr)" and ?q = "gd_wr (length body)"
  have p: "length ?p = 4" "length ?q = 4" by (simp_all add: requests.length_put)
  have "length hdr < 2 ^ 32" "length body < 2 ^ 32"
    using assms(1) by (auto simp: fits_def HDR_CAP_def BODY_CAP_def)
  then have g: "unat (rd_u32 (?p @ ?q)) = length hdr" "unat (rd_u32 ?q) = length body"
    using requests.get_put by (simp_all add: take4_8 p)
  have "read_all 8 c = (Some (?p @ ?q), c\<lparr>c_in := hdr @ body @ rest\<rparr>)"
    using read_all_append [of c "?p @ ?q" "hdr @ body @ rest"] assms(2) p by (simp add: frame_of_def)
  then show ?thesis
    using assms(1) g p by (auto simp: read_frame_def fits_def Let_def)
qed

text \<open>A reply that the peer has room for is one frame of the stream; otherwise the connection is
  broken and never written again.\<close>

lemma write_frame_ok:
  assumes "\<not> broken c" and "8 + length hdr + length body \<le> c_room c"
  shows "write_frame hdr body c = (True, c\<lparr>c_out := c_out c @ frame_of (\<lambda>n. wr_u32 (word_of_nat n)) hdr body,
           c_room := c_room c - (8 + length hdr + length body)\<rparr>)"
  using assms by (cases c) (auto simp: write_frame_def write_all_def frame_of_def wr_u32_def)

lemma write_all_frame [simp]:
  "c_in (snd (write_all b c)) = c_in c" "authed (snd (write_all b c)) = authed c"
  by (auto simp: write_all_def)

lemma write_frame_frame [simp]:
  "c_in (snd (write_frame h b c)) = c_in c" "authed (snd (write_frame h b c)) = authed c"
  by (auto simp: write_frame_def write_all_def split: prod.splits bool.splits)

text \<open>Writing leaves what is still to be read, and whether the peer has said hello.\<close>

definition same_in :: "conn \<Rightarrow> conn \<Rightarrow> bool" where
  "same_in c c' \<longleftrightarrow> c_in c' = c_in c \<and> authed c' = authed c"

lemma same_in_refl [simp, frame]: "same_in c c"
  by (simp add: same_in_def)

lemma same_in_trans: "same_in a b \<Longrightarrow> same_in b c \<Longrightarrow> same_in a c"
  by (simp add: same_in_def)

lemma write_frame_same [frame]: "write_frame h b c = (ok, c') \<Longrightarrow> same_in c c'"
  using write_frame_frame [of h b c] by (simp add: same_in_def)

lemma write_frame_broken: "write_frame h b c = (False, c') \<Longrightarrow> broken c'"
  by (auto simp: write_frame_def write_all_def split: prod.splits bool.splits if_splits)

lemma write_frame_unbroken: "write_frame h b c = (True, c') \<Longrightarrow> \<not> broken c'"
  by (auto simp: write_frame_def write_all_def split: prod.splits bool.splits if_splits)

lemma broken_write_frame: "broken c \<Longrightarrow> write_frame h b c = (False, c)"
  by (simp add: write_frame_def write_all_def)

end
