(* ===== verification/Slots.thy ===== *)
theory Slots
  imports Prelude
begin

section \<open>Tables of slots (src/src/geistd.c)\<close>

text \<open>
  Sessions and chats live in two arrays that are used alike: look for a free slot, else give up
  the least recently used one. Both loops are \<open>free_slot\<close> and \<open>lru_slot\<close> here, over the number
  \<open>n\<close> of slots in use. What a client of such a table relies on is the locale \<open>slot_table\<close>; the
  session table and the chat table are its interpretations.
\<close>

subsection \<open>The two loops\<close>

definition free_slot :: "('s \<Rightarrow> bool) \<Rightarrow> nat \<Rightarrow> 's list \<Rightarrow> nat option" where
  "free_slot live n xs = find (\<lambda>i. \<not> live (xs ! i)) [0..<n]"

text \<open>The scan starts with slot 0, whatever \<open>n\<close> is, and moves on a strictly smaller time.\<close>

definition lru_slot :: "('s \<Rightarrow> int) \<Rightarrow> nat \<Rightarrow> 's list \<Rightarrow> nat" where
  "lru_slot used n xs = foldl (\<lambda>b i. if used (xs ! i) < used (xs ! b) then i else b) 0 [1..<n]"

definition slot_index :: "('s \<Rightarrow> bool) \<Rightarrow> ('s \<Rightarrow> int) \<Rightarrow> nat \<Rightarrow> 's list \<Rightarrow> nat" where
  "slot_index live used n xs =
     (case free_slot live n xs of Some i \<Rightarrow> i | None \<Rightarrow> lru_slot used n xs)"

lemma lru_slot_Suc:
  "1 \<le> n \<Longrightarrow> lru_slot used (Suc n) xs =
     (if used (xs ! n) < used (xs ! lru_slot used n xs) then n else lru_slot used n xs)"
  by (simp add: lru_slot_def)

lemma lru_slot_least:
  "1 \<le> n \<Longrightarrow> lru_slot used n xs < n \<and> (\<forall>i < n. used (xs ! lru_slot used n xs) \<le> used (xs ! i))"
proof (induction n rule: nat_induct_at_least)
  case base
  show ?case by (simp add: lru_slot_def)
next
  case (Suc n)
  then show ?case by (auto simp: lru_slot_Suc less_Suc_eq)
qed

lemma free_slot_Some: "free_slot live n xs = Some i \<Longrightarrow> i < n \<and> \<not> live (xs ! i)"
  by (auto simp: free_slot_def find_Some_iff)

lemma free_slot_None: "free_slot live n xs = None \<longleftrightarrow> (\<forall>i < n. live (xs ! i))"
  by (auto simp: free_slot_def find_None_iff)

text \<open>The number of live entries among the first \<open>n\<close> slots.\<close>

definition live_count :: "('s \<Rightarrow> bool) \<Rightarrow> nat \<Rightarrow> 's list \<Rightarrow> nat" where
  "live_count live n xs = card {i. i < n \<and> live (xs ! i)}"

subsection \<open>The contract\<close>

locale slot_table =
  fixes live :: "'s \<Rightarrow> bool" and used :: "'s \<Rightarrow> int" and pick :: "nat \<Rightarrow> 's list \<Rightarrow> nat"
  assumes pick_less: "1 \<le> n \<Longrightarrow> pick n xs < n"
    and pick_free: "i < n \<Longrightarrow> \<not> live (xs ! i) \<Longrightarrow> \<not> live (xs ! pick n xs)"
    and pick_oldest: "i < n \<Longrightarrow> live (xs ! pick n xs) \<Longrightarrow> used (xs ! pick n xs) \<le> used (xs ! i)"
begin

text \<open>A live entry is given up only when every slot is taken and none was used longer ago.\<close>

lemma evicted:
  assumes "live (xs ! pick n xs)" and "i < n"
  shows "live (xs ! i) \<and> used (xs ! pick n xs) \<le> used (xs ! i)"
  using assms pick_free pick_oldest by blast

text \<open>So an entry stays where it is when a slot is free or another one is older.\<close>

lemma kept:
  assumes "1 \<le> n" and "i < n" and "n \<le> length xs" and "live (xs ! i)"
    and "\<exists>j < n. \<not> live (xs ! j) \<or> used (xs ! j) < used (xs ! i)"
  shows "xs[pick n xs := y] ! i = xs ! i"
proof -
  have "pick n xs \<noteq> i"
  proof
    assume p: "pick n xs = i"
    with evicted assms(4,5) show False by (metis not_less)
  qed
  then show ?thesis by simp
qed

text \<open>The number of live entries never exceeds the table, and grows by at most one.\<close>

lemma live_count_le: "live_count live n xs \<le> n"
proof -
  have "card {i. i < n \<and> live (xs ! i)} \<le> card {i. i < n}" by (intro card_mono) auto
  then show ?thesis by (simp add: live_count_def)
qed

lemma live_count_store:
  assumes "1 \<le> n" and "n \<le> length xs" and "live y"
  shows "live_count live n (xs[pick n xs := y]) =
     (if live (xs ! pick n xs) then live_count live n xs else Suc (live_count live n xs))"
proof -
  have p: "pick n xs < n" "pick n xs < length xs" using pick_less [OF assms(1), of xs] assms(2) by auto
  have "{i. i < n \<and> live (xs[pick n xs := y] ! i)} = insert (pick n xs) {i. i < n \<and> live (xs ! i)}"
    using p assms(3) by (auto simp: nth_list_update)
  then show ?thesis using p by (auto simp: live_count_def insert_absorb)
qed

end

lemma slot_index_less: "1 \<le> n \<Longrightarrow> slot_index live used n xs < n"
  using lru_slot_least [of n used xs] by (auto simp: slot_index_def split: option.splits dest: free_slot_Some)

lemma slot_index_free: "i < n \<Longrightarrow> \<not> live (xs ! i) \<Longrightarrow> \<not> live (xs ! slot_index live used n xs)"
  by (auto simp: slot_index_def free_slot_None split: option.splits dest: free_slot_Some)

lemma slot_index_oldest:
  "i < n \<Longrightarrow> live (xs ! slot_index live used n xs) \<Longrightarrow>
     used (xs ! slot_index live used n xs) \<le> used (xs ! i)"
  using lru_slot_least [of n used xs]
  by (auto simp: slot_index_def split: option.splits dest: free_slot_Some)

lemmas slot_index_laws = slot_index_less slot_index_free slot_index_oldest

text \<open>With no slot in use the loops still answer slot 0.\<close>

lemma slot_index_none: "slot_index live used 0 xs = 0"
  by (simp add: slot_index_def free_slot_def lru_slot_def)

subsection \<open>Finding an entry by its id\<close>

definition find_slot :: "('s \<Rightarrow> bool) \<Rightarrow> ('s \<Rightarrow> string) \<Rightarrow> nat \<Rightarrow> string option \<Rightarrow> 's list \<Rightarrow> nat option" where
  "find_slot live sid n key xs =
     (case key of None \<Rightarrow> None
      | Some k \<Rightarrow> find (\<lambda>i. live (xs ! i) \<and> sid (xs ! i) = k) [0..<n])"

lemma find_slot_Some:
  "find_slot live sid n key xs = Some i \<Longrightarrow> i < n \<and> live (xs ! i) \<and> key = Some (sid (xs ! i))"
  by (auto simp: find_slot_def find_Some_iff split: option.splits)

end
