(* ===== verification/Logits.thy ===== *)
theory Logits
  imports Cnum "HOL-Library.Multiset"
begin

section \<open>Logits (src/src/geistd.c)\<close>

text \<open>
  \<open>topk\<close> by insertion into two arrays, here one array of pairs (value, id), and the normaliser
  \<open>logz\<close>. The reference for \<open>topk\<close> is insertion into a list of any length, cut to \<open>k\<close>:
  \<open>topk_is_best\<close>. With \<open>k = 0\<close> the first comparison reads \<open>vals[-1]\<close>, and there is no result.
\<close>

type_synonym cand = "dbl \<times> nat"

subsection \<open>The insertion loop\<close>

text \<open>The inner loop: shift smaller entries up from slot \<open>j\<close> and put the candidate.\<close>

fun sift :: "nat \<Rightarrow> cand \<Rightarrow> cand list \<Rightarrow> cand list" where
  "sift 0 p a = a[0 := p]"
| "sift (Suc j) p a =
     (if dlt (fst (a ! j)) (fst p) then sift j p (a[Suc j := a ! j]) else a[Suc j := p])"

text \<open>One round over element \<open>i\<close>; the state is the array and the number \<open>m\<close> of entries filled.\<close>

definition topk_round :: "nat \<Rightarrow> cand list \<times> nat \<Rightarrow> cand \<Rightarrow> (cand list \<times> nat) option" where
  "topk_round k st p =
     (case st of (a, m) \<Rightarrow>
        if m = k \<and> m = 0 then None
        else if m = k \<and> dle (fst p) (fst (a ! (m - 1))) then Some (a, m)
        else Some (sift (if m < k then m else k - 1) p a, if m < k then m + 1 else m))"

fun topk_loop :: "nat \<Rightarrow> cand list \<times> nat \<Rightarrow> cand list \<Rightarrow> (cand list \<times> nat) option" where
  "topk_loop k st [] = Some st"
| "topk_loop k st (p # ps) =
     (case topk_round k st p of None \<Rightarrow> None | Some st' \<Rightarrow> topk_loop k st' ps)"

text \<open>\<open>topk\<close> into arrays that hold at least \<open>k\<close> entries; what they held before does not matter.\<close>

definition topk :: "dbl list \<Rightarrow> nat \<Rightarrow> cand list option" where
  "topk x k = map_option (\<lambda>(a, m). take m a) (topk_loop k (replicate k (NaN, 0), 0) (zip x [0..<length x]))"

subsection \<open>The reference\<close>

fun ins :: "cand \<Rightarrow> cand list \<Rightarrow> cand list" where
  "ins p [] = [p]"
| "ins p (q # qs) = (if dlt (fst q) (fst p) then p # q # qs else q # ins p qs)"

definition best :: "cand list \<Rightarrow> cand list" where
  "best ps = foldl (\<lambda>acc p. ins p acc) [] ps"

text \<open>The order of the result: by value, the smaller id first among equals.\<close>

definition above :: "cand \<Rightarrow> cand \<Rightarrow> bool" where
  "above p q \<longleftrightarrow> dlt (fst q) (fst p) \<or> (fst p = fst q \<and> snd p < snd q)"

definition numeric :: "cand list \<Rightarrow> bool" where
  "numeric ps \<longleftrightarrow> (\<forall>p \<in> set ps. fst p \<noteq> NaN)"

lemma dlt_trans: "dlt x y \<Longrightarrow> dlt y z \<Longrightarrow> dlt x z"
  by (cases x; cases y; cases z) auto

lemma dlt_total: "x \<noteq> NaN \<Longrightarrow> y \<noteq> NaN \<Longrightarrow> dlt x y \<or> x = y \<or> dlt y x"
  by (cases x; cases y) auto

lemma dlt_irrefl [simp]: "\<not> dlt x x"
  by (cases x) auto

lemma dlt_asym: "dlt x y \<Longrightarrow> \<not> dlt y x"
  by (cases x; cases y) auto

lemma above_trans: "above p q \<Longrightarrow> above q r \<Longrightarrow> above p r"
  unfolding above_def using dlt_trans less_trans by metis

lemma set_ins [simp]: "set (ins p qs) = insert p (set qs)"
  by (induction p qs rule: ins.induct) auto

lemma mset_ins [simp]: "mset (ins p qs) = add_mset p (mset qs)"
  by (induction p qs rule: ins.induct) auto

lemma length_ins [simp]: "length (ins p qs) = Suc (length qs)"
  by (induction p qs rule: ins.induct) auto

lemma sorted_ins:
  assumes "sorted_wrt above qs" and "numeric (p # qs)" and "\<forall>q \<in> set qs. snd q < snd p"
  shows "sorted_wrt above (ins p qs)"
  using assms
proof (induction p qs rule: ins.induct)
  case (2 p q qs)
  show ?case
  proof (cases "dlt (fst q) (fst p)")
    case True
    then have "above p q" by (simp add: above_def)
    with True "2.prems"(1) show ?thesis by (auto intro: above_trans)
  next
    case False
    then have "above q p"
      using "2.prems" dlt_total [of "fst q" "fst p"] by (auto simp: above_def numeric_def)
    with False 2 show ?thesis by (auto simp: numeric_def)
  qed
qed simp

text \<open>An entry below the last of \<open>k\<close> does not change the first \<open>k\<close>.\<close>

lemma take_ins: "take k (ins p (take k qs)) = take k (ins p qs)"
proof (induction p qs arbitrary: k rule: ins.induct)
  case (1 p)
  then show ?case by simp
next
  case (2 p q qs)
  then show ?case by (cases k) (auto simp: take_Cons')
qed

lemma ins_last:
  assumes "sorted_wrt above (qs @ [q])" and "numeric (p # qs @ [q])" and "\<not> dlt (fst q) (fst p)"
  shows "ins p (qs @ [q]) = qs @ [q, p]"
  using assms
proof (induction qs)
  case (Cons r qs)
  have "\<not> dlt (fst r) (fst p)"
    using Cons.prems dlt_trans [of "fst q" "fst r" "fst p"] by (auto simp: above_def)
  with Cons show ?case by (auto simp: numeric_def)
qed simp

lemma ins_before_last:
  assumes "dlt (fst q) (fst p)"
  shows "ins p (qs @ [q]) = ins p qs @ [q]"
  using assms by (induction p qs rule: ins.induct) auto

subsection \<open>The loop is the reference\<close>

lemma length_sift [simp]: "length (sift j p a) = length a"
  by (induction j p a rule: sift.induct) auto

lemma sift_above: "j < i \<Longrightarrow> sift j p a ! i = a ! i"
  by (induction j p a rule: sift.induct) auto

lemma sift_ins:
  assumes "j < length a" and "sorted_wrt above (take j a)" and "numeric (p # take j a)"
  shows "take (Suc j) (sift j p a) = ins p (take j a)"
  using assms
proof (induction j p a rule: sift.induct)
  case (1 p a)
  then show ?case by (cases a) auto
next
  case (2 j p a)
  have t: "take (Suc j) a = take j a @ [a ! j]"
    using "2.prems"(1) by (simp add: take_Suc_conv_app_nth)
  show ?case
  proof (cases "dlt (fst (a ! j)) (fst p)")
    case True
    let ?b = "a[Suc j := a ! j]"
    have b: "take j ?b = take j a" by simp
    have "sorted_wrt above (take j ?b)" "numeric (p # take j ?b)"
      using "2.prems"(2,3) unfolding b t by (auto simp: sorted_wrt_append numeric_def)
    with "2.IH" [OF True] "2.prems"(1) have "take (Suc j) (sift j p ?b) = ins p (take j a)"
      by simp
    moreover have "sift j p ?b ! Suc j = a ! j" using "2.prems"(1) by (simp add: sift_above)
    ultimately have "take (Suc (Suc j)) (sift j p ?b) = ins p (take j a) @ [a ! j]"
      using "2.prems"(1) by (simp add: take_Suc_conv_app_nth)
    with True show ?thesis by (simp add: t ins_before_last)
  next
    case False
    then have "ins p (take (Suc j) a) = take j a @ [a ! j, p]"
      using "2.prems" unfolding t by (intro ins_last) auto
    with False "2.prems"(1) show ?thesis
      by (simp add: take_Suc_conv_app_nth t)
  qed
qed

text \<open>After some rounds the filled part of the array is the front of the reference list.\<close>

definition filled :: "nat \<Rightarrow> cand list \<times> nat \<Rightarrow> cand list \<Rightarrow> bool" where
  "filled k st L \<longleftrightarrow> length (fst st) = k \<and> snd st = min k (length L) \<and> take (snd st) (fst st) = take k L"

lemma topk_round_filled:
  assumes "filled k (a, m) L" and "0 < k" and "sorted_wrt above L" and "numeric (p # L)"
    and "\<forall>q \<in> set L. snd q < snd p"
  obtains st where "topk_round k (a, m) p = Some st" and "filled k st (ins p L)"
proof (cases "m = k")
  case True
  have kL: "k \<le> length L" and a: "a = take k L" "length a = k"
    using assms(1) True by (auto simp: filled_def)
  obtain j where j: "k = Suc j" using assms(2) by (cases k) auto
  let ?q = "a ! j"
  have tk: "take k L = take j L @ [?q]" and q: "?q \<in> set L"
  proof -
    have "?q = L ! j" using a kL by (simp add: j)
    moreover have "j < length L" using kL j by simp
    ultimately show "take k L = take j L @ [?q]" "?q \<in> set L"
      by (simp_all add: j take_Suc_conv_app_nth)
  qed
  have srt: "sorted_wrt above (take j L @ [?q])" "numeric (p # take j L @ [?q])"
    using assms(3,4) sorted_wrt_take [of above L k] set_take_subset [of k L]
    unfolding tk [symmetric] by (auto simp: numeric_def)
  show thesis
  proof (cases "dle (fst p) (fst ?q)")
    case True
    then have "\<not> dlt (fst ?q) (fst p)" by (auto simp: dle_def dest: dlt_asym)
    then have "ins p (take k L) = take k L @ [p]" using srt unfolding tk by (simp add: ins_last)
    then have "take k (ins p L) = take k L" by (metis a append_eq_conv_conj take_ins)
    with assms(1) \<open>m = k\<close> kL have "filled k (a, m) (ins p L)" by (simp add: filled_def)
    moreover have "topk_round k (a, m) p = Some (a, m)"
      using True \<open>m = k\<close> j by (simp add: topk_round_def)
    ultimately show thesis using that by blast
  next
    case False
    have lt: "dlt (fst ?q) (fst p)"
      using False dlt_total [of "fst p" "fst ?q"] srt(2) by (auto simp: dle_def numeric_def)
    have ta: "take j a = take j L" using a by (simp add: j min_def)
    have "take k (sift j p a) = ins p (take j a)"
      using sift_ins [of j a p] srt a(2) by (simp add: ta j sorted_wrt_append numeric_def)
    also have "\<dots> = take k (ins p (take j L @ [?q]))"
      using ins_before_last [OF lt, of "take j L"] kL by (simp add: ta j)
    also have "\<dots> = take k (ins p L)" by (simp add: tk [symmetric] take_ins)
    finally have "filled k (sift j p a, k) (ins p L)" using a(2) kL by (simp add: filled_def)
    moreover have "topk_round k (a, m) p = Some (sift j p a, k)"
      using False \<open>m = k\<close> j by (simp add: topk_round_def)
    ultimately show thesis using that by blast
  qed
next
  case False
  then have m: "m < k" "m = length L" "take m a = L" "length a = k"
    using assms(1) by (auto simp: filled_def)
  then have "take (Suc m) (sift m p a) = ins p L"
    using sift_ins [of m a p] assms(3,4) by simp
  with m have "filled k (sift m p a, Suc m) (ins p L)" by (simp add: filled_def)
  moreover have "topk_round k (a, m) p = Some (sift m p a, Suc m)"
    using m(1) by (simp add: topk_round_def)
  ultimately show thesis using that by blast
qed

lemma topk_loop_filled:
  assumes "filled k st L" and "0 < k" and "sorted_wrt above L" and "numeric (L @ ps)"
    and "sorted_wrt (\<lambda>p q. snd p < snd q) ps" and "\<forall>q \<in> set L. \<forall>p \<in> set ps. snd q < snd p"
  shows "\<exists>st'. topk_loop k st ps = Some st' \<and> filled k st' (foldl (\<lambda>acc p. ins p acc) L ps)"
  using assms
proof (induction ps arbitrary: st L)
  case (Cons p ps)
  obtain a m where st: "st = (a, m)" by (cases st)
  have num: "numeric (p # L)" and lt: "\<forall>q \<in> set L. snd q < snd p"
    using Cons.prems(4,6) by (auto simp: numeric_def)
  obtain st' where st': "topk_round k (a, m) p = Some st'" "filled k st' (ins p L)"
    using topk_round_filled [OF Cons.prems(1) [unfolded st] Cons.prems(2,3) num lt] by blast
  have "\<exists>st''. topk_loop k st' ps = Some st'' \<and> filled k st'' (foldl (\<lambda>acc p. ins p acc) (ins p L) ps)"
    using Cons.prems num lt by (intro Cons.IH [OF st'(2)] sorted_ins) (auto simp: numeric_def)
  with st'(1) show ?case by (simp add: st)
qed simp

lemma best_sorted:
  assumes "numeric ps" and "sorted_wrt (\<lambda>p q. snd p < snd q) ps"
  shows "sorted_wrt above (best ps) \<and> mset (best ps) = mset ps"
proof -
  have "sorted_wrt above (foldl (\<lambda>acc p. ins p acc) L ps)
      \<and> mset (foldl (\<lambda>acc p. ins p acc) L ps) = mset L + mset ps"
    if "sorted_wrt above L" "numeric (L @ ps)" "sorted_wrt (\<lambda>p q. snd p < snd q) ps"
      "\<forall>q \<in> set L. \<forall>p \<in> set ps. snd q < snd p" for L
    using that
  proof (induction ps arbitrary: L)
    case (Cons p ps)
    have "sorted_wrt above (ins p L)"
      using Cons.prems by (intro sorted_ins) (auto simp: numeric_def)
    then show ?case using Cons.IH [of "ins p L"] Cons.prems by (auto simp: numeric_def)
  qed simp
  from this [of "[]"] assms show ?thesis by (simp add: best_def)
qed

lemma zip_upt_ids: "sorted_wrt (\<lambda>p q. snd p < snd q) (zip x [0..<length x])"
  by (simp add: sorted_wrt_iff_nth_less)

lemma topk_best:
  assumes "0 < k" and "NaN \<notin> set x"
  shows "topk x k = Some (take k (best (zip x [0..<length x])))"
proof -
  have num: "numeric (zip x [0..<length x])"
    using assms(2) by (auto simp: numeric_def dest: set_zip_leftD)
  have "filled k (replicate k (NaN, 0), 0) []" by (simp add: filled_def)
  then obtain st where "topk_loop k (replicate k (NaN, 0), 0) (zip x [0..<length x]) = Some st"
    "filled k st (best (zip x [0..<length x]))"
    using topk_loop_filled [of k "(replicate k (NaN, 0), 0)" "[]" "zip x [0..<length x]"] assms(1)
      num zip_upt_ids [of x] unfolding best_def by (simp only: append_Nil sorted_wrt.simps) auto
  then show ?thesis by (cases st) (simp add: topk_def filled_def)
qed

text \<open>The loop has a meaning for every \<open>k\<close> but 0.\<close>

lemma topk_loop_defined: "0 < k \<Longrightarrow> topk_loop k st ps \<noteq> None"
  by (induction k st ps rule: topk_loop.induct)
    (auto simp: topk_round_def split: option.splits prod.splits if_splits)

lemma topk_defined: "0 < k \<Longrightarrow> topk x k \<noteq> None"
  using topk_loop_defined by (simp add: topk_def)

lemma topk_0: "x \<noteq> [] \<Longrightarrow> topk x 0 = None"
  by (cases x) (simp_all add: topk_def topk_round_def upt_rec)

subsection \<open>The normaliser\<close>

text \<open>\<open>logz\<close> in real arithmetic: the maximum first, then the logarithm of the sum. Rounding is
  not modelled, so this is the function the code approximates.\<close>

definition logz :: "real list \<Rightarrow> real" where
  "logz x = (let mx = foldl (\<lambda>m v. if v > m then v else m) (hd x) (tl x)
             in mx + ln (foldl (\<lambda>s v. s + exp (v - mx)) 0 x))"

lemma foldl_exp_sum: "foldl (\<lambda>s v. s + f v) (a::real) x = a + (\<Sum>v\<leftarrow>x. f v)"
  by (induction x arbitrary: a) simp_all

lemma logz_sum: "x \<noteq> [] \<Longrightarrow> logz x = ln (\<Sum>v\<leftarrow>x. exp v)"
proof -
  assume x: "x \<noteq> []"
  define mx where "mx = foldl (\<lambda>m v. if v > m then v else m) (hd x) (tl x)"
  have s: "(\<Sum>v\<leftarrow>x. exp (v - mx)) = (\<Sum>v\<leftarrow>x. exp v) / exp mx"
    by (induction x) (simp_all add: exp_diff add_divide_distrib)
  have pos: "0 < (\<Sum>v\<leftarrow>x. exp v)"
    using x by (induction x) (auto intro!: add_pos_nonneg sum_list_nonneg)
  have "logz x = mx + ln ((\<Sum>v\<leftarrow>x. exp v) / exp mx)"
    by (simp add: logz_def Let_def mx_def [symmetric] foldl_exp_sum s)
  also have "\<dots> = ln (\<Sum>v\<leftarrow>x. exp v)" using pos by (simp add: ln_div)
  finally show ?thesis .
qed

end
