(* ===== verification/Sessions.thy ===== *)
theory Sessions
  imports Json Framing Slots Logits
begin

section \<open>Sessions (src/src/geistd.c)\<close>

text \<open>
  The daemon's state and the operations on engine sessions. The engine (libgeist) is not part of
  the repository: it is the record \<open>engine\<close> of functions, a parameter of every definition that
  calls it. A session of the engine is a value of a type \<open>'s\<close>, owned by one slot, and a call that
  changes it returns the new value; \<open>'m\<close> is the loaded model.

  Every path of an operation ends with \<open>return reply(...)\<close> or \<open>return reply_error(...)\<close>; an
  operation is therefore a function to an \<open>outcome\<close> and the new state, and \<open>answer\<close> writes the
  outcome. \<open>Undefined\<close> is the outcome of a path on which C gives the code no meaning: a conversion
  of an out-of-range double, or a read outside an array. Allocations succeed and the host is
  little-endian, as \<open>docs/GEISTD.md\<close> requires for the token arrays.
\<close>

definition CTX_CAP :: nat where "CTX_CAP = 4096"
definition TOPK_MAX :: nat where "TOPK_MAX = 256"
definition SESS_MAX :: nat where "SESS_MAX = 16"
definition CHAT_MAX :: nat where "CHAT_MAX = 8"

type_synonym token = int

subsection \<open>The engine\<close>

record sess_opts =
  max_seq_len :: nat
  temperature :: dbl
  top_p :: dbl
  top_k :: nat
  random_seed :: nat

text \<open>\<open>g_create\<close> gives the status and the session, which may exist for its error message only;
  \<open>g_peek\<close> is empty where the C function returns no logits. The last three functions print
  floating-point numbers and store them.\<close>

record ('m, 's) engine =
  g_create :: "'m \<Rightarrow> sess_opts \<Rightarrow> bool \<times> 's option"
  g_errmsg :: "'s \<Rightarrow> string"
  g_tokenize :: "'s \<Rightarrow> string \<Rightarrow> nat \<Rightarrow> token list option"
  g_token_str :: "'s \<Rightarrow> token \<Rightarrow> string option"
  g_reset :: "'s \<Rightarrow> bool \<times> 's"
  g_prefill :: "'s \<Rightarrow> token list \<Rightarrow> bool \<times> 's"
  g_peek :: "'s \<Rightarrow> dbl list"
  g_step :: "'s \<Rightarrow> token option \<times> 's"
  g_pin :: "'s \<Rightarrow> token list \<Rightarrow> bool \<times> 's"
  g_token_by_text :: "'m \<Rightarrow> string \<Rightarrow> token"
  g_bos :: "'m \<Rightarrow> token"
  g_arch :: "'m \<Rightarrow> string"
  g_backend :: "'m \<Rightarrow> string"
  p_logit :: "dbl \<Rightarrow> string"
  p_logprob :: "dbl list \<Rightarrow> dbl \<Rightarrow> string"
  p_floats :: "dbl list \<Rightarrow> string"

text \<open>What one request sees of the outside: the clock, eight bytes of /dev/urandom and the
  duration of a generation, printed.\<close>

record env =
  now :: int
  entropy :: string
  elapsed :: string

subsection \<open>The daemon\<close>

record 's sess =
  live :: bool
  sid :: string
  handle_of :: "'s option"
  hist :: "token list"
  pinned :: nat
  used :: int

definition no_sess :: "'s sess" where
  "no_sess = \<lparr>live = False, sid = [], handle_of = None, hist = [], pinned = 0, used = 0\<rparr>"

record 'c chat =
  chat_live :: bool
  chat_id :: string
  chat_of :: "'c option"
  chat_used :: int

definition no_chat :: "'c chat" where
  "no_chat = \<lparr>chat_live = False, chat_id = [], chat_of = None, chat_used = 0\<rparr>"

record model =
  mo_name :: string
  mo_eos :: token
  mo_eot :: "token list"
  mo_add_bos :: bool

definition model_is_stop :: "model \<Rightarrow> token \<Rightarrow> bool" where
  "model_is_stop mo t \<longleftrightarrow> t = mo_eos mo \<or> (\<exists>k \<in> set [0..<length (mo_eot mo)]. t = mo_eot mo ! k)"

record ('m, 's, 'r, 'c) daemon =
  mo :: model
  mdl :: 'm
  rt :: "'r option"
  chats :: "'c chat list"
  n_chats :: nat
  vocab :: nat
  sesss :: "'s sess list"
  n_max :: nat
  idle_s :: int
  auth_token :: "string option"
  need_hello :: bool

datatype outcome =
    Ok (reply_hdr: string) (reply_body: string)
  | Err string
  | Undefined

definition error_hdr :: "string \<Rightarrow> string" where
  \<open>error_hdr msg = ''{"ok":false,"error":'' @ sb_json_str msg @ ''}''\<close>

definition reply_error :: "string \<Rightarrow> conn \<Rightarrow> bool \<times> conn" where
  "reply_error msg c = write_frame (error_hdr msg) [] c"

text \<open>No result for an undefined path.\<close>

definition answer :: "outcome \<Rightarrow> conn \<Rightarrow> (bool \<times> conn) option" where
  "answer r c =
     (case r of Ok h b \<Rightarrow> Some (write_frame h b c) | Err m \<Rightarrow> Some (reply_error m c) | Undefined \<Rightarrow> None)"

definition ok_hdr :: string where
  \<open>ok_hdr = ''{"ok":true}''\<close>

definition bool_text :: "bool \<Rightarrow> string" where
  "bool_text b = (if b then ''true'' else ''false'')"

text \<open>Comma-separated items, as the loops over arrays print them.\<close>

fun commas :: "string list \<Rightarrow> string" where
  "commas [] = []"
| "commas [s] = s"
| "commas (s # ss) = s @ '','' @ commas ss"

text \<open>A body read as an array of int32.\<close>

definition ids_of :: "string \<Rightarrow> token list" where
  "ids_of body = map (\<lambda>k. sint (rd_u32 (take 4 (drop (4 * k) body)))) [0..<length body div 4]"

definition bytes_of :: "token list \<Rightarrow> string" where
  "bytes_of ids = concat (map (\<lambda>i. wr_u32 (word_of_int i)) ids)"

text \<open>\<open>(size_t)\<close> and \<open>(int)\<close> of a double that \<open>json_clamp\<close> has put between two small bounds.\<close>

definition dnat :: "dbl \<Rightarrow> nat" where
  "dnat x = (case x of Fin q \<Rightarrow> nat \<lfloor>q\<rfloor> | _ \<Rightarrow> 0)"

definition to_int32 :: "dbl \<Rightarrow> int option" where
  "to_int32 x =
     (case x of
        Fin q \<Rightarrow> let i = (if q < 0 then \<lceil>q\<rceil> else \<lfloor>q\<rfloor>) in
                 if - (2 ^ 31) \<le> i \<and> i < 2 ^ 31 then Some i else None
      | _ \<Rightarrow> None)"

subsection \<open>The session table\<close>

definition set_sess :: "nat \<Rightarrow> 's sess \<Rightarrow> ('m, 's, 'r, 'c) daemon \<Rightarrow> ('m, 's, 'r, 'c) daemon" where
  "set_sess i x d = d\<lparr>sesss := (sesss d)[i := x]\<rparr>"

definition sess_evict_idle :: "int \<Rightarrow> ('m, 's, 'r, 'c) daemon \<Rightarrow> ('m, 's, 'r, 'c) daemon" where
  "sess_evict_idle t d =
     foldl (\<lambda>d i. if live (sesss d ! i) \<and> t - used (sesss d ! i) > idle_s d then set_sess i no_sess d else d)
       d [0..<n_max d]"

text \<open>The session found is marked used.\<close>

definition sess_find ::
    "int \<Rightarrow> string option \<Rightarrow> ('m, 's, 'r, 'c) daemon \<Rightarrow> nat option \<times> ('m, 's, 'r, 'c) daemon" where
  "sess_find t key d =
     (case find_slot live sid (n_max d) key (sesss d) of
        None \<Rightarrow> (None, d)
      | Some i \<Rightarrow> (Some i, set_sess i ((sesss d ! i)\<lparr>used := t\<rparr>) d))"

definition sess_pick :: "nat \<Rightarrow> 's sess list \<Rightarrow> nat" where
  "sess_pick n xs = slot_index live used n xs"

interpretation sess_table: slot_table live used sess_pick
  unfolding sess_pick_def by unfold_locales (rule slot_index_laws; assumption)+

text \<open>The slot and the daemon in which that slot is free.\<close>

definition sess_slot :: "('m, 's, 'r, 'c) daemon \<Rightarrow> nat \<times> ('m, 's, 'r, 'c) daemon" where
  "sess_slot d = (let i = sess_pick (n_max d) (sesss d)
                  in (i, if live (sesss d ! i) then set_sess i no_sess d else d))"

text \<open>\<open>snprintf(out + 2 * i, 3, "%02x", r[i])\<close> for eight random bytes.\<close>

definition random_id :: "string \<Rightarrow> string" where
  "random_id r = concat (map (\<lambda>i. [hexdig (byte (r ! i) div 16), hexdig (byte (r ! i) mod 16)]) [0..<8])"

subsection \<open>History\<close>

definition hist_push :: "token list \<Rightarrow> 's sess \<Rightarrow> bool \<times> 's sess" where
  "hist_push ids x =
     (if length (hist x) + length ids > CTX_CAP then (False, x) else (True, x\<lparr>hist := hist x @ ids\<rparr>))"

fun common_prefix :: "token list \<Rightarrow> token list \<Rightarrow> nat" where
  "common_prefix (a # as) (b # bs) = (if a = b then Suc (common_prefix as bs) else 0)"
| "common_prefix as bs = 0"

subsection \<open>Operations on the table\<close>

text \<open>What the build writes into \<open>engine-build.h\<close> and the linked library answers.\<close>

record build =
  version_string :: string
  source_revision :: string
  source_state :: string
  archive_sha256 :: string

definition engine_info :: "build \<Rightarrow> string" where
  \<open>engine_info b = ''{"geistlib":{"version":'' @ sb_json_str (version_string b) @ '',"revision":''
     @ (if source_revision b \<noteq> [] then sb_json_str (source_revision b) else ''null'')
     @ '',"source_state":'' @ sb_json_str (source_state b)
     @ ''},"archive_sha256":'' @ sb_json_str (archive_sha256 b) @ ''}''\<close>

text \<open>\<open>fmt\<close> is the chat format the runtime detected, if there is a runtime and it answers.\<close>

definition op_info ::
    "('m, 's) engine \<Rightarrow> build \<Rightarrow> string option \<Rightarrow> ('m, 's, 'r, 'c) daemon \<Rightarrow> outcome" where
  \<open>op_info E b fmt d =
     Ok (sb_printf (''{"ok":true,"model":"'' @ mo_name (mo d) @ ''","arch":"'' @ g_arch E (mdl d) @ ''","eos":''
                    @ deci (mo_eos (mo d)) @ '',"eot":['') @ commas (map deci (mo_eot (mo d)))
         @ sb_printf (''],"ctx":'' @ dec CTX_CAP @ '',"vocab":'' @ dec (vocab d)
         @ '',"add_bos":'' @ bool_text (mo_add_bos (mo d)) @ '',"bos":'' @ deci (g_bos E (mdl d))
         @ '',"template":"'' @ (case fmt of None \<Rightarrow> ''unknown'' | Some f \<Rightarrow> f)
         @ ''","agent_api":1,"chat_api":'' @ bool_text (rt d \<noteq> None)
         @ '',"max_chats":'' @ dec (n_chats d) @ '',"backend":"'' @ g_backend E (mdl d)
         @ ''","sessions":'' @ dec (length (filter (\<lambda>i. live (sesss d ! i)) [0..<n_max d]))
         @ '',"max_sessions":'' @ dec (n_max d) @ '',"engine":'') @ engine_info b @ ''}'') []\<close>

text \<open>The sampler options of a request, and whether a field had the wrong type.\<close>

definition open_opts :: "json \<Rightarrow> sess_opts \<times> bool" where
  "open_opts j =
     (let t = json_clamp j (json_get j 0 ''temperature'') (Fin 0) (Fin 0) (Fin 2);
          p = json_clamp j (json_get j 0 ''top_p'') (Fin 1) (Fin (1 / 100)) (Fin 1);
          k = json_clamp j (json_get j 0 ''top_k'') (Fin 0) (Fin 0) (Fin 1000);
          r = json_clamp j (json_get j 0 ''seed'') (Fin 0) (Fin 0) (Fin (2 ^ 53))
      in (\<lparr>max_seq_len = CTX_CAP, temperature = fst t, top_p = fst p, top_k = dnat (fst k),
           random_seed = dnat (fst r)\<rparr>, snd t \<or> snd p \<or> snd k \<or> snd r))"

definition op_open ::
    "('m, 's) engine \<Rightarrow> env \<Rightarrow> json \<Rightarrow> ('m, 's, 'r, 'c) daemon \<Rightarrow> outcome \<times> ('m, 's, 'r, 'c) daemon" where
  \<open>op_open E v j d =
     (case open_opts j of (opts, bad) \<Rightarrow>
        if bad then (Err ''open: a sampler field has the wrong type'', d)
        else
          (case sess_slot (sess_evict_idle (now v) d) of (i, d1) \<Rightarrow>
             (case g_create E (mdl d1) opts of
                (True, Some s) \<Rightarrow>
                  (Ok (''{"ok":true,"session":"'' @ random_id (entropy v) @ ''"}'') [],
                   set_sess i \<lparr>live = True, sid = random_id (entropy v), handle_of = Some s, hist = [],
                               pinned = 0, used = now v\<rparr> d1)
              | (_, so) \<Rightarrow>
                  (Err (take 299 (''open: '' @ (case so of None \<Rightarrow> ''session create failed''
                                                | Some s \<Rightarrow> g_errmsg E s))),
                   set_sess i no_sess d1))))\<close>

definition op_tokenize ::
    "('m, 's) engine \<Rightarrow> json \<Rightarrow> ('m, 's, 'r, 'c) daemon \<Rightarrow> outcome" where
  \<open>op_tokenize E j d =
     (case json_strdup j (json_get j 0 ''text'') of
        None \<Rightarrow> Err ''tokenize: text must be a string''
      | Some text \<Rightarrow>
          (case (case find (\<lambda>i. live (sesss d ! i)) [0..<n_max d] of
                   Some i \<Rightarrow> handle_of (sesss d ! i)
                 | None \<Rightarrow>
                     (case g_create E (mdl d) \<lparr>max_seq_len = 16, temperature = Fin 0, top_p = Fin 0,
                                              top_k = 0, random_seed = 0\<rparr> of
                        (True, so) \<Rightarrow> so | (False, so) \<Rightarrow> None)) of
             None \<Rightarrow> Err ''tokenize: no session''
           | Some s \<Rightarrow>
               if length text \<le> 32 * 1024 then
                 (case g_tokenize E s text CTX_CAP of
                    Some ids \<Rightarrow> Ok (''{"ok":true,"n":'' @ dec (length ids) @ ''}'') (bytes_of ids)
                  | None \<Rightarrow> Err ''tokenize: text too long for the context'')
               else Err ''tokenize: text too long for the context''))\<close>

definition piece_text :: "string option \<Rightarrow> string" where
  "piece_text p = (case p of Some s \<Rightarrow> sb_json_str s | None \<Rightarrow> ''null'')"

definition op_str :: "('m, 's) engine \<Rightarrow> 's sess option \<Rightarrow> string \<Rightarrow> outcome" where
  \<open>op_str E x body =
     (case x of
        None \<Rightarrow> Err ''str: unknown session''
      | Some x \<Rightarrow>
          Ok (''{"ok":true,"pieces":['' @ commas (map (\<lambda>t. piece_text (g_token_str E (the (handle_of x)) t)) (ids_of body))
              @ '']}'') [])\<close>

subsection \<open>Prefill\<close>

text \<open>
  The request is the whole intended context. A history that is a proper prefix of it is kept and
  only the tail is prefilled; an identical one needs nothing; otherwise the session is reset to its
  pinned prefix, which the request must share.
\<close>

definition prefilled_hdr :: "nat \<Rightarrow> nat \<Rightarrow> nat \<Rightarrow> string" where
  \<open>prefilled_hdr tail reused n =
     ''{"ok":true,"prefilled":'' @ dec tail @ '',"reused":'' @ dec reused @ '',"n":'' @ dec n @ ''}''\<close>

text \<open>The last steps: prefill the tail, and on failure fall back to the pinned prefix.\<close>

definition prefill_tail :: "('m, 's) engine \<Rightarrow> token list \<Rightarrow> nat \<Rightarrow> 's sess \<Rightarrow> outcome \<times> 's sess" where
  "prefill_tail E ids reused x =
     (let tail = drop reused ids;
          (ok, s) = (if tail = [] then (True, the (handle_of x)) else g_prefill E (the (handle_of x)) tail)
      in if ok then
           (let x' = snd (hist_push tail (x\<lparr>handle_of := Some s\<rparr>))
            in (Ok (prefilled_hdr (length tail) reused (length (hist x'))) [], x'))
         else
           (Err (take 299 (''prefill: '' @ g_errmsg E s)),
            x\<lparr>handle_of := Some (snd (g_reset E s)), hist := take (pinned x) (hist x)\<rparr>))"

definition prefill_sess :: "('m, 's) engine \<Rightarrow> token list \<Rightarrow> 's sess \<Rightarrow> outcome \<times> 's sess" where
  "prefill_sess E ids x =
     (let n = length ids; n_hist = length (hist x); common = common_prefix (hist x) ids in
      if common = n_hist \<and> n_hist > 0 \<and> n > n_hist then prefill_tail E ids n_hist x
      else if common = n \<and> n_hist = n then (Ok (prefilled_hdr 0 n n_hist) [], x)
      else if pinned x > 0 \<and> common < pinned x then
        (Err ''prefill: request differs inside the pinned prefix'', x)
      else
        (case g_reset E (the (handle_of x)) of
           (False, s) \<Rightarrow> (Err ''prefill: reset failed'', x\<lparr>handle_of := Some s\<rparr>)
         | (True, s) \<Rightarrow>
             prefill_tail E ids (pinned x) (x\<lparr>handle_of := Some s, hist := take (pinned x) (hist x)\<rparr>)))"

definition op_prefill :: "('m, 's) engine \<Rightarrow> nat \<Rightarrow> string \<Rightarrow> 's sess \<Rightarrow> outcome \<times> 's sess" where
  "op_prefill E voc body x =
     (let ids = ids_of body; n = length ids in
      if length body mod 4 \<noteq> 0 then (Err ''prefill: body is not an int32 array'', x)
      else if n = 0 then (Err ''prefill: no tokens'', x)
      else if n > CTX_CAP - 1 then (Err ''prefill: context overflow (4096)'', x)
      else if \<exists>t \<in> set ids. t < 0 \<or> nat t \<ge> voc then (Err ''prefill: token id out of range'', x)
      else prefill_sess E ids x)"

subsection \<open>Peek, step and generate\<close>

text \<open>\<open>,"top":[[id,logprob],...]\<close>; nothing where \<open>topk\<close> reads outside its arrays.\<close>

definition top_item :: "('m, 's) engine \<Rightarrow> dbl list \<Rightarrow> cand \<Rightarrow> string" where
  "top_item E lg p = ''['' @ dec (snd p) @ '','' @ p_logprob E lg (fst p) @ '']''"

definition top_items :: "('m, 's) engine \<Rightarrow> dbl list \<Rightarrow> cand list \<Rightarrow> string" where
  \<open>top_items E lg ps = '',"top":['' @ commas (map (top_item E lg) ps) @ '']''\<close>

definition sb_topk :: "('m, 's) engine \<Rightarrow> dbl list \<Rightarrow> nat \<Rightarrow> string option" where
  "sb_topk E lg k = (case topk lg (min k TOPK_MAX) of None \<Rightarrow> None | Some ps \<Rightarrow> Some (top_items E lg ps))"

text \<open>The \<open>top\<close> field a request asks for: absent, present, or undefined.\<close>

definition topk_field :: "('m, 's) engine \<Rightarrow> json \<Rightarrow> dbl list \<Rightarrow> string option" where
  "topk_field E j lg =
     (let k = json_num j (json_get j 0 ''topk'') (Fin 0) in
      if dlt (Fin 0) k then
        (if lg = [] then Some []
         else case to_unsigned 64 k of None \<Rightarrow> None | Some n \<Rightarrow> sb_topk E lg n)
      else Some [])"

definition peek_ids :: "(dbl \<Rightarrow> string) \<Rightarrow> dbl list \<Rightarrow> token list \<Rightarrow> string" where
  "peek_ids p lg ids =
     commas (map (\<lambda>t. if 0 \<le> t \<and> nat t < length lg then p (lg ! nat t) else ''null'') ids)"

definition op_peek ::
    "('m, 's) engine \<Rightarrow> json \<Rightarrow> string \<Rightarrow> 's sess option \<Rightarrow> ('m, 's, 'r, 'c) daemon \<Rightarrow>
     outcome \<times> ('m, 's, 'r, 'c) daemon" where
  \<open>op_peek E j body x d =
     (case x of
        None \<Rightarrow> (Err ''peek: unknown session'', d)
      | Some x \<Rightarrow>
          let lg = g_peek E (the (handle_of x)); n = length lg in
          if n = 0 then (Err ''peek: no pending logits (prefill first)'', d)
          else
            (case topk_field E j lg of
               None \<Rightarrow> (Undefined, d\<lparr>vocab := n\<rparr>)
             | Some tops \<Rightarrow>
                 (Ok (''{"ok":true,"n":'' @ dec n @ tops
                      @ (if length body \<ge> 4 then
                           '',"logits":['' @ peek_ids (p_logit E) lg (ids_of body)
                           @ ''],"logprobs":['' @ peek_ids (p_logprob E lg) lg (ids_of body) @ '']''
                         else [])
                      @ ''}'')
                     (if json_bool j (json_get j 0 ''full'') False then p_floats E lg else []),
                  d\<lparr>vocab := n\<rparr>)))\<close>

definition op_step ::
    "('m, 's) engine \<Rightarrow> model \<Rightarrow> json \<Rightarrow> 's sess \<Rightarrow> outcome \<times> 's sess" where
  \<open>op_step E m j x =
     (if hist x = [] then (Err ''step: prefill first'', x)
      else if length (hist x) \<ge> CTX_CAP - 1 then (Err ''step: context full'', x)
      else
        (case topk_field E j (g_peek E (the (handle_of x))) of
           None \<Rightarrow> (Undefined, x)
         | Some tops \<Rightarrow>
             (case g_step E (the (handle_of x)) of
                (None, s) \<Rightarrow> (Err ''step: decode failed'', x\<lparr>handle_of := Some s\<rparr>)
              | (Some t, s) \<Rightarrow>
                  let x' = snd (hist_push [t] (x\<lparr>handle_of := Some s\<rparr>)) in
                  (Ok (''{"ok":true'' @ tops @ '',"token":'' @ deci t @ '',"stop":'' @ bool_text (model_is_stop m t)
                       @ '',"n":'' @ dec (length (hist x')) @ '',"piece":'' @ piece_text (g_token_str E s t) @ ''}'') [],
                   x'))))\<close>

text \<open>The direct children of an array, at most \<open>m\<close>, in the order of the text.\<close>

definition array_items :: "json \<Rightarrow> int \<Rightarrow> (int \<Rightarrow> bool) \<Rightarrow> nat \<Rightarrow> int list" where
  "array_items j arr ok m =
     (if arr \<ge> 0 \<and> tok_type (tok j ! nat arr) = JSMN_ARRAY then
        take m (filter (\<lambda>i. tok_parent (tok j ! nat i) = arr \<and> ok i) (map int [nat arr + 1 ..< nat (json_n j)]))
      else [])"

text \<open>\<open>strstr\<close>.\<close>

fun strstr :: "string \<Rightarrow> string \<Rightarrow> bool" where
  "strstr [] n = (n = [])"
| "strstr (c # cs) n = (take (length n) (c # cs) = n \<or> strstr cs n)"

text \<open>The window over the decoded text in which stop strings are looked for, 511 bytes and a NUL.\<close>

definition tail_push :: "string \<Rightarrow> string \<Rightarrow> string" where
  "tail_push tail p =
     (let pl = length p; tl = length tail in
      if pl \<ge> 512 then drop (pl - 512 + 1) p
      else (if tl + pl \<ge> 512 then drop (tl + pl - 512 + 1) tail else tail) @ p)"

record gen =
  g_max :: nat
  g_stop_ids :: "int list"
  g_stops :: "string list"

definition gen_stop :: "model \<Rightarrow> gen \<Rightarrow> token \<Rightarrow> string option \<Rightarrow> string \<Rightarrow> bool" where
  "gen_stop m g t p tail \<longleftrightarrow> model_is_stop m t \<or> t \<in> set (g_stop_ids g)
     \<or> (p \<noteq> None \<and> (\<exists>n \<in> set (g_stops g). strstr tail n))"

definition gen_frame :: "token \<Rightarrow> bool \<Rightarrow> string option \<Rightarrow> string" where
  \<open>gen_frame t stop p =
     ''{"ok":true,"token":'' @ deci t @ '',"done":false,"stop":'' @ bool_text stop @ '',"piece":'' @ piece_text p @ ''}''\<close>

text \<open>The loop with \<open>r\<close> rounds left: the reason, the tokens counted, the session and the
  connection.\<close>

fun gen_loop ::
    "('m, 's) engine \<Rightarrow> model \<Rightarrow> gen \<Rightarrow> nat \<Rightarrow> nat \<Rightarrow> 's sess \<Rightarrow> string \<Rightarrow> conn \<Rightarrow>
     string \<times> nat \<times> 's sess \<times> conn" where
  "gen_loop E m g 0 k x tail c = (''max'', k, x, c)"
| "gen_loop E m g (Suc r) k x tail c =
     (if length (hist x) \<ge> CTX_CAP - 1 then (''context'', k, x, c)
      else
        (case g_step E (the (handle_of x)) of
           (None, s) \<Rightarrow> (''error'', k, x\<lparr>handle_of := Some s\<rparr>, c)
         | (Some t, s) \<Rightarrow>
             let x' = snd (hist_push [t] (x\<lparr>handle_of := Some s\<rparr>));
                 p = g_token_str E s t;
                 tail' = (case p of Some q \<Rightarrow> tail_push tail q | None \<Rightarrow> tail);
                 stop = gen_stop m g t p tail'
             in (case write_frame (gen_frame t stop p) [] c of
                   (False, c') \<Rightarrow> (''client'', k, x', c')
                 | (True, c') \<Rightarrow>
                     if stop then (''stop'', k + 1, x', c')
                     else gen_loop E m g r (k + 1) x' tail' c')))"

text \<open>The request's limits; a stop id that is no int32 has no meaning.\<close>

definition gen_of :: "json \<Rightarrow> gen option" where
  "gen_of j =
     (let ids = map (\<lambda>i. to_int32 (json_num j i (Fin (-1)))) (array_items j (json_get j 0 ''stop_ids'') (\<lambda>i. True) 16)
      in if None \<in> set ids then None
         else Some \<lparr>g_max = dnat (fst (json_clamp j (json_get j 0 ''max'') (Fin 256) (Fin 1) (Fin (of_nat CTX_CAP)))),
                    g_stop_ids = map the ids,
                    g_stops = map (\<lambda>i. the (json_strdup j i))
                                (array_items j (json_get j 0 ''stop_strings'') (json_is_str j) 8)\<rparr>)"

definition generated_hdr :: "env \<Rightarrow> string \<Rightarrow> nat \<Rightarrow> nat \<Rightarrow> string" where
  \<open>generated_hdr v reason k n =
     ''{"ok":true,"done":true,"reason":"'' @ reason @ ''","generated":'' @ dec k @ '',"n":'' @ dec n
     @ '',"duration_ns":'' @ elapsed v @ ''}''\<close>

text \<open>The operation writes to the connection itself; it has no result where it has no meaning.\<close>

definition op_generate ::
    "('m, 's) engine \<Rightarrow> env \<Rightarrow> model \<Rightarrow> json \<Rightarrow> 's sess \<Rightarrow> conn \<Rightarrow> (bool \<times> 's sess \<times> conn) option" where
  "op_generate E v m j x c =
     (if hist x = [] then
        (case reply_error ''generate: prefill first'' c of (ok, c') \<Rightarrow> Some (ok, x, c'))
      else
        (case gen_of j of
           None \<Rightarrow> None
         | Some g \<Rightarrow>
             (case gen_loop E m g (g_max g) 0 x [] c of
                (reason, k, x', c') \<Rightarrow>
                  if broken c' then Some (False, x', c')
                  else (case write_frame (generated_hdr v reason k (length (hist x'))) [] c' of
                          (ok, c'') \<Rightarrow> Some (ok, x', c'')))))"

subsection \<open>Pin, unpin, reset and close\<close>

definition op_unpin :: "('m, 's) engine \<Rightarrow> 's sess \<Rightarrow> outcome \<times> 's sess" where
  "op_unpin E x =
     (case g_pin E (the (handle_of x)) [] of
        (False, s) \<Rightarrow> (Err ''unpin: unsupported'', x\<lparr>handle_of := Some s\<rparr>)
      | (True, s) \<Rightarrow> (Ok ok_hdr [], x\<lparr>handle_of := Some s, pinned := 0, hist := []\<rparr>))"

definition op_reset :: "('m, 's) engine \<Rightarrow> 's sess \<Rightarrow> outcome \<times> 's sess" where
  \<open>op_reset E x =
     (let x' = x\<lparr>handle_of := Some (snd (g_reset E (the (handle_of x)))), hist := take (pinned x) (hist x)\<rparr>
      in (Ok (''{"ok":true,"n":'' @ dec (length (hist x')) @ ''}'') [], x'))\<close>

definition op_pin :: "('m, 's) engine \<Rightarrow> json \<Rightarrow> 's sess option \<Rightarrow> outcome \<times> 's sess option" where
  \<open>op_pin E j xo =
     (case to_unsigned 64 (json_num j (json_get j 0 ''n'') (Fin 0)) of
        None \<Rightarrow> (Undefined, xo)
      | Some n \<Rightarrow>
          (case xo of
             None \<Rightarrow> (Err ''pin: unknown session'', None)
           | Some x \<Rightarrow>
               if pinned x > 0 then (Err ''pin: already pinned'', Some x)
               else if n = 0 \<or> n > length (hist x) then (Err ''pin: n must be 1..history length'', Some x)
               else
                 (case g_pin E (the (handle_of x)) (take n (hist x)) of
                    (False, s) \<Rightarrow> (Err ''pin: unsupported by this architecture'', Some (x\<lparr>handle_of := Some s\<rparr>))
                  | (True, s) \<Rightarrow>
                      (Ok (''{"ok":true,"pinned":'' @ dec n @ ''}'') [],
                       Some (x\<lparr>handle_of := Some s, pinned := n, hist := take n (hist x)\<rparr>)))))\<close>

end
