(* ===== verification/SessionInv.thy ===== *)
theory SessionInv
  imports Sessions
begin

section \<open>What session operations keep and promise\<close>

text \<open>
  Two invariants of a session slot. \<open>sess_ok\<close> needs nothing of the engine: a live slot has a
  handle, its history stays below the context and the pinned prefix lies inside it, so
  \<open>hist_push\<close> never refuses. \<open>mirror\<close> says that the history is what the engine's KV cache holds, as long as
  no call of the engine failed; it rests on the engine's documented contract, \<open>engine_keeps\<close>.
\<close>

subsection \<open>The common prefix\<close>

lemma common_prefix_le: "common_prefix as bs \<le> length as \<and> common_prefix as bs \<le> length bs"
  by (induction as bs rule: common_prefix.induct) auto

lemma common_prefix_take: "take (common_prefix as bs) as = take (common_prefix as bs) bs"
  by (induction as bs rule: common_prefix.induct) auto

lemma take_common: "n \<le> common_prefix as bs \<Longrightarrow> take n as = take n bs"
  by (metis common_prefix_take min.absorb1 take_take)

text \<open>It is the longest one.\<close>

lemma common_prefix_max: "take n as = take n bs \<Longrightarrow> n \<le> length as \<Longrightarrow> n \<le> length bs \<Longrightarrow> n \<le> common_prefix as bs"
proof (induction as bs arbitrary: n rule: common_prefix.induct)
  case (1 a as b bs)
  then show ?case by (cases n) auto
qed auto

subsection \<open>The invariant of a slot\<close>

definition sess_ok :: "'s sess \<Rightarrow> bool" where
  "sess_ok x \<longleftrightarrow> (live x \<longrightarrow> handle_of x \<noteq> None \<and> length (hist x) < CTX_CAP \<and> pinned x \<le> length (hist x))"

lemma sess_ok_none [intr_inv]: "sess_ok no_sess"
  by (simp add: sess_ok_def no_sess_def)

lemma hist_push_ok:
  "length (hist x) + length ids \<le> CTX_CAP \<Longrightarrow> hist_push ids x = (True, x\<lparr>hist := hist x @ ids\<rparr>)"
  by (simp add: hist_push_def)

text \<open>The tail is prefilled behind what the slot holds.\<close>

lemma prefill_tail_Ok:
  assumes "prefill_tail E ids reused x = (Ok h b, x')" and "length (hist x) = reused"
    and "length ids < CTX_CAP" and "reused \<le> length ids"
  shows "\<exists>s. x' = x\<lparr>handle_of := Some s, hist := hist x @ drop reused ids\<rparr>
           \<and> (if drop reused ids = [] then s = the (handle_of x)
              else g_prefill E (the (handle_of x)) (drop reused ids) = (True, s))
           \<and> h = prefilled_hdr (length ids - reused) reused (length ids) \<and> b = []"
  using assms by (auto simp: prefill_tail_def Let_def hist_push_ok split: if_splits prod.splits)

lemma prefill_tail_Err:
  assumes "prefill_tail E ids reused x = (Err m, x')"
  shows "\<exists>s. x' = x\<lparr>handle_of := Some (snd (g_reset E s)), hist := take (pinned x) (hist x)\<rparr>
           \<and> g_prefill E (the (handle_of x)) (drop reused ids) = (False, s)"
  using assms by (auto simp: prefill_tail_def Let_def split: if_splits prod.splits)

lemma prefill_tail_defined: "fst (prefill_tail E ids reused x) \<noteq> Undefined"
  by (auto simp: prefill_tail_def Let_def split: prod.splits)

text \<open>The four ways through a prefill.\<close>

lemma prefill_sess_cases:
  assumes "prefill_sess E ids x = (r, x')"
  obtains (append) "hist x \<noteq> []" "length (hist x) < length ids" "take (length (hist x)) ids = hist x"
      "prefill_tail E ids (length (hist x)) x = (r, x')"
    | (same) "hist x = ids" "r = Ok (prefilled_hdr 0 (length ids) (length ids)) []" "x' = x"
    | (inside) "common_prefix (hist x) ids < pinned x" "x' = x"
        "r = Err ''prefill: request differs inside the pinned prefix''"
    | (failed) s where "g_reset E (the (handle_of x)) = (False, s)" "x' = x\<lparr>handle_of := Some s\<rparr>"
        "r = Err ''prefill: reset failed''"
    | (reset) s where "g_reset E (the (handle_of x)) = (True, s)" "pinned x = 0 \<or> pinned x \<le> common_prefix (hist x) ids"
        "prefill_tail E ids (pinned x) (x\<lparr>handle_of := Some s, hist := take (pinned x) (hist x)\<rparr>) = (r, x')"
proof -
  let ?c = "common_prefix (hist x) ids"
  have c: "?c = length (hist x) \<Longrightarrow> take (length (hist x)) ids = hist x"
    using common_prefix_take [of "hist x" ids] by simp
  consider "?c = length (hist x) \<and> hist x \<noteq> [] \<and> length (hist x) < length ids"
    | "\<not> (?c = length (hist x) \<and> hist x \<noteq> [] \<and> length (hist x) < length ids)"
      "?c = length ids \<and> length (hist x) = length ids"
    | "\<not> (?c = length (hist x) \<and> hist x \<noteq> [] \<and> length (hist x) < length ids)"
      "\<not> (?c = length ids \<and> length (hist x) = length ids)" "0 < pinned x \<and> ?c < pinned x"
    | "\<not> (?c = length (hist x) \<and> hist x \<noteq> [] \<and> length (hist x) < length ids)"
      "\<not> (?c = length ids \<and> length (hist x) = length ids)" "\<not> (0 < pinned x \<and> ?c < pinned x)"
    by blast
  then show thesis
  proof cases
    case 1
    with assms have "prefill_tail E ids (length (hist x)) x = (r, x')"
      by (simp add: prefill_sess_def Let_def)
    with 1 c show thesis by (intro append) auto
  next
    case 2
    with assms have "(r, x') = (Ok (prefilled_hdr 0 (length ids) (length ids)) [], x)"
      by (simp add: prefill_sess_def Let_def)
    moreover have "hist x = ids" using 2(2) c by simp
    ultimately show thesis by (intro same) auto
  next
    case 3
    with assms have "(r, x') = (Err ''prefill: request differs inside the pinned prefix'', x)"
      by (simp only: prefill_sess_def Let_def length_greater_0_conv simp_thms if_False if_True)
    with 3 show thesis by (intro inside) auto
  next
    case 4
    obtain ok s where g: "g_reset E (the (handle_of x)) = (ok, s)" by fastforce
    have "(case (ok, s) of (False, s) \<Rightarrow> (Err ''prefill: reset failed'', x\<lparr>handle_of := Some s\<rparr>)
         | (True, s) \<Rightarrow>
             prefill_tail E ids (pinned x) (x\<lparr>handle_of := Some s, hist := take (pinned x) (hist x)\<rparr>)) = (r, x')"
      using 4 assms by (simp only: prefill_sess_def Let_def length_greater_0_conv simp_thms if_False if_True g)
    with 4 g show thesis by (cases ok) (auto intro: reset failed)
  qed
qed

lemma prefill_defined: "fst (prefill_sess E ids x) \<noteq> Undefined"
proof (cases "prefill_sess E ids x")
  case (Pair r x')
  from Pair show ?thesis
  proof (cases rule: prefill_sess_cases)
    case append
    with Pair show ?thesis by (metis prefill_tail_defined)
  next
    case (reset s)
    with Pair show ?thesis by (metis prefill_tail_defined)
  qed (use Pair in auto)
qed

lemma prefill_sess_ok [intr_inv]:
  assumes "prefill_sess E ids x = (r, x')" and "sess_ok x" and "live x" and "length ids < CTX_CAP"
  shows "sess_ok x' \<and> live x' \<and> pinned x' = pinned x"
  using assms(1)
proof (cases rule: prefill_sess_cases)
  case append
  show ?thesis
  proof (cases r)
    case (Ok h b)
    with prefill_tail_Ok append assms show ?thesis by (fastforce simp: sess_ok_def)
  next
    case (Err m)
    with prefill_tail_Err append assms show ?thesis by (fastforce simp: sess_ok_def)
  next
    case Undefined
    with append(4) prefill_tail_defined show ?thesis by (metis fst_conv)
  qed
next
  case (reset s)
  have l: "length (take (pinned x) (hist x)) = pinned x" "pinned x \<le> length ids"
    using assms(2,3) reset(2) common_prefix_le [of "hist x" ids] by (auto simp: sess_ok_def)
  show ?thesis
  proof (cases r)
    case (Ok h b)
    with prefill_tail_Ok [of E ids "pinned x" "x\<lparr>handle_of := Some s, hist := take (pinned x) (hist x)\<rparr>" h b x']
      reset assms l show ?thesis by (auto simp: sess_ok_def)
  next
    case (Err m)
    with prefill_tail_Err reset assms l show ?thesis by (fastforce simp: sess_ok_def)
  next
    case Undefined
    with reset(3) prefill_tail_defined show ?thesis by (metis fst_conv)
  qed
qed (use assms in \<open>auto simp: sess_ok_def\<close>)

text \<open>After a positive reply the history is exactly the request, and what was counted as reused
  was there before.\<close>

lemma prefill_exact:
  assumes "prefill_sess E ids x = (Ok h b, x')" and "sess_ok x" and "live x" and "length ids < CTX_CAP"
  shows "hist x' = ids \<and> (\<exists>reused \<le> length ids. take reused ids = take reused (hist x)
           \<and> h = prefilled_hdr (length ids - reused) reused (length ids))"
  using assms(1)
proof (cases rule: prefill_sess_cases)
  case append
  from prefill_tail_Ok [OF append(4)] append assms(4)
  have "hist x' = hist x @ drop (length (hist x)) ids"
    "h = prefilled_hdr (length ids - length (hist x)) (length (hist x)) (length ids)" by auto
  with append show ?thesis
    by (metis append_take_drop_id less_imp_le order_refl take_all)
next
  case (reset s)
  have l: "length (take (pinned x) (hist x)) = pinned x" "pinned x \<le> length ids"
    and t: "take (pinned x) (hist x) = take (pinned x) ids"
    using assms(2,3) reset(2) common_prefix_le [of "hist x" ids] take_common [of "pinned x" "hist x" ids]
    by (auto simp: sess_ok_def)
  from prefill_tail_Ok [OF reset(3)] l assms(4)
  have "hist x' = take (pinned x) (hist x) @ drop (pinned x) ids"
    "h = prefilled_hdr (length ids - pinned x) (pinned x) (length ids)" by auto
  with l t show ?thesis by (metis append_take_drop_id)
qed auto

lemma op_prefill_ok [intr_inv]:
  "op_prefill E voc body x = (r, x') \<Longrightarrow> sess_ok x \<Longrightarrow> live x \<Longrightarrow> sess_ok x' \<and> live x' \<and> pinned x' = pinned x"
  using prefill_sess_ok [of E "ids_of body" x r x']
  by (auto simp: op_prefill_def Let_def CTX_CAP_def split: if_splits)

lemma op_prefill_exact:
  assumes "op_prefill E voc body x = (Ok h b, x')" and "sess_ok x" and "live x"
  shows "hist x' = ids_of body \<and> ids_of body \<noteq> [] \<and> (\<forall>t \<in> set (ids_of body). 0 \<le> t \<and> nat t < voc)"
  using assms prefill_exact [of E "ids_of body" x h b x']
  by (fastforce simp: op_prefill_def Let_def CTX_CAP_def not_le split: if_splits)

lemma op_prefill_err:
  assumes "op_prefill E voc body x = (Err m, x')" and "sess_ok x" and "live x"
  shows "take (pinned x) (hist x') = take (pinned x) (hist x) \<and> pinned x' = pinned x"
proof (cases "x' = x")
  case False
  with assms(1) have p: "prefill_sess E (ids_of body) x = (Err m, x')"
    by (auto simp: op_prefill_def Let_def CTX_CAP_def split: if_splits)
  have k: "pinned x \<le> length (hist x)" using assms(2,3) by (simp add: sess_ok_def)
  from p show ?thesis
  proof (cases rule: prefill_sess_cases)
    case append
    from prefill_tail_Err [OF append(4)] k show ?thesis by auto
  next
    case (reset s)
    from prefill_tail_Err [OF reset(3)] k show ?thesis by auto
  qed (use False in auto)
qed simp

lemma op_prefill_defined: "fst (op_prefill E voc body x) \<noteq> Undefined"
  using prefill_defined [of E "ids_of body" x] by (auto simp: op_prefill_def Let_def)

subsection \<open>The other operations\<close>

lemma op_step_cases:
  assumes "op_step E m j x = (r, x')"
  shows "x' = x \<or> (\<exists>s. x' = x\<lparr>handle_of := Some s\<rparr> \<and> g_step E (the (handle_of x)) = (None, s))
    \<or> (\<exists>t s. x' = x\<lparr>handle_of := Some s, hist := hist x @ [t]\<rparr> \<and> length (hist x) < CTX_CAP - 1
          \<and> g_step E (the (handle_of x)) = (Some t, s))"
  using assms
  by (auto simp: op_step_def Let_def hist_push_def split: if_splits option.splits prod.splits)

lemma op_step_ok [intr_inv]:
  "op_step E m j x = (r, x') \<Longrightarrow> sess_ok x \<Longrightarrow> live x \<Longrightarrow> sess_ok x' \<and> live x'"
  using op_step_cases [of E m j x r x'] by (auto simp: sess_ok_def)

lemma op_pin_ok [intr_inv]:
  "op_pin E j (Some x) = (r, Some x') \<Longrightarrow> sess_ok x \<Longrightarrow> live x \<Longrightarrow> sess_ok x' \<and> live x'"
  by (auto simp: op_pin_def sess_ok_def split: if_splits option.splits prod.splits bool.splits)

lemma op_unpin_ok [intr_inv]:
  "op_unpin E x = (r, x') \<Longrightarrow> sess_ok x \<Longrightarrow> live x \<Longrightarrow> sess_ok x' \<and> live x'"
  by (auto simp: op_unpin_def sess_ok_def CTX_CAP_def split: prod.splits bool.splits)

lemma op_reset_ok [intr_inv]:
  "op_reset E x = (r, x') \<Longrightarrow> sess_ok x \<Longrightarrow> live x \<Longrightarrow> sess_ok x' \<and> live x'"
  by (auto simp: op_reset_def sess_ok_def Let_def)

lemma gen_loop_Suc:
  assumes "length (hist x) < CTX_CAP - 1" and "g_step E (the (handle_of x)) = (Some t, s)"
  obtains tail1 c1 stop where
    "gen_loop E m g (Suc r) k x tail c \<in>
       {(''client'', k, x\<lparr>handle_of := Some s, hist := hist x @ [t]\<rparr>, c1),
        (''stop'', k + 1, x\<lparr>handle_of := Some s, hist := hist x @ [t]\<rparr>, c1),
        gen_loop E m g r (k + 1) (x\<lparr>handle_of := Some s, hist := hist x @ [t]\<rparr>) tail1 c1}"
proof -
  have push: "snd (hist_push [t] (x\<lparr>handle_of := Some s\<rparr>)) = x\<lparr>handle_of := Some s, hist := hist x @ [t]\<rparr>"
    using assms(1) by (auto simp: hist_push_def)
  let ?tail = "case g_token_str E s t of Some q \<Rightarrow> tail_push tail q | None \<Rightarrow> tail"
  let ?stop = "gen_stop m g t (g_token_str E s t) ?tail"
  obtain ok c1 where w: "write_frame (gen_frame t ?stop (g_token_str E s t)) [] c = (ok, c1)" by fastforce
  have "gen_loop E m g (Suc r) k x tail c =
      (if \<not> ok then (''client'', k, x\<lparr>handle_of := Some s, hist := hist x @ [t]\<rparr>, c1)
       else if ?stop then (''stop'', k + 1, x\<lparr>handle_of := Some s, hist := hist x @ [t]\<rparr>, c1)
       else gen_loop E m g r (k + 1) (x\<lparr>handle_of := Some s, hist := hist x @ [t]\<rparr>) ?tail c1)"
    using assms by (simp add: push w Let_def split: bool.split)
  then have "gen_loop E m g (Suc r) k x tail c \<in>
       {(''client'', k, x\<lparr>handle_of := Some s, hist := hist x @ [t]\<rparr>, c1),
        (''stop'', k + 1, x\<lparr>handle_of := Some s, hist := hist x @ [t]\<rparr>, c1),
        gen_loop E m g r (k + 1) (x\<lparr>handle_of := Some s, hist := hist x @ [t]\<rparr>) ?tail c1}"
    by (simp split: if_splits)
  then show thesis by (rule that)
qed

text \<open>What every decoded token keeps, a whole generation keeps.\<close>

lemma gen_loop_inv:
  assumes "gen_loop E m g r k x tail c = (reason, k', x', c')" and "Q k x"
    and "\<And>k x t s. Q k x \<Longrightarrow> length (hist x) < CTX_CAP - 1 \<Longrightarrow> g_step E (the (handle_of x)) = (Some t, s) \<Longrightarrow>
           Q k (x\<lparr>handle_of := Some s, hist := hist x @ [t]\<rparr>)
           \<and> Q (Suc k) (x\<lparr>handle_of := Some s, hist := hist x @ [t]\<rparr>)"
    and "\<And>k x s. Q k x \<Longrightarrow> g_step E (the (handle_of x)) = (None, s) \<Longrightarrow> Q k (x\<lparr>handle_of := Some s\<rparr>)"
  shows "Q k' x'"
  using assms(1,2)
proof (induction r arbitrary: k x tail c)
  case (Suc r)
  show ?case
  proof (cases "length (hist x) < CTX_CAP - 1")
    case False
    with Suc.prems show ?thesis by auto
  next
    case True
    obtain to s where st: "g_step E (the (handle_of x)) = (to, s)" by fastforce
    show ?thesis
    proof (cases to)
      case None
      with Suc.prems True st assms(4) [OF Suc.prems(2)] show ?thesis by auto
    next
      case (Some t)
      let ?x = "x\<lparr>handle_of := Some s, hist := hist x @ [t]\<rparr>"
      have st': "g_step E (the (handle_of x)) = (Some t, s)" using st Some by simp
      have Q: "Q k ?x" "Q (Suc k) ?x" using assms(3) [OF Suc.prems(2) True st'] by auto
      obtain tail1 c1 where "gen_loop E m g (Suc r) k x tail c \<in>
         {(''client'', k, ?x, c1), (''stop'', k + 1, ?x, c1), gen_loop E m g r (k + 1) ?x tail1 c1}"
        by (rule gen_loop_Suc [OF True st'])
      then consider "k' = k" "x' = ?x" | "k' = Suc k" "x' = ?x"
        | "gen_loop E m g r (Suc k) ?x tail1 c1 = (reason, k', x', c')"
        using Suc.prems(1) by auto
      then show ?thesis using Q Suc.IH by cases auto
    qed
  qed
qed simp

text \<open>It counts at most as many tokens as it was asked for.\<close>

lemma gen_loop_count:
  "gen_loop E m g r k x tail c = (reason, k', x', c') \<Longrightarrow> k \<le> k' \<and> k' \<le> k + r"
proof (induction r arbitrary: k x tail c)
  case (Suc r)
  show ?case
  proof (cases "length (hist x) < CTX_CAP - 1")
    case False
    with Suc.prems show ?thesis by auto
  next
    case True
    obtain to s where st: "g_step E (the (handle_of x)) = (to, s)" by fastforce
    show ?thesis
    proof (cases to)
      case None
      with Suc.prems True st show ?thesis by auto
    next
      case (Some t)
      let ?x = "x\<lparr>handle_of := Some s, hist := hist x @ [t]\<rparr>"
      obtain tail1 c1 where "gen_loop E m g (Suc r) k x tail c \<in>
         {(''client'', k, ?x, c1), (''stop'', k + 1, ?x, c1), gen_loop E m g r (k + 1) ?x tail1 c1}"
        by (rule gen_loop_Suc [OF True st [unfolded Some]])
      then consider "k' = k" | "k' = Suc k" | "gen_loop E m g r (Suc k) ?x tail1 c1 = (reason, k', x', c')"
        using Suc.prems by auto
      then show ?thesis using Suc.IH by cases force+
    qed
  qed
qed simp

text \<open>A generation only appends to the history, and stays inside the context.\<close>

text \<open>The tokens of a generation: as many as were counted, and one more if the peer went away.\<close>

lemma gen_loop_len:
  "gen_loop E m g r k x tail c = (reason, k', x', c') \<Longrightarrow>
     \<exists>ts. hist x' = hist x @ ts \<and> length ts \<le> r \<and> k' - k \<le> length ts \<and> length ts \<le> Suc (k' - k)
       \<and> (length ts \<noteq> k' - k \<longrightarrow> reason = ''client'')"
proof (induction r arbitrary: k x tail c)
  case (Suc r)
  show ?case
  proof (cases "length (hist x) < CTX_CAP - 1")
    case False
    with Suc.prems show ?thesis by auto
  next
    case True
    show ?thesis
    proof (cases "g_step E (the (handle_of x))")
      case (Pair to s)
      show ?thesis
      proof (cases to)
        case None
        with Pair True Suc.prems show ?thesis by auto
      next
        case (Some t)
        let ?x = "x\<lparr>handle_of := Some s, hist := hist x @ [t]\<rparr>"
        from Pair Some have st: "g_step E (the (handle_of x)) = (Some t, s)" by simp
        obtain tail1 c1 where cs: "gen_loop E m g (Suc r) k x tail c \<in>
           {(''client'', k, ?x, c1), (''stop'', k + 1, ?x, c1), gen_loop E m g r (k + 1) ?x tail1 c1}"
          by (rule gen_loop_Suc [OF True st])
        then consider "reason = ''client''" "k' = k" "x' = ?x" | "k' = k + 1" "x' = ?x"
          | "gen_loop E m g r (k + 1) ?x tail1 c1 = (reason, k', x', c')"
          using Suc.prems by auto
        then show ?thesis
        proof cases
          case 3
          from Suc.IH [OF this] gen_loop_count [OF this] show ?thesis by fastforce
        qed auto
      qed
    qed
  qed
qed simp

lemma gen_loop_hist:
  assumes "gen_loop E m g r k x tail c = (reason, k', x', c')"
  shows "\<exists>ts. hist x' = hist x @ ts \<and> pinned x' = pinned x \<and> live x' = live x
     \<and> (handle_of x \<noteq> None \<longrightarrow> handle_of x' \<noteq> None)
     \<and> (length (hist x) < CTX_CAP \<longrightarrow> length (hist x') < CTX_CAP)"
  by (rule gen_loop_inv [OF assms, where Q = "\<lambda>_ y. \<exists>ts. hist y = hist x @ ts \<and> pinned y = pinned x
      \<and> live y = live x \<and> (handle_of x \<noteq> None \<longrightarrow> handle_of y \<noteq> None)
      \<and> (length (hist x) < CTX_CAP \<longrightarrow> length (hist y) < CTX_CAP)"]) auto

lemma op_generate_ok [intr_inv]:
  assumes "op_generate E v m j x c = Some (ok, x', c')" and "sess_ok x" and "live x"
  shows "sess_ok x' \<and> live x'"
proof (cases "hist x = []")
  case True
  with assms show ?thesis by (auto simp: op_generate_def split: prod.splits)
next
  case False
  with assms(1) obtain g reason k c1 where "gen_loop E m g (g_max g) 0 x [] c = (reason, k, x', c1)"
    by (auto simp: op_generate_def split: option.splits prod.splits if_splits)
  from gen_loop_hist [OF this] assms(2,3) show ?thesis by (auto simp: sess_ok_def)
qed

subsection \<open>The history mirrors the engine\<close>

text \<open>
  What is documented of the engine's calls: \<open>kv s\<close> are the tokens in the cache of session \<open>s\<close> and \<open>pn s\<close> the
  tokens of its pinned prefix. A new session is empty, a prefill and a step that succeed append, a
  reset that succeeds leaves the pinned prefix, and a pin that succeeds keeps exactly the tokens it
  was given and pins them. Any call may fail, and nothing is said of the cache after it did: a reset, a prefill
  or a step only keeps the pin, and after a failed pin not even that is known.
\<close>

definition engine_keeps :: "('m, 's) engine \<Rightarrow> ('s \<Rightarrow> token list) \<Rightarrow> ('s \<Rightarrow> token list) \<Rightarrow> bool" where
  "engine_keeps E kv pn \<longleftrightarrow>
     (\<forall>m ops s. g_create E m ops = (True, Some s) \<longrightarrow> kv s = [] \<and> pn s = [])
   \<and> (\<forall>s s'. g_reset E s = (True, s') \<longrightarrow> kv s' = pn s)
   \<and> (\<forall>s ts s'. g_prefill E s ts = (True, s') \<longrightarrow> kv s' = kv s @ ts)
   \<and> (\<forall>s t s'. g_step E s = (Some t, s') \<longrightarrow> kv s' = kv s @ [t])
   \<and> (\<forall>s ts s'. g_pin E s ts = (True, s') \<longrightarrow> kv s' = ts \<and> pn s' = ts)
   \<and> (\<forall>s. pn (snd (g_reset E s)) = pn s) \<and> (\<forall>s ts. pn (snd (g_prefill E s ts)) = pn s)
   \<and> (\<forall>s. pn (snd (g_step E s)) = pn s)"

text \<open>
  So the history can be behind the cache after a failed call. \<open>watched E\<close> is the engine \<open>E\<close> with a note
  at each session, which the daemon cannot see: \<open>In_Step\<close> while no call on it failed since it was
  created, pinned or reset last, \<open>Behind\<close> after a failed one, \<open>Lost\<close> after a failed pin.
\<close>

datatype standing = In_Step | Behind | Lost

definition worse :: "standing \<Rightarrow> standing" where
  "worse w = (if w = Lost then Lost else Behind)"

definition watched :: "('m, 's) engine \<Rightarrow> ('m, 's \<times> standing) engine" where
  "watched E = \<lparr>
     g_create = (\<lambda>m ops. map_prod id (map_option (\<lambda>s. (s, In_Step))) (g_create E m ops)),
     g_errmsg = (\<lambda>x. g_errmsg E (fst x)),
     g_tokenize = (\<lambda>x. g_tokenize E (fst x)),
     g_token_str = (\<lambda>x. g_token_str E (fst x)),
     g_reset = (\<lambda>x. case g_reset E (fst x) of
         (ok, s) \<Rightarrow> (ok, s, if ok \<and> snd x \<noteq> Lost then In_Step else worse (snd x))),
     g_prefill = (\<lambda>x ts. case g_prefill E (fst x) ts of (ok, s) \<Rightarrow> (ok, s, if ok then snd x else worse (snd x))),
     g_peek = (\<lambda>x. g_peek E (fst x)),
     g_step = (\<lambda>x. case g_step E (fst x) of (t, s) \<Rightarrow> (t, s, if t = None then worse (snd x) else snd x)),
     g_pin = (\<lambda>x ts. case g_pin E (fst x) ts of (ok, s) \<Rightarrow> (ok, s, if ok then In_Step else Lost)),
     g_token_by_text = g_token_by_text E, g_bos = g_bos E, g_arch = g_arch E, g_backend = g_backend E,
     p_logit = p_logit E, p_logprob = p_logprob E, p_floats = p_floats E\<rparr>"

text \<open>The pinned part of the history is the engine's pin, and a history in step is the cache.\<close>

definition follows :: "('s \<Rightarrow> token list) \<Rightarrow> ('s \<Rightarrow> token list) \<Rightarrow> ('s \<times> standing) sess \<Rightarrow> 's \<times> standing \<Rightarrow> bool" where
  "follows kv pn x z \<longleftrightarrow>
     (snd z \<noteq> Lost \<longrightarrow> pn (fst z) = take (pinned x) (hist x)) \<and> (snd z = In_Step \<longrightarrow> kv (fst z) = hist x)"

definition mirror :: "('s \<Rightarrow> token list) \<Rightarrow> ('s \<Rightarrow> token list) \<Rightarrow> ('s \<times> standing) sess \<Rightarrow> bool" where
  "mirror kv pn x \<longleftrightarrow> (live x \<longrightarrow> (\<exists>z. handle_of x = Some z \<and> follows kv pn x z))"

lemma mirror_none: "mirror kv pn no_sess"
  by (simp add: mirror_def no_sess_def)

lemma worse_cases [simp]: "worse w \<noteq> In_Step" "worse w = Lost \<longleftrightarrow> w = Lost"
  by (simp_all add: worse_def)

lemma keeps:
  assumes "engine_keeps E kv pn"
  shows "g_reset E s = (True, s') \<Longrightarrow> kv s' = pn s" and "g_prefill E s ts = (True, s') \<Longrightarrow> kv s' = kv s @ ts"
    and "g_step E s = (Some t, s') \<Longrightarrow> kv s' = kv s @ [t]" and "g_pin E s ts = (True, s') \<Longrightarrow> kv s' = ts \<and> pn s' = ts"
  using assms unfolding engine_keeps_def by blast+

lemma keeps_pin:
  assumes "engine_keeps E kv pn"
  shows "pn (snd (g_reset E s)) = pn s" and "pn (snd (g_prefill E s ts)) = pn s" and "pn (snd (g_step E s)) = pn s"
  using assms unfolding engine_keeps_def by blast+

lemma watched_reset:
  assumes "engine_keeps E kv pn" and "g_reset (watched E) z = (ok, z')"
  shows "pn (fst z') = pn (fst z) \<and> (snd z' = Lost \<longleftrightarrow> snd z = Lost)
    \<and> (snd z' = In_Step \<longrightarrow> kv (fst z') = pn (fst z))"
proof -
  obtain s where s: "g_reset E (fst z) = (ok, s)" "z' = (s, if ok \<and> snd z \<noteq> Lost then In_Step else worse (snd z))"
    using assms(2) by (auto simp: watched_def split: prod.splits)
  show ?thesis
    using keeps_pin(1) [OF assms(1), of "fst z"] keeps(1) [OF assms(1), of "fst z"] by (auto simp: s)
qed

lemma watched_prefill:
  assumes "engine_keeps E kv pn" and "g_prefill (watched E) z ts = (ok, z')"
  shows "pn (fst z') = pn (fst z) \<and> (snd z' = Lost \<longleftrightarrow> snd z = Lost)
    \<and> (snd z' = In_Step \<longrightarrow> snd z = In_Step \<and> ok \<and> kv (fst z') = kv (fst z) @ ts)"
proof -
  obtain s where s: "g_prefill E (fst z) ts = (ok, s)" "z' = (s, if ok then snd z else worse (snd z))"
    using assms(2) by (auto simp: watched_def split: prod.splits)
  show ?thesis
    using keeps_pin(2) [OF assms(1), of "fst z" ts] keeps(2) [OF assms(1), of "fst z"] by (auto simp: s)
qed

lemma watched_step:
  assumes "engine_keeps E kv pn" and "g_step (watched E) z = (t, z')"
  shows "pn (fst z') = pn (fst z) \<and> (snd z' = Lost \<longleftrightarrow> snd z = Lost)
    \<and> (snd z' = In_Step \<longrightarrow> snd z = In_Step \<and> (\<exists>u. t = Some u \<and> kv (fst z') = kv (fst z) @ [u]))"
proof -
  obtain s where s: "g_step E (fst z) = (t, s)" "z' = (s, if t = None then worse (snd z) else snd z)"
    using assms(2) by (auto simp: watched_def split: prod.splits)
  show ?thesis
    using keeps_pin(3) [OF assms(1), of "fst z"] keeps(3) [OF assms(1), of "fst z"] by (auto simp: s)
qed

lemma watched_pin:
  assumes "engine_keeps E kv pn" and "g_pin (watched E) z ts = (ok, z')"
  shows "if ok then z' = (fst z', In_Step) \<and> kv (fst z') = ts \<and> pn (fst z') = ts else snd z' = Lost"
  using assms by (auto simp: watched_def engine_keeps_def split: prod.splits if_splits)

lemmas engine_laws = watched_reset watched_prefill watched_step watched_pin

lemma mirror_tail:
  assumes "prefill_tail (watched E) ids reused x = (r, x')" and "engine_keeps E kv pn" and "mirror kv pn x" and "live x"
    and "length (hist x) = reused" and "reused \<le> length ids" and "length ids < CTX_CAP"
    and "pinned x \<le> reused"
  shows "mirror kv pn x'"
proof -
  obtain z where z: "handle_of x = Some z" "follows kv pn x z"
    using assms(3,4) by (auto simp: mirror_def)
  show ?thesis
  proof (cases r)
    case (Ok h b)
    then obtain y where "x' = x\<lparr>handle_of := Some y, hist := hist x @ drop reused ids\<rparr>"
      "if drop reused ids = [] then y = the (handle_of x)
       else g_prefill (watched E) (the (handle_of x)) (drop reused ids) = (True, y)"
      using prefill_tail_Ok [of "watched E" ids reused x h b x'] assms(1,5,6,7) by blast
    with z watched_prefill [OF assms(2), of z "drop reused ids" True y] assms(5,8) show ?thesis
      by (auto simp: mirror_def follows_def split: if_splits)
  next
    case (Err m)
    then obtain y where x': "x' = x\<lparr>handle_of := Some (snd (g_reset (watched E) y)), hist := take (pinned x) (hist x)\<rparr>"
      and p: "g_prefill (watched E) z (drop reused ids) = (False, y)"
      using prefill_tail_Err [of "watched E" ids reused x m x'] assms(1) z by auto
    obtain ok y2 where r: "g_reset (watched E) y = (ok, y2)" by (metis surj_pair)
    from watched_prefill [OF assms(2) p] watched_reset [OF assms(2) r] z show ?thesis
      by (auto simp: mirror_def follows_def x' r)
  next
    case Undefined
    with assms(1) show ?thesis by (metis fst_conv prefill_tail_defined)
  qed
qed

text \<open>A reset puts a history that was cut back to the pin in step again, if it succeeds.\<close>

lemma follows_reset:
  assumes "engine_keeps E kv pn" and "follows kv pn x z" and "g_reset (watched E) z = (ok, z')"
  shows "follows kv pn (x\<lparr>handle_of := h, hist := take (pinned x) (hist x)\<rparr>) z'"
    and "\<not> ok \<Longrightarrow> follows kv pn (x\<lparr>handle_of := h\<rparr>) z'"
proof -
  note w = watched_reset [OF assms(1,3)]
  show "follows kv pn (x\<lparr>handle_of := h, hist := take (pinned x) (hist x)\<rparr>) z'"
    using w assms(2) by (auto simp: follows_def)
  assume "\<not> ok"
  then have "snd z' \<noteq> In_Step" using assms(3) by (auto simp: watched_def split: prod.splits)
  then show "follows kv pn (x\<lparr>handle_of := h\<rparr>) z'" using w assms(2) by (auto simp: follows_def)
qed

lemma mirror_prefill [intr_inv]:
  assumes "prefill_sess (watched E) ids x = (r, x')" and "engine_keeps E kv pn" and "mirror kv pn x" and "live x"
    and "sess_ok x" and "length ids < CTX_CAP"
  shows "mirror kv pn x'"
proof -
  obtain z where z: "handle_of x = Some z" "follows kv pn x z"
    using assms(3,4) by (auto simp: mirror_def)
  show ?thesis
    using assms(1)
  proof (cases rule: prefill_sess_cases)
    case append
    then show ?thesis using assms by (intro mirror_tail [OF append(4)]) (auto simp: sess_ok_def)
  next
    case (failed s)
    then show ?thesis using follows_reset(2) [OF assms(2) z(2), of False s] z(1) by (auto simp: mirror_def)
  next
    case (reset s)
    have le: "pinned x \<le> length ids"
      using assms(4,5) reset(2) common_prefix_le [of "hist x" ids] by (auto simp: sess_ok_def)
    show ?thesis
      using assms le follows_reset(1) [OF assms(2) z(2), of True s] reset(1) z(1)
      by (intro mirror_tail [OF reset(3)]) (auto simp: sess_ok_def mirror_def)
  qed (use assms in auto)
qed

text \<open>A step, alone or in the loop of a generation.\<close>

lemma follows_step:
  assumes "engine_keeps E kv pn" and "follows kv pn x z" and "g_step (watched E) z = (t, z')" and "pinned x \<le> length (hist x)"
  shows "follows kv pn (case t of None \<Rightarrow> x\<lparr>handle_of := h\<rparr> | Some u \<Rightarrow> x\<lparr>handle_of := h, hist := hist x @ [u]\<rparr>) z'"
  using watched_step [OF assms(1,3)] assms(2,4) by (auto simp: follows_def split: option.split)

lemma mirror_step [intr_inv]:
  assumes "op_step (watched E) m j x = (r, x')" and "engine_keeps E kv pn" and "mirror kv pn x" and "live x" and "sess_ok x"
  shows "mirror kv pn x'"
proof -
  obtain z where z: "handle_of x = Some z" "follows kv pn x z" "pinned x \<le> length (hist x)"
    using assms(3-5) by (auto simp: mirror_def sess_ok_def)
  show ?thesis
    using op_step_cases [OF assms(1)] assms(3,4) z follows_step [OF assms(2) z(2) _ z(3)]
    by (fastforce simp: mirror_def)
qed

lemma mirror_generate [intr_inv]:
  assumes "op_generate (watched E) v m j x c = Some (ok, x', c')" and "engine_keeps E kv pn" and "mirror kv pn x"
    and "live x" and "sess_ok x"
  shows "mirror kv pn x'"
proof (cases "hist x = []")
  case True
  with assms show ?thesis by (auto simp: op_generate_def split: prod.splits)
next
  case False
  with assms(1) obtain g reason k c1 where "gen_loop (watched E) m g (g_max g) 0 x [] c = (reason, k, x', c1)"
    by (auto simp: op_generate_def split: option.splits prod.splits if_splits)
  then have "mirror kv pn x' \<and> live x' \<and> pinned x' \<le> length (hist x')"
    by (rule gen_loop_inv [where Q = "\<lambda>_ y. mirror kv pn y \<and> live y \<and> pinned y \<le> length (hist y)"])
      (use assms follows_step [OF assms(2)] in \<open>(fastforce simp: mirror_def sess_ok_def)+\<close>)
  then show ?thesis ..
qed

lemma mirror_pin [intr_inv]:
  assumes "op_pin (watched E) j (Some x) = (r, Some x')" and "engine_keeps E kv pn" and "mirror kv pn x" and "live x"
  shows "mirror kv pn x'"
  using assms(1,3,4) watched_pin [OF assms(2)]
  by (fastforce simp: op_pin_def mirror_def follows_def split: if_splits option.splits prod.splits bool.splits)

lemma mirror_unpin [intr_inv]:
  assumes "op_unpin (watched E) x = (r, x')" and "engine_keeps E kv pn" and "mirror kv pn x" and "live x"
  shows "mirror kv pn x'"
  using assms(1,3,4) watched_pin [OF assms(2)]
  by (fastforce simp: op_unpin_def mirror_def follows_def split: prod.splits bool.splits)

lemma mirror_reset [intr_inv]:
  assumes "op_reset (watched E) x = (r, x')" and "engine_keeps E kv pn" and "mirror kv pn x" and "live x"
  shows "mirror kv pn x'"
proof -
  obtain z where h: "handle_of x = Some z" "follows kv pn x z" using assms(3,4) by (auto simp: mirror_def)
  obtain ok z' where z: "handle_of x = Some z" "follows kv pn x z" "g_reset (watched E) z = (ok, z')"
    using h by (metis surj_pair)
  have "x' = x\<lparr>handle_of := Some z', hist := take (pinned x) (hist x)\<rparr>" using assms(1) z(1,3) by (auto simp: op_reset_def Let_def)
  with follows_reset(1) [OF assms(2) z(2,3), of "Some z'"] show ?thesis by (simp add: mirror_def)
qed

text \<open>The window for stop strings is always the last 511 bytes of the text.\<close>

lemma tail_push_suffix:
  "length tail \<le> 511 \<Longrightarrow> tail_push tail p = drop (length (tail @ p) - 511) (tail @ p)"
proof -
  assume t: "length tail \<le> 511"
  have "n - 512 + 1 = n - 511" if "512 \<le> n" for n :: nat using that by simp
  with t show ?thesis by (auto simp: tail_push_def Let_def simp del: add_Suc_right)
qed

end
