(* ===== verification/Chats.thy ===== *)
theory Chats
  imports Sessions
begin

section \<open>Chats (src/src/geistd.c)\<close>

text \<open>
  Conversations held by the daemon over geist-runtime, which is not part of the repository: the
  record \<open>runtime\<close> of functions over its values \<open>'r\<close> (the model) and \<open>'c\<close> (a chat). The pieces of
  an answer are taken one by one until the runtime says it is the end, so the loops of
  \<open>op_chat_send\<close> are partial functions: \<open>None\<close> is a loop that never ends.
\<close>

datatype status =
    GEISTR_OK
  | GEISTR_INVALID
  | GEISTR_CONTEXT
  | GEISTR_CANCELLED
  | GEISTR_NO_MEMORY
  | GEISTR_OTHER

datatype part = PART_ANSWER | PART_THINKING | PART_END

record piece =
  p_part :: part
  p_text :: string

record chat_opts =
  co_temperature :: dbl
  co_top_p :: dbl
  co_thinking :: bool
  co_think_tags :: bool
  co_drop_oldest :: bool
  co_stop :: "string list"

text \<open>The numbers of a finished answer; times are printed by the library.\<close>

record stats =
  st_finish :: nat
  st_input :: nat
  st_context :: nat
  st_output :: nat
  st_dropped :: nat
  st_times :: "string list"

record ('r, 'c) runtime =
  r_format :: "'r \<Rightarrow> string option"
  r_open :: "'r \<Rightarrow> chat_opts \<Rightarrow> status \<times> 'c option"
  r_status_text :: "status \<Rightarrow> string"
  r_limit :: "'c \<Rightarrow> nat \<Rightarrow> status \<times> 'c"
  r_send :: "'c \<Rightarrow> (string \<times> string) list \<Rightarrow> status \<times> 'c"
  r_next :: "'c \<Rightarrow> (status \<times> piece) \<times> 'c"
  r_cancel :: "'c \<Rightarrow> 'c"
  r_rewind :: "'c \<Rightarrow> nat \<Rightarrow> status \<times> 'c"
  r_len :: "'c \<Rightarrow> nat"
  r_error :: "'c \<Rightarrow> string"
  r_stats :: "'c \<Rightarrow> stats"

subsection \<open>The chat table\<close>

definition set_chat :: "nat \<Rightarrow> 'c chat \<Rightarrow> ('m, 's, 'r, 'c) daemon \<Rightarrow> ('m, 's, 'r, 'c) daemon" where
  "set_chat i x d = d\<lparr>chats := (chats d)[i := x]\<rparr>"

definition chat_find ::
    "int \<Rightarrow> string option \<Rightarrow> ('m, 's, 'r, 'c) daemon \<Rightarrow> nat option \<times> ('m, 's, 'r, 'c) daemon" where
  "chat_find t key d =
     (case find_slot chat_live chat_id (n_chats d) key (chats d) of
        None \<Rightarrow> (None, d)
      | Some i \<Rightarrow> (Some i, set_chat i ((chats d ! i)\<lparr>chat_used := t\<rparr>) d))"

definition chat_pick :: "nat \<Rightarrow> 'c chat list \<Rightarrow> nat" where
  "chat_pick n xs = slot_index chat_live chat_used n xs"

interpretation chat_table: slot_table chat_live chat_used chat_pick
  unfolding chat_pick_def by unfold_locales (rule slot_index_laws; assumption)+

subsection \<open>Open\<close>

definition chat_opts_of :: "json \<Rightarrow> chat_opts \<times> bool" where
  "chat_opts_of j =
     (let t = json_clamp j (json_get j 0 ''temperature'') (Fin 0) (Fin 0) (Fin 2);
          p = json_clamp j (json_get j 0 ''top_p'') (Fin 1) (Fin 0) (Fin 1)
      in (\<lparr>co_temperature = fst t, co_top_p = fst p,
           co_thinking = json_bool j (json_get j 0 ''thinking'') False,
           co_think_tags = (json_strdup j (json_get j 0 ''reasoning'') = Some ''think_tags''),
           co_drop_oldest = (json_strdup j (json_get j 0 ''overflow'') = Some ''drop_oldest''),
           co_stop = map (\<lambda>i. the (json_strdup j i)) (array_items j (json_get j 0 ''stop'') (json_is_str j) 8)\<rparr>,
          snd t \<or> snd p))"

definition op_chat_open ::
    "('r, 'c) runtime \<Rightarrow> env \<Rightarrow> json \<Rightarrow> ('m, 's, 'r, 'c) daemon \<Rightarrow> outcome \<times> ('m, 's, 'r, 'c) daemon" where
  \<open>op_chat_open R v j d =
     (case rt d of
        None \<Rightarrow> (Err ''chat_open: chat format of this model is not supported'', d)
      | Some r \<Rightarrow>
          (case chat_opts_of j of (opts, bad) \<Rightarrow>
             if bad then (Err ''chat_open: temperature/top_p must be numbers'', d)
             else
               let i = chat_pick (n_chats d) (chats d);
                   d1 = (if free_slot chat_live (n_chats d) (chats d) = None then set_chat i no_chat d else d);
                   x = chats d1 ! i
               in (case r_open R r opts of
                     (st, co) \<Rightarrow>
                       if st \<noteq> GEISTR_OK then (Err (r_status_text R st), set_chat i (x\<lparr>chat_of := co\<rparr>) d1)
                       else (Ok (''{"ok":true,"chat":"'' @ random_id (entropy v) @ ''","ctx":'' @ dec CTX_CAP @ ''}'') [],
                             set_chat i \<lparr>chat_live = True, chat_id = random_id (entropy v), chat_of = co,
                                         chat_used = now v\<rparr> d1))))\<close>

subsection \<open>Send\<close>

definition finish_name :: "nat \<Rightarrow> string" where
  "finish_name f = [''none'', ''stop'', ''length'', ''context'', ''cancelled'', ''error''] ! f"

definition stats_json :: "('r, 'c) runtime \<Rightarrow> 'c \<Rightarrow> string" where
  \<open>stats_json R c =
     (let s = r_stats R c; ms = (\<lambda>i. st_times s ! i) in
      sb_printf (''"finish":"'' @ finish_name (st_finish s) @ ''","input_tokens":'' @ dec (st_input s)
      @ '',"context_tokens":'' @ dec (st_context s) @ '',"output_tokens":'' @ dec (st_output s)
      @ '',"dropped":'' @ dec (st_dropped s) @ '',"prefill_ms":'' @ ms 0 @ '',"first_answer_ms":'' @ ms 1
      @ '',"generation_ms":'' @ ms 2 @ '',"total_ms":'' @ ms 3 @ '',"length":'' @ dec (r_len R c)))\<close>

definition piece_hdr :: "piece \<Rightarrow> string" where
  \<open>piece_hdr p = ''{"ok":true,"done":false,"part":"'' @ (if p_part p = PART_THINKING then ''thinking'' else ''answer'')
     @ ''","text":'' @ sb_json_str (p_text p) @ ''}''\<close>

text \<open>Take the rest of the answer and drop it, after a cancel.\<close>

partial_function (option) drain :: "('r, 'c) runtime \<Rightarrow> 'c \<Rightarrow> 'c option" where
  "drain R c =
     (case r_next R c of
        ((st, p), c') \<Rightarrow> if st = GEISTR_OK \<and> p_part p \<noteq> PART_END then drain R c' else Some c')"

text \<open>Stream the pieces; the status of the call that ended the answer, or none when the client
  went away and the rest was drained.\<close>

partial_function (option) stream ::
    "('r, 'c) runtime \<Rightarrow> 'c \<Rightarrow> conn \<Rightarrow> (status option \<times> 'c \<times> conn) option" where
  "stream R c k =
     (case r_next R c of
        ((st, p), c') \<Rightarrow>
          if st = GEISTR_OK \<and> p_part p \<noteq> PART_END then
            (let w = write_frame (piece_hdr p) [] k in
             if fst w then stream R c' (snd w)
             else (case drain R (r_cancel R c') of None \<Rightarrow> None | Some c'' \<Rightarrow> Some (None, c'', snd w)))
          else Some (Some st, c', k))"

declare drain.simps [code] stream.simps [code]

text \<open>The messages of the body: \<open>None\<close> for a body that is refused.\<close>

definition send_msgs :: "string \<Rightarrow> (string option \<times> string option) list option" where
  "send_msgs body =
     (if body = [] then None
      else
        (case json_parse body of
           None \<Rightarrow> None
         | Some m \<Rightarrow>
             let l = json_get m 0 ''messages'' in
             if l < 0 \<or> tok_type (tok m ! nat l) \<noteq> JSMN_ARRAY \<or> tok_size (tok m ! nat l) < 1 then None
             else
               let n = nat (tok_size (tok m ! nat l));
                   ms = map (\<lambda>i. (json_strdup m (json_get m i ''role''), json_strdup m (json_get m i ''content'')))
                          (array_items m l (\<lambda>i. True) n)
               in Some (ms @ replicate (n - length ms) (None, None))))"

definition send_status :: "status \<Rightarrow> string" where
  "send_status st = (case st of GEISTR_CONTEXT \<Rightarrow> ''context'' | GEISTR_INVALID \<Rightarrow> ''invalid''
                      | GEISTR_CANCELLED \<Rightarrow> ''cancelled'' | _ \<Rightarrow> ''error'')"

definition send_error :: "string \<Rightarrow> string \<Rightarrow> string" where
  \<open>send_error st why = ''{"ok":false,"status":"'' @ st @ ''","error":'' @ sb_json_str why @ ''}''\<close>

text \<open>Limit the answer, check the messages, send them.\<close>

definition send_to ::
    "('r, 'c) runtime \<Rightarrow> nat \<Rightarrow> (string option \<times> string option) list \<Rightarrow> 'c \<Rightarrow> status \<times> 'c" where
  "send_to R mx ms c =
     (case r_limit R c mx of
        (st, c1) \<Rightarrow>
          if st \<noteq> GEISTR_OK then (st, c1)
          else if \<exists>m \<in> set ms. fst m = None \<or> snd m = None then (GEISTR_INVALID, c1)
          else r_send R c1 (map (\<lambda>m. (the (fst m), the (snd m))) ms))"

definition processed_hdr :: string where
  \<open>processed_hdr = ''{"ok":true,"done":false,"part":"answer","text":""}''\<close>

text \<open>The message has an ellipsis in UTF-8.\<close>

definition send_usage :: string where
  \<open>send_usage = ''chat_send: body {"messages":['' @ [CHR 0xE2, CHR 0x80, CHR 0xA6]
     @ '']} with at least one message''\<close>

definition op_chat_send ::
    "('r, 'c) runtime \<Rightarrow> json \<Rightarrow> string \<Rightarrow> 'c chat \<Rightarrow> conn \<Rightarrow> (bool \<times> 'c chat \<times> conn) option" where
  \<open>op_chat_send R j body x k =
     (case json_clamp j (json_get j 0 ''max'') (Fin 0) (Fin 0) (Fin (of_nat CTX_CAP)) of (mx, bad) \<Rightarrow>
      (case send_msgs body of
        None \<Rightarrow>
          (case reply_error send_usage k of
             (ok, k') \<Rightarrow> Some (ok, x, k'))
      | Some ms \<Rightarrow>
          if bad then
            (case reply_error send_usage k of
               (ok, k') \<Rightarrow> Some (ok, x, k'))
          else
            (case send_to R (dnat mx) ms (the (chat_of x)) of
               (st, c1) \<Rightarrow>
                 if st \<noteq> GEISTR_OK then
                   (case write_frame (send_error (send_status st) (r_error R c1)) [] k of
                      (ok, k') \<Rightarrow> Some (ok, x\<lparr>chat_of := Some c1\<rparr>, k'))
                 else
                   (case write_frame processed_hdr [] k of
                      (False, k') \<Rightarrow>
                        (case drain R (r_cancel R c1) of
                           None \<Rightarrow> None | Some c2 \<Rightarrow> Some (False, x\<lparr>chat_of := Some c2\<rparr>, k'))
                    | (True, k') \<Rightarrow>
                        (case stream R c1 k' of
                           None \<Rightarrow> None
                         | Some (None, c2, k2) \<Rightarrow> Some (False, x\<lparr>chat_of := Some c2\<rparr>, k2)
                         | Some (Some st2, c2, k2) \<Rightarrow>
                             (case write_frame
                                 (if st2 \<noteq> GEISTR_OK \<and> st2 \<noteq> GEISTR_CANCELLED then send_error ''error'' (r_error R c2)
                                  else ''{"ok":true,"done":true,'' @ stats_json R c2 @ ''}'') [] k2 of
                                (ok, k3) \<Rightarrow> Some (ok, x\<lparr>chat_of := Some c2\<rparr>, k3)))))))\<close>

subsection \<open>Rewind\<close>

definition op_chat_rewind :: "('r, 'c) runtime \<Rightarrow> json \<Rightarrow> 'c chat \<Rightarrow> outcome \<times> 'c chat" where
  \<open>op_chat_rewind R j x =
     (case json_clamp j (json_get j 0 ''keep'') (Fin (-1)) (Fin 0) (Fin (10 ^ 9)) of (keep, bad) \<Rightarrow>
        if bad then (Err ''chat_rewind: keep must be at most the chat's length'', x)
        else
          (case r_rewind R (the (chat_of x)) (dnat keep) of
             (st, c) \<Rightarrow>
               if st \<noteq> GEISTR_OK then
                 (Err ''chat_rewind: keep must be at most the chat's length'', x\<lparr>chat_of := Some c\<rparr>)
               else (Ok (''{"ok":true,"length":'' @ dec (r_len R c) @ ''}'') [], x\<lparr>chat_of := Some c\<rparr>)))\<close>

end
