(* ===== verification/Daemon.thy ===== *)
theory Daemon
  imports SessionInv Chats
begin

section \<open>The daemon: dispatch and connections (src/src/geistd.c)\<close>

text \<open>
  \<open>handle\<close> answers one request, \<open>serve_conn\<close> a connection: frame by frame until it ends, breaks,
  or a request asks to close it. The engine \<open>E\<close>, the runtime \<open>R\<close> and the build data \<open>b\<close> are
  parameters, and \<open>v\<close> is what the request sees of the clock and of /dev/urandom. \<open>handle\<close> has no
  result where C gives the request no meaning or an answer never ends.
\<close>

definition on_sess ::
    "string \<Rightarrow> ('s sess \<Rightarrow> outcome \<times> 's sess) \<Rightarrow> nat option \<Rightarrow> ('m, 's, 'r, 'c) daemon \<Rightarrow>
     outcome \<times> ('m, 's, 'r, 'c) daemon" where
  "on_sess op f xi d =
     (case xi of
        None \<Rightarrow> (Err (op @ '': unknown session''), d)
      | Some i \<Rightarrow> (case f (sesss d ! i) of (r, x) \<Rightarrow> (r, set_sess i x d)))"

definition sess_at :: "nat option \<Rightarrow> ('m, 's, 'r, 'c) daemon \<Rightarrow> 's sess option" where
  "sess_at xi d = map_option (\<lambda>i. sesss d ! i) xi"

definition pin_op ::
    "('m, 's) engine \<Rightarrow> json \<Rightarrow> nat option \<Rightarrow> ('m, 's, 'r, 'c) daemon \<Rightarrow> outcome \<times> ('m, 's, 'r, 'c) daemon" where
  "pin_op E j xi d =
     (case op_pin E j (sess_at xi d) of
        (r, xo) \<Rightarrow> (r, case (xi, xo) of (Some i, Some x) \<Rightarrow> set_sess i x d | _ \<Rightarrow> d))"

text \<open>The operations that answer with one frame. No result for the two that stream.\<close>

definition plain_op ::
    "('m, 's) engine \<Rightarrow> ('r, 'c) runtime \<Rightarrow> build \<Rightarrow> env \<Rightarrow> json \<Rightarrow> string \<Rightarrow> string \<Rightarrow> nat option \<Rightarrow>
     ('m, 's, 'r, 'c) daemon \<Rightarrow> outcome \<times> ('m, 's, 'r, 'c) daemon" where
  \<open>plain_op E R b v j body op xi d =
     (if op = ''info'' then (op_info E b (case rt d of None \<Rightarrow> None | Some r \<Rightarrow> r_format R r) d, d)
      else if op = ''token_id'' then
        (case json_strdup j (json_get j 0 ''text'') of
           None \<Rightarrow> (Err ''token_id: text required'', d)
         | Some text \<Rightarrow> (Ok (''{"ok":true,"token":'' @ deci (g_token_by_text E (mdl d) text) @ ''}'') [], d))
      else if op = ''unpin'' then on_sess op (op_unpin E) xi d
      else if op = ''open'' then op_open E v j d
      else if op = ''tokenize'' then (op_tokenize E j d, d)
      else if op = ''str'' then (op_str E (sess_at xi d) body, d)
      else if op = ''prefill'' then on_sess op (op_prefill E (vocab d) body) xi d
      else if op = ''peek'' then op_peek E j body (sess_at xi d) d
      else if op = ''step'' then on_sess op (op_step E (mo d) j) xi d
      else if op = ''reset'' then on_sess op (op_reset E) xi d
      else if op = ''pin'' then pin_op E j xi d
      else if op = ''close'' then on_sess op (\<lambda>x. (Ok ok_hdr [], no_sess)) xi d
      else (Err ''unknown op'', d))\<close>

text \<open>The branch of names that start with \<open>chat_\<close>, the streaming one apart.\<close>

definition chat_op ::
    "('r, 'c) runtime \<Rightarrow> env \<Rightarrow> json \<Rightarrow> string \<Rightarrow> nat option \<Rightarrow> ('m, 's, 'r, 'c) daemon \<Rightarrow>
     outcome \<times> ('m, 's, 'r, 'c) daemon" where
  "chat_op R v j op ci d =
     (if op = ''chat_open'' then op_chat_open R v j d
      else
        (case ci of
           None \<Rightarrow> (Err ''unknown chat'', d)
         | Some i \<Rightarrow>
             if op = ''chat_rewind'' then
               (case op_chat_rewind R j (chats d ! i) of (r, x) \<Rightarrow> (r, set_chat i x d))
             else if op = ''chat_close'' then (Ok ok_hdr [], set_chat i no_chat d)
             else (Err ''unknown op'', d)))"

definition finish_op ::
    "outcome \<times> ('m, 's, 'r, 'c) daemon \<Rightarrow> conn \<Rightarrow> (bool \<times> ('m, 's, 'r, 'c) daemon \<times> conn) option" where
  "finish_op rd c = (case rd of (r, d) \<Rightarrow> map_option (\<lambda>(ok, c'). (ok, d, c')) (answer r c))"

subsection \<open>The token\<close>

text \<open>\<open>diff |= tok[i] ^ d->token[i]\<close> over the bytes of the daemon's token.\<close>

definition token_diff :: "string \<Rightarrow> string \<Rightarrow> nat" where
  "token_diff tk own = foldl (\<lambda>acc i. acc OR (byte (tk ! i) XOR byte (own ! i))) 0 [0..<length own]"

definition hello_good :: "string option \<Rightarrow> string option \<Rightarrow> bool" where
  "hello_good own tk =
     (case own of
        None \<Rightarrow> True
      | Some o1 \<Rightarrow> (case tk of None \<Rightarrow> False | Some t \<Rightarrow> length t = length o1 \<and> token_diff t o1 = 0))"

subsection \<open>Dispatch\<close>

text \<open>What follows the check of the token: the session and the chat a request names are looked up,
  and marked used, before the operation.\<close>

definition dispatch ::
    "('m, 's) engine \<Rightarrow> ('r, 'c) runtime \<Rightarrow> build \<Rightarrow> env \<Rightarrow> json \<Rightarrow> string \<Rightarrow> string \<Rightarrow> ('m, 's, 'r, 'c) daemon \<Rightarrow>
     conn \<Rightarrow> (bool \<times> ('m, 's, 'r, 'c) daemon \<times> conn) option" where
  "dispatch E R b v j body op d c =
     (case sess_find (now v) (json_strdup j (json_get j 0 ''session'')) d of
        (xi, d1) \<Rightarrow>
          if op = ''generate'' then
            (case xi of
               None \<Rightarrow> finish_op (Err ''generate: unknown session'', d1) c
             | Some i \<Rightarrow>
                 map_option (\<lambda>(ok, x, c'). (ok, set_sess i x d1, c'))
                   (op_generate E v (mo d1) j (sesss d1 ! i) c))
          else if take 5 op = ''chat_'' then
            (case chat_find (now v) (json_strdup j (json_get j 0 ''chat'')) d1 of
               (ci, d2) \<Rightarrow>
                 if op = ''chat_send'' then
                   (case ci of
                      None \<Rightarrow> finish_op (Err ''chat_send: unknown chat'', d2) c
                    | Some i \<Rightarrow>
                        map_option (\<lambda>(ok, x, c'). (ok, set_chat i x d2, c'))
                          (op_chat_send R j body (chats d2 ! i) c))
                 else finish_op (chat_op R v j op ci d2) c)
          else finish_op (plain_op E R b v j body op xi d1) c)"

definition handle ::
    "('m, 's) engine \<Rightarrow> ('r, 'c) runtime \<Rightarrow> build \<Rightarrow> env \<Rightarrow> string \<Rightarrow> string \<Rightarrow> ('m, 's, 'r, 'c) daemon \<Rightarrow> conn \<Rightarrow>
     (bool \<times> ('m, 's, 'r, 'c) daemon \<times> conn) option" where
  "handle E R b v hdr body d c =
     (case json_parse hdr of
        None \<Rightarrow> finish_op (Err ''header is not a JSON object'', d) c
      | Some j \<Rightarrow>
          (case json_strdup j (json_get j 0 ''op'') of
             None \<Rightarrow> finish_op (Err ''missing op'', d) c
           | Some op \<Rightarrow>
               if op = ''hello'' then
                 (let good = hello_good (auth_token d) (json_strdup j (json_get j 0 ''token''));
                      c1 = c\<lparr>authed := good\<rparr>
                  in if good then finish_op (Ok ok_hdr [], d) c1
                     else Some (False, d, snd (reply_error ''hello: bad token'' c1)))
               else if need_hello d \<and> \<not> authed c then
                 Some (False, d, snd (reply_error ''hello first'' c))
               else dispatch E R b v j body op d c))"

subsection \<open>No request reads from the connection\<close>

lemma reply_error_same [frame]: "reply_error m c = (ok, c') \<Longrightarrow> same_in c c'"
  by (simp add: reply_error_def write_frame_same)

lemma answer_same [frame]: "answer r c = Some (ok, c') \<Longrightarrow> same_in c c'"
  by (cases r) (auto simp: answer_def intro: write_frame_same reply_error_same)

lemma finish_op_same [frame]: "finish_op rd c = Some (ok, d, c') \<Longrightarrow> same_in c c'"
  by (auto simp: finish_op_def split: prod.splits intro: answer_same)

lemma gen_loop_same [frame]: "gen_loop E m g r k x tail c = (reason, k', x', c') \<Longrightarrow> same_in c c'"
proof (induction E m g r k x tail c rule: gen_loop.induct)
  case (2 E m g r k x tail c)
  show ?case
  proof (cases "length (hist x) \<ge> CTX_CAP - 1 \<or> fst (g_step E (the (handle_of x))) = None")
    case True
    with "2.prems" show ?thesis by (auto split: prod.splits option.splits if_splits)
  next
    case False
    then obtain t s where st: "g_step E (the (handle_of x)) = (Some t, s)"
      by (cases "g_step E (the (handle_of x))") auto
    define x1 where "x1 = snd (hist_push [t] (x\<lparr>handle_of := Some s\<rparr>))"
    define p where "p = g_token_str E s t"
    define tail1 where "tail1 = (case p of Some q \<Rightarrow> tail_push tail q | None \<Rightarrow> tail)"
    define stop where "stop = gen_stop m g t p tail1"
    obtain ok c1 where w: "write_frame (gen_frame t stop p) [] c = (ok, c1)" by fastforce
    have "gen_loop E m g (Suc r) k x tail c =
        (if \<not> ok then (''client'', k, x1, c1) else if stop then (''stop'', k + 1, x1, c1)
         else gen_loop E m g r (k + 1) x1 tail1 c1)"
      using False
      by (simp add: st Let_def x1_def [symmetric] p_def [symmetric] tail1_def [symmetric]
          stop_def [symmetric] w split: bool.split)
    moreover have "gen_loop E m g r (k + 1) x1 tail1 c1 = (reason, k', x', c') \<Longrightarrow> ok \<Longrightarrow> \<not> stop \<Longrightarrow>
        same_in c1 c'"
      using "2.IH" [OF _ st [symmetric] refl x1_def p_def tail1_def stop_def w [symmetric]] False by auto
    ultimately show ?thesis
      using "2.prems" write_frame_same [OF w] same_in_trans by (auto split: if_splits)
  qed
qed simp

lemma stream_same [frame]: "stream R c k = Some (st, c', k') \<Longrightarrow> same_in k k'"
proof -
  have "same_in k (snd (snd y))" if "stream R c k = Some y" for y
  proof (rule stream.raw_induct [where P = "\<lambda>R c k y. same_in k (snd (snd y))", OF _ that], goal_cases)
    case (1 stream R c k y)
    obtain st p c1 where n: "r_next R c = ((st, p), c1)" by (metis surj_pair)
    obtain ok k1 where w: "write_frame (piece_hdr p) [] k = (ok, k1)" by fastforce
    from 1 write_frame_same [OF w] show ?case
      by (cases y) (auto simp: n w Let_def split: if_splits option.splits intro: same_in_trans)
  qed
  then show "stream R c k = Some (st, c', k') \<Longrightarrow> same_in k k'" by fastforce
qed

lemma op_generate_same [frame]:
  "op_generate E v m j x c = Some (ok, x', c') \<Longrightarrow> same_in c c'"
  by (auto simp: op_generate_def same_in_def split: if_splits option.splits prod.splits
      dest!: gen_loop_same write_frame_same reply_error_same)

lemma op_chat_send_same [frame]:
  assumes "op_chat_send R j body x c = Some (ok, x', c')"
  shows "same_in c c'"
proof -
  obtain mx bad where cl: "json_clamp j (json_get j 0 ''max'') (Fin 0) (Fin 0) (Fin (of_nat CTX_CAP)) = (mx, bad)"
    by fastforce
  show ?thesis
  proof (cases "send_msgs body = None \<or> bad")
    case True
    with assms cl show ?thesis
      by (auto simp: op_chat_send_def intro: reply_error_same split: prod.splits option.splits)
  next
    case False
    then obtain ms where ms: "send_msgs body = Some ms" "\<not> bad" by auto
    obtain st c1 where st: "send_to R (dnat mx) ms (the (chat_of x)) = (st, c1)" by fastforce
    obtain ok1 k1 where w: "write_frame processed_hdr [] c = (ok1, k1)" by fastforce
    note eq = assms [unfolded op_chat_send_def cl ms st prod.case option.case w]
    show ?thesis
    proof (cases "st = GEISTR_OK \<and> ok1")
      case True
      with eq ms w write_frame_same [OF w] show ?thesis
        by (auto split: option.splits prod.splits intro: same_in_trans dest!: stream_same write_frame_same)
    next
      case False
      with eq ms w write_frame_same [OF w] show ?thesis
        by (auto split: option.splits prod.splits if_splits bool.splits dest!: write_frame_same)
    qed
  qed
qed

text \<open>Only \<open>hello\<close> changes whether the peer is known.\<close>

lemma dispatch_same [frame]: "dispatch E R b v j body op d c = Some (ok, d', c') \<Longrightarrow> same_in c c'"
proof -
  assume a: "dispatch E R b v j body op d c = Some (ok, d', c')"
  obtain xi d1 where f: "sess_find (now v) (json_strdup j (json_get j 0 ''session'')) d = (xi, d1)" by fastforce
  obtain ci d2 where g: "chat_find (now v) (json_strdup j (json_get j 0 ''chat'')) d1 = (ci, d2)" by fastforce
  note a = a [unfolded dispatch_def f g prod.case]
  consider "op = ''generate''" | "op \<noteq> ''generate''" "op = ''chat_send''"
    | "op \<noteq> ''generate''" "op \<noteq> ''chat_send''" by blast
  then show ?thesis
  proof cases
    case 1
    with a show ?thesis by (auto split: option.splits intro: finish_op_same op_generate_same)
  next
    case 2
    with a show ?thesis by (auto split: option.splits intro: finish_op_same op_chat_send_same)
  next
    case 3
    with a show ?thesis by (auto split: if_splits intro: finish_op_same)
  qed
qed

lemma handle_in: "handle E R b v hdr body d c = Some (ok, d', c') \<Longrightarrow> c_in c' = c_in c"
proof -
  have s: "c_in (snd (reply_error m k)) = c_in k" for m k
    by (simp add: reply_error_def)
  have f: "finish_op rd k = Some (ok, d', c') \<Longrightarrow> c_in c' = c_in k" for rd k
    using finish_op_same [of rd k] by (simp add: same_in_def)
  have g: "dispatch E R b v j body op d c = Some (ok, d', c') \<Longrightarrow> c_in c' = c_in c" for j op
    using dispatch_same by (fastforce simp: same_in_def)
  assume "handle E R b v hdr body d c = Some (ok, d', c')"
  then show ?thesis
    by (auto simp: handle_def Let_def s split: option.splits if_splits dest!: f g)
qed

subsection \<open>Serving a connection\<close>

text \<open>
  \<open>vs n\<close> is the environment of request \<open>n\<close>. The header is a C string from here on. Every round
  takes a frame off what is still to be read, so the loop ends; the sampler's captures before and
  after a request touch nothing of this state.
\<close>

lemma read_frame_shorter: "read_frame c = (Frame hdr body, c') \<Longrightarrow> length (c_in c') < length (c_in c)"
  by (auto simp: read_frame_def read_all_def Let_def split: if_splits)

function serve_conn ::
    "('m, 's) engine \<Rightarrow> ('r, 'c) runtime \<Rightarrow> build \<Rightarrow> (nat \<Rightarrow> env) \<Rightarrow> nat \<Rightarrow> ('m, 's, 'r, 'c) daemon \<Rightarrow> conn \<Rightarrow>
     (('m, 's, 'r, 'c) daemon \<times> conn) option" where
  "serve_conn E R b vs n d c =
     (case read_frame c of
        (Eof, c1) \<Rightarrow> Some (d, c1)
      | (Malformed, c1) \<Rightarrow> Some (d, snd (reply_error ''malformed frame; closing'' c1))
      | (Frame hdr body, c1) \<Rightarrow>
          (case handle E R b (vs n) (cstr hdr) body d c1 of
             None \<Rightarrow> None
           | Some (ok, d', c2) \<Rightarrow>
               if \<not> ok \<or> broken c2 then Some (d', c2) else serve_conn E R b vs (Suc n) d' c2))"
  by pat_completeness auto
termination
  by (relation "measure (\<lambda>(E, R, b, vs, n, d, c). length (c_in c))")
    (auto dest!: read_frame_shorter [OF sym] handle_in)

declare serve_conn.simps [simp del]

text \<open>The loop of \<open>main\<close> over the connections it accepts, from a table without sessions on; \<open>vs k\<close> are the environments of
  the requests of connection \<open>k\<close>.\<close>

definition no_sessions :: "('m, 's, 'r, 'c) daemon \<Rightarrow> bool" where
  "no_sessions d \<longleftrightarrow> sesss d = replicate SESS_MAX no_sess \<and> 1 \<le> n_max d \<and> n_max d \<le> SESS_MAX"

fun serve_conns ::
    "('m, 's) engine \<Rightarrow> ('r, 'c) runtime \<Rightarrow> build \<Rightarrow> (nat \<Rightarrow> nat \<Rightarrow> env) \<Rightarrow> nat \<Rightarrow> ('m, 's, 'r, 'c) daemon \<Rightarrow> conn list \<Rightarrow>
     ('m, 's, 'r, 'c) daemon option" where
  "serve_conns E R b vs k d [] = Some d"
| "serve_conns E R b vs k d (c # cs) =
     (case serve_conn E R b (vs k) 0 d c of
        None \<Rightarrow> None
      | Some (d', c') \<Rightarrow> serve_conns E R b vs (Suc k) d' cs)"

end
