(* ===== verification/DaemonInv.thy ===== *)
theory DaemonInv
  imports Daemon
begin

section \<open>What every request keeps\<close>

text \<open>
  A property of session slots that every session operation keeps (\<open>kept_by\<close>) is kept by
  \<open>handle\<close> for the whole table, and by a connection of any length. It is used twice: for
  \<open>sess_ok\<close>, with any engine, and for \<open>mirror\<close>, with an engine that keeps its contract. The
  second part is about the token: until a peer has said hello with it, no request has an effect.
\<close>

subsection \<open>Session tables\<close>

definition kept_by :: "('m, 's) engine \<Rightarrow> ('s sess \<Rightarrow> bool) \<Rightarrow> bool" where
  "kept_by E P \<longleftrightarrow>
     P no_sess \<and> (\<forall>x t. P x \<longrightarrow> P (x\<lparr>used := t\<rparr>))
   \<and> (\<forall>m ops s k t. g_create E m ops = (True, Some s) \<longrightarrow>
        P \<lparr>live = True, sid = k, handle_of = Some s, hist = [], pinned = 0, used = t\<rparr>)
   \<and> (\<forall>x. P x \<and> live x \<longrightarrow>
        P (snd (op_unpin E x)) \<and> P (snd (op_reset E x)) \<and> (\<forall>voc body. P (snd (op_prefill E voc body x)))
      \<and> (\<forall>m j. P (snd (op_step E m j x)))
      \<and> (\<forall>j r x'. op_pin E j (Some x) = (r, Some x') \<longrightarrow> P x')
      \<and> (\<forall>v m j c ok x' c'. op_generate E v m j x c = Some (ok, x', c') \<longrightarrow> P x'))"

lemma kept_used: "kept_by E P \<Longrightarrow> P x \<Longrightarrow> P (x\<lparr>used := t\<rparr>)"
  unfolding kept_by_def by (drule conjunct2, drule conjunct1) simp

definition table_ok :: "('s sess \<Rightarrow> bool) \<Rightarrow> ('m, 's, 'r, 'c) daemon \<Rightarrow> bool" where
  "table_ok P d \<longleftrightarrow> length (sesss d) = SESS_MAX \<and> 1 \<le> n_max d \<and> n_max d \<le> SESS_MAX \<and> (\<forall>x \<in> set (sesss d). P x)"

lemma table_ok_set [intr_inv]: "table_ok P d \<Longrightarrow> P x \<Longrightarrow> table_ok P (set_sess i x d)"
  by (auto simp: table_ok_def set_sess_def dest!: set_update_subset_insert [THEN subsetD])

lemma table_ok_chat [simp]: "table_ok P (set_chat i x d) = table_ok P d"
  by (simp add: table_ok_def set_chat_def)

lemma table_ok_vocab [simp]: "table_ok P (d\<lparr>vocab := n\<rparr>) = table_ok P d"
  by (simp add: table_ok_def)

lemma table_ok_nth: "table_ok P d \<Longrightarrow> i < n_max d \<Longrightarrow> P (sesss d ! i)"
  by (auto simp: table_ok_def)

lemma table_ok_evict:
  assumes "table_ok P d" and "P no_sess"
  shows "table_ok P (sess_evict_idle t d)"
proof -
  have "table_ok P (foldl (\<lambda>d i. if live (sesss d ! i) \<and> t - used (sesss d ! i) > idle_s d
      then set_sess i no_sess d else d) d xs)" for xs
    using assms by (induction xs arbitrary: d) (auto intro: table_ok_set)
  then show ?thesis by (simp add: sess_evict_idle_def)
qed

lemma table_ok_find:
  assumes "table_ok P d" and "\<And>x t. P x \<Longrightarrow> P (x\<lparr>used := t\<rparr>)" and "sess_find t key d = (xi, d1)"
  shows "table_ok P d1 \<and> (\<forall>i. xi = Some i \<longrightarrow> P (sesss d1 ! i) \<and> live (sesss d1 ! i) \<and> i < n_max d1
           \<and> key = Some (sid (sesss d1 ! i)))"
proof (cases xi)
  case None
  with assms show ?thesis by (auto simp: sess_find_def split: option.splits)
next
  case (Some i)
  with assms(3) have f: "find_slot live sid (n_max d) key (sesss d) = Some i"
    "d1 = set_sess i ((sesss d ! i)\<lparr>used := t\<rparr>) d"
    by (auto simp: sess_find_def split: option.splits)
  from find_slot_Some [OF f(1)] have i: "i < n_max d" "live (sesss d ! i)" "key = Some (sid (sesss d ! i))"
    by auto
  have "i < length (sesss d)" using i(1) assms(1) by (simp add: table_ok_def)
  with i table_ok_nth [OF assms(1) i(1)] assms(1,2) show ?thesis
    by (auto simp: Some f(2) set_sess_def [of i] intro: table_ok_set [unfolded set_sess_def])
qed

lemma table_ok_open:
  assumes "table_ok P d" and "kept_by E P"
  shows "table_ok P (snd (op_open E v j d))"
proof -
  have P: "P no_sess" using assms(2) unfolding kept_by_def by blast
  obtain ops bad where o1: "open_opts j = (ops, bad)" by fastforce
  define d0 where "d0 = sess_evict_idle (now v) d"
  obtain i d1 where s': "sess_slot d0 = (i, d1)" by fastforce
  have d1: "table_ok P d1"
    using s' table_ok_evict [OF assms(1) P, of "now v"] P
    by (auto simp: sess_slot_def Let_def d0_def split: if_splits intro: table_ok_set)
  obtain ok so where c: "g_create E (mdl d1) ops = (ok, so)" by fastforce
  show ?thesis
  proof (cases "bad \<or> \<not> ok \<or> so = None")
    case True
    then show ?thesis
      using assms(1) d1 P by (auto simp: op_open_def o1 s' d0_def [symmetric] c intro: table_ok_set
          split: option.splits bool.splits)
  next
    case False
    then obtain s where "g_create E (mdl d1) ops = (True, Some s)" "\<not> bad" using c by auto
    moreover have "P \<lparr>live = True, sid = k, handle_of = Some s, hist = [], pinned = 0, used = t\<rparr>" for k t
      using assms(2) calculation(1) unfolding kept_by_def by blast
    ultimately show ?thesis
      using d1 by (simp add: op_open_def o1 s' d0_def [symmetric] table_ok_set)
  qed
qed

lemma table_ok_on_sess:
  assumes "table_ok P d" and "\<And>i. xi = Some i \<Longrightarrow> P (snd (f (sesss d ! i)))"
  shows "table_ok P (snd (on_sess op f xi d))"
  using assms by (auto simp: on_sess_def split: option.splits prod.splits intro!: table_ok_set)

lemma op_pin_slot: "op_pin E j (Some x) = (r, xo) \<Longrightarrow> \<exists>x'. xo = Some x'"
  by (auto simp: op_pin_def split: option.splits if_splits prod.splits bool.splits)

lemma op_pin_none: "op_pin E j None = (r, xo) \<Longrightarrow> xo = None"
  by (auto simp: op_pin_def split: option.splits)

lemma table_ok_plain:
  assumes "table_ok P d" and "kept_by E P"
    and "\<And>i. xi = Some i \<Longrightarrow> P (sesss d ! i) \<and> live (sesss d ! i)"
  shows "table_ok P (snd (plain_op E R b v j body op xi d))"
proof -
  have K: "P x \<Longrightarrow> live x \<Longrightarrow> P (snd (op_unpin E x)) \<and> P (snd (op_reset E x)) \<and> P (snd (op_prefill E voc body x))
      \<and> P (snd (op_step E m j x)) \<and> (\<forall>r x'. op_pin E j (Some x) = (r, Some x') \<longrightarrow> P x')" for x voc m
    using assms(2) unfolding kept_by_def by blast
  have N: "P no_sess" using assms(2) unfolding kept_by_def by blast
  have pin: "table_ok P (snd (pin_op E j xi d))"
  proof (cases xi)
    case None
    then show ?thesis using assms(1)
      by (auto simp: pin_op_def sess_at_def split: prod.splits option.splits)
  next
    case (Some i)
    obtain r xo where p: "op_pin E j (Some (sesss d ! i)) = (r, xo)" by fastforce
    with op_pin_slot obtain x' where "xo = Some x'" by blast
    with p K assms(3) [OF Some] assms(1) show ?thesis
      by (auto simp: pin_op_def sess_at_def Some intro: table_ok_set)
  qed
  have peek: "table_ok P (snd (op_peek E j body (sess_at xi d) d))"
    using assms(1) by (auto simp: op_peek_def Let_def split: option.splits)
  have sess: "table_ok P (snd (on_sess op f xi d))"
    if "\<And>x. P x \<Longrightarrow> live x \<Longrightarrow> P (snd (f x))" for f op
    using that assms(1,3) by (intro table_ok_on_sess) auto
  have four: "table_ok P (snd (on_sess op (op_unpin E) xi d))" "table_ok P (snd (on_sess op (op_prefill E (vocab d) body) xi d))"
    "table_ok P (snd (on_sess op (op_step E (mo d) j) xi d))" "table_ok P (snd (on_sess op (op_reset E) xi d))"
    "table_ok P (snd (on_sess op (\<lambda>x. (Ok ok_hdr [], no_sess)) xi d))" for op
    using K N by (auto intro!: sess)
  show ?thesis
    unfolding plain_op_def
    using assms(1) table_ok_open [OF assms(1,2), of v j] pin peek four
    by (simp split: option.split)
qed

lemma chat_open_frame [frame]: "sesss (snd (op_chat_open R v j d)) = sesss d \<and> n_max (snd (op_chat_open R v j d)) = n_max d"
  by (auto simp: op_chat_open_def Let_def set_chat_def split: option.splits prod.splits)

lemma chat_op_frame [frame]: "sesss (snd (chat_op R v j op ci d)) = sesss d \<and> n_max (snd (chat_op R v j op ci d)) = n_max d"
  using chat_open_frame [of R v j d]
  by (auto simp: chat_op_def set_chat_def split: option.splits prod.splits)

lemma finish_op_daemon: "finish_op rd c = Some (ok, d', c') \<Longrightarrow> d' = snd rd"
  by (auto simp: finish_op_def split: prod.splits)

lemma table_ok_cong: "sesss d' = sesss d \<Longrightarrow> n_max d' = n_max d \<Longrightarrow> table_ok P d' = table_ok P d"
  by (simp add: table_ok_def)

lemma table_ok_dispatch:
  assumes "table_ok P d" and "kept_by E P" and "dispatch E R b v j body op d c = Some (ok, d', c')"
  shows "table_ok P d'"
proof -
  have used: "P x \<Longrightarrow> P (x\<lparr>used := t\<rparr>)" for x t using kept_used [OF assms(2)] .
  have gen: "P x \<Longrightarrow> live x \<Longrightarrow> op_generate E v m j x c = Some (ok, x', c') \<Longrightarrow> P x'" for m x x' ok c'
    using assms(2) unfolding kept_by_def by blast
  obtain xi d1 where f: "sess_find (now v) (json_strdup j (json_get j 0 ''session'')) d = (xi, d1)" by fastforce
  obtain ci d2 where g: "chat_find (now v) (json_strdup j (json_get j 0 ''chat'')) d1 = (ci, d2)" by fastforce
  from table_ok_find [OF assms(1) used f] have d1: "table_ok P d1"
    and x: "\<And>i. xi = Some i \<Longrightarrow> P (sesss d1 ! i) \<and> live (sesss d1 ! i)" by auto
  have d2: "table_ok P d2" using g d1 by (auto simp: chat_find_def split: option.splits)
  note a = assms(3) [unfolded dispatch_def f g prod.case]
  consider "op = ''generate''" | "op \<noteq> ''generate''" "op = ''chat_send''"
    | "op \<noteq> ''generate''" "op \<noteq> ''chat_send''" by blast
  then show ?thesis
  proof cases
    case 1
    show ?thesis
    proof (cases xi)
      case None
      with a 1 d1 show ?thesis by (auto dest: finish_op_daemon)
    next
      case (Some i)
      with a 1 obtain x' where "d' = set_sess i x' d1" "op_generate E v (mo d1) j (sesss d1 ! i) c = Some (ok, x', c')"
        by auto
      with x [OF Some] d1 gen show ?thesis by (auto intro: table_ok_set)
    qed
  next
    case 2
    with a d2 show ?thesis by (auto split: option.splits dest!: finish_op_daemon)
  next
    case 3
    have "table_ok P (snd (chat_op R v j op ci d2))"
      using d2 chat_op_frame [of R v j op ci d2] table_ok_cong by blast
    moreover have "table_ok P (snd (plain_op E R b v j body op xi d1))"
      using table_ok_plain [OF d1 assms(2) x] .
    ultimately show ?thesis using a 3 by (auto split: if_splits dest!: finish_op_daemon)
  qed
qed

lemma table_ok_handle [intr_inv]:
  assumes "table_ok P d" and "kept_by E P" and "handle E R b v hdr body d c = Some (ok, d', c')"
  shows "table_ok P d'"
  using assms(3) table_ok_dispatch [OF assms(1,2)] assms(1)
  by (auto simp: handle_def Let_def split: option.splits if_splits dest!: finish_op_daemon)

text \<open>A connection is any number of requests.\<close>

lemma table_ok_serve [intr_inv]:
  assumes "serve_conn E R b vs n d c = Some (d', c')" and "table_ok P d" and "kept_by E P"
  shows "table_ok P d'"
  using assms
proof (induction E R b vs n d c rule: serve_conn.induct)
  case (1 E R b vs n d c)
  obtain f c1 where f: "read_frame c = (f, c1)" by fastforce
  show ?case
  proof (cases f)
    case (Frame hdr body)
    show ?thesis
    proof (cases "handle E R b (vs n) (cstr hdr) body d c1")
      case None
      with "1.prems"(1) f Frame show ?thesis by (simp add: serve_conn.simps [of E R b vs n d c])
    next
      case (Some r)
      obtain ok d1 c2 where r: "r = (ok, d1, c2)" by (cases r)
      have d1: "table_ok P d1" using table_ok_handle "1.prems"(2,3) Some r by blast
      show ?thesis
      proof (cases "\<not> ok \<or> broken c2")
        case True
        with "1.prems"(1) f Frame Some r d1 show ?thesis
          by (auto simp: serve_conn.simps [of E R b vs n d c] split: if_splits)
      next
        case False
        then have "serve_conn E R b vs (Suc n) d1 c2 = Some (d', c')"
          using "1.prems"(1) f Frame Some r by (simp add: serve_conn.simps [of E R b vs n d c])
        from "1.IH" [OF f [symmetric] Frame Some r [symmetric] refl False this d1 "1.prems"(3)]
        show ?thesis by simp
      qed
    qed
  qed (use "1.prems" f in \<open>auto simp: serve_conn.simps [of E R b vs n d c]\<close>)
qed

text \<open>And the daemon serves any number of connections, the first with no session.\<close>

lemma table_ok_serves:
  "serve_conns E R b vs k d cs = Some d' \<Longrightarrow> table_ok P d \<Longrightarrow> kept_by E P \<Longrightarrow> table_ok P d'"
  by (induction E R b vs k d cs rule: serve_conns.induct) (auto split: option.splits dest: table_ok_serve)

lemma table_ok_none: "no_sessions d \<Longrightarrow> P no_sess \<Longrightarrow> table_ok P d"
  by (simp add: no_sessions_def table_ok_def)

subsection \<open>The two invariants\<close>

text \<open>The operations, taken one by one.\<close>

lemma kept_byI:
  assumes "P no_sess" and "\<And>x t. P x \<Longrightarrow> P (x\<lparr>used := t\<rparr>)"
    and "\<And>m ops s k t. g_create E m ops = (True, Some s) \<Longrightarrow>
        P \<lparr>live = True, sid = k, handle_of = Some s, hist = [], pinned = 0, used = t\<rparr>"
    and "\<And>x r x'. P x \<Longrightarrow> live x \<Longrightarrow> op_unpin E x = (r, x') \<Longrightarrow> P x'"
    and "\<And>x r x'. P x \<Longrightarrow> live x \<Longrightarrow> op_reset E x = (r, x') \<Longrightarrow> P x'"
    and "\<And>x r x' voc body. P x \<Longrightarrow> live x \<Longrightarrow> op_prefill E voc body x = (r, x') \<Longrightarrow> P x'"
    and "\<And>x r x' m j. P x \<Longrightarrow> live x \<Longrightarrow> op_step E m j x = (r, x') \<Longrightarrow> P x'"
    and "\<And>x r x' j. P x \<Longrightarrow> live x \<Longrightarrow> op_pin E j (Some x) = (r, Some x') \<Longrightarrow> P x'"
    and "\<And>x v m j c ok x' c'. P x \<Longrightarrow> live x \<Longrightarrow> op_generate E v m j x c = Some (ok, x', c') \<Longrightarrow> P x'"
  shows "kept_by E P"
  unfolding kept_by_def
proof (intro conjI allI impI; (elim conjE)?)
  fix x
  assume x: "P x" "live x"
  show "P (snd (op_unpin E x))" by (rule assms(4) [OF x prod.collapse [symmetric]])
  show "P (snd (op_reset E x))" by (rule assms(5) [OF x prod.collapse [symmetric]])
  show "P (snd (op_prefill E voc body x))" for voc body by (rule assms(6) [OF x prod.collapse [symmetric]])
  show "P (snd (op_step E m j x))" for m j by (rule assms(7) [OF x prod.collapse [symmetric]])
  show "P x'" if "op_pin E j (Some x) = (r, Some x')" for j r x' using assms(8) [OF x that] .
  show "P x'" if "op_generate E v m j x c = Some (ok, x', c')" for v m j c ok x' c'
    using assms(9) [OF x that] .
qed (use assms(1-3) in auto)

lemma kept_sess_ok: "kept_by E sess_ok"
proof (rule kept_byI, goal_cases)
  case 2 then show ?case by (simp add: sess_ok_def)
next
  case 3 show ?case by (simp add: sess_ok_def CTX_CAP_def)
next
  case 4 then show ?case using op_unpin_ok by blast
next
  case 5 then show ?case using op_reset_ok by blast
next
  case 6 then show ?case using op_prefill_ok by blast
next
  case 7 then show ?case using op_step_ok by blast
next
  case 8 then show ?case using op_pin_ok by blast
next
  case 9 then show ?case using op_generate_ok by blast
qed (rule sess_ok_none)

lemma op_prefill_mirror [intr_inv]:
  assumes "op_prefill (watched E) voc body x = (r, x')" and "engine_keeps E kv pn" and "mirror kv pn x"
    and "live x" and "sess_ok x"
  shows "mirror kv pn x'"
  using assms mirror_prefill [of E "ids_of body" x r x' kv pn]
  by (auto simp: op_prefill_def Let_def CTX_CAP_def split: if_splits)

lemma kept_mirror:
  assumes K: "engine_keeps E kv pn"
  shows "kept_by (watched E) (\<lambda>x. sess_ok x \<and> mirror kv pn x)"
proof (rule kept_byI, goal_cases)
  case 1 show ?case by (simp add: sess_ok_none mirror_none)
next
  case 2 then show ?case by (simp add: sess_ok_def mirror_def follows_def)
next
  case (3 m ops z k t)
  then obtain s where "g_create E m ops = (True, Some s)" "z = (s, In_Step)"
    by (auto simp: watched_def map_prod_def split: prod.splits)
  with conjunct1 [OF K [unfolded engine_keeps_def]] have "kv (fst z) = [] \<and> pn (fst z) = []" by simp
  then show ?case by (simp add: sess_ok_def mirror_def follows_def CTX_CAP_def)
next
  case 4 then show ?case using op_unpin_ok mirror_unpin [OF _ K] by blast
next
  case 5 then show ?case using op_reset_ok mirror_reset [OF _ K] by blast
next
  case 6 then show ?case using op_prefill_ok op_prefill_mirror [OF _ K] by blast
next
  case 7 then show ?case using op_step_ok mirror_step [OF _ K] by blast
next
  case 8 then show ?case using op_pin_ok mirror_pin [OF _ K] by blast
next
  case 9 then show ?case using op_generate_ok mirror_generate [OF _ K] by blast
qed

subsection \<open>Opening a session\<close>

lemma set_sess_nth: "i \<noteq> k \<Longrightarrow> sesss (set_sess k x d) ! i = sesss d ! i"
  by (simp add: set_sess_def)

lemma evict_idle_nth:
  assumes "n_max d \<le> length (sesss d)"
  shows "sesss (sess_evict_idle t d) ! i =
      (if i < n_max d \<and> live (sesss d ! i) \<and> t - used (sesss d ! i) > idle_s d then no_sess else sesss d ! i)
    \<and> length (sesss (sess_evict_idle t d)) = length (sesss d) \<and> n_max (sess_evict_idle t d) = n_max d"
proof -
  let ?f = "\<lambda>d i. if live (sesss d ! i) \<and> t - used (sesss d ! i) > idle_s d then set_sess i no_sess d else d"
  have "length (sesss (foldl ?f d [0..<m])) = length (sesss d) \<and> n_max (foldl ?f d [0..<m]) = n_max d
      \<and> idle_s (foldl ?f d [0..<m]) = idle_s d
      \<and> (\<forall>i. sesss (foldl ?f d [0..<m]) ! i =
          (if i < m \<and> live (sesss d ! i) \<and> t - used (sesss d ! i) > idle_s d then no_sess else sesss d ! i))"
    if "m \<le> length (sesss d)" for m
    using that
  proof (induction m)
    case (Suc m)
    then show ?case by (auto simp: set_sess_def nth_list_update less_Suc_eq)
  qed simp
  from this [OF assms] show ?thesis by (simp add: sess_evict_idle_def)
qed

text \<open>An open touches a live session only if it is idle or the oldest of a full table.\<close>

lemma op_open_keeps:
  assumes "i < n_max d" and "n_max d \<le> length (sesss d)" and "live (sesss d ! i)"
    and "now v - used (sesss d ! i) \<le> idle_s d"
    and "\<exists>k < n_max d. \<not> live (sesss d ! k) \<or> used (sesss d ! k) < used (sesss d ! i)"
  shows "sesss (snd (op_open E v j d)) ! i = sesss d ! i"
proof -
  define d0 where "d0 = sess_evict_idle (now v) d"
  note e = evict_idle_nth [OF assms(2), of "now v", folded d0_def]
  have i: "sesss d0 ! i = sesss d ! i" using e [of i] assms(4) by auto
  obtain k where k: "k < n_max d" "\<not> live (sesss d ! k) \<or> used (sesss d ! k) < used (sesss d ! i)"
    using assms(5) by blast
  have "\<not> live (sesss d0 ! k) \<or> used (sesss d0 ! k) < used (sesss d0 ! i)"
    using e [of k] k i by (auto simp: no_sess_def)
  then have p: "sess_pick (n_max d0) (sesss d0) \<noteq> i"
    using sess_table.evicted [of "sesss d0" "n_max d0" k] sess_table.pick_less [of "n_max d0" "sesss d0"] e [of i] k(1) assms(3) i
    by force
  have s: "sess_slot d0 = (sess_pick (n_max d0) (sesss d0),
      if live (sesss d0 ! sess_pick (n_max d0) (sesss d0)) then set_sess (sess_pick (n_max d0) (sesss d0)) no_sess d0 else d0)"
    by (simp add: sess_slot_def Let_def)
  then show ?thesis
    using p i by (auto simp: op_open_def d0_def [symmetric] set_sess_nth split: prod.splits bool.splits option.splits)
qed

subsection \<open>The token\<close>

unbundle bit_operations_syntax

lemma token_diff_zero: "length tk = length own \<Longrightarrow> token_diff tk own = 0 \<longleftrightarrow> tk = own"
  unfolding token_diff_def by (rule xor_fold_eq)

lemma hello_good_iff: "hello_good own tk \<longleftrightarrow> own = None \<or> tk = own"
  by (auto simp: hello_good_def token_diff_zero split: option.splits)

lemma handle_unknown_peer:
  assumes "need_hello d" and "\<not> authed c" and "handle E R b v hdr body d c = Some (ok, d', c')"
  shows "d' = d \<and> (authed c' \<longrightarrow> (\<exists>j. json_parse hdr = Some j \<and> json_strdup j (json_get j 0 ''op'') = Some ''hello''
           \<and> (auth_token d = None \<or> json_strdup j (json_get j 0 ''token'') = auth_token d)))"
proof -
  have au: "authed (snd (reply_error m k)) = authed k" for m k by (simp add: reply_error_def)
  show ?thesis
    using assms finish_op_same [of _ _ ok d' c'] finish_op_daemon [of _ _ ok d' c']
    by (auto simp: handle_def Let_def au hello_good_iff same_in_def split: option.splits if_splits)
qed

text \<open>So a connection that never shows the token leaves the daemon as it found it.\<close>

definition says_hello :: "string option \<Rightarrow> string \<Rightarrow> bool" where
  "says_hello own hdr \<longleftrightarrow> (\<exists>j. json_parse hdr = Some j \<and> json_strdup j (json_get j 0 ''op'') = Some ''hello''
     \<and> (own = None \<or> json_strdup j (json_get j 0 ''token'') = own))"

text \<open>The headers a connection still holds, as \<open>read_frame\<close> takes them.\<close>

function headers :: "conn \<Rightarrow> string list" where
  "headers c = (case read_frame c of (Frame hdr body, c1) \<Rightarrow> cstr hdr # headers c1 | _ \<Rightarrow> [])"
  by pat_completeness auto
termination by (relation "measure (\<lambda>c. length (c_in c))") (auto dest!: read_frame_shorter [OF sym])

declare headers.simps [simp del]

lemma read_frame_in: "c_in c = c_in k \<Longrightarrow> fst (read_frame c) = fst (read_frame k)
    \<and> c_in (snd (read_frame c)) = c_in (snd (read_frame k))"
  by (auto simp: read_frame_def read_all_def Let_def)

lemma headers_in: "c_in c = c_in k \<Longrightarrow> headers c = headers k"
proof (induction c arbitrary: k rule: headers.induct)
  case (1 c)
  obtain f c1 where f: "read_frame c = (f, c1)" by fastforce
  then obtain k1 where k: "read_frame k = (f, k1)" "c_in c1 = c_in k1"
    using read_frame_in [OF "1.prems"] by (metis fst_conv prod.collapse snd_conv)
  show ?case
    using "1.IH" [OF f [symmetric]] k
    by (auto simp: headers.simps [of c] headers.simps [of k] f split: frame.splits)
qed

lemma serve_unknown_peer:
  assumes "serve_conn E R b vs n d c = Some (d', c')" and "need_hello d" and "\<not> authed c"
    and "\<forall>h \<in> set (headers c). \<not> says_hello (auth_token d) h"
  shows "d' = d"
  using assms
proof (induction E R b vs n d c rule: serve_conn.induct)
  case (1 E R b vs n d c)
  obtain f c1 where f: "read_frame c = (f, c1)" by fastforce
  show ?case
  proof (cases f)
    case (Frame hdr body)
    have c1: "\<not> authed c1" using f "1.prems"(3)
      by (auto simp: read_frame_def read_all_def Let_def split: if_splits)
    have hs: "headers c = cstr hdr # headers c1" using f Frame by (simp add: headers.simps [of c])
    show ?thesis
    proof (cases "handle E R b (vs n) (cstr hdr) body d c1")
      case None
      with "1.prems"(1) f Frame show ?thesis by (simp add: serve_conn.simps [of E R b vs n d c])
    next
      case (Some r)
      obtain ok d1 c2 where r: "r = (ok, d1, c2)" by (cases r)
      from handle_unknown_peer [OF "1.prems"(2) c1 Some [unfolded r]] "1.prems"(4) hs
      have d1: "d1 = d" "\<not> authed c2" by (auto simp: says_hello_def)
      have c2: "headers c2 = headers c1" using handle_in [OF Some [unfolded r]] headers_in by metis
      show ?thesis
      proof (cases "\<not> ok \<or> broken c2")
        case True
        with "1.prems"(1) f Frame Some r d1 show ?thesis
          by (auto simp: serve_conn.simps [of E R b vs n d c] split: if_splits)
      next
        case False
        then have "serve_conn E R b vs (Suc n) d1 c2 = Some (d', c')"
          using "1.prems"(1) f Frame Some r by (simp add: serve_conn.simps [of E R b vs n d c])
        from "1.IH" [OF f [symmetric] Frame Some r [symmetric] refl False this] "1.prems"(2,4) d1 c2 hs
        show ?thesis by auto
      qed
    qed
  qed (use "1.prems" f in \<open>auto simp: serve_conn.simps [of E R b vs n d c]\<close>)
qed

subsection \<open>Requests without meaning\<close>

text \<open>The only paths that C leaves undefined are a \<open>topk\<close> below 1 or too large for a \<open>size_t\<close>,
  the same for the \<open>n\<close> of \<open>pin\<close>, and a stop id that is no int32.\<close>

lemma topk_field_defined:
  assumes "topk_field E j lg = None"
  shows "dlt (Fin 0) (json_num j (json_get j 0 ''topk'') (Fin 0))
       \<and> (to_unsigned 64 (json_num j (json_get j 0 ''topk'') (Fin 0)) = None
          \<or> to_unsigned 64 (json_num j (json_get j 0 ''topk'') (Fin 0)) = Some 0)"
proof -
  have t: "topk lg (min n TOPK_MAX) \<noteq> None" if "n \<noteq> 0" for n
    by (rule topk_defined) (use that in \<open>simp add: TOPK_MAX_def\<close>)
  show ?thesis
  proof (cases "to_unsigned 64 (json_num j (json_get j 0 ''topk'') (Fin 0))")
    case None
    with assms show ?thesis by (auto simp: topk_field_def Let_def split: if_splits)
  next
    case (Some n)
    with assms have "dlt (Fin 0) (json_num j (json_get j 0 ''topk'') (Fin 0))" "topk lg (min n TOPK_MAX) = None"
      by (auto simp: topk_field_def sb_topk_def Let_def split: if_splits option.splits)
    with t Some show ?thesis by metis
  qed
qed

end
