(* ===== verification/Watched.thy ===== *)
theory Watched
  imports DaemonInv
begin

section \<open>The daemon cannot see whether its engine failed\<close>

text \<open>
  \<open>watched E\<close> notes at each session whether a call on it failed. Here it is shown that the daemon
  over \<open>watched E\<close> is the daemon over \<open>E\<close>: without the notes (\<open>bare\<close>, \<open>bare_daemon\<close>) every operation gives the
  same answer and the same session, so a connection does.
\<close>

definition bare :: "('s \<times> standing) sess \<Rightarrow> 's sess" where
  "bare x = \<lparr>live = live x, sid = sid x, handle_of = map_option fst (handle_of x), hist = hist x, pinned = pinned x, used = used x\<rparr>"

definition bare_daemon :: "('m, 's \<times> standing, 'r, 'c) daemon \<Rightarrow> ('m, 's, 'r, 'c) daemon" where
  "bare_daemon d = \<lparr>mo = mo d, mdl = mdl d, rt = rt d, chats = chats d, n_chats = n_chats d, vocab = vocab d,
     sesss = map bare (sesss d), n_max = n_max d, idle_s = idle_s d, auth_token = auth_token d, need_hello = need_hello d\<rparr>"

lemma bare_fields [simp]:
  "live (bare x) = live x" "sid (bare x) = sid x" "handle_of (bare x) = map_option fst (handle_of x)" "hist (bare x) = hist x"
  "pinned (bare x) = pinned x" "used (bare x) = used x"
  by (simp_all add: bare_def)

lemma bare_update:
  "bare (x\<lparr>handle_of := h\<rparr>) = (bare x)\<lparr>handle_of := map_option fst h\<rparr>" "bare (x\<lparr>hist := ts\<rparr>) = (bare x)\<lparr>hist := ts\<rparr>"
  "bare (x\<lparr>pinned := n\<rparr>) = (bare x)\<lparr>pinned := n\<rparr>" "bare (x\<lparr>used := t\<rparr>) = (bare x)\<lparr>used := t\<rparr>" "bare no_sess = no_sess"
  by (simp_all add: bare_def no_sess_def)

lemma bare_new:
  "bare \<lparr>live = b, sid = k, handle_of = h, hist = ts, pinned = n, used = t\<rparr>
     = \<lparr>live = b, sid = k, handle_of = map_option fst h, hist = ts, pinned = n, used = t\<rparr>"
  by (simp add: bare_def)

lemma watched_fields:
  "g_errmsg (watched E) z = g_errmsg E (fst z)" "g_tokenize (watched E) z = g_tokenize E (fst z)"
  "g_token_str (watched E) z = g_token_str E (fst z)" "g_peek (watched E) z = g_peek E (fst z)"
  "g_token_by_text (watched E) = g_token_by_text E" "g_bos (watched E) = g_bos E" "g_arch (watched E) = g_arch E"
  "g_backend (watched E) = g_backend E" "p_logit (watched E) = p_logit E" "p_logprob (watched E) = p_logprob E"
  "p_floats (watched E) = p_floats E"
  by (simp_all add: watched_def)

text \<open>The calls that change a session.\<close>

lemma watched_calls:
  "map_prod id fst (g_reset (watched E) z) = g_reset E (fst z)"
  "map_prod id fst (g_prefill (watched E) z ts) = g_prefill E (fst z) ts"
  "map_prod id fst (g_step (watched E) z) = g_step E (fst z)"
  "map_prod id fst (g_pin (watched E) z ts) = g_pin E (fst z) ts"
  "map_prod id (map_option fst) (g_create (watched E) m ops) = g_create E m ops"
  by (auto simp: watched_def map_prod_def option.map_comp option.map_ident comp_def split: prod.splits)

lemma call_bare: "map_prod id fst c = e \<Longrightarrow> c = (a, z) \<Longrightarrow> e = (a, fst z)"
  by auto

lemmas watched_result = watched_calls(1-4) [THEN call_bare]

subsection \<open>Operations on a session\<close>

lemma hist_push_bare: "snd (hist_push ts (bare x\<lparr>handle_of := Some (fst y)\<rparr>)) = bare (snd (hist_push ts (x\<lparr>handle_of := Some y\<rparr>)))"
  by (simp add: hist_push_def bare_update)

lemma prefill_tail_bare:
  assumes "handle_of x = Some z"
  shows "prefill_tail E ids k (bare x) = map_prod id bare (prefill_tail (watched E) ids k x)"
proof (cases "drop k ids = []")
  case True
  then show ?thesis
    using assms by (simp add: prefill_tail_def hist_push_bare bare_update Let_def)
next
  case False
  obtain ok y where p: "g_prefill (watched E) z (drop k ids) = (ok, y)" by (metis surj_pair)
  obtain ok2 y2 where r: "g_reset (watched E) y = (ok2, y2)" by (metis surj_pair)
  show ?thesis
    using assms False p r watched_result(2) [OF p] watched_result(1) [OF r]
    by (simp add: prefill_tail_def hist_push_bare bare_update watched_fields Let_def)
qed

lemma op_prefill_bare:
  assumes "handle_of x = Some z"
  shows "op_prefill E voc body (bare x) = map_prod id bare (op_prefill (watched E) voc body x)"
proof -
  obtain ok y where r: "g_reset (watched E) z = (ok, y)" by (metis surj_pair)
  have "prefill_sess E ids (bare x) = map_prod id bare (prefill_sess (watched E) ids x)" for ids
    using assms r watched_result(1) [OF r] prefill_tail_bare [OF assms, of E ids "length (hist x)"]
      prefill_tail_bare [of "x\<lparr>handle_of := Some y, hist := take (pinned x) (hist x)\<rparr>" y E ids "pinned x"]
    by (cases "pinned x = 0") (simp_all add: prefill_sess_def Let_def bare_update split: bool.split)
  then show ?thesis by (simp add: op_prefill_def Let_def)
qed

lemma topk_bare: "topk_field (watched E) j lg = topk_field E j lg"
proof -
  have "top_item (watched E) lg = top_item E lg" by (rule ext) (simp add: top_item_def watched_fields)
  then have e: "sb_topk (watched E) lg = sb_topk E lg" by (intro ext) (simp add: sb_topk_def top_items_def cong: option.case_cong)
  show ?thesis unfolding topk_field_def e by (rule refl)
qed

lemma op_step_bare:
  assumes "handle_of x = Some z"
  shows "op_step E m j (bare x) = map_prod id bare (op_step (watched E) m j x)"
proof -
  obtain t y where p: "g_step (watched E) z = (t, y)" by (metis surj_pair)
  show ?thesis
    using assms p watched_result(3) [OF p]
    by (simp add: op_step_def topk_bare watched_fields bare_update hist_push_bare Let_def split: option.split)
qed

lemma gen_loop_bare:
  assumes "handle_of x = Some z"
  shows "gen_loop E m g r k (bare x) tail c = (case gen_loop (watched E) m g r k x tail c of (reason, n, y, c') \<Rightarrow> (reason, n, bare y, c'))"
  using assms
proof (induction r arbitrary: k x z tail c)
  case (Suc r)
  obtain t y where p: "g_step (watched E) z = (t, y)" by (metis surj_pair)
  note q = watched_result(3) [OF p]
  show ?case
  proof (cases t)
    case None
    then show ?thesis using Suc.prems p q by (simp add: bare_update)
  next
    case (Some u)
    define x' where "x' = snd (hist_push [u] (x\<lparr>handle_of := Some y\<rparr>))"
    define tail' where "tail' = (case g_token_str E (fst y) u of Some s \<Rightarrow> tail_push tail s | None \<Rightarrow> tail)"
    define stop where "stop = gen_stop m g u (g_token_str E (fst y) u) tail'"
    obtain ok c1 where w: "write_frame (gen_frame u stop (g_token_str E (fst y) u)) [] c = (ok, c1)" by fastforce
    have h: "handle_of x' = Some y" by (simp add: x'_def hist_push_def)
    have l: "snd (hist_push [u] (bare x\<lparr>handle_of := Some (fst y)\<rparr>)) = bare x'" by (simp add: hist_push_bare x'_def)
    show ?thesis
    proof (cases "length (hist x) \<ge> CTX_CAP - 1")
      case False
      have 1: "gen_loop (watched E) m g (Suc r) k x tail c =
          (if ok then if stop then (''stop'', k + 1, x', c1) else gen_loop (watched E) m g r (k + 1) x' tail' c1
           else (''client'', k, x', c1))"
        using False Suc.prems
        by (simp add: p Some watched_fields Let_def x'_def [symmetric] tail'_def [symmetric] stop_def [symmetric] w
            split: bool.split)
      have 2: "gen_loop E m g (Suc r) k (bare x) tail c =
          (if ok then if stop then (''stop'', k + 1, bare x', c1) else gen_loop E m g r (k + 1) (bare x') tail' c1
           else (''client'', k, bare x', c1))"
        using False Suc.prems
        by (simp add: q [unfolded Some] l Let_def tail'_def [symmetric] stop_def [symmetric] w split: bool.split)
      show ?thesis unfolding 1 2 using Suc.IH [OF h, of "k + 1" tail' c1] by simp
    qed simp
  qed
qed simp

lemma op_generate_bare:
  assumes "handle_of x = Some z"
  shows "op_generate E v m j (bare x) c = map_option (\<lambda>(ok, y, c'). (ok, bare y, c')) (op_generate (watched E) v m j x c)"
  by (simp add: op_generate_def gen_loop_bare [OF assms] split: option.split prod.split)

lemma op_reset_bare:
  assumes "handle_of x = Some z"
  shows "op_reset E (bare x) = map_prod id bare (op_reset (watched E) x)"
proof -
  obtain ok y where r: "g_reset (watched E) z = (ok, y)" by (metis surj_pair)
  show ?thesis using assms r watched_result(1) [OF r] by (simp add: op_reset_def Let_def bare_update)
qed

lemma op_unpin_bare:
  assumes "handle_of x = Some z"
  shows "op_unpin E (bare x) = map_prod id bare (op_unpin (watched E) x)"
proof -
  obtain ok y where r: "g_pin (watched E) z [] = (ok, y)" by (metis surj_pair)
  show ?thesis using assms r watched_result(4) [OF r] by (simp add: op_unpin_def bare_update split: bool.split)
qed

lemma op_pin_bare:
  assumes "\<And>x. xo = Some x \<Longrightarrow> handle_of x \<noteq> None"
  shows "op_pin E j (map_option bare xo) = map_prod id (map_option bare) (op_pin (watched E) j xo)"
proof (cases xo)
  case None
  then show ?thesis by (simp add: op_pin_def split: option.split)
next
  case (Some x)
  then obtain z where z: "handle_of x = Some z" using assms by blast
  show ?thesis
  proof (cases "to_unsigned 64 (json_num j (json_get j 0 ''n'') (Fin 0))")
    case (Some n)
    obtain ok y where p: "g_pin (watched E) z (take n (hist x)) = (ok, y)" by (metis surj_pair)
    show ?thesis
      using z Some \<open>xo = Some x\<close> p watched_result(4) [OF p] by (simp add: op_pin_def bare_update split: bool.split)
  qed (simp add: op_pin_def)
qed

subsection \<open>The session table\<close>

lemma bare_daemon_fields [simp]:
  "mo (bare_daemon d) = mo d" "mdl (bare_daemon d) = mdl d" "rt (bare_daemon d) = rt d" "chats (bare_daemon d) = chats d"
  "n_chats (bare_daemon d) = n_chats d" "vocab (bare_daemon d) = vocab d" "n_max (bare_daemon d) = n_max d"
  "idle_s (bare_daemon d) = idle_s d" "auth_token (bare_daemon d) = auth_token d" "need_hello (bare_daemon d) = need_hello d"
  "sesss (bare_daemon d) = map bare (sesss d)"
  by (simp_all add: bare_daemon_def)

lemma bare_daemon_update:
  "bare_daemon (set_sess i x d) = set_sess i (bare x) (bare_daemon d)" "bare_daemon (set_chat i y d) = set_chat i y (bare_daemon d)"
  "bare_daemon (d\<lparr>vocab := n\<rparr>) = (bare_daemon d)\<lparr>vocab := n\<rparr>"
  by (simp_all add: bare_daemon_def set_sess_def set_chat_def map_update)

lemma find_slot_map:
  assumes "n \<le> length xs" and "\<And>x. l (f x) = l' x" and "\<And>x. k (f x) = k' x"
  shows "find_slot l k n key (map f xs) = find_slot l' k' n key xs"
proof -
  have i: "map f xs ! i = f (xs ! i)" if "i < n" for i using that assms(1) by simp
  show ?thesis unfolding find_slot_def by (auto simp: i assms(2,3) intro!: find_cong split: option.split)
qed

lemma sess_find_bare:
  assumes "table_ok P d"
  shows "sess_find t key (bare_daemon d) = map_prod id bare_daemon (sess_find t key d)"
proof -
  have n: "n_max d \<le> length (sesss d)" using assms by (simp add: table_ok_def)
  have f: "find_slot live sid (n_max d) key (map bare (sesss d)) = find_slot live sid (n_max d) key (sesss d)"
    by (rule find_slot_map [OF n]) simp_all
  show ?thesis
    using n by (auto simp: sess_find_def f bare_daemon_update bare_update dest!: find_slot_Some split: option.split)
qed

lemma sess_pick_bare:
  assumes "n \<le> length xs"
  shows "sess_pick n (map bare xs) = sess_pick n xs"
proof -
  have i: "map bare xs ! i = bare (xs ! i)" if "i < n" for i using that assms by simp
  have f: "free_slot live n (map bare xs) = free_slot live n xs"
    unfolding free_slot_def by (auto simp: i intro!: find_cong)
  have "lru_slot used k (map bare xs) = lru_slot used k xs" if "1 \<le> k" "k \<le> n" for k
    using that
  proof (induction k rule: nat_induct_at_least)
    case base
    show ?case by (simp add: lru_slot_def)
  next
    case (Suc k)
    then have "lru_slot used k xs < n" using lru_slot_least [of k used xs] by linarith
    with Suc show ?case by (simp add: lru_slot_Suc i)
  qed
  then have "lru_slot used n (map bare xs) = lru_slot used n xs" by (cases "n = 0") (simp_all add: lru_slot_def)
  with f show ?thesis by (simp add: sess_pick_def slot_index_def cong: option.case_cong)
qed

lemma evict_bare:
  assumes "n_max d \<le> length (sesss d)"
  shows "sess_evict_idle t (bare_daemon d) = bare_daemon (sess_evict_idle t d)"
proof -
  have "foldl (\<lambda>d i. if live (sesss d ! i) \<and> t - used (sesss d ! i) > idle_s d then set_sess i no_sess d else d) (bare_daemon d) is
      = bare_daemon (foldl (\<lambda>d i. if live (sesss d ! i) \<and> t - used (sesss d ! i) > idle_s d then set_sess i no_sess d else d) d is)"
    if "set is \<subseteq> {..<length (sesss d)}" for "is"
    using that
  proof (induction "is" arbitrary: d)
    case (Cons i "is")
    have "set is \<subseteq> {..<length (sesss (set_sess i no_sess d))}" using Cons.prems by (simp add: set_sess_def)
    with Cons show ?case by (simp add: bare_daemon_update(1) [of i no_sess d, unfolded bare_update, symmetric])
  qed simp
  moreover have "set [0..<n_max d] \<subseteq> {..<length (sesss d)}" using assms by auto
  ultimately show ?thesis by (simp only: sess_evict_idle_def bare_daemon_fields)
qed

subsection \<open>Operations of the daemon\<close>

lemma op_open_bare:
  assumes "table_ok P d"
  shows "op_open E v j (bare_daemon d) = map_prod id bare_daemon (op_open (watched E) v j d)"
proof -
  define d0 where "d0 = sess_evict_idle (now v) d"
  have n: "n_max d \<le> length (sesss d)" using assms by (simp add: table_ok_def)
  have m: "1 \<le> n_max d0" using evict_idle_nth [OF n, of "now v"] assms by (simp add: d0_def table_ok_def)
  have n0: "n_max d0 \<le> length (sesss d0)" using evict_idle_nth [OF n] n by (simp add: d0_def)
  have i: "sess_pick (n_max d0) (sesss d0) < length (sesss d0)"
    using sess_table.pick_less [of "n_max d0" "sesss d0"] n0 m by simp
  obtain k d1 where s: "sess_slot d0 = (k, d1)" by fastforce
  have s': "sess_slot (bare_daemon d0) = (k, bare_daemon d1)"
    using s i by (auto simp: sess_slot_def sess_pick_bare [OF n0] bare_daemon_update bare_update Let_def split: if_splits)
  obtain ops bad where o1: "open_opts j = (ops, bad)" by fastforce
  obtain ok so where c: "g_create (watched E) (mdl d1) ops = (ok, so)" by fastforce
  then have c': "g_create E (mdl d1) ops = (ok, map_option fst so)" using watched_calls(5) [of E "mdl d1" ops] by simp
  show ?thesis
    unfolding op_open_def o1 prod.case evict_bare [OF n] d0_def [symmetric] s s'
    by (cases ok; cases so) (simp_all add: c c' bare_daemon_update bare_update watched_fields bare_new)
qed

lemma sess_at_bare: "xi = Some i \<Longrightarrow> i < length (sesss d) \<Longrightarrow> sess_at xi (bare_daemon d) = map_option bare (sess_at xi d)"
  by (simp add: sess_at_def)

lemma on_sess_bare:
  assumes "\<And>i. xi = Some i \<Longrightarrow> i < length (sesss d) \<and> f (bare (sesss d ! i)) = map_prod id bare (g (sesss d ! i))"
  shows "on_sess op f xi (bare_daemon d) = map_prod id bare_daemon (on_sess op g xi d)"
proof (cases xi)
  case (Some i)
  obtain r x where "g (sesss d ! i) = (r, x)" by fastforce
  with assms [OF Some] Some show ?thesis by (simp add: on_sess_def bare_daemon_update)
qed (simp add: on_sess_def)

lemma op_tokenize_bare:
  assumes "table_ok sess_ok d"
  shows "op_tokenize E j (bare_daemon d) = op_tokenize (watched E) j d"
proof -
  have i: "map bare (sesss d) ! i = bare (sesss d ! i)" if "i < n_max d" for i using that assms by (simp add: table_ok_def)
  have f: "find (\<lambda>i. live (map bare (sesss d) ! i)) [0..<n_max d] = find (\<lambda>i. live (sesss d ! i)) [0..<n_max d]"
    by (auto simp: i intro!: find_cong)
  define new where "new = \<lparr>max_seq_len = 16, temperature = Fin 0, top_p = Fin 0, top_k = 0, random_seed = 0\<rparr>"
  define so where "so = (case find (\<lambda>i. live (sesss d ! i)) [0..<n_max d] of Some i \<Rightarrow> handle_of (sesss d ! i)
     | None \<Rightarrow> (case g_create (watched E) (mdl d) new of (True, so) \<Rightarrow> so | (False, so) \<Rightarrow> None))"
  have "(case find (\<lambda>i. live (sesss d ! i)) [0..<n_max d] of Some i \<Rightarrow> handle_of (map bare (sesss d) ! i)
     | None \<Rightarrow> (case g_create E (mdl d) new of (True, so) \<Rightarrow> so | (False, so) \<Rightarrow> None)) = map_option fst so"
  proof (cases "find (\<lambda>i. live (sesss d ! i)) [0..<n_max d]")
    case None
    obtain ok o1 where c: "g_create (watched E) (mdl d) new = (ok, o1)" by fastforce
    then have "g_create E (mdl d) new = (ok, map_option fst o1)" using watched_calls(5) [of E "mdl d" new] by simp
    then show ?thesis by (cases ok) (simp_all add: so_def None c)
  next
    case (Some k)
    then have "k < n_max d" by (auto simp: find_Some_iff)
    then show ?thesis by (simp add: so_def Some i)
  qed
  then show ?thesis
    unfolding op_tokenize_def bare_daemon_fields f new_def [symmetric] so_def [symmetric]
    by (cases so) (simp_all add: watched_fields cong: option.case_cong if_cong)
qed

lemma pieces_bare: "g_token_str (watched E) z = g_token_str E (fst z)"
  by (rule watched_fields)

lemma op_str_bare:
  assumes "\<And>x. xo = Some x \<Longrightarrow> handle_of x \<noteq> None"
  shows "op_str E (map_option bare xo) body = op_str (watched E) xo body"
  using assms by (cases xo) (auto simp: op_str_def watched_fields)

lemma op_peek_bare:
  assumes "\<And>x. xo = Some x \<Longrightarrow> handle_of x \<noteq> None"
  shows "op_peek E j body (map_option bare xo) (bare_daemon d) = map_prod id bare_daemon (op_peek (watched E) j body xo d)"
proof (cases xo)
  case (Some x)
  then obtain z where "handle_of x = Some z" using assms by blast
  then show ?thesis
    by (simp add: op_peek_def Some watched_fields topk_bare bare_daemon_update Let_def split: option.split)
qed (simp add: op_peek_def)

text \<open>The slot a request names is a live one of the table.\<close>

definition names_live :: "nat option \<Rightarrow> ('m, 's, 'r, 'c) daemon \<Rightarrow> bool" where
  "names_live xi d \<longleftrightarrow> (\<forall>i. xi = Some i \<longrightarrow> i < n_max d \<and> live (sesss d ! i))"

lemma named_handle:
  assumes "table_ok sess_ok d" and "names_live (Some i) d"
  obtains z where "i < length (sesss d)" "handle_of (sesss d ! i) = Some z"
  using assms table_ok_nth [OF assms(1), of i] by (auto simp: names_live_def sess_ok_def table_ok_def)

lemma pin_op_bare:
  assumes "table_ok sess_ok d" and "names_live xi d"
  shows "pin_op E j xi (bare_daemon d) = map_prod id bare_daemon (pin_op (watched E) j xi d)"
proof (cases xi)
  case None
  obtain r where "op_pin (watched E) j None = (r, None)" using op_pin_none by (metis surj_pair)
  with op_pin_bare [of None E j] None show ?thesis by (simp add: pin_op_def sess_at_def)
next
  case (Some i)
  then obtain z where z: "i < length (sesss d)" "handle_of (sesss d ! i) = Some z"
    using assms by (auto elim: named_handle)
  obtain r xo where p: "op_pin (watched E) j (Some (sesss d ! i)) = (r, xo)" by fastforce
  then obtain x' where x': "xo = Some x'" using op_pin_slot by blast
  have "op_pin E j (Some (bare (sesss d ! i))) = (r, Some (bare x'))"
    using op_pin_bare [of "Some (sesss d ! i)" E j] p x' z(2) by simp
  then show ?thesis using z(1) p x' Some by (simp add: pin_op_def sess_at_def bare_daemon_update)
qed

lemma plain_op_bare:
  assumes "table_ok sess_ok d" and "names_live xi d"
  shows "plain_op E R b v j body op xi (bare_daemon d) = map_prod id bare_daemon (plain_op (watched E) R b v j body op xi d)"
proof -
  have at: "sess_at xi (bare_daemon d) = map_option bare (sess_at xi d)"
    using assms by (cases xi) (auto simp: sess_at_def elim: named_handle)
  have h: "handle_of x \<noteq> None" if "sess_at xi d = Some x" for x
    using that assms by (cases xi) (auto simp: sess_at_def elim: named_handle)
  have s: "on_sess op f xi (bare_daemon d) = map_prod id bare_daemon (on_sess op g xi d)"
    if "\<And>x z. handle_of x = Some z \<Longrightarrow> f (bare x) = map_prod id bare (g x)" for op f g
    by (rule on_sess_bare) (use assms that in \<open>auto elim: named_handle\<close>)
  have i: "op_info E b fmt (bare_daemon d) = op_info (watched E) b fmt d" for fmt
  proof -
    have "filter (\<lambda>i. live (map bare (sesss d) ! i)) [0..<n_max d] = filter (\<lambda>i. live (sesss d ! i)) [0..<n_max d]"
      by (rule filter_cong) (use assms(1) in \<open>auto simp: table_ok_def\<close>)
    then show ?thesis by (simp only: op_info_def bare_daemon_fields watched_fields)
  qed
  have c: "on_sess op (\<lambda>x. (Ok ok_hdr [], no_sess)) xi (bare_daemon d)
      = map_prod id bare_daemon (on_sess op (\<lambda>x. (Ok ok_hdr [], no_sess)) xi d)" for op
    by (rule s) (simp add: bare_update)
  note ops = c s [where f = "op_unpin E" and g = "op_unpin (watched E)", OF op_unpin_bare]
    s [where f = "op_prefill E (vocab d) body" and g = "op_prefill (watched E) (vocab d) body", OF op_prefill_bare]
    s [where f = "op_step E (mo d) j" and g = "op_step (watched E) (mo d) j", OF op_step_bare]
    s [where f = "op_reset E" and g = "op_reset (watched E)", OF op_reset_bare]
    op_open_bare [OF assms(1)] op_tokenize_bare [OF assms(1)] op_str_bare [OF h] op_peek_bare [OF h] pin_op_bare [OF assms]
  show ?thesis
    unfolding plain_op_def at i
    by (simp add: ops watched_fields option.case_distrib [of "map_prod id bare_daemon"] cong: option.case_cong)
qed

lemma finish_op_bare: "finish_op (r, bare_daemon d) c = map_option (\<lambda>(ok, d', c'). (ok, bare_daemon d', c')) (finish_op (r, d) c)"
  by (cases "answer r c") (auto simp: finish_op_def split: prod.split)

lemma finish_map_bare:
  "finish_op (map_prod id bare_daemon rd) c = map_option (\<lambda>(ok, d', c'). (ok, bare_daemon d', c')) (finish_op rd c)"
  by (cases rd) (simp add: finish_op_bare)

lemma chat_op_bare: "chat_op R v j op ci (bare_daemon d) = map_prod id bare_daemon (chat_op R v j op ci d)"
proof -
  have o: "op_chat_open R v j (bare_daemon d) = map_prod id bare_daemon (op_chat_open R v j d)"
    by (cases "free_slot chat_live (n_chats d) (chats d) = None")
      (auto simp: op_chat_open_def Let_def bare_daemon_update set_chat_def split: option.split prod.split)
  show ?thesis by (auto simp: chat_op_def o bare_daemon_update split: option.split prod.split)
qed

lemma chat_find_bare: "chat_find t key (bare_daemon d) = map_prod id bare_daemon (chat_find t key d)"
  by (simp add: chat_find_def bare_daemon_update split: option.split)

subsection \<open>Requests and connections\<close>

definition bare_result ::
    "(bool \<times> ('m, 's \<times> standing, 'r, 'c) daemon \<times> conn) option \<Rightarrow> (bool \<times> ('m, 's, 'r, 'c) daemon \<times> conn) option" where
  "bare_result = map_option (\<lambda>(ok, d, c). (ok, bare_daemon d, c))"

lemma dispatch_bare:
  assumes "table_ok sess_ok d"
  shows "dispatch E R b v j body op (bare_daemon d) c = bare_result (dispatch (watched E) R b v j body op d c)"
proof -
  obtain xi d1 where f: "sess_find (now v) (json_strdup j (json_get j 0 ''session'')) d = (xi, d1)" by fastforce
  have f': "sess_find (now v) (json_strdup j (json_get j 0 ''session'')) (bare_daemon d) = (xi, bare_daemon d1)"
    by (simp add: sess_find_bare [OF assms] f)
  from table_ok_find [OF assms kept_used [OF kept_sess_ok] f] have d1: "table_ok sess_ok d1" "names_live xi d1" by (auto simp: names_live_def)
  obtain ci d2 where g: "chat_find (now v) (json_strdup j (json_get j 0 ''chat'')) d1 = (ci, d2)" by fastforce
  have g': "chat_find (now v) (json_strdup j (json_get j 0 ''chat'')) (bare_daemon d1) = (ci, bare_daemon d2)"
    by (simp add: chat_find_bare g)
  have gen: "map_option (\<lambda>(ok, x, c'). (ok, set_sess i x (bare_daemon d1), c')) (op_generate E v (mo d1) j (map bare (sesss d1) ! i) c)
      = bare_result (map_option (\<lambda>(ok, x, c'). (ok, set_sess i x d1, c')) (op_generate (watched E) v (mo d1) j (sesss d1 ! i) c))"
    if i: "xi = Some i" for i
  proof -
    obtain z where z: "i < length (sesss d1)" "handle_of (sesss d1 ! i) = Some z"
      using d1 i by (auto elim: named_handle)
    show ?thesis
      by (simp add: z(1) op_generate_bare [OF z(2)] bare_result_def option.map_comp comp_def bare_daemon_update split_def)
  qed
  have send: "map_option (\<lambda>(ok, x, c'). (ok, set_chat i x (bare_daemon d2), c')) o1
      = bare_result (map_option (\<lambda>(ok, x, c'). (ok, set_chat i x d2, c')) o1)" for i o1
    by (simp add: bare_result_def option.map_comp comp_def bare_daemon_update split_def)
  have finish: "finish_op (map_prod id bare_daemon rd) c = bare_result (finish_op rd c)" "finish_op (r, bare_daemon e) c = bare_result (finish_op (r, e) c)"
    for rd r e by (simp_all add: finish_map_bare finish_op_bare bare_result_def)
  show ?thesis
    unfolding dispatch_def f f' g g' prod.case bare_daemon_fields plain_op_bare [OF d1] chat_op_bare
    by (simp add: gen send finish split: option.split)
qed

lemma handle_bare:
  assumes "table_ok sess_ok d"
  shows "handle E R b v hdr body (bare_daemon d) c = bare_result (handle (watched E) R b v hdr body d c)"
proof -
  have f: "finish_op (r, bare_daemon d) k = bare_result (finish_op (r, d) k)" for r k by (simp add: finish_op_bare bare_result_def)
  have s: "bare_result (Some (ok, d, k)) = Some (ok, bare_daemon d, k)" for ok k by (simp add: bare_result_def)
  show ?thesis
    unfolding handle_def Let_def bare_daemon_fields by (auto simp: f s dispatch_bare [OF assms] split: option.split)
qed

lemma serve_conn_bare:
  assumes "table_ok sess_ok d"
  shows "serve_conn E R b vs n (bare_daemon d) c = map_option (map_prod bare_daemon id) (serve_conn (watched E) R b vs n d c)"
  using assms
proof (induction "watched E" R b vs n d c rule: serve_conn.induct)
  case (1 R b vs n d c)
  obtain f c1 where f: "read_frame c = (f, c1)" by fastforce
  show ?case
  proof (cases f)
    case (Frame hdr body)
    note h = handle_bare [OF "1.prems", of E R b "vs n" "cstr hdr" body c1]
    show ?thesis
    proof (cases "handle (watched E) R b (vs n) (cstr hdr) body d c1")
      case None
      then show ?thesis using f Frame h by (simp add: serve_conn.simps [of _ R b vs n _ c] bare_result_def)
    next
      case (Some x)
      obtain ok d1 c2 where x: "x = (ok, d1, c2)" by (cases x)
      have h': "handle E R b (vs n) (cstr hdr) body (bare_daemon d) c1 = Some (ok, bare_daemon d1, c2)"
        using h Some x by (simp add: bare_result_def)
      have d1: "table_ok sess_ok d1" using table_ok_handle [OF "1.prems" kept_sess_ok] Some x by blast
      show ?thesis
      proof (cases "\<not> ok \<or> broken c2")
        case True
        then show ?thesis using f Frame h' Some x by (simp add: serve_conn.simps [of _ R b vs n _ c])
      next
        case False
        from "1.hyps" [OF f [symmetric] Frame Some x [symmetric] refl False d1] show ?thesis
          using f Frame h' Some x False by (simp add: serve_conn.simps [of _ R b vs n _ c])
      qed
    qed
  qed (use f in \<open>simp_all add: serve_conn.simps [of _ R b vs n _ c]\<close>)
qed

lemma serve_conns_bare:
  "table_ok sess_ok d \<Longrightarrow> serve_conns E R b vs k (bare_daemon d) cs = map_option bare_daemon (serve_conns (watched E) R b vs k d cs)"
proof (induction cs arbitrary: k d)
  case (Cons c cs)
  then show ?case
    using table_ok_serve [OF _ Cons.prems kept_sess_ok, of "watched E" R b "vs k" 0 c]
    by (auto simp: serve_conn_bare [OF Cons.prems] split: option.split)
qed simp

text \<open>Any daemon is one with notes: at first there is nothing to note.\<close>

definition noted :: "('m, 's, 'r, 'c) daemon \<Rightarrow> ('m, 's \<times> standing, 'r, 'c) daemon" where
  "noted d = \<lparr>mo = mo d, mdl = mdl d, rt = rt d, chats = chats d, n_chats = n_chats d, vocab = vocab d,
     sesss = map (\<lambda>x. \<lparr>live = live x, sid = sid x, handle_of = map_option (\<lambda>s. (s, In_Step)) (handle_of x), hist = hist x,
                       pinned = pinned x, used = used x\<rparr>) (sesss d),
     n_max = n_max d, idle_s = idle_s d, auth_token = auth_token d, need_hello = need_hello d\<rparr>"

lemma bare_noted: "bare_daemon (noted d) = (d :: ('m, 's, 'r, 'c) daemon)"
proof -
  have "map (\<lambda>x. \<lparr>live = live x, sid = sid x, handle_of = handle_of x, hist = hist x, pinned = pinned x, used = used x\<rparr>) xs = xs"
    for xs :: "'s sess list" by (rule map_idI) simp
  then show ?thesis by (simp add: bare_daemon_def noted_def bare_new option.map_comp comp_def option.map_ident)
qed

lemma noted_none: "no_sessions d \<Longrightarrow> no_sessions (noted d)"
  by (simp add: no_sessions_def noted_def no_sess_def)

text \<open>So the history of a session is the cache as long as its note says that no call failed, and its pinned part
  is the engine's pin whatever failed, a pin apart.\<close>

lemma served_mirror:
  assumes "serve_conns E R b vs k d cs = Some e" and "engine_keeps E kv pn" and "no_sessions d"
    and "i < n_max e" and "live (sesss e ! i)"
  shows "\<exists>e' s w. serve_conns (watched E) R b vs k (noted d) cs = Some e' \<and> e = bare_daemon e'
     \<and> handle_of (sesss e' ! i) = Some (s, w) \<and> handle_of (sesss e ! i) = Some s
     \<and> (w = In_Step \<longrightarrow> kv s = hist (sesss e ! i))
     \<and> (w \<noteq> Lost \<longrightarrow> pn s = take (pinned (sesss e ! i)) (hist (sesss e ! i)))
     \<and> length (hist (sesss e ! i)) < CTX_CAP \<and> pinned (sesss e ! i) \<le> length (hist (sesss e ! i))"
proof -
  have n: "no_sessions (noted d)" using noted_none [OF assms(3)] .
  have ok: "table_ok sess_ok (noted d)" using table_ok_none [OF n, where P = sess_ok] sess_ok_none by blast
  obtain e' where e': "serve_conns (watched E) R b vs k (noted d) cs = Some e'" "e = bare_daemon e'"
    using assms(1) serve_conns_bare [OF ok, of E R b vs k cs]
    by (cases "serve_conns (watched E) R b vs k (noted d) cs") (auto simp: bare_noted)
  have "table_ok (\<lambda>x. sess_ok x \<and> mirror kv pn x) (noted d)"
    by (rule table_ok_none [OF n]) (simp add: sess_ok_none mirror_none)
  then have t: "table_ok (\<lambda>x. sess_ok x \<and> mirror kv pn x) e'"
    using table_ok_serves [OF e'(1)] kept_mirror [OF assms(2)] by blast
  have i: "i < n_max e'" "i < length (sesss e')" using assms(4) t by (simp_all add: e'(2) table_ok_def)
  then have x: "sesss e ! i = bare (sesss e' ! i)" by (simp add: e'(2))
  have "sess_ok (sesss e' ! i)" "mirror kv pn (sesss e' ! i)" using table_ok_nth [OF t i(1)] by blast+
  then show ?thesis
    using assms(5) e' unfolding x by (fastforce simp: sess_ok_def mirror_def follows_def)
qed

text \<open>With an engine none of whose calls ever fails, no session is ever behind.\<close>

definition steady :: "('m, 's) engine \<Rightarrow> bool" where
  "steady E \<longleftrightarrow> (\<forall>s. fst (g_reset E s)) \<and> (\<forall>s ts. fst (g_prefill E s ts)) \<and> (\<forall>s. fst (g_step E s) \<noteq> None)
     \<and> (\<forall>s ts. fst (g_pin E s ts))"

definition in_step :: "('s \<times> standing) sess \<Rightarrow> bool" where
  "in_step x \<longleftrightarrow> (live x \<longrightarrow> (\<exists>s. handle_of x = Some (s, In_Step)))"

lemma steady_calls:
  assumes "steady E" and "snd z = In_Step"
  shows "g_reset (watched E) z = (ok, y) \<Longrightarrow> ok \<and> (\<exists>s. y = (s, In_Step))"
    and "g_prefill (watched E) z ts = (ok, y) \<Longrightarrow> ok \<and> (\<exists>s. y = (s, In_Step))"
    and "g_step (watched E) z = (t, y) \<Longrightarrow> \<exists>s. y = (s, In_Step)"
    and "g_pin (watched E) z ts = (ok, y) \<Longrightarrow> \<exists>s. y = (s, In_Step)"
  using assms by (auto simp: watched_def steady_def split: prod.splits) (metis fst_conv)+

lemma tail_in_step:
  assumes "prefill_tail (watched E) ids k x = (r, x')" and "steady E" and "handle_of x = Some z" and "snd z = In_Step"
  shows "in_step x'"
proof -
  obtain ok y where p: "g_prefill (watched E) z (drop k ids) = (ok, y)" by (metis surj_pair)
  show ?thesis
    using assms(1,3,4) p steady_calls(2) [OF assms(2,4) p]
    by (cases z) (auto simp: prefill_tail_def in_step_def hist_push_def Let_def split: if_splits)
qed

lemma kept_in_step:
  assumes E: "steady E"
  shows "kept_by (watched E) in_step"
proof (rule kept_byI, goal_cases)
  case 1 show ?case by (simp add: in_step_def no_sess_def)
next
  case 2 then show ?case by (simp add: in_step_def)
next
  case 3 then show ?case by (auto simp: in_step_def watched_def map_prod_def split: prod.splits)
next
  case (4 x r x')
  then obtain z where z: "handle_of x = Some z" "snd z = In_Step" by (auto simp: in_step_def)
  show ?case using 4 z steady_calls(4) [OF E z(2), of "[]"]
    by (auto simp: op_unpin_def in_step_def split: prod.splits bool.splits)
next
  case (5 x r x')
  then obtain z where z: "handle_of x = Some z" "snd z = In_Step" by (auto simp: in_step_def)
  obtain ok y where p: "g_reset (watched E) z = (ok, y)" by (metis surj_pair)
  show ?case using 5 z(1) p steady_calls(1) [OF E z(2) p] by (auto simp: op_reset_def in_step_def Let_def)
next
  case (6 x r x' voc body)
  then obtain z where z: "handle_of x = Some z" "snd z = In_Step" by (auto simp: in_step_def)
  have "in_step y" if "prefill_sess (watched E) ids x = (r, y)" for ids y
    using that
  proof (cases rule: prefill_sess_cases)
    case append
    then show ?thesis using tail_in_step [OF _ E z] by blast
  next
    case (failed s)
    then have "g_reset (watched E) z = (False, s)" using z(1) by simp
    then show ?thesis using steady_calls(1) [OF E z(2)] by blast
  next
    case (reset s)
    then have "g_reset (watched E) z = (True, s)" using z(1) by simp
    from steady_calls(1) [OF E z(2) this] have "snd s = In_Step" by auto
    then show ?thesis by (intro tail_in_step [OF reset(3) E]) simp_all
  qed (use 6 in simp_all)
  then show ?case using 6 by (auto simp: op_prefill_def Let_def split: if_splits)
next
  case (7 x r x' m j)
  then obtain z where z: "handle_of x = Some z" "snd z = In_Step" by (auto simp: in_step_def)
  show ?case using op_step_cases [OF 7(3)] 7(1) z steady_calls(3) [OF E z(2)] by (auto simp: in_step_def)
next
  case (8 x r x' j)
  then obtain z where z: "handle_of x = Some z" "snd z = In_Step" by (auto simp: in_step_def)
  show ?case using 8 z steady_calls(4) [OF E z(2)]
    by (auto simp: op_pin_def in_step_def split: option.splits if_splits prod.splits bool.splits)
next
  case (9 x v m j c ok x' c')
  show ?case
  proof (cases "hist x = []")
    case True
    with 9 show ?thesis by (auto simp: op_generate_def split: prod.splits)
  next
    case False
    with 9(3) obtain g reason k c1 where "gen_loop (watched E) m g (g_max g) 0 x [] c = (reason, k, x', c1)"
      by (auto simp: op_generate_def split: option.splits prod.splits if_splits)
    then have "in_step x' \<and> live x'"
      by (rule gen_loop_inv [where Q = "\<lambda>_ y. in_step y \<and> live y"])
        (use 9(1,2) steady_calls(3) [OF E] in \<open>(fastforce simp: in_step_def)+\<close>)
    then show ?thesis ..
  qed
qed

lemma steady_in_step:
  assumes "serve_conns (watched E) R b vs k d cs = Some e" and "no_sessions d" and "steady E" and "i < n_max e" and "live (sesss e ! i)"
  shows "\<exists>s. handle_of (sesss e ! i) = Some (s, In_Step)"
proof -
  have "table_ok in_step d" using table_ok_none [OF assms(2), where P = in_step] by (simp add: in_step_def no_sess_def)
  from table_ok_nth [OF table_ok_serves [OF assms(1) this kept_in_step [OF assms(3)]] assms(4)] assms(5)
  show ?thesis by (simp add: in_step_def)
qed

end
