(* ===== verification/Client.thy ===== *)
theory Client
  imports Json Framing
begin

section \<open>The client (src/clients/geistd_client.h)\<close>

text \<open>
  The calls of the single-header client. \<open>client\<close> is \<open>struct geistd\<close> with its socket: while it is
  open, \<open>cl_in\<close> holds the bytes that will arrive before the peer closes, the deadline passes or
  the caller cancels, \<open>cl_room\<close> the number of bytes that will still be taken, and \<open>cl_out\<close> what
  was written. The environment of the connects to come is \<open>cl_net\<close>: for each, nothing (it fails)
  or the two numbers above. A call returns a value (\<open>Inr\<close>) or fails with \<open>geistd_error\<close> set.
  Allocations succeed.
\<close>

record client =
  cl_token :: string
  cl_err :: string
  cl_open :: bool
  cl_in :: string
  cl_room :: nat
  cl_out :: string
  cl_net :: "(string \<times> nat) option list"
  cl_hdr :: string
  cl_body :: string
  cl_tok :: "jsmntok_t list"
  cl_ntok :: int

text \<open>\<open>gd_fail\<close>: the message, a closed socket, and \<open>-1\<close>, here \<open>False\<close>.\<close>

definition gd_fail :: "string \<Rightarrow> client \<Rightarrow> bool \<times> client" where
  "gd_fail msg g = (False, g\<lparr>cl_err := take 255 msg, cl_open := False\<rparr>)"

definition gd_write :: "string \<Rightarrow> client \<Rightarrow> bool \<times> client" where
  "gd_write buf g =
     (if length buf \<le> cl_room g then
        (True, g\<lparr>cl_out := cl_out g @ buf, cl_room := cl_room g - length buf\<rparr>)
      else (False, g\<lparr>cl_out := cl_out g @ take (cl_room g) buf, cl_room := 0\<rparr>))"

definition gd_read :: "nat \<Rightarrow> client \<Rightarrow> string option \<times> client" where
  "gd_read n g =
     (if n \<le> length (cl_in g) then (Some (take n (cl_in g)), g\<lparr>cl_in := drop n (cl_in g)\<rparr>)
      else (None, g\<lparr>cl_in := []\<rparr>))"

definition gd_send :: "string \<Rightarrow> string \<Rightarrow> client \<Rightarrow> bool \<times> client" where
  "gd_send hdr body g =
     (if hdr = [] \<or> length hdr > 64 * 1024 \<or> length body > 16 * 1024 * 1024 then (False, g)
      else
        (case gd_write (gd_wr (length hdr) @ gd_wr (length body)) g of
           (False, g1) \<Rightarrow> (False, g1)
         | (True, g1) \<Rightarrow>
             (case gd_write hdr g1 of
                (False, g2) \<Rightarrow> (False, g2)
              | (True, g2) \<Rightarrow> if body = [] then (True, g2) else gd_write body g2)))"

text \<open>The header is a C string from here on, and the tokens are those of all its \<open>hl\<close> bytes.\<close>

definition gd_recv :: "client \<Rightarrow> bool \<times> client" where
  "gd_recv g =
     (case gd_read 8 g of
        (None, g1) \<Rightarrow> gd_fail ''connection closed by geistd'' g1
      | (Some pre, g1) \<Rightarrow>
          let hl = gd_rd pre; bl = gd_rd (drop 4 pre) in
          if hl = 0 \<or> hl > 64 * 1024 \<or> bl > 16 * 1024 * 1024 then gd_fail ''bad frame from geistd'' g1
          else
            (case gd_read hl g1 of
               (None, g2) \<Rightarrow> gd_fail ''short frame from geistd'' g2
             | (Some hdr, g2) \<Rightarrow>
                 (case (if bl = 0 then (Some [], g2) else gd_read bl g2) of
                    (None, g3) \<Rightarrow> gd_fail ''short frame from geistd'' g3
                  | (Some body, g3) \<Rightarrow>
                      (case jsmn_parse hdr 4096 of
                         Inl e \<Rightarrow>
                           gd_fail ''unparsable header from geistd''
                             (g3\<lparr>cl_hdr := hdr, cl_body := body, cl_tok := [], cl_ntok := -1\<rparr>)
                       | Inr (n, ts) \<Rightarrow>
                           let g4 = g3\<lparr>cl_hdr := hdr, cl_body := body, cl_tok := ts, cl_ntok := n\<rparr> in
                           if n < 1 \<or> tok_type (ts ! 0) \<noteq> JSMN_OBJECT
                           then gd_fail ''unparsable header from geistd'' g4
                           else (True, g4)))))"

subsection \<open>Reading a reply\<close>

text \<open>The bytes of a token of the reply, and the text from a token on.\<close>

definition gd_text :: "client \<Rightarrow> int \<Rightarrow> string" where
  "gd_text g t = take (nat (tok_end (cl_tok g ! nat t) - tok_start (cl_tok g ! nat t)))
                   (drop (nat (tok_start (cl_tok g ! nat t))) (cl_hdr g))"

definition gd_rest :: "client \<Rightarrow> int \<Rightarrow> string" where
  "gd_rest g t = drop (nat (tok_start (cl_tok g ! nat t))) (cl_hdr g)"

definition gd_key_at :: "client \<Rightarrow> string \<Rightarrow> nat \<Rightarrow> bool" where
  "gd_key_at g key i \<longleftrightarrow>
     tok_parent (cl_tok g ! i) = 0 \<and> tok_type (cl_tok g ! i) = JSMN_STRING
     \<and> tok_end (cl_tok g ! i) - tok_start (cl_tok g ! i) = int (length key)
     \<and> gd_text g (int i) = key \<and> int i + 1 < cl_ntok g"

definition gd_find :: "client \<Rightarrow> string \<Rightarrow> int" where
  "gd_find g key = (case find (gd_key_at g key) [1..<nat (cl_ntok g)] of None \<Rightarrow> -1 | Some i \<Rightarrow> int i + 1)"

text \<open>Whether a member is there and starts with the byte \<open>t\<close>, as \<open>true\<close> does.\<close>

definition gd_true :: "client \<Rightarrow> string \<Rightarrow> bool" where
  "gd_true g key \<longleftrightarrow> gd_find g key \<ge> 0 \<and> gd_rest g (gd_find g key) \<noteq> []
     \<and> hd (gd_rest g (gd_find g key)) = CHR ''t''"

definition gd_check_ok :: "client \<Rightarrow> bool \<times> client" where
  "gd_check_ok g =
     (if gd_true g ''ok'' then (True, g)
      else
        (False, g\<lparr>cl_err := take 255 (if gd_find g ''error'' \<ge> 0 then cstr (gd_text g (gd_find g ''error''))
                                      else ''geistd: not ok''), cl_open := False\<rparr>))"

text \<open>\<open>strtoul(s, nullptr, 10)\<close> with 64 bits.\<close>

definition strtoul10 :: "string \<Rightarrow> nat" where
  "strtoul10 s =
     (let s1 = dropWhile (\<lambda>c. c = CHR '' '' \<or> (9 \<le> byte c \<and> byte c \<le> 13)) s;
          neg = (s1 \<noteq> [] \<and> hd s1 = CHR ''-'');
          s2 = (if s1 \<noteq> [] \<and> (hd s1 = CHR ''-'' \<or> hd s1 = CHR ''+'') then tl s1 else s1);
          v = fst (digits 0 s2)
      in if v \<ge> 2 ^ 64 then 2 ^ 64 - 1 else if neg then (2 ^ 64 - v) mod 2 ^ 64 else v)"

text \<open>\<open>(int32_t) strtol(s, nullptr, 10)\<close>.\<close>

definition strtol32 :: "string \<Rightarrow> int" where
  "strtol32 s =
     (let s1 = dropWhile (\<lambda>c. c = CHR '' '' \<or> (9 \<le> byte c \<and> byte c \<le> 13)) s;
          neg = (s1 \<noteq> [] \<and> hd s1 = CHR ''-'');
          s2 = (if s1 \<noteq> [] \<and> (hd s1 = CHR ''-'' \<or> hd s1 = CHR ''+'') then tl s1 else s1);
          v = int (fst (digits 0 s2));
          w = (if neg then max (- (2 ^ 63)) (- v) else min (2 ^ 63 - 1) v)
      in sint (word_of_int w :: 32 word))"

definition gd_num :: "client \<Rightarrow> string \<Rightarrow> nat" where
  "gd_num g key = (if gd_find g key < 0 then 0 else strtoul10 (gd_rest g (gd_find g key)))"

definition gd_real :: "client \<Rightarrow> string \<Rightarrow> dbl" where
  "gd_real g key = (if gd_find g key < 0 then Fin (-1) else strtod (gd_rest g (gd_find g key)))"

definition gd_copy :: "client \<Rightarrow> string \<Rightarrow> nat \<Rightarrow> string" where
  "gd_copy g key cap = (if gd_find g key < 0 then [] else take (cap - 1) (cstr (gd_text g (gd_find g key))))"

definition gd_str_at :: "client \<Rightarrow> int \<Rightarrow> bool" where
  "gd_str_at g t \<longleftrightarrow> tok_type (cl_tok g ! nat t) = JSMN_STRING"

subsection \<open>One round trip\<close>

definition hello_hdr :: "string \<Rightarrow> string" where
  \<open>hello_hdr tk = ''{"op":"hello","token":"'' @ tk @ ''"}''\<close>

definition gd_connect :: "client \<Rightarrow> bool \<times> client" where
  "gd_connect g =
     (case cl_net g of
        (Some (inp, room) # net) \<Rightarrow>
          let g1 = g\<lparr>cl_open := True, cl_in := inp, cl_room := room, cl_out := [], cl_net := net\<rparr> in
          if cl_token g = [] then (True, g1)
          else
            (case gd_send (hello_hdr (cl_token g)) [] g1 of
               (False, g2) \<Rightarrow> (False, g2)
             | (True, g2) \<Rightarrow>
                 (case gd_recv g2 of (False, g3) \<Rightarrow> (False, g3) | (True, g3) \<Rightarrow> gd_check_ok g3))
      | net \<Rightarrow> gd_fail ''connect failed'' (g\<lparr>cl_net := tl net\<rparr>))"

definition gd_call :: "string \<Rightarrow> string \<Rightarrow> client \<Rightarrow> bool \<times> client" where
  "gd_call hdr body g =
     (case gd_connect g of
        (False, g1) \<Rightarrow> (False, g1)
      | (True, g1) \<Rightarrow>
          (case gd_send hdr body g1 of
             (False, g2) \<Rightarrow> gd_fail ''send failed'' g2
           | (True, g2) \<Rightarrow>
               (case gd_recv g2 of
                  (False, g3) \<Rightarrow> (False, g3)
                | (True, g3) \<Rightarrow> (case gd_check_ok g3 of (rc, g4) \<Rightarrow> (rc, g4\<lparr>cl_open := False\<rparr>)))))"

subsection \<open>Sessions\<close>

text \<open>\<open>snprintf\<close> into a buffer of \<open>cap\<close> bytes.\<close>

definition fmt :: "nat \<Rightarrow> string \<Rightarrow> string" where
  "fmt cap s = take (cap - 1) s"

text \<open>A call whose reply is then read by \<open>f\<close>.\<close>

definition gd_then ::
    "string \<Rightarrow> string \<Rightarrow> (client \<Rightarrow> 'a option \<times> client) \<Rightarrow> client \<Rightarrow> 'a option \<times> client" where
  "gd_then hdr body f g = (case gd_call hdr body g of (False, g1) \<Rightarrow> (None, g1) | (True, g1) \<Rightarrow> f g1)"

definition gd_none :: "string \<Rightarrow> client \<Rightarrow> 'a option \<times> client" where
  "gd_none msg g = (None, snd (gd_fail msg g))"

definition geistd_info :: "nat \<Rightarrow> client \<Rightarrow> string option \<times> client" where
  \<open>geistd_info cap =
     gd_then ''{"op":"info"}'' []
       (\<lambda>g. if length (cl_hdr g) \<ge> cap then gd_none ''info buffer too small'' g
            else (Some (cstr (cl_hdr g)), g))\<close>

text \<open>The two numbers are printed by the library with \<open>%g\<close>.\<close>

definition geistd_open :: "string \<Rightarrow> string \<Rightarrow> int \<Rightarrow> nat \<Rightarrow> client \<Rightarrow> string option \<times> client" where
  \<open>geistd_open temp topp k seed =
     gd_then (fmt 200 (''{"op":"open","temperature":'' @ temp @ '',"top_p":'' @ topp @ '',"top_k":'' @ deci k
                       @ '',"seed":'' @ dec seed @ ''}'')) []
       (\<lambda>g. let t = gd_find g ''session'' in
            if t < 0 \<or> tok_end (cl_tok g ! nat t) - tok_start (cl_tok g ! nat t) \<noteq> 16
            then gd_none ''no session id in reply'' g else (Some (gd_text g t), g))\<close>

definition sess_hdr :: "string \<Rightarrow> string \<Rightarrow> string" where
  \<open>sess_hdr op k = ''{"op":"'' @ op @ ''","session":"'' @ k @ ''"}''\<close>

definition gd_simple :: "string \<Rightarrow> string \<Rightarrow> client \<Rightarrow> bool \<times> client" where
  "gd_simple op k = gd_call (fmt 100 (sess_hdr op k)) []"

definition geistd_close_session :: "string \<Rightarrow> client \<Rightarrow> bool \<times> client" where
  "geistd_close_session = gd_simple ''close''"

definition geistd_reset :: "string \<Rightarrow> client \<Rightarrow> bool \<times> client" where
  "geistd_reset = gd_simple ''reset''"

text \<open>The int32 of a body.\<close>

definition body_ids :: "string \<Rightarrow> int list" where
  "body_ids b = map (\<lambda>k. sint (rd_u32 (take 4 (drop (4 * k) b)))) [0..<length b div 4]"

definition ids_body :: "int list \<Rightarrow> string" where
  "ids_body ids = concat (map (\<lambda>i. wr_u32 (word_of_int i)) ids)"

definition geistd_tokenize :: "string \<Rightarrow> nat \<Rightarrow> client \<Rightarrow> int list option \<times> client" where
  \<open>geistd_tokenize text cap g =
     (if length text > 64 * 1024 then gd_none ''text too long'' g
      else
        gd_then (''{"op":"tokenize","text":"'' @ concat (map tok_esc text) @ ''"}'') []
          (\<lambda>g. if length (cl_body g) mod 4 \<noteq> 0 then gd_none ''misaligned tokens'' g
               else if length (cl_body g) div 4 > cap then gd_none ''too many tokens for the buffer'' g
               else (Some (body_ids (cl_body g)), g)) g)\<close>

definition geistd_prefill :: "string \<Rightarrow> int list \<Rightarrow> client \<Rightarrow> (nat \<times> nat) option \<times> client" where
  "geistd_prefill k ids =
     gd_then (fmt 100 (sess_hdr ''prefill'' k)) (ids_body ids)
       (\<lambda>g. (Some (gd_num g ''prefilled'', gd_num g ''reused''), g))"

definition geistd_step :: "string \<Rightarrow> client \<Rightarrow> (int \<times> bool) option \<times> client" where
  "geistd_step k =
     gd_then (fmt 100 (sess_hdr ''step'' k)) []
       (\<lambda>g. if gd_find g ''token'' < 0 then gd_none ''no token in reply'' g
            else (Some (strtol32 (gd_rest g (gd_find g ''token'')), gd_true g ''stop''), g))"

text \<open>The direct children of the array at token \<open>t\<close>, at most \<open>m\<close> of them.\<close>

definition gd_items :: "client \<Rightarrow> int \<Rightarrow> nat \<Rightarrow> int list" where
  "gd_items g t m = take m (filter (\<lambda>i. tok_parent (cl_tok g ! nat i) = t) (map int [nat t + 1..<nat (cl_ntok g)]))"

definition gd_is_array :: "client \<Rightarrow> int \<Rightarrow> bool" where
  "gd_is_array g t \<longleftrightarrow> t \<ge> 0 \<and> tok_type (cl_tok g ! nat t) = JSMN_ARRAY"

definition geistd_peek_logprobs :: "string \<Rightarrow> int list \<Rightarrow> client \<Rightarrow> dbl list option \<times> client" where
  "geistd_peek_logprobs k ids =
     gd_then (fmt 100 (sess_hdr ''peek'' k)) (ids_body ids)
       (\<lambda>g. let t = gd_find g ''logprobs'' in
            if \<not> gd_is_array g t then gd_none ''no logprobs in reply'' g
            else let out = map (\<lambda>i. strtod (gd_rest g i)) (gd_items g t (length ids)) in
                 if length out = length ids then (Some out, g) else gd_none ''short logprobs'' g)"

definition geistd_peek_full :: "string \<Rightarrow> nat \<Rightarrow> client \<Rightarrow> string option \<times> client" where
  \<open>geistd_peek_full k cap =
     gd_then (fmt 120 (''{"op":"peek","session":"'' @ k @ ''","full":true}'')) []
       (\<lambda>g. let n = length (cl_body g) div 4 in
            if length (cl_body g) mod 4 \<noteq> 0 then gd_none ''misaligned logits'' g
            else if n = 0 \<or> n > cap then gd_none ''logit vector does not fit'' g
            else (Some (cl_body g), g))\<close>

text \<open>A piece: nothing for a control token, and nothing where \<open>gd_unescape\<close> fails.\<close>

definition gd_piece :: "client \<Rightarrow> int \<Rightarrow> string option" where
  "gd_piece g i = (if gd_str_at g i then map_option cstr (gd_unescape (gd_text g i)) else None)"

definition CHUNK :: nat where "CHUNK = 2048"

function geistd_strs :: "string \<Rightarrow> int list \<Rightarrow> client \<Rightarrow> string option list option \<times> client" where
  "geistd_strs k ids g =
     (if ids = [] then (Some [], g)
      else
        (case gd_call (fmt 100 (sess_hdr ''str'' k)) (ids_body (take CHUNK ids)) g of
           (False, g1) \<Rightarrow> (None, g1)
         | (True, g1) \<Rightarrow>
             let t = gd_find g1 ''pieces'' in
             if \<not> gd_is_array g1 t then gd_none ''no pieces in reply'' g1
             else
               let out = map (gd_piece g1) (gd_items g1 t (length (take CHUNK ids))) in
               if length out \<noteq> length (take CHUNK ids) then gd_none ''short pieces'' g1
               else (case geistd_strs k (drop CHUNK ids) g1 of
                       (None, g2) \<Rightarrow> (None, g2) | (Some rest, g2) \<Rightarrow> (Some (out @ rest), g2))))"
  by pat_completeness auto
termination by (relation "measure (\<lambda>(k, ids, g). length ids)") (auto simp: CHUNK_def)

declare geistd_strs.simps [simp del]

definition geistd_pin :: "string \<Rightarrow> nat \<Rightarrow> client \<Rightarrow> bool \<times> client" where
  \<open>geistd_pin k n = gd_call (fmt 120 (''{"op":"pin","session":"'' @ k @ ''","n":'' @ dec n @ ''}'')) []\<close>

definition geistd_info_numbers :: "client \<Rightarrow> (nat \<times> int \<times> int \<times> bool) option \<times> client" where
  \<open>geistd_info_numbers =
     gd_then ''{"op":"info"}'' []
       (\<lambda>g. (Some (gd_num g ''vocab'',
                   (if gd_find g ''eos'' < 0 then -1 else strtol32 (gd_rest g (gd_find g ''eos''))),
                   (if gd_find g ''bos'' < 0 then -1 else strtol32 (gd_rest g (gd_find g ''bos''))),
                   gd_true g ''add_bos''), g))\<close>

subsection \<open>Streams\<close>

text \<open>Every frame read shortens what will arrive, so the loops over a stream end.\<close>

lemma gd_recv_shorter: "gd_recv g = (True, g') \<Longrightarrow> length (cl_in g') < length (cl_in g)"
  by (auto simp: gd_recv_def gd_read_def gd_fail_def Let_def split: if_splits sum.splits)

text \<open>\<open>emit\<close> is the caller's function on the pieces given so far and the next one; false stops.
  The result: the reason, the tokens counted and the duration.\<close>

function gen_stream ::
    "(string list \<Rightarrow> string \<Rightarrow> bool) \<Rightarrow> string list \<Rightarrow> client \<Rightarrow>
     (string \<times> nat \<times> dbl \<times> string list) option \<times> client" where
  "gen_stream emit got g =
     (case gd_recv g of
        (False, g1) \<Rightarrow> (None, g1)
      | (True, g1) \<Rightarrow>
          if \<not> gd_true g1 ''ok'' then (None, snd (gd_check_ok g1))
          else if gd_true g1 ''done'' then
            (Some (gd_copy g1 ''reason'' 16, gd_num g1 ''generated'',
                   (if gd_find g1 ''duration_ns'' < 0 then Fin 0 else gd_real g1 ''duration_ns''), got),
             g1\<lparr>cl_open := False\<rparr>)
          else if gd_true g1 ''stop'' then gen_stream emit got g1
          else
            (case (if gd_find g1 ''piece'' \<ge> 0 \<and> gd_str_at g1 (gd_find g1 ''piece'')
                   then map_option cstr (gd_unescape (gd_text g1 (gd_find g1 ''piece''))) else Some []) of
               None \<Rightarrow> gd_none ''out of memory'' g1
             | Some p \<Rightarrow>
                 if emit got p then gen_stream emit (got @ [p]) g1
                 else (Some (''client'', 0, Fin 0, got @ [p]), g1\<lparr>cl_open := False\<rparr>)))"
  by pat_completeness auto
termination by (relation "measure (\<lambda>(emit, got, g). length (cl_in g))") (auto dest!: gd_recv_shorter [OF sym])

declare gen_stream.simps [simp del]

definition geistd_generate_ex ::
    "string \<Rightarrow> nat \<Rightarrow> (string list \<Rightarrow> string \<Rightarrow> bool) \<Rightarrow> client \<Rightarrow>
     (string \<times> nat \<times> dbl \<times> string list) option \<times> client" where
  \<open>geistd_generate_ex k mx emit g =
     (case gd_connect g of
        (False, g1) \<Rightarrow> (None, g1)
      | (True, g1) \<Rightarrow>
          (case gd_send (fmt 120 (''{"op":"generate","session":"'' @ k @ ''","max":'' @ dec mx @ ''}'')) [] g1 of
             (False, g2) \<Rightarrow> gd_none ''send failed'' g2
           | (True, g2) \<Rightarrow> gen_stream emit [] g2))\<close>

subsection \<open>Chats\<close>

definition geistd_chat_open ::
    "string \<Rightarrow> string \<Rightarrow> string option \<Rightarrow> bool \<Rightarrow> client \<Rightarrow> string option \<times> client" where
  \<open>geistd_chat_open temp topp reasoning thinking =
     gd_then (fmt 240 (''{"op":"chat_open","temperature":'' @ temp @ '',"top_p":'' @ topp @ '',"reasoning":"''
                @ (if reasoning = Some ''think_tags'' then ''think_tags'' else ''none'')
                @ ''","thinking":'' @ (if thinking then ''true'' else ''false'') @ ''}'')) []
       (\<lambda>g. let t = gd_find g ''chat'' in
            if t < 0 \<or> tok_end (cl_tok g ! nat t) - tok_start (cl_tok g ! nat t) \<noteq> 16
            then gd_none ''no chat id in reply'' g else (Some (gd_text g t), g))\<close>

text \<open>The body of a send; the first message has no comma in front.\<close>

definition chat_message :: "nat \<Rightarrow> string \<times> string \<Rightarrow> string" where
  \<open>chat_message i m =
     (if i = 0 then ''{"role":'' else '',{"role":'') @ gd_put_json (fst m) @ '',"content":''
     @ gd_put_json (snd m) @ ''}''\<close>

definition chat_body :: "(string \<times> string) list \<Rightarrow> string" where
  \<open>chat_body ms = ''{"messages":['' @ concat (map (\<lambda>i. chat_message i (ms ! i)) [0..<length ms]) @ '']}''\<close>

record chat_stats =
  cs_finish :: string
  cs_status :: string
  cs_numbers :: "nat list"
  cs_times :: "dbl list"

definition no_stats :: chat_stats where
  "no_stats = \<lparr>cs_finish = [], cs_status = [], cs_numbers = [0, 0, 0, 0, 0],
               cs_times = [Fin (-1), Fin (-1), Fin 0, Fin 0]\<rparr>"

text \<open>\<open>part\<close> sees the pieces so far, whether the next is thinking, and its text. The statistics are
  an output also of a failed send, for their status.\<close>

function chat_stream ::
    "((bool \<times> string) list \<Rightarrow> bool \<Rightarrow> string \<Rightarrow> bool) \<Rightarrow> (bool \<times> string) list \<Rightarrow> client \<Rightarrow>
     bool \<times> chat_stats \<times> (bool \<times> string) list \<times> client" where
  "chat_stream part got g =
     (case gd_recv g of
        (False, g1) \<Rightarrow> (False, no_stats, got, g1)
      | (True, g1) \<Rightarrow>
          if \<not> gd_true g1 ''ok'' then
            (False, no_stats\<lparr>cs_status := gd_copy g1 ''status'' 16\<rparr>, got, snd (gd_check_ok g1))
          else if gd_true g1 ''done'' then
            (True, no_stats\<lparr>cs_finish := gd_copy g1 ''finish'' 16,
               cs_numbers := map (gd_num g1) [''input_tokens'', ''context_tokens'', ''output_tokens'', ''dropped'', ''length''],
               cs_times := map (gd_real g1) [''prefill_ms'', ''first_answer_ms'', ''generation_ms'', ''total_ms'']\<rparr>,
             got, g1\<lparr>cl_open := False\<rparr>)
          else
            (case (if gd_find g1 ''text'' \<ge> 0 \<and> gd_str_at g1 (gd_find g1 ''text'')
                   then map_option cstr (gd_unescape (gd_text g1 (gd_find g1 ''text''))) else Some []) of
               None \<Rightarrow> (False, no_stats, got, snd (gd_fail ''out of memory'' g1))
             | Some text \<Rightarrow>
                 let thinking = (gd_find g1 ''part'' \<ge> 0 \<and> gd_text g1 (gd_find g1 ''part'') = ''thinking'') in
                 if part got thinking text then chat_stream part (got @ [(thinking, text)]) g1
                 else (True, no_stats\<lparr>cs_finish := ''client''\<rparr>, got @ [(thinking, text)], g1\<lparr>cl_open := False\<rparr>)))"
  by pat_completeness auto
termination by (relation "measure (\<lambda>(part, got, g). length (cl_in g))") (auto dest!: gd_recv_shorter [OF sym])

declare chat_stream.simps [simp del]

definition geistd_chat_send ::
    "string \<Rightarrow> nat \<Rightarrow> (string \<times> string) list \<Rightarrow> ((bool \<times> string) list \<Rightarrow> bool \<Rightarrow> string \<Rightarrow> bool) \<Rightarrow> client \<Rightarrow>
     bool \<times> chat_stats \<times> (bool \<times> string) list \<times> client" where
  \<open>geistd_chat_send k mx ms part g =
     (case gd_connect g of
        (False, g1) \<Rightarrow> (False, no_stats, [], g1)
      | (True, g1) \<Rightarrow>
          (case gd_send (fmt 120 (''{"op":"chat_send","chat":"'' @ k @ ''","max":'' @ dec mx @ ''}'')) (chat_body ms) g1 of
             (False, g2) \<Rightarrow> (False, no_stats, [], snd (gd_fail ''send failed'' g2))
           | (True, g2) \<Rightarrow> chat_stream part [] g2))\<close>

definition geistd_chat_rewind :: "string \<Rightarrow> nat \<Rightarrow> client \<Rightarrow> nat option \<times> client" where
  \<open>geistd_chat_rewind k keep =
     gd_then (fmt 120 (''{"op":"chat_rewind","chat":"'' @ k @ ''","keep":'' @ dec keep @ ''}'')) []
       (\<lambda>g. (Some (gd_num g ''length''), g))\<close>

definition geistd_chat_close :: "string \<Rightarrow> client \<Rightarrow> bool \<times> client" where
  \<open>geistd_chat_close k = gd_call (fmt 100 (''{"op":"chat_close","chat":"'' @ k @ ''"}'')) []\<close>

end
