(* ===== verification/Wire.thy ===== *)
theory Wire
  imports DaemonInv Client JsonTree
begin

section \<open>Daemon and client over the wire\<close>

text \<open>
  The headers and bodies the two sides write are texts of JSON trees, so the tokens the other side
  makes of them are known (\<open>jsmn_parse_render\<close>). With the framing this gives the round trips: what
  the client asks is what the daemon acts on, and what the daemon replies is what the call returns.
\<close>

subsection \<open>Texts as trees\<close>

abbreviation JNum :: "nat \<Rightarrow> jval" where "JNum n \<equiv> JPrim (dec n)"
abbreviation JTrue :: jval where "JTrue \<equiv> JPrim ''true''"
abbreviation JFalse :: jval where "JFalse \<equiv> JPrim ''false''"

lemma prim_ok_literal [simp]: "prim_ok ''true''" "prim_ok ''false''" "prim_ok ''null''"
  by (simp_all add: prim_ok_def prim_start_def prim_end_def)

lemma prim_ok_dec' [simp]: "prim_ok (dec n)"
  by (rule prim_ok_dec)

text \<open>A member of the reply's tree; keys and values of the daemon are escaped byte by byte.\<close>

lemma quoted_sb [simp]: "quoted sb_esc s = sb_json_str s"
  by (simp add: quoted_def sb_json_str_def)

lemma quoted_gd [simp]: "quoted gd_esc s = gd_put_json s"
  by (simp add: quoted_def gd_put_json_def)

subsection \<open>What the client asks in a chat\<close>

definition chat_tree :: "(string \<times> string) list \<Rightarrow> jval" where
  "chat_tree ms = JObj [(''messages'', JArr (map (\<lambda>m. JObj [(''role'', JStr (fst m)), (''content'', JStr (snd m))]) ms))]"

lemma gd_keys:
  \<open>gd_put_json ''messages'' = ''"messages"''\<close> \<open>gd_put_json ''role'' = ''"role"''\<close>
  \<open>gd_put_json ''content'' = ''"content"''\<close>
  by (simp_all add: gd_put_json_def gd_esc_def)

lemma render_messages:
  "render_elems gd_esc (map (\<lambda>m. JObj [(''role'', JStr (fst m)), (''content'', JStr (snd m))]) ms)
     = concat (map (\<lambda>i. chat_message i (ms ! i)) [0..<length ms])"
proof -
  have one: "chat_message i m = (if i = 0 then [] else '','')
      @ render gd_esc (JObj [(''role'', JStr (fst m)), (''content'', JStr (snd m))])" for i m
    by (simp add: chat_message_def gd_keys)
  have "concat (map (\<lambda>i. chat_message (Suc i) (ms ! i)) [0..<length ms])
      = (if ms = [] then [] else CHR '','' # render_elems gd_esc
           (map (\<lambda>m. JObj [(''role'', JStr (fst m)), (''content'', JStr (snd m))]) ms))" for ms
  proof -
    have "map (\<lambda>i. chat_message (Suc i) (ms ! i)) [0..<length ms] = map (chat_message 1) ms"
      by (rule nth_equalityI) (simp_all add: one)
    moreover have "concat (map (chat_message 1) ms) = (if ms = [] then [] else CHR '','' # render_elems gd_esc
           (map (\<lambda>m. JObj [(''role'', JStr (fst m)), (''content'', JStr (snd m))]) ms))"
      by (induction ms) (simp_all add: one)
    ultimately show ?thesis by simp
  qed
  moreover have "map (\<lambda>i. chat_message i (ms ! i)) [0..<length ms] =
      (if ms = [] then [] else chat_message 0 (hd ms) # map (\<lambda>i. chat_message (Suc i) (tl ms ! i)) [0..<length (tl ms)])"
    by (cases ms) (simp_all add: upt_conv_Cons map_Suc_upt [symmetric] del: upt_Suc)
  ultimately show ?thesis by (cases ms) (simp_all add: one)
qed

lemma chat_body_tree: "chat_body ms = render gd_esc (chat_tree ms)"
  by (simp add: chat_body_def chat_tree_def render_messages gd_keys)

lemma chat_tree_size: "ntoks (chat_tree ms) = 3 + 5 * length ms" "jval_ok (chat_tree ms)"
proof -
  have "nelems (map (\<lambda>m. JObj [(''role'', JStr (fst m)), (''content'', JStr (snd m))]) ms) = 5 * length ms"
    "jvals_ok (map (\<lambda>m. JObj [(''role'', JStr (fst m)), (''content'', JStr (snd m))]) ms)"
    by (induction ms) auto
  then show "ntoks (chat_tree ms) = 3 + 5 * length ms" "jval_ok (chat_tree ms)"
    by (simp_all add: chat_tree_def)
qed

text \<open>The daemon recovers every message, up to a NUL byte, that no C string of the client has.\<close>

lemma send_msgs_chat_body:
  assumes "ms \<noteq> []" and "3 + 5 * length ms \<le> JSON_TOK_CAP"
  shows "send_msgs (chat_body ms) = Some (map (\<lambda>m. (Some (cstr (fst m)), Some (cstr (snd m)))) ms)"
proof -
  let ?obj = "\<lambda>m. JObj [(''role'', JStr (fst m)), (''content'', JStr (snd m))]"
  let ?fs = "[(''messages'', JArr (map ?obj ms))]"
  have tree: "chat_tree ms = JObj ?fs" by (simp add: chat_tree_def)
  obtain j where j: "json_parse (chat_body ms) = Some j" "is_at gd_esc j 0 (JObj ?fs)"
    using gd.root_render [of ?fs] assms(2) chat_tree_size [of ms] by (auto simp: chat_body_tree tree)
  have key: "map_of (raw_fields gd_esc ?fs) ''messages'' = Some (JArr (map ?obj ms))"
    by (simp add: raw_fields_def gd_esc_def)
  obtain l where l: "json_get j 0 ''messages'' = int l" "is_at gd_esc j l (JArr (map ?obj ms))"
    using gd.get_render [OF j(2) key] by auto
  from gd.array_render [OF l(2)] obtain ps later where
    ty: "tok_type (tok j ! l) = JSMN_ARRAY" "tok_size (tok j ! l) = int (length ms)"
    and ps: "filter (\<lambda>i. tok_parent (tok j ! i) = int l) [Suc l..<length (tok j)] = ps @ later"
      "list_all2 (is_at gd_esc j) ps (map ?obj ms)" by auto
  have L: "json_n j = int (length (tok j))" using j(2) by (simp add: is_at_def)
  have len: "length ps = length ms" using ps(2) by (simp add: list_all2_lengthD)
  have "filter (\<lambda>i. tok_parent (tok j ! nat i) = int l) (map int [Suc l..<length (tok j)])
      = map int (filter (\<lambda>i. tok_parent (tok j ! i) = int l) [Suc l..<length (tok j)])"
    by (simp add: filter_map comp_def)
  then have items: "array_items j (int l) (\<lambda>i. True) (length ms) = map int ps"
    using ty(1) L ps(1) len by (simp add: array_items_def nat_add_distrib)
  have "map (\<lambda>i. (json_strdup j (json_get j i ''role''), json_strdup j (json_get j i ''content''))) (map int ps)
      = map (\<lambda>m. (Some (cstr (fst m)), Some (cstr (snd m)))) ms"
  proof (intro nth_equalityI)
    fix i
    assume "i < length (map (\<lambda>i. (json_strdup j (json_get j i ''role''), json_strdup j (json_get j i ''content''))) (map int ps))"
    then have i: "i < length ps" "i < length ms" using len by auto
    have at: "is_at gd_esc j (ps ! i) (?obj (ms ! i))"
      using list_all2_nthD [OF ps(2) i(1)] i(2) by simp
    have "map_of (raw_fields gd_esc [(''role'', JStr (fst (ms ! i))), (''content'', JStr (snd (ms ! i)))]) ''role''
        = Some (JStr (fst (ms ! i)))"
      "map_of (raw_fields gd_esc [(''role'', JStr (fst (ms ! i))), (''content'', JStr (snd (ms ! i)))]) ''content''
        = Some (JStr (snd (ms ! i)))"
      by (simp_all add: raw_fields_def gd_esc_def)
    from gd.get_render [OF at this(1)] gd.get_render [OF at this(2)]
    have "json_strdup j (json_get j (int (ps ! i)) ''role'') = Some (cstr (fst (ms ! i)))"
      "json_strdup j (json_get j (int (ps ! i)) ''content'') = Some (cstr (snd (ms ! i)))"
      using gd.strdup_render by fastforce+
    then show "map (\<lambda>i. (json_strdup j (json_get j i ''role''), json_strdup j (json_get j i ''content''))) (map int ps) ! i
      = map (\<lambda>m. (Some (cstr (fst m)), Some (cstr (snd m)))) ms ! i" using i by simp
  qed (simp add: len)
  moreover have "chat_body ms \<noteq> []" by (simp add: chat_body_def)
  ultimately show ?thesis
    using j(1) l(1) ty items assms(1) len by (simp add: send_msgs_def Let_def del: map_map)
qed

subsection \<open>What the client reads in a reply\<close>

abbreviation reply_bytes :: "string \<Rightarrow> string \<Rightarrow> string" where
  "reply_bytes \<equiv> frame_of (\<lambda>n. wr_u32 (word_of_nat n))"

text \<open>The reply the client holds, as a document of the JSON reader.\<close>

definition gd_view :: "client \<Rightarrow> json" where
  "gd_view g = \<lparr>src = cl_hdr g, tok = cl_tok g, json_n = cl_ntok g\<rparr>"

lemma gd_find_view: "tok_type (cl_tok g ! 0) = JSMN_OBJECT \<Longrightarrow> gd_find g key = json_get (gd_view g) 0 key"
proof -
  have "gd_key_at g key = json_key_at (gd_view g) 0 key"
    by (rule ext) (simp add: gd_key_at_def json_key_at_def gd_view_def gd_text_def tok_text_def)
  then show "tok_type (cl_tok g ! 0) = JSMN_OBJECT \<Longrightarrow> ?thesis"
    by (simp add: gd_find_def json_get_def gd_view_def)
qed

text \<open>The client has received the object \<open>fs\<close>.\<close>

definition received :: "client \<Rightarrow> (string \<times> jval) list \<Rightarrow> bool" where
  "received g fs \<longleftrightarrow> tok_type (cl_tok g ! 0) = JSMN_OBJECT \<and> is_at sb_esc (gd_view g) 0 (JObj fs)"

lemma gd_recv_reply:
  assumes "cl_in g = reply_bytes (render sb_esc (JObj fs)) body @ rest"
    and "fits (render sb_esc (JObj fs)) body" and "jfields_ok fs" and "ntoks (JObj fs) \<le> 4096"
  obtains g' where "gd_recv g = (True, g')" and "received g' fs" and "cl_in g' = rest" and "cl_body g' = body"
    and "cl_hdr g' = render sb_esc (JObj fs)" and "cl_net g' = cl_net g" and "cl_out g' = cl_out g"
    and "cl_token g' = cl_token g"
proof -
  let ?h = "render sb_esc (JObj fs)" and ?wr = "\<lambda>n. wr_u32 (word_of_nat n)"
  have len: "length ?h < 2 ^ 32" "length body < 2 ^ 32"
    using assms(2) by (auto simp: fits_def HDR_CAP_def BODY_CAP_def)
  have pre: "length (?wr (length ?h) @ ?wr (length body)) = 8" by (simp add: wr_u32_def)
  have four: "gd_rd (s @ t) = gd_rd s" if "length s = 4" for s t
    using that by (simp add: gd_rd_def nth_append)
  have rd: "gd_rd (?wr (length ?h) @ ?wr (length body)) = length ?h"
    "gd_rd (drop 4 (?wr (length ?h) @ ?wr (length body))) = length body"
    using replies.get_put len by (simp_all only: four replies.length_put) (simp_all add: replies.length_put)
  have r8: "gd_read 8 g = (Some (?wr (length ?h) @ ?wr (length body)), g\<lparr>cl_in := ?h @ body @ rest\<rparr>)"
    using assms(1) pre by (simp add: gd_read_def frame_of_def)
  define g' where "g' = g\<lparr>cl_in := rest, cl_hdr := ?h, cl_body := body,
      cl_tok := val_toks sb_esc 0 0 (-1) (JObj fs), cl_ntok := int (ntoks (JObj fs))\<rparr>"
  have p: "jsmn_parse ?h 4096 = Inr (int (ntoks (JObj fs)), val_toks sb_esc 0 0 (-1) (JObj fs))"
    using sb.jsmn_parse_render [of fs 4096 "[]"] assms(3,4) by simp
  have b: "(if length body = 0 then (Some [], g\<lparr>cl_in := body @ rest\<rparr>) else gd_read (length body) (g\<lparr>cl_in := body @ rest\<rparr>))
      = (Some body, g\<lparr>cl_in := rest\<rparr>)" by (simp add: gd_read_def)
  have h: "gd_read (length ?h) (g\<lparr>cl_in := ?h @ body @ rest\<rparr>) = (Some ?h, g\<lparr>cl_in := body @ rest\<rparr>)"
    by (simp add: gd_read_def)
  have caps: "\<not> (length ?h = 0 \<or> 64 * 1024 < length ?h \<or> 16 * 1024 * 1024 < length body)"
    using assms(2) by (auto simp: fits_def HDR_CAP_def BODY_CAP_def)
  have "gd_recv g = (True, g')"
    unfolding gd_recv_def r8 prod.case option.case Let_def rd if_not_P [OF caps] h b p sum.case
    by (simp add: g'_def)
  moreover have "received g' fs"
    unfolding received_def is_at_def gd_view_def
    by (intro conjI exI [of _ 0] exI [of _ "-1"] exI [of _ "[]"]) (auto simp: g'_def)
  ultimately show thesis using that by (simp add: g'_def)
qed

lemma received_at:
  assumes "received g fs" and "map_of (raw_fields sb_esc fs) key = Some v"
  obtains m where "gd_find g key = int m" and "is_at sb_esc (gd_view g) m v"
proof -
  from assms(1) have r: "tok_type (cl_tok g ! 0) = JSMN_OBJECT" "is_at sb_esc (gd_view g) 0 (JObj fs)"
    by (simp_all add: received_def)
  from sb.get_render [OF r(2) assms(2)] gd_find_view [OF r(1)] show thesis using that by fastforce
qed

lemma strtoul10_dec:
  assumes "r = [] \<or> \<not> is_digit (hd r)" and "n < 2 ^ 64"
  shows "strtoul10 (dec n @ r) = n"
proof -
  obtain c ds where ds: "dec n = c # ds" "is_digit c"
    using dec_hd [of n] dec_nonempty [of n] by (cases "dec n") auto
  have "c \<noteq> CHR '' ''" "\<not> byte c \<le> 13" "c \<noteq> CHR ''-''" "c \<noteq> CHR ''+''"
    using ds(2) by (auto simp: is_digit_def)
  with ds(1) have "strtoul10 (dec n @ r) = (let v = fst (digits 0 (dec n @ r)) in if v \<ge> 2 ^ 64 then 2 ^ 64 - 1 else v)"
    by (simp add: strtoul10_def Let_def)
  with digits_dec [OF assms(1), of n] assms(2) show ?thesis by simp
qed

text \<open>Reading the kinds of members the daemon writes.\<close>

lemma received_num:
  assumes "received g fs" and "map_of (raw_fields sb_esc fs) key = Some (JNum n)" and "n < 2 ^ 64"
  shows "gd_num g key = n"
proof -
  obtain m where m: "gd_find g key = int m" "is_at sb_esc (gd_view g) m (JNum n)"
    by (rule received_at [OF assms(1,2)])
  from m(2) obtain q par r r' where t: "drop m (cl_tok g) = val_toks sb_esc q m par (JNum n) @ r"
    and src: "drop q (cl_hdr g) = dec n @ r'" and r': "r' \<noteq> []" "hd r' \<in> {CHR '','', CHR ''}'', CHR '']''}"
    by (auto simp: is_at_def gd_view_def)
  have "\<not> is_digit (hd r')" using r'(2) by (auto simp: is_digit_def)
  moreover have "gd_rest g (int m) = dec n @ r'"
    using drop_nth [OF t, of 0] src by (simp add: gd_rest_def)
  ultimately show ?thesis using strtoul10_dec assms(3) by (simp add: gd_num_def m(1))
qed

lemma received_true:
  assumes "received g fs" and "map_of (raw_fields sb_esc fs) key = Some (JPrim x)" and "x \<noteq> []"
  shows "gd_true g key \<longleftrightarrow> hd x = CHR ''t''"
proof -
  obtain m where m: "gd_find g key = int m" "is_at sb_esc (gd_view g) m (JPrim x)"
    by (rule received_at [OF assms(1,2)])
  from m(2) obtain q par r r' where t: "drop m (cl_tok g) = val_toks sb_esc q m par (JPrim x) @ r"
    and src: "drop q (cl_hdr g) = x @ r'" by (auto simp: is_at_def gd_view_def)
  have "gd_rest g (int m) = x @ r'" using drop_nth [OF t, of 0] src by (simp add: gd_rest_def)
  with assms(3) show ?thesis by (simp add: gd_true_def m(1))
qed

lemma received_str:
  assumes "received g fs" and "map_of (raw_fields sb_esc fs) key = Some (JStr x)"
  shows "gd_find g key \<ge> 0 \<and> gd_str_at g (gd_find g key) \<and> gd_text g (gd_find g key) = concat (map sb_esc x)
    \<and> gd_unescape (gd_text g (gd_find g key)) = Some x"
proof -
  obtain m where m: "gd_find g key = int m" "is_at sb_esc (gd_view g) m (JStr x)"
    by (rule received_at [OF assms])
  from m(2) obtain q par r r' where t: "drop m (cl_tok g) = val_toks sb_esc q m par (JStr x) @ r"
    and src: "drop q (cl_hdr g) = sb_json_str x @ r'" by (auto simp: is_at_def gd_view_def)
  have t0: "cl_tok g ! m = leaf_tok JSMN_STRING (int q + 1) (int q + int (length (sb_json_str x)) - 1) par"
    using drop_nth [OF t, of 0] by simp
  have "drop (Suc q) (cl_hdr g) = drop 1 (drop q (cl_hdr g))" by simp
  also have "\<dots> = concat (map sb_esc x) @ DQUOTE # r'" by (simp add: src sb_json_str_def)
  finally have "gd_text g (int m) = concat (map sb_esc x)"
    by (simp add: gd_text_def t0 sb_json_str_def nat_add_distrib)
  then show ?thesis by (simp add: m(1) gd_str_at_def t0 sb.gd_escaped)
qed

subsection \<open>Calls\<close>

lemma length_dec: "n < 10 ^ k \<Longrightarrow> 1 \<le> k \<Longrightarrow> length (dec n) \<le> k"
proof (induction n arbitrary: k rule: dec.induct)
  case (1 n)
  show ?case
  proof (cases "n < 10")
    case True
    with "1.prems" show ?thesis by (simp add: dec.simps [of n])
  next
    case False
    then obtain j where k: "k = Suc j" "1 \<le> j"
      using "1.prems" by (cases k; cases "k - 1") (auto simp: not_less)
    have "n div 10 < 10 ^ j" using "1.prems"(1) by (simp add: k less_mult_imp_div_less)
    then have "length (dec (n div 10)) \<le> j" using "1.IH" [OF False _ k(2)] by simp
    with False show ?thesis by (simp add: dec.simps [of n] k)
  qed
qed

lemma sb_keys:
  \<open>sb_json_str ''ok'' = ''"ok"''\<close> \<open>sb_json_str ''error'' = ''"error"''\<close> \<open>sb_json_str ''prefilled'' = ''"prefilled"''\<close>
  \<open>sb_json_str ''reused'' = ''"reused"''\<close> \<open>sb_json_str ''n'' = ''"n"''\<close> \<open>sb_json_str ''done'' = ''"done"''\<close>
  \<open>sb_json_str ''part'' = ''"part"''\<close> \<open>sb_json_str ''text'' = ''"text"''\<close> \<open>sb_json_str ''token'' = ''"token"''\<close>
  \<open>sb_json_str ''stop'' = ''"stop"''\<close> \<open>sb_json_str ''piece'' = ''"piece"''\<close>
  \<open>sb_json_str ''answer'' = ''"answer"''\<close> \<open>sb_json_str ''thinking'' = ''"thinking"''\<close>
  by (simp_all add: sb_json_str_def sb_esc_def)

lemma prefilled_tree:
  "prefilled_hdr t r n = render sb_esc (JObj [(''ok'', JTrue), (''prefilled'', JNum t), (''reused'', JNum r), (''n'', JNum n)])"
  by (simp add: prefilled_hdr_def sb_keys)

lemma error_tree: "error_hdr msg = render sb_esc (JObj [(''ok'', JFalse), (''error'', JStr msg)])"
  by (simp add: error_hdr_def sb_keys)

lemma piece_tree:
  "piece_hdr p = render sb_esc (JObj [(''ok'', JTrue), (''done'', JFalse),
     (''part'', JStr (if p_part p = PART_THINKING then ''thinking'' else ''answer'')), (''text'', JStr (p_text p))])"
  by (simp add: piece_hdr_def sb_keys)

text \<open>The environment of a connect: the daemon's reply arrives, and the peer takes the request.\<close>

lemma gd_call_reply:
  assumes "cl_net g = Some (reply_bytes (render sb_esc (JObj fs)) body @ rest, room) # net" and "cl_token g = []"
    and "fits hdr req" and "8 + length hdr + length req \<le> room"
    and "fits (render sb_esc (JObj fs)) body" and "jfields_ok fs" and "ntoks (JObj fs) \<le> 4096"
  obtains g' where "received g' fs" and "cl_body g' = body" and "cl_out g' = frame_of gd_wr hdr req"
    and "gd_call hdr req g = (fst (gd_check_ok g'), (snd (gd_check_ok g'))\<lparr>cl_open := False\<rparr>)"
proof -
  define g1 where "g1 = g\<lparr>cl_open := True, cl_in := reply_bytes (render sb_esc (JObj fs)) body @ rest,
      cl_room := room, cl_out := [], cl_net := net\<rparr>"
  have con: "gd_connect g = (True, g1)" using assms(1,2) by (simp add: gd_connect_def g1_def)
  define g2 where "g2 = g1\<lparr>cl_out := frame_of gd_wr hdr req, cl_room := room - (8 + length hdr + length req)\<rparr>"
  have "length (gd_wr n) = 4" for n by (rule client_frames.length_put)
  then have snd: "gd_send hdr req g1 = (True, g2)"
    using assms(3,4)
    by (auto simp: gd_send_def gd_write_def g1_def g2_def fits_def HDR_CAP_def BODY_CAP_def frame_of_def)
  have "cl_in g2 = reply_bytes (render sb_esc (JObj fs)) body @ rest" by (simp add: g2_def g1_def)
  from gd_recv_reply [OF this assms(5-7)] obtain g3 where g3: "gd_recv g2 = (True, g3)" "received g3 fs"
    "cl_body g3 = body" "cl_out g3 = cl_out g2" by metis
  have "gd_call hdr req g = (fst (gd_check_ok g3), (snd (gd_check_ok g3))\<lparr>cl_open := False\<rparr>)"
    by (simp add: gd_call_def con snd g3(1) split: prod.split)
  with g3 that [of g3] show thesis by (simp add: g2_def)
qed

text \<open>The error the daemon wrote is the error the caller sees, escapes included and cut to the buffer.\<close>

lemma error_call:
  assumes "cl_net g = Some (reply_bytes (error_hdr msg) [] @ rest, room) # net" and "cl_token g = []"
    and "fits hdr req" and "8 + length hdr + length req \<le> room" and "length (error_hdr msg) \<le> HDR_CAP"
  shows "fst (gd_call hdr req g) = False
       \<and> cl_err (snd (gd_call hdr req g)) = take 255 (concat (map sb_esc msg))"
proof -
  let ?fs = "[(''ok'', JFalse), (''error'', JStr msg)]"
  have fits: "fits (render sb_esc (JObj ?fs)) []"
    using assms(5) by (simp add: fits_def error_tree)
  obtain g' where g': "received g' ?fs"
    "gd_call hdr req g = (fst (gd_check_ok g'), (snd (gd_check_ok g'))\<lparr>cl_open := False\<rparr>)"
    using gd_call_reply [OF assms(1) [unfolded error_tree] assms(2-4) fits] by auto
  have "map_of (raw_fields sb_esc ?fs) ''ok'' = Some JFalse" "map_of (raw_fields sb_esc ?fs) ''error'' = Some (JStr msg)"
    by (simp_all add: raw_fields_def sb_esc_def)
  then have "\<not> gd_true g' ''ok''" "gd_find g' ''error'' \<ge> 0" "gd_text g' (gd_find g' ''error'') = concat (map sb_esc msg)"
    using received_true [OF g'(1)] received_str [OF g'(1)] by auto
  then show ?thesis
    using g'(2) sb.literal_no_nul [of msg] by (simp add: gd_check_ok_def cstr_id)
qed

text \<open>The two numbers of a prefill.\<close>

lemma prefill_call:
  assumes "cl_net g = Some (reply_bytes (prefilled_hdr t r n) [] @ rest, room) # net" and "cl_token g = []"
    and "fits (fmt 100 (sess_hdr ''prefill'' k)) (ids_body ids)"
    and "8 + length (fmt 100 (sess_hdr ''prefill'' k)) + length (ids_body ids) \<le> room"
    and "t < 2 ^ 64" and "r < 2 ^ 64" and "n < 2 ^ 64"
  shows "fst (geistd_prefill k ids g) = Some (t, r)"
proof -
  let ?fs = "[(''ok'', JTrue), (''prefilled'', JNum t), (''reused'', JNum r), (''n'', JNum n)]"
  have "m < 10 ^ 20" if "m < 2 ^ 64" for m :: nat using that by simp
  then have "length (dec t) \<le> 20" "length (dec r) \<le> 20" "length (dec n) \<le> 20"
    using assms(5-7) by (auto intro: length_dec)
  then have "length (prefilled_hdr t r n) \<le> HDR_CAP" by (simp add: prefilled_hdr_def HDR_CAP_def)
  then have fits: "fits (render sb_esc (JObj ?fs)) []" by (simp add: fits_def prefilled_tree)
  obtain g' where g': "received g' ?fs"
    "gd_call (fmt 100 (sess_hdr ''prefill'' k)) (ids_body ids) g
       = (fst (gd_check_ok g'), (snd (gd_check_ok g'))\<lparr>cl_open := False\<rparr>)"
    using gd_call_reply [OF assms(1) [unfolded prefilled_tree] assms(2-4) fits] by auto
  have f: "map_of (raw_fields sb_esc ?fs) ''ok'' = Some JTrue" "map_of (raw_fields sb_esc ?fs) ''prefilled'' = Some (JNum t)"
    "map_of (raw_fields sb_esc ?fs) ''reused'' = Some (JNum r)"
    by (simp_all add: raw_fields_def sb_esc_def)
  have ok: "gd_check_ok g' = (True, g')" using received_true [OF g'(1) f(1)] by (simp add: gd_check_ok_def)
  have closed: "gd_num (g'\<lparr>cl_open := False\<rparr>) key = gd_num g' key" for key
    by (simp add: gd_num_def gd_find_def gd_key_at_def [abs_def] gd_text_def gd_rest_def)
  show ?thesis
    using g'(2) ok received_num [OF g'(1) f(2) assms(5)] received_num [OF g'(1) f(3) assms(6)]
    by (simp add: geistd_prefill_def gd_then_def closed)
qed

subsection \<open>Token arrays\<close>

definition int32 :: "int \<Rightarrow> bool" where
  "int32 i \<longleftrightarrow> - (2 ^ 31) \<le> i \<and> i < 2 ^ 31"

lemma sint_int32: "int32 i \<Longrightarrow> sint (word_of_int i :: 32 word) = i"
  by (simp add: int32_def sint_sbintrunc' signed_take_bit_int_eq_self)

lemma ids_of_bytes [codec]:
  assumes "\<forall>i \<in> set ids. int32 i"
  shows "ids_of (bytes_of ids) = ids"
proof -
  have len: "length (bytes_of ids) = 4 * length ids" for ids
    by (induction ids) (simp_all add: bytes_of_def)
  have at: "k < length ids \<Longrightarrow> take 4 (drop (4 * k) (bytes_of ids)) = wr_u32 (word_of_int (ids ! k))" for k
  proof (induction ids arbitrary: k)
    case (Cons i ids)
    show ?case
    proof (cases k)
      case 0
      then show ?thesis by (simp add: bytes_of_def)
    next
      case (Suc k')
      have "drop (4 * k) (bytes_of (i # ids)) = drop (4 * k') (bytes_of ids)"
        by (simp add: bytes_of_def Suc)
      with Cons Suc show ?thesis by simp
    qed
  qed simp
  show ?thesis
  proof (rule nth_equalityI)
    show "length (ids_of (bytes_of ids)) = length ids" by (simp add: ids_of_def len)
    fix k
    assume "k < length (ids_of (bytes_of ids))"
    then have "k < length ids" by (simp add: ids_of_def len)
    with assms show "ids_of (bytes_of ids) ! k = ids ! k"
      by (simp add: ids_of_def len at rd_wr_u32 sint_int32)
  qed
qed

lemma ids_body_bytes: "ids_body = bytes_of"
  by (rule ext) (simp add: ids_body_def bytes_of_def)

text \<open>A prefill from end to end: the call returns what the daemon counted, and the session then
  holds exactly the tokens of the call.\<close>

lemma prefill_wire:
  assumes "op_prefill E voc (ids_body ids) x = (Ok h b, x')" and "sess_ok x" and "live x"
    and "\<forall>i \<in> set ids. int32 i"
    and "cl_net g = Some (reply_bytes h b @ rest, room) # net" and "cl_token g = []"
    and "fits (fmt 100 (sess_hdr ''prefill'' k)) (ids_body ids)"
    and "8 + length (fmt 100 (sess_hdr ''prefill'' k)) + length (ids_body ids) \<le> room"
  shows "hist x' = ids \<and> (\<exists>reused \<le> length ids. take reused ids = take reused (hist x)
           \<and> fst (geistd_prefill k ids g) = Some (length ids - reused, reused))"
proof -
  have ids: "ids_of (ids_body ids) = ids" using ids_of_bytes assms(4) by (simp add: ids_body_bytes)
  have len: "length ids < CTX_CAP" and pre: "prefill_sess E ids x = (Ok h b, x')"
    using assms(1) by (auto simp: op_prefill_def Let_def ids CTX_CAP_def split: if_splits)
  from prefill_exact [OF pre assms(2,3) len] obtain reused where x': "hist x' = ids"
    and r: "reused \<le> length ids" "take reused ids = take reused (hist x)"
    and h: "h = prefilled_hdr (length ids - reused) reused (length ids)" by blast
  have b: "b = []"
    using pre prefill_tail_Ok [of E ids _ _ h b x'] assms(2,3) len
    by (cases rule: prefill_sess_cases) (auto simp: prefill_tail_def Let_def split: if_splits prod.splits)
  have "length ids < 2 ^ 64" using len by (simp add: CTX_CAP_def)
  then have "fst (geistd_prefill k ids g) = Some (length ids - reused, reused)"
    using prefill_call [OF assms(5) [unfolded h b] assms(6-8)] r(1) by simp
  with x' r show ?thesis by blast
qed

end
