(* ===== verification/Streams.thy ===== *)
theory Streams
  imports Wire
begin

section \<open>Streamed answers over the wire\<close>

text \<open>
  \<open>op_chat_send\<close> writes one frame for every piece the runtime gives and a last one; the client's
  loop turns them back into calls of the caller's function. Here the two loops are put together:
  every piece arrives once, in order, with its kind and its text.
\<close>

subsection \<open>What the daemon writes\<close>

text \<open>The pieces a runtime gives until it ends, and the status it ends with.\<close>

fun gives :: "('r, 'c) runtime \<Rightarrow> 'c \<Rightarrow> piece list \<Rightarrow> status \<Rightarrow> 'c \<Rightarrow> bool" where
  "gives R c [] st c' \<longleftrightarrow>
     (case r_next R c of ((s, p), c1) \<Rightarrow> s = st \<and> c1 = c' \<and> \<not> (s = GEISTR_OK \<and> p_part p \<noteq> PART_END))"
| "gives R c (p # ps) st c' \<longleftrightarrow>
     (case r_next R c of ((s, q), c1) \<Rightarrow> s = GEISTR_OK \<and> q = p \<and> p_part p \<noteq> PART_END \<and> gives R c1 ps st c')"

lemma gives_all:
  "gives R c ps st c' \<Longrightarrow> (\<forall>p \<in> set ps. \<exists>c c'. r_next R c = ((GEISTR_OK, p), c')) \<and> (\<exists>c p c'. r_next R c = ((st, p), c'))"
proof (induction ps arbitrary: c)
  case Nil
  then show ?case by (auto split: prod.splits)
next
  case (Cons p ps)
  then obtain c1 where "r_next R c = ((GEISTR_OK, p), c1)" "gives R c1 ps st c'" by (auto split: prod.splits)
  with Cons.IH show ?case by auto
qed

definition frames :: "piece list \<Rightarrow> string" where
  "frames ps = concat (map (\<lambda>p. reply_bytes (piece_hdr p) []) ps)"

lemma write_frame_out:
  "write_frame h b c = (True, c') \<Longrightarrow> c_out c' = c_out c @ reply_bytes h b"
  by (auto simp: write_frame_def write_all_def frame_of_def wr_u32_def split: prod.splits bool.splits if_splits)

lemma stream_writes:
  assumes "stream R c k = Some (Some st, c', k')"
  shows "\<exists>ps. gives R c ps st c' \<and> c_out k' = c_out k @ frames ps"
proof -
  have "(case fst y of None \<Rightarrow> True | Some st \<Rightarrow>
      \<exists>ps. gives R c ps st (fst (snd y)) \<and> c_out (snd (snd y)) = c_out k @ frames ps)"
    if "stream R c k = Some y" for y
  proof (rule stream.raw_induct [where P = "\<lambda>R c k y. case fst y of None \<Rightarrow> True | Some st \<Rightarrow>
      \<exists>ps. gives R c ps st (fst (snd y)) \<and> c_out (snd (snd y)) = c_out k @ frames ps", OF _ that], goal_cases)
    case (1 stream R c k y)
    obtain st p c1 where n: "r_next R c = ((st, p), c1)" by (metis surj_pair)
    obtain ok k1 where w: "write_frame (piece_hdr p) [] k = (ok, k1)" by fastforce
    show ?case
    proof (cases "st = GEISTR_OK \<and> p_part p \<noteq> PART_END")
      case False
      then have "gives R c [] st c1" by (simp add: n)
      moreover have "y = (Some st, c1, k)" using 1(2) False by (auto simp: n)
      ultimately show ?thesis by (auto simp: frames_def intro!: exI [of _ "[]"])
    next
      case True
      show ?thesis
      proof (cases ok)
        case False
        with 1 True show ?thesis by (auto simp: n w Let_def split: option.splits)
      next
        case ok: True
        with 1(2) True have "stream R c1 k1 = Some y" by (simp add: n w Let_def)
        from 1(1) [OF this] show ?thesis
        proof (cases "fst y")
          case (Some st1)
          with 1(1) [OF \<open>stream R c1 k1 = Some y\<close>] obtain ps where
            "gives R c1 ps st1 (fst (snd y))" "c_out (snd (snd y)) = c_out k1 @ frames ps" by auto
          then have "gives R c (p # ps) st1 (fst (snd y))" "c_out (snd (snd y)) = c_out k @ frames (p # ps)"
            using True ok w write_frame_out by (simp_all add: n frames_def)
          with Some show ?thesis by (simp only: option.case) blast
        qed simp
      qed
    qed
  qed
  from this [OF assms] show ?thesis by simp
qed

text \<open>The last frame of an answer.\<close>

definition last_hdr :: "('r, 'c) runtime \<Rightarrow> status \<Rightarrow> 'c \<Rightarrow> string" where
  \<open>last_hdr R st c = (if st \<noteq> GEISTR_OK \<and> st \<noteq> GEISTR_CANCELLED then send_error ''error'' (r_error R c)
                     else ''{"ok":true,"done":true,'' @ stats_json R c @ ''}'')\<close>

text \<open>An answer that reached its end was written as an empty piece, the pieces and the last frame. The pieces are
  all the runtime gives after it took the messages.\<close>

lemma op_chat_send_writes:
  assumes "op_chat_send R j body x k = Some (True, x', k')" and "send_msgs body = Some ms"
    and "\<not> snd (json_clamp j (json_get j 0 ''max'') (Fin 0) (Fin 0) (Fin (of_nat CTX_CAP)))"
    and c1: "send_to R (dnat (fst (json_clamp j (json_get j 0 ''max'') (Fin 0) (Fin 0) (Fin (of_nat CTX_CAP))))) ms
           (the (chat_of x)) = (GEISTR_OK, c1)"
  obtains ps st c2 where "gives R c1 ps st c2" and "chat_of x' = Some c2"
    and "c_out k' = c_out k @ reply_bytes processed_hdr [] @ frames ps @ reply_bytes (last_hdr R st c2) []"
proof -
  obtain mx where mx: "json_clamp j (json_get j 0 ''max'') (Fin 0) (Fin 0) (Fin (of_nat CTX_CAP)) = (mx, False)"
    using assms(3) by (metis (full_types) prod.collapse)
  have c1: "send_to R (dnat mx) ms (the (chat_of x)) = (GEISTR_OK, c1)" using c1 mx by simp
  obtain ok1 k1 where w: "write_frame processed_hdr [] k = (ok1, k1)" by fastforce
  note eq = assms(1) [unfolded op_chat_send_def mx assms(2) c1 prod.case option.case w, simplified]
  obtain ok1: "ok1" using eq by (cases ok1) (auto split: option.splits)
  with eq obtain so c2 k2 where s: "stream R c1 k1 = Some (so, c2, k2)"
    by (auto split: option.splits)
  with eq ok1 obtain st where st: "so = Some st" by (cases so) auto
  from stream_writes [OF s [unfolded st]] obtain ps where ps: "gives R c1 ps st c2" "c_out k2 = c_out k1 @ frames ps"
    by blast
  have l: "write_frame (last_hdr R st c2) [] k2 = (True, k')" "chat_of x' = Some c2"
    using eq ok1 s st by (auto simp: last_hdr_def split: prod.splits)
  show thesis
    using that [OF ps(1) l(2)] write_frame_out [OF l(1)] ps(2) write_frame_out [of processed_hdr "[]" k k1] w ok1
    by simp
qed

subsection \<open>What the client makes of it\<close>

lemma fits_piece: "length (piece_hdr p) \<le> HDR_CAP \<Longrightarrow> fits (piece_hdr p) []"
  by (simp add: fits_def) (simp add: piece_hdr_def)

text \<open>One piece: a call of \<open>part\<close> with its kind and text.\<close>

lemma chat_stream_piece:
  assumes "cl_in g = reply_bytes (piece_hdr p) [] @ rest" and "length (piece_hdr p) \<le> HDR_CAP"
    and "part got (p_part p = PART_THINKING) (cstr (p_text p))"
  obtains g' where "cl_in g' = rest"
    and "chat_stream part got g = chat_stream part (got @ [(p_part p = PART_THINKING, cstr (p_text p))]) g'"
proof -
  let ?fs = "[(''ok'', JTrue), (''done'', JFalse),
     (''part'', JStr (if p_part p = PART_THINKING then ''thinking'' else ''answer'')), (''text'', JStr (p_text p))]"
  obtain g' where g': "gd_recv g = (True, g')" "received g' ?fs" "cl_in g' = rest"
    using gd_recv_reply [OF assms(1) [unfolded piece_tree] fits_piece [OF assms(2), unfolded piece_tree]] by auto
  have f: "map_of (raw_fields sb_esc ?fs) ''ok'' = Some JTrue" "map_of (raw_fields sb_esc ?fs) ''done'' = Some JFalse"
    "map_of (raw_fields sb_esc ?fs) ''part'' = Some (JStr (if p_part p = PART_THINKING then ''thinking'' else ''answer''))"
    "map_of (raw_fields sb_esc ?fs) ''text'' = Some (JStr (p_text p))"
    by (simp_all add: raw_fields_def sb_esc_def)
  have t: "gd_true g' ''ok''" "\<not> gd_true g' ''done''"
    using received_true [OF g'(2) f(1)] received_true [OF g'(2) f(2)] by simp_all
  have a: "concat (map sb_esc ''thinking'') = ''thinking''" "concat (map sb_esc ''answer'') = ''answer''"
    by (simp_all add: sb_esc_def)
  from received_str [OF g'(2) f(3)] received_str [OF g'(2) f(4)] a assms(3)
  have "chat_stream part got g = chat_stream part (got @ [(p_part p = PART_THINKING, cstr (p_text p))]) g'"
    by (auto simp: chat_stream.simps [of part got g] g'(1) t Let_def split: if_splits)
  with g'(3) that show thesis by blast
qed

text \<open>What the caller sees of the pieces.\<close>

definition seen :: "piece list \<Rightarrow> (bool \<times> string) list" where
  "seen ps = map (\<lambda>p. (p_part p = PART_THINKING, cstr (p_text p))) ps"

lemma chat_stream_pieces:
  assumes "cl_in g = frames ps @ rest" and "\<forall>p \<in> set ps. length (piece_hdr p) \<le> HDR_CAP"
    and "\<And>got th s. part got th s"
  shows "\<exists>g'. cl_in g' = rest \<and> chat_stream part got g = chat_stream part (got @ seen ps) g'"
  using assms(1,2)
proof (induction ps arbitrary: g got)
  case Nil
  then show ?case by (auto simp: frames_def seen_def)
next
  case (Cons p ps)
  have "cl_in g = reply_bytes (piece_hdr p) [] @ frames ps @ rest" using Cons.prems(1) by (simp add: frames_def)
  moreover have "length (piece_hdr p) \<le> HDR_CAP" using Cons.prems(2) by simp
  ultimately obtain g1 where g1: "cl_in g1 = frames ps @ rest"
    "chat_stream part got g = chat_stream part (got @ [(p_part p = PART_THINKING, cstr (p_text p))]) g1"
    using assms(3) by (rule chat_stream_piece)
  have "\<forall>p \<in> set ps. length (piece_hdr p) \<le> HDR_CAP" using Cons.prems(2) by simp
  from Cons.IH [OF g1(1) this, of "got @ [(p_part p = PART_THINKING, cstr (p_text p))]"] g1(2)
  show ?case by (simp add: seen_def)
qed

text \<open>The last frame of an answer that ended well: the numbers as the runtime printed them.\<close>

definition stats_ok :: "stats \<Rightarrow> bool" where
  "stats_ok s \<longleftrightarrow> st_finish s < 6 \<and> length (st_times s) = 4 \<and> (\<forall>t \<in> set (st_times s). prim_ok t)"

lemma finish_tree: "n < 6 \<Longrightarrow> sb_json_str (finish_name n) = DQUOTE # finish_name n @ [DQUOTE]"
proof -
  assume "n < 6"
  then have "n \<in> set [0..<6]" by simp
  moreover have "\<forall>n \<in> set [0..<6]. sb_json_str (finish_name n) = DQUOTE # finish_name n @ [DQUOTE]"
    by (simp add: upt_rec finish_name_def sb_json_str_def sb_esc_def)
  ultimately show ?thesis by blast
qed

lemma last_tree:
  assumes "stats_ok (r_stats R c)" and "length (stats_json R c) < 511" and "st = GEISTR_OK \<or> st = GEISTR_CANCELLED"
  obtains fs where "last_hdr R st c = render sb_esc (JObj ((''ok'', JTrue) # (''done'', JTrue) # fs))"
    and "jfields_ok fs" and "ntoks (JObj fs) \<le> 4000"
proof -
  let ?s = "r_stats R c"
  have "length (st_times ?s) = 4" using assms(1) by (simp add: stats_ok_def)
  then obtain a b d e where t: "st_times ?s = [a, b, d, e]" by (auto simp: length_Suc_conv eval_nat_numeral)
  let ?fs = "[(''finish'', JStr (finish_name (st_finish ?s))), (''input_tokens'', JNum (st_input ?s)),
     (''context_tokens'', JNum (st_context ?s)), (''output_tokens'', JNum (st_output ?s)), (''dropped'', JNum (st_dropped ?s)),
     (''prefill_ms'', JPrim a), (''first_answer_ms'', JPrim b), (''generation_ms'', JPrim d), (''total_ms'', JPrim e),
     (''length'', JNum (r_len R c))]"
  have keys: \<open>sb_json_str ''finish'' = ''"finish"''\<close> \<open>sb_json_str ''input_tokens'' = ''"input_tokens"''\<close>
    \<open>sb_json_str ''context_tokens'' = ''"context_tokens"''\<close> \<open>sb_json_str ''output_tokens'' = ''"output_tokens"''\<close>
    \<open>sb_json_str ''dropped'' = ''"dropped"''\<close> \<open>sb_json_str ''prefill_ms'' = ''"prefill_ms"''\<close>
    \<open>sb_json_str ''first_answer_ms'' = ''"first_answer_ms"''\<close> \<open>sb_json_str ''generation_ms'' = ''"generation_ms"''\<close>
    \<open>sb_json_str ''total_ms'' = ''"total_ms"''\<close> \<open>sb_json_str ''length'' = ''"length"''\<close>
    by (simp_all add: sb_json_str_def sb_esc_def)
  have p: "sb_printf s = s" if "length (sb_printf s) < 511" for s
    using that by (simp add: sb_printf_def min_def split: if_splits)
  have fin: "sb_json_str (finish_name (st_finish ?s)) = DQUOTE # finish_name (st_finish ?s) @ [DQUOTE]"
    using finish_tree assms(1) by (simp add: stats_ok_def)
  have r: "last_hdr R st c = render sb_esc (JObj ((''ok'', JTrue) # (''done'', JTrue) # ?fs))"
    using assms(3) unfolding last_hdr_def stats_json_def Let_def
    unfolding p [OF assms(2) [unfolded stats_json_def Let_def]]
    by (auto simp: sb_keys keys fin t)
  show thesis
    using that [OF r] assms(1) by (simp add: stats_ok_def t)
qed

lemma chat_stream_last:
  assumes "cl_in g = reply_bytes (last_hdr R st c) [] @ rest" and "stats_ok (r_stats R c)"
    and "length (stats_json R c) < 511" and "st = GEISTR_OK \<or> st = GEISTR_CANCELLED"
  shows "\<exists>cs g'. chat_stream part got g = (True, cs, got, g')"
proof -
  obtain fs where fs: "last_hdr R st c = render sb_esc (JObj ((''ok'', JTrue) # (''done'', JTrue) # fs))"
    "jfields_ok fs" "ntoks (JObj fs) \<le> 4000"
    by (rule last_tree [OF assms(2-4)])
  let ?fs = "(''ok'', JTrue) # (''done'', JTrue) # fs"
  have "length (last_hdr R st c) \<le> HDR_CAP" "last_hdr R st c \<noteq> []"
    using assms(3,4) by (auto simp: last_hdr_def HDR_CAP_def)
  then have "fits (render sb_esc (JObj ?fs)) []" by (simp only: fits_def fs(1)) simp
  then obtain g' where g': "gd_recv g = (True, g')" "received g' ?fs"
    using gd_recv_reply [OF assms(1) [unfolded fs(1)]] fs(2,3) by auto
  have f: "map_of (raw_fields sb_esc ?fs) ''ok'' = Some JTrue" "map_of (raw_fields sb_esc ?fs) ''done'' = Some JTrue"
    by (simp_all add: raw_fields_def sb_esc_def)
  have "gd_true g' ''ok''" "gd_true g' ''done''"
    using received_true [OF g'(2) f(1)] received_true [OF g'(2) f(2)] by simp_all
  then show ?thesis by (simp add: chat_stream.simps [of part got g] g'(1))
qed

text \<open>The empty piece that says the input was processed.\<close>

lemma processed_piece: "processed_hdr = piece_hdr \<lparr>p_part = PART_ANSWER, p_text = []\<rparr>"
  by (simp add: processed_hdr_def piece_hdr_def sb_json_str_def)

text \<open>From the runtime to the caller.\<close>

lemma chat_answer:
  assumes "cl_in g = reply_bytes processed_hdr [] @ frames ps @ reply_bytes (last_hdr R st c) [] @ rest"
    and "\<forall>p \<in> set ps. length (piece_hdr p) \<le> HDR_CAP" and "\<And>got th s. part got th s"
    and "stats_ok (r_stats R c)" and "length (stats_json R c) < 511" and "st = GEISTR_OK \<or> st = GEISTR_CANCELLED"
  shows "\<exists>cs g'. chat_stream part [] g = (True, cs, (False, []) # seen ps, g')"
proof -
  let ?e = "\<lparr>p_part = PART_ANSWER, p_text = []\<rparr>"
  have "cl_in g = frames (?e # ps) @ reply_bytes (last_hdr R st c) [] @ rest"
    using assms(1) by (simp add: frames_def processed_piece)
  moreover have "\<forall>p \<in> set (?e # ps). length (piece_hdr p) \<le> HDR_CAP"
    using assms(2) by (simp add: piece_hdr_def sb_json_str_def HDR_CAP_def)
  ultimately obtain g' where g': "cl_in g' = reply_bytes (last_hdr R st c) [] @ rest"
    "chat_stream part [] g = chat_stream part ([] @ seen (?e # ps)) g'"
    using chat_stream_pieces [of g "?e # ps"] assms(3) by blast
  have "seen (?e # ps) = (False, []) # seen ps" by (simp add: seen_def cstr_def)
  with g' chat_stream_last [OF g'(1) assms(4-6)] show ?thesis by fastforce
qed

end
