(* ===== verification/Samples.thy ===== *)
theory Samples
  imports Streams Watched
begin

section \<open>Concrete inputs\<close>

text \<open>
  An engine whose sessions are their token list and pinned prefix, a runtime that always answers
  the same, and a daemon over both: the inputs at which properties with hypotheses
  are instantiated. \<open>list_engine\<close> keeps the engine's contract (\<open>list_engine_keeps\<close>), so that
  contract can be met.
\<close>

type_synonym kv = "token list \<times> nat"

definition list_engine :: "(unit, kv) engine" where
  "list_engine = \<lparr>
     g_create = (\<lambda>m ops. (True, Some ([], 0))),
     g_errmsg = (\<lambda>s. ''error''),
     g_tokenize = (\<lambda>s t n. Some (map (\<lambda>c. int (byte c)) t)),
     g_token_str = (\<lambda>s t. Some [char_of t]),
     g_reset = (\<lambda>(kv, p). (True, (take p kv, p))),
     g_prefill = (\<lambda>(kv, p) ts. (True, (kv @ ts, min p (length kv)))),
     g_peek = (\<lambda>(kv, p). map (\<lambda>t. Fin (of_int t)) kv),
     g_step = (\<lambda>(kv, p). (Some (int (length kv)), (kv @ [int (length kv)], min p (length kv)))),
     g_pin = (\<lambda>(kv, p) ts. (True, (ts, length ts))),
     g_token_by_text = (\<lambda>m t. -1), g_bos = (\<lambda>m. 1), g_arch = (\<lambda>m. ''a''), g_backend = (\<lambda>m. ''cpu''),
     p_logit = (\<lambda>x. ''0.0000''), p_logprob = (\<lambda>l x. ''-1.0000''), p_floats = (\<lambda>l. replicate (4 * length l) NUL)\<rparr>"

lemma list_engine_keeps: "engine_keeps list_engine fst (\<lambda>s. take (snd s) (fst s))"
  by (auto simp: engine_keeps_def list_engine_def min_def)

lemma list_engine_steady: "steady list_engine"
  by (auto simp: steady_def list_engine_def)

text \<open>This runtime answers every message with \<open>hi\<close>; a chat is the pieces it still has to give
  and its length in messages.\<close>

type_synonym ch = "nat \<times> nat"

definition hi_runtime :: "(unit, ch) runtime" where
  "hi_runtime = \<lparr>
     r_format = (\<lambda>r. None), r_open = (\<lambda>r m. (GEISTR_OK, Some (0, 0))), r_status_text = (\<lambda>s. ''error''),
     r_limit = (\<lambda>c n. (GEISTR_OK, c)),
     r_send = (\<lambda>(k, n) ms. (GEISTR_OK, (k + length ms, n + length ms))),
     r_next = (\<lambda>(k, n). if k = 0 then ((GEISTR_OK, \<lparr>p_part = PART_END, p_text = []\<rparr>), (0, n))
                         else ((GEISTR_OK, \<lparr>p_part = PART_ANSWER, p_text = ''hi''\<rparr>), (k - 1, n))),
     r_cancel = (\<lambda>(k, n). (0, n)),
     r_rewind = (\<lambda>(k, n) m. if m \<le> n then (GEISTR_OK, (k, m)) else (GEISTR_INVALID, (k, n))),
     r_len = snd, r_error = (\<lambda>c. ''error''),
     r_stats = (\<lambda>c. \<lparr>st_finish = 1, st_input = 0, st_context = 0, st_output = 0, st_dropped = 0,
                       st_times = [''0'', ''0'', ''0'', ''0'']\<rparr>)\<rparr>"

definition env0 :: env where
  "env0 = \<lparr>now = 7, entropy = replicate 8 NUL, elapsed = ''1''\<rparr>"

definition build0 :: build where
  "build0 = \<lparr>version_string = ''1'', source_revision = [], source_state = ''clean'', archive_sha256 = ''0''\<rparr>"

definition daemon0 :: "string option \<Rightarrow> bool \<Rightarrow> (unit, kv, unit, ch) daemon" where
  "daemon0 tk nh = \<lparr>mo = \<lparr>mo_name = ''m'', mo_eos = 2, mo_eot = [], mo_add_bos = True\<rparr>, mdl = (), rt = Some (),
     chats = replicate CHAT_MAX no_chat, n_chats = 2, vocab = 300, sesss = replicate SESS_MAX no_sess, n_max = 2,
     idle_s = 1800, auth_token = tk, need_hello = nh\<rparr>"

definition conn0 :: "string \<Rightarrow> conn" where
  "conn0 s = \<lparr>c_in = s, c_out = [], c_room = 100000, broken = False, authed = False\<rparr>"

definition sess0 :: "token list \<Rightarrow> nat \<Rightarrow> kv sess" where
  "sess0 kv p = \<lparr>live = True, sid = replicate 16 (CHR ''0''), handle_of = Some (kv, p), hist = kv, pinned = p, used = 7\<rparr>"

definition client0 :: "string \<Rightarrow> client" where
  "client0 s = \<lparr>cl_token = [], cl_err = [], cl_open = False, cl_in = [], cl_room = 0, cl_out = [],
     cl_net = [Some (s, 100000)], cl_hdr = [], cl_body = [], cl_tok = [], cl_ntok = 0\<rparr>"

subsection \<open>A connection of one request\<close>

lemma serve_one:
  assumes "read_frame c = (Frame hdr body, c1)" and "handle E R b (vs n) (cstr hdr) body d c1 = Some (ok, d', c2)"
    and "length (c_in c2) < 8" and "\<not> broken c2"
  shows "\<exists>c'. serve_conn E R b vs n d c = Some (d', c')"
proof (cases ok)
  case True
  have "read_frame c2 = (Eof, c2\<lparr>c_in := []\<rparr>)"
    using assms(3) by (simp add: read_frame_def read_all_def)
  then have "serve_conn E R b vs (Suc n) d' c2 = Some (d', c2\<lparr>c_in := []\<rparr>)"
    by (simp add: serve_conn.simps [of E R b vs "Suc n"])
  with assms True show ?thesis by (simp add: serve_conn.simps [of E R b vs n])
qed (use assms in \<open>simp add: serve_conn.simps [of E R b vs n]\<close>)

definition open_hdr :: string where
  \<open>open_hdr = ''{"op":"open"}''\<close>

text \<open>Its tokens, and the members a lookup finds.\<close>

definition open_json :: json where
  "open_json = \<lparr>src = open_hdr, tok =
     [\<lparr>tok_type = JSMN_OBJECT, tok_start = 0, tok_end = 13, tok_size = 1, tok_parent = -1\<rparr>,
      \<lparr>tok_type = JSMN_STRING, tok_start = 2, tok_end = 4, tok_size = 1, tok_parent = 0\<rparr>,
      \<lparr>tok_type = JSMN_STRING, tok_start = 7, tok_end = 11, tok_size = 0, tok_parent = 1\<rparr>], json_n = 3\<rparr>"

lemma open_parse: "json_parse open_hdr = Some open_json"
  by code_simp

lemma open_fields:
  "json_strdup open_json (json_get open_json 0 ''op'') = Some ''open''"
  "json_strdup open_json (json_get open_json 0 ''session'') = None"
  "json_get open_json 0 ''temperature'' = -1" "json_get open_json 0 ''top_p'' = -1"
  "json_get open_json 0 ''top_k'' = -1" "json_get open_json 0 ''seed'' = -1"
  "json_get open_json 0 ''max'' = -1"
  by code_simp+

lemma open_opts_open: "snd (open_opts open_json) = False"
  by (simp add: open_opts_def open_fields json_clamp_def Let_def)

lemma handle_open:
  "\<exists>d' c'. handle list_engine hi_runtime build0 env0 open_hdr [] (daemon0 None False) (conn0 []) = Some (True, d', c')
     \<and> sesss d' ! 0 = sess0 [] 0 \<and> n_max d' = 2 \<and> c_in c' = [] \<and> \<not> broken c'"
proof -
  let ?d = "daemon0 None False"
  have e: "sess_evict_idle t ?d = ?d" for t
    by (simp add: sess_evict_idle_def daemon0_def SESS_MAX_def upt_rec no_sess_def)
  have s: "sess_slot ?d = (0, ?d)"
    by (simp add: sess_slot_def sess_pick_def slot_index_def free_slot_def daemon0_def SESS_MAX_def upt_rec no_sess_def)
  have r: "random_id (entropy env0) = replicate 16 (CHR ''0'')"
    by (simp add: random_id_def env0_def hexdig_0 upt_rec) (simp add: eval_nat_numeral)
  obtain ops where o1: "open_opts open_json = (ops, False)" using open_opts_open by (cases "open_opts open_json") simp
  have op: "\<exists>h. op_open list_engine env0 open_json ?d = (Ok h [], set_sess 0 (sess0 [] 0) ?d) \<and> length h < 99000"
  proof -
    have "set_sess 0 \<lparr>live = True, sid = replicate 16 (CHR ''0''), handle_of = Some ([], 0), hist = [], pinned = 0,
        used = now env0\<rparr> ?d = set_sess 0 (sess0 [] 0) ?d" by (simp only: sess0_def env0_def env.select_convs)
    moreover have "g_create list_engine () ops = (True, Some ([], 0))" by (simp only: list_engine_def engine.select_convs)
    moreover have "mdl ?d = ()" by simp
    ultimately show ?thesis
      unfolding op_open_def o1 prod.case e s r by (simp del: replicate.simps)
  qed
  then obtain h where h: "op_open list_engine env0 open_json ?d = (Ok h [], set_sess 0 (sess0 [] 0) ?d)"
    "length h < 99000" by blast
  have w: "write_frame h [] (conn0 []) = (True, conn0 []\<lparr>c_out := frame_of (\<lambda>n. wr_u32 (word_of_nat n)) h [],
      c_room := 99992 - length h\<rparr>)"
    using write_frame_ok [of "conn0 []" h "[]"] h(2) by (simp add: conn0_def)
  have f: "sess_find (now env0) None ?d = (None, ?d)" by (simp add: sess_find_def find_slot_def)
  have "n_max ?d = 2" "length (sesss ?d) = 16" "need_hello ?d = False" by (simp_all add: daemon0_def SESS_MAX_def)
  then show ?thesis
    by (simp add: handle_def open_parse open_fields dispatch_def f plain_op_def h finish_op_def answer_def w
        set_sess_def Let_def) (simp add: conn0_def)
qed

lemma fits_open: "fits open_hdr []"
  by (simp add: fits_def open_hdr_def HDR_CAP_def)

lemma table_ok_daemon0: "P no_sess \<Longrightarrow> table_ok P (daemon0 tk nh)"
  by (simp add: table_ok_def daemon0_def SESS_MAX_def)

lemma serve_open:
  "\<exists>d' c'. serve_conn list_engine hi_runtime build0 (\<lambda>n. env0) 0 (daemon0 None False)
      (conn0 (frame_of gd_wr open_hdr [])) = Some (d', c') \<and> sesss d' ! 0 = sess0 [] 0 \<and> n_max d' = 2"
proof -
  have "read_frame (conn0 (frame_of gd_wr open_hdr [])) = (Frame open_hdr [], conn0 [])"
    using read_frame_request [OF fits_open, of "conn0 (frame_of gd_wr open_hdr [])" "[]"] by (simp add: conn0_def)
  moreover obtain ok d' c2 where h: "handle list_engine hi_runtime build0 env0 (cstr open_hdr) [] (daemon0 None False) (conn0 [])
      = Some (ok, d', c2)" "sesss d' ! 0 = sess0 [] 0" "n_max d' = 2" "length (c_in c2) = 0" "\<not> broken c2"
    using handle_open by (fastforce simp: open_hdr_def cstr_def)
  ultimately show ?thesis
    using serve_one [of _ open_hdr "[]" "conn0 []" _ _ _ "\<lambda>n. env0" 0] by fastforce
qed

text \<open>The same request at a daemon that requires a token.\<close>

lemma read_open: "read_frame (conn0 (frame_of gd_wr open_hdr [])) = (Frame open_hdr [], conn0 [])"
  using read_frame_request [OF fits_open, of "conn0 (frame_of gd_wr open_hdr [])" "[]"] by (simp add: conn0_def)

lemma headers_open: "headers (conn0 (frame_of gd_wr open_hdr [])) = [open_hdr]"
  by (simp add: headers.simps read_open) (simp add: headers.simps read_frame_def read_all_def conn0_def open_hdr_def cstr_def)

lemma serve_stranger:
  "\<exists>d' c'. serve_conn list_engine hi_runtime build0 (\<lambda>n. env0) 0 (daemon0 (Some ''t'') True)
      (conn0 (frame_of gd_wr open_hdr [])) = Some (d', c')"
proof -
  have "cstr open_hdr = open_hdr" by (simp add: open_hdr_def cstr_def)
  moreover have "need_hello (daemon0 (Some ''t'') True)" "\<not> authed (conn0 [])" by (simp_all add: daemon0_def conn0_def)
  ultimately show ?thesis
    by (simp add: serve_conn.simps read_open handle_def open_parse open_fields)
qed

subsection \<open>A prefill and a chat\<close>

lemma sess_ok_0: "length kv < 4096 \<Longrightarrow> p \<le> length kv \<Longrightarrow> sess_ok (sess0 kv p)" "live (sess0 kv p)"
  by (simp_all add: sess_ok_def sess0_def CTX_CAP_def)

lemma prefill_0: "op_prefill list_engine 300 (ids_body [7, 8]) (sess0 [7] 0) = (Ok (prefilled_hdr 1 1 2) [], sess0 [7, 8] 0)"
proof -
  have "ids_of (ids_body [7, 8]) = [7, 8]" "length (ids_body [7, 8]) = 8"
    using ids_of_bytes [of "[7, 8]"] by (simp_all add: ids_body_bytes int32_def) (simp add: bytes_of_def)
  then show ?thesis
    by (simp add: op_prefill_def prefill_sess_def prefill_tail_def hist_push_def CTX_CAP_def sess0_def Let_def list_engine_def)
      (simp add: eval_nat_numeral)
qed

definition chat0 :: "ch chat" where
  "chat0 = \<lparr>chat_live = True, chat_id = replicate 16 (CHR ''0''), chat_of = Some (0, 0), chat_used = 7\<rparr>"

lemma send_msgs_0: "send_msgs (chat_body [(''user'', ''hi'')]) = Some [(Some ''user'', Some ''hi'')]"
  using send_msgs_chat_body [of "[(''user'', ''hi'')]"] by (simp add: JSON_TOK_CAP_def cstr_def)

lemma send_to_0: "send_to hi_runtime n [(Some ''user'', Some ''hi'')] (the (chat_of chat0)) = (GEISTR_OK, (1, 1))"
  by (simp add: send_to_def hi_runtime_def chat0_def)

lemma hi_stats: "stats_ok (r_stats hi_runtime c)"
  by (simp add: hi_runtime_def stats_ok_def prim_ok_def prim_start_def prim_end_def)

lemma hi_stats_short: "length (stats_json hi_runtime (k, 1)) < 511"
proof -
  have "length (dec 0) = 1" "length (dec 1) = 1" by (simp_all add: dec.simps)
  then show ?thesis
    by (simp add: stats_json_def finish_name_def sb_printf_def hi_runtime_def Let_def min_def)
qed

lemma hi_next:
  "r_next hi_runtime (0, n) = ((GEISTR_OK, \<lparr>p_part = PART_END, p_text = []\<rparr>), (0, n))"
  "r_next hi_runtime (Suc k, n) = ((GEISTR_OK, \<lparr>p_part = PART_ANSWER, p_text = ''hi''\<rparr>), (k, n))"
  by (simp_all add: hi_runtime_def)

lemma hi_gives: "gives hi_runtime (1, 1) ps st c2 \<Longrightarrow> ps = [\<lparr>p_part = PART_ANSWER, p_text = ''hi''\<rparr>]"
  by (cases ps; cases "tl ps") (auto simp: hi_runtime_def split: if_splits)

lemma hi_pieces: "r_next hi_runtime c = ((st, p), c') \<Longrightarrow> st = GEISTR_OK \<and> length (piece_hdr p) \<le> HDR_CAP"
  by (cases c) (auto simp: hi_runtime_def piece_hdr_def sb_json_str_def sb_esc_def HDR_CAP_def split: if_splits)

lemma chat_send_0:
  "\<exists>x' k'. op_chat_send hi_runtime open_json (chat_body [(''user'', ''hi'')]) chat0 (conn0 []) = Some (True, x', k')
     \<and> chat_of x' = Some (0, 1)"
proof -
  have w: "\<exists>c'. write_frame h b c = (True, c') \<and> \<not> broken c' \<and> c_room c' = c_room c - (8 + length h + length b)"
    if "\<not> broken c" "8 + length h + length b \<le> c_room c" for h b c
    using write_frame_ok [OF that] that(1) by auto
  let ?p = "\<lparr>p_part = PART_ANSWER, p_text = ''hi''\<rparr>"
  have "length processed_hdr < 100" "length (piece_hdr ?p) < 100"
    by (simp_all add: processed_hdr_def piece_hdr_def sb_json_str_def sb_esc_def)
  obtain k1 where k1: "write_frame processed_hdr [] (conn0 []) = (True, k1)" "\<not> broken k1" "99000 \<le> c_room k1"
    using w [of "conn0 []" processed_hdr "[]"] by (auto simp: conn0_def processed_hdr_def)
  obtain k2 where k2: "write_frame (piece_hdr ?p) [] k1 = (True, k2)" "\<not> broken k2" "90000 \<le> c_room k2"
    using w [of k1 "piece_hdr ?p" "[]"] k1 by (auto simp: piece_hdr_def sb_json_str_def sb_esc_def)
  have s: "stream hi_runtime (1, 1) k1 = Some (Some GEISTR_OK, (0, 1), k2)"
    using k2(1) by (simp add: stream.simps hi_next Let_def)
  obtain k3 where k3: "write_frame (last_hdr hi_runtime GEISTR_OK (0, 1)) [] k2 = (True, k3)"
    using w [of k2 "last_hdr hi_runtime GEISTR_OK (0, 1)" "[]"] hi_stats_short [of 0] k2(2,3) by (auto simp: last_hdr_def)
  have "json_clamp open_json (json_get open_json 0 ''max'') (Fin 0) (Fin 0) (Fin (of_nat CTX_CAP)) = (Fin 0, False)"
    by (simp add: open_fields json_clamp_def json_num_def CTX_CAP_def)
  with k3 show ?thesis
    by (simp add: op_chat_send_def send_msgs_0 send_to_0 k1(1) s last_hdr_def del: One_nat_def)
qed

subsection \<open>Other requests\<close>

lemma open_tokens: "jsmn_parse open_hdr JSON_TOK_CAP = Inr (3, tok open_json)"
  using open_parse by (auto simp: json_parse_def open_json_def split: sum.splits if_splits)

lemma open_get: "key \<noteq> ''op'' \<Longrightarrow> json_get open_json 0 key = -1"
proof -
  assume k: "key \<noteq> ''op''"
  have "tok_text open_json 1 = ''op''" by code_simp
  with k have "\<not> json_key_at open_json 0 key 1" "\<not> json_key_at open_json 0 key 2"
    by (simp_all add: json_key_at_def) (simp add: open_json_def)
  then show ?thesis by (simp add: json_get_def open_json_def upt_rec eval_nat_numeral)
qed

lemma chat_opts_open: "snd (chat_opts_of open_json) = False"
  by (simp add: chat_opts_of_def open_get json_clamp_def Let_def)

text \<open>The object \<open>{"topk":0.5}\<close>.\<close>
definition half_json :: json where
  \<open>half_json = \<lparr>src = ''{"topk":0.5}'', tok =
     [\<lparr>tok_type = JSMN_OBJECT, tok_start = 0, tok_end = 12, tok_size = 1, tok_parent = -1\<rparr>,
      \<lparr>tok_type = JSMN_STRING, tok_start = 2, tok_end = 6, tok_size = 1, tok_parent = 0\<rparr>,
      \<lparr>tok_type = JSMN_PRIMITIVE, tok_start = 8, tok_end = 11, tok_size = 0, tok_parent = 1\<rparr>], json_n = 3\<rparr>\<close>

lemma half_parse: \<open>json_parse ''{"topk":0.5}'' = Some half_json\<close> by code_simp
lemma half_get: "json_get half_json 0 ''topk'' = 2" by code_simp
lemma half_rest: "tok_rest half_json 2 = ''0.5}''" by code_simp
lemma half_topk: "json_num half_json (json_get half_json 0 ''topk'') (Fin 0) = Fin (1 / 2)"
proof -
  have "\<not> (2::int) < 0" "tok_type (tok_at half_json 2) = JSMN_PRIMITIVE" "tok_char half_json 2 = CHR ''0''"
    by (simp_all add: half_json_def tok_char_def)
  then show ?thesis
    by (simp add: half_get json_num_def half_rest is_digit_def) (simp add: strtod_def strtod_abs_def Let_def lower_def digits.simps is_digit_def digit_val_def hexval_def exponent_def)
qed

end
