(* ===== verification/Lifecycle.thy ===== *)
theory Lifecycle
  imports Prelude
begin

section \<open>The channel between geistd and its parent (src/src/lifecycle.c)\<close>

text \<open>
  Two groups of 64-bit atomics in shared memory, each behind a sequence number that is odd while a
  write is on: the load phases with \<open>sequence\<close>, and the memory sample with \<open>memory_sequence\<close>. The
  functions come first, one call at a time; then the atomic operations of a writer and a reader
  that interleave (\<open>lock_step\<close>), where a sample a reader accepts is proved to be one that was
  written. Creating and mapping the file is system code, \<open>lifecycle_inherit\<close> starts from the
  answers of the system calls.
\<close>

unbundle bit_operations_syntax

datatype lifecycle_phase = LC_NONE | LC_BACKEND | LC_MODEL | LC_METADATA | LC_WARMUP | LC_READY

definition LC_MAGIC :: "32 word" where "LC_MAGIC = 0x474c4302"
definition LC_PHASES :: nat where "LC_PHASES = 6"

fun phase_index :: "lifecycle_phase \<Rightarrow> nat" where
  "phase_index LC_NONE = 0"
| "phase_index LC_BACKEND = 1"
| "phase_index LC_MODEL = 2"
| "phase_index LC_METADATA = 3"
| "phase_index LC_WARMUP = 4"
| "phase_index LC_READY = 5"

text \<open>The phases are ordered as the daemon goes through them.\<close>

instantiation lifecycle_phase :: linorder
begin

definition less_eq_lifecycle_phase :: "lifecycle_phase \<Rightarrow> lifecycle_phase \<Rightarrow> bool" where
  "less_eq_lifecycle_phase a b \<longleftrightarrow> phase_index a \<le> phase_index b"

definition less_lifecycle_phase :: "lifecycle_phase \<Rightarrow> lifecycle_phase \<Rightarrow> bool" where
  "less_lifecycle_phase a b \<longleftrightarrow> phase_index a < phase_index b"

instance
proof
  fix a b c :: lifecycle_phase
  show "a < b \<longleftrightarrow> a \<le> b \<and> \<not> b \<le> a"
    by (auto simp: less_eq_lifecycle_phase_def less_lifecycle_phase_def)
  show "a \<le> a" by (simp add: less_eq_lifecycle_phase_def)
  show "a \<le> b \<Longrightarrow> b \<le> c \<Longrightarrow> a \<le> c" by (simp add: less_eq_lifecycle_phase_def)
  show "a \<le> b \<Longrightarrow> b \<le> a \<Longrightarrow> a = b"
    by (cases a; cases b) (simp_all add: less_eq_lifecycle_phase_def)
  show "a \<le> b \<or> b \<le> a" by (auto simp: less_eq_lifecycle_phase_def)
qed

end

record lifecycle_shared =
  magic :: "32 word"
  size_of :: "32 word"
  generation :: u64
  sequence :: u64
  process :: u64
  started_ns :: u64
  phase_ns :: "u64 list"
  memory_sequence :: u64
  memory_time :: u64
  memory_bytes :: u64
  memory_status :: u64
  memory_source :: u64
  memory_unified :: u64

record lifecycle_snapshot =
  s_generation :: u64
  s_sequence :: u64
  s_process :: u64
  s_started_ns :: u64
  s_phase_ns :: "u64 list"

record lifecycle_memory =
  l_generation :: u64
  l_process :: u64
  l_sequence :: u64
  l_sampled_ns :: u64
  l_allocated_bytes :: u64
  l_status :: "32 word"
  l_source :: "32 word"
  l_unified :: bool

definition lifecycle_name :: "int \<Rightarrow> string" where
  "lifecycle_name phase =
     (if 0 \<le> phase \<and> phase < int LC_PHASES
      then [''idle'', ''backend'', ''model'', ''metadata'', ''warmup'', ''ready''] ! nat phase else ''unknown'')"

text \<open>What \<open>lifecycle_create\<close> leaves in the file; \<open>n\<close> is the size of the structure.\<close>

definition lifecycle_create :: "32 word \<Rightarrow> u64 \<Rightarrow> lifecycle_shared" where
  "lifecycle_create n gen =
     \<lparr>magic = LC_MAGIC, size_of = n, generation = gen, sequence = 0, process = 0, started_ns = 0,
      phase_ns = replicate LC_PHASES 0, memory_sequence = 0, memory_time = 0, memory_bytes = 0,
      memory_status = 0, memory_source = 0, memory_unified = 0\<rparr>"

text \<open>The child: its environment variable, whether descriptor 4 passes the tests of \<open>fstat\<close>, what is
  mapped (nothing if that failed), its process id and the time.\<close>

definition lifecycle_inherit ::
    "32 word \<Rightarrow> string option \<Rightarrow> bool \<Rightarrow> lifecycle_shared option \<Rightarrow> u64 \<Rightarrow> u64 \<Rightarrow> lifecycle_shared option" where
  "lifecycle_inherit n var file_ok mapped pid now =
     (if var \<noteq> Some ''4'' \<or> \<not> file_ok then None
      else
        (case mapped of
           None \<Rightarrow> None
         | Some s \<Rightarrow>
             if magic s \<noteq> LC_MAGIC \<or> size_of s \<noteq> n then None
             else Some (s\<lparr>process := pid, started_ns := now\<rparr>)))"

text \<open>A phase is recorded once.\<close>

definition lifecycle_phase_set :: "lifecycle_phase \<Rightarrow> u64 \<Rightarrow> lifecycle_shared option \<Rightarrow> lifecycle_shared option" where
  "lifecycle_phase_set phase now state =
     (case state of
        None \<Rightarrow> None
      | Some s \<Rightarrow>
          if phase \<le> LC_NONE \<or> phase_ns s ! phase_index phase \<noteq> 0 then Some s
          else
            let s1 = s\<lparr>sequence := sequence s + 1\<rparr>;
                s2 = s1\<lparr>phase_ns := (phase_ns s1)[phase_index phase := now]\<rparr>
            in Some (s2\<lparr>sequence := sequence s2 + 1\<rparr>))"

text \<open>One attempt of the readers; with nothing running beside it every attempt is the same.\<close>

definition lifecycle_read :: "lifecycle_shared option \<Rightarrow> u64 \<Rightarrow> lifecycle_snapshot option" where
  "lifecycle_read state gen =
     (case state of
        None \<Rightarrow> None
      | Some s \<Rightarrow>
          if generation s \<noteq> gen \<or> sequence s AND 1 \<noteq> 0 then None
          else if process s = 0 \<or> started_ns s = 0 then None
          else Some \<lparr>s_generation = generation s, s_sequence = sequence s, s_process = process s,
                     s_started_ns = started_ns s, s_phase_ns = phase_ns s\<rparr>)"

definition lifecycle_memory_write ::
    "lifecycle_memory option \<Rightarrow> lifecycle_shared option \<Rightarrow> lifecycle_shared option" where
  "lifecycle_memory_write sample state =
     (case (state, sample) of
        (Some s, Some m) \<Rightarrow>
          let s1 = s\<lparr>memory_sequence := memory_sequence s + 1\<rparr>;
              s2 = s1\<lparr>memory_time := l_sampled_ns m, memory_bytes := l_allocated_bytes m,
                      memory_status := ucast (l_status m), memory_source := ucast (l_source m),
                      memory_unified := of_bool (l_unified m)\<rparr>
          in Some (s2\<lparr>memory_sequence := memory_sequence s2 + 1\<rparr>)
      | _ \<Rightarrow> state)"

definition lifecycle_memory_read :: "lifecycle_shared option \<Rightarrow> u64 \<Rightarrow> lifecycle_memory option" where
  "lifecycle_memory_read state gen =
     (case state of
        None \<Rightarrow> None
      | Some s \<Rightarrow>
          if generation s \<noteq> gen \<or> memory_sequence s AND 1 \<noteq> 0 \<or> memory_sequence s = 0 \<or> process s = 0 then None
          else
            let m = \<lparr>l_generation = generation s, l_process = process s, l_sequence = memory_sequence s,
                     l_sampled_ns = memory_time s, l_allocated_bytes = memory_bytes s,
                     l_status = ucast (memory_status s), l_source = ucast (memory_source s),
                     l_unified = (memory_unified s \<noteq> 0)\<rparr>
            in if l_sampled_ns m \<noteq> 0 \<and> l_status m \<le> 3 \<and> l_source m \<le> 1 then Some m else None)"

subsection \<open>The sampler (src/src/resource_sampler.c)\<close>

datatype geist_status = GEIST_OK | GEIST_E_UNSUPPORTED | GEIST_E_OTHER

record resources =
  allocated_bytes :: u64
  source_kind :: "32 word"
  unified_memory :: bool

text \<open>The sample of one capture, from the backend's answer and the clock.\<close>

definition sample_of :: "geist_status \<Rightarrow> resources \<Rightarrow> u64 \<Rightarrow> lifecycle_memory" where
  "sample_of rc r now =
     \<lparr>l_generation = 0, l_process = 0, l_sequence = 0, l_sampled_ns = now,
      l_allocated_bytes = (if rc = GEIST_OK then allocated_bytes r else 0),
      l_status = (case rc of GEIST_OK \<Rightarrow> 1 | GEIST_E_UNSUPPORTED \<Rightarrow> 2 | GEIST_E_OTHER \<Rightarrow> 3),
      l_source = (if rc = GEIST_OK then source_kind r else 0),
      l_unified = (rc = GEIST_OK \<and> unified_memory r)\<rparr>"

text \<open>A capture: nothing without a channel or while another one is on (\<open>writing\<close>).\<close>

definition resource_sampler_capture ::
    "bool \<Rightarrow> geist_status \<Rightarrow> resources \<Rightarrow> u64 \<Rightarrow> lifecycle_shared option \<Rightarrow> lifecycle_shared option" where
  "resource_sampler_capture writing rc r now channel =
     (if channel = None \<or> writing then channel else lifecycle_memory_write (Some (sample_of rc r now)) channel)"

text \<open>The loop of the thread looks at the clock every tenth of a second; the captures it makes.\<close>

fun run_sampler :: "u64 \<Rightarrow> u64 list \<Rightarrow> u64 list" where
  "run_sampler next [] = []"
| "run_sampler next (now # ticks) =
     (if next \<le> now then now # run_sampler (now + 2000000000) ticks else run_sampler next ticks)"

subsection \<open>Calls one after another\<close>

lemma seq_even: "(n :: u64) AND 1 = 0 \<Longrightarrow> (n + 1 + 1) AND 1 = 0"
proof -
  assume "n AND 1 = 0"
  then have "even n" by (simp add: and_one_eq even_iff_mod_2_eq_zero)
  then have "even (n + 1 + 1)" by simp
  then show ?thesis by (simp only: and_one_eq even_iff_mod_2_eq_zero)
qed

text \<open>A sample that was written is the sample read, as long as the sequence has not come back to 0.\<close>

lemma memory_write_read:
  assumes "memory_sequence s AND 1 = 0" and "memory_sequence s + 1 + 1 \<noteq> 0" and "process s \<noteq> 0"
    and "l_sampled_ns m \<noteq> 0" and "l_status m \<le> 3" and "l_source m \<le> 1"
  shows "lifecycle_memory_read (lifecycle_memory_write (Some m) (Some s)) (generation s)
     = Some (m\<lparr>l_generation := generation s, l_process := process s, l_sequence := memory_sequence s + 1 + 1\<rparr>)"
proof -
  have u: "ucast (ucast (x :: 32 word) :: u64) = x" for x by (rule bit_word_eqI) (simp add: bit_simps)
  show ?thesis
    using assms seq_even [OF assms(1)]
    by (cases m) (simp add: lifecycle_memory_write_def lifecycle_memory_read_def Let_def u add.assoc)
qed

lemma phase_set_read:
  assumes "sequence s AND 1 = 0" and "process s \<noteq> 0" and "started_ns s \<noteq> 0" and "generation s = gen"
    and "length (phase_ns s) = LC_PHASES" and "LC_NONE < phase"
  shows "\<exists>x. lifecycle_read (lifecycle_phase_set phase now (Some s)) gen = Some x
     \<and> s_phase_ns x ! phase_index phase = (if phase_ns s ! phase_index phase = 0 then now else phase_ns s ! phase_index phase)
     \<and> (\<forall>i. i \<noteq> phase_index phase \<longrightarrow> s_phase_ns x ! i = phase_ns s ! i)"
proof -
  have "phase_index phase < LC_PHASES" by (cases phase) (simp_all add: LC_PHASES_def)
  then show ?thesis
    using assms seq_even [OF assms(1)]
    by (auto simp: lifecycle_phase_set_def lifecycle_read_def Let_def add.assoc not_le)
qed

subsection \<open>Operations of two processes in any order\<close>

text \<open>
  The atomic operations of \<open>lifecycle_memory_write\<close> and \<open>lifecycle_phase\<close> (one increment, the
  stores still to do, one increment) and of the readers (the sequence, the cells one by one, the
  sequence again, at most three attempts). Writers exclude each other: the sampler by \<open>writing\<close>, the
  phases by having one thread. \<open>incs\<close>, \<open>at_read\<close> and \<open>past\<close> are for the proof only: the number of
  increments, their number when the reader began, and the contents after each finished write.
\<close>

datatype reader = Looking | Reading u64 "u64 list" | Accepted "u64 list"

record lock =
  seqn :: u64
  cells :: "u64 list"
  writing :: bool
  todo :: "(nat \<times> u64) list"
  reader_at :: reader
  tries :: nat
  incs :: nat
  at_read :: nat
  past :: "u64 list list"

inductive lock_step :: "lock \<Rightarrow> lock \<Rightarrow> bool" where
  write_begin: "\<not> writing x \<Longrightarrow>
    lock_step x (x\<lparr>seqn := seqn x + 1, incs := incs x + 1, writing := True, todo := ws\<rparr>)"
| write_cell: "writing x \<Longrightarrow> todo x = (i, v) # ws \<Longrightarrow> lock_step x (x\<lparr>cells := (cells x)[i := v], todo := ws\<rparr>)"
| write_end: "writing x \<Longrightarrow> todo x = [] \<Longrightarrow>
    lock_step x (x\<lparr>seqn := seqn x + 1, incs := incs x + 1, writing := False, past := cells x # past x\<rparr>)"
| read_begin: "reader_at x = Looking \<Longrightarrow> tries x < 3 \<Longrightarrow> seqn x AND 1 = 0 \<Longrightarrow>
    lock_step x (x\<lparr>reader_at := Reading (seqn x) [], at_read := incs x\<rparr>)"
| read_busy: "reader_at x = Looking \<Longrightarrow> tries x < 3 \<Longrightarrow> seqn x AND 1 \<noteq> 0 \<Longrightarrow>
    lock_step x (x\<lparr>tries := tries x + 1\<rparr>)"
| read_cell: "reader_at x = Reading q vs \<Longrightarrow> length vs < length (cells x) \<Longrightarrow>
    lock_step x (x\<lparr>reader_at := Reading q (vs @ [cells x ! length vs])\<rparr>)"
| read_accept: "reader_at x = Reading q vs \<Longrightarrow> length vs = length (cells x) \<Longrightarrow> seqn x = q \<Longrightarrow>
    lock_step x (x\<lparr>reader_at := Accepted vs\<rparr>)"
| read_refuse: "reader_at x = Reading q vs \<Longrightarrow> length vs = length (cells x) \<Longrightarrow> seqn x \<noteq> q \<Longrightarrow>
    lock_step x (x\<lparr>reader_at := Looking, tries := tries x + 1\<rparr>)"

inductive_cases lock_stepE: "lock_step x y"

inductive lock_reach :: "u64 list \<Rightarrow> lock \<Rightarrow> bool" for cs where
  start: "lock_reach cs \<lparr>seqn = 0, cells = cs, writing = False, todo = [], reader_at = Looking, tries = 0,
                         incs = 0, at_read = 0, past = [cs]\<rparr>"
| more: "lock_reach cs x \<Longrightarrow> lock_step x y \<Longrightarrow> lock_reach cs y"

text \<open>The invariant. The wrap-around of the sequence is part of it: the reader's test compares 64
  bits, so what it shows needs fewer than \<open>2 ^ 64\<close> increments.\<close>

definition lock_inv :: "lock \<Rightarrow> bool" where
  "lock_inv x \<longleftrightarrow> seqn x = of_nat (incs x) \<and> (writing x \<longleftrightarrow> odd (incs x))
     \<and> past x \<noteq> [] \<and> (\<not> writing x \<longrightarrow> cells x = hd (past x))
     \<and> (case reader_at x of
          Looking \<Rightarrow> True
        | Reading q vs \<Rightarrow> q = of_nat (at_read x) \<and> even (at_read x) \<and> at_read x \<le> incs x
            \<and> length vs \<le> length (cells x) \<and> (at_read x = incs x \<longrightarrow> vs = take (length vs) (cells x))
        | Accepted vs \<Rightarrow> incs x < 2 ^ 64 \<longrightarrow> vs \<in> set (past x))"

lemma even_u64 [simp]: "(word_of_nat n :: u64) AND 1 = 0 \<longleftrightarrow> even n"
proof -
  have "(word_of_nat n :: u64) AND 1 = word_of_nat (n mod 2)"
    using of_nat_and_eq [of n 1, where 'a = u64] by (simp add: and_one_eq)
  then show ?thesis by (cases "even n") (simp_all add: even_iff_mod_2_eq_zero odd_iff_mod_2_eq_one)
qed

lemma of_nat_u64_inj: "m \<le> n \<Longrightarrow> n < 2 ^ 64 \<Longrightarrow> (word_of_nat m :: u64) = word_of_nat n \<Longrightarrow> m = n"
  by (simp add: word_of_nat_eq_iff take_bit_nat_eq_self)

lemma lock_inv_step [intr_inv]:
  assumes "lock_inv x" and "lock_step x y"
  shows "lock_inv y"
  using assms(2)
proof cases
  case (read_accept q vs)
  have "vs \<in> set (past x)" if n: "incs x < 2 ^ 64"
  proof -
    have "q = of_nat (at_read x)" "at_read x \<le> incs x" "seqn x = of_nat (incs x)"
      using assms(1) read_accept(2) by (simp_all add: lock_inv_def)
    then have "at_read x = incs x" using of_nat_u64_inj [OF _ n] read_accept(4) by simp
    then have "vs = cells x" "\<not> writing x" using assms(1) read_accept(2,3) by (simp_all add: lock_inv_def)
    with assms(1) show ?thesis by (simp add: lock_inv_def)
  qed
  with assms(1) show ?thesis by (simp add: lock_inv_def read_accept(1))
next
  case (read_begin)
  with assms(1) show ?thesis by (auto simp: lock_inv_def)
next
  case (read_cell q vs)
  with assms(1) show ?thesis by (auto simp: lock_inv_def take_Suc_conv_app_nth)
qed (use assms(1) in \<open>auto simp: lock_inv_def split: reader.splits\<close>)

lemma lock_inv_reach: "lock_reach cs x \<Longrightarrow> lock_inv x"
proof (induction rule: lock_reach.induct)
  case start
  show ?case by (simp add: lock_inv_def)
qed (rule lock_inv_step)

text \<open>Readers give up after three attempts, so between two writes a reader makes only so many steps.\<close>

lemma lock_tries: "lock_reach cs x \<Longrightarrow> tries x \<le> 3 \<and> (reader_at x \<noteq> Looking \<longrightarrow> tries x < 3)"
  by (induction rule: lock_reach.induct) (auto elim!: lock_stepE)

lemma lock_length: "lock_reach cs x \<Longrightarrow> length (cells x) = length cs \<and> (\<forall>vs \<in> set (past x). length vs = length cs)"
  by (induction rule: lock_reach.induct) (auto elim!: lock_stepE)

subsection \<open>The functions as runs of steps\<close>

definition memory_cells :: "lifecycle_shared \<Rightarrow> u64 list" where
  "memory_cells s = [memory_time s, memory_bytes s, memory_status s, memory_source s, memory_unified s]"

definition memory_stores :: "lifecycle_memory \<Rightarrow> (nat \<times> u64) list" where
  "memory_stores m = [(0, l_sampled_ns m), (1, l_allocated_bytes m), (2, ucast (l_status m)), (3, ucast (l_source m)),
                      (4, of_bool (l_unified m))]"

lemma write_cells:
  "writing x \<Longrightarrow> lock_step\<^sup>*\<^sup>* (x\<lparr>todo := ws\<rparr>) (x\<lparr>cells := foldl (\<lambda>cs (i, v). cs[i := v]) (cells x) ws, todo := []\<rparr>)"
proof (induction ws arbitrary: x)
  case (Cons w ws)
  obtain i v where w: "w = (i, v)" by (cases w)
  have "lock_step (x\<lparr>todo := w # ws\<rparr>) ((x\<lparr>cells := (cells x)[i := v]\<rparr>)\<lparr>todo := ws\<rparr>)"
    using write_cell [of "x\<lparr>todo := w # ws\<rparr>" i v ws] Cons.prems by (simp add: w)
  moreover have "lock_step\<^sup>*\<^sup>* ((x\<lparr>cells := (cells x)[i := v]\<rparr>)\<lparr>todo := ws\<rparr>)
      (x\<lparr>cells := foldl (\<lambda>cs (i, v). cs[i := v]) (cells x) (w # ws), todo := []\<rparr>)"
    using Cons.IH [of "x\<lparr>cells := (cells x)[i := v]\<rparr>"] Cons.prems by (simp add: w)
  ultimately show ?case by (rule converse_rtranclp_into_rtranclp)
qed simp

text \<open>A call of \<open>lifecycle_memory_write\<close> is such a run, and leaves what the function says.\<close>

lemma memory_write_run:
  assumes "\<not> writing x" and "seqn x = memory_sequence s" and "cells x = memory_cells s"
    and "lifecycle_memory_write (Some m) (Some s) = Some s'"
  shows "\<exists>y. lock_step\<^sup>*\<^sup>* x y \<and> \<not> writing y \<and> seqn y = memory_sequence s' \<and> cells y = memory_cells s'
           \<and> past y = memory_cells s' # past x \<and> reader_at y = reader_at x"
proof -
  let ?w = "x\<lparr>seqn := seqn x + 1, incs := incs x + 1, writing := True\<rparr>"
  have s': "memory_sequence s' = memory_sequence s + 1 + 1"
    "memory_cells s' = foldl (\<lambda>cs (i, v). cs[i := v]) (memory_cells s) (memory_stores m)"
    using assms(4) by (auto simp: lifecycle_memory_write_def Let_def memory_cells_def memory_stores_def eval_nat_numeral)
  have "lock_step\<^sup>*\<^sup>* x (?w\<lparr>todo := memory_stores m\<rparr>)"
    using write_begin [OF assms(1), of "memory_stores m"] by simp
  moreover have "lock_step\<^sup>*\<^sup>* (?w\<lparr>todo := memory_stores m\<rparr>) (?w\<lparr>cells := memory_cells s', todo := []\<rparr>)"
    using write_cells [of ?w "memory_stores m"] by (simp add: assms(3) s'(2))
  moreover have "lock_step\<^sup>*\<^sup>* (?w\<lparr>cells := memory_cells s', todo := []\<rparr>)
      (?w\<lparr>cells := memory_cells s', todo := [], seqn := seqn x + 1 + 1, incs := incs x + 1 + 1, writing := False,
          past := memory_cells s' # past x\<rparr>)" (is "lock_step\<^sup>*\<^sup>* _ ?y")
    using write_end [of "?w\<lparr>cells := memory_cells s', todo := []\<rparr>"] by simp
  ultimately have "lock_step\<^sup>*\<^sup>* x ?y" by (meson rtranclp_trans)
  then show ?thesis
    using assms(2) s'(1) by (intro exI [of _ ?y]) simp
qed

end
