(* ===== verification/Gguf.thy ===== *)
theory Gguf
  imports Prelude
begin

section \<open>The GGUF header (src/src/gguf.c, src/src/model.c)\<close>

text \<open>
  \<open>gguf_read_meta\<close> over the bytes of a file: the position of the stream is explicit, and a read past
  the end fails. \<open>skip_val\<close> calls itself for the elements of an array of arrays; nothing bounds how
  deep, since a \<open>fseek\<close> may go backwards, so the depth is fuel here and \<open>Deep\<close> is the result that
  needs more of it.
\<close>

datatype 'a run = Done 'a | Bad | Deep

fun bind_run :: "'a run \<Rightarrow> ('a \<Rightarrow> 'b run) \<Rightarrow> 'b run" where
  "bind_run (Done x) f = f x"
| "bind_run Bad f = Bad"
| "bind_run Deep f = Deep"

definition GG_U8 :: nat where "GG_U8 = 0"
definition GG_U32 :: nat where "GG_U32 = 4"
definition GG_BOOL :: nat where "GG_BOOL = 7"
definition GG_STR :: nat where "GG_STR = 8"
definition GG_ARR :: nat where "GG_ARR = 9"

lemmas gg_defs = GG_U8_def GG_U32_def GG_BOOL_def GG_STR_def GG_ARR_def

text \<open>Bytes of a little-endian number, as the host reads it in place.\<close>

fun le_nat :: "string \<Rightarrow> nat" where
  "le_nat [] = 0"
| "le_nat (c # cs) = byte c + 256 * le_nat cs"

definition rd :: "string \<Rightarrow> nat \<Rightarrow> nat \<Rightarrow> (string \<times> nat) run" where
  "rd f p n = (if p + n \<le> length f then Done (take n (drop p f), p + n) else Bad)"

definition gg_u32 :: "string \<Rightarrow> nat \<Rightarrow> (nat \<times> nat) run" where
  "gg_u32 f p = bind_run (rd f p 4) (\<lambda>(b, p'). Done (le_nat b, p'))"

definition gg_u64 :: "string \<Rightarrow> nat \<Rightarrow> (nat \<times> nat) run" where
  "gg_u64 f p = bind_run (rd f p 8) (\<lambda>(b, p'). Done (le_nat b, p'))"

text \<open>The width of a type, 0 for those without a fixed one.\<close>

definition fixed :: "nat \<Rightarrow> nat" where
  "fixed t = (if t < 13 then [1, 1, 2, 2, 4, 4, 4, 1, 0, 0, 8, 8, 8] ! t else 0)"

text \<open>\<open>fseek\<close> from the current position: a position past the end is fine, one before the start or
  beyond a \<open>long\<close> is refused.\<close>

definition seek :: "nat \<Rightarrow> int \<Rightarrow> nat run" where
  "seek p off = (if 0 \<le> int p + off \<and> int p + off < 2 ^ 63 then Done (nat (int p + off)) else Bad)"

text \<open>\<open>(long) (n * fixed[et])\<close> in 64 bits.\<close>

definition long_product :: "nat \<Rightarrow> nat \<Rightarrow> int" where
  "long_product n w = sint (word_of_nat n * word_of_nat w :: 64 word)"

fun times_run :: "nat \<Rightarrow> ('a \<Rightarrow> 'a run) \<Rightarrow> 'a \<Rightarrow> 'a run" where
  "times_run 0 f x = Done x"
| "times_run (Suc n) f x = bind_run (f x) (times_run n f)"

fun skip_val :: "nat \<Rightarrow> string \<Rightarrow> nat \<Rightarrow> nat \<Rightarrow> nat run" where
  "skip_val 0 f t p = Deep"
| "skip_val (Suc k) f t p =
     (if fixed t > 0 then seek p (int (fixed t))
      else if t = GG_STR then
        bind_run (gg_u64 f p) (\<lambda>(n, p1). if n < 2 ^ 30 then seek p1 (int n) else Bad)
      else if t = GG_ARR then
        bind_run (gg_u32 f p) (\<lambda>(et, p1).
          bind_run (gg_u64 f p1) (\<lambda>(n, p2).
            if fixed et > 0 then seek p2 (long_product n (fixed et))
            else times_run n (skip_val k f et) p2))
      else Bad)"

text \<open>The string that is then used as a C string.\<close>

definition rd_str :: "string \<Rightarrow> nat \<Rightarrow> nat \<Rightarrow> (string \<times> nat) run" where
  "rd_str f p cap =
     bind_run (gg_u64 f p) (\<lambda>(n, p1).
       if n > cap then Bad else bind_run (rd f p1 n) (\<lambda>(s, p2). Done (cstr s, p2)))"

definition ends_with :: "string \<Rightarrow> string \<Rightarrow> bool" where
  "ends_with s suffix \<longleftrightarrow> length suffix \<le> length s \<and> drop (length s - length suffix) s = suffix"

record gguf_meta =
  tpl :: "string option"
  add_bos :: bool
  arch :: "string option"
  size_label :: "string option"
  file_type :: nat
  context_length :: nat

definition no_meta :: gguf_meta where
  "no_meta = \<lparr>tpl = None, add_bos = True, arch = None, size_label = None, file_type = 0, context_length = 0\<rparr>"

definition str_key :: "string \<Rightarrow> bool" where
  "str_key key \<longleftrightarrow> key = ''tokenizer.chat_template'' \<or> key = ''general.architecture'' \<or> key = ''general.size_label''"

definition set_str :: "string \<Rightarrow> string \<Rightarrow> gguf_meta \<Rightarrow> gguf_meta" where
  "set_str key s m =
     (if key = ''tokenizer.chat_template'' then m\<lparr>tpl := Some s\<rparr>
      else if key = ''general.architecture'' then m\<lparr>arch := Some s\<rparr>
      else m\<lparr>size_label := Some s\<rparr>)"

text \<open>One entry: the key, its type and the value.\<close>

definition read_kv :: "nat \<Rightarrow> string \<Rightarrow> gguf_meta \<times> nat \<Rightarrow> (gguf_meta \<times> nat) run" where
  "read_kv k f st =
     (case st of (m, p) \<Rightarrow>
        bind_run (rd_str f p 4096) (\<lambda>(key, p1).
          bind_run (gg_u32 f p1) (\<lambda>(t, p2).
            if t = GG_STR \<and> str_key key then
              bind_run (rd_str f p2 (2 ^ 20)) (\<lambda>(s, p3). Done (set_str key s m, p3))
            else if t = GG_BOOL \<and> key = ''tokenizer.ggml.add_bos_token'' then
              bind_run (rd f p2 1) (\<lambda>(b, p3). Done (m\<lparr>add_bos := (byte (b ! 0) \<noteq> 0)\<rparr>, p3))
            else if t = GG_U32 \<and> key = ''general.file_type'' then
              bind_run (gg_u32 f p2) (\<lambda>(v, p3). Done (m\<lparr>file_type := v\<rparr>, p3))
            else if t = GG_U32 \<and> ends_with key ''.context_length'' then
              bind_run (gg_u32 f p2) (\<lambda>(v, p3). Done (m\<lparr>context_length := v\<rparr>, p3))
            else bind_run (skip_val k f t p2) (\<lambda>p3. Done (m, p3)))))"

text \<open>The file, or none if it cannot be opened; \<open>Bad\<close> is the result false, with \<open>no_meta\<close> left.\<close>

definition gguf_read_meta :: "nat \<Rightarrow> string option \<Rightarrow> gguf_meta run" where
  "gguf_read_meta k file =
     (case file of
        None \<Rightarrow> Bad
      | Some f \<Rightarrow>
          bind_run (rd f 0 4) (\<lambda>(magic, p1).
            if magic \<noteq> ''GGUF'' then Bad
            else bind_run (gg_u32 f p1) (\<lambda>(version, p2).
              if version < 2 then Bad
              else bind_run (gg_u64 f p2) (\<lambda>(n_tensors, p3).
                bind_run (gg_u64 f p3) (\<lambda>(n_kv, p4).
                  if n_kv \<ge> 65536 then Bad
                  else bind_run (times_run n_kv (read_kv k f) (no_meta, p4)) (\<lambda>(m, p5). Done m))))))"

definition gguf_file_type_name :: "nat \<Rightarrow> string" where
  "gguf_file_type_name ft =
     (let names = [''F32'', ''F16'', ''Q4_0'', ''Q4_1'', [], [], [], ''Q8_0'', ''Q5_0'', ''Q5_1'', ''Q2_K'', ''Q3_K_S'',
        ''Q3_K_M'', ''Q3_K_L'', ''Q4_K_S'', ''Q4_K_M'', ''Q5_K_S'', ''Q5_K_M'', ''Q6_K'', ''IQ2_XXS'', ''IQ2_XS'',
        ''Q2_K_S'', ''IQ3_XS'', ''IQ3_XXS'', ''IQ1_S'', ''IQ4_NL'', ''IQ3_S'', ''IQ3_M'', ''IQ2_S'', ''IQ2_M'',
        ''IQ4_XS'', ''IQ1_M'', ''BF16'', [], [], [], ''TQ1_0'', ''TQ2_0'']
      in if ft < length names \<and> names ! ft \<noteq> [] then names ! ft else ''unknown'')"

subsection \<open>What a file holds\<close>

text \<open>Values as the format has them: fixed-width bytes with their type, strings, arrays.\<close>

datatype gval = GFix nat string | GStr string | GArr nat "gval list"

fun gtype :: "gval \<Rightarrow> nat" where
  "gtype (GFix t b) = t"
| "gtype (GStr s) = GG_STR"
| "gtype (GArr t vs) = GG_ARR"

fun le_bytes :: "nat \<Rightarrow> nat \<Rightarrow> string" where
  "le_bytes 0 n = []"
| "le_bytes (Suc w) n = char_of (n mod 256) # le_bytes w (n div 256)"

fun enc :: "gval \<Rightarrow> string" where
  "enc (GFix t b) = b"
| "enc (GStr s) = le_bytes 8 (length s) @ s"
| "enc (GArr t vs) = le_bytes 4 t @ le_bytes 8 (length vs) @ concat (map enc vs)"

fun depth :: "gval \<Rightarrow> nat" where
  "depth (GFix t b) = 1"
| "depth (GStr s) = 1"
| "depth (GArr t vs) = Suc (fold max (map depth vs) 0)"

fun gval_ok :: "gval \<Rightarrow> bool" where
  "gval_ok (GFix t b) \<longleftrightarrow> t < 13 \<and> 0 < fixed t \<and> length b = fixed t"
| "gval_ok (GStr s) \<longleftrightarrow> length s < 2 ^ 30"
| "gval_ok (GArr t vs) \<longleftrightarrow> t < 13 \<and> 8 * length vs < 2 ^ 63 \<and> (\<forall>v \<in> set vs. gtype v = t \<and> gval_ok v)"

definition enc_kv :: "string \<times> gval \<Rightarrow> string" where
  "enc_kv kv = le_bytes 8 (length (fst kv)) @ fst kv @ le_bytes 4 (gtype (snd kv)) @ enc (snd kv)"

definition kv_ok :: "string \<times> gval \<Rightarrow> bool" where
  "kv_ok kv \<longleftrightarrow> length (fst kv) \<le> 4096 \<and> NUL \<notin> set (fst kv) \<and> gval_ok (snd kv)
     \<and> (case snd kv of GStr s \<Rightarrow> length s \<le> 2 ^ 20 | _ \<Rightarrow> True)"

definition enc_file :: "nat \<Rightarrow> (string \<times> gval) list \<Rightarrow> string \<Rightarrow> string" where
  "enc_file tensors kvs rest =
     ''GGUF'' @ le_bytes 4 3 @ le_bytes 8 tensors @ le_bytes 8 (length kvs) @ concat (map enc_kv kvs) @ rest"

text \<open>The members \<open>gguf_read_meta\<close> wants, the last one of a key winning.\<close>

definition note_kv :: "string \<times> gval \<Rightarrow> gguf_meta \<Rightarrow> gguf_meta" where
  "note_kv kv m =
     (case snd kv of
        GStr s \<Rightarrow> if str_key (fst kv) then set_str (fst kv) (cstr s) m else m
      | GFix t b \<Rightarrow>
          if t = GG_BOOL \<and> fst kv = ''tokenizer.ggml.add_bos_token'' then m\<lparr>add_bos := (byte (b ! 0) \<noteq> 0)\<rparr>
          else if t = GG_U32 \<and> fst kv = ''general.file_type'' then m\<lparr>file_type := le_nat b\<rparr>
          else if t = GG_U32 \<and> ends_with (fst kv) ''.context_length'' then m\<lparr>context_length := le_nat b\<rparr>
          else m
      | GArr t vs \<Rightarrow> m)"

subsection \<open>Reading it back\<close>

lemma length_le_bytes [simp]: "length (le_bytes w n) = w"
  by (induction w n rule: le_bytes.induct) auto

lemma le_nat_le_bytes [codec]: "n < 256 ^ w \<Longrightarrow> le_nat (le_bytes w n) = n"
proof (induction w n rule: le_bytes.induct)
  case (2 w n)
  then have "n div 256 < 256 ^ w" by (simp add: less_mult_imp_div_less mult.commute)
  with 2 show ?case by simp
qed simp

text \<open>A file that goes on with \<open>s\<close> at \<open>p\<close>.\<close>

definition at_pos :: "string \<Rightarrow> nat \<Rightarrow> string \<Rightarrow> bool" where
  "at_pos f p s \<longleftrightarrow> p \<le> length f \<and> (\<exists>r. drop p f = s @ r)"

lemma at_pos_append: "at_pos f p (a @ b) \<longleftrightarrow> at_pos f p a \<and> at_pos f (p + length a) b"
  (is "?l \<longleftrightarrow> ?r")
proof
  assume ?l
  then obtain r where p: "p \<le> length f" "drop p f = a @ b @ r" by (auto simp: at_pos_def)
  have "drop (p + length a) f = drop (length a) (drop p f)" by (simp add: add.commute)
  then have "drop (p + length a) f = b @ r" by (simp add: p)
  moreover have "length (drop p f) = length a + length b + length r" by (simp add: p(2))
  then have "p + length a \<le> length f" using p(1) unfolding length_drop by linarith
  ultimately show ?r using p by (auto simp: at_pos_def)
next
  assume ?r
  then obtain r s where p: "p \<le> length f" "drop p f = a @ r" "drop (p + length a) f = b @ s" by (auto simp: at_pos_def)
  have "drop (p + length a) f = drop (length a) (drop p f)" by (simp add: add.commute)
  then have "r = b @ s" using p by simp
  with p show ?l by (auto simp: at_pos_def)
qed

lemma at_pos_bound: "at_pos f p s \<Longrightarrow> p + length s \<le> length f"
proof -
  assume "at_pos f p s"
  then obtain r where p: "p \<le> length f" "drop p f = s @ r" by (auto simp: at_pos_def)
  have "length (drop p f) = length s + length r" by (simp add: p(2))
  then show ?thesis using p(1) unfolding length_drop by linarith
qed

lemma rd_at [simp]: "at_pos f p s \<Longrightarrow> n = length s \<Longrightarrow> rd f p n = Done (s, p + n)"
  using at_pos_bound [of f p s] by (auto simp: rd_def at_pos_def)

lemma gg_u32_at [simp]: "at_pos f p (le_bytes 4 n) \<Longrightarrow> n < 2 ^ 32 \<Longrightarrow> gg_u32 f p = Done (n, p + 4)"
  by (simp add: gg_u32_def rd_at [of f p "le_bytes 4 n"] le_nat_le_bytes)

lemma gg_u64_at [simp]: "at_pos f p (le_bytes 8 n) \<Longrightarrow> n < 2 ^ 64 \<Longrightarrow> gg_u64 f p = Done (n, p + 8)"
  by (simp add: gg_u64_def rd_at [of f p "le_bytes 8 n"] le_nat_le_bytes)

lemma seek_at [simp]: "p + n < 2 ^ 63 \<Longrightarrow> seek p (int n) = Done (p + n)"
  by (simp add: seek_def nat_add_distrib flip: of_nat_add)

lemma fixed_le: "fixed t \<le> 8"
proof (cases "t < 13")
  case True
  then have "t \<in> set [0..<13]" by simp
  moreover have "\<forall>t \<in> set [0..<13]. fixed t \<le> 8" by code_simp
  ultimately show ?thesis by blast
qed (simp add: fixed_def)

lemma long_product_small: "n * w < 2 ^ 63 \<Longrightarrow> long_product n w = int (n * w)"
proof -
  assume n: "n * w < 2 ^ 63"
  have "sint (word_of_int (int (n * w)) :: 64 word) = int (n * w)"
    unfolding sint_sbintrunc' by (rule signed_take_bit_int_eq_self) (use n in \<open>simp_all del: of_nat_mult\<close>)
  moreover have "(word_of_nat n * word_of_nat w :: 64 word) = word_of_int (int (n * w))" by simp
  ultimately show ?thesis unfolding long_product_def by (simp only:)
qed

lemma gtype_less: "gval_ok v \<Longrightarrow> gtype v < 13"
  by (cases v) (simp_all add: gg_defs)

lemma fixed_type: "gval_ok v \<Longrightarrow> 0 < fixed (gtype v) \<Longrightarrow> length (enc v) = fixed (gtype v)"
  by (cases v) (simp_all add: fixed_def gg_defs)

lemma depth_elem: "v \<in> set vs \<Longrightarrow> depth v \<le> fold max (map depth vs) 0"
proof -
  have "a \<le> fold max xs a \<and> (\<forall>x \<in> set xs. x \<le> fold max xs a)" for a and xs :: "nat list"
  proof (induction xs arbitrary: a)
    case (Cons y ys)
    from Cons.IH [of "max y a"] show ?case by auto
  qed simp
  then show "v \<in> set vs \<Longrightarrow> ?thesis" by auto
qed

text \<open>Skipping a value moves behind it.\<close>

lemma skip_val_enc:
  assumes "gval_ok v" and "at_pos f p (enc v)" and "depth v \<le> k" and "length f < 2 ^ 62"
  shows "skip_val k f (gtype v) p = Done (p + length (enc v))"
  using assms
proof (induction v arbitrary: p k)
  case (GFix t b)
  then obtain k' where k: "k = Suc k'" by (cases k) auto
  from GFix at_pos_bound [of f p b] show ?case by (simp add: k)
next
  case (GStr s)
  then obtain k' where k: "k = Suc k'" by (cases k) auto
  have at: "at_pos f p (le_bytes 8 (length s))" "at_pos f (p + 8) s" using GStr.prems(2) by (simp_all add: at_pos_append)
  have "gg_u64 f p = Done (length s, p + 8)" using gg_u64_at [OF at(1)] GStr.prems(1) by simp
  with GStr at_pos_bound [OF at(2)] show ?case
    by (simp add: k fixed_def gg_defs add.assoc flip: of_nat_add)
next
  case (GArr t vs)
  then obtain k' where k: "k = Suc k'" "fold max (map depth vs) 0 \<le> k'" by (cases k) auto
  have at: "at_pos f p (le_bytes 4 t)" "at_pos f (p + 4) (le_bytes 8 (length vs))" "at_pos f (p + 12) (concat (map enc vs))"
    using GArr.prems(2) by (simp_all add: at_pos_append add.assoc)
  have len: "length vs < 2 ^ 64" "t < 2 ^ 32" using GArr.prems(1) by simp_all
  have "fixed GG_ARR = 0" "GG_ARR \<noteq> GG_STR" by (simp_all add: fixed_def gg_defs)
  note hd = this gg_u32_at [OF at(1) len(2)] gg_u64_at [OF at(2) len(1)]
  show ?case
  proof (cases "0 < fixed t")
    case True
    have l: "length (enc v) = fixed t" if "v \<in> set vs" for v using GArr.prems(1) that fixed_type [of v] True by auto
    then have c: "length (concat (map enc vs)) = length vs * fixed t"
      by (induction vs) auto
    have "length vs * fixed t \<le> length vs * 8" by (rule mult_le_mono2 [OF fixed_le])
    moreover have "length vs * 8 < 2 ^ 63" using GArr.prems(1) by simp
    ultimately have "length vs * fixed t < 2 ^ 63" by (rule le_less_trans)
    then have "long_product (length vs) (fixed t) = int (length vs * fixed t)" by (rule long_product_small)
    moreover have "p + 12 + length vs * fixed t < 2 ^ 63"
      using at_pos_bound [OF at(3)] GArr.prems(4) c by simp
    ultimately show ?thesis
      using True c hd by (simp add: k del: of_nat_mult)
  next
    case False
    have "times_run (length ws) (skip_val k' f t) q = Done (q + length (concat (map enc ws)))"
      if "at_pos f q (concat (map enc ws))" "set ws \<subseteq> set vs" for ws q
      using that
    proof (induction ws arbitrary: q)
      case (Cons w ws)
      have w: "w \<in> set vs" using Cons.prems(2) by simp
      have "gval_ok w" "gtype w = t" using GArr.prems(1) w by auto
      moreover have "at_pos f q (enc w)" using Cons.prems(1) by (simp add: at_pos_append)
      moreover have "depth w \<le> k'" using depth_elem [OF w] k(2) by simp
      ultimately have "skip_val k' f t q = Done (q + length (enc w))" using GArr.IH [OF w, of q k'] GArr.prems(4) by simp
      with Cons show ?case by (simp add: at_pos_append add.assoc)
    qed simp
    from this [OF at(3)] show ?thesis using False hd by (simp add: k add.commute [of 12] add.assoc)
  qed
qed

lemma rd_str_at:
  assumes "at_pos f p (le_bytes 8 (length s) @ s)" and "length s \<le> cap" and "length s < 2 ^ 64"
  shows "rd_str f p cap = Done (cstr s, p + (8 + length s))"
proof -
  have at: "at_pos f p (le_bytes 8 (length s))" "at_pos f (p + 8) s" using assms(1) by (simp_all add: at_pos_append)
  show ?thesis
    using gg_u64_at [OF at(1) assms(3)] rd_at [OF at(2) refl] assms(2) by (simp add: rd_str_def add.assoc)
qed

lemma read_kv_enc:
  assumes "kv_ok kv" and "at_pos f p (enc_kv kv)" and "depth (snd kv) \<le> k" and "length f < 2 ^ 62"
  shows "read_kv k f (m, p) = Done (note_kv kv m, p + length (enc_kv kv))"
proof -
  obtain key v where kv: "kv = (key, v)" by (cases kv)
  have ok: "length key \<le> 4096" "NUL \<notin> set key" "gval_ok v" using assms(1) by (simp_all add: kv kv_ok_def)
  have at: "at_pos f p (le_bytes 8 (length key) @ key)" "at_pos f (p + (8 + length key)) (le_bytes 4 (gtype v))"
    "at_pos f (p + (12 + length key)) (enc v)"
    using assms(2) by (simp_all add: kv enc_kv_def at_pos_append add.assoc add.left_commute add.commute)
  have key: "rd_str f p 4096 = Done (key, p + (8 + length key))"
    using rd_str_at [OF at(1) ok(1)] ok(1) by (simp add: cstr_id [OF ok(2)])
  have ty: "gg_u32 f (p + (8 + length key)) = Done (gtype v, p + (12 + length key))"
    using gg_u32_at [OF at(2)] gtype_less [OF ok(3)] by simp
  have skip: "skip_val k f (gtype v) (p + (12 + length key)) = Done (p + (12 + length key) + length (enc v))"
    using skip_val_enc [OF ok(3) at(3)] assms(3,4) by (simp add: kv)
  have len: "length (enc_kv kv) = 12 + length key + length (enc v)" by (simp add: kv enc_kv_def)
  show ?thesis
  proof (cases v)
    case (GStr s)
    have "rd_str f (p + (12 + length key)) (2 ^ 20) = Done (cstr s, p + (12 + length key) + (8 + length s))"
      using at(3) assms(1) by (intro rd_str_at) (simp_all add: GStr kv kv_ok_def)
    with key ty skip len show ?thesis
      by (simp add: read_kv_def note_kv_def kv GStr gg_defs add.assoc)
  next
    case (GFix t b)
    have b: "length b = fixed t" using ok(3) GFix by simp
    have f1: "fixed GG_BOOL = 1" "fixed GG_U32 = 4" by (simp_all add: fixed_def gg_defs)
    have r1: "t = GG_BOOL \<Longrightarrow> rd f (p + (12 + length key)) 1 = Done (b, p + (12 + length key) + 1)"
      using at(3) b f1 by (intro rd_at) (simp_all add: GFix)
    have r4: "t = GG_U32 \<Longrightarrow> gg_u32 f (p + (12 + length key)) = Done (le_nat b, p + (12 + length key) + 4)"
      using at(3) b f1 by (simp add: gg_u32_def rd_at [of f _ b] GFix)
    define q where "q = p + (12 + length key)"
    have "GG_BOOL \<noteq> GG_U32" "GG_BOOL \<noteq> GG_STR" "GG_U32 \<noteq> GG_STR" "fixed GG_STR = 0" by (simp_all add: fixed_def gg_defs)
    moreover have "t \<noteq> GG_STR" using ok(3) GFix by (auto simp: fixed_def gg_defs)
    moreover have "p + length (enc_kv kv) = q + length b" by (simp add: len GFix q_def)
    ultimately show ?thesis
      using key ty [folded q_def] skip [folded q_def] r1 [folded q_def] r4 [folded q_def] b f1
      by (cases "t = GG_BOOL"; cases "t = GG_U32") (simp_all add: read_kv_def note_kv_def kv GFix)
  next
    case (GArr t vs)
    have "GG_ARR \<noteq> GG_STR" "GG_ARR \<noteq> GG_BOOL" "GG_ARR \<noteq> GG_U32" by (simp_all add: gg_defs)
    with key ty skip len show ?thesis
      by (simp add: read_kv_def note_kv_def kv GArr add.assoc del: enc.simps)
  qed
qed

lemma gguf_read_enc:
  assumes "\<forall>kv \<in> set kvs. kv_ok kv \<and> depth (snd kv) \<le> k" and "length kvs < 65536" and "tensors < 2 ^ 64"
    and "length (enc_file tensors kvs rest) < 2 ^ 62"
  shows "gguf_read_meta k (Some (enc_file tensors kvs rest)) = Done (fold note_kv kvs no_meta)"
proof -
  let ?f = "enc_file tensors kvs rest"
  have at: "at_pos ?f 0 ''GGUF''" "at_pos ?f 4 (le_bytes 4 3)" "at_pos ?f 8 (le_bytes 8 tensors)"
    "at_pos ?f 16 (le_bytes 8 (length kvs))" "at_pos ?f 24 (concat (map enc_kv kvs))"
  proof -
    have "at_pos ?f 0 (''GGUF'' @ le_bytes 4 3 @ le_bytes 8 tensors @ le_bytes 8 (length kvs) @ concat (map enc_kv kvs))"
      by (simp add: at_pos_def enc_file_def)
    moreover have "length ''GGUF'' = 4" by simp
    ultimately show "at_pos ?f 0 ''GGUF''" "at_pos ?f 4 (le_bytes 4 3)" "at_pos ?f 8 (le_bytes 8 tensors)"
      "at_pos ?f 16 (le_bytes 8 (length kvs))" "at_pos ?f 24 (concat (map enc_kv kvs))"
      by (simp_all only: at_pos_append length_le_bytes) simp_all
  qed
  have loop: "times_run (length ws) (read_kv k ?f) (m, p) = Done (fold note_kv ws m, p + length (concat (map enc_kv ws)))"
    if "at_pos ?f p (concat (map enc_kv ws))" "set ws \<subseteq> set kvs" for ws m p
    using that
  proof (induction ws arbitrary: m p)
    case (Cons w ws)
    have "read_kv k ?f (m, p) = Done (note_kv w m, p + length (enc_kv w))"
      using Cons.prems assms(1,4) by (intro read_kv_enc) (auto simp: at_pos_append)
    with Cons show ?case by (simp add: at_pos_append add.assoc)
  qed simp
  have "rd ?f 0 4 = Done (''GGUF'', 4)" using rd_at [OF at(1), of 4] by simp
  moreover have "gg_u32 ?f 4 = Done (3, 8)" using gg_u32_at [OF at(2)] by simp
  moreover have "gg_u64 ?f 8 = Done (tensors, 16)" using gg_u64_at [OF at(3) assms(3)] by simp
  moreover have "gg_u64 ?f 16 = Done (length kvs, 24)" using gg_u64_at [OF at(4)] assms(2) by simp
  ultimately show ?thesis
    using loop [OF at(5) subset_refl, of no_meta] assms(2) by (simp add: gguf_read_meta_def)
qed

subsection \<open>A header without end\<close>

text \<open>
  An array of two arrays, the first of which is an array of bytes whose length, taken as a
  \<open>long\<close>, seeks back to the start of the outer one: its second element is the outer array again,
  one call deeper, without end.
\<close>

definition loop_file :: string where
  "loop_file = ''GGUF'' @ le_bytes 4 3 @ le_bytes 8 0 @ le_bytes 8 1 @ le_bytes 8 1 @ ''k'' @ le_bytes 4 GG_ARR
     @ le_bytes 4 GG_ARR @ le_bytes 8 2 @ le_bytes 4 GG_U8 @ le_bytes 8 (2 ^ 64 - 24)"

lemma long_back: "long_product (2 ^ 64 - 24) 1 = -24"
proof -
  have "word_of_nat (2 ^ 64 - 24) = (word_of_int (- 24) :: 64 word)"
    by (simp add: word_uint_eq_iff)
  then show ?thesis by (simp add: long_product_def)
qed

lemma loop_at:
  "at_pos loop_file 0 ''GGUF''" "at_pos loop_file 4 (le_bytes 4 3)" "at_pos loop_file 8 (le_bytes 8 0)"
  "at_pos loop_file 16 (le_bytes 8 1)" "at_pos loop_file 24 (le_bytes 8 1 @ ''k'')" "at_pos loop_file 33 (le_bytes 4 GG_ARR)"
  "at_pos loop_file 37 (le_bytes 4 GG_ARR)" "at_pos loop_file 41 (le_bytes 8 2)" "at_pos loop_file 49 (le_bytes 4 GG_U8)"
  "at_pos loop_file 53 (le_bytes 8 (2 ^ 64 - 24))"
proof -
  have l: "length ''GGUF'' = 4" "length ''k'' = 1" by simp_all
  have "at_pos loop_file 0 loop_file" by (simp add: at_pos_def)
  then have "at_pos loop_file 0 (''GGUF'' @ le_bytes 4 3 @ le_bytes 8 0 @ le_bytes 8 1 @ le_bytes 8 1 @ ''k'' @ le_bytes 4 GG_ARR
     @ le_bytes 4 GG_ARR @ le_bytes 8 2 @ le_bytes 4 GG_U8 @ le_bytes 8 (2 ^ 64 - 24))"
    by (simp only: loop_file_def [symmetric])
  then show
    "at_pos loop_file 0 ''GGUF''" "at_pos loop_file 4 (le_bytes 4 3)" "at_pos loop_file 8 (le_bytes 8 0)"
    "at_pos loop_file 16 (le_bytes 8 1)" "at_pos loop_file 24 (le_bytes 8 1 @ ''k'')" "at_pos loop_file 33 (le_bytes 4 GG_ARR)"
    "at_pos loop_file 37 (le_bytes 4 GG_ARR)" "at_pos loop_file 41 (le_bytes 8 2)" "at_pos loop_file 49 (le_bytes 4 GG_U8)"
    "at_pos loop_file 53 (le_bytes 8 (2 ^ 64 - 24))"
    by (simp_all only: at_pos_append length_le_bytes l) simp_all
qed

lemma loop_read:
  "rd loop_file 0 4 = Done (''GGUF'', 4)" "gg_u32 loop_file 4 = Done (3, 8)" "gg_u64 loop_file 8 = Done (0, 16)"
  "gg_u64 loop_file 16 = Done (1, 24)" "rd_str loop_file 24 4096 = Done (''k'', 33)" "gg_u32 loop_file 33 = Done (GG_ARR, 37)"
  "gg_u32 loop_file 37 = Done (GG_ARR, 41)" "gg_u64 loop_file 41 = Done (2, 49)" "gg_u32 loop_file 49 = Done (GG_U8, 53)"
  "gg_u64 loop_file 53 = Done (2 ^ 64 - 24, 61)"
  using rd_at [OF loop_at(1), of 4] gg_u32_at [OF loop_at(2)] gg_u64_at [OF loop_at(3)] gg_u64_at [OF loop_at(4)]
    rd_str_at [of loop_file 24 "''k''" 4096] loop_at(5) gg_u32_at [OF loop_at(6)] gg_u32_at [OF loop_at(7)]
    gg_u64_at [OF loop_at(8)] gg_u32_at [OF loop_at(9)] gg_u64_at [OF loop_at(10)]
  by (simp_all add: gg_defs cstr_def)

lemma skip_loop: "skip_val k loop_file GG_ARR 37 = Deep"
proof (induction k)
  case (Suc k)
  have f: "fixed GG_ARR = 0" "fixed GG_U8 = 1" "GG_ARR \<noteq> GG_STR" by (simp_all add: fixed_def gg_defs)
  have rewound: "seek 61 (long_product (2 ^ 64 - 24) 1) = Done 37" by (simp only: long_back) (simp add: seek_def)
  have inner: "skip_val k loop_file GG_ARR 49 = (if k = 0 then Deep else Done 37)"
  proof (cases k)
    case (Suc k')
    then have "skip_val k loop_file GG_ARR 49 = seek 61 (long_product (2 ^ 64 - 24) 1)" by (simp add: f loop_read)
    then show ?thesis by (simp only: rewound) (simp add: Suc)
  qed simp
  have "times_run 0 g = Done" for g :: "nat \<Rightarrow> nat run" by (rule ext) simp
  then have "times_run 2 g q = bind_run (bind_run (g q) g) Done" for g and q :: nat
    by (cases "g q") (simp_all add: numeral_2_eq_2)
  with Suc.IH show ?case by (simp add: f loop_read inner)
qed simp

lemma read_loop: "gguf_read_meta k (Some loop_file) = Deep"
proof -
  have "''k'' \<noteq> ''tokenizer.ggml.add_bos_token''" "\<not> ends_with ''k'' ''.context_length''" by (simp_all add: ends_with_def)
  moreover have "GG_ARR \<noteq> GG_STR" "GG_ARR \<noteq> GG_BOOL" "GG_ARR \<noteq> GG_U32" by (simp_all add: gg_defs)
  ultimately have "read_kv k loop_file (no_meta, 24) = Deep"
    by (simp add: read_kv_def loop_read skip_loop)
  then show ?thesis by (simp add: gguf_read_meta_def loop_read)
qed

subsection \<open>The model's name and stop tokens\<close>

text \<open>\<open>basename\<close>: the last component, trailing slashes aside.\<close>

definition basename :: "string \<Rightarrow> string" where
  "basename path =
     (let s = rev (dropWhile (\<lambda>c. c = CHR ''/'') (rev path)) in
      if path = [] then ''.'' else if s = [] then ''/'' else rev (takeWhile (\<lambda>c. c \<noteq> CHR ''/'') (rev s)))"

definition model_name :: "string \<Rightarrow> string" where
  "model_name path =
     (let name = take 127 (basename (take 1023 path)) in
      if ends_with name ''.gguf'' then take (length name - 5) name else name)"

text \<open>The end-of-turn markers the vocabulary has; \<open>token_by_text\<close> is the engine's.\<close>

definition model_eot :: "(string \<Rightarrow> int) \<Rightarrow> int \<Rightarrow> int list" where
  "model_eot token_by_text none =
     take 6 (filter (\<lambda>t. t \<noteq> none) (map token_by_text
       [''<end_of_turn>'', ''<turn|>'', ''<|im_end|>'', ''<|eot_id|>'', ''<|end_of_text|>'']))"

lemma model_name_length: "length (model_name path) \<le> 127"
  by (auto simp: model_name_def Let_def min_def)

end
