(* ===== verification/Buffers.thy ===== *)
theory Buffers
  imports Json
begin

section \<open>Arena and buffer of the application (src/src/app/core.c)\<close>

text \<open>
  \<open>app_alloc\<close> over the bookkeeping of an arena, and the text buffer every answer of the application
  is written into: \<open>app_put\<close>, \<open>app_printf\<close>, \<open>app_quote\<close> and \<open>printf\<close>'s number formats. What the
  writers share is the predicate \<open>writes\<close>: an operation that appends a fixed text or, when it does
  not fit, sets the sticky \<open>failed\<close>. The locale \<open>writer\<close> is that contract for an operation with an
  argument.
\<close>

unbundle bit_operations_syntax

subsection \<open>Checked arithmetic\<close>

definition ckd_add :: "u64 \<Rightarrow> u64 \<Rightarrow> u64 option" where
  "ckd_add a b = (if unat a + unat b < 2 ^ 64 then Some (a + b) else None)"

definition ckd_mul :: "u64 \<Rightarrow> u64 \<Rightarrow> u64 option" where
  "ckd_mul a b = (if unat a * unat b < 2 ^ 64 then Some (a * b) else None)"

lemma ckd_add_Some: "ckd_add a b = Some c \<longleftrightarrow> unat c = unat a + unat b"
proof
  show "ckd_add a b = Some c \<Longrightarrow> unat c = unat a + unat b"
    by (auto simp: ckd_add_def unat_word_ariths split: if_splits)
  assume c: "unat c = unat a + unat b"
  have "unat c < 2 ^ 64" using unsigned_less [of c] by simp
  moreover from this have "a + b = c" by (simp add: word_unat_eq_iff unat_word_ariths c)
  ultimately show "ckd_add a b = Some c" by (simp add: ckd_add_def c)
qed

lemma ckd_mul_Some: "ckd_mul a b = Some c \<longleftrightarrow> unat c = unat a * unat b"
proof
  show "ckd_mul a b = Some c \<Longrightarrow> unat c = unat a * unat b"
    by (auto simp: ckd_mul_def unat_word_ariths split: if_splits)
  assume c: "unat c = unat a * unat b"
  have "unat c < 2 ^ 64" using unsigned_less [of c] by simp
  moreover from this have "a * b = c" by (simp add: word_unat_eq_iff unat_word_ariths c)
  ultimately show "ckd_mul a b = Some c" by (simp add: ckd_mul_def c)
qed

subsection \<open>The arena\<close>

text \<open>The offsets of an arena; the memory itself is zeroed when handed out. \<open>max_align\<close> is
  \<open>alignof(max_align_t)\<close>.\<close>

record app_arena =
  a_used :: u64
  a_cap :: u64

definition app_alloc :: "u64 \<Rightarrow> u64 \<Rightarrow> u64 \<Rightarrow> u64 \<Rightarrow> app_arena \<Rightarrow> u64 option \<times> app_arena" where
  "app_alloc max_align count elem alignment a =
     (if alignment = 0 \<or> alignment AND (alignment - 1) \<noteq> 0 \<or> alignment > max_align then (None, a)
      else case (ckd_mul count elem, ckd_add (a_used a) (alignment - 1)) of
        (Some n, Some s) \<Rightarrow>
          (let start = s AND NOT (alignment - 1) in
           case ckd_add start n of
             Some e \<Rightarrow> if e > a_cap a then (None, a) else (Some start, a\<lparr>a_used := e\<rparr>)
           | None \<Rightarrow> (None, a))
      | _ \<Rightarrow> (None, a))"

lemma alignments:
  assumes "(x :: u64) AND (x - 1) = 0" and "x \<noteq> 0" and "x \<le> 16"
  shows "x \<in> {1, 2, 4, 8, 16}"
proof -
  have "unat x \<le> 16" using assms(3) by (simp add: word_le_nat_alt)
  then have "unat x \<in> set [0..<17]" by simp
  moreover have "\<forall>n \<in> set [0..<17]. (of_nat n :: u64) AND (of_nat n - 1) = 0 \<longrightarrow> n \<in> {0, 1, 2, 4, 8, 16}"
    by code_simp
  moreover have "of_nat (unat x) = x" by simp
  ultimately have "unat x \<in> {0, 1, 2, 4, 8, 16}" using assms(1) by metis
  with assms(2) show ?thesis by (auto simp: word_unat_eq_iff)
qed

lemma round_down:
  assumes "(x :: u64) = 2 ^ k"
  shows "unat (s AND NOT (x - 1)) = unat s - unat s mod 2 ^ k"
proof -
  have x: "x - 1 = mask k" by (simp add: assms mask_eq_decr_exp)
  have "(s AND NOT (mask k)) + take_bit k s = (s AND NOT (mask k)) OR take_bit k s"
    by (rule disjunctive_add) (auto simp: bit_simps)
  also have "\<dots> = s" by (rule bit_word_eqI) (auto simp: bit_simps)
  finally have "s AND NOT (mask k) = s - take_bit k s" by (simp add: eq_diff_eq)
  moreover have u: "unat (take_bit k s) = unat s mod 2 ^ k" by (simp add: unsigned_take_bit_eq flip: take_bit_eq_mod)
  moreover have "take_bit k s \<le> s" by (simp add: word_le_nat_alt u)
  ultimately show ?thesis by (simp add: x unat_sub)
qed

text \<open>What a caller gets: aligned, behind what was used before, inside the arena.\<close>

lemma app_alloc_region:
  assumes "app_alloc max_align count elem alignment a = (Some start, a')" and "max_align \<le> 16"
  shows "unat start mod unat alignment = 0" and "unat (a_used a) \<le> unat start"
    and "unat (a_used a') = unat start + unat count * unat elem" and "a_used a' \<le> a_cap a" and "a_cap a' = a_cap a"
proof -
  obtain n s e where al: "alignment \<noteq> 0" "alignment AND (alignment - 1) = 0" "alignment \<le> max_align"
    and n: "ckd_mul count elem = Some n" and s: "ckd_add (a_used a) (alignment - 1) = Some s"
    and st: "start = s AND NOT (alignment - 1)" and e: "ckd_add start n = Some e" "e \<le> a_cap a"
    and a': "a' = a\<lparr>a_used := e\<rparr>"
    using assms(1) by (auto simp: app_alloc_def Let_def not_less split: option.splits if_splits)
  have "alignment \<in> {1, 2, 4, 8, 16}" using alignments al assms(2) by (meson order_trans)
  then obtain k where k: "alignment = 2 ^ k" "unat alignment = 2 ^ k"
  proof -
    have "(1 :: u64) = 2 ^ 0" "(2 :: u64) = 2 ^ 1" "(4 :: u64) = 2 ^ 2" "(8 :: u64) = 2 ^ 3" "(16 :: u64) = 2 ^ 4"
      by simp_all
    moreover have "unat (1 :: u64) = 2 ^ 0" "unat (2 :: u64) = 2 ^ 1" "unat (4 :: u64) = 2 ^ 2" "unat (8 :: u64) = 2 ^ 3"
      "unat (16 :: u64) = 2 ^ 4" by simp_all
    ultimately show thesis using \<open>alignment \<in> {1, 2, 4, 8, 16}\<close> that by blast
  qed
  have r: "unat start = unat s - unat s mod 2 ^ k" using round_down [OF k(1)] by (simp add: st)
  have "unat (alignment - 1) = 2 ^ k - 1"
    using al(1) k(2) by (metis unat_minus_one)
  then have u: "unat s = unat (a_used a) + (2 ^ k - 1)" using s by (simp add: ckd_add_Some)
  have "unat s - unat s mod 2 ^ k = 2 ^ k * (unat s div 2 ^ k)" by (simp add: minus_mod_eq_mult_div)
  then show "unat start mod unat alignment = 0" by (simp add: r k(2))
  have "unat s mod 2 ^ k < 2 ^ k" by simp
  then show "unat (a_used a) \<le> unat start" using r u by linarith
  show "unat (a_used a') = unat start + unat count * unat elem"
    using n e by (simp add: a' ckd_add_Some ckd_mul_Some)
  show "a_used a' \<le> a_cap a" "a_cap a' = a_cap a" using e by (simp_all add: a')
qed

lemma app_alloc_refused: "app_alloc max_align count elem alignment a = (None, a') \<Longrightarrow> a' = a"
  by (auto simp: app_alloc_def Let_def split: option.splits if_splits)

subsection \<open>The buffer\<close>

text \<open>The C string in the storage, the length the writers keep, and the sticky failure. A formatted
  text that does not fit is cut by \<open>vsnprintf\<close>, and the length stays.\<close>

record app_buffer =
  b_data :: string
  b_len :: nat
  b_cap :: nat
  b_failed :: bool

definition app_put :: "string \<Rightarrow> app_buffer \<Rightarrow> app_buffer" where
  "app_put s b =
     (let e = b_len b + length (cstr s) in
      if b_failed b \<or> e \<ge> 2 ^ 64 \<or> e \<ge> b_cap b then b\<lparr>b_failed := True\<rparr>
      else b\<lparr>b_data := take (b_len b) (b_data b) @ cstr s, b_len := e\<rparr>)"

text \<open>The argument is the formatted text.\<close>

definition app_printf :: "string \<Rightarrow> app_buffer \<Rightarrow> app_buffer" where
  "app_printf text b =
     (if b_failed b \<or> b_len b \<ge> b_cap b then b\<lparr>b_failed := True\<rparr>
      else
        let room = b_cap b - b_len b;
            b1 = b\<lparr>b_data := take (b_len b) (b_data b) @ take (room - 1) text\<rparr>
        in if length text \<ge> 2 ^ 31 \<or> length text \<ge> room then b1\<lparr>b_failed := True\<rparr>
           else b1\<lparr>b_len := b_len b + length text\<rparr>)"

definition quote_char :: "char \<Rightarrow> app_buffer \<Rightarrow> app_buffer" where
  "quote_char c b =
     (if c = DQUOTE \<or> c = BACKSLASH then app_printf [BACKSLASH, c] b
      else if byte c < 32 then app_printf (u_escape (byte c)) b
      else app_put [c] b)"

definition app_quote :: "string \<Rightarrow> app_buffer \<Rightarrow> app_buffer" where
  "app_quote s b = app_put [DQUOTE] (fold quote_char (cstr s) (app_put [DQUOTE] b))"

text \<open>Statements one after the other.\<close>

fun stmts :: "(app_buffer \<Rightarrow> app_buffer) list \<Rightarrow> app_buffer \<Rightarrow> app_buffer" where
  "stmts [] b = b"
| "stmts (f # fs) b = stmts fs (f b)"

subsection \<open>What a writer does\<close>

text \<open>A buffer as the code makes one: the length is that of the text, which ends within the storage.\<close>

definition buf_ok :: "app_buffer \<Rightarrow> bool" where
  "buf_ok b \<longleftrightarrow> b_cap b < 2 ^ 31 \<and> 0 < b_cap b \<and> (\<not> b_failed b \<longrightarrow> length (b_data b) = b_len b \<and> b_len b < b_cap b)"

definition writes :: "(app_buffer \<Rightarrow> app_buffer) \<Rightarrow> string \<Rightarrow> bool" where
  "writes f t \<longleftrightarrow> (\<forall>b. buf_ok b \<longrightarrow>
     buf_ok (f b) \<and> b_cap (f b) = b_cap b
     \<and> (b_failed (f b) \<longleftrightarrow> b_failed b \<or> b_len b + length t \<ge> b_cap b)
     \<and> (\<not> b_failed (f b) \<longrightarrow> b_data (f b) = b_data b @ t))"

named_theorems written "texts of the writers"

text \<open>Within such a buffer the length never overflows.\<close>

lemma put_eq:
  assumes "buf_ok b"
  shows "app_put s b = (if b_failed b \<or> b_len b + length (cstr s) \<ge> b_cap b then b\<lparr>b_failed := True\<rparr>
     else b\<lparr>b_data := b_data b @ cstr s, b_len := b_len b + length (cstr s)\<rparr>)"
proof -
  have "b_cap b < 2 ^ 31" using assms unfolding buf_ok_def by blast
  moreover have "(2 :: nat) ^ 31 \<le> 2 ^ 64" by simp
  ultimately have "b_len b + length (cstr s) \<ge> 2 ^ 64 \<Longrightarrow> b_len b + length (cstr s) \<ge> b_cap b" by linarith
  moreover have "\<not> b_failed b \<Longrightarrow> take (b_len b) (b_data b) = b_data b" using assms by (simp add: buf_ok_def)
  ultimately show ?thesis unfolding app_put_def Let_def by (cases "b_failed b") auto
qed

lemma printf_eq:
  assumes "buf_ok b"
  shows "app_printf t b = (if b_failed b then b
     else if b_len b + length t \<ge> b_cap b then b\<lparr>b_data := b_data b @ take (b_cap b - b_len b - 1) t, b_failed := True\<rparr>
     else b\<lparr>b_data := b_data b @ t, b_len := b_len b + length t\<rparr>)"
proof (cases "b_failed b")
  case False
  then have b: "length (b_data b) = b_len b" "b_len b < b_cap b" "b_cap b < 2 ^ 31" using assms unfolding buf_ok_def by blast+
  then have "length t \<ge> 2 ^ 31 \<or> length t \<ge> b_cap b - b_len b \<longleftrightarrow> b_len b + length t \<ge> b_cap b" by linarith
  then show ?thesis unfolding app_printf_def Let_def using False b(1,2) by auto
qed (auto simp: app_printf_def)

lemma writes_put [written]: "writes (app_put s) (cstr s)"
  unfolding writes_def by (auto simp: put_eq) (auto simp: buf_ok_def)

lemma writes_printf [written]: "writes (app_printf t) t"
  unfolding writes_def by (auto simp: printf_eq) (auto simp: buf_ok_def)

lemma writes_id: "writes (\<lambda>b. b) []"
  by (auto simp: writes_def buf_ok_def)

lemma writesD:
  assumes "writes f t" and "buf_ok b"
  shows "buf_ok (f b)" and "b_cap (f b) = b_cap b" and "b_failed (f b) \<longleftrightarrow> b_failed b \<or> b_len b + length t \<ge> b_cap b"
    and "\<not> b_failed (f b) \<Longrightarrow> b_data (f b) = b_data b @ t \<and> b_len (f b) = b_len b + length t"
proof -
  show 1: "buf_ok (f b)" "b_cap (f b) = b_cap b" "b_failed (f b) \<longleftrightarrow> b_failed b \<or> b_len b + length t \<ge> b_cap b"
    using assms unfolding writes_def by blast+
  assume 2: "\<not> b_failed (f b)"
  with assms have "b_data (f b) = b_data b @ t" unfolding writes_def by blast
  moreover have "length (b_data (f b)) = b_len (f b)" using 1(1) 2 unfolding buf_ok_def by blast
  moreover have "length (b_data b) = b_len b" using 1(3) 2 assms(2) unfolding buf_ok_def by blast
  ultimately show "b_data (f b) = b_data b @ t \<and> b_len (f b) = b_len b + length t" by simp
qed

lemma writes_comp:
  assumes "writes f s" and "writes g t"
  shows "writes (\<lambda>b. g (f b)) (s @ t)"
  unfolding writes_def
proof (intro allI impI)
  fix b assume b: "buf_ok b"
  note f = writesD [OF assms(1) b] and g = writesD [OF assms(2) writesD(1) [OF assms(1) b]]
  have "b_failed (g (f b)) \<longleftrightarrow> b_failed b \<or> b_len b + length (s @ t) \<ge> b_cap b"
    using f g(3) by (cases "b_failed (f b)") auto
  moreover have "\<not> b_failed (g (f b)) \<Longrightarrow> b_data (g (f b)) = b_data b @ s @ t"
    using f(4) g(3,4) by auto
  ultimately show "buf_ok (g (f b)) \<and> b_cap (g (f b)) = b_cap b
     \<and> (b_failed (g (f b)) \<longleftrightarrow> b_failed b \<or> b_len b + length (s @ t) \<ge> b_cap b)
     \<and> (\<not> b_failed (g (f b)) \<longrightarrow> b_data (g (f b)) = b_data b @ s @ t)"
    using f(2) g(1,2) by simp
qed

lemma writes_if: "writes f s \<Longrightarrow> writes g t \<Longrightarrow> writes (\<lambda>b. if P then f b else g b) (if P then s else t)"
  by simp

lemma writes_fold:
  assumes "\<And>x. x \<in> set xs \<Longrightarrow> writes (f x) (t x)"
  shows "writes (fold f xs) (concat (map t xs))"
  using assms
proof (induction xs)
  case Nil
  then show ?case using writes_id by (simp add: id_def)
next
  case (Cons x xs)
  then have "writes (\<lambda>b. fold f xs (f x b)) (t x @ concat (map t xs))" by (intro writes_comp) auto
  then show ?case by (simp add: comp_def)
qed

lemma writes_stmts: "list_all2 writes fs ts \<Longrightarrow> writes (stmts fs) (concat ts)"
proof (induction rule: list_all2_induct)
  case (Cons f fs t ts)
  from writes_comp [OF Cons.hyps(1) Cons.IH] show ?case by simp
qed (simp add: writes_id)

text \<open>A writer of arguments of type \<open>'a\<close>; a list of them is written in order.\<close>

locale writer =
  fixes wr :: "'a \<Rightarrow> app_buffer \<Rightarrow> app_buffer" and text_of :: "'a \<Rightarrow> string"
  assumes writes_arg: "writes (wr x) (text_of x)"
begin

lemma writes_all: "writes (fold wr xs) (concat (map text_of xs))"
  by (rule writes_fold) (rule writes_arg)

lemma sticky: "buf_ok b \<Longrightarrow> b_failed b \<Longrightarrow> b_failed (wr x b)"
  using writes_arg [of x] by (simp add: writes_def)

lemma fits: "buf_ok b \<Longrightarrow> \<not> b_failed (wr x b) \<Longrightarrow> b_data (wr x b) = b_data b @ text_of x"
  using writesD(4) [OF writes_arg] by simp

end

lemma writes_quote_char: "c \<noteq> NUL \<Longrightarrow> writes (quote_char c) (app_esc c)"
  using writes_put [of "[c]"] writes_printf
  by (auto simp: quote_char_def [abs_def] app_esc_def cstr_def)

definition quoted_text :: "string \<Rightarrow> string" where
  "quoted_text s = DQUOTE # concat (map app_esc (cstr s)) @ [DQUOTE]"

lemma writes_quote [written]: "writes (app_quote s) (quoted_text s)"
proof -
  have q: "cstr [DQUOTE] = [DQUOTE]" by (simp add: cstr_def)
  have "writes (fold quote_char (cstr s)) (concat (map app_esc (cstr s)))"
    using cstr_no_nul [of s] by (intro writes_fold writes_quote_char) auto
  from writes_comp [OF writes_comp [OF writes_put this] writes_put, of "[DQUOTE]" "[DQUOTE]"]
  show ?thesis by (simp add: app_quote_def [abs_def] quoted_text_def q)
qed

interpretation putting: writer app_put cstr
  by unfold_locales (rule writes_put)

interpretation printing: writer app_printf "\<lambda>t. t"
  by unfold_locales (rule writes_printf)

interpretation quoting: writer app_quote quoted_text
  by unfold_locales (rule writes_quote)

text \<open>What \<open>app_quote\<close> wrote is the string literal that reads back as the text.\<close>

lemma app_quote_reads_back:
  assumes "buf_ok b" and "\<not> b_failed (app_quote s b)"
  shows "\<exists>lit. b_data (app_quote s b) = b_data b @ DQUOTE # lit @ [DQUOTE] \<and> json_unescape lit = cstr s"
  using quoting.fits [OF assms] by (auto simp: quoted_text_def app_quoting.escaped_no_quote_end)

end
