(* ===== verification/Printf.thy ===== *)
theory Printf
  imports JsonTree
begin

section \<open>Doubles in printf: %.17g and %.<k>f\<close>

text \<open>
  The number formats the application writes, for the exact rationals of \<^typ>\<open>dbl\<close>: \<open>%.<k>f\<close> rounds
  to \<open>k\<close> decimals (half to even), \<open>%.17g\<close> to 17 significant digits, in the style the C standard
  picks by the exponent, without trailing zeros. A negative zero is not told from zero. \<open>reads_back\<close>
  says that a number survives \<open>%.17g\<close> and \<open>strtod\<close>; every natural number below \<open>10 ^ 17\<close> does.
\<close>

definition round_even :: "rat \<Rightarrow> int" where
  "round_even q =
     (let f = \<lfloor>q\<rfloor>; d = q - of_int f in
      if d < 1 / 2 then f else if d > 1 / 2 then f + 1 else if even f then f else f + 1)"

lemma round_even_int [simp]: "round_even (of_int i) = i"
  by (simp add: round_even_def)

lemma round_even_nat [simp]: "round_even (of_nat n) = int n"
  using round_even_int [of "int n"] by simp

definition pad0 :: "nat \<Rightarrow> string \<Rightarrow> string" where
  "pad0 w s = replicate (w - length s) (CHR ''0'') @ s"

definition fixed_point :: "nat \<Rightarrow> rat \<Rightarrow> string" where
  "fixed_point k q =
     (let n = nat (round_even (\<bar>q\<bar> * 10 ^ k)) in
      (if q < 0 then ''-'' else []) @ dec (n div 10 ^ k)
      @ (if k = 0 then [] else CHR ''.'' # pad0 k (dec (n mod 10 ^ k))))"

definition printf_f :: "nat \<Rightarrow> dbl \<Rightarrow> string" where
  "printf_f k x = (case x of Fin q \<Rightarrow> fixed_point k q | PInf \<Rightarrow> ''inf'' | MInf \<Rightarrow> ''-inf'' | NaN \<Rightarrow> ''nan'')"

text \<open>The decimal exponent of a positive number; no double is below \<open>10 ^ -330\<close>.\<close>

fun shift10 :: "nat \<Rightarrow> rat \<Rightarrow> nat" where
  "shift10 0 q = 0"
| "shift10 (Suc k) q = (if q \<ge> 1 then 0 else Suc (shift10 k (q * 10)))"

definition expo10 :: "rat \<Rightarrow> int" where
  "expo10 q = (if q \<ge> 1 then int (length (dec (nat \<lfloor>q\<rfloor>))) - 1 else - int (shift10 330 q))"

definition strip0 :: "string \<Rightarrow> string" where
  "strip0 s = rev (dropWhile (\<lambda>c. c = CHR ''0'') (rev s))"

definition point :: "string \<Rightarrow> string \<Rightarrow> string" where
  "point ip fp = ip @ (if fp = [] then [] else CHR ''.'' # fp)"

definition general17 :: "rat \<Rightarrow> string" where
  "general17 q =
     (if q = 0 then ''0''
      else
        let e0 = expo10 q;
            n0 = nat (round_even (q / 10 powi (e0 - 16)));
            (n, e) = (if n0 \<ge> 10 ^ 17 then (10 ^ 16, e0 + 1) else (n0, e0));
            ds = strip0 (dec n)
        in if e < -4 \<or> e \<ge> 17 then
             point (take 1 ds) (drop 1 ds) @ CHR ''e'' # (if e < 0 then CHR ''-'' else CHR ''+'') # pad0 2 (dec (nat \<bar>e\<bar>))
           else if e \<ge> 0 then
             point (take (nat (e + 1)) (ds @ replicate 17 (CHR ''0''))) (drop (nat (e + 1)) ds)
           else point ''0'' (replicate (nat (- e - 1)) (CHR ''0'') @ ds))"

definition printf_g :: "dbl \<Rightarrow> string" where
  "printf_g x =
     (case x of Fin q \<Rightarrow> if q < 0 then CHR ''-'' # general17 (- q) else general17 q
      | PInf \<Rightarrow> ''inf'' | MInf \<Rightarrow> ''-inf'' | NaN \<Rightarrow> ''nan'')"

subsection \<open>Natural numbers\<close>

lemma dec_step: "n \<ge> 10 \<Longrightarrow> dec n = dec (n div 10) @ [char_of (48 + n mod 10)]"
  by (subst dec.simps) simp

lemma char0: "char_of (48 :: nat) = CHR ''0''"
  by code_simp

lemma dec_shift: "0 < n \<Longrightarrow> dec (n * 10 ^ k) = dec n @ replicate k (CHR ''0'')"
proof (induction k)
  case (Suc k)
  have "0 < n * 10 ^ k" using Suc.prems by simp
  then have "n * 10 ^ Suc k \<ge> 10" by (simp add: mult.left_commute)
  from dec_step [OF this] have "dec (n * 10 ^ Suc k) = dec (n * 10 ^ k) @ [CHR ''0'']"
    by (simp add: mult.left_commute char0)
  with Suc show ?case by (simp add: replicate_append_same)
qed simp

lemma dec_length: "0 < n \<Longrightarrow> 10 ^ (length (dec n) - 1) \<le> n \<and> n < 10 ^ length (dec n)"
proof (induction n rule: less_induct)
  case (less n)
  show ?case
  proof (cases "n < 10")
    case True
    then show ?thesis using less.prems by (subst (1 2) dec.simps) simp
  next
    case False
    then have d: "0 < n div 10" "n div 10 < n" by auto
    note i = less.IH [OF d(2,1)]
    have l: "length (dec n) = Suc (length (dec (n div 10)))" using False by (simp add: dec_step)
    obtain m where m: "length (dec (n div 10)) = Suc m" using dec_nonempty [of "n div 10"] by (cases "dec (n div 10)") auto
    from i have "10 ^ m * 10 \<le> n div 10 * 10" "n div 10 * 10 + 10 \<le> 10 ^ Suc m * 10" by (simp_all add: m)
    moreover have "n div 10 * 10 \<le> n" "n < n div 10 * 10 + 10" by simp_all
    ultimately show ?thesis by (simp add: l m)
  qed
qed

lemma strip0_append: "strip0 (s @ replicate k (CHR ''0'')) = strip0 s"
proof -
  have "dropWhile (\<lambda>c. c = CHR ''0'') (replicate k (CHR ''0'') @ t) = dropWhile (\<lambda>c. c = CHR ''0'') t" for t
    by (induction k) simp_all
  then show ?thesis by (simp add: strip0_def)
qed

lemma strip0_split: "\<exists>k. s = strip0 s @ replicate k (CHR ''0'')"
proof -
  let ?z = "takeWhile (\<lambda>c. c = CHR ''0'') (rev s)"
  have "replicate (length ?z) (CHR ''0'') = ?z" by (rule replicate_length_same) (auto dest: set_takeWhileD)
  then have "rev ?z = replicate (length ?z) (CHR ''0'')" by (metis rev_replicate)
  moreover have "s = strip0 s @ rev ?z"
    unfolding strip0_def by (metis rev_append rev_rev_ident takeWhile_dropWhile_id)
  ultimately show ?thesis by metis
qed

lemma general17_nat:
  assumes "n < 10 ^ 17"
  shows "general17 (of_nat n) = dec n"
proof (cases "n = 0")
  case True
  then show ?thesis by (simp add: general17_def dec.simps [of 0] char0)
next
  case False
  let ?L = "length (dec n)"
  have n: "0 < n" using False by simp
  have L: "0 < ?L" using dec_nonempty [of n] by simp
  have "(10 :: nat) ^ (?L - 1) < 10 ^ 17" using dec_length [OF n] assms by (meson le_less_trans)
  then have L17: "?L \<le> 17" using power_less_imp_less_exp [of "10 :: nat" "?L - 1" 17] by simp
  have e: "expo10 (of_nat n) = int ?L - 1" using n by (simp add: expo10_def)
  have "(10 :: rat) powi (int ?L - 1 - 16) = inverse (10 ^ (17 - ?L))"
  proof -
    have "int ?L - 1 - 16 = - int (17 - ?L)" using L17 by simp
    then show ?thesis by (simp only: power_int_minus power_int_of_nat)
  qed
  then have q: "(of_nat n :: rat) / 10 powi (int ?L - 1 - 16) = of_nat (n * 10 ^ (17 - ?L))" by (simp add: field_simps)
  have "n * 10 ^ (17 - ?L) < 10 ^ ?L * 10 ^ (17 - ?L)" using dec_length [OF n] by simp
  then have less: "n * 10 ^ (17 - ?L) < 10 ^ 17" using L17 by (simp flip: power_add)
  have s: "strip0 (dec (n * 10 ^ (17 - ?L))) = strip0 (dec n)" by (simp add: dec_shift [OF n] strip0_append)
  define ds where "ds = strip0 (dec n)"
  obtain k where k: "dec n = ds @ replicate k (CHR ''0'')" using strip0_split unfolding ds_def by blast
  have L': "?L = length ds + k" by (simp add: k)
  have d: "take ?L ds @ replicate (?L - length ds) (CHR ''0'') = dec n" "drop ?L ds = []" using L' by (simp_all add: k)
  have "nat (int ?L - 1 + 1) = ?L" by simp
  moreover have "nat (int (n * 10 ^ (17 - ?L))) = n * 10 ^ (17 - ?L)" by (rule nat_int)
  ultimately show ?thesis
    using n L L17 less unfolding general17_def e Let_def q round_even_nat
    by (simp add: s ds_def [symmetric] d point_def)
qed

definition reads_back :: "rat \<Rightarrow> bool" where
  "reads_back q \<longleftrightarrow> prim_ok (general17 q) \<and> is_digit (hd (general17 q))
     \<and> (\<forall>r. r \<noteq> [] \<and> hd r \<in> {CHR '','', CHR ''}'', CHR '']''} \<longrightarrow> strtod (general17 q @ r) = Fin q)"

lemma reads_back_nat: "n < 10 ^ 17 \<Longrightarrow> reads_back (of_nat n)"
  by (simp add: reads_back_def general17_nat prim_ok_dec dec_hd strtod_dec)

lemma reads_back_numeral [simp]:
  "reads_back 0" "reads_back 1"
  using reads_back_nat [of 0] reads_back_nat [of 1] by simp_all

context json_escaper
begin

lemma num_render_prim:
  assumes "is_at esc j m (JPrim (general17 q))" and "reads_back q"
  shows "json_num j (int m) d = Fin q"
proof -
  from assms obtain p par r r' where t: "drop m (tok j) = val_toks esc p m par (JPrim (general17 q)) @ r"
    and src: "drop p (src j) = general17 q @ r'"
    and r': "r' \<noteq> []" "hd r' \<in> {CHR '','', CHR ''}'', CHR '']''}"
    by (auto simp: is_at_def)
  have g: "general17 q \<noteq> []" "is_digit (hd (general17 q))" using assms(2) by (auto simp: reads_back_def prim_ok_def)
  have t0: "tok j ! m = leaf_tok JSMN_PRIMITIVE (int p) (int p + int (length (general17 q))) par"
    using drop_nth [OF t, of 0] by simp
  have "src j ! p = hd (general17 q)"
    using drop_nth [OF src, of 0] g(1) by (cases "general17 q") auto
  then have "is_digit (tok_char j (int m))" using g(2) by (simp add: tok_char_def t0)
  moreover have "tok_rest j (int m) = general17 q @ r'" by (simp add: tok_rest_def t0 src)
  ultimately show ?thesis using assms(2) r' by (simp add: json_num_def t0 reads_back_def)
qed

text \<open>A literal: its first byte, and that it is no number.\<close>

lemma word_render:
  assumes "is_at esc j m (JPrim w)" and "w \<noteq> []"
  shows "tok_type (tok j ! m) = JSMN_PRIMITIVE" and "tok_char j (int m) = hd w"
    and "tok_text j (int m) = w" and "tok_end (tok j ! m) - tok_start (tok j ! m) = int (length w)"
proof -
  from assms obtain p par r r' where t: "drop m (tok j) = val_toks esc p m par (JPrim w) @ r"
    and src: "drop p (src j) = w @ r'"
    by (auto simp: is_at_def)
  have t0: "tok j ! m = leaf_tok JSMN_PRIMITIVE (int p) (int p + int (length w)) par"
    using drop_nth [OF t, of 0] by simp
  show "tok_type (tok j ! m) = JSMN_PRIMITIVE" by (simp add: t0)
  have "src j ! p = hd w" using drop_nth [OF src, of 0] assms(2) by (cases w) auto
  then show "tok_char j (int m) = hd w" by (simp add: tok_char_def t0)
  show "tok_text j (int m) = w" by (simp add: tok_text_def t0 src)
  show "tok_end (tok j ! m) - tok_start (tok j ! m) = int (length w)" by (simp add: t0)
qed

lemma bool_render:
  "is_at esc j m (JPrim w) \<Longrightarrow> w \<noteq> [] \<Longrightarrow> json_bool j (int m) d = (hd w = CHR ''t'')"
  by (simp add: json_bool_def word_render)

lemma null_render: "is_at esc j m (JPrim ''null'') \<Longrightarrow> json_num j (int m) d = d"
  by (simp add: json_num_def word_render is_digit_def)

lemma string_render:
  assumes "is_at esc j m (JStr x)"
  shows "tok_type (tok j ! m) = JSMN_STRING" and "tok_text j (int m) = concat (map esc x)"
proof -
  from assms obtain q par r r' where t: "drop m (tok j) = val_toks esc q m par (JStr x) @ r"
    and src: "drop q (src j) = render esc (JStr x) @ r'"
    by (auto simp: is_at_def)
  have t0: "tok j ! m = leaf_tok JSMN_STRING (int q + 1) (int q + int (length (quoted esc x)) - 1) par"
    using drop_nth [OF t, of 0] by simp
  show "tok_type (tok j ! m) = JSMN_STRING" by (simp add: t0)
  have "drop (Suc q) (src j) = drop 1 (drop q (src j))" by simp
  also have "\<dots> = concat (map esc x) @ DQUOTE # r'" by (simp add: src quoted_def)
  finally show "tok_text j (int m) = concat (map esc x)"
    by (simp add: tok_text_def t0 quoted_def nat_add_distrib)
qed

lemma object_render:
  assumes "is_at esc j n (JObj fs)"
  shows "tok_type (tok j ! n) = JSMN_OBJECT"
proof -
  from assms obtain q par r where "drop n (tok j) = val_toks esc q n par (JObj fs) @ r" by (auto simp: is_at_def)
  from drop_nth [OF this, of 0] show ?thesis by simp
qed

end

text \<open>Keys without a byte that is escaped are found as they are written.\<close>

definition plain :: "string \<Rightarrow> bool" where
  "plain k \<longleftrightarrow> (\<forall>c \<in> set k. 32 \<le> byte c \<and> c \<noteq> DQUOTE \<and> c \<noteq> BACKSLASH)"

lemma app_esc_plain: "plain k \<Longrightarrow> concat (map app_esc k) = k"
  by (induction k) (auto simp: plain_def app_esc_def)

lemma app_raw_fields: "\<forall>k \<in> fst ` set fs. plain k \<Longrightarrow> raw_fields app_esc fs = fs"
  by (induction fs) (auto simp: raw_fields_def app_esc_plain)

lemma app_get:
  assumes "is_at app_esc j n (JObj fs)" and "\<forall>k \<in> fst ` set fs. plain k" and "map_of fs key = Some v"
  obtains m where "json_get j (int n) key = int m" and "is_at app_esc j m v"
  using app_quoting.get_render [OF assms(1), of key v] assms(2,3) by (auto simp: app_raw_fields [OF assms(2)])

end
