(* ===== verification/Engine.thy ===== *)
theory Engine
  imports Buffers Printf
begin

section \<open>Which engine answered (src/src/app/engine.c)\<close>

text \<open>
  The provenance of an engine build: four short strings, checked by \<open>app_engine_valid\<close>, printed by
  \<open>app_engine_json\<close> and read back by \<open>app_engine_parse\<close>. A field of type \<open>char[n]\<close> is its bytes up to
  the first NUL, or \<open>n\<close> bytes if there is none.
\<close>

record app_engine =
  e_version :: string
  e_revision :: string
  e_source_state :: string
  e_payload :: string

definition no_engine :: app_engine where
  "no_engine = \<lparr>e_version = [], e_revision = [], e_source_state = [], e_payload = []\<rparr>"

definition strnlen :: "string \<Rightarrow> nat \<Rightarrow> nat" where
  "strnlen s cap = min (length (cstr s)) cap"

definition engine_hex :: "string \<Rightarrow> bool" where
  "engine_hex s \<longleftrightarrow> (\<forall>c \<in> set s. (48 \<le> byte c \<and> byte c \<le> 57) \<or> (97 \<le> byte c \<and> byte c \<le> 102))"

definition isalnum :: "char \<Rightarrow> bool" where
  "isalnum c \<longleftrightarrow> (48 \<le> byte c \<and> byte c \<le> 57) \<or> (65 \<le> byte c \<and> byte c \<le> 90) \<or> (97 \<le> byte c \<and> byte c \<le> 122)"

definition app_engine_valid :: "app_engine \<Rightarrow> bool" where
  "app_engine_valid e \<longleftrightarrow>
     (let version = strnlen (e_version e) 64; revision = strnlen (e_revision e) 65; payload = strnlen (e_payload e) 65 in
      \<not> (strnlen (e_source_state e) 16 = 16
         \<or> (e_source_state e = ''clean'' \<and> revision = 0) \<or> version = 64
         \<or> (revision \<noteq> 0 \<and> ((revision \<noteq> 40 \<and> revision \<noteq> 64) \<or> \<not> engine_hex (take revision (e_revision e))))
         \<or> (payload \<noteq> 0 \<and> (payload \<noteq> 64 \<or> \<not> engine_hex (take payload (e_payload e)))))
      \<and> (\<forall>c \<in> set (take version (e_version e)). isalnum c \<or> c \<in> set ''.-+_'')
      \<and> (e_source_state e = [] \<or> e_source_state e = ''clean'' \<or> e_source_state e = ''modified'' \<or> e_source_state e = ''unknown''))"

text \<open>The new value of the field, or none for the result false; \<open>old\<close> is what it holds before.\<close>

definition engine_field :: "string \<Rightarrow> nat \<Rightarrow> json \<Rightarrow> int \<Rightarrow> string \<Rightarrow> string option" where
  "engine_field old cap j obj key =
     (let t = (if obj < 0 then -1 else json_get j obj key) in
      if t < 0 \<or> (tok_type (tok_at j t) = JSMN_PRIMITIVE \<and> tok_end (tok_at j t) - tok_start (tok_at j t) = 4
                   \<and> tok_text j t = ''null'') then Some old
      else if tok_type (tok_at j t) \<noteq> JSMN_STRING then None
      else if \<exists>c \<in> set (tok_text j t). byte c < 32 \<or> byte c > 126 \<or> c = BACKSLASH then None
      else case json_strdup j t of
             None \<Rightarrow> None
           | Some s \<Rightarrow> if length s \<ge> cap then None else Some s)"

definition app_engine_parse :: "json \<Rightarrow> int \<Rightarrow> bool \<times> app_engine" where
  "app_engine_parse j obj =
     (if obj < 0 then (True, no_engine)
      else if tok_type (tok_at j obj) \<noteq> JSMN_OBJECT then (False, no_engine)
      else let lib = json_get j obj ''geistlib'' in
        if lib \<ge> 0 \<and> tok_type (tok_at j lib) \<noteq> JSMN_OBJECT then (False, no_engine)
        else case (engine_field [] 64 j lib ''version'', engine_field [] 65 j lib ''revision'',
                   engine_field [] 16 j lib ''source_state'', engine_field [] 65 j obj ''payload_sha256'') of
            (Some v, Some r, Some s, Some p) \<Rightarrow>
              (let e = \<lparr>e_version = v, e_revision = r, e_source_state = s, e_payload = p\<rparr> in
               if app_engine_valid e then (True, e) else (False, no_engine))
          | _ \<Rightarrow> (False, no_engine))"

definition engine_value :: "string \<Rightarrow> app_buffer \<Rightarrow> app_buffer" where
  "engine_value s b = (if s \<noteq> [] then app_quote s b else app_put ''null'' b)"

definition app_engine_json :: "app_engine \<Rightarrow> app_buffer \<Rightarrow> app_buffer" where
  \<open>app_engine_json e = stmts
     [app_put ''{"geistlib":{"version":'',
      engine_value (e_version e),
      app_put '',"revision":'',
      engine_value (e_revision e),
      app_put '',"source_state":'',
      app_quote (if e_source_state e \<noteq> [] then e_source_state e else ''unknown''),
      app_put ''},"payload_sha256":'',
      engine_value (e_payload e),
      app_put '',"unavailable_reason":'',
      (if e_version e = [] \<or> e_revision e = [] then app_quote ''not_reported'' else app_put ''null''),
      app_put ''}'']\<close>

subsection \<open>The written object\<close>

definition or_null :: "string \<Rightarrow> jval" where
  "or_null s = (if s = [] then JPrim ''null'' else JStr s)"

definition engine_lib :: "app_engine \<Rightarrow> (string \<times> jval) list" where
  "engine_lib e = [(''version'', or_null (e_version e)), (''revision'', or_null (e_revision e)),
     (''source_state'', JStr (if e_source_state e \<noteq> [] then e_source_state e else ''unknown''))]"

definition engine_tree :: "app_engine \<Rightarrow> (string \<times> jval) list" where
  "engine_tree e = [(''geistlib'', JObj (engine_lib e)), (''payload_sha256'', or_null (e_payload e)),
     (''unavailable_reason'', if e_version e = [] \<or> e_revision e = [] then JStr ''not_reported'' else JPrim ''null'')]"

text \<open>Texts of C strings.\<close>

definition engine_strings :: "app_engine \<Rightarrow> bool" where
  "engine_strings e \<longleftrightarrow> NUL \<notin> set (e_version e) \<and> NUL \<notin> set (e_revision e) \<and> NUL \<notin> set (e_source_state e) \<and> NUL \<notin> set (e_payload e)"

lemma quoted_text_render: "NUL \<notin> set s \<Longrightarrow> quoted_text s = render app_esc (JStr s)"
  by (simp add: quoted_text_def quoted_def cstr_id)

lemma writes_value [written]: "NUL \<notin> set s \<Longrightarrow> writes (engine_value s) (render app_esc (or_null s))"
  using writes_quote [of s] writes_put [of "''null''"]
  by (auto simp: engine_value_def [abs_def] or_null_def quoted_text_render cstr_def)

text \<open>A text that holds no NUL byte, written by \<open>app_put\<close>.\<close>

lemma writes_lit: "NUL \<notin> set s \<Longrightarrow> writes (app_put s) s"
  using writes_put [of s] by (simp add: cstr_id)

lemma writes_str: "NUL \<notin> set s \<Longrightarrow> writes (app_quote s) (render app_esc (JStr s))"
  using writes_quote [of s] by (simp add: quoted_text_render)

lemma writes_engine:
  assumes "engine_strings e"
  shows "writes (app_engine_json e) (render app_esc (JObj (engine_tree e)))"
proof -
  have n: "NUL \<notin> set (e_version e)" "NUL \<notin> set (e_revision e)" "NUL \<notin> set (e_payload e)"
    "NUL \<notin> set (if e_source_state e \<noteq> [] then e_source_state e else ''unknown'')"
    using assms by (simp_all add: engine_strings_def)
  have "writes (app_engine_json e) (concat
     [''{'' @ quoted app_esc ''geistlib'' @ '':{'' @ quoted app_esc ''version'' @ '':'',
      render app_esc (or_null (e_version e)), '','' @ quoted app_esc ''revision'' @ '':'',
      render app_esc (or_null (e_revision e)), '','' @ quoted app_esc ''source_state'' @ '':'',
      render app_esc (JStr (if e_source_state e \<noteq> [] then e_source_state e else ''unknown'')),
      ''},'' @ quoted app_esc ''payload_sha256'' @ '':'',
      render app_esc (or_null (e_payload e)), '','' @ quoted app_esc ''unavailable_reason'' @ '':'',
      render app_esc (if e_version e = [] \<or> e_revision e = [] then JStr ''not_reported'' else JPrim ''null''), ''}''])"
    unfolding app_engine_json_def
    by (intro writes_stmts list_all2_Cons [THEN iffD2] conjI writes_value n writes_str list_all2_Nil [THEN iffD2] TrueI)
      (auto simp: quoted_def app_esc_def intro!: writes_lit writes_str [of "''not_reported''", simplified])
  then show ?thesis by (simp add: engine_tree_def engine_lib_def split del: if_split)
qed

subsection \<open>Reading it back\<close>

text \<open>The characters of a valid engine are written as they are.\<close>

definition ident :: "string \<Rightarrow> bool" where
  "ident s \<longleftrightarrow> (\<forall>c \<in> set s. isalnum c \<or> c \<in> set ''.-+_'')"

lemma ident_char: "isalnum c \<or> c \<in> set ''.-+_'' \<Longrightarrow> 32 \<le> byte c \<and> byte c \<le> 126 \<and> c \<noteq> DQUOTE \<and> c \<noteq> BACKSLASH \<and> c \<noteq> NUL"
  by (auto simp: isalnum_def)

lemma ident_plain: "ident s \<Longrightarrow> plain s" and ident_nul: "ident s \<Longrightarrow> NUL \<notin> set s"
  using ident_char by (fastforce simp: ident_def plain_def)+

lemma hex_ident: "engine_hex s \<Longrightarrow> ident s"
  by (auto simp: engine_hex_def ident_def isalnum_def)

lemma valid_idents:
  assumes "app_engine_valid e" and "engine_strings e"
  shows "ident (e_version e)" "ident (e_revision e)" "ident (e_source_state e)" "ident (e_payload e)"
    and "length (e_version e) < 64" "length (e_revision e) < 65" "length (e_source_state e) < 16" "length (e_payload e) < 65"
proof -
  note v = assms(1) [unfolded app_engine_valid_def Let_def]
  have c: "cstr (e_version e) = e_version e" "cstr (e_revision e) = e_revision e"
    "cstr (e_source_state e) = e_source_state e" "cstr (e_payload e) = e_payload e"
    using assms(2) by (simp_all add: engine_strings_def cstr_id)
  show l: "length (e_version e) < 64" "length (e_revision e) < 65" "length (e_source_state e) < 16" "length (e_payload e) < 65"
    using v by (auto simp: strnlen_def c min_def split: if_splits)
  show "ident (e_version e)" using v l(1) by (simp add: ident_def strnlen_def c)
  show "ident (e_revision e)"
    using v l(2) by (cases "e_revision e = []") (simp_all add: strnlen_def c hex_ident, simp add: ident_def)
  show "ident (e_payload e)"
    using v l(4) by (cases "e_payload e = []") (simp_all add: strnlen_def c hex_ident, simp add: ident_def)
  have "ident ''clean''" "ident ''modified''" "ident ''unknown''" "ident []" by code_simp+
  then show "ident (e_source_state e)" using v by metis
qed

lemma engine_field_str:
  assumes "is_at app_esc j n (JObj fs)" and "\<forall>k \<in> fst ` set fs. plain k" and "map_of fs key = Some (JStr s)"
    and "ident s" and "length s < cap"
  shows "engine_field old cap j (int n) key = Some s"
proof -
  obtain m where m: "json_get j (int n) key = int m" "is_at app_esc j m (JStr s)"
    using app_get [OF assms(1-3)] .
  have t: "tok_text j (int m) = s"
    using app_quoting.string_render(2) [OF m(2)] app_esc_plain [OF ident_plain [OF assms(4)]] by simp
  have "\<not> (\<exists>c \<in> set s. byte c < 32 \<or> byte c > 126 \<or> c = BACKSLASH)"
    using assms(4) ident_char by (fastforce simp: ident_def)
  then show ?thesis
    using assms(5) ident_nul [OF assms(4)] app_quoting.string_render(1) [OF m(2)] app_quoting.strdup_render [OF m(2)]
    by (simp add: engine_field_def m(1) t cstr_id)
qed

lemma engine_field_or_null:
  assumes "is_at app_esc j n (JObj fs)" and "\<forall>k \<in> fst ` set fs. plain k" and "map_of fs key = Some (or_null s)"
    and "ident s" and "length s < cap"
  shows "engine_field [] cap j (int n) key = Some s"
proof (cases "s = []")
  case True
  then obtain m where m: "json_get j (int n) key = int m" "is_at app_esc j m (JPrim ''null'')"
    using app_get [OF assms(1-3)] by (auto simp: or_null_def)
  from app_quoting.word_render [OF m(2)] show ?thesis by (simp add: engine_field_def m(1) True)
next
  case False
  with assms(3) have "map_of fs key = Some (JStr s)" by (simp add: or_null_def)
  from engine_field_str [OF assms(1,2) this assms(4,5)] show ?thesis .
qed

lemma engine_read_back:
  assumes "app_engine_valid e" and "engine_strings e" and "e_source_state e \<noteq> []"
    and "is_at app_esc j n (JObj (engine_tree e))"
  shows "app_engine_parse j (int n) = (True, e)"
proof -
  note i = valid_idents [OF assms(1,2)]
  have keys: "\<forall>k \<in> fst ` set (engine_tree e). plain k" "\<forall>k \<in> fst ` set (engine_lib e). plain k"
    by (simp_all add: engine_tree_def engine_lib_def plain_def)
  obtain m where m: "json_get j (int n) ''geistlib'' = int m" "is_at app_esc j m (JObj (engine_lib e))"
    using app_get [OF assms(4) keys(1), of "''geistlib''"] by (auto simp: engine_tree_def)
  have "engine_field [] 64 j (int m) ''version'' = Some (e_version e)"
    "engine_field [] 65 j (int m) ''revision'' = Some (e_revision e)"
    "engine_field [] 65 j (int n) ''payload_sha256'' = Some (e_payload e)"
    using i by (auto intro!: engine_field_or_null [OF m(2) keys(2)] engine_field_or_null [OF assms(4) keys(1)]
      simp: engine_lib_def engine_tree_def)
  moreover have "engine_field [] 16 j (int m) ''source_state'' = Some (e_source_state e)"
    using i assms(3) by (auto intro!: engine_field_str [OF m(2) keys(2)] simp: engine_lib_def)
  ultimately show ?thesis
    using app_quoting.object_render [OF assms(4)] app_quoting.object_render [OF m(2)] assms(1)
    by (cases e) (simp add: app_engine_parse_def m(1) Let_def)
qed

lemma engine_tree_ok: "jfields_ok (engine_tree e)"
  by (auto simp: engine_tree_def engine_lib_def or_null_def prim_ok_def prim_start_def prim_end_def)

lemma engine_tree_size: "nfields (engine_tree e) = 12"
  by (simp add: engine_tree_def engine_lib_def or_null_def)

end
