(* ===== verification/Memory.thy ===== *)
theory Memory
  imports Engine Lifecycle
begin

section \<open>What a process uses (src/src/app/memory.c)\<close>

text \<open>
  The memory record of a running engine: one sample after another is taken into it
  (\<open>app_memory_observe\<close>), it is printed into the performance journal and read back
  (\<open>app_memory_json\<close>, \<open>app_memory_parse\<close>). Unsigned fields are natural numbers, the only increment
  is written modulo \<open>2 ^ 32\<close>.
\<close>

subsection \<open>Numbers and null\<close>

definition num_text :: "dbl \<Rightarrow> string" where
  "num_text n = (if dlt n (Fin 0) \<or> \<not> dfinite n then ''null'' else printf_g n)"

definition put_number :: "dbl \<Rightarrow> app_buffer \<Rightarrow> app_buffer" where
  "put_number n b = (if dlt n (Fin 0) \<or> \<not> dfinite n then app_put ''null'' b else app_printf (printf_g n) b)"

lemma writes_number [written]: "writes (put_number n) (render app_esc (JPrim (num_text n)))"
  using writes_lit [of "''null''"] writes_printf by (auto simp: put_number_def [abs_def] num_text_def)

interpretation numbering: writer put_number num_text
  by unfold_locales (use writes_number in simp)

text \<open>A number that is printed and read back unchanged, if it is printed at all.\<close>

definition survives :: "dbl \<Rightarrow> bool" where
  "survives x \<longleftrightarrow> (\<forall>q. x = Fin q \<and> 0 \<le> q \<longrightarrow> reads_back q)"

definition read_as :: "dbl \<Rightarrow> dbl \<Rightarrow> dbl" where
  "read_as d x = (if dlt x (Fin 0) \<or> \<not> dfinite x then d else x)"

lemma num_text_Fin: "0 \<le> q \<Longrightarrow> num_text (Fin q) = general17 q"
  by (simp add: num_text_def printf_g_def dfinite_def not_less)

lemma num_text_ok: "survives x \<Longrightarrow> prim_ok (num_text x)"
proof -
  assume x: "survives x"
  have n: "prim_ok ''null''" by (simp add: prim_ok_def prim_start_def prim_end_def)
  show ?thesis
  proof (cases "dlt x (Fin 0) \<or> \<not> dfinite x")
    case True
    with n show ?thesis by (simp add: num_text_def)
  next
    case False
    then obtain q where q: "x = Fin q" "0 \<le> q" by (cases x) (auto simp: dfinite_def not_less)
    with x show ?thesis by (simp add: survives_def num_text_Fin reads_back_def)
  qed
qed

lemma number_read:
  assumes "is_at app_esc j n (JObj fs)" and "\<forall>k \<in> fst ` set fs. plain k" and "map_of fs key = Some (JPrim (num_text x))"
    and "survives x"
  shows "json_num j (json_get j (int n) key) d = read_as d x"
proof -
  obtain m where m: "json_get j (int n) key = int m" "is_at app_esc j m (JPrim (num_text x))"
    using app_get [OF assms(1-3)] .
  show ?thesis
  proof (cases "dlt x (Fin 0) \<or> \<not> dfinite x")
    case True
    then have "num_text x = ''null''" by (simp add: num_text_def)
    with m(2) have "is_at app_esc j m (JPrim ''null'')" by simp
    from app_quoting.null_render [OF this] True show ?thesis by (simp add: m(1) read_as_def)
  next
    case False
    then obtain q where q: "x = Fin q" "0 \<le> q" by (cases x) (auto simp: dfinite_def not_less)
    with assms(4) have "reads_back q" by (simp add: survives_def)
    from app_quoting.num_render_prim [OF m(2) [unfolded q num_text_Fin [OF q(2)]] this] False
    show ?thesis by (simp add: m(1) read_as_def q)
  qed
qed

lemma text_read:
  assumes "is_at app_esc j n (JObj fs)" and "\<forall>k \<in> fst ` set fs. plain k" and "map_of fs key = Some (JStr s)"
    and "NUL \<notin> set s"
  shows "json_strdup j (json_get j (int n) key) = Some s"
proof -
  obtain m where m: "json_get j (int n) key = int m" "is_at app_esc j m (JStr s)"
    using app_get [OF assms(1-3)] .
  from app_quoting.strdup_render [OF m(2)] assms(4) show ?thesis by (simp add: m(1) cstr_id)
qed

lemma nat_read:
  assumes "is_at app_esc j n (JObj fs)" and "\<forall>k \<in> fst ` set fs. plain k" and "map_of fs key = Some (JPrim (dec k))"
  shows "json_num j (json_get j (int n) key) d = Fin (of_nat k)"
proof -
  obtain m where m: "json_get j (int n) key = int m" "is_at app_esc j m (JPrim (dec k))"
    using app_get [OF assms] .
  from app_quoting.num_render [OF m(2)] show ?thesis by (simp add: m(1))
qed

lemma bool_read:
  assumes "is_at app_esc j n (JObj fs)" and "\<forall>k \<in> fst ` set fs. plain k" and "map_of fs key = Some (JPrim w)"
    and "w \<noteq> []"
  shows "json_bool j (json_get j (int n) key) d = (hd w = CHR ''t'')"
proof -
  obtain m where m: "json_get j (int n) key = int m" "is_at app_esc j m (JPrim w)"
    using app_get [OF assms(1-3)] .
  from app_quoting.bool_render [OF m(2) assms(4)] show ?thesis by (simp add: m(1))
qed

subsection \<open>The record\<close>

record app_memory_record =
  m_generation :: string
  m_sampled_at :: dbl
  m_gpu_age_ms :: dbl
  m_gpu_end :: dbl
  m_gpu_peak :: dbl
  m_rss_age_ms :: dbl
  m_gpu_samples :: nat
  m_status :: nat
  m_source :: nat
  m_rss_source :: nat
  m_unified :: bool
  m_last_sequence :: u64

definition app_memory_reset :: app_memory_record where
  "app_memory_reset =
     \<lparr>m_generation = [], m_sampled_at = Fin 0, m_gpu_age_ms = Fin (-1), m_gpu_end = Fin (-1), m_gpu_peak = Fin (-1),
      m_rss_age_ms = Fin (-1), m_gpu_samples = 0, m_status = 0, m_source = 0, m_rss_source = 0, m_unified = False,
      m_last_sequence = 0\<rparr>"

definition app_memory_observe ::
    "lifecycle_memory option \<Rightarrow> u64 \<Rightarrow> dbl \<Rightarrow> app_memory_record \<Rightarrow> app_memory_record" where
  "app_memory_observe sample now_ns timestamp m =
     (let m1 = m\<lparr>m_gpu_end := Fin (-1), m_status := 0, m_gpu_age_ms := Fin (-1), m_sampled_at := timestamp\<rparr> in
      case sample of
        None \<Rightarrow> m1
      | Some s \<Rightarrow>
          if l_sampled_ns s = 0 \<or> l_sampled_ns s > now_ns \<or> l_status s > 3 \<or> l_source s > 1
             \<or> l_sequence s < m_last_sequence m1 \<or> l_allocated_bytes s > 1000000000000000 then m1
          else
            let fresh = (m_last_sequence m1 \<noteq> l_sequence s);
                age = of_nat (unat (now_ns - l_sampled_ns s)) / 1000000;
                m2 = m1\<lparr>m_last_sequence := l_sequence s, m_gpu_age_ms := Fin age,
                        m_status := (if age > 6000 then 4 else unat (l_status s))\<rparr>;
                m3 = (if l_source s \<noteq> 0 then m2\<lparr>m_source := unat (l_source s), m_unified := l_unified s\<rparr> else m2)
            in if m_status m3 = 1 \<and> l_source s \<noteq> 1 then m3\<lparr>m_status := 3\<rparr>
               else if m_status m3 \<noteq> 1 then m3
               else
                 let m4 = m3\<lparr>m_gpu_end := Fin (of_nat (unat (l_allocated_bytes s)))\<rparr>
                 in if fresh then
                      m4\<lparr>m_gpu_samples := (m_gpu_samples m4 + 1) mod 2 ^ 32,
                         m_gpu_peak := (if dlt (m_gpu_peak m4) (m_gpu_end m4) then m_gpu_end m4 else m_gpu_peak m4)\<rparr>
                    else m4)"

definition between :: "dbl \<Rightarrow> dbl \<Rightarrow> rat \<Rightarrow> bool" where
  "between lo x hi \<longleftrightarrow> dfinite x \<and> dle lo x \<and> dle x (Fin hi)"

definition app_memory_valid :: "app_memory_record \<Rightarrow> bool" where
  "app_memory_valid m \<longleftrightarrow>
     strnlen (m_generation m) 112 < 112 \<and> m_status m \<le> 4 \<and> m_source m \<le> 1 \<and> m_rss_source m \<le> 2
     \<and> m_gpu_samples m \<le> 1000000
     \<and> between (Fin (-1)) (m_gpu_end m) (10 ^ 15) \<and> between (Fin (-1)) (m_gpu_peak m) (10 ^ 15)
     \<and> between (Fin (-1)) (m_gpu_age_ms m) (10 ^ 12) \<and> between (Fin (-1)) (m_rss_age_ms m) (10 ^ 12)
     \<and> between (Fin 0) (m_sampled_at m) (10 ^ 12)
     \<and> (m_gpu_samples m = 0 \<or> (m_source m = 1 \<and> dle (Fin 0) (m_gpu_peak m)))
     \<and> (m_status m \<noteq> 1 \<or> (m_source m = 1 \<and> dle (Fin 0) (m_gpu_end m) \<and> dle (Fin 0) (m_gpu_age_ms m)
          \<and> dle (m_gpu_age_ms m) (Fin 6000)))"

subsection \<open>One sample after another\<close>

text \<open>A record stays valid with every sample, whatever the engine reports, as long as the clocks are
  sane and the samples are counted below the limit of the journal.\<close>

lemma observe_valid [intr_inv]:
  assumes "app_memory_valid m" and "between (Fin 0) timestamp (10 ^ 12)" and "m_gpu_samples m < 1000000"
    and "unat now_ns \<le> 10 ^ 18"
  shows "app_memory_valid (app_memory_observe sample now_ns timestamp m)"
proof (cases sample)
  case None
  with assms show ?thesis by (simp add: app_memory_observe_def app_memory_valid_def between_def dfinite_def)
next
  case (Some s)
  define m1 where "m1 = m\<lparr>m_gpu_end := Fin (-1), m_status := 0, m_gpu_age_ms := Fin (-1), m_sampled_at := timestamp\<rparr>"
  have v1: "app_memory_valid m1"
    using assms(1,2) by (simp add: m1_def app_memory_valid_def between_def dfinite_def)
  have n1: "m_gpu_samples m1 < 1000000" using assms(3) by (simp add: m1_def)
  define skip where "skip \<longleftrightarrow> l_sampled_ns s = 0 \<or> l_sampled_ns s > now_ns \<or> l_status s > 3 \<or> l_source s > 1
    \<or> l_sequence s < m_last_sequence m1 \<or> l_allocated_bytes s > 1000000000000000"
  define age where "age = (of_nat (unat (now_ns - l_sampled_ns s)) / 1000000 :: rat)"
  define bytes where "bytes = (of_nat (unat (l_allocated_bytes s)) :: rat)"
  have eq: "app_memory_observe sample now_ns timestamp m = (if skip then m1 else
     let m2 = m1\<lparr>m_last_sequence := l_sequence s, m_gpu_age_ms := Fin age, m_status := (if age > 6000 then 4 else unat (l_status s))\<rparr>;
         m3 = (if l_source s \<noteq> 0 then m2\<lparr>m_source := unat (l_source s), m_unified := l_unified s\<rparr> else m2)
     in if m_status m3 = 1 \<and> l_source s \<noteq> 1 then m3\<lparr>m_status := 3\<rparr>
        else if m_status m3 \<noteq> 1 then m3
        else let m4 = m3\<lparr>m_gpu_end := Fin bytes\<rparr>
          in if m_last_sequence m1 \<noteq> l_sequence s then m4\<lparr>m_gpu_samples := (m_gpu_samples m4 + 1) mod 2 ^ 32,
                m_gpu_peak := (if dlt (m_gpu_peak m4) (m_gpu_end m4) then m_gpu_end m4 else m_gpu_peak m4)\<rparr>
             else m4)"
    by (simp only: Some app_memory_observe_def Let_def option.case m1_def [symmetric] skip_def age_def bytes_def)
  show ?thesis
  proof (cases skip)
    case True
    with v1 show ?thesis by (simp add: eq)
  next
    case False
    then have st: "unat (l_status s) \<le> 3" "l_source s = 0 \<or> l_source s = 1"
      by (auto simp: skip_def word_le_nat_alt not_less le_Suc_eq word_unat_eq_iff)
    have "l_sampled_ns s \<le> now_ns" using False by (simp add: skip_def not_less)
    then have "unat (now_ns - l_sampled_ns s) \<le> unat now_ns" by (simp add: unat_sub)
    then have ns: "unat (now_ns - l_sampled_ns s) \<le> 10 ^ 18" using assms(4) by (rule order_trans)
    have "(of_nat (unat (now_ns - l_sampled_ns s)) :: rat) \<le> of_nat (10 ^ 18)" using ns unfolding of_nat_le_iff .
    then have age: "0 \<le> age" "age \<le> 1000000000000" unfolding age_def by (simp_all del: of_nat_unat)
    have "unat (l_allocated_bytes s) \<le> 1000000000000000" using False by (simp add: skip_def word_le_nat_alt not_less)
    then have "(of_nat (unat (l_allocated_bytes s)) :: rat) \<le> of_nat 1000000000000000" unfolding of_nat_le_iff .
    then have bytes: "0 \<le> bytes" "bytes \<le> 1000000000000000" unfolding bytes_def by (simp_all del: of_nat_unat)
    obtain peak where "m_gpu_peak m1 = Fin peak"
      using v1 by (cases "m_gpu_peak m1") (auto simp: app_memory_valid_def between_def dfinite_def)
    then show ?thesis
      using st v1 n1 age bytes
      by (cases "age > 6000"; cases "l_source s = 0"; cases "unat (l_status s) = 1"; cases "m_last_sequence m1 = l_sequence s")
        (auto simp: eq False Let_def app_memory_valid_def between_def dfinite_def)
  qed
qed

text \<open>A sample is counted once: a second look at the same one changes no count and no peak.\<close>

lemma observe_again:
  assumes "l_sequence s = m_last_sequence m"
  shows "m_gpu_samples (app_memory_observe (Some s) now t m) = m_gpu_samples m
     \<and> m_gpu_peak (app_memory_observe (Some s) now t m) = m_gpu_peak m"
  using assms by (simp add: app_memory_observe_def Let_def)

lemma observe_last: "m_last_sequence m \<le> m_last_sequence (app_memory_observe sample now t m)"
  by (cases sample) (auto simp: app_memory_observe_def Let_def not_less)

subsection \<open>In the journal\<close>

definition rss_text :: "nat \<Rightarrow> string" where
  "rss_text s = (if s = 1 then ''macos.proc_pid_rusage.ri_resident_size'' else if s = 2 then ''linux.proc_pid_stat.rss''
     else ''legacy_process_rss'')"

definition rss_reason :: "dbl \<Rightarrow> string" where
  "rss_reason age = (if dlt (Fin 6000) age then ''stale'' else if dle (Fin 0) age then ''query_failed'' else ''not_collected'')"

definition gpu_reason :: "nat \<Rightarrow> string" where
  "gpu_reason st = [''not_collected'', [], ''unsupported'', ''query_failed'', ''stale''] ! (if st \<le> 4 then st else 0)"

definition app_memory_json :: "app_memory_record \<Rightarrow> dbl \<Rightarrow> dbl \<Rightarrow> nat \<Rightarrow> app_buffer \<Rightarrow> app_buffer" where
  \<open>app_memory_json m rss peak_rss rss_samples = stmts
     [app_put ''{"process_generation":'',
      (if m_generation m \<noteq> [] then app_quote (m_generation m) else app_put ''null''),
      app_put '',"sampled_at":'',
      put_number (if dlt (Fin 0) (m_sampled_at m) then m_sampled_at m else Fin (-1)),
      app_put '',"process_rss_bytes":'',
      put_number rss,
      app_put '',"process_rss_sampled_peak_bytes":'',
      put_number peak_rss,
      app_put '',"process_rss_sample_age_ms":'',
      put_number (m_rss_age_ms m),
      app_put '',"rss_unavailable_reason":'',
      (if dle (Fin 0) rss then app_put ''null'' else app_quote (rss_reason (m_rss_age_ms m))),
      app_put '',"rss_source":'',
      app_quote (rss_text (m_rss_source m)),
      app_printf ('',"rss_samples":'' @ dec rss_samples @ '',"sample_interval_ms":2000,"status":'' @ dec (m_status m)
        @ '',"source":'' @ dec (m_source m) @ '',"gpu_samples":'' @ dec (m_gpu_samples m) @ '',''),
      app_put ''"gpu_allocated_bytes":'',
      put_number (if m_status m = 1 then m_gpu_end m else Fin (-1)),
      app_put '',"gpu_allocated_sampled_peak_bytes":'',
      put_number (if m_gpu_samples m \<noteq> 0 then m_gpu_peak m else Fin (-1)),
      app_put '',"gpu_sample_age_ms":'',
      put_number (m_gpu_age_ms m),
      app_put '',"gpu_source":'',
      (if m_source m = 1 then app_quote ''metal.MTLDevice.currentAllocatedSize'' else app_put ''null''),
      app_put '',"gpu_unavailable_reason":'',
      (if m_status m = 1 then app_put ''null'' else app_quote (gpu_reason (m_status m))),
      app_put '',"unified_memory":'',
      app_put (if m_source m = 1 then (if m_unified m then ''true'' else ''false'') else ''null''),
      app_put '',"process_physical_footprint_bytes":null,"total_unique_physical_bytes":null}'']\<close>

text \<open>A count of the record, or none for the result false.\<close>

definition count_field :: "json \<Rightarrow> int \<Rightarrow> string \<Rightarrow> dbl \<Rightarrow> nat option" where
  "count_field j obj key dflt =
     (case json_num j (json_get j obj key) dflt of
        Fin q \<Rightarrow> if q < 0 \<or> q > 1000000 \<or> of_int \<lfloor>q\<rfloor> \<noteq> q then None else Some (nat \<lfloor>q\<rfloor>)
      | _ \<Rightarrow> None)"

definition app_memory_parse :: "json \<Rightarrow> int \<Rightarrow> app_memory_record option" where
  "app_memory_parse j index =
     (if index < 0 then Some app_memory_reset
      else if tok_type (tok_at j index) \<noteq> JSMN_OBJECT then None
      else
        let gen = json_strdup j (json_get j index ''process_generation'');
            rs = json_strdup j (json_get j index ''rss_source'') in
        if (case gen of Some g \<Rightarrow> length g \<ge> 112 | None \<Rightarrow> False) then None
        else case (count_field j index ''status'' (Fin 0), count_field j index ''source'' (Fin 0),
                   count_field j index ''gpu_samples'' (Fin 0)) of
          (Some st, Some so, Some n) \<Rightarrow>
            (let m = \<lparr>m_generation = (case gen of Some g \<Rightarrow> g | None \<Rightarrow> []),
                      m_sampled_at = json_num j (json_get j index ''sampled_at'') (Fin 0),
                      m_gpu_age_ms = json_num j (json_get j index ''gpu_sample_age_ms'') (Fin (-1)),
                      m_gpu_end = json_num j (json_get j index ''gpu_allocated_bytes'') (Fin (-1)),
                      m_gpu_peak = json_num j (json_get j index ''gpu_allocated_sampled_peak_bytes'') (Fin (-1)),
                      m_rss_age_ms = json_num j (json_get j index ''process_rss_sample_age_ms'') (Fin (-1)),
                      m_gpu_samples = n, m_status = st, m_source = so,
                      m_rss_source = (if rs = Some ''macos.proc_pid_rusage.ri_resident_size'' then 1
                                      else if rs = Some ''linux.proc_pid_stat.rss'' then 2 else 0),
                      m_unified = json_bool j (json_get j index ''unified_memory'') False,
                      m_last_sequence = 0\<rparr>
             in if app_memory_valid m then Some m else None)
        | _ \<Rightarrow> None)"

subsection \<open>The written object\<close>

definition memory_tree :: "app_memory_record \<Rightarrow> dbl \<Rightarrow> dbl \<Rightarrow> nat \<Rightarrow> (string \<times> jval) list" where
  "memory_tree m rss peak_rss rss_samples =
     [(''process_generation'', or_null (m_generation m)),
      (''sampled_at'', JPrim (num_text (if dlt (Fin 0) (m_sampled_at m) then m_sampled_at m else Fin (-1)))),
      (''process_rss_bytes'', JPrim (num_text rss)),
      (''process_rss_sampled_peak_bytes'', JPrim (num_text peak_rss)),
      (''process_rss_sample_age_ms'', JPrim (num_text (m_rss_age_ms m))),
      (''rss_unavailable_reason'', if dle (Fin 0) rss then JPrim ''null'' else JStr (rss_reason (m_rss_age_ms m))),
      (''rss_source'', JStr (rss_text (m_rss_source m))),
      (''rss_samples'', JPrim (dec rss_samples)),
      (''sample_interval_ms'', JPrim ''2000''),
      (''status'', JPrim (dec (m_status m))),
      (''source'', JPrim (dec (m_source m))),
      (''gpu_samples'', JPrim (dec (m_gpu_samples m))),
      (''gpu_allocated_bytes'', JPrim (num_text (if m_status m = 1 then m_gpu_end m else Fin (-1)))),
      (''gpu_allocated_sampled_peak_bytes'', JPrim (num_text (if m_gpu_samples m \<noteq> 0 then m_gpu_peak m else Fin (-1)))),
      (''gpu_sample_age_ms'', JPrim (num_text (m_gpu_age_ms m))),
      (''gpu_source'', if m_source m = 1 then JStr ''metal.MTLDevice.currentAllocatedSize'' else JPrim ''null''),
      (''gpu_unavailable_reason'', if m_status m = 1 then JPrim ''null'' else JStr (gpu_reason (m_status m))),
      (''unified_memory'', JPrim (if m_source m = 1 then (if m_unified m then ''true'' else ''false'') else ''null'')),
      (''process_physical_footprint_bytes'', JPrim ''null''),
      (''total_unique_physical_bytes'', JPrim ''null'')]"

lemma writes_gen: "NUL \<notin> set s \<Longrightarrow> writes (if s \<noteq> [] then app_quote s else app_put ''null'') (render app_esc (or_null s))"
  using writes_str [of s] writes_lit [of "''null''"] by (auto simp: or_null_def)

lemma writes_either: "NUL \<notin> set s \<Longrightarrow> NUL \<notin> set w \<Longrightarrow>
    writes (if P then app_put w else app_quote s) (render app_esc (if P then JPrim w else JStr s))"
  using writes_str [of s] writes_lit [of w] by auto

lemma writes_either': "NUL \<notin> set s \<Longrightarrow> NUL \<notin> set w \<Longrightarrow>
    writes (if P then app_quote s else app_put w) (render app_esc (if P then JStr s else JPrim w))"
  using writes_str [of s] writes_lit [of w] by auto

lemma reasons_nul: "NUL \<notin> set (rss_reason a)" "NUL \<notin> set (rss_text r)" "NUL \<notin> set (gpu_reason st)"
proof -
  show "NUL \<notin> set (rss_reason a)" "NUL \<notin> set (rss_text r)" by (simp_all add: rss_reason_def rss_text_def)
  have "\<forall>k \<in> set [0..<5]. NUL \<notin> set (gpu_reason k)" by code_simp
  moreover have "gpu_reason st = gpu_reason (if st \<le> 4 then st else 0)" by (simp add: gpu_reason_def)
  moreover have "(if st \<le> 4 then st else 0) \<in> set [0..<5]" by simp
  ultimately show "NUL \<notin> set (gpu_reason st)" by metis
qed

text \<open>\<open>"key":\<close> behind a comma, as one \<open>app_put\<close> writes it.\<close>

definition key_text :: "string \<Rightarrow> string" where
  "key_text k = quoted app_esc k @ '':''"

lemma writes_key: "plain k \<Longrightarrow> NUL \<notin> set k \<Longrightarrow> s = DQUOTE # k @ [DQUOTE, CHR '':''] \<Longrightarrow> writes (app_put (CHR '','' # s)) ('','' @ key_text k)"
  using writes_lit [of "CHR '','' # s"] by (simp add: key_text_def quoted_def app_esc_plain)

lemma writes_memory:
  assumes "NUL \<notin> set (m_generation m)"
  shows "writes (app_memory_json m rss peak_rss n) (render app_esc (JObj (memory_tree m rss peak_rss n)))"
proof -
  have lit: "writes (app_put s) t" if "t = s" "NUL \<notin> set s" for s t
    using that writes_lit by simp
  have "writes (app_memory_json m rss peak_rss n) (concat
     [''{'' @ key_text ''process_generation'', render app_esc (or_null (m_generation m)),
      '','' @ key_text ''sampled_at'', render app_esc (JPrim (num_text (if dlt (Fin 0) (m_sampled_at m) then m_sampled_at m else Fin (-1)))),
      '','' @ key_text ''process_rss_bytes'', render app_esc (JPrim (num_text rss)),
      '','' @ key_text ''process_rss_sampled_peak_bytes'', render app_esc (JPrim (num_text peak_rss)),
      '','' @ key_text ''process_rss_sample_age_ms'', render app_esc (JPrim (num_text (m_rss_age_ms m))),
      '','' @ key_text ''rss_unavailable_reason'',
      render app_esc (if dle (Fin 0) rss then JPrim ''null'' else JStr (rss_reason (m_rss_age_ms m))),
      '','' @ key_text ''rss_source'', render app_esc (JStr (rss_text (m_rss_source m))),
      '','' @ key_text ''rss_samples'' @ dec n @ '','' @ key_text ''sample_interval_ms'' @ ''2000,'' @ key_text ''status'' @ dec (m_status m)
        @ '','' @ key_text ''source'' @ dec (m_source m) @ '','' @ key_text ''gpu_samples'' @ dec (m_gpu_samples m) @ '','',
      key_text ''gpu_allocated_bytes'', render app_esc (JPrim (num_text (if m_status m = 1 then m_gpu_end m else Fin (-1)))),
      '','' @ key_text ''gpu_allocated_sampled_peak_bytes'',
      render app_esc (JPrim (num_text (if m_gpu_samples m \<noteq> 0 then m_gpu_peak m else Fin (-1)))),
      '','' @ key_text ''gpu_sample_age_ms'', render app_esc (JPrim (num_text (m_gpu_age_ms m))),
      '','' @ key_text ''gpu_source'',
      render app_esc (if m_source m = 1 then JStr ''metal.MTLDevice.currentAllocatedSize'' else JPrim ''null''),
      '','' @ key_text ''gpu_unavailable_reason'',
      render app_esc (if m_status m = 1 then JPrim ''null'' else JStr (gpu_reason (m_status m))),
      '','' @ key_text ''unified_memory'', if m_source m = 1 then (if m_unified m then ''true'' else ''false'') else ''null'',
      '','' @ key_text ''process_physical_footprint_bytes'' @ ''null,'' @ key_text ''total_unique_physical_bytes'' @ ''null}''])"
    unfolding app_memory_json_def
    by (intro writes_stmts list_all2_Cons [THEN iffD2] conjI writes_gen writes_number writes_either writes_either' writes_str
        assms reasons_nul list_all2_Nil [THEN iffD2] TrueI writes_printf)
      (auto simp: key_text_def quoted_def app_esc_def intro!: lit writes_printf)
  then show ?thesis
    by (simp add: memory_tree_def key_text_def if_distrib [of "render app_esc"] split del: if_split)
qed

subsection \<open>Reading it back\<close>

text \<open>What the journal keeps of a record: numbers that are unknown come back as \<open>-1\<close>, an allocation is
  kept with the status that vouches for it, and the transient sequence is dropped.\<close>

definition journaled :: "app_memory_record \<Rightarrow> app_memory_record" where
  "journaled m = m\<lparr>m_sampled_at := read_as (Fin 0) (if dlt (Fin 0) (m_sampled_at m) then m_sampled_at m else Fin (-1)),
     m_gpu_age_ms := read_as (Fin (-1)) (m_gpu_age_ms m), m_rss_age_ms := read_as (Fin (-1)) (m_rss_age_ms m),
     m_gpu_end := read_as (Fin (-1)) (if m_status m = 1 then m_gpu_end m else Fin (-1)),
     m_gpu_peak := read_as (Fin (-1)) (if m_gpu_samples m \<noteq> 0 then m_gpu_peak m else Fin (-1)),
     m_unified := (m_source m = 1 \<and> m_unified m), m_last_sequence := 0\<rparr>"

definition memory_survives :: "app_memory_record \<Rightarrow> bool" where
  "memory_survives m \<longleftrightarrow> survives (m_sampled_at m) \<and> survives (m_gpu_age_ms m) \<and> survives (m_rss_age_ms m)
     \<and> survives (m_gpu_end m) \<and> survives (m_gpu_peak m)"

lemma survives_neg: "survives (Fin (-1))"
  by (simp add: survives_def)

lemma journaled_valid: "app_memory_valid m \<Longrightarrow> app_memory_valid (journaled m)"
proof -
  have lo: "between lo (read_as d x) h" if "between lo x h" "between lo d h" for lo x d h
    using that by (simp add: read_as_def)
  have p: "dle (Fin 0) x \<Longrightarrow> dfinite x \<Longrightarrow> read_as d x = x" for x d
    by (cases x) (auto simp: read_as_def dfinite_def dle_def)
  have m1: "between (Fin (-1)) (Fin (-1)) (10 ^ 15)" "between (Fin (-1)) (Fin (-1)) (10 ^ 12)" "between (Fin 0) (Fin 0) (10 ^ 12)"
    by (simp_all add: between_def dfinite_def)
  assume v: "app_memory_valid m"
  note b = v [unfolded app_memory_valid_def]
  obtain q where "m_sampled_at m = Fin q" using v by (cases "m_sampled_at m") (auto simp: app_memory_valid_def between_def dfinite_def)
  then have "between (Fin 0) (m_sampled_at (journaled m)) (10 ^ 12)"
    using b m1(3) by (simp add: read_as_def journaled_def)
  moreover have "between (Fin (-1)) (m_gpu_age_ms (journaled m)) (10 ^ 12)" "between (Fin (-1)) (m_rss_age_ms (journaled m)) (10 ^ 12)"
    using b lo [OF _ m1(2)] m1(2) by (simp_all add: journaled_def)
  moreover have "between (Fin (-1)) (m_gpu_end (journaled m)) (10 ^ 15)" "between (Fin (-1)) (m_gpu_peak (journaled m)) (10 ^ 15)"
    using b lo [OF _ m1(1)] m1(1) by (simp_all add: journaled_def)
  moreover have "m_status m = 1 \<Longrightarrow> m_gpu_end (journaled m) = m_gpu_end m \<and> m_gpu_age_ms (journaled m) = m_gpu_age_ms m"
    "m_gpu_samples m \<noteq> 0 \<Longrightarrow> m_gpu_peak (journaled m) = m_gpu_peak m"
    using b by (simp_all add: journaled_def p between_def)
  moreover have "m_generation (journaled m) = m_generation m" "m_status (journaled m) = m_status m"
    "m_source (journaled m) = m_source m" "m_rss_source (journaled m) = m_rss_source m"
    "m_gpu_samples (journaled m) = m_gpu_samples m"
    by (simp_all add: journaled_def)
  ultimately show ?thesis using b unfolding app_memory_valid_def by metis
qed

lemma count_read:
  assumes "is_at app_esc j n (JObj fs)" and "\<forall>k \<in> fst ` set fs. plain k" and "map_of fs key = Some (JPrim (dec k))"
    and "k \<le> 1000000"
  shows "count_field j (int n) key d = Some k"
proof -
  have "(of_nat k :: rat) \<le> of_nat 1000000" using assms(4) unfolding of_nat_le_iff .
  then show ?thesis by (simp add: count_field_def nat_read [OF assms(1-3)])
qed

lemma plain_keys: "\<forall>k \<in> fst ` set (memory_tree m rss peak n). plain k"
  by (simp add: memory_tree_def plain_def)

lemma memory_read_back:
  assumes "app_memory_valid m" and "NUL \<notin> set (m_generation m)" and "memory_survives m"
    and "is_at app_esc j n (JObj (memory_tree m rss peak k))"
  shows "app_memory_parse j (int n) = Some (journaled m)"
proof -
  note keys = plain_keys [of m rss peak k]
  note num = number_read [OF assms(4) keys] and cnt = count_read [OF assms(4) keys]
    and str = text_read [OF assms(4) keys] and yes = bool_read [OF assms(4) keys]
  have v: "m_status m \<le> 1000000" "m_source m \<le> 1000000" "m_gpu_samples m \<le> 1000000" "m_rss_source m \<le> 2"
    "length (m_generation m) < 112"
    using assms(1,2) by (auto simp: app_memory_valid_def strnlen_def cstr_id min_def split: if_splits)
  note sv = assms(3) [unfolded memory_survives_def]
  have gen: "(case json_strdup j (json_get j (int n) ''process_generation'') of Some g \<Rightarrow> g | None \<Rightarrow> []) = m_generation m"
  proof (cases "m_generation m = []")
    case True
    then have "map_of (memory_tree m rss peak k) ''process_generation'' = Some (JPrim ''null'')"
      by (simp add: memory_tree_def or_null_def)
    then obtain a where a: "json_get j (int n) ''process_generation'' = int a" "is_at app_esc j a (JPrim ''null'')"
      using app_get [OF assms(4) keys] by blast
    from app_quoting.word_render(1) [OF a(2)] show ?thesis by (simp add: a(1) True json_strdup_def json_is_str_def)
  next
    case False
    then have "map_of (memory_tree m rss peak k) ''process_generation'' = Some (JStr (m_generation m))"
      by (simp add: memory_tree_def or_null_def)
    from str [OF this assms(2)] show ?thesis by simp
  qed
  then have short: "\<not> (case json_strdup j (json_get j (int n) ''process_generation'') of Some g \<Rightarrow> length g \<ge> 112 | None \<Rightarrow> False)"
    using v(5) by (auto split: option.splits)
  have c: "count_field j (int n) ''status'' (Fin 0) = Some (m_status m)" "count_field j (int n) ''source'' (Fin 0) = Some (m_source m)"
    "count_field j (int n) ''gpu_samples'' (Fin 0) = Some (m_gpu_samples m)"
    using v by (auto intro!: cnt simp: memory_tree_def)
  have d: "json_num j (json_get j (int n) ''sampled_at'') (Fin 0) = m_sampled_at (journaled m)"
    using num [of "''sampled_at''" "if dlt (Fin 0) (m_sampled_at m) then m_sampled_at m else Fin (-1)"] sv survives_neg
    by (simp add: memory_tree_def journaled_def)
  have d2: "json_num j (json_get j (int n) ''gpu_sample_age_ms'') (Fin (-1)) = m_gpu_age_ms (journaled m)"
    "json_num j (json_get j (int n) ''process_rss_sample_age_ms'') (Fin (-1)) = m_rss_age_ms (journaled m)"
    using num [of "''gpu_sample_age_ms''" "m_gpu_age_ms m"] num [of "''process_rss_sample_age_ms''" "m_rss_age_ms m"] sv
    by (simp_all add: memory_tree_def journaled_def)
  have d3: "json_num j (json_get j (int n) ''gpu_allocated_bytes'') (Fin (-1)) = m_gpu_end (journaled m)"
    using num [of "''gpu_allocated_bytes''" "if m_status m = 1 then m_gpu_end m else Fin (-1)"] sv survives_neg
    by (simp add: memory_tree_def journaled_def)
  have d4: "json_num j (json_get j (int n) ''gpu_allocated_sampled_peak_bytes'') (Fin (-1)) = m_gpu_peak (journaled m)"
    using num [of "''gpu_allocated_sampled_peak_bytes''" "if m_gpu_samples m \<noteq> 0 then m_gpu_peak m else Fin (-1)"] sv survives_neg
    by (simp add: memory_tree_def journaled_def)
  have "json_strdup j (json_get j (int n) ''rss_source'') = Some (rss_text (m_rss_source m))"
    by (rule str) (simp_all add: memory_tree_def reasons_nul)
  moreover have "m_rss_source m = 0 \<or> m_rss_source m = 1 \<or> m_rss_source m = 2" using v(4) by auto
  ultimately have rs: "(if json_strdup j (json_get j (int n) ''rss_source'') = Some ''macos.proc_pid_rusage.ri_resident_size'' then 1
      else if json_strdup j (json_get j (int n) ''rss_source'') = Some ''linux.proc_pid_stat.rss'' then 2 else 0) = m_rss_source m"
    by (auto simp: rss_text_def)
  have "json_bool j (json_get j (int n) ''unified_memory'') False
      = (hd (if m_source m = 1 then if m_unified m then ''true'' else ''false'' else ''null'') = CHR ''t'')"
    by (rule yes) (simp_all add: memory_tree_def)
  then have u: "json_bool j (json_get j (int n) ''unified_memory'') False = (m_source m = 1 \<and> m_unified m)" by auto
  have rec: "\<lparr>m_generation = m_generation m, m_sampled_at = m_sampled_at (journaled m), m_gpu_age_ms = m_gpu_age_ms (journaled m),
      m_gpu_end = m_gpu_end (journaled m), m_gpu_peak = m_gpu_peak (journaled m), m_rss_age_ms = m_rss_age_ms (journaled m),
      m_gpu_samples = m_gpu_samples m, m_status = m_status m, m_source = m_source m, m_rss_source = m_rss_source m,
      m_unified = (m_source m = 1 \<and> m_unified m), m_last_sequence = 0\<rparr> = journaled m"
    by (simp add: journaled_def)
  show ?thesis
    using short journaled_valid [OF assms(1)] app_quoting.object_render [OF assms(4)]
    unfolding app_memory_parse_def Let_def c d d2 d3 d4 gen rs u by (simp add: rec [simplified])
qed

end
