(* ===== verification/Perf.thy ===== *)
theory Perf
  imports Memory
begin

section \<open>Performance records (src/src/app/performance.c)\<close>

text \<open>
  One observation of a reply: \<open>valid\<close>, its workload class \<open>perf_group\<close>, and its line in the journal,
  written by \<open>record_json\<close> and read by \<open>parse\<close>. The time of day is an argument.
\<close>

record perf_record =
  r_schema :: nat
  r_memory :: app_memory_record
  r_engine :: app_engine
  r_id :: string
  r_model :: string
  r_artifact :: string
  r_quantization :: string
  r_series :: string
  r_backend :: string
  r_source :: string
  r_outcome :: string
  r_finish :: string
  r_run :: string
  r_timestamp :: dbl
  r_generation_ns :: dbl
  r_first_ns :: dbl
  r_first_answer_ns :: dbl
  r_total_ns :: dbl
  r_prefill_ns :: dbl
  r_load_ns :: dbl
  r_rss :: dbl
  r_peak_rss :: dbl
  r_cpu_percent :: dbl
  r_input :: nat
  r_output :: nat
  r_reused :: nat
  r_epoch :: u64
  r_max_tokens :: nat
  r_threads :: nat
  r_samples :: nat
  r_temperature :: dbl
  r_top_p :: dbl
  r_cold :: bool
  r_contention :: bool
  r_warmup :: bool
  r_enabled :: bool
  r_reasoning :: bool

definition perf_token :: "string \<Rightarrow> nat \<Rightarrow> bool" where
  "perf_token s cap \<longleftrightarrow> (let n = strnlen s cap in 0 < n \<and> n < cap)"

definition hour_ns :: rat where
  "hour_ns = 3600000000000"

definition perf_valid :: "int \<Rightarrow> perf_record \<Rightarrow> bool" where
  "perf_valid now r \<longleftrightarrow>
     app_engine_valid (r_engine r) \<and> perf_token (r_id r) 160 \<and> perf_token (r_artifact r) 65
     \<and> perf_token (r_series r) 768 \<and> perf_token (r_backend r) 24
     \<and> r_source r \<in> {''app'', ''api'', ''controlled_test'', ''legacy_last_reply''}
     \<and> r_outcome r \<in> {''no_answer'', ''completed'', ''error'', ''interrupted'', ''disconnected'', ''cancelled''}
     \<and> dfinite (r_timestamp r) \<and> dlt (Fin 0) (r_timestamp r) \<and> dle (r_timestamp r) (Fin (of_int (now + 300)))
     \<and> between (Fin 0) (r_generation_ns r) hour_ns \<and> between (Fin 0) (r_total_ns r) hour_ns
     \<and> dfinite (r_first_ns r) \<and> dle (Fin (-1)) (r_first_ns r) \<and> dle (r_first_ns r) (r_total_ns r)
     \<and> dfinite (r_first_answer_ns r) \<and> dle (Fin (-1)) (r_first_answer_ns r) \<and> dle (r_first_answer_ns r) (r_total_ns r)
     \<and> between (Fin (-1)) (r_prefill_ns r) hour_ns \<and> between (Fin (-1)) (r_load_ns r) hour_ns
     \<and> between (Fin (-1)) (r_rss r) (10 ^ 15) \<and> between (Fin (-1)) (r_peak_rss r) (10 ^ 15)
     \<and> between (Fin (-1)) (r_cpu_percent r) (10001 / 100)
     \<and> app_memory_valid (r_memory r) \<and> r_input r \<le> 1000000 \<and> r_output r \<le> 1000000 \<and> r_reused r \<le> r_input r
     \<and> between (Fin 0) (r_temperature r) 10 \<and> between (Fin 0) (r_top_p r) 1 \<and> r_samples r \<le> 3601"

definition eligible :: "perf_record \<Rightarrow> bool" where
  "eligible r \<longleftrightarrow> r_outcome r = ''completed'' \<and> r_source r \<noteq> ''legacy_last_reply'' \<and> \<not> r_warmup r \<and> r_output r > 0
     \<and> dlt (Fin 0) (r_generation_ns r) \<and> dle (Fin 0) (r_first_ns r)"

definition input_class :: "nat \<Rightarrow> nat" where
  "input_class n = (if n \<le> 512 then 0 else if n \<le> 2048 then 1 else 2)"

definition output_class :: "nat \<Rightarrow> nat" where
  "output_class n = (if n < 32 then 0 else if n < 128 then 1 else if n < 512 then 2 else 3)"

definition perf_group :: "perf_record \<Rightarrow> nat" where
  "perf_group r = input_class (r_input r) + 3 * output_class (r_output r) + 12 * of_bool (r_reused r > 0)
     + 24 * of_bool (r_cold r) + 48 * of_bool (r_contention r) + 96 * of_bool (r_source r = ''controlled_test'')"

text \<open>Two records are in the same group exactly when they agree in every class.\<close>

lemma perf_group_eq:
  "perf_group r = perf_group s \<longleftrightarrow>
     input_class (r_input r) = input_class (r_input s) \<and> output_class (r_output r) = output_class (r_output s)
     \<and> (r_reused r > 0 \<longleftrightarrow> r_reused s > 0) \<and> r_cold r = r_cold s \<and> r_contention r = r_contention s
     \<and> (r_source r = ''controlled_test'' \<longleftrightarrow> r_source s = ''controlled_test'')"
proof -
  have i: "input_class n < 3" and o: "output_class n < 4" for n by (simp_all add: input_class_def output_class_def)
  have digits: "a = b \<and> x = y" if "a + m * x = b + m * y" "a < m" "b < m" for a b m x y :: nat
  proof -
    have "(a + m * x) mod m = a" "(b + m * y) mod m = b" "(a + m * x) div m = x" "(b + m * y) div m = y"
      using that(2,3) by simp_all
    with that(1) show ?thesis by metis
  qed
  have b: "of_bool P < (2 :: nat)" for P by simp
  show ?thesis
  proof
    assume "perf_group r = perf_group s"
    then have "input_class (r_input r) + 3 * (output_class (r_output r) + 4 * (of_bool (r_reused r > 0)
        + 2 * (of_bool (r_cold r) + 2 * (of_bool (r_contention r) + 2 * of_bool (r_source r = ''controlled_test'')))))
      = input_class (r_input s) + 3 * (output_class (r_output s) + 4 * (of_bool (r_reused s > 0)
        + 2 * (of_bool (r_cold s) + 2 * (of_bool (r_contention s) + 2 * of_bool (r_source s = ''controlled_test'')))))"
      by (simp add: perf_group_def algebra_simps)
    from digits [OF this i i] have 1: "input_class (r_input r) = input_class (r_input s)"
      and "output_class (r_output r) + 4 * (of_bool (r_reused r > 0)
        + 2 * (of_bool (r_cold r) + 2 * (of_bool (r_contention r) + 2 * of_bool (r_source r = ''controlled_test''))))
      = output_class (r_output s) + 4 * (of_bool (r_reused s > 0)
        + 2 * (of_bool (r_cold s) + 2 * (of_bool (r_contention s) + 2 * of_bool (r_source s = ''controlled_test''))))"
      by auto
    from digits [OF this(2) o o] have 2: "output_class (r_output r) = output_class (r_output s)"
      and 3: "of_bool (r_reused r > 0) + 2 * (of_bool (r_cold r) + 2 * (of_bool (r_contention r) + 2 * of_bool (r_source r = ''controlled_test'')))
        = (of_bool (r_reused s > 0) + 2 * (of_bool (r_cold s) + 2 * (of_bool (r_contention s) + 2 * of_bool (r_source s = ''controlled_test''))) :: nat)"
      by auto
    from digits [OF 3 b b] digits [OF conjunct2 [OF digits [OF 3 b b]] b b]
      digits [OF conjunct2 [OF digits [OF conjunct2 [OF digits [OF 3 b b]] b b]] b b] 1 2
    show "input_class (r_input r) = input_class (r_input s) \<and> output_class (r_output r) = output_class (r_output s)
     \<and> (r_reused r > 0 \<longleftrightarrow> r_reused s > 0) \<and> r_cold r = r_cold s \<and> r_contention r = r_contention s
     \<and> (r_source r = ''controlled_test'' \<longleftrightarrow> r_source s = ''controlled_test'')"
      by (simp add: of_bool_eq_iff)
  qed (simp add: perf_group_def)
qed

subsection \<open>A line of the journal\<close>

definition yes_no :: "bool \<Rightarrow> string" where
  "yes_no b = (if b then ''true'' else ''false'')"

definition record_json :: "perf_record \<Rightarrow> app_buffer \<Rightarrow> app_buffer" where
  \<open>record_json r = stmts
     ([app_printf (''{"schema":'' @ dec (if r_schema r = 1 then 1 else 2) @ '',"reasoning":'' @ yes_no (r_reasoning r))]
      @ (if r_schema r \<noteq> 1 then [app_put '',"engine":'', app_engine_json (r_engine r)] else [])
      @ [app_put '',"id":'', app_quote (r_id r), app_put '',"model":'', app_quote (r_model r),
         app_put '',"artifact":'', app_quote (r_artifact r), app_put '',"quantization":'', app_quote (r_quantization r),
         app_put '',"series":'', app_quote (r_series r), app_put '',"backend":'', app_quote (r_backend r),
         app_put '',"source":'', app_quote (r_source r), app_put '',"outcome":'', app_quote (r_outcome r),
         app_put '',"finish":'', app_quote (r_finish r), app_put '',"run":'', app_quote (r_run r),
         app_put '',"timestamp":'', put_number (r_timestamp r), app_put '',"generation_ns":'', put_number (r_generation_ns r),
         app_put '',"first_ns":'', put_number (r_first_ns r), app_put '',"first_answer_ns":'', put_number (r_first_answer_ns r),
         app_put '',"total_ns":'', put_number (r_total_ns r), app_put '',"prefill_ns":'', put_number (r_prefill_ns r),
         app_put '',"load_ns":'', put_number (r_load_ns r), app_put '',"rss":'', put_number (r_rss r),
         app_put '',"peak_rss":'', put_number (r_peak_rss r), app_put '',"cpu_percent":'', put_number (r_cpu_percent r),
         app_put '',"temperature":'', put_number (r_temperature r), app_put '',"top_p":'', put_number (r_top_p r),
         app_printf ('',"input":'' @ dec (r_input r) @ '',"output":'' @ dec (r_output r) @ '',"reused":'' @ dec (r_reused r)
           @ '',"max_tokens":'' @ dec (r_max_tokens r) @ '',"threads":'' @ dec (r_threads r) @ '',"samples":'' @ dec (r_samples r)
           @ '',"sample_interval_ms":2000,"cold":'' @ yes_no (r_cold r) @ '',"contention":'' @ yes_no (r_contention r)
           @ '',"warmup":'' @ yes_no (r_warmup r)
           @ '',"gpu_memory":null,"unavailable_reason":"legacy_field_use_memory_scopes"''),
         app_put '',"memory":'',
         app_memory_json (r_memory r) (r_rss r) (r_peak_rss r) (r_samples r),
         app_put (CHR ''}'' # [CHR 0x0A])])\<close>

text \<open>A string field, shorter than its buffer.\<close>

definition text_field :: "json \<Rightarrow> string \<Rightarrow> nat \<Rightarrow> string option" where
  "text_field j key cap =
     (case json_strdup j (json_get j 0 key) of
        None \<Rightarrow> None
      | Some s \<Rightarrow> if length s \<ge> cap then None else Some s)"

text \<open>All or nothing, for the gotos to the end of \<open>parse\<close>.\<close>

fun all_of :: "'a option list \<Rightarrow> 'a list option" where
  "all_of [] = Some []"
| "all_of (x # xs) = (case (x, all_of xs) of (Some y, Some ys) \<Rightarrow> Some (y # ys) | _ \<Rightarrow> None)"

definition perf_parse :: "int \<Rightarrow> string \<Rightarrow> perf_record option" where
  "perf_parse now line =
     (case json_parse line of
        None \<Rightarrow> None
      | Some j \<Rightarrow>
          let schema = json_num j (json_get j 0 ''schema'') (Fin 0);
              num = (\<lambda>key. json_num j (json_get j 0 key) (Fin (-1)));
              (eng_ok, eng) = (if schema = Fin 2 then
                  (if json_get j 0 ''engine'' < 0 then (False, no_engine) else app_engine_parse j (json_get j 0 ''engine''))
                else (True, no_engine))
          in if (schema \<noteq> Fin 1 \<and> schema \<noteq> Fin 2) \<or> \<not> eng_ok then None
             else case all_of [text_field j ''id'' 160, text_field j ''model'' 65, text_field j ''artifact'' 65,
                 text_field j ''quantization'' 32, text_field j ''series'' 768, text_field j ''backend'' 24,
                 text_field j ''source'' 24, text_field j ''outcome'' 24, text_field j ''finish'' 16, text_field j ''run'' 80] of
               None \<Rightarrow> None
             | Some ss \<Rightarrow>
                 (case all_of (map (\<lambda>key. count_field j 0 key (Fin (-1)))
                     [''input'', ''output'', ''reused'', ''max_tokens'', ''threads'', ''samples'']) of
                    None \<Rightarrow> None
                  | Some ns \<Rightarrow>
                      (case app_memory_parse j (json_get j 0 ''memory'') of
                         None \<Rightarrow> None
                       | Some mem \<Rightarrow>
                           let r = \<lparr>r_schema = (if schema = Fin 1 then 1 else 2), r_memory = mem, r_engine = eng,
                                 r_id = ss ! 0, r_model = ss ! 1, r_artifact = ss ! 2, r_quantization = ss ! 3,
                                 r_series = ss ! 4, r_backend = ss ! 5, r_source = ss ! 6, r_outcome = ss ! 7,
                                 r_finish = ss ! 8, r_run = ss ! 9,
                                 r_timestamp = num ''timestamp'', r_generation_ns = num ''generation_ns'',
                                 r_first_ns = num ''first_ns'', r_first_answer_ns = num ''first_answer_ns'',
                                 r_total_ns = num ''total_ns'', r_prefill_ns = num ''prefill_ns'',
                                 r_load_ns = num ''load_ns'', r_rss = num ''rss'', r_peak_rss = num ''peak_rss'',
                                 r_cpu_percent = num ''cpu_percent'',
                                 r_input = ns ! 0, r_output = ns ! 1, r_reused = ns ! 2, r_epoch = 0,
                                 r_max_tokens = ns ! 3, r_threads = ns ! 4, r_samples = ns ! 5,
                                 r_temperature = num ''temperature'', r_top_p = num ''top_p'',
                                 r_cold = json_bool j (json_get j 0 ''cold'') False,
                                 r_contention = json_bool j (json_get j 0 ''contention'') False,
                                 r_warmup = json_bool j (json_get j 0 ''warmup'') False, r_enabled = False,
                                 r_reasoning = json_bool j (json_get j 0 ''reasoning'') False\<rparr>
                           in if perf_valid now r then Some r else None)))"

subsection \<open>The written record\<close>

definition record_tree :: "perf_record \<Rightarrow> (string \<times> jval) list" where
  "record_tree r =
     [(''schema'', JPrim (dec 2)), (''reasoning'', JPrim (yes_no (r_reasoning r))),
      (''engine'', JObj (engine_tree (r_engine r))),
      (''id'', JStr (r_id r)),
      (''model'', JStr (r_model r)),
      (''artifact'', JStr (r_artifact r)),
      (''quantization'', JStr (r_quantization r)),
      (''series'', JStr (r_series r)),
      (''backend'', JStr (r_backend r)),
      (''source'', JStr (r_source r)),
      (''outcome'', JStr (r_outcome r)),
      (''finish'', JStr (r_finish r)),
      (''run'', JStr (r_run r)),
      (''timestamp'', JPrim (num_text (r_timestamp r))),
      (''generation_ns'', JPrim (num_text (r_generation_ns r))),
      (''first_ns'', JPrim (num_text (r_first_ns r))),
      (''first_answer_ns'', JPrim (num_text (r_first_answer_ns r))),
      (''total_ns'', JPrim (num_text (r_total_ns r))),
      (''prefill_ns'', JPrim (num_text (r_prefill_ns r))),
      (''load_ns'', JPrim (num_text (r_load_ns r))),
      (''rss'', JPrim (num_text (r_rss r))),
      (''peak_rss'', JPrim (num_text (r_peak_rss r))),
      (''cpu_percent'', JPrim (num_text (r_cpu_percent r))),
      (''temperature'', JPrim (num_text (r_temperature r))),
      (''top_p'', JPrim (num_text (r_top_p r))),
      (''input'', JPrim (dec (r_input r))),
      (''output'', JPrim (dec (r_output r))),
      (''reused'', JPrim (dec (r_reused r))),
      (''max_tokens'', JPrim (dec (r_max_tokens r))),
      (''threads'', JPrim (dec (r_threads r))),
      (''samples'', JPrim (dec (r_samples r))),
      (''sample_interval_ms'', JPrim ''2000''),
      (''cold'', JPrim (yes_no (r_cold r))),
      (''contention'', JPrim (yes_no (r_contention r))),
      (''warmup'', JPrim (yes_no (r_warmup r))),
      (''gpu_memory'', JPrim ''null''), (''unavailable_reason'', JStr ''legacy_field_use_memory_scopes''),
      (''memory'', JObj (memory_tree (r_memory r) (r_rss r) (r_peak_rss r) (r_samples r)))]"

text \<open>The texts of a record are C strings that fit their buffers.\<close>

definition record_strings :: "perf_record \<Rightarrow> bool" where
  "record_strings r \<longleftrightarrow> engine_strings (r_engine r) \<and> NUL \<notin> set (m_generation (r_memory r))
     \<and> NUL \<notin> set (r_id r) \<and> length (r_id r) < 160
     \<and> NUL \<notin> set (r_model r) \<and> length (r_model r) < 65
     \<and> NUL \<notin> set (r_artifact r) \<and> length (r_artifact r) < 65
     \<and> NUL \<notin> set (r_quantization r) \<and> length (r_quantization r) < 32
     \<and> NUL \<notin> set (r_series r) \<and> length (r_series r) < 768
     \<and> NUL \<notin> set (r_backend r) \<and> length (r_backend r) < 24
     \<and> NUL \<notin> set (r_source r) \<and> length (r_source r) < 24
     \<and> NUL \<notin> set (r_outcome r) \<and> length (r_outcome r) < 24
     \<and> NUL \<notin> set (r_finish r) \<and> length (r_finish r) < 16
     \<and> NUL \<notin> set (r_run r) \<and> length (r_run r) < 80"

text \<open>A literal part of a line is the concatenation of its keys; the formatted parts likewise.\<close>

lemma writes_record:
  assumes "record_strings r" and "r_schema r \<noteq> 1"
  shows "writes (record_json r) (render app_esc (JObj (record_tree r)) @ [CHR 0x0A])"
proof -
  have lit: "writes (app_put s) t" if "t = s" "NUL \<notin> set s" for s t
    using that writes_lit by simp
  have fmt: "writes (app_printf s) t" if "t = s" for s t
    using that writes_printf by simp
  note ns = assms(1) [unfolded record_strings_def]
  have "writes (record_json r) (concat
     [''{'' @ key_text ''schema'' @ dec 2 @ '','' @ key_text ''reasoning'' @ yes_no (r_reasoning r),
      '','' @ key_text ''engine'', render app_esc (JObj (engine_tree (r_engine r))),
      '','' @ key_text ''id'', render app_esc (JStr (r_id r)),
      '','' @ key_text ''model'', render app_esc (JStr (r_model r)),
      '','' @ key_text ''artifact'', render app_esc (JStr (r_artifact r)),
      '','' @ key_text ''quantization'', render app_esc (JStr (r_quantization r)),
      '','' @ key_text ''series'', render app_esc (JStr (r_series r)),
      '','' @ key_text ''backend'', render app_esc (JStr (r_backend r)),
      '','' @ key_text ''source'', render app_esc (JStr (r_source r)),
      '','' @ key_text ''outcome'', render app_esc (JStr (r_outcome r)),
      '','' @ key_text ''finish'', render app_esc (JStr (r_finish r)),
      '','' @ key_text ''run'', render app_esc (JStr (r_run r)),
      '','' @ key_text ''timestamp'', render app_esc (JPrim (num_text (r_timestamp r))),
      '','' @ key_text ''generation_ns'', render app_esc (JPrim (num_text (r_generation_ns r))),
      '','' @ key_text ''first_ns'', render app_esc (JPrim (num_text (r_first_ns r))),
      '','' @ key_text ''first_answer_ns'', render app_esc (JPrim (num_text (r_first_answer_ns r))),
      '','' @ key_text ''total_ns'', render app_esc (JPrim (num_text (r_total_ns r))),
      '','' @ key_text ''prefill_ns'', render app_esc (JPrim (num_text (r_prefill_ns r))),
      '','' @ key_text ''load_ns'', render app_esc (JPrim (num_text (r_load_ns r))),
      '','' @ key_text ''rss'', render app_esc (JPrim (num_text (r_rss r))),
      '','' @ key_text ''peak_rss'', render app_esc (JPrim (num_text (r_peak_rss r))),
      '','' @ key_text ''cpu_percent'', render app_esc (JPrim (num_text (r_cpu_percent r))),
      '','' @ key_text ''temperature'', render app_esc (JPrim (num_text (r_temperature r))),
      '','' @ key_text ''top_p'', render app_esc (JPrim (num_text (r_top_p r))),
      '','' @ key_text ''input'' @ dec (r_input r) @ '','' @ key_text ''output'' @ dec (r_output r) @ '','' @ key_text ''reused'' @ dec (r_reused r)
        @ '','' @ key_text ''max_tokens'' @ dec (r_max_tokens r) @ '','' @ key_text ''threads'' @ dec (r_threads r) @ '','' @ key_text ''samples'' @ dec (r_samples r)
        @ '','' @ key_text ''sample_interval_ms'' @ ''2000''
        @ '','' @ key_text ''cold'' @ yes_no (r_cold r) @ '','' @ key_text ''contention'' @ yes_no (r_contention r) @ '','' @ key_text ''warmup'' @ yes_no (r_warmup r)
        @ '','' @ key_text ''gpu_memory'' @ ''null'' @ '','' @ key_text ''unavailable_reason''
        @ quoted app_esc ''legacy_field_use_memory_scopes'',
      '','' @ key_text ''memory'',
      render app_esc (JObj (memory_tree (r_memory r) (r_rss r) (r_peak_rss r) (r_samples r))), CHR ''}'' # [CHR 0x0A]])"
    unfolding record_json_def
    by (simp only: assms(2) if_True if_False not_False_eq_True append.simps,
        intro writes_stmts list_all2_Cons [THEN iffD2] conjI writes_number writes_str writes_memory writes_engine
          list_all2_Nil [THEN iffD2] TrueI)
      (use ns in \<open>auto simp: key_text_def quoted_def app_esc_def intro!: lit fmt\<close>)
  then show ?thesis
    by (simp add: record_tree_def key_text_def)
qed

subsection \<open>Reading a line back\<close>

text \<open>What the journal keeps of a record: what is unknown comes back as \<open>-1\<close>; the epoch and the switch
  are not written.\<close>

definition journaled_record :: "perf_record \<Rightarrow> perf_record" where
  "journaled_record r = r\<lparr>r_schema := 2, r_memory := journaled (r_memory r), r_epoch := 0, r_enabled := False,
     r_timestamp := read_as (Fin (-1)) (r_timestamp r),
     r_generation_ns := read_as (Fin (-1)) (r_generation_ns r),
     r_first_ns := read_as (Fin (-1)) (r_first_ns r),
     r_first_answer_ns := read_as (Fin (-1)) (r_first_answer_ns r),
     r_total_ns := read_as (Fin (-1)) (r_total_ns r),
     r_prefill_ns := read_as (Fin (-1)) (r_prefill_ns r),
     r_load_ns := read_as (Fin (-1)) (r_load_ns r),
     r_rss := read_as (Fin (-1)) (r_rss r),
     r_peak_rss := read_as (Fin (-1)) (r_peak_rss r),
     r_cpu_percent := read_as (Fin (-1)) (r_cpu_percent r),
     r_temperature := read_as (Fin (-1)) (r_temperature r),
     r_top_p := read_as (Fin (-1)) (r_top_p r)\<rparr>"

definition record_survives :: "perf_record \<Rightarrow> bool" where
  "record_survives r \<longleftrightarrow> memory_survives (r_memory r) \<and> r_max_tokens r \<le> 1000000 \<and> r_threads r \<le> 1000000
     \<and> survives (r_timestamp r) \<and> survives (r_generation_ns r) \<and> survives (r_first_ns r)
     \<and> survives (r_first_answer_ns r) \<and> survives (r_total_ns r) \<and> survives (r_prefill_ns r)
     \<and> survives (r_load_ns r) \<and> survives (r_rss r) \<and> survives (r_peak_rss r)
     \<and> survives (r_cpu_percent r) \<and> survives (r_temperature r) \<and> survives (r_top_p r)"

lemma read_known: "dle (Fin 0) x \<Longrightarrow> dfinite x \<Longrightarrow> read_as d x = x"
  by (cases x) (auto simp: read_as_def dfinite_def)

lemma read_low: "dfinite x \<Longrightarrow> dle (Fin (-1)) x \<Longrightarrow>
    dfinite (read_as (Fin (-1)) x) \<and> dle (Fin (-1)) (read_as (Fin (-1)) x) \<and> (dle x y \<longrightarrow> dle (Fin 0) y \<longrightarrow> dle (read_as (Fin (-1)) x) y)"
  by (cases x; cases y) (auto simp: read_as_def dfinite_def dle_def)

lemma between_low: "between (Fin (-1)) x h \<Longrightarrow> 0 \<le> h \<Longrightarrow> between (Fin (-1)) (read_as (Fin (-1)) x) h"
  using read_low [of x "Fin h"] by (simp add: between_def)

lemma between_known: "between (Fin 0) x h \<Longrightarrow> read_as d x = x"
  by (simp add: between_def read_known)

lemma journaled_record_valid:
  assumes "perf_valid now r"
  shows "perf_valid now (journaled_record r)"
proof -
  note v = assms [unfolded perf_valid_def]
  have same: "read_as (Fin (-1)) (r_timestamp r) = r_timestamp r"
    using v by (intro read_known) (auto simp: dle_def)
  have same2: "read_as (Fin (-1)) (r_generation_ns r) = r_generation_ns r" "read_as (Fin (-1)) (r_total_ns r) = r_total_ns r"
    "read_as (Fin (-1)) (r_temperature r) = r_temperature r" "read_as (Fin (-1)) (r_top_p r) = r_top_p r"
    using v between_known by blast+
  have h: "0 \<le> hour_ns" "(0 :: rat) \<le> 10 ^ 15" "(0 :: rat) \<le> 10001 / 100" by (simp_all add: hour_ns_def)
  have t: "dle (Fin 0) (r_total_ns r)" using v by (simp add: between_def)
  have low: "between (Fin (-1)) (read_as (Fin (-1)) (r_prefill_ns r)) hour_ns" "between (Fin (-1)) (read_as (Fin (-1)) (r_load_ns r)) hour_ns"
    "between (Fin (-1)) (read_as (Fin (-1)) (r_rss r)) (10 ^ 15)" "between (Fin (-1)) (read_as (Fin (-1)) (r_peak_rss r)) (10 ^ 15)"
    "between (Fin (-1)) (read_as (Fin (-1)) (r_cpu_percent r)) (10001 / 100)"
    using v h between_low by blast+
  have first: "dfinite (read_as (Fin (-1)) (r_first_ns r))" "dle (Fin (-1)) (read_as (Fin (-1)) (r_first_ns r))"
    "dle (read_as (Fin (-1)) (r_first_ns r)) (r_total_ns r)" "dfinite (read_as (Fin (-1)) (r_first_answer_ns r))"
    "dle (Fin (-1)) (read_as (Fin (-1)) (r_first_answer_ns r))" "dle (read_as (Fin (-1)) (r_first_answer_ns r)) (r_total_ns r)"
    using v t read_low by blast+
  have m: "app_memory_valid (journaled (r_memory r))" using v journaled_valid by blast
  show ?thesis
    unfolding perf_valid_def journaled_record_def
    using v low first m by (simp add: same same2)
qed

lemma record_keys: "\<forall>k \<in> fst ` set (record_tree r). plain k"
  by (simp add: record_tree_def plain_def)

lemma record_tree_ok:
  assumes "record_survives r"
  shows "jfields_ok (record_tree r)" and "ntoks (JObj (record_tree r)) \<le> JSON_TOK_CAP"
proof -
  have p: "prim_ok ''null''" "prim_ok ''2000''" "prim_ok (yes_no b)" for b
    by (auto simp: prim_ok_def prim_start_def prim_end_def yes_no_def)
  have pm: "prim_ok (if A then (if B then ''true'' else ''false'') else ''null'')" for A B
    by (auto simp: prim_ok_def prim_start_def prim_end_def)
  have "jfields_ok (memory_tree m a b n)" if "memory_survives m" "survives a" "survives b" for m a b n
    using that p pm num_text_ok survives_neg
    by (auto simp: memory_tree_def or_null_def prim_ok_dec memory_survives_def)
  then show "jfields_ok (record_tree r)"
    using assms p num_text_ok by (auto simp: record_tree_def record_survives_def prim_ok_dec engine_tree_ok)
  have "nfields (memory_tree m a b n) = 40" for m a b n
    by (simp add: memory_tree_def or_null_def)
  then show "ntoks (JObj (record_tree r)) \<le> JSON_TOK_CAP"
    by (simp add: record_tree_def engine_tree_size JSON_TOK_CAP_def)
qed

lemma record_read_back:
  assumes "perf_valid now r" and "record_strings r" and "record_survives r" and "e_source_state (r_engine r) \<noteq> []"
  shows "perf_parse now (render app_esc (JObj (record_tree r)) @ [CHR 0x0A]) = Some (journaled_record r)"
proof -
  obtain j where j: "json_parse (render app_esc (JObj (record_tree r)) @ [CHR 0x0A]) = Some j"
    and at: "is_at app_esc j 0 (JObj (record_tree r))"
    using app_quoting.root_render_spaced [OF record_tree_ok [OF assms(3)], of "[CHR 0x0A]"] by (auto simp: json_space_def)
  note keys = record_keys [of r] and ns = assms(2) [unfolded record_strings_def] and sv = assms(3) [unfolded record_survives_def]
  note num = number_read [OF at keys, simplified] and cnt = count_read [OF at keys, simplified]
    and str = text_read [OF at keys, simplified] and yes = bool_read [OF at keys, simplified] and get = app_get [OF at keys, simplified]
  have v: "r_input r \<le> 1000000" "r_output r \<le> 1000000" "r_reused r \<le> 1000000" "r_samples r \<le> 1000000"
    using assms(1) by (simp_all add: perf_valid_def)
  have schema: "json_num j (json_get j 0 ''schema'') (Fin 0) = Fin 2"
    using nat_read [OF at keys, of "''schema''" 2 "Fin 0"] by (simp add: record_tree_def)
  obtain e where e: "json_get j 0 ''engine'' = int e" "is_at app_esc j e (JObj (engine_tree (r_engine r)))"
    by (rule get [of "''engine''"]) (simp_all add: record_tree_def)
  have eng: "app_engine_parse j (int e) = (True, r_engine r)"
    using engine_read_back [OF _ _ assms(4) e(2)] assms(1) ns by (simp add: perf_valid_def)
  obtain a where a: "json_get j 0 ''memory'' = int a"
    "is_at app_esc j a (JObj (memory_tree (r_memory r) (r_rss r) (r_peak_rss r) (r_samples r)))"
    by (rule get [of "''memory''"]) (simp_all add: record_tree_def)
  have mem: "app_memory_parse j (int a) = Some (journaled (r_memory r))"
    using memory_read_back [OF _ _ _ a(2)] assms(1) ns sv by (simp add: perf_valid_def)
  have texts:
    "text_field j ''id'' 160 = Some (r_id r)"
    "text_field j ''model'' 65 = Some (r_model r)"
    "text_field j ''artifact'' 65 = Some (r_artifact r)"
    "text_field j ''quantization'' 32 = Some (r_quantization r)"
    "text_field j ''series'' 768 = Some (r_series r)"
    "text_field j ''backend'' 24 = Some (r_backend r)"
    "text_field j ''source'' 24 = Some (r_source r)"
    "text_field j ''outcome'' 24 = Some (r_outcome r)"
    "text_field j ''finish'' 16 = Some (r_finish r)"
    "text_field j ''run'' 80 = Some (r_run r)"
    unfolding text_field_def
    using ns by (simp_all add: str record_tree_def)
  have counts:
    "count_field j 0 ''input'' (Fin (-1)) = Some (r_input r)"
    "count_field j 0 ''output'' (Fin (-1)) = Some (r_output r)"
    "count_field j 0 ''reused'' (Fin (-1)) = Some (r_reused r)"
    "count_field j 0 ''max_tokens'' (Fin (-1)) = Some (r_max_tokens r)"
    "count_field j 0 ''threads'' (Fin (-1)) = Some (r_threads r)"
    "count_field j 0 ''samples'' (Fin (-1)) = Some (r_samples r)"
    using v sv by (simp_all add: cnt record_tree_def)
  have numbers:
    "json_num j (json_get j 0 ''timestamp'') (Fin (-1)) = read_as (Fin (-1)) (r_timestamp r)"
    "json_num j (json_get j 0 ''generation_ns'') (Fin (-1)) = read_as (Fin (-1)) (r_generation_ns r)"
    "json_num j (json_get j 0 ''first_ns'') (Fin (-1)) = read_as (Fin (-1)) (r_first_ns r)"
    "json_num j (json_get j 0 ''first_answer_ns'') (Fin (-1)) = read_as (Fin (-1)) (r_first_answer_ns r)"
    "json_num j (json_get j 0 ''total_ns'') (Fin (-1)) = read_as (Fin (-1)) (r_total_ns r)"
    "json_num j (json_get j 0 ''prefill_ns'') (Fin (-1)) = read_as (Fin (-1)) (r_prefill_ns r)"
    "json_num j (json_get j 0 ''load_ns'') (Fin (-1)) = read_as (Fin (-1)) (r_load_ns r)"
    "json_num j (json_get j 0 ''rss'') (Fin (-1)) = read_as (Fin (-1)) (r_rss r)"
    "json_num j (json_get j 0 ''peak_rss'') (Fin (-1)) = read_as (Fin (-1)) (r_peak_rss r)"
    "json_num j (json_get j 0 ''cpu_percent'') (Fin (-1)) = read_as (Fin (-1)) (r_cpu_percent r)"
    "json_num j (json_get j 0 ''temperature'') (Fin (-1)) = read_as (Fin (-1)) (r_temperature r)"
    "json_num j (json_get j 0 ''top_p'') (Fin (-1)) = read_as (Fin (-1)) (r_top_p r)"
    using sv by (simp_all add: num record_tree_def)
  have w: "yes_no b \<noteq> []" "hd (yes_no b) = CHR ''t'' \<longleftrightarrow> b" for b by (auto simp: yes_no_def)
  have bools:
    "json_bool j (json_get j 0 ''cold'') False = r_cold r"
    "json_bool j (json_get j 0 ''contention'') False = r_contention r"
    "json_bool j (json_get j 0 ''warmup'') False = r_warmup r"
    "json_bool j (json_get j 0 ''reasoning'') False = r_reasoning r"
    using yes [of "''cold''" "yes_no (r_cold r)" False] yes [of "''contention''" "yes_no (r_contention r)" False]
      yes [of "''warmup''" "yes_no (r_warmup r)" False] yes [of "''reasoning''" "yes_no (r_reasoning r)" False] w
    by (simp_all add: record_tree_def)
  have rec: "\<lparr>r_schema = 2, r_memory = journaled (r_memory r), r_engine = r_engine r,
      r_id = r_id r, r_model = r_model r, r_artifact = r_artifact r,
      r_quantization = r_quantization r, r_series = r_series r, r_backend = r_backend r,
      r_source = r_source r, r_outcome = r_outcome r, r_finish = r_finish r,
      r_run = r_run r, r_timestamp = read_as (Fin (-1)) (r_timestamp r), r_generation_ns = read_as (Fin (-1)) (r_generation_ns r),
      r_first_ns = read_as (Fin (-1)) (r_first_ns r), r_first_answer_ns = read_as (Fin (-1)) (r_first_answer_ns r), r_total_ns = read_as (Fin (-1)) (r_total_ns r),
      r_prefill_ns = read_as (Fin (-1)) (r_prefill_ns r), r_load_ns = read_as (Fin (-1)) (r_load_ns r), r_rss = read_as (Fin (-1)) (r_rss r),
      r_peak_rss = read_as (Fin (-1)) (r_peak_rss r), r_cpu_percent = read_as (Fin (-1)) (r_cpu_percent r), r_input = r_input r,
      r_output = r_output r, r_reused = r_reused r, r_epoch = 0,
      r_max_tokens = r_max_tokens r, r_threads = r_threads r, r_samples = r_samples r,
      r_temperature = read_as (Fin (-1)) (r_temperature r), r_top_p = read_as (Fin (-1)) (r_top_p r), r_cold = r_cold r,
      r_contention = r_contention r, r_warmup = r_warmup r, r_enabled = False,
      r_reasoning = r_reasoning r\<rparr> = journaled_record r"
    by (simp add: journaled_record_def)
  have "perf_parse now (render app_esc (JObj (record_tree r)) @ [CHR 0x0A]) =
      (if perf_valid now (journaled_record r) then Some (journaled_record r) else None)"
    unfolding perf_parse_def j option.case Let_def schema e(1) eng a(1) mem texts list.map counts numbers bools
    by (simp add: rec)
  with journaled_record_valid [OF assms(1)] show ?thesis by simp
qed

text \<open>Through a buffer that holds the line: what was written is what is read.\<close>

lemma record_through_buffer:
  assumes "perf_valid now r" and "record_strings r" and "record_survives r" and "e_source_state (r_engine r) \<noteq> []"
    and "r_schema r \<noteq> 1" and "buf_ok b" and "b_data b = []" and "\<not> b_failed (record_json r b)"
  shows "perf_parse now (b_data (record_json r b)) = Some (journaled_record r)"
  using writesD(4) [OF writes_record [OF assms(2,5)] assms(6,8)] record_read_back [OF assms(1-4)] assms(7) by simp

text \<open>A line has one newline, its last byte.\<close>

lemma app_esc_visible: "c' \<in> set (app_esc c) \<Longrightarrow> 32 \<le> byte c'"
proof -
  have "n < 16 \<Longrightarrow> 32 \<le> byte (hexdig n)" for n by (simp add: hexdig_def)
  then show "c' \<in> set (app_esc c) \<Longrightarrow> ?thesis" by (auto simp: app_esc_def u_escape_def split: if_splits)
qed

lemma quoted_visible: "c \<in> set (quoted app_esc s) \<Longrightarrow> 32 \<le> byte c"
  by (auto simp: quoted_def dest: app_esc_visible)

lemma render_visible:
  "jval_ok v \<Longrightarrow> c \<in> set (render app_esc v) \<Longrightarrow> 32 \<le> byte c"
  "jvals_ok vs \<Longrightarrow> c \<in> set (render_elems app_esc vs) \<Longrightarrow> 32 \<le> byte c"
  "jfields_ok fs \<Longrightarrow> c \<in> set (render_fields app_esc fs) \<Longrightarrow> 32 \<le> byte c"
proof (induction v and vs and fs rule: ntoks_nelems_nfields.induct)
  case (2 s)
  then show ?case by (auto simp: prim_ok_def)
qed (auto simp: quoted_visible split: if_splits)

lemma record_one_line:
  assumes "record_survives r"
  shows "CHR 0x0A \<notin> set (render app_esc (JObj (record_tree r)))" and "NUL \<notin> set (render app_esc (JObj (record_tree r)))"
proof -
  have "jval_ok (JObj (record_tree r))" using record_tree_ok(1) [OF assms] by simp
  from render_visible(1) [OF this] show "CHR 0x0A \<notin> set (render app_esc (JObj (record_tree r)))"
    "NUL \<notin> set (render app_esc (JObj (record_tree r)))" by fastforce+
qed

end
