(* ===== verification/Ring.thy ===== *)
theory Ring
  imports Prelude
begin

section \<open>The write queue (src/src/app/performance.c)\<close>

text \<open>
  A bounded first-in first-out queue as an interface, \<open>bounded_queue\<close>, with what its clients rely on,
  and the array with \<open>head\<close> and \<open>queued\<close> that \<open>perf_submit\<close> and the writer thread share, which
  provides it.
\<close>

subsection \<open>The interface\<close>

text \<open>One producer step: an element is put, or refused when the queue is full; one consumer step takes
  the oldest element.\<close>

datatype 'a move = Put 'a | Take

locale bounded_queue =
  fixes put :: "'a \<Rightarrow> 'q \<Rightarrow> 'q" and take_first :: "'q \<Rightarrow> 'a \<times> 'q" and items :: "'q \<Rightarrow> 'a list"
    and inv :: "'q \<Rightarrow> bool" and cap :: nat
  assumes put_items: "inv q \<Longrightarrow> length (items q) < cap \<Longrightarrow> inv (put x q) \<and> items (put x q) = items q @ [x]"
    and take_items: "inv q \<Longrightarrow> items q = x # xs \<Longrightarrow>
      fst (take_first q) = x \<and> inv (snd (take_first q)) \<and> items (snd (take_first q)) = xs"
    and within_cap: "inv q \<Longrightarrow> length (items q) \<le> cap"
begin

text \<open>The moves of both sides, with what was accepted and what was delivered.\<close>

fun moves :: "'a move list \<Rightarrow> 'q \<times> 'a list \<times> 'a list \<Rightarrow> 'q \<times> 'a list \<times> 'a list" where
  "moves [] st = st"
| "moves (Put x # ms) (q, acc, out) =
     (if length (items q) < cap then moves ms (put x q, acc @ [x], out) else moves ms (q, acc, out))"
| "moves (Take # ms) (q, acc, out) =
     (if items q = [] then moves ms (q, acc, out) else moves ms (snd (take_first q), acc, out @ [fst (take_first q)]))"

text \<open>Nothing is lost, doubled or reordered between them.\<close>

lemma moves_fifo:
  assumes "moves ms (q, acc, out) = (q', acc', out')" and "inv q" and "acc = out @ items q"
  shows "inv q' \<and> acc' = out' @ items q' \<and> length (items q') \<le> cap"
  using assms
proof (induction ms "(q, acc, out)" arbitrary: q acc out rule: moves.induct)
  case 1
  then show ?case using within_cap by auto
next
  case (2 x ms q acc out)
  show ?case
  proof (cases "length (items q) < cap")
    case True
    with "2.prems" put_items [OF "2.prems"(2) True, of x] show ?thesis using "2.hyps"(1) [OF True] by auto
  next
    case False
    with "2.prems" show ?thesis using "2.hyps"(2) [OF False] by auto
  qed
next
  case (3 ms q acc out)
  show ?case
  proof (cases "items q")
    case Nil
    with "3.prems" show ?thesis using "3.hyps"(1) by auto
  next
    case (Cons x xs)
    with "3.prems" take_items [OF "3.prems"(2) Cons] show ?thesis using "3.hyps"(2) by auto
  qed
qed

end

subsection \<open>The array\<close>

definition PERF_QUEUE :: nat where
  "PERF_QUEUE = 64"

record 'a ring =
  q_slots :: "'a list"
  q_head :: nat
  q_len :: nat

definition ring_put :: "'a \<Rightarrow> 'a ring \<Rightarrow> 'a ring" where
  "ring_put x q = q\<lparr>q_slots := (q_slots q)[(q_head q + q_len q) mod PERF_QUEUE := x], q_len := q_len q + 1\<rparr>"

definition ring_take :: "'a ring \<Rightarrow> 'a \<times> 'a ring" where
  "ring_take q = (q_slots q ! q_head q, q\<lparr>q_head := (q_head q + 1) mod PERF_QUEUE, q_len := q_len q - 1\<rparr>)"

definition ring_items :: "'a ring \<Rightarrow> 'a list" where
  "ring_items q = map (\<lambda>i. q_slots q ! ((q_head q + i) mod PERF_QUEUE)) [0..<q_len q]"

definition ring_ok :: "'a ring \<Rightarrow> bool" where
  "ring_ok q \<longleftrightarrow> length (q_slots q) = PERF_QUEUE \<and> q_head q < PERF_QUEUE \<and> q_len q \<le> PERF_QUEUE"

lemma length_ring_items [simp]: "length (ring_items q) = q_len q"
  by (simp add: ring_items_def)

lemma ring_put_items:
  assumes "ring_ok q" and "q_len q < PERF_QUEUE"
  shows "ring_ok (ring_put x q)" and "ring_items (ring_put x q) = ring_items q @ [x]"
proof -
  let ?at = "\<lambda>i. (q_head q + i) mod PERF_QUEUE"
  have pos: "0 < PERF_QUEUE" by (simp add: PERF_QUEUE_def)
  have "?at i \<noteq> ?at (q_len q)" if "i < q_len q" for i
  proof
    assume "?at i = ?at (q_len q)"
    moreover have "q_head q + q_len q \<ge> q_head q + i" using that by simp
    ultimately have "PERF_QUEUE dvd (q_head q + q_len q) - (q_head q + i)" by (metis mod_eq_dvd_iff_nat)
    then have "PERF_QUEUE dvd q_len q - i" by simp
    with that assms(2) show False by (auto dest: dvd_imp_le)
  qed
  then have "map (\<lambda>i. (q_slots q)[?at (q_len q) := x] ! ?at i) [0..<q_len q] = ring_items q"
    by (auto simp: ring_items_def nth_list_update_neq [OF not_sym])
  moreover have "?at (q_len q) < length (q_slots q)" using assms(1) pos by (simp add: ring_ok_def)
  ultimately show "ring_items (ring_put x q) = ring_items q @ [x]" by (simp add: ring_put_def ring_items_def)
  show "ring_ok (ring_put x q)" using assms by (simp add: ring_ok_def ring_put_def)
qed

lemma ring_take_items:
  assumes "ring_ok q" and "ring_items q = x # xs"
  shows "fst (ring_take q) = x" and "ring_ok (snd (ring_take q))" and "ring_items (snd (ring_take q)) = xs"
proof -
  let ?at = "\<lambda>i. (q_head q + i) mod PERF_QUEUE"
  have len: "q_len q = Suc (length xs)" using arg_cong [OF assms(2), of length] by simp
  have pos: "0 < PERF_QUEUE" by (simp add: PERF_QUEUE_def)
  have "[0..<q_len q] = 0 # map Suc [0..<length xs]" by (simp add: len upt_conv_Cons map_Suc_upt del: upt_Suc)
  then have i: "ring_items q = q_slots q ! ?at 0 # map (\<lambda>i. q_slots q ! ?at (Suc i)) [0..<length xs]"
    by (simp add: ring_items_def comp_def)
  with assms show "fst (ring_take q) = x" by (simp add: ring_take_def ring_ok_def)
  show "ring_ok (snd (ring_take q))" using assms(1) pos unfolding ring_ok_def ring_take_def by (auto intro: order_trans [OF diff_le_self])
  have "((q_head q + 1) mod PERF_QUEUE + k) mod PERF_QUEUE = ?at (Suc k)" for k
    by (simp add: mod_add_left_eq)
  then show "ring_items (snd (ring_take q)) = xs"
    using i assms(2) by (simp add: ring_items_def ring_take_def len)
qed

interpretation ring: bounded_queue ring_put ring_take ring_items ring_ok PERF_QUEUE
proof
  fix q :: "'a ring" and x and xs
  show "ring_ok q \<Longrightarrow> length (ring_items q) < PERF_QUEUE \<Longrightarrow> ring_ok (ring_put x q) \<and> ring_items (ring_put x q) = ring_items q @ [x]"
    by (simp add: ring_put_items)
  show "fst (ring_take q) = x \<and> ring_ok (snd (ring_take q)) \<and> ring_items (snd (ring_take q)) = xs"
    if "ring_ok q" "ring_items q = x # xs"
    using ring_take_items [OF that] by iprover
  show "ring_ok q \<Longrightarrow> length (ring_items q) \<le> PERF_QUEUE" by (simp add: ring_ok_def)
qed

end
