(* ===== verification/History.thy ===== *)
theory History
  imports Perf Ring
begin

section \<open>The history of observations (src/src/app/performance.c)\<close>

text \<open>
  The static state of performance.c: the retained records, the queue to the writer thread, the
  counters and settings; the journal's two segments as texts. Every function that changes the
  state is here, as one step under the locks it takes. The time of day is an argument and does not
  change during a call; what the file system answers is an argument too.
\<close>

definition PERF_RECORDS :: nat where "PERF_RECORDS = 8192"
definition LINE_CAP :: nat where "LINE_CAP = 8192"
definition SEGMENT_BYTES :: nat where "SEGMENT_BYTES = 10 * 1024 * 1024"

record history =
  p_started :: bool
  p_closing :: bool
  p_enabled :: bool
  p_error :: bool
  p_legacy_deleted :: bool
  p_expired :: bool
  p_compacted :: int
  p_days :: nat
  p_epoch :: u64
  p_sequence :: u64
  p_dropped :: u64
  p_persisted :: u64
  p_invalid :: u64
  p_boot :: u64
  p_records :: "perf_record list"
  p_queue :: "perf_record ring"

definition cutoff :: "int \<Rightarrow> nat \<Rightarrow> dbl" where
  "cutoff now days = Fin (of_int now - of_nat days * 86400)"

definition known :: "string \<Rightarrow> history \<Rightarrow> bool" where
  "known i p \<longleftrightarrow> (\<exists>r \<in> set (p_records p). r_id r = i)"

definition retain :: "int \<Rightarrow> perf_record \<Rightarrow> history \<Rightarrow> history" where
  "retain now r p =
     (let c = cutoff now (p_days p);
          kept = filter (\<lambda>x. dle c (r_timestamp x)) (p_records p);
          p1 = p\<lparr>p_expired := (p_expired p \<or> length kept < length (p_records p)), p_records := kept\<rparr>
      in if dlt (r_timestamp r) c then p1\<lparr>p_expired := True\<rparr>
         else if known (r_id r) p1 then p1
         else p1\<lparr>p_records := (if length kept = PERF_RECORDS then tl kept else kept) @ [r]\<rparr>)"

text \<open>\<open>%016llx\<close>.\<close>

definition hex16 :: "u64 \<Rightarrow> string" where
  "hex16 w = map (\<lambda>i. hexdig (unat w div 16 ^ (15 - i) mod 16)) [0..<16]"

definition perf_begin :: "int \<Rightarrow> perf_record \<Rightarrow> history \<Rightarrow> perf_record \<times> history" where
  "perf_begin now r p =
     (let p1 = p\<lparr>p_sequence := p_sequence p + 1\<rparr> in
      (r\<lparr>r_schema := 2, r_epoch := p_epoch p, r_enabled := p_enabled p,
         r_id := hex16 (p_boot p) @ ''-'' @ dec (unat (p_sequence p1)),
         r_timestamp := Fin (of_int now), r_rss := Fin (-1), r_peak_rss := Fin (-1), r_cpu_percent := Fin (-1),
         r_memory := app_memory_reset, r_first_answer_ns := Fin (-1), r_first_ns := Fin (-1),
         r_prefill_ns := Fin (-1), r_load_ns := Fin (-1)\<rparr>, p1))"

text \<open>Whether a record is taken.\<close>

definition accepts :: "int \<Rightarrow> perf_record \<Rightarrow> history \<Rightarrow> bool" where
  "accepts now r p \<longleftrightarrow> perf_valid now r \<and> r_enabled r \<and> p_enabled p \<and> r_epoch r = p_epoch p
     \<and> dle (cutoff now (p_days p)) (r_timestamp r) \<and> \<not> known (r_id r) p"

definition perf_submit :: "int \<Rightarrow> perf_record \<Rightarrow> history \<Rightarrow> history" where
  "perf_submit now r p =
     (if accepts now r p then
        let p1 = retain now r p in
        if p_started p1 \<and> q_len (p_queue p1) < PERF_QUEUE then p1\<lparr>p_queue := ring_put r (p_queue p1)\<rparr>
        else p1\<lparr>p_error := True, p_dropped := p_dropped p1 + 1\<rparr>
      else p)"

definition perf_import :: "int \<Rightarrow> perf_record \<Rightarrow> history \<Rightarrow> perf_record \<times> history" where
  "perf_import now r p =
     (let r1 = r\<lparr>r_enabled := (p_enabled p \<and> \<not> p_legacy_deleted p), r_epoch := p_epoch p\<rparr> in (r1, perf_submit now r1 p))"

text \<open>The newest record of an artifact and processor.\<close>

definition last_match :: "string \<Rightarrow> string \<Rightarrow> string \<Rightarrow> bool \<Rightarrow> perf_record \<Rightarrow> bool" where
  "last_match artifact series backend controlled r \<longleftrightarrow>
     eligible r \<and> \<not> r_contention r \<and> (controlled \<or> r_source r \<noteq> ''controlled_test'') \<and> r_artifact r = artifact
     \<and> r_series r = series \<and> r_backend r = backend"

definition perf_last :: "string \<Rightarrow> string \<Rightarrow> string \<Rightarrow> bool \<Rightarrow> history \<Rightarrow> perf_record option" where
  "perf_last artifact series backend controlled p =
     fold (\<lambda>r out. if last_match artifact series backend controlled r then Some r else out) (p_records p) None"

text \<open>\<open>ok\<close>: the settings were written and the files removed.\<close>

definition perf_clear :: "bool \<Rightarrow> history \<Rightarrow> bool \<times> history" where
  "perf_clear ok p =
     (ok, p\<lparr>p_legacy_deleted := True, p_records := [], p_queue := (p_queue p)\<lparr>q_len := 0, q_head := 0\<rparr>,
            p_persisted := 0, p_invalid := 0, p_dropped := 0, p_epoch := p_epoch p + 1, p_error := \<not> ok\<rparr>)"

text \<open>The records that are still kept, as lines in a buffer of 20 MiB; nothing if they do not fit.\<close>

definition perf_export :: "int \<Rightarrow> history \<Rightarrow> string option \<times> history" where
  "perf_export now p =
     (let kept = filter (\<lambda>x. dle (cutoff now (p_days p)) (r_timestamp x)) (p_records p);
          b = fold record_json kept \<lparr>b_data = [], b_len = 0, b_cap = 2 * SEGMENT_BYTES, b_failed = False\<rparr>
      in (if b_failed b then None else Some (b_data b), p\<lparr>p_records := kept\<rparr>))"

text \<open>The split of the exported text: the first line start that leaves at most a segment behind it.\<close>

function split_from :: "nat \<Rightarrow> string \<Rightarrow> nat" where
  "split_from split data =
     (if split < length data \<and> data ! (split - 1) \<noteq> CHR 0x0A then split_from (split + 1) data else split)"
  by pat_completeness auto
termination
  by (relation "measure (\<lambda>(split, data). length data - split)") auto

declare split_from.simps [simp del]

definition split_at :: "string \<Rightarrow> nat" where
  "split_at data = (if length data > SEGMENT_BYTES then split_from (length data - SEGMENT_BYTES) data else 0)"

text \<open>The two segments, or none for the result false; \<open>wrote\<close> is whether both were replaced.\<close>

definition compact_history :: "int \<Rightarrow> bool \<Rightarrow> history \<Rightarrow> (string \<times> string) option \<times> history" where
  "compact_history now wrote p =
     (case perf_export now p of
        (None, p1) \<Rightarrow> (None, p1)
      | (Some data, p1) \<Rightarrow>
          let s = split_at data in
          if s > SEGMENT_BYTES \<or> \<not> wrote then (None, p1)
          else (Some (take s data, drop s data), p1\<lparr>p_compacted := now\<rparr>))"

text \<open>The settings; \<open>stored\<close> is whether the file was written.\<close>

definition perf_settings :: "int \<Rightarrow> bool \<Rightarrow> bool \<Rightarrow> bool \<Rightarrow> nat \<Rightarrow> history \<Rightarrow> bool \<times> history" where
  "perf_settings now stored wrote enabled days p =
     (if days \<noteq> 30 \<and> days \<noteq> 90 \<and> days \<noteq> 365 then (False, p)
      else
        let p1 = (if stored \<or> \<not> enabled then p\<lparr>p_enabled := enabled, p_days := days, p_epoch := p_epoch p + 1\<rparr> else p);
            p2 = (if \<not> stored then p1\<lparr>p_error := True\<rparr> else p1);
            (ok, p3) = (if stored then (case compact_history now wrote p2 of (res, p') \<Rightarrow> (res \<noteq> None, p')) else (False, p2))
        in (ok, if \<not> ok then p3\<lparr>p_error := True\<rparr> else p3))"

text \<open>One round of the writer: a record taken from the queue; \<open>stored\<close> is whether it was appended,
  \<open>cached\<close> whether the rest succeeded.\<close>

definition writer_step :: "int \<Rightarrow> bool \<Rightarrow> bool \<Rightarrow> bool \<Rightarrow> history \<Rightarrow> history" where
  "writer_step now stored wrote cached p =
     (if q_len (p_queue p) > 0 then
        let p1 = p\<lparr>p_queue := snd (ring_take (p_queue p))\<rparr>;
            (ok, p2) = (if stored \<and> now - p_compacted p1 \<ge> 86400 then
                          (case compact_history now wrote p1 of (res, p') \<Rightarrow> (res \<noteq> None, p'))
                        else (stored, p1));
            p3 = (if stored then p2\<lparr>p_persisted := p_persisted p2 + 1\<rparr> else p2\<lparr>p_dropped := p_dropped p2 + 1\<rparr>)
        in if \<not> (ok \<and> cached) then p3\<lparr>p_error := True\<rparr> else p3
      else if now - p_compacted p \<ge> 86400 then
        (case compact_history now wrote p of (res, p') \<Rightarrow> if res = None then p'\<lparr>p_error := True\<rparr> else p')
      else p)"

subsection \<open>What every operation keeps\<close>

text \<open>Ids are unique, the records are bounded, the queue is a queue.\<close>

definition history_ok :: "history \<Rightarrow> bool" where
  "history_ok p \<longleftrightarrow> distinct (map r_id (p_records p)) \<and> length (p_records p) \<le> PERF_RECORDS \<and> ring_ok (p_queue p)"

lemma distinct_filter: "distinct (map f xs) \<Longrightarrow> distinct (map f (filter P xs))"
  by (induction xs) auto

lemma kept_ok: "history_ok p \<Longrightarrow> history_ok (p\<lparr>p_records := filter P (p_records p)\<rparr>)"
  by (auto simp: history_ok_def distinct_filter intro: order_trans [OF length_filter_le])

lemma history_ok_frame [intr_inv]:
  "history_ok p \<Longrightarrow> history_ok (p\<lparr>p_expired := b\<rparr>)" "history_ok p \<Longrightarrow> history_ok (p\<lparr>p_error := b\<rparr>)"
  "history_ok p \<Longrightarrow> history_ok (p\<lparr>p_dropped := w\<rparr>)" "history_ok p \<Longrightarrow> history_ok (p\<lparr>p_persisted := w\<rparr>)"
  "history_ok p \<Longrightarrow> history_ok (p\<lparr>p_compacted := t\<rparr>)" "history_ok p \<Longrightarrow> history_ok (p\<lparr>p_sequence := w\<rparr>)"
  "history_ok p \<Longrightarrow> history_ok (p\<lparr>p_enabled := b, p_days := d, p_epoch := w\<rparr>)"
  by (simp_all add: history_ok_def)

lemma retain_ok [intr_inv]: "history_ok p \<Longrightarrow> history_ok (retain now r p)"
proof -
  assume p: "history_ok p"
  define kept where "kept = filter (\<lambda>x. dle (cutoff now (p_days p)) (r_timestamp x)) (p_records p)"
  have k: "distinct (map r_id kept)" "length kept \<le> PERF_RECORDS" "ring_ok (p_queue p)"
    using kept_ok [OF p, of "\<lambda>x. dle (cutoff now (p_days p)) (r_timestamp x)"] by (simp_all add: history_ok_def kept_def)
  have "distinct (map r_id (tl kept))" "set (tl kept) \<subseteq> set kept" "length kept = PERF_RECORDS \<longrightarrow> length (tl kept) < PERF_RECORDS"
    using k(1) by (cases kept; auto simp: PERF_RECORDS_def)+
  with k show ?thesis
    by (auto simp: retain_def Let_def history_ok_def known_def kept_def [symmetric])
qed

lemma submit_ok [intr_inv]: "history_ok p \<Longrightarrow> history_ok (perf_submit now r p)"
proof -
  assume "history_ok p"
  then have r: "history_ok (retain now r p)" by (rule retain_ok)
  then have q: "ring_ok (p_queue (retain now r p))" by (simp add: history_ok_def)
  have "history_ok (retain now r p\<lparr>p_queue := ring_put r (p_queue (retain now r p))\<rparr>)"
    if "q_len (p_queue (retain now r p)) < PERF_QUEUE"
    using r ring_put_items(1) [OF q that] by (simp add: history_ok_def)
  with \<open>history_ok p\<close> r show ?thesis by (auto simp: perf_submit_def Let_def history_ok_def)
qed

lemma export_ok [intr_inv]: "history_ok p \<Longrightarrow> history_ok (snd (perf_export now p))"
  using kept_ok by (simp add: perf_export_def Let_def)

lemma compact_ok [intr_inv]: "history_ok p \<Longrightarrow> history_ok (snd (compact_history now wrote p))"
  using export_ok [of p now] by (auto simp: compact_history_def Let_def history_ok_frame split: prod.splits option.splits)

lemma settings_ok [intr_inv]: "history_ok p \<Longrightarrow> history_ok (snd (perf_settings now stored wrote enabled days p))"
proof -
  assume "history_ok p"
  then have "history_ok (snd (compact_history now wrote (p\<lparr>p_enabled := enabled, p_days := days, p_epoch := p_epoch p + 1\<rparr>)))"
    by (intro compact_ok history_ok_frame)
  with \<open>history_ok p\<close> show ?thesis
    by (auto simp: perf_settings_def Let_def history_ok_frame split: prod.splits)
qed

lemma clear_ok [intr_inv]: "history_ok p \<Longrightarrow> history_ok (snd (perf_clear ok p))"
  by (simp add: perf_clear_def history_ok_def ring_ok_def PERF_QUEUE_def)

lemma writer_ok [intr_inv]: "history_ok p \<Longrightarrow> history_ok (writer_step now stored wrote cached p)"
proof -
  assume p: "history_ok p"
  have t: "history_ok (p\<lparr>p_queue := snd (ring_take (p_queue p))\<rparr>)" if "q_len (p_queue p) > 0"
  proof -
    have "ring_items (p_queue p) \<noteq> []" using that by (metis length_0_conv length_ring_items less_irrefl)
    then obtain x xs where "ring_items (p_queue p) = x # xs" by (cases "ring_items (p_queue p)") auto
    from ring_take_items(2) [OF _ this] p show ?thesis by (simp add: history_ok_def)
  qed
  from p show ?thesis
    using compact_ok [OF t, of now wrote] compact_ok [OF p, of now wrote] t
    by (auto simp: writer_step_def Let_def history_ok_frame split: prod.splits)
qed

subsection \<open>Nothing is lost in silence\<close>

text \<open>What waits, was stored or was given up; a submitted record counts once, a round of the writer moves
  a record from the first to one of the others.\<close>

definition accounted :: "history \<Rightarrow> u64" where
  "accounted p = of_nat (q_len (p_queue p)) + p_persisted p + p_dropped p"

lemma retain_frame [frame]:
  "p_queue (retain now r p) = p_queue p" "p_persisted (retain now r p) = p_persisted p" "p_dropped (retain now r p) = p_dropped p"
  "p_epoch (retain now r p) = p_epoch p" "p_enabled (retain now r p) = p_enabled p" "p_days (retain now r p) = p_days p"
  by (simp_all add: retain_def Let_def)

lemma compact_frame [frame]:
  "p_queue (snd (compact_history now wrote p)) = p_queue p" "p_persisted (snd (compact_history now wrote p)) = p_persisted p"
  "p_dropped (snd (compact_history now wrote p)) = p_dropped p" "p_enabled (snd (compact_history now wrote p)) = p_enabled p"
  "p_epoch (snd (compact_history now wrote p)) = p_epoch p"
  by (simp_all add: compact_history_def perf_export_def Let_def split: option.splits)

lemma submit_accounted: "accounted (perf_submit now r p) = accounted p + of_bool (accepts now r p)"
  by (simp add: perf_submit_def accounted_def Let_def frame ring_put_def)

lemma writer_accounted: "accounted (writer_step now stored wrote cached p) = accounted p"
proof -
  have q: "q_len (snd (ring_take q)) = q_len q - 1" for q :: "perf_record ring" by (simp add: ring_take_def)
  have n: "of_nat (n - 1) + (1 :: u64) = of_nat n" if "n > 0" for n
    using that by (metis Suc_diff_1 add.commute of_nat_Suc)
  define p1 where "p1 = p\<lparr>p_queue := snd (ring_take (p_queue p))\<rparr>"
  have c: "p_queue p' = p_queue x \<and> p_persisted p' = p_persisted x \<and> p_dropped p' = p_dropped x"
    if "compact_history now wrote x = (res, p')" for res p' x
    using compact_frame [of now wrote x] that by simp
  show ?thesis
  proof (cases "q_len (p_queue p) > 0")
    case True
    then have "accounted p = of_nat (q_len (p_queue p1)) + 1 + p_persisted p1 + p_dropped p1"
      by (simp add: accounted_def p1_def q n)
    with True show ?thesis
      by (auto simp: writer_step_def Let_def p1_def [symmetric] accounted_def algebra_simps split: prod.splits dest!: c)
  next
    case False
    then show ?thesis by (auto simp: writer_step_def accounted_def split: prod.splits dest!: c)
  qed
qed

text \<open>A switch off holds even if its file cannot be written: no record is taken after it.\<close>

lemma settings_off:
  assumes "days = 30 \<or> days = 90 \<or> days = 365"
  shows "perf_submit later r (snd (perf_settings now stored wrote False days p)) = snd (perf_settings now stored wrote False days p)"
proof -
  have "\<not> p_enabled (snd (perf_settings now stored wrote False days p))"
    using assms compact_frame(4) [of now wrote "p\<lparr>p_enabled := False, p_days := days, p_epoch := p_epoch p + 1\<rparr>"]
    by (auto simp: perf_settings_def Let_def split: prod.splits)
  then show ?thesis by (simp add: perf_submit_def accepts_def)
qed

text \<open>A record begun before the history was cleared is not taken after it.\<close>

lemma clear_stops_old:
  assumes "r_epoch r = p_epoch p"
  shows "perf_submit later r (snd (perf_clear ok p)) = snd (perf_clear ok p)"
proof -
  have "p_epoch p + 1 \<noteq> p_epoch p" by simp
  then show ?thesis using assms by (simp add: perf_submit_def accepts_def perf_clear_def)
qed

subsection \<open>The newest record\<close>

lemma fold_last:
  "fold (\<lambda>r out. if P r then Some r else out) xs d = (if filter P xs = [] then d else Some (last (filter P xs)))"
  by (induction xs arbitrary: d) auto

lemma perf_last_newest:
  "perf_last artifact series backend controlled p =
     (let ms = filter (last_match artifact series backend controlled) (p_records p) in if ms = [] then None else Some (last ms))"
  by (simp add: perf_last_def fold_last Let_def)

subsection \<open>Two segments\<close>

lemma split_from_bounds: "split \<le> length data \<Longrightarrow> split \<le> split_from split data \<and> split_from split data \<le> length data"
proof (induction split data rule: split_from.induct)
  case (1 split data)
  then show ?case by (subst (1 2) split_from.simps) auto
qed

lemma split_from_line:
  "0 < split \<Longrightarrow> split \<le> length data \<Longrightarrow> split_from split data < length data \<Longrightarrow> data ! (split_from split data - 1) = CHR 0x0A"
proof (induction split data rule: split_from.induct)
  case (1 split data)
  show ?case
  proof (cases "split < length data \<and> data ! (split - 1) \<noteq> CHR 0x0A")
    case True
    with "1.IH" [OF True] "1.prems" show ?thesis by (simp add: split_from.simps [of split data])
  next
    case False
    then have "split_from split data = split" by (subst split_from.simps) (rule if_not_P)
    with False "1.prems" show ?thesis by auto
  qed
qed

text \<open>Compaction cuts the exported lines into two segments of at most 10 MiB at the end of a line.\<close>

lemma compact_segments:
  assumes "compact_history now wrote p = (Some (old, new), p')"
  shows "fst (perf_export now p) = Some (old @ new)" and "length old \<le> SEGMENT_BYTES" and "length new \<le> SEGMENT_BYTES"
    and "old = [] \<or> new = [] \<or> last old = CHR 0x0A"
proof -
  obtain data where e: "fst (perf_export now p) = Some data" and s: "split_at data \<le> SEGMENT_BYTES"
    and on: "old = take (split_at data) data" "new = drop (split_at data) data"
    using assms by (auto simp: compact_history_def Let_def split: prod.splits option.splits if_splits)
  show "fst (perf_export now p) = Some (old @ new)" by (simp add: e on)
  show "length old \<le> SEGMENT_BYTES" using s by (simp add: on min_def)
  show "length new \<le> SEGMENT_BYTES"
  proof (cases "length data > SEGMENT_BYTES")
    case True
    then have "length data - SEGMENT_BYTES \<le> split_at data"
      using split_from_bounds [of "length data - SEGMENT_BYTES" data] by (simp add: split_at_def)
    then show ?thesis by (simp add: on)
  next
    case False
    then show ?thesis by (simp add: on split_at_def)
  qed
  show "old = [] \<or> new = [] \<or> last old = CHR 0x0A"
  proof (cases "length data > SEGMENT_BYTES \<and> split_at data < length data")
    case True
    let ?k = "length data - SEGMENT_BYTES"
    have k: "0 < ?k" "?k \<le> length data" using True by auto
    have a: "split_at data = split_from ?k data" using True by (simp add: split_at_def)
    have "data ! (split_at data - 1) = CHR 0x0A"
      using split_from_line [OF k] True by (simp add: a)
    moreover have "0 < split_at data" using split_from_bounds [OF k(2)] k(1) unfolding a by linarith
    moreover have "last old = old ! (length old - 1)" using calculation(2) True by (intro last_conv_nth) (auto simp: on)
    ultimately show ?thesis using True by (simp add: on min_def)
  next
    case False
    then show ?thesis by (auto simp: on split_at_def)
  qed
qed

subsection \<open>Loading a journal\<close>

text \<open>What opening a segment gives.\<close>

datatype opened = Missing | Refused | Content string

text \<open>\<open>fgets\<close> into \<open>LINE_CAP\<close> bytes.\<close>

definition fgets_line :: "string \<Rightarrow> string" where
  "fgets_line input =
     (let l = takeWhile (\<lambda>c. c \<noteq> CHR 0x0A) input in
      take (LINE_CAP - 1) (if length l < length input then l @ [CHR 0x0A] else l))"

lemma fgets_line_pos: "input \<noteq> [] \<Longrightarrow> fgets_line input \<noteq> []"
  by (cases input) (auto simp: fgets_line_def LINE_CAP_def Let_def)

function load_lines :: "int \<Rightarrow> bool \<Rightarrow> string \<Rightarrow> history \<Rightarrow> history" where
  "load_lines now dropping input p =
     (if input = [] then p
      else
        let chunk = fgets_line input;
            rest = drop (length chunk) input;
            line = cstr chunk;
            newline = (CHR 0x0A \<in> set line)
        in if dropping then load_lines now (\<not> newline) rest p
           else if \<not> newline then load_lines now True rest (p\<lparr>p_invalid := p_invalid p + 1\<rparr>)
           else case perf_parse now line of
               None \<Rightarrow> load_lines now False rest (p\<lparr>p_invalid := p_invalid p + 1\<rparr>)
             | Some r \<Rightarrow>
                 load_lines now False rest
                   (if known (r_id r) p then p
                    else (retain now r p)\<lparr>p_persisted := p_persisted (retain now r p) + 1\<rparr>))"
  by pat_completeness auto
termination
  by (relation "measure (\<lambda>(now, dropping, input, p). length input)") (auto simp: fgets_line_pos)

declare load_lines.simps [simp del]

definition load :: "int \<Rightarrow> opened \<Rightarrow> history \<Rightarrow> history" where
  "load now file p =
     (case file of
        Missing \<Rightarrow> p
      | Refused \<Rightarrow> p\<lparr>p_error := True\<rparr>
      | Content input \<Rightarrow> if length input > SEGMENT_BYTES then p\<lparr>p_error := True\<rparr> else load_lines now False input p)"

lemma retain_append:
  assumes "\<forall>x \<in> set (p_records p). dle (cutoff now (p_days p)) (r_timestamp x)"
    and "dle (cutoff now (p_days p)) (r_timestamp r)" and "\<not> known (r_id r) p" and "length (p_records p) < PERF_RECORDS"
  shows "retain now r p = p\<lparr>p_records := p_records p @ [r]\<rparr>"
proof -
  have "filter (\<lambda>x. dle (cutoff now (p_days p)) (r_timestamp x)) (p_records p) = p_records p"
    using assms(1) by (simp add: filter_id_conv)
  moreover have "\<not> dlt (r_timestamp r) (cutoff now (p_days p))"
    using assms(2) by (cases "r_timestamp r") (auto simp: cutoff_def dle_def)
  ultimately show ?thesis using assms(3,4) by (simp add: retain_def Let_def known_def)
qed

text \<open>A record that goes into the journal as it is and comes back.\<close>

definition journal_ok :: "int \<Rightarrow> nat \<Rightarrow> perf_record \<Rightarrow> bool" where
  "journal_ok now days r \<longleftrightarrow> perf_valid now r \<and> record_strings r \<and> record_survives r \<and> e_source_state (r_engine r) \<noteq> []
     \<and> dle (cutoff now days) (r_timestamp r) \<and> length (render app_esc (JObj (record_tree r))) < LINE_CAP - 1"

definition journal_line :: "perf_record \<Rightarrow> string" where
  "journal_line r = render app_esc (JObj (record_tree r)) @ [CHR 0x0A]"

lemma journaled_frame [frame]: "r_id (journaled_record r) = r_id r"
  by (simp add: journaled_record_def)

lemma journaled_time: "perf_valid now r \<Longrightarrow> r_timestamp (journaled_record r) = r_timestamp r"
proof -
  assume "perf_valid now r"
  then have "dfinite (r_timestamp r)" "dle (Fin 0) (r_timestamp r)" unfolding perf_valid_def dle_def by blast+
  then show ?thesis by (simp add: journaled_record_def read_known)
qed

lemma journaled_cutoff: "journal_ok now days r \<Longrightarrow> dle (cutoff now days) (r_timestamp (journaled_record r))"
  using journaled_time [of now r] by (simp add: journal_ok_def del: render.simps)

lemma fgets_journal_line:
  assumes "journal_ok now days r"
  shows "fgets_line (journal_line r @ rest) = journal_line r" and "cstr (journal_line r) = journal_line r"
proof -
  have n: "CHR 0x0A \<notin> set (render app_esc (JObj (record_tree r)))" "NUL \<notin> set (render app_esc (JObj (record_tree r)))"
    using record_one_line assms by (auto simp: journal_ok_def)
  have "takeWhile (\<lambda>c. c \<noteq> CHR 0x0A) (journal_line r @ rest) = render app_esc (JObj (record_tree r))"
    using n(1) unfolding journal_line_def append.assoc append_Cons by (subst takeWhile_append2) auto
  then show "fgets_line (journal_line r @ rest) = journal_line r"
    using assms
    by (simp add: fgets_line_def journal_line_def journal_ok_def Let_def LINE_CAP_def Suc_le_eq del: render.simps)
  show "cstr (journal_line r) = journal_line r"
    using n(2) by (intro cstr_id) (simp add: journal_line_def del: render.simps)
qed

lemma load_lines_journal:
  assumes "\<forall>r \<in> set rs. journal_ok now (p_days p) r" and "distinct (map r_id (p_records p @ rs))"
    and "length (p_records p @ rs) \<le> PERF_RECORDS" and "\<forall>x \<in> set (p_records p). dle (cutoff now (p_days p)) (r_timestamp x)"
  shows "load_lines now False (concat (map journal_line rs)) p
     = p\<lparr>p_records := p_records p @ map journaled_record rs, p_persisted := p_persisted p + of_nat (length rs)\<rparr>"
  using assms
proof (induction rs arbitrary: p)
  case Nil
  then show ?case by (simp add: load_lines.simps)
next
  case (Cons r rs)
  have ok: "journal_ok now (p_days p) r" using Cons.prems(1) by simp
  let ?text = "journal_line r @ concat (map journal_line rs)"
  let ?j = "journaled_record r"
  let ?p = "p\<lparr>p_records := p_records p @ [?j], p_persisted := p_persisted p + 1\<rparr>"
  have parse: "perf_parse now (journal_line r) = Some ?j"
    unfolding journal_line_def using ok record_read_back by (simp add: journal_ok_def del: render.simps)
  have time: "dle (cutoff now (p_days p)) (r_timestamp ?j)" using ok by (rule journaled_cutoff)
  have new: "\<not> known (r_id ?j) p" using Cons.prems(2) by (simp add: known_def frame image_iff) metis
  have "length (p_records p) < PERF_RECORDS" using Cons.prems(3) by simp
  note keep = retain_append [OF Cons.prems(4) time new this]
  have nl: "CHR 0x0A \<in> set (journal_line r)" "journal_line r \<noteq> []" by (simp_all add: journal_line_def)
  have "load_lines now False ?text p = load_lines now False (concat (map journal_line rs)) ?p"
    using nl new by (subst load_lines.simps) (simp add: Let_def fgets_journal_line [OF ok] parse keep)
  also have "\<dots> = ?p\<lparr>p_records := p_records ?p @ map journaled_record rs, p_persisted := p_persisted ?p + of_nat (length rs)\<rparr>"
  proof (rule Cons.IH)
    show "\<forall>r \<in> set rs. journal_ok now (p_days ?p) r" using Cons.prems(1) by simp
    show "distinct (map r_id (p_records ?p @ rs))" using Cons.prems(2) by (simp add: frame)
    show "length (p_records ?p @ rs) \<le> PERF_RECORDS" using Cons.prems(3) by simp
    show "\<forall>x \<in> set (p_records ?p). dle (cutoff now (p_days ?p)) (r_timestamp x)" using Cons.prems(4) time by simp
  qed
  finally show ?case by (simp add: algebra_simps)
qed

text \<open>Whole lines stay whole when a text is cut behind a newline.\<close>

lemma lines_cut:
  assumes "concat (map (\<lambda>l. f l @ [CHR 0x0A]) ls) = a @ b" and "\<forall>l \<in> set ls. CHR 0x0A \<notin> set (f l)"
    and "a = [] \<or> last a = CHR 0x0A"
  shows "\<exists>k. a = concat (map (\<lambda>l. f l @ [CHR 0x0A]) (take k ls)) \<and> b = concat (map (\<lambda>l. f l @ [CHR 0x0A]) (drop k ls))"
  using assms
proof (induction ls arbitrary: a)
  case (Cons l ls)
  let ?c = "concat (map (\<lambda>l. f l @ [CHR 0x0A]) ls)"
  show ?case
  proof (cases "a = []")
    case True
    then show ?thesis using Cons.prems(1) by (intro exI [of _ 0]) simp
  next
    case False
    have eq: "(f l @ [CHR 0x0A]) @ ?c = a @ b" using Cons.prems(1) by simp
    have "\<not> length a \<le> length (f l)"
    proof
      assume le: "length a \<le> length (f l)"
      have "a = take (length a) (a @ b)" by simp
      also have "\<dots> = take (length a) ((f l @ [CHR 0x0A]) @ ?c)" by (simp only: eq)
      also have "\<dots> = take (length a) (f l)" using le by simp
      finally have "a = take (length a) (f l)" .
      then have "last a \<in> set (f l)" using False by (metis last_in_set in_set_takeD)
      with Cons.prems(2,3) False show False by auto
    qed
    then have "take (length (f l @ [CHR 0x0A])) a = take (length (f l @ [CHR 0x0A])) (a @ b)" by simp
    then have "take (length (f l @ [CHR 0x0A])) a = f l @ [CHR 0x0A]" unfolding eq [symmetric] by simp
    then obtain a' where a': "a = (f l @ [CHR 0x0A]) @ a'" by (metis append_take_drop_id)
    have "?c = a' @ b" using eq by (simp add: a')
    moreover have "a' = [] \<or> last a' = CHR 0x0A" using Cons.prems(3) by (auto simp: a' split: if_splits)
    ultimately obtain k where "a' = concat (map (\<lambda>l. f l @ [CHR 0x0A]) (take k ls))" "b = concat (map (\<lambda>l. f l @ [CHR 0x0A]) (drop k ls))"
      using Cons.IH [of a'] Cons.prems(2) by auto
    then show ?thesis by (intro exI [of _ "Suc k"]) (simp add: a')
  qed
qed simp

lemma export_lines:
  assumes "perf_export now p = (Some data, p')" and "\<forall>r \<in> set (p_records p). record_strings r \<and> r_schema r \<noteq> 1"
  shows "data = concat (map journal_line (p_records p'))"
    and "p_records p' = filter (\<lambda>x. dle (cutoff now (p_days p)) (r_timestamp x)) (p_records p)"
proof -
  define kept where "kept = filter (\<lambda>x. dle (cutoff now (p_days p)) (r_timestamp x)) (p_records p)"
  define b where "b = \<lparr>b_data = [], b_len = 0, b_cap = 2 * SEGMENT_BYTES, b_failed = False\<rparr>"
  have e: "\<not> b_failed (fold record_json kept b)" "data = b_data (fold record_json kept b)" "p_records p' = kept"
    using assms(1) by (auto simp: perf_export_def Let_def kept_def b_def split: if_splits)
  show "p_records p' = filter (\<lambda>x. dle (cutoff now (p_days p)) (r_timestamp x)) (p_records p)" using e(3) by (simp add: kept_def)
  have "writes (fold record_json kept) (concat (map journal_line kept))"
    unfolding journal_line_def using assms(2) writes_record by (intro writes_fold) (auto simp: kept_def)
  moreover have "buf_ok b" by (simp add: b_def buf_ok_def SEGMENT_BYTES_def)
  ultimately show "data = concat (map journal_line (p_records p'))"
    using writesD(4) [of "fold record_json kept"] e by (simp add: b_def)
qed

lemma load_twice:
  assumes "\<forall>r \<in> set (rs1 @ rs2). journal_ok now (p_days q) r" and "distinct (map r_id (rs1 @ rs2))"
    and "length (rs1 @ rs2) \<le> PERF_RECORDS" and "p_records q = []"
    and "length (concat (map journal_line rs1)) \<le> SEGMENT_BYTES" and "length (concat (map journal_line rs2)) \<le> SEGMENT_BYTES"
  shows "p_records (load now (Content (concat (map journal_line rs2))) (load now (Content (concat (map journal_line rs1))) q))
     = map journaled_record (rs1 @ rs2)"
proof -
  let ?q = "load now (Content (concat (map journal_line rs1))) q"
  have 1: "load_lines now False (concat (map journal_line rs1)) q
      = q\<lparr>p_records := p_records q @ map journaled_record rs1, p_persisted := p_persisted q + of_nat (length rs1)\<rparr>"
    by (rule load_lines_journal) (use assms in \<open>simp_all\<close>)
  then have q: "p_records ?q = map journaled_record rs1" "p_days ?q = p_days q"
    using assms(4,5) by (simp_all add: load_def not_less)
  have ids: "r_id \<circ> journaled_record = r_id" by (rule ext) (simp add: frame)
  have times: "\<forall>x \<in> set (map journaled_record rs1). dle (cutoff now (p_days q)) (r_timestamp x)"
    using assms(1) journaled_cutoff by auto
  have "load_lines now False (concat (map journal_line rs2)) ?q
      = ?q\<lparr>p_records := p_records ?q @ map journaled_record rs2, p_persisted := p_persisted ?q + of_nat (length rs2)\<rparr>"
    by (rule load_lines_journal) (use assms(1-3) times in \<open>simp_all add: q ids image_comp\<close>)
  then show ?thesis using assms(6) q by (simp add: load_def [of now "Content (concat (map journal_line rs2))"] not_less)
qed

text \<open>A compacted journal, loaded by the next start, gives every record that was kept.\<close>

lemma compact_reload:
  assumes "compact_history now wrote p = (Some (old, new), p')" and "history_ok p"
    and "\<forall>r \<in> set (p_records p). dle (cutoff now (p_days p)) (r_timestamp r) \<longrightarrow> journal_ok now (p_days p) r"
    and "\<forall>r \<in> set (p_records p). record_strings r \<and> r_schema r \<noteq> 1"
    and "p_records q = []" and "p_days q = p_days p"
  shows "p_records (load now (Content new) (load now (Content old) q)) = map journaled_record (p_records p')"
proof -
  obtain p1 where e: "perf_export now p = (Some (old @ new), p1)" and p1: "p_records p' = p_records p1"
    using compact_segments(1) [OF assms(1)] assms(1)
    by (cases "perf_export now p") (auto simp: compact_history_def Let_def split: option.splits if_splits)
  note lines = export_lines [OF e assms(4)]
  let ?rs = "p_records p1"
  have ok: "\<forall>r \<in> set ?rs. journal_ok now (p_days q) r" using assms(3,6) by (simp add: lines(2))
  have dist: "distinct (map r_id ?rs)" "length ?rs \<le> PERF_RECORDS"
    using export_ok [OF assms(2), of now] by (simp_all add: e history_ok_def)
  have "\<forall>r \<in> set ?rs. CHR 0x0A \<notin> set (render app_esc (JObj (record_tree r)))"
    using ok record_one_line(1) by (auto simp: journal_ok_def simp del: render.simps)
  moreover have "concat (map (\<lambda>r. render app_esc (JObj (record_tree r)) @ [CHR 0x0A]) ?rs) = old @ new"
    using lines(1) by (simp add: journal_line_def [abs_def] del: render.simps)
  moreover have "new = [] \<or> old = [] \<or> last old = CHR 0x0A" using compact_segments(4) [OF assms(1)] by blast
  ultimately obtain k where k: "old = concat (map journal_line (take k ?rs))" "new = concat (map journal_line (drop k ?rs))"
  proof (cases "new = []")
    case True
    then have "old = concat (map journal_line (take (length ?rs) ?rs))" "new = concat (map journal_line (drop (length ?rs) ?rs))"
      using lines(1) by simp_all
    then show thesis by (rule that)
  next
    case False
    assume a: "\<forall>r \<in> set ?rs. CHR 0x0A \<notin> set (render app_esc (JObj (record_tree r)))"
      "concat (map (\<lambda>r. render app_esc (JObj (record_tree r)) @ [CHR 0x0A]) ?rs) = old @ new"
      "new = [] \<or> old = [] \<or> last old = CHR 0x0A"
    then have "old = [] \<or> last old = CHR 0x0A" using False by blast
    from lines_cut [OF a(2,1) this] that show thesis unfolding journal_line_def [abs_def] by blast
  qed
  have rs: "take k ?rs @ drop k ?rs = ?rs" by simp
  have "p_records (load now (Content new) (load now (Content old) q)) = map journaled_record (take k ?rs @ drop k ?rs)"
    unfolding k by (rule load_twice) (use ok dist assms(5) compact_segments(2,3) [OF assms(1)] in \<open>simp_all only: rs k\<close>)
  then show ?thesis by (simp only: rs p1)
qed

subsection \<open>Every history the application can reach\<close>

text \<open>One call into the history, at some time and with some answers of the file system.\<close>

inductive history_move :: "history \<Rightarrow> history \<Rightarrow> bool" where
  began: "history_move p (snd (perf_begin now r p))"
| submitted: "history_move p (perf_submit now r p)"
| imported: "history_move p (snd (perf_import now r p))"
| exported: "history_move p (snd (perf_export now p))"
| changed: "history_move p (snd (perf_settings now stored wrote enabled days p))"
| cleared: "history_move p (snd (perf_clear ok p))"
| wrote: "history_move p (writer_step now stored wrote cached p)"

lemma begin_ok [intr_inv]: "history_ok p \<Longrightarrow> history_ok (snd (perf_begin now r p))"
  by (simp add: perf_begin_def Let_def history_ok_def)

lemma import_ok [intr_inv]: "history_ok p \<Longrightarrow> history_ok (snd (perf_import now r p))"
  by (simp add: perf_import_def Let_def submit_ok)

lemma moves_ok [intr_inv]: "history_move p q \<Longrightarrow> history_ok p \<Longrightarrow> history_ok q"
  by (induction rule: history_move.induct) (auto intro: intr_inv)

lemma runs_ok: "history_move\<^sup>*\<^sup>* p q \<Longrightarrow> history_ok p \<Longrightarrow> history_ok q"
  by (induction rule: rtranclp_induct) (auto intro: intr_inv)

text \<open>Every round of the writer takes one record off the queue, whatever the disk answers.\<close>

lemma writer_queue: "q_len (p_queue (writer_step now stored wrote cached p)) = q_len (p_queue p) - 1"
proof -
  have q: "q_len (snd (ring_take q)) = q_len q - 1" for q :: "perf_record ring" by (simp add: ring_take_def)
  define p1 where "p1 = p\<lparr>p_queue := snd (ring_take (p_queue p))\<rparr>"
  have c: "p_queue p' = p_queue x" if "compact_history now wrote x = (res, p')" for res p' x
    using compact_frame [of now wrote x] that by simp
  have "q_len (p_queue p1) = q_len (p_queue p) - 1" by (simp add: p1_def q)
  then show ?thesis
    by (auto simp: writer_step_def Let_def p1_def [symmetric] split: prod.splits dest!: c)
qed

type_synonym round = "int \<times> bool \<times> bool \<times> bool"

definition writer_rounds :: "round list \<Rightarrow> history \<Rightarrow> history" where
  "writer_rounds = fold (\<lambda>(now, stored, wrote, cached). writer_step now stored wrote cached)"

lemma rounds_queue: "q_len (p_queue (writer_rounds rs p)) = q_len (p_queue p) - length rs"
  by (induction rs arbitrary: p) (simp_all add: writer_rounds_def writer_queue split: prod.splits)

lemma rounds_accounted: "accounted (writer_rounds rs p) = accounted p"
  by (induction rs arbitrary: p) (simp_all add: writer_rounds_def writer_accounted split: prod.splits)

end
