(* ===== verification/Policy.thy ===== *)
theory Policy
  imports Cnum
begin

section \<open>What fits this machine (src/src/app/core.c)\<close>

text \<open>
  The application's policy over the models of its catalog: the words for the runtime's verdict, how a
  measured speed changes them, and the model that is recommended for setup. The verdict itself,
  \<open>geistr_assess\<close>, is geist-runtime's and a parameter here. The catalog is a list, a model its
  index; sizes are 64-bit words.
\<close>

definition APP_GIB :: u64 where "APP_GIB = 1073741824"
definition MIB :: u64 where "MIB = 1048576"

record app_model =
  am_id :: string
  am_name :: string
  am_file :: string
  am_url :: string
  am_sha256 :: string
  am_bytes :: u64
  am_working_mib :: "32 word"
  am_recommended_ram_gib :: "32 word"
  am_backends :: "32 word"
  am_unsupported_format :: "string option"
  am_group_id :: string
  am_group_name :: string
  am_quantization :: string
  am_reasoning_format :: "string option"
  am_quality :: "string option"
  am_quality_passed :: "32 word"
  am_quality_total :: "32 word"
  am_reference :: "string option"

datatype app_device_kind = APP_UNKNOWN | APP_APPLE_SILICON | APP_PI5

record app_hardware =
  h_name :: string
  h_arch :: string
  h_os :: string
  h_device :: app_device_kind
  h_ram :: u64
  h_available :: u64
  h_disk :: u64
  h_cores :: "32 word"
  h_logical_cpus :: "32 word"
  h_supported :: bool
  h_available_known :: bool
  h_disk_known :: bool

datatype app_fit = APP_RECOMMENDED | APP_CONDITIONAL | APP_UNAVAILABLE

datatype geistr_resource = RESOURCE_FITS | RESOURCE_LIMITED | RESOURCE_REFUSED

record app_assessment =
  as_fit :: app_fit
  as_reason :: string
  as_performance :: string

record app_inventory =
  installed :: bool
  partial_bytes :: u64
  tps :: dbl

record app_recommendation =
  chosen :: "nat option"
  preferred :: nat
  source_of :: string
  why :: "string option"
  is_eligible :: bool

definition app_model_find :: "app_model list \<Rightarrow> string option \<Rightarrow> nat option" where
  "app_model_find models i = (case i of None \<Rightarrow> None | Some s \<Rightarrow> find (\<lambda>k. am_id (models ! k) = s) [0..<length models])"

subsection \<open>Words for the verdict\<close>

definition unmeasured_mac :: string where
  "unmeasured_mac = ''Fits this Mac's memory. Speed not measured yet.''"

definition unmeasured_device :: string where
  "unmeasured_device = ''No known resource restriction. Speed has not been measured on this device.''"

definition resource_texts :: "(string \<times> string) list" where
  "resource_texts =
     [(''unsupported_format'', ''This model requires PQ2_0 and Hadamard support, unavailable in the bundled engine.''),
      (''platform'', ''This CPU instruction set or platform is not supported by the bundled engine.''),
      (''disk'', ''Not enough disk space for the download plus 256 MiB reserve.''),
      (''ram'', ''RAM is smaller than the model file, before context and OS memory.''),
      (''ram_recommended'', ''Below the RAM recommendation; swapping or allocation failures are possible.''),
      (''available_ram'', ''Available RAM is tight now. Close other apps before loading this model.''),
      (''not_measured'', unmeasured_device)]"

definition app_resource_text :: "string \<Rightarrow> app_hardware \<Rightarrow> app_model \<Rightarrow> string" where
  "app_resource_text code h m =
     (if code = ''fits'' then
        (if h_device h = APP_PI5 \<and> am_id m = ''bitnet-2b''
         then ''Fits Pi 5 memory. A reference Pi 5 measured about 18 tokens/s.''
         else unmeasured_mac)
      else case map_of resource_texts code of Some t \<Rightarrow> t | None \<Rightarrow> code)"

type_synonym assessor = "app_model \<Rightarrow> app_hardware \<Rightarrow> bool \<Rightarrow> geistr_resource \<times> string"

definition app_assess :: "assessor \<Rightarrow> app_hardware \<Rightarrow> app_model \<Rightarrow> bool \<Rightarrow> app_assessment" where
  "app_assess assess h m inst =
     (case assess m h inst of
        (r, code) \<Rightarrow>
          \<lparr>as_fit = (case r of RESOURCE_FITS \<Rightarrow> APP_RECOMMENDED | RESOURCE_LIMITED \<Rightarrow> APP_CONDITIONAL | RESOURCE_REFUSED \<Rightarrow> APP_UNAVAILABLE),
           as_reason = app_resource_text code h m,
           as_performance =
             (if h_device h = APP_PI5 \<and> am_id m = ''bitnet-2b'' then ''Pi 5 reference: 17.8 tokens/s; your speed may differ.''
              else if h_device h = APP_APPLE_SILICON then ''Apple Silicon profile; run a local test for actual speed.''
              else ''Unknown on this device; measure after download.'')\<rparr>)"

subsection \<open>Measured speed\<close>

definition known_rate :: "dbl \<Rightarrow> bool" where
  "known_rate r \<longleftrightarrow> dfinite r \<and> dlt (Fin 0) r"

definition app_rate_below_target :: "dbl \<Rightarrow> bool" where
  "app_rate_below_target r \<longleftrightarrow> known_rate r \<and> dlt r (Fin 8)"

definition app_device_rate :: "dbl \<Rightarrow> bool \<Rightarrow> dbl \<Rightarrow> dbl" where
  "app_device_rate cpu_rate gpu_available gpu_rate =
     (if \<not> gpu_available then (if known_rate cpu_rate then cpu_rate else Fin 0)
      else if known_rate cpu_rate \<and> dle (Fin 8) cpu_rate then
        (if known_rate gpu_rate \<and> dlt cpu_rate gpu_rate then gpu_rate else cpu_rate)
      else if known_rate gpu_rate \<and> dle (Fin 8) gpu_rate then gpu_rate
      else if known_rate cpu_rate \<and> known_rate gpu_rate then (if dlt gpu_rate cpu_rate then cpu_rate else gpu_rate)
      else Fin 0)"

definition app_assess_device ::
    "assessor \<Rightarrow> app_hardware \<Rightarrow> app_model \<Rightarrow> bool \<Rightarrow> dbl \<Rightarrow> bool \<Rightarrow> dbl \<Rightarrow> app_assessment" where
  "app_assess_device assess h m inst cpu_rate gpu_available gpu_rate =
     (let a = app_assess assess h m inst;
          a1 = (if as_fit a = APP_RECOMMENDED \<and> app_rate_below_target (app_device_rate cpu_rate gpu_available gpu_rate)
                then a\<lparr>as_fit := APP_CONDITIONAL,
                       as_reason := ''Last replies were below 8 tokens/s on every available processor. Slower tasks remain possible.''\<rparr>
                else a);
          measured = (known_rate cpu_rate \<or> known_rate gpu_rate)
      in if measured \<and> as_reason a1 = unmeasured_mac then a1\<lparr>as_reason := ''Fits this Mac's memory. Speed measured on this Mac.''\<rparr>
         else if measured \<and> as_reason a1 = unmeasured_device then
           a1\<lparr>as_reason := ''No known resource restriction. Speed measured on this device.''\<rparr>
         else a1)"

definition strstr :: "string \<Rightarrow> string \<Rightarrow> bool" where
  "strstr s sub \<longleftrightarrow> (\<exists>i \<in> set [0..<Suc (length s)]. take (length sub) (drop i s) = sub)"

text \<open>Total memory the model asks for, in bytes.\<close>

definition ram_needed :: "app_model \<Rightarrow> u64" where
  "ram_needed m = ucast (am_recommended_ram_gib m) * APP_GIB * 95 div 100"

definition working_bytes :: "app_model \<Rightarrow> u64" where
  "working_bytes m = ucast (am_working_mib m) * MIB"

definition app_assess_observed ::
    "assessor \<Rightarrow> app_hardware \<Rightarrow> app_model \<Rightarrow> bool \<Rightarrow> dbl \<Rightarrow> app_assessment" where
  "app_assess_observed assess h m inst rate =
     (let a = app_assess assess h m inst in
      if \<not> dlt (Fin 0) rate \<or> as_fit a = APP_UNAVAILABLE then a
      else
        let a1 = a\<lparr>as_performance := ''Measured on this device in this app session; workload and temperature affect speed.''\<rparr> in
        if dlt rate (Fin 8) then
          (if as_fit a1 = APP_RECOMMENDED \<or> strstr (as_reason a1) ''not measured''
           then a1\<lparr>as_reason := ''Measured below the app's interactive target of 8 tokens/s. Still usable for patient tasks.''\<rparr>
           else a1)\<lparr>as_fit := APP_CONDITIONAL\<rparr>
        else if h_ram h \<ge> ram_needed m \<and> (\<not> h_available_known h \<or> h_available h \<ge> working_bytes m) then
          a1\<lparr>as_fit := APP_RECOMMENDED,
             as_reason := ''Memory fits and measured speed meets the app's interactive target of 8 tokens/s.''\<rparr>
        else a1)"

subsection \<open>The model to set up\<close>

definition setup_limit :: "app_hardware \<Rightarrow> app_model \<Rightarrow> app_inventory \<Rightarrow> bool \<Rightarrow> string option" where
  "setup_limit h m iv running =
     (if am_unsupported_format m \<noteq> None \<or> am_backends m = 0 then
        Some ''This model requires PQ2_0 and Hadamard support, unavailable in the bundled engine.''
      else if \<not> h_supported h then
        Some ''This CPU instruction set or platform is not supported by the bundled engine.''
      else if h_ram h = 0 \<or> \<not> h_available_known h \<or> \<not> h_disk_known h then
        Some ''Cannot check available memory or disk space. Retry the platform check.''
      else if h_ram h < ram_needed m then Some ''Not enough total RAM for this model's planning budget.''
      else if \<not> running \<and> h_available h < working_bytes m then
        Some ''Available RAM is tight now. Close other apps before loading this model.''
      else
        let remaining = am_bytes m - (if partial_bytes iv \<le> am_bytes m then partial_bytes iv else 0) in
        if \<not> installed iv \<and> (h_disk h < remaining \<or> h_disk h - remaining < 256 * MIB) then
          Some ''Not enough disk space for the download plus 256 MiB reserve.''
        else None)"

definition small_model :: "app_model list \<Rightarrow> nat" where
  "small_model models =
     fold (\<lambda>i s. if am_working_mib (models ! i) < am_working_mib (models ! s) then i else s) [1..<length models] 0"

definition slow_limit :: "app_hardware \<Rightarrow> app_model list \<Rightarrow> app_inventory list \<Rightarrow> nat \<Rightarrow> nat \<Rightarrow> string option" where
  "slow_limit h models iv second i =
     (case setup_limit h (models ! i) (iv ! i) False of
        Some l \<Rightarrow> Some l
      | None \<Rightarrow>
          if (i \<noteq> second \<and> h_cores h < 4) \<or> app_rate_below_target (tps (iv ! i))
          then Some ''Local performance is below the interactive setup target.'' else None)"

definition app_recommend ::
    "app_model list \<Rightarrow> app_hardware \<Rightarrow> app_inventory list \<Rightarrow> string option \<Rightarrow> string option \<Rightarrow> app_recommendation" where
  "app_recommend models h iv selected running =
     (let small = small_model models;
          pref = (case app_model_find models (Some (case h_device h of APP_APPLE_SILICON \<Rightarrow> ''gemma4-e2b''
                      | APP_PI5 \<Rightarrow> ''bitnet-2b'' | APP_UNKNOWN \<Rightarrow> ''smollm2-360m'')) of Some i \<Rightarrow> i | None \<Rightarrow> small)
      in case app_model_find models selected of
           Some saved \<Rightarrow>
             (let limit = setup_limit h (models ! saved) (iv ! saved) (running = Some (am_id (models ! saved))) in
              \<lparr>chosen = Some saved, preferred = pref, source_of = ''saved'',
               why = Some (case limit of Some l \<Rightarrow> l | None \<Rightarrow> ''Your model choice is kept. Select another model below.''),
               is_eligible = (limit = None)\<rparr>)
         | None \<Rightarrow>
             let second = (case app_model_find models (Some ''smollm2-360m'') of Some i \<Rightarrow> i | None \<Rightarrow> small) in
             (case slow_limit h models iv second pref of
                None \<Rightarrow> \<lparr>chosen = Some pref, preferred = pref, source_of = ''default'',
                         why = Some ''Platform default. Memory is estimated; answer quality is still unverified.'',
                         is_eligible = True\<rparr>
              | Some first \<Rightarrow>
                  (case slow_limit h models iv second second of
                     None \<Rightarrow> \<lparr>chosen = Some second, preferred = pref, source_of = ''fallback'',
                              why = Some ''A smaller model fits the available resources better.'', is_eligible = True\<rparr>
                   | Some l \<Rightarrow> \<lparr>chosen = None, preferred = pref, source_of = ''blocked'', why = Some first, is_eligible = False\<rparr>)))"

subsection \<open>What is promised\<close>

text \<open>A model is offered for setup only if this machine can hold it: the sums are those of natural
  numbers, no difference of sizes wraps.\<close>

lemma setup_limit_fits:
  assumes "setup_limit h m iv running = None"
  shows "h_supported h \<and> am_unsupported_format m = None \<and> ram_needed m \<le> h_ram h
     \<and> (running \<or> working_bytes m \<le> h_available h)
     \<and> (installed iv \<or> unat (am_bytes m) + 268435456 \<le> unat (h_disk h) + (if partial_bytes iv \<le> am_bytes m then unat (partial_bytes iv) else 0))"
proof -
  define remaining where "remaining = am_bytes m - (if partial_bytes iv \<le> am_bytes m then partial_bytes iv else 0)"
  have r: "unat remaining + (if partial_bytes iv \<le> am_bytes m then unat (partial_bytes iv) else 0) = unat (am_bytes m)"
    by (auto simp: remaining_def unat_sub word_le_nat_alt)
  have d: "installed iv \<or> (remaining \<le> h_disk h \<and> 256 * MIB \<le> h_disk h - remaining)"
    using assms by (auto simp: setup_limit_def Let_def remaining_def [symmetric] not_less split: if_splits)
  have "unat (256 * MIB) = 268435456" by (simp add: MIB_def)
  then have "remaining \<le> h_disk h \<and> 256 * MIB \<le> h_disk h - remaining \<Longrightarrow> 268435456 \<le> unat (h_disk h) - unat remaining"
    using unat_sub [of remaining "h_disk h"] by (simp add: word_le_nat_alt)
  with d r have "installed iv \<or> unat (am_bytes m) + 268435456 \<le> unat (h_disk h) + (if partial_bytes iv \<le> am_bytes m then unat (partial_bytes iv) else 0)"
    by linarith
  with assms show ?thesis by (auto simp: setup_limit_def Let_def not_less split: if_splits)
qed

lemma recommend_eligible:
  assumes "is_eligible (app_recommend models h iv selected running)"
  shows "\<exists>i. chosen (app_recommend models h iv selected running) = Some i
     \<and> setup_limit h (models ! i) (iv ! i) (app_model_find models selected = Some i \<and> running = Some (am_id (models ! i))) = None"
proof (cases "app_model_find models selected")
  case None
  define pref where "pref = (case app_model_find models (Some (case h_device h of APP_APPLE_SILICON \<Rightarrow> ''gemma4-e2b''
      | APP_PI5 \<Rightarrow> ''bitnet-2b'' | APP_UNKNOWN \<Rightarrow> ''smollm2-360m'')) of Some i \<Rightarrow> i | None \<Rightarrow> small_model models)"
  define second where "second = (case app_model_find models (Some ''smollm2-360m'') of Some i \<Rightarrow> i | None \<Rightarrow> small_model models)"
  have l: "setup_limit h (models ! i) (iv ! i) False = None" if "slow_limit h models iv second i = None" for i
    using that by (simp add: slow_limit_def split: option.splits)
  note eq = app_recommend_def [of models h iv selected running, unfolded Let_def None option.case,
      folded pref_def second_def]
  show ?thesis
  proof (cases "slow_limit h models iv second pref")
    case None
    with l [OF None] show ?thesis by (simp add: eq \<open>app_model_find models selected = None\<close>)
  next
    case (Some first)
    then have "slow_limit h models iv second second = None"
      using assms by (cases "slow_limit h models iv second second") (simp_all add: eq)
    with Some l [OF this] show ?thesis by (simp add: eq \<open>app_model_find models selected = None\<close>)
  qed
next
  case (Some saved)
  with assms show ?thesis by (simp add: app_recommend_def Let_def)
qed

lemma slow_verdict:
  assumes "app_rate_below_target (app_device_rate cpu gpu_available gpu)"
  shows "known_rate cpu \<and> dlt cpu (Fin 8) \<and> (gpu_available \<longrightarrow> known_rate gpu \<and> dlt gpu (Fin 8))"
proof -
  have n: "\<not> known_rate (Fin 0)" by (simp add: known_rate_def)
  have d: "known_rate x \<Longrightarrow> \<not> dle (Fin 8) x \<Longrightarrow> dlt x (Fin 8)" "dle (Fin 8) x \<Longrightarrow> \<not> dlt x (Fin 8)" for x
    by (cases x; auto simp: known_rate_def dfinite_def dle_def)+
  have t: "dlt a b \<Longrightarrow> dle (Fin 8) a \<Longrightarrow> \<not> dlt b (Fin 8)" for a b
    by (cases a; cases b) (auto simp: dle_def)
  from assms n d t show ?thesis by (auto simp: app_rate_below_target_def app_device_rate_def split: if_splits)
qed

lemma never_unmeasured:
  assumes "known_rate cpu \<or> known_rate gpu"
  shows "as_reason (app_assess_device assess h m inst cpu avail gpu) \<notin> {unmeasured_mac, unmeasured_device}"
proof -
  have "unmeasured_mac \<noteq> unmeasured_device" by (simp add: unmeasured_mac_def unmeasured_device_def)
  moreover have "''Fits this Mac's memory. Speed measured on this Mac.'' \<notin> {unmeasured_mac, unmeasured_device}"
    "''No known resource restriction. Speed measured on this device.'' \<notin> {unmeasured_mac, unmeasured_device}"
    by (simp_all add: unmeasured_mac_def unmeasured_device_def)
  ultimately show ?thesis using assms unfolding app_assess_device_def Let_def by auto
qed

text \<open>\<open>strstr\<close> looks for words the sentence does not have.\<close>

lemma unmeasured_words: "\<not> strstr unmeasured_device ''not measured''"
  by code_simp

lemma observed_keeps_unmeasured:
  assumes "assess m h inst = (RESOURCE_LIMITED, ''not_measured'')" and "dlt (Fin 0) rate" and "dlt rate (Fin 8)"
  shows "as_reason (app_assess_observed assess h m inst rate) = unmeasured_device"
  using assms unmeasured_words
  by (simp add: app_assess_observed_def app_assess_def app_resource_text_def resource_texts_def)

end
