(* ===== verification/Resources.thy ===== *)
theory Resources
  imports Buffers
begin

section \<open>Processor time of the engine process (src/src/app/resources.c)\<close>

text \<open>
  The parser of \<open>/proc/<pid>/stat\<close> with its checked 64-bit arithmetic, and the window over which a
  load is computed. Reading the file and the clocks is system code. Times in milliseconds are exact
  rationals.
\<close>

record app_process_sample =
  s_pid :: int
  s_identity :: u64
  s_cpu_ns :: u64
  s_rss :: u64
  s_monotonic_ms :: rat

definition no_sample :: app_process_sample where
  "no_sample = \<lparr>s_pid = 0, s_identity = 0, s_cpu_ns = 0, s_rss = 0, s_monotonic_ms = 0\<rparr>"

text \<open>\<open>strrchr\<close>: what follows the last closing parenthesis.\<close>

fun after_paren :: "string \<Rightarrow> string option" where
  "after_paren [] = None"
| "after_paren (c # cs) =
     (case after_paren cs of Some r \<Rightarrow> Some r | None \<Rightarrow> if c = CHR '')'' then Some cs else None)"

definition field_end :: "char \<Rightarrow> bool" where
  "field_end c \<longleftrightarrow> c = CHR '' '' \<or> c = CHR 0x0A"

text \<open>A field that is read: its decimal value, in 64 bits.\<close>

definition stat_value :: "string \<Rightarrow> u64 option" where
  "stat_value f =
     (if f = [] \<or> \<not> is_digit (hd f) then None
      else case digits 0 f of (n, r) \<Rightarrow> if n \<ge> 2 ^ 64 \<or> r \<noteq> [] then None else Some (of_nat n))"

text \<open>The loop over the fields; the values of those in \<open>wanted\<close>, in their order.\<close>

fun stat_fields :: "nat list \<Rightarrow> string \<Rightarrow> u64 list option" where
  "stat_fields [] p = Some []"
| "stat_fields (n # ns) p =
     (let q = dropWhile (\<lambda>c. c = CHR '' '') p;
          f = takeWhile (\<lambda>c. \<not> field_end c) q;
          rest = drop (length f) q
      in if f = [] then None
         else if n \<in> {14, 15, 22, 24} then
           (case stat_value f of
              None \<Rightarrow> None
            | Some v \<Rightarrow> map_option (Cons v) (stat_fields ns rest))
         else stat_fields ns rest)"

text \<open>The start time, resident bytes and processor time, or none for the result false.\<close>

definition app_process_parse_linux :: "string \<Rightarrow> u64 \<Rightarrow> u64 \<Rightarrow> (u64 \<times> u64 \<times> u64) option" where
  "app_process_parse_linux stat hz page =
     (case after_paren (cstr stat) of
        None \<Rightarrow> None
      | Some p \<Rightarrow>
          if p = [] \<or> hd p \<noteq> CHR '' '' \<or> hz = 0 \<or> page = 0 then None
          else
            (case stat_fields [3..<25] (tl p) of
               Some [user, system, start, pages] \<Rightarrow>
                 (case (ckd_add user system, ckd_mul pages page) of
                    (Some ticks, Some rss) \<Rightarrow>
                      (case (ckd_mul (ticks div hz) 1000000000, ckd_mul (ticks mod hz) 1000000000) of
                         (Some seconds, Some remainder) \<Rightarrow>
                           (case ckd_add seconds (remainder div hz) of
                              Some cpu \<Rightarrow> Some (start, rss, cpu)
                            | None \<Rightarrow> None)
                       | _ \<Rightarrow> None)
                  | _ \<Rightarrow> None)
             | _ \<Rightarrow> None))"

subsection \<open>The window\<close>

record app_resource_window =
  w_previous :: app_process_sample
  w_cpu_percent :: rat
  w_interval_ms :: rat
  w_cpu_known :: bool

definition no_window :: app_resource_window where
  "no_window = \<lparr>w_previous = no_sample, w_cpu_percent = 0, w_interval_ms = 0, w_cpu_known = False\<rparr>"

definition app_resource_update ::
    "app_process_sample option \<Rightarrow> nat \<Rightarrow> app_resource_window \<Rightarrow> app_resource_window" where
  "app_resource_update sample logical_cpus w =
     (case sample of
        None \<Rightarrow> no_window
      | Some s \<Rightarrow>
          if logical_cpus = 0 then no_window
          else
            let elapsed = s_monotonic_ms s - s_monotonic_ms (w_previous w) in
            if s_pid s \<noteq> s_pid (w_previous w) \<or> s_identity s \<noteq> s_identity (w_previous w)
               \<or> s_cpu_ns s < s_cpu_ns (w_previous w) \<or> elapsed < 0 \<or> elapsed > 10000
            then no_window\<lparr>w_previous := s\<rparr>
            else if elapsed < 500 then w
            else
              let percent = of_nat (unat (s_cpu_ns s - s_cpu_ns (w_previous w))) / 1000000 / elapsed / of_nat logical_cpus * 100
              in w\<lparr>w_cpu_known := True, w_cpu_percent := (if percent > 100 then 100 else percent),
                   w_interval_ms := elapsed, w_previous := s\<rparr>)"

subsection \<open>What is promised\<close>

text \<open>Splitting the ticks before multiplying loses nothing: the time is rounded down once.\<close>

lemma split_product: "n div h * m + n mod h * m div h = n * m div (h :: nat)"
proof (cases "h = 0")
  case False
  have "n * m = (n div h * m) * h + n mod h * m"
    by (metis add_mult_distrib div_mult_mod_eq mult.assoc mult.commute)
  then show ?thesis using False by (simp add: div_mult_self3)
qed simp

lemma parsed_time:
  assumes "stat_fields [3..<25] p = Some [user, sys, start, pages]" and "after_paren (cstr stat) = Some (CHR '' '' # p)"
    and "app_process_parse_linux stat hz page = Some (st, rss, cpu)"
  shows "st = start \<and> unat rss = unat pages * unat page
     \<and> unat cpu = (unat user + unat sys) * 1000000000 div unat hz"
proof -
  obtain ticks seconds remainder where t: "ckd_add user sys = Some ticks" "ckd_mul pages page = Some rss"
    "ckd_mul (ticks div hz) 1000000000 = Some seconds" "ckd_mul (ticks mod hz) 1000000000 = Some remainder"
    "ckd_add seconds (remainder div hz) = Some cpu" "st = start"
    using assms by (auto simp: app_process_parse_linux_def split: option.splits if_splits)
  have u: "unat (1000000000 :: u64) = 1000000000" by simp
  have "unat cpu = unat ticks div unat hz * 1000000000 + unat ticks mod unat hz * 1000000000 div unat hz"
    using t(3-5) by (simp add: ckd_add_Some ckd_mul_Some u unat_div unat_mod)
  then show ?thesis using t(1,2,6) by (simp add: split_product ckd_add_Some ckd_mul_Some)
qed

text \<open>A printed line is read whatever the name of the process is, parentheses and spaces included.\<close>

definition stat_word :: "string \<Rightarrow> bool" where
  "stat_word f \<longleftrightarrow> f \<noteq> [] \<and> (\<forall>c \<in> set f. \<not> field_end c \<and> c \<noteq> CHR '')'' \<and> c \<noteq> NUL)"

fun spaced :: "string list \<Rightarrow> string" where
  "spaced [] = []"
| "spaced (f # fs) = CHR '' '' # f @ spaced fs"

lemma after_paren_last: "CHR '')'' \<notin> set r \<Longrightarrow> after_paren (pre @ CHR '')'' # r) = Some r"
proof (induction pre)
  case Nil
  have "after_paren s = None" if "CHR '')'' \<notin> set s" for s using that by (induction s) auto
  with Nil show ?case by simp
qed simp

lemma word_split:
  assumes "stat_word f" and "r = [] \<or> field_end (hd r)"
  shows "takeWhile (\<lambda>c. \<not> field_end c) (f @ r) = f" and "dropWhile (\<lambda>c. c = CHR '' '') (f @ r) = f @ r"
proof -
  have "takeWhile (\<lambda>c. \<not> field_end c) r = []" using assms(2) by (cases r) auto
  then show "takeWhile (\<lambda>c. \<not> field_end c) (f @ r) = f" using assms(1) by (subst takeWhile_append2) (auto simp: stat_word_def)
  obtain c cs where "f = c # cs" "c \<noteq> CHR '' ''" using assms(1) by (cases f) (auto simp: stat_word_def field_end_def)
  then show "dropWhile (\<lambda>c. c = CHR '' '') (f @ r) = f @ r" by simp
qed

lemma spaced_hd: "spaced fs @ tail = [] \<or> field_end (hd (spaced fs @ tail))" if "tail = [] \<or> field_end (hd tail)"
  using that by (cases fs) (auto simp: field_end_def)

lemma stat_fields_spaced:
  assumes "length ns \<le> length fs" and "\<forall>f \<in> set fs. stat_word f" and "tail = [] \<or> field_end (hd tail)"
    and "\<forall>(n, f) \<in> set (zip ns fs). n \<in> {14, 15, 22, 24} \<longrightarrow> stat_value f \<noteq> None"
  shows "stat_fields ns (spaced fs @ tail)
     = Some (map (\<lambda>(n, f). the (stat_value f)) (filter (\<lambda>(n, f). n \<in> {14, 15, 22, 24}) (zip ns fs)))"
  using assms
proof (induction ns arbitrary: fs)
  case (Cons n ns)
  obtain f fs' where fs: "fs = f # fs'" using Cons.prems(1) by (cases fs) auto
  have w: "stat_word f" using Cons.prems(2) by (simp add: fs)
  note s = word_split [OF w spaced_hd [OF Cons.prems(3)]]
  have ih: "stat_fields ns (spaced fs' @ tail)
      = Some (map (\<lambda>(n, f). the (stat_value f)) (filter (\<lambda>(n, f). n \<in> {14, 15, 22, 24}) (zip ns fs')))"
    using Cons.prems by (intro Cons.IH) (auto simp: fs)
  have "f \<noteq> []" using w by (simp add: stat_word_def)
  moreover have "n \<in> {14, 15, 22, 24} \<Longrightarrow> \<exists>v. stat_value f = Some v" using Cons.prems(4) by (auto simp: fs)
  ultimately show ?case using ih by (auto simp: fs s Let_def)
qed simp

lemma stat_value_dec: "n < 2 ^ 64 \<Longrightarrow> stat_value (dec n) = Some (of_nat n)"
  using digits_dec [of "[]" n] dec_hd [of n] dec_nonempty [of n] by (simp add: stat_value_def)

lemma parse_printed:
  assumes "length fs = 21" and "\<forall>f \<in> set (st # fs). stat_word f"
    and "fs ! 10 = dec (unat user)" and "fs ! 11 = dec (unat sys)" and "fs ! 18 = dec (unat start)" and "fs ! 20 = dec (unat pages)"
    and "NUL \<notin> set pre" and "tail = [] \<or> field_end (hd tail)" and "CHR '')'' \<notin> set tail" and "NUL \<notin> set tail"
  shows "after_paren (cstr (pre @ CHR '')'' # spaced (st # fs) @ tail)) = Some (CHR '' '' # st @ spaced fs @ tail)
     \<and> stat_fields [3..<25] (st @ spaced fs @ tail) = Some [user, sys, start, pages]"
proof
  have sp: "CHR '')'' \<notin> set (spaced gs)" "NUL \<notin> set (spaced gs)" if "\<forall>f \<in> set gs. stat_word f" for gs
    using that by (induction gs) (auto simp: stat_word_def)
  have "NUL \<notin> set (pre @ CHR '')'' # spaced (st # fs) @ tail)" using sp [OF assms(2)] assms(7,10) by auto
  moreover have "CHR '')'' \<notin> set (spaced (st # fs) @ tail)" using sp [OF assms(2)] assms(9) by auto
  ultimately show "after_paren (cstr (pre @ CHR '')'' # spaced (st # fs) @ tail)) = Some (CHR '' '' # st @ spaced fs @ tail)"
    by (simp add: cstr_id after_paren_last del: spaced.simps) simp
  have z: "zip [3..<25] (st # fs) = map (\<lambda>i. (i + 3, (st # fs) ! i)) [0..<22]"
  proof -
    have "zip [a..<a + length xs] xs = map (\<lambda>i. (i + a, xs ! i)) [0..<length xs]" for a and xs :: "string list"
      by (intro nth_equalityI) (simp_all add: add.commute)
    moreover have "length (st # fs) = 22" "(3 :: nat) + 22 = 25" by (simp_all add: assms(1))
    ultimately show ?thesis by metis
  qed
  have u: "[0..<22] = [0, 1, 2, 3, 4, 5, 6, 7, 8, 9, 10, 11, 12, 13, 14, 15, 16, 17, 18, 19, 20, 21 :: nat]" by code_simp
  have flt: "filter (\<lambda>(n, f). n \<in> {14, 15, 22, 24}) (zip [3..<25] (st # fs))
      = [(14, fs ! 10), (15, fs ! 11), (22, fs ! 18), (24, fs ! 20)]"
    unfolding z u by simp
  have v: "stat_value (dec (unat w)) = Some w" for w :: u64
    using stat_value_dec [of "unat w"] unsigned_less [of w] by simp
  have "stat_fields [3..<25] (spaced (st # fs) @ tail) = Some [user, sys, start, pages]"
  proof -
    have "stat_value f \<noteq> None" if "(n, f) \<in> set (zip [3..<25] (st # fs))" "n \<in> {14, 15, 22, 24}" for n f
    proof -
      have "(n, f) \<in> set (filter (\<lambda>(n, f). n \<in> {14, 15, 22, 24}) (zip [3..<25] (st # fs)))"
        using that unfolding set_filter mem_Collect_eq prod.case by (rule conjI)
      then show ?thesis unfolding flt by (auto simp: assms v)
    qed
    then have "\<forall>(n, f) \<in> set (zip [3..<25] (st # fs)). n \<in> {14, 15, 22, 24} \<longrightarrow> stat_value f \<noteq> None" by blast
    moreover have "length [3..<25] \<le> length (st # fs)" using assms(1) by simp
    ultimately have "stat_fields [3..<25] (spaced (st # fs) @ tail)
        = Some (map (\<lambda>(n, f). the (stat_value f)) (filter (\<lambda>(n, f). n \<in> {14, 15, 22, 24}) (zip [3..<25] (st # fs))))"
      using stat_fields_spaced [OF _ assms(2,8)] by blast
    then show ?thesis unfolding flt by (simp only: list.map prod.case assms v option.sel)
  qed
  moreover have "dropWhile (\<lambda>c. c = CHR '' '') (CHR '' '' # st @ r) = dropWhile (\<lambda>c. c = CHR '' '') (st @ r)" for r by simp
  ultimately show "stat_fields [3..<25] (st @ spaced fs @ tail) = Some [user, sys, start, pages]"
    by (simp add: upt_conv_Cons Let_def)
qed

text \<open>The load is a percentage, and a reader who comes again at once sees the same window.\<close>

lemma update_percent:
  "0 \<le> w_cpu_percent w \<and> w_cpu_percent w \<le> 100 \<Longrightarrow>
     0 \<le> w_cpu_percent (app_resource_update s n w) \<and> w_cpu_percent (app_resource_update s n w) \<le> 100"
  by (auto simp: app_resource_update_def no_window_def Let_def not_less simp del: of_nat_unat split: option.splits)

lemma update_new_process:
  assumes "s_pid s \<noteq> s_pid (w_previous w) \<or> s_identity s \<noteq> s_identity (w_previous w)"
  shows "\<not> w_cpu_known (app_resource_update (Some s) n w)"
  using assms by (auto simp: app_resource_update_def no_window_def Let_def)

lemma update_rapid:
  assumes "n \<noteq> 0" and "s_pid s = s_pid (w_previous w)" and "s_identity s = s_identity (w_previous w)"
    and "s_cpu_ns (w_previous w) \<le> s_cpu_ns s" and "s_monotonic_ms (w_previous w) \<le> s_monotonic_ms s"
    and "s_monotonic_ms s < s_monotonic_ms (w_previous w) + 500"
  shows "app_resource_update (Some s) n w = w"
  using assms by (auto simp: app_resource_update_def Let_def)

end
