(* ===== verification/AppSamples.thy ===== *)
theory AppSamples
  imports History Policy Resources
begin

section \<open>Concrete inputs of the application\<close>

text \<open>
  One observation as the application makes it, a history without and with it, and empty buffers: the
  inputs at which the properties of the journal are instantiated. Then a catalog of one model, a
  device, and a line of \<open>/proc/<pid>/stat\<close>.
\<close>

definition record0 :: perf_record where
  "record0 =
     \<lparr>r_schema = 2, r_memory = app_memory_reset,
      r_engine = \<lparr>e_version = ''0.4'', e_revision = [], e_source_state = ''unknown'', e_payload = []\<rparr>,
      r_id = ''1-1'', r_model = ''bitnet-2b'', r_artifact = ''ab'', r_quantization = ''TQ2_0'', r_series = ''s'',
      r_backend = ''cpu'', r_source = ''app'', r_outcome = ''completed'', r_finish = ''stop'', r_run = [],
      r_timestamp = Fin 1000, r_generation_ns = Fin 2000000000, r_first_ns = Fin 5, r_first_answer_ns = Fin 5,
      r_total_ns = Fin 2000000000, r_prefill_ns = Fin 4, r_load_ns = Fin (-1), r_rss = Fin (-1), r_peak_rss = Fin (-1),
      r_cpu_percent = Fin 50, r_input = 12, r_output = 34, r_reused = 0, r_epoch = 1, r_max_tokens = 256, r_threads = 4,
      r_samples = 2, r_temperature = Fin 0, r_top_p = Fin 1, r_cold = False, r_contention = False, r_warmup = False,
      r_enabled = True, r_reasoning = False\<rparr>"

definition history0 :: history where
  "history0 =
     \<lparr>p_started = True, p_closing = False, p_enabled = True, p_error = False, p_legacy_deleted = False, p_expired = False,
      p_compacted = 0, p_days = 90, p_epoch = 1, p_sequence = 1, p_dropped = 0, p_persisted = 0, p_invalid = 0, p_boot = 7,
      p_records = [], p_queue = \<lparr>q_slots = replicate PERF_QUEUE record0, q_head = 0, q_len = 0\<rparr>\<rparr>"

lemma valid_record0: "perf_valid 1000 record0"
  by (simp add: perf_valid_def record0_def app_engine_valid_def strnlen_def cstr_def isalnum_def perf_token_def
      between_def hour_ns_def dle_def dfinite_def app_memory_valid_def app_memory_reset_def Let_def)

lemma strings_record0: "record_strings record0"
  by (simp add: record_strings_def record0_def engine_strings_def app_memory_reset_def)

lemma survives_nat: "n < 10 ^ 17 \<Longrightarrow> survives (Fin (of_nat n))"
  by (simp add: survives_def reads_back_nat)

lemma survives_record0: "record_survives record0"
  using survives_nat [of 0] survives_nat [of 1] survives_nat [of 4] survives_nat [of 5] survives_nat [of 50]
    survives_nat [of 1000] survives_nat [of 2000000000] survives_neg
  by (simp add: record_survives_def record0_def memory_survives_def app_memory_reset_def)

lemma num_nat: "n < 10 ^ 17 \<Longrightarrow> num_text (Fin (of_nat n)) = dec n"
  by (simp add: num_text_Fin general17_nat)

lemma num_none: "num_text (Fin (-1)) = ''null''"
  by (simp add: num_text_def)

lemma length_record0: "length (render app_esc (JObj (record_tree record0))) < 2000"
  using num_nat [of 0] num_nat [of 1] num_nat [of 4] num_nat [of 5] num_nat [of 50]
    num_nat [of 1000] num_nat [of 2000000000]
  by (simp add: record0_def record_tree_def engine_tree_def engine_lib_def memory_tree_def num_none app_memory_reset_def
    or_null_def yes_no_def quoted_def app_esc_def rss_reason_def gpu_reason_def rss_text_def dle_def dec.simps)

lemma journal_record0: "journal_ok 1000 90 record0"
  using length_record0
  by (simp add: journal_ok_def valid_record0 strings_record0 survives_record0 LINE_CAP_def)
    (simp add: record0_def cutoff_def dle_def)

definition buffer0 :: "nat \<Rightarrow> app_buffer" where
  "buffer0 n = \<lparr>b_data = [], b_len = 0, b_cap = n, b_failed = False\<rparr>"

lemma buffer_ok: "0 < n \<Longrightarrow> n < 2 ^ 31 \<Longrightarrow> buf_ok (buffer0 n)"
  by (simp add: buf_ok_def buffer0_def)

lemma record0_fits: "\<not> b_failed (record_json record0 (buffer0 4096))"
proof -
  have "r_schema record0 \<noteq> 1" by (simp add: record0_def)
  from writesD(3) [OF writes_record [OF strings_record0 this] buffer_ok [of 4096]] length_record0
  show ?thesis by (simp add: buffer0_def del: render.simps)
qed

definition history1 :: history where
  "history1 = history0\<lparr>p_records := [record0]\<rparr>"

lemma history1_ok: "history_ok history0" "history_ok history1"
  by (simp_all add: history_ok_def history1_def history0_def PERF_RECORDS_def ring_ok_def PERF_QUEUE_def)

lemma compact_history1:
  "\<exists>old new p'. compact_history 1000 True history1 = (Some (old, new), p') \<and> p_records p' = [record0]"
proof -
  have kept: "filter (\<lambda>x. dle (cutoff 1000 90) (r_timestamp x)) [record0] = [record0]"
    by (simp add: record0_def cutoff_def dle_def)
  have s: "r_schema record0 \<noteq> 1" by (simp add: record0_def)
  have ok: "buf_ok (buffer0 (2 * SEGMENT_BYTES))" by (rule buffer_ok) (simp_all add: SEGMENT_BYTES_def)
  note w = writesD [OF writes_record [OF strings_record0 s] ok]
  have f: "\<not> b_failed (record_json record0 (buffer0 (2 * SEGMENT_BYTES)))"
    using w(3) length_record0 by (simp add: buffer0_def SEGMENT_BYTES_def del: render.simps)
  have d: "b_data (record_json record0 (buffer0 (2 * SEGMENT_BYTES))) = journal_line record0"
    using w(4) [OF f] by (simp add: buffer0_def journal_line_def)
  have e: "perf_export 1000 history1 = (Some (journal_line record0), history1)"
    using f d kept by (simp add: perf_export_def history1_def history0_def buffer0_def)
  have "length (journal_line record0) \<le> SEGMENT_BYTES"
    using length_record0 by (simp add: journal_line_def SEGMENT_BYTES_def del: render.simps)
  then show ?thesis by (simp add: compact_history_def e split_at_def Let_def) (simp add: history1_def)
qed

subsection \<open>A device, a model, a process\<close>

definition model0 :: app_model where
  "model0 = \<lparr>am_id = ''smollm2-360m'', am_name = ''SmolLM2'', am_file = ''m.gguf'', am_url = [], am_sha256 = [],
     am_bytes = 400 * 1048576, am_working_mib = 900, am_recommended_ram_gib = 2, am_backends = 1,
     am_unsupported_format = None, am_group_id = [], am_group_name = [], am_quantization = ''Q8_0'',
     am_reasoning_format = None, am_quality = None, am_quality_passed = 0, am_quality_total = 0, am_reference = None\<rparr>"

definition device0 :: app_hardware where
  "device0 = \<lparr>h_name = ''pc'', h_arch = ''x86_64'', h_os = ''Linux'', h_device = APP_UNKNOWN, h_ram = 8 * APP_GIB,
     h_available = 4 * APP_GIB, h_disk = 100 * APP_GIB, h_cores = 8, h_logical_cpus = 16, h_supported = True,
     h_available_known = True, h_disk_known = True\<rparr>"

definition inventory0 :: app_inventory where
  "inventory0 = \<lparr>installed = False, partial_bytes = 0, tps = Fin 0\<rparr>"

lemma recommend_model0:
  "is_eligible (app_recommend [model0] device0 [inventory0] None None)"
  "chosen (app_recommend [model0] device0 [inventory0] None None) = Some 0"
  by (simp_all add: app_recommend_def app_model_find_def slow_limit_def setup_limit_def model0_def device0_def
      inventory0_def APP_GIB_def MIB_def ram_needed_def working_bytes_def small_model_def app_rate_below_target_def known_rate_def)

definition stat0_fields :: "string list" where
  "stat0_fields = [''1'', ''1'', ''1'', ''1'', ''1'', ''1'', ''1'', ''1'', ''1'', ''1'', ''5'', ''7'', ''0'', ''0'', ''0'',
     ''0'', ''0'', ''0'', ''9'', ''0'', ''3'']"

definition stat0 :: string where
  "stat0 = ''1 (a) b'' @ CHR '')'' # spaced (''S'' # stat0_fields) @ []"

lemma stat0_words: "length stat0_fields = 21" "\<forall>f \<in> set (''S'' # stat0_fields). stat_word f"
  by (simp_all add: stat0_fields_def stat_word_def field_end_def)

lemma stat0_values:
  "stat0_fields ! 10 = dec (unat (5 :: u64))" "stat0_fields ! 11 = dec (unat (7 :: u64))"
  "stat0_fields ! 18 = dec (unat (9 :: u64))" "stat0_fields ! 20 = dec (unat (3 :: u64))"
  by (simp_all add: stat0_fields_def dec.simps char_of_def bit_0)

lemma parse_stat0: "\<exists>s rss cpu. app_process_parse_linux stat0 100 4096 = Some (s, rss, cpu)"
proof -
  have "NUL \<notin> set ''1 (a) b''" by simp
  from parse_printed [OF stat0_words stat0_values this, of "[]"]
  have "after_paren (cstr stat0) = Some (CHR '' '' # ''S'' @ spaced stat0_fields)"
    "stat_fields [3..<25] (''S'' @ spaced stat0_fields) = Some [5, 7, 9, 3]"
    by (simp_all only: stat0_def append_Nil2) simp_all
  then show ?thesis by (simp add: app_process_parse_linux_def ckd_add_def ckd_mul_def del: append.simps upt_rec_numeral)
qed

end
