(* ===== verification/Activity.thy ===== *)
theory Activity
  imports Engine
begin

section \<open>What the application is doing (src/src/app/activity.c)\<close>

text \<open>
  The trace of one activity: begun, moved from stage to stage, its progress counted, ended once. The
  caller holds the lock, so each function is one step; \<open>act_step\<close> is the relation of what a caller
  can do and \<open>act_inv\<close> the invariant of every trace it can reach. Times are doubles in milliseconds.
\<close>

datatype activity_stage = ACT_NONE | ACT_RECEIPT | ACT_HASH | ACT_DOWNLOAD | ACT_STOPPING | ACT_STARTING | ACT_LOADING
  | ACT_BACKEND | ACT_MODEL | ACT_METADATA | ACT_WARMUP | ACT_READY | ACT_CONNECT | ACT_OPEN | ACT_TOKENIZE
  | ACT_PREFILL | ACT_GENERATE | ACT_PREPARING | ACT_ANSWER

definition activity_stages :: "activity_stage list" where
  "activity_stages = [ACT_NONE, ACT_RECEIPT, ACT_HASH, ACT_DOWNLOAD, ACT_STOPPING, ACT_STARTING, ACT_LOADING,
     ACT_BACKEND, ACT_MODEL, ACT_METADATA, ACT_WARMUP, ACT_READY, ACT_CONNECT, ACT_OPEN, ACT_TOKENIZE,
     ACT_PREFILL, ACT_GENERATE, ACT_PREPARING, ACT_ANSWER]"

definition activity_names :: "string list" where
  "activity_names = [''idle'', ''receipt'', ''hash'', ''download'', ''stopping'', ''starting'', ''loading'', ''backend'',
     ''model'', ''metadata'', ''warmup'', ''ready'', ''connect'', ''open'', ''tokenize'', ''prefill'', ''generate'',
     ''preparing'', ''answer'']"

definition activity_name :: "activity_stage \<Rightarrow> string" where
  "activity_name st = (case map_of (zip activity_stages activity_names) st of Some n \<Rightarrow> n | None \<Rightarrow> ''unknown'')"

text \<open>The stages a request can report, by name.\<close>

definition activity_request_stage :: "string option \<Rightarrow> activity_stage" where
  "activity_request_stage name =
     (case name of
        None \<Rightarrow> ACT_NONE
      | Some s \<Rightarrow>
          (case find (\<lambda>i. activity_names ! i = s) [12..<17] of
             Some i \<Rightarrow> activity_stages ! i
           | None \<Rightarrow> ACT_NONE))"

definition ACTIVITY_PHASES :: nat where
  "ACTIVITY_PHASES = 16"

record activity_phase =
  ph_stage :: activity_stage
  ph_start :: rat
  ph_duration :: rat

record activity =
  ac_id :: u64
  ac_generation :: u64
  ac_sequence :: u64
  ac_progress :: u64
  ac_started :: rat
  ac_event_at :: rat
  ac_ended :: rat
  ac_stage :: activity_stage
  ac_outcome :: string
  ac_backend :: string
  ac_model :: string
  ac_error :: int
  ac_phase :: "activity_phase list"
  ac_engine :: app_engine

text \<open>Nothing begun yet.\<close>

definition no_activity :: activity where
  "no_activity = \<lparr>ac_id = 0, ac_generation = 0, ac_sequence = 0, ac_progress = 0, ac_started = 0, ac_event_at = 0,
     ac_ended = 0, ac_stage = ACT_NONE, ac_outcome = [], ac_backend = [], ac_model = [], ac_error = 0, ac_phase = [],
     ac_engine = no_engine\<rparr>"

definition activity_begin :: "u64 \<Rightarrow> u64 \<Rightarrow> activity_stage \<Rightarrow> rat \<Rightarrow> activity" where
  "activity_begin i gen stage now =
     no_activity\<lparr>ac_id := i, ac_generation := gen, ac_sequence := 1, ac_started := now, ac_event_at := now,
       ac_stage := stage, ac_phase := [\<lparr>ph_stage = stage, ph_start = now, ph_duration = 0\<rparr>]\<rparr>"

text \<open>The last phase with its duration.\<close>

definition close_phase :: "rat \<Rightarrow> activity_phase list \<Rightarrow> activity_phase list" where
  "close_phase now ps = ps[length ps - 1 := (ps ! (length ps - 1))\<lparr>ph_duration := now - ph_start (ps ! (length ps - 1))\<rparr>]"

definition activity_step :: "u64 \<Rightarrow> u64 \<Rightarrow> activity_stage \<Rightarrow> rat \<Rightarrow> activity \<Rightarrow> bool \<times> activity" where
  "activity_step i gen stage now a =
     (if ac_id a = 0 \<or> ac_id a \<noteq> i \<or> ac_generation a \<noteq> gen \<or> ac_outcome a \<noteq> [] \<or> stage = ACT_NONE
         \<or> ac_stage a = stage \<or> now < ac_event_at a then (False, a)
      else if length (ac_phase a) \<ge> ACTIVITY_PHASES then (False, a)
      else (True, a\<lparr>ac_phase := close_phase now (ac_phase a) @ [\<lparr>ph_stage = stage, ph_start = now, ph_duration = 0\<rparr>],
                    ac_stage := stage, ac_event_at := now, ac_sequence := ac_sequence a + 1\<rparr>))"

definition activity_progress :: "u64 \<Rightarrow> rat \<Rightarrow> activity \<Rightarrow> activity" where
  "activity_progress progress now a =
     (if ac_id a = 0 \<or> ac_outcome a \<noteq> [] \<or> progress \<le> ac_progress a \<or> now < ac_event_at a then a
      else a\<lparr>ac_progress := progress, ac_event_at := now, ac_sequence := ac_sequence a + 1\<rparr>)"

text \<open>The outcome is cut to its 16 bytes.\<close>

definition activity_end :: "string \<Rightarrow> int \<Rightarrow> rat \<Rightarrow> activity \<Rightarrow> bool \<times> activity" where
  "activity_end outcome err now a =
     (if ac_id a = 0 \<or> ac_outcome a \<noteq> [] \<or> now < ac_event_at a then (False, a)
      else (True, a\<lparr>ac_ended := now, ac_event_at := now, ac_error := err, ac_sequence := ac_sequence a + 1,
                    ac_phase := close_phase now (ac_phase a), ac_outcome := take 15 (cstr outcome)\<rparr>))"

definition activity_json :: "activity \<Rightarrow> rat \<Rightarrow> bool \<Rightarrow> app_buffer \<Rightarrow> app_buffer" where
  \<open>activity_json a now alive =
     (if ac_id a = 0 then app_put ''null''
      else
        let fin = (if ac_outcome a \<noteq> [] then ac_ended a else now);
            final = ac_phase a ! (length (ac_phase a) - 1);
            ms = (\<lambda>x. printf_f 3 (Fin x))
        in stmts
          ([app_printf (''{"id":'' @ dec (unat (ac_id a)) @ '',"generation":'' @ dec (unat (ac_generation a))
              @ '',"sequence":'' @ dec (unat (ac_sequence a)) @ '',"stage":''),
            app_quote (activity_name (ac_stage a)),
            app_printf ('',"elapsed_ms":'' @ ms (fin - ac_started a) @ '',"stage_elapsed_ms":'' @ ms (fin - ph_start final)
              @ '',"event_age_ms":'' @ ms (now - ac_event_at a) @ '',"runtime_alive":'' @ (if alive then ''true'' else ''false'')
              @ '',"progress_events":'' @ dec (unat (ac_progress a)) @ '',"error_code":'' @ deci (ac_error a) @ '',"outcome":''),
            app_quote (ac_outcome a),
            app_put '',"backend":'', app_quote (ac_backend a), app_put '',"model":'', app_quote (ac_model a),
            app_put '',"engine":'', app_engine_json (ac_engine a), app_put '',"phases":['']
           @ concat (map (\<lambda>i.
               (if i > 0 then [app_put '','' ] else [])
               @ [app_put ''{"stage":'', app_quote (activity_name (ph_stage (ac_phase a ! i))),
                  app_printf ('',"offset_ms":'' @ ms (ph_start (ac_phase a ! i) - ac_started a) @ '',"duration_ms":''
                    @ ms (if i + 1 = length (ac_phase a) \<and> ac_outcome a = [] then now - ph_start (ac_phase a ! i)
                          else ph_duration (ac_phase a ! i)) @ ''}'')]) [0..<length (ac_phase a)])
           @ [app_put '']}'']))\<close>

subsection \<open>Every trace a caller can make\<close>

inductive act_move :: "activity \<Rightarrow> activity \<Rightarrow> bool" where
  stepped: "act_move a (snd (activity_step i gen stage now a))"
| progressed: "act_move a (activity_progress n now a)"
| ended: "act_move a (snd (activity_end outcome err now a))"

inductive_cases act_moveE: "act_move a b"

inductive act_reach :: "activity \<Rightarrow> bool" where
  begun: "i \<noteq> 0 \<Longrightarrow> act_reach (activity_begin i gen stage now)"
| moved: "act_reach a \<Longrightarrow> act_move a b \<Longrightarrow> act_reach b"

text \<open>The phases follow each other without a gap from the start to the current one, and are never
  more than the trace has room for.\<close>

fun contiguous :: "activity_phase list \<Rightarrow> bool" where
  "contiguous (p # q # ps) \<longleftrightarrow> ph_start p + ph_duration p = ph_start q \<and> 0 \<le> ph_duration p \<and> contiguous (q # ps)"
| "contiguous ps \<longleftrightarrow> True"

definition act_inv :: "activity \<Rightarrow> bool" where
  "act_inv a \<longleftrightarrow> ac_id a \<noteq> 0 \<and> ac_phase a \<noteq> [] \<and> length (ac_phase a) \<le> ACTIVITY_PHASES \<and> contiguous (ac_phase a)
     \<and> ph_start (hd (ac_phase a)) = ac_started a \<and> ph_stage (last (ac_phase a)) = ac_stage a
     \<and> ph_start (last (ac_phase a)) \<le> ac_event_at a
     \<and> (ac_outcome a \<noteq> [] \<longrightarrow> ac_ended a = ph_start (last (ac_phase a)) + ph_duration (last (ac_phase a)) \<and> 0 \<le> ph_duration (last (ac_phase a)))"

lemma close_phase_snoc: "close_phase now (ps @ [p]) = ps @ [p\<lparr>ph_duration := now - ph_start p\<rparr>]"
  by (simp add: close_phase_def)

lemma contiguous_snoc:
  "contiguous (ps @ [p, q]) \<longleftrightarrow> contiguous (ps @ [p]) \<and> ph_start p + ph_duration p = ph_start q \<and> 0 \<le> ph_duration p"
proof (induction ps)
  case (Cons x ps)
  then show ?case by (cases ps) auto
qed simp

lemma contiguous_last: "contiguous (ps @ [p]) \<Longrightarrow> ph_start p' = ph_start p \<Longrightarrow> contiguous (ps @ [p'])"
proof (induction ps)
  case (Cons x ps)
  then show ?case by (cases ps) auto
qed simp

lemma act_inv_move [intr_inv]:
  assumes "act_inv a" and "act_move a b"
  shows "act_inv b"
proof -
  obtain ps p where ps: "ac_phase a = ps @ [p]" using assms(1) by (metis act_inv_def rev_exhaust)
  have hd: "ph_start (hd (ps @ [p\<lparr>ph_duration := d\<rparr>])) = ph_start (hd (ps @ [p]))" for d by (cases ps) auto
  have hd2: "ph_start (hd (ps @ [p\<lparr>ph_duration := d\<rparr>, q])) = ph_start (hd (ps @ [p]))" for d q by (cases ps) auto
  have inv: "contiguous (ps @ [p])" "ph_start p \<le> ac_event_at a" using assms(1) by (auto simp: act_inv_def ps)
  have c: "contiguous (ps @ [p\<lparr>ph_duration := d\<rparr>])" for d using contiguous_last [OF inv(1)] by simp
  show ?thesis
    using assms(2)
  proof cases
    case (stepped i gen stage now)
    have "contiguous (ps @ [p\<lparr>ph_duration := now - ph_start p\<rparr>, \<lparr>ph_stage = stage, ph_start = now, ph_duration = 0\<rparr>])"
      if "\<not> now < ac_event_at a"
      using c that inv(2) by (subst contiguous_snoc) simp
    with assms(1) stepped show ?thesis
      by (auto simp: activity_step_def act_inv_def ps close_phase_snoc hd2 simp del: contiguous.simps)
  next
    case (progressed n now)
    with assms(1) show ?thesis by (auto simp: activity_progress_def act_inv_def)
  next
    case (ended outcome err now)
    with assms(1) c inv(2) show ?thesis
      by (auto simp: activity_end_def act_inv_def ps close_phase_snoc hd simp del: contiguous.simps)
  qed
qed

lemma act_reach_inv: "act_reach a \<Longrightarrow> act_inv a"
proof (induction rule: act_reach.induct)
  case (begun i gen stage now)
  then show ?case by (simp add: act_inv_def activity_begin_def no_activity_def ACTIVITY_PHASES_def)
next
  case (moved a b)
  then show ?case using act_inv_move by blast
qed

text \<open>An ended activity does not change any more, unless its outcome was the empty text.\<close>

lemma ended_final: "ac_outcome a \<noteq> [] \<Longrightarrow> act_move a b \<Longrightarrow> b = a"
  by (auto elim!: act_moveE simp: activity_step_def activity_progress_def activity_end_def)

text \<open>The sequence counts the accepted moves.\<close>

lemma move_sequence: "act_move a b \<Longrightarrow> b = a \<or> ac_sequence b = ac_sequence a + 1"
  by (auto elim!: act_moveE simp: activity_step_def activity_progress_def activity_end_def)

text \<open>A request's stage name is read back as the stage.\<close>

lemma request_stage_name:
  assumes "st \<in> {ACT_CONNECT, ACT_OPEN, ACT_TOKENIZE, ACT_PREFILL, ACT_GENERATE}"
  shows "activity_request_stage (Some (activity_name st)) = st"
proof -
  have "\<forall>s \<in> {ACT_CONNECT, ACT_OPEN, ACT_TOKENIZE, ACT_PREFILL, ACT_GENERATE}. activity_request_stage (Some (activity_name s)) = s"
    by code_simp
  with assms show ?thesis by blast
qed

end
