(* ===== verification/Request.thy ===== *)
theory Request
  imports Buffers Cnum
begin

section \<open>Requests to the application (src/src/app/request.c)\<close>

text \<open>
  The reader of one HTTP request, its caps and its checks of the headers that a browser sets, the
  comparison of the key, and the bytes of a response. A socket is the list of what arrives: bytes in
  pieces of any size, the end of the connection (or the shutdown of the application), or the deadline.
  The request is the value the reader returns, or the status it answers with.
\<close>

definition HEADER_CAP :: nat where "HEADER_CAP = 8192"
definition REQUEST_CAP :: nat where "REQUEST_CAP = 32768"

record request =
  rq_method :: string
  rq_path :: string
  rq_host :: string
  rq_origin :: string
  rq_auth :: string
  rq_body :: string

definition no_request :: request where
  "no_request = \<lparr>rq_method = [], rq_path = [], rq_host = [], rq_origin = [], rq_auth = [], rq_body = []\<rparr>"

definition CRLF :: string where
  "CRLF = [CHR 0x0D, CHR 0x0A]"

subsection \<open>The bytes\<close>

datatype arrival = Bytes string | Gone | Late

text \<open>One \<open>request_recv\<close>: at most \<open>n\<close> bytes, or the status the caller answers with. No bytes is a poll
  that found nothing.\<close>

fun request_recv :: "nat \<Rightarrow> arrival list \<Rightarrow> (nat + string) \<times> arrival list" where
  "request_recv n [] = (Inl 400, [])"
| "request_recv n (Gone # as) = (Inl 400, as)"
| "request_recv n (Late # as) = (Inl 408, as)"
| "request_recv n (Bytes s # as) =
     (if s = [] then request_recv n as
      else (Inr (take n s), if length s > n then Bytes (drop n s) # as else as))"

lemma recv_length: "request_recv n as = (Inr s, as') \<Longrightarrow> 0 < n \<Longrightarrow> 0 < length s \<and> length s \<le> n"
  by (induction n as rule: request_recv.induct) (auto split: if_splits)

lemma recv_shrinks:
  assumes "(Inr s, as') = request_recv (n - k) as" and "k < n"
  shows "n - (k + length s) < n - k"
proof -
  have "0 < length s" using recv_length [OF assms(1) [symmetric]] assms(2) by simp
  with assms(2) show ?thesis by linarith
qed

text \<open>Where \<open>sub\<close> begins in \<open>s\<close>, as \<open>strstr\<close> finds it.\<close>

fun find_sub :: "string \<Rightarrow> string \<Rightarrow> nat option" where
  "find_sub sub [] = (if sub = [] then Some 0 else None)"
| "find_sub sub (c # s) = (if take (length sub) (c # s) = sub then Some 0 else map_option Suc (find_sub sub s))"

text \<open>The loop until the empty line: the bytes read and where the empty line begins.\<close>

function read_head :: "string \<Rightarrow> arrival list \<Rightarrow> nat + (string \<times> nat \<times> arrival list)" where
  "read_head head as =
     (case find_sub (CRLF @ CRLF) (cstr head) of
        Some e \<Rightarrow> Inr (head, e, as)
      | None \<Rightarrow>
          if length head \<ge> HEADER_CAP then Inl 431
          else (case request_recv (HEADER_CAP - length head) as of
              (Inl st, as') \<Rightarrow> Inl st
            | (Inr s, as') \<Rightarrow> read_head (head @ s) as'))"
  by pat_completeness auto
termination
  by (relation "measure (\<lambda>(head, as). HEADER_CAP - length head)") (auto dest: recv_shrinks)

declare read_head.simps [simp del]

subsection \<open>The request line\<close>

definition isspace :: "char \<Rightarrow> bool" where
  "isspace c \<longleftrightarrow> c = CHR '' '' \<or> (9 \<le> byte c \<and> byte c \<le> 13)"

text \<open>\<open>%<n>s\<close> of \<open>sscanf\<close>.\<close>

definition scan_word :: "nat \<Rightarrow> string \<Rightarrow> (string \<times> string) option" where
  "scan_word n s =
     (let t = dropWhile isspace s; w = take n (takeWhile (\<lambda>c. \<not> isspace c) t)
      in if w = [] then None else Some (w, drop (length w) t))"

definition scan_request_line :: "string \<Rightarrow> (string \<times> string \<times> string) option" where
  "scan_request_line s =
     (case scan_word 7 s of
        None \<Rightarrow> None
      | Some (meth, s1) \<Rightarrow>
          (case scan_word 255 s1 of
             None \<Rightarrow> None
           | Some (path, s2) \<Rightarrow>
               (case scan_word 15 s2 of
                  None \<Rightarrow> None
                | Some (version, s3) \<Rightarrow>
                    if dropWhile isspace s3 = [] then Some (meth, path, version) else None)))"

subsection \<open>The header lines\<close>

definition blank :: "char \<Rightarrow> bool" where
  "blank c \<longleftrightarrow> c = CHR '' '' \<or> c = CHR 0x09"

definition header_value :: "nat \<Rightarrow> string \<Rightarrow> string \<Rightarrow> string option" where
  "header_value cap out s =
     (let v = rev (dropWhile blank (rev (dropWhile blank s)))
      in if length v \<ge> cap \<or> out \<noteq> [] then None else Some v)"

text \<open>\<open>strncasecmp(line, key, strlen(key)) == 0\<close>.\<close>

definition has_key :: "string \<Rightarrow> string \<Rightarrow> bool" where
  "has_key key line \<longleftrightarrow> length key \<le> length line \<and> map lower (take (length key) line) = map lower key"

fun content_digits :: "nat \<Rightarrow> string \<Rightarrow> nat + nat" where
  "content_digits n [] = Inr n"
| "content_digits n (c # s) =
     (if byte c < 48 \<or> byte c > 57 then Inl 400
      else if n * 10 + (byte c - 48) > REQUEST_CAP then Inl 413
      else content_digits (n * 10 + (byte c - 48)) s)"

definition content_length :: "string \<Rightarrow> nat + nat" where
  "content_length s =
     (let t = dropWhile (\<lambda>c. c = CHR '' '') s in if t = [] then Inl 400 else content_digits 0 t)"

type_synonym head = "request \<times> nat option"

definition header_line :: "string \<Rightarrow> head \<Rightarrow> nat + head" where
  "header_line line st =
     (case st of (r, len) \<Rightarrow>
        if has_key ''Host:'' line then
          (case header_value 128 (rq_host r) (drop 5 line) of None \<Rightarrow> Inl 400 | Some v \<Rightarrow> Inr (r\<lparr>rq_host := v\<rparr>, len))
        else if has_key ''Origin:'' line then
          (case header_value 160 (rq_origin r) (drop 7 line) of None \<Rightarrow> Inl 400 | Some v \<Rightarrow> Inr (r\<lparr>rq_origin := v\<rparr>, len))
        else if has_key ''Authorization:'' line then
          (case header_value 128 (rq_auth r) (drop 14 line) of None \<Rightarrow> Inl 400 | Some v \<Rightarrow> Inr (r\<lparr>rq_auth := v\<rparr>, len))
        else if has_key ''Transfer-Encoding:'' line then Inl 400
        else if has_key ''Content-Length:'' line then
          (if len \<noteq> None then Inl 400
           else case content_length (drop 15 line) of Inl st \<Rightarrow> Inl st | Inr n \<Rightarrow> Inr (r, Some n))
        else Inr (r, len))"

text \<open>The lines between the request line and the empty line; the last one ends where the empty line begins.\<close>

function header_lines :: "string \<Rightarrow> head \<Rightarrow> nat + head" where
  "header_lines t st =
     (if t = [] then Inr st
      else
        let n = the (find_sub CRLF (t @ CRLF)) in
        case header_line (take n t) st of
          Inl code \<Rightarrow> Inl code
        | Inr st' \<Rightarrow> header_lines (drop (n + 2) t) st')"
  by pat_completeness auto
termination
  by (relation "measure (\<lambda>(t, st). length t)") (auto simp: length_greater_0_conv [symmetric] simp del: length_greater_0_conv)

declare header_lines.simps [simp del]

subsection \<open>Where it comes from\<close>

fun port_value :: "nat \<Rightarrow> string \<Rightarrow> nat option" where
  "port_value v [] = Some v"
| "port_value v (c # s) =
     (if byte c < 48 \<or> byte c > 57 \<or> v > 6553 then None else port_value (v * 10 + (byte c - 48)) s)"

definition loopback_host :: "string \<Rightarrow> bool" where
  "loopback_host host =
     (let port = (if take 10 host = ''127.0.0.1:'' \<or> take 10 host = ''localhost:'' then drop 10 host else [])
      in port \<noteq> [] \<and> (case port_value 0 port of None \<Rightarrow> False | Some v \<Rightarrow> 0 < v \<and> v \<le> 65535))"

text \<open>What the reader asks of the headers before the body, on a TCP connection.\<close>

definition local_origin :: "request \<Rightarrow> bool" where
  "local_origin r \<longleftrightarrow> loopback_host (rq_host r)
     \<and> (rq_origin r = [] \<or> rq_origin r = take 159 (''http://'' @ rq_host r))"

subsection \<open>The whole request\<close>

function read_body :: "nat \<Rightarrow> string \<Rightarrow> arrival list \<Rightarrow> nat + string" where
  "read_body len body as =
     (if length body \<ge> len then Inr body
      else (case request_recv (len - length body) as of
          (Inl st, as') \<Rightarrow> Inl st
        | (Inr s, as') \<Rightarrow> read_body len (body @ s) as'))"
  by pat_completeness auto
termination
  by (relation "measure (\<lambda>(len, body, as). len - length body)") (auto dest: recv_shrinks)

declare read_body.simps [simp del]

text \<open>From the bytes before the empty line to the request without its body, and the length of the body.\<close>

definition parse_head :: "bool \<Rightarrow> string \<Rightarrow> nat + (request \<times> nat)" where
  "parse_head unix_socket h =
     (let line = the (find_sub CRLF (h @ CRLF)) in
      case scan_request_line (take line h) of
        None \<Rightarrow> Inl 400
      | Some (meth, path, version) \<Rightarrow>
          if version \<noteq> ''HTTP/1.1'' \<and> version \<noteq> ''HTTP/1.0'' then Inl 400
          else
            (case header_lines (drop (line + 2) h) (no_request\<lparr>rq_method := meth, rq_path := path\<rparr>, None) of
               Inl st \<Rightarrow> Inl st
             | Inr (r, clen) \<Rightarrow>
                 if \<not> unix_socket \<and> \<not> local_origin r then Inl 403
                 else Inr (r, case clen of None \<Rightarrow> 0 | Some n \<Rightarrow> n)))"

definition read_request :: "bool \<Rightarrow> app_arena \<Rightarrow> arrival list \<Rightarrow> (nat + request) \<times> app_arena" where
  "read_request unix_socket arena as =
     (let (head, a1) = app_alloc 16 (of_nat HEADER_CAP + 1) 1 1 arena;
          (body, a2) = app_alloc 16 (of_nat REQUEST_CAP + 1) 1 1 a1
      in (if head = None \<or> body = None then Inl 503
          else case read_head [] as of
            Inl st \<Rightarrow> Inl st
          | Inr (got, e, as1) \<Rightarrow>
              (case parse_head unix_socket (take e got) of
                 Inl st \<Rightarrow> Inl st
               | Inr (r, len) \<Rightarrow>
                   (case read_body len (take len (drop (e + 4) got)) as1 of
                      Inl st \<Rightarrow> Inl st
                    | Inr b \<Rightarrow> if NUL \<in> set b then Inl 400 else Inr (r\<lparr>rq_body := b\<rparr>))), a2))"

subsection \<open>The key\<close>

unbundle bit_operations_syntax

definition authorized :: "string \<Rightarrow> request \<Rightarrow> bool" where
  "authorized key r =
     (let expected = take 79 (''Bearer '' @ key) in
      length (rq_auth r) = length expected
      \<and> foldl (\<lambda>acc i. acc OR (byte (rq_auth r ! i) XOR byte (expected ! i))) 0 [0..<length expected] = (0 :: nat))"

subsection \<open>Responses\<close>

definition crlf :: "string \<Rightarrow> string" where
  "crlf s = s @ CRLF"

text \<open>The header of a response; none if it does not fit its 1024 bytes.\<close>

definition response_header :: "nat \<Rightarrow> string \<Rightarrow> nat \<Rightarrow> string option" where
  "response_header status type n =
     (let h = crlf (''HTTP/1.1 '' @ dec status @ '' Response'') @ crlf (''Content-Type: '' @ type)
            @ crlf (''Content-Length: '' @ dec n) @ crlf ''Connection: close'' @ crlf ''Cache-Control: no-store''
            @ crlf ''X-Content-Type-Options: nosniff'' @ crlf ''Referrer-Policy: no-referrer''
            @ crlf (''Content-Security-Policy: default-src 'none'; script-src 'self'; style-src 'self'; ''
                    @ ''connect-src 'self'; img-src 'self' data:; base-uri 'none'; frame-ancestors 'none'; ''
                    @ ''form-action 'self'' @ [CHR 0x27]) @ CRLF
      in if length h < 1024 then Some h else None)"

definition response :: "nat \<Rightarrow> string \<Rightarrow> string \<Rightarrow> string" where
  "response status type body =
     (case response_header status type (length body) of None \<Rightarrow> [] | Some h \<Rightarrow> h @ body)"

definition error_body :: "string \<Rightarrow> app_buffer" where
  \<open>error_body message = stmts [app_put ''{"error":'', app_quote message, app_put ''}'']
     \<lparr>b_data = [], b_len = 0, b_cap = 1024, b_failed = False\<rparr>\<close>

definition error_response :: "nat \<Rightarrow> string \<Rightarrow> string" where
  "error_response code message = response code ''application/json'' (take (b_len (error_body message)) (b_data (error_body message)))"

subsection \<open>Searching\<close>

lemma find_sub_Some:
  "find_sub sub s = Some n \<longleftrightarrow>
     n \<le> length s \<and> take (length sub) (drop n s) = sub \<and> (\<forall>m < n. take (length sub) (drop m s) \<noteq> sub)"
proof (induction s arbitrary: n)
  case Nil
  then show ?case by auto
next
  case (Cons c s)
  show ?case
  proof (cases n)
    case 0
    then show ?thesis by simp
  next
    case (Suc k)
    then show ?thesis using Cons.IH [of k] by (auto simp: less_Suc_eq_0_disj)
  qed
qed

lemma find_sub_None: "find_sub sub s = None \<longleftrightarrow> (\<forall>m \<le> length s. take (length sub) (drop m s) \<noteq> sub)"
  by (induction s) (simp_all add: less_Suc_eq_le [symmetric] All_less_Suc2 del: Suc_less_eq)

lemma find_sub_fits: "find_sub sub s = Some n \<Longrightarrow> n + length sub \<le> length s"
proof -
  assume "find_sub sub s = Some n"
  then have "length (take (length sub) (drop n s)) = length sub" "n \<le> length s" by (auto simp: find_sub_Some)
  then show ?thesis by simp
qed

text \<open>A place found stays the first one when more follows.\<close>

lemma find_sub_more: "find_sub sub s = Some n \<Longrightarrow> find_sub sub (s @ t) = Some n"
proof -
  assume f: "find_sub sub s = Some n"
  from find_sub_fits [OF f] f show ?thesis
    by (auto simp: find_sub_Some)
qed

lemma cstr_append: "cstr (s @ t) = (if NUL \<in> set s then cstr s else s @ cstr t)"
  by (auto simp: cstr_def takeWhile_append)

lemma find_cstr_more: "find_sub sub (cstr s) = Some n \<Longrightarrow> find_sub sub (cstr (s @ t)) = Some n"
  by (auto simp: cstr_append cstr_id find_sub_more)

subsection \<open>Pieces do not matter\<close>

fun arrived :: "arrival list \<Rightarrow> string" where
  "arrived (Bytes s # as) = s @ arrived as"
| "arrived as = []"

fun ending :: "arrival list \<Rightarrow> nat" where
  "ending (Bytes s # as) = ending as"
| "ending (Late # as) = 408"
| "ending as = 400"

lemma recv_arrived:
  "0 < n \<Longrightarrow> (case request_recv n as of
      (Inl st, as') \<Rightarrow> arrived as = [] \<and> st = ending as
    | (Inr s, as') \<Rightarrow> arrived as = s @ arrived as' \<and> ending as' = ending as \<and> 0 < length s \<and> length s \<le> n)"
  by (induction n as rule: request_recv.induct) (auto split: sum.splits prod.splits)

definition head_cut :: "string \<Rightarrow> nat \<Rightarrow> nat + nat" where
  "head_cut all st =
     (case find_sub (CRLF @ CRLF) (cstr (take HEADER_CAP all)) of
        Some e \<Rightarrow> Inr e
      | None \<Rightarrow> Inl (if length all \<ge> HEADER_CAP then 431 else st))"

lemma read_head_cut:
  assumes "length head \<le> HEADER_CAP"
  shows "case read_head head as of
      Inl st \<Rightarrow> head_cut (head @ arrived as) (ending as) = Inl st
    | Inr (got, e, as') \<Rightarrow> head_cut (head @ arrived as) (ending as) = Inr e \<and> ending as' = ending as
        \<and> got @ arrived as' = head @ arrived as \<and> find_sub (CRLF @ CRLF) (cstr got) = Some e \<and> length got \<le> HEADER_CAP"
  using assms
proof (induction head as rule: read_head.induct)
  case (1 head as)
  show ?case
  proof (cases "find_sub (CRLF @ CRLF) (cstr head)")
    case (Some e)
    have "take HEADER_CAP (head @ arrived as) = head @ take (HEADER_CAP - length head) (arrived as)" using 1(2) by simp
    then show ?thesis using Some find_cstr_more [OF Some] 1(2) by (simp add: read_head.simps [of head] head_cut_def)
  next
    case None
    show ?thesis
    proof (cases "HEADER_CAP \<le> length head")
      case True
      then show ?thesis using None 1(2) by (simp add: read_head.simps [of head] head_cut_def)
    next
      case False
      then have r: "case request_recv (HEADER_CAP - length head) as of
          (Inl st, as') \<Rightarrow> arrived as = [] \<and> st = ending as
        | (Inr s, as') \<Rightarrow> arrived as = s @ arrived as' \<and> ending as' = ending as \<and> 0 < length s \<and> length s \<le> HEADER_CAP - length head"
        using recv_arrived [of "HEADER_CAP - length head" as] by simp
      show ?thesis
      proof (cases "request_recv (HEADER_CAP - length head) as")
        case (Pair x as')
        show ?thesis
        proof (cases x)
          case (Inl st)
          with r Pair None False show ?thesis by (simp add: read_head.simps [of head] head_cut_def)
        next
          case (Inr s)
          with r Pair have a: "arrived as = s @ arrived as'" "ending as' = ending as" "length (head @ s) \<le> HEADER_CAP"
            using False by auto
          have st: "read_head head as = read_head (head @ s) as'"
            using None False Pair Inr by (simp add: read_head.simps [of head])
          from 1(1) [OF None False Pair [symmetric] Inr a(3)] a(1,2) show ?thesis
            by (simp add: st split: sum.splits prod.splits)
        qed
      qed
    qed
  qed
qed

lemma read_body_cut:
  assumes "length body \<le> len"
  shows "read_body len body as =
     (if len \<le> length (body @ arrived as) then Inr (take len (body @ arrived as)) else Inl (ending as))"
  using assms
proof (induction len body as rule: read_body.induct)
  case (1 len body as)
  show ?case
  proof (cases "length body \<ge> len")
    case True
    then show ?thesis using 1(2) by (simp add: read_body.simps [of "length body" body])
  next
    case False
    then have r: "case request_recv (len - length body) as of
        (Inl st, as') \<Rightarrow> arrived as = [] \<and> st = ending as
      | (Inr s, as') \<Rightarrow> arrived as = s @ arrived as' \<and> ending as' = ending as \<and> 0 < length s \<and> length s \<le> len - length body"
      using recv_arrived [of "len - length body" as] by simp
    show ?thesis
    proof (cases "request_recv (len - length body) as")
      case (Pair x as')
      show ?thesis
      proof (cases x)
        case (Inl st)
        with r Pair False show ?thesis by (simp add: read_body.simps [of len body])
      next
        case (Inr s)
        with r Pair have a: "arrived as = s @ arrived as'" "ending as' = ending as" "length (body @ s) \<le> len"
          using False by auto
        have st: "read_body len body as = read_body len (body @ s) as'"
          using False Pair Inr by (simp add: read_body.simps [of len body])
        from 1(1) [OF False Pair [symmetric] Inr a(3)] a(1,2) show ?thesis by (simp add: st)
      qed
    qed
  qed
qed

text \<open>What all the bytes say at once.\<close>

definition request_of :: "bool \<Rightarrow> string \<Rightarrow> nat \<Rightarrow> nat + request" where
  "request_of unix_socket all st =
     (case head_cut all st of
        Inl c \<Rightarrow> Inl c
      | Inr e \<Rightarrow>
          (case parse_head unix_socket (take e all) of
             Inl c \<Rightarrow> Inl c
           | Inr (r, len) \<Rightarrow>
               (let b = take len (drop (e + 4) all) in
                if length b < len then Inl st
                else if NUL \<in> set b then Inl 400 else Inr (r\<lparr>rq_body := b\<rparr>))))"

lemma read_request_of:
  assumes "app_alloc 16 (of_nat HEADER_CAP + 1) 1 1 arena = (Some h0, a1)" and "app_alloc 16 (of_nat REQUEST_CAP + 1) 1 1 a1 = (Some b0, a2)"
  shows "fst (read_request u arena as) = request_of u (arrived as) (ending as)"
proof -
  obtain h b where h: "app_alloc 16 (of_nat HEADER_CAP + 1) 1 1 arena = (h, a1)" and b: "app_alloc 16 (of_nat REQUEST_CAP + 1) 1 1 a1 = (b, a2)"
    and mem: "h = Some h0" "b = Some b0" using assms by blast
  note cut = read_head_cut [of "[]" as, simplified]
  show ?thesis
  proof (cases "read_head [] as")
    case (Inl st)
    then show ?thesis using cut mem by (simp add: read_request_def h b request_of_def)
  next
    case (Inr x)
    obtain got e as' where x: "x = (got, e, as')" by (cases x) auto
    have c: "head_cut (arrived as) (ending as) = Inr e" "ending as' = ending as" "got @ arrived as' = arrived as"
      "find_sub (CRLF @ CRLF) (cstr got) = Some e"
      using cut by (simp_all add: Inr x)
    have "e + 4 \<le> length (cstr got)" using find_sub_fits [OF c(4)] by (simp add: CRLF_def)
    then have l: "e + 4 \<le> length got" using length_cstr_le [of got] by linarith
    have t: "take e (arrived as) = take e got" and d: "drop (e + 4) (arrived as) = drop (e + 4) got @ arrived as'"
      using l by (simp_all add: c(3) [symmetric])
    show ?thesis
    proof (cases "parse_head u (take e got)")
      case (Inl st)
      then show ?thesis using mem by (simp add: read_request_def h b request_of_def Inr x c t \<open>read_head [] as = Inr x\<close>)
    next
      case (Inr y)
      obtain r len where y: "y = (r, len)" by (cases y)
      define b' where "b' = take len (drop (e + 4) (arrived as))"
      have "read_body len (take len (drop (e + 4) got)) as' = (if length b' < len then Inl (ending as) else Inr b')"
        using read_body_cut [of "take len (drop (e + 4) got)" len as'] by (auto simp: c(2) b'_def d min_def)
      then show ?thesis
        using mem by (simp add: read_request_def h b request_of_def Inr y c t b'_def [symmetric] \<open>read_head [] as = Inr x\<close> x
          del: length_take)
    qed
  qed
qed

subsection \<open>What a request that is let in is like\<close>

definition fields_ok :: "request \<Rightarrow> bool" where
  "fields_ok r \<longleftrightarrow> length (rq_method r) \<le> 7 \<and> length (rq_path r) \<le> 255 \<and> length (rq_host r) < 128
     \<and> length (rq_origin r) < 160 \<and> length (rq_auth r) < 128"

definition head_ok :: "head \<Rightarrow> bool" where
  "head_ok st \<longleftrightarrow> fields_ok (fst st) \<and> (\<forall>n. snd st = Some n \<longrightarrow> n \<le> REQUEST_CAP)"

lemma content_digits_le: "content_digits n s = Inr m \<Longrightarrow> n \<le> REQUEST_CAP \<Longrightarrow> m \<le> REQUEST_CAP"
  by (induction n s rule: content_digits.induct) (auto split: if_splits)

lemma header_value_short: "header_value cap out s = Some v \<Longrightarrow> length v < cap \<and> out = []"
  by (auto simp: header_value_def Let_def split: if_splits)

lemma header_line_ok [intr_inv]: "head_ok st \<Longrightarrow> header_line line st = Inr st' \<Longrightarrow> head_ok st'"
  by (auto simp: header_line_def head_ok_def fields_ok_def content_length_def Let_def
      dest: header_value_short content_digits_le split: prod.splits if_splits option.splits sum.splits)

lemma header_lines_ok [intr_inv]: "head_ok st \<Longrightarrow> header_lines t st = Inr st' \<Longrightarrow> head_ok st'"
proof (induction t st rule: header_lines.induct)
  case (1 t st)
  from 1(3) show ?case
    using 1(1,2) header_line_ok [OF 1(2)]
    by (subst (asm) header_lines.simps) (auto simp: Let_def split: if_splits sum.splits)
qed

lemma scan_word_short: "scan_word n s = Some (w, r) \<Longrightarrow> length w \<le> n"
  by (auto simp: scan_word_def Let_def split: if_splits)

lemma parse_head_ok:
  assumes "parse_head u h = Inr (r, len)"
  shows "fields_ok r \<and> len \<le> REQUEST_CAP \<and> (u \<or> local_origin r)"
proof -
  obtain meth path clen where w: "length meth \<le> 7" "length path \<le> 255"
    and l: "header_lines (drop (the (find_sub CRLF (h @ CRLF)) + 2) h) (no_request\<lparr>rq_method := meth, rq_path := path\<rparr>, None) = Inr (r, clen)"
    and r: "u \<or> local_origin r" "len = (case clen of None \<Rightarrow> 0 | Some n \<Rightarrow> n)"
    using assms
    by (fastforce simp: parse_head_def Let_def scan_request_line_def dest: scan_word_short
        split: option.splits prod.splits if_splits sum.splits)
  have "head_ok (no_request\<lparr>rq_method := meth, rq_path := path\<rparr>, None)"
    using w by (simp add: head_ok_def fields_ok_def no_request_def)
  from header_lines_ok [OF this l] r show ?thesis by (auto simp: head_ok_def split: option.splits)
qed

lemma request_of_ok:
  assumes "request_of u all st = Inr r"
  shows "fields_ok r \<and> length (rq_body r) \<le> REQUEST_CAP \<and> NUL \<notin> set (rq_body r) \<and> (u \<or> local_origin r)"
proof -
  obtain e r0 len where "parse_head u (take e all) = Inr (r0, len)"
    and r: "r = r0\<lparr>rq_body := take len (drop (e + 4) all)\<rparr>" "NUL \<notin> set (take len (drop (e + 4) all))"
    using assms by (auto simp: request_of_def Let_def split: sum.splits prod.splits if_splits)
  from parse_head_ok [OF this(1)] r show ?thesis by (auto simp: fields_ok_def local_origin_def)
qed

lemma authorized_iff: "length key \<le> 72 \<Longrightarrow> authorized key r \<longleftrightarrow> rq_auth r = ''Bearer '' @ key"
  unfolding authorized_def Let_def using xor_fold_eq [of "rq_auth r" "take 79 (''Bearer '' @ key)"] by auto

text \<open>A local host is a loopback name and a port from 1 to 65535 in decimal digits.\<close>

definition digit_value :: "string \<Rightarrow> nat" where
  "digit_value s = foldl (\<lambda>v c. v * 10 + (byte c - 48)) 0 s"

lemma digit_value_grows: "v \<le> foldl (\<lambda>v c. v * 10 + (byte c - 48)) v s"
proof (induction s arbitrary: v)
  case (Cons c s)
  show ?case using Cons.IH [of "v * 10 + (byte c - 48)"] by simp
qed simp

definition decimal :: "string \<Rightarrow> bool" where
  "decimal s \<longleftrightarrow> (\<forall>c \<in> set s. 48 \<le> byte c \<and> byte c \<le> 57)"

lemma port_value_Some:
  assumes "w \<le> 65535"
  shows "port_value v s = Some w \<longleftrightarrow> decimal s \<and> foldl (\<lambda>v c. v * 10 + (byte c - 48)) v s = w"
proof (induction s arbitrary: v)
  case (Cons c s)
  let ?v = "v * 10 + (byte c - 48)"
  show ?case
  proof (cases "v > 6553")
    case True
    then have "foldl (\<lambda>v c. v * 10 + (byte c - 48)) ?v s \<noteq> w" using digit_value_grows [of ?v s] assms by linarith
    with True show ?thesis by simp
  next
    case False
    then have "port_value v (c # s) = Some w \<longleftrightarrow> (48 \<le> byte c \<and> byte c \<le> 57) \<and> port_value ?v s = Some w"
      by (simp add: not_less)
    then show ?thesis by (simp only: Cons.IH decimal_def list.set ball_simps foldl.simps conj_assoc)
  qed
qed (simp add: decimal_def)

lemma loopback_host_iff:
  "loopback_host h \<longleftrightarrow>
     (\<exists>port. (h = ''127.0.0.1:'' @ port \<or> h = ''localhost:'' @ port) \<and> decimal port
        \<and> 1 \<le> digit_value port \<and> digit_value port \<le> 65535)"
proof -
  define good where "good port \<longleftrightarrow> decimal port \<and> 1 \<le> digit_value port \<and> digit_value port \<le> 65535" for port
  have split: "take 10 h = p \<and> good (drop 10 h) \<longleftrightarrow> (\<exists>port. h = p @ port \<and> good port)" if "length p = 10" for p
    using that by (metis append_eq_conv_conj append_take_drop_id)
  have v: "(case port_value 0 port of None \<Rightarrow> False | Some v \<Rightarrow> 0 < v \<and> v \<le> 65535) \<longleftrightarrow> good port" for port
  proof (cases "port_value 0 port")
    case None
    then show ?thesis using port_value_Some [of "digit_value port" 0 port] by (auto simp: good_def digit_value_def)
  next
    case (Some w)
    then show ?thesis
      using port_value_Some [of w 0 port] port_value_Some [of "digit_value port" 0 port]
      by (cases "w \<le> 65535") (auto simp: good_def digit_value_def)
  qed
  have ne: "good port \<Longrightarrow> port \<noteq> []" for port by (auto simp: good_def digit_value_def)
  have "loopback_host h \<longleftrightarrow> (take 10 h = ''127.0.0.1:'' \<and> good (drop 10 h)) \<or> (take 10 h = ''localhost:'' \<and> good (drop 10 h))"
    using ne [of "drop 10 h"] unfolding loopback_host_def Let_def v by (simp split: if_split) blast
  then show ?thesis
    unfolding split [of "''127.0.0.1:''", simplified] split [of "''localhost:''", simplified]
    unfolding good_def append_Cons append_Nil by blast
qed

subsection \<open>A written request\<close>

text \<open>The request a client of the interface writes.\<close>

definition request_head :: "string \<Rightarrow> string \<Rightarrow> string \<Rightarrow> string \<Rightarrow> nat \<Rightarrow> string" where
  "request_head meth path host key n =
     crlf (meth @ '' '' @ path @ '' HTTP/1.1'') @ crlf (''Host: '' @ host) @ crlf (''Authorization: Bearer '' @ key)
     @ crlf (''Content-Length: '' @ dec n)"

definition request_bytes :: "string \<Rightarrow> string \<Rightarrow> string \<Rightarrow> string \<Rightarrow> string \<Rightarrow> string" where
  "request_bytes meth path host key body = request_head meth path host key (length body) @ CRLF @ body"

definition word_ok :: "nat \<Rightarrow> string \<Rightarrow> bool" where
  "word_ok n w \<longleftrightarrow> w \<noteq> [] \<and> length w \<le> n \<and> (\<forall>c \<in> set w. \<not> isspace c \<and> c \<noteq> NUL)"

lemma not_space: "\<not> isspace c \<Longrightarrow> c \<noteq> CHR 0x0D \<and> c \<noteq> CHR 0x0A \<and> \<not> blank c"
  by (auto simp: isspace_def blank_def)

lemma find_line: "CHR 0x0D \<notin> set l \<Longrightarrow> find_sub CRLF (l @ CRLF @ r) = Some (length l)"
  by (induction l) (auto simp: CRLF_def)

lemma find_empty_line:
  assumes "CHR 0x0D \<notin> set l" and "r \<noteq> []" and "hd r \<noteq> CHR 0x0D"
  shows "find_sub (CRLF @ CRLF) (l @ CRLF @ r) = map_option (\<lambda>n. length l + 2 + n) (find_sub (CRLF @ CRLF) r)"
  using assms
proof (induction l)
  case Nil
  then obtain c r' where "r = c # r'" "c \<noteq> CHR 0x0D" by (cases r) auto
  then show ?case by (cases "find_sub (CRLF @ CRLF) r") (auto simp: CRLF_def)
next
  case (Cons c l)
  have "c \<noteq> CHR 0x0D" using Cons.prems(1) by auto
  moreover have "find_sub (CRLF @ CRLF) (l @ CRLF @ r) = map_option (\<lambda>n. length l + 2 + n) (find_sub (CRLF @ CRLF) r)"
    using Cons by simp
  ultimately show ?case
    by (cases "find_sub (CRLF @ CRLF) r") (simp_all add: CRLF_def)
qed

lemma header_lines_step:
  assumes "CHR 0x0D \<notin> set l" and "l \<noteq> []"
  shows "header_lines (crlf l @ t) st = (case header_line l st of Inl c \<Rightarrow> Inl c | Inr st' \<Rightarrow> header_lines t st')"
proof -
  have "find_sub CRLF ((crlf l @ t) @ CRLF) = Some (length l)" using find_line [OF assms(1), of "t @ CRLF"] by (simp add: crlf_def)
  moreover have "take (length l) (crlf l @ t) = l" "drop (length l + 2) (crlf l @ t) = t"
    by (simp_all add: crlf_def CRLF_def)
  moreover have "crlf l @ t \<noteq> []" using assms(2) by (simp add: crlf_def)
  ultimately show ?thesis by (subst header_lines.simps) (simp only: Let_def option.sel if_False)
qed

lemma header_lines_last:
  assumes "CHR 0x0D \<notin> set l" and "l \<noteq> []"
  shows "header_lines l st = header_line l st"
proof -
  have "find_sub CRLF (l @ CRLF) = Some (length l)" using find_line [OF assms(1), of "[]"] by simp
  then show ?thesis using assms(2)
    by (subst header_lines.simps) (simp add: Let_def header_lines.simps [of "[]"] split: sum.splits)
qed

lemma scan_word_ok:
  assumes "word_ok n w" and "r = [] \<or> isspace (hd r)"
  shows "scan_word n (w @ r) = Some (w, r)" and "scan_word n (CHR '' '' # w @ r) = Some (w, r)"
proof -
  have w: "w \<noteq> []" "length w \<le> n" "0 < n" using assms(1) by (cases w; auto simp: word_ok_def)+
  have sp: "isspace (CHR '' '')" by (simp add: isspace_def)
  have "dropWhile isspace (w @ r) = w @ r" using assms(1) by (cases w) (auto simp: word_ok_def)
  moreover have "takeWhile (\<lambda>c. \<not> isspace c) (w @ r) = w"
    using assms by (cases r) (auto simp: word_ok_def takeWhile_append)
  ultimately show "scan_word n (w @ r) = Some (w, r)" "scan_word n (CHR '' '' # w @ r) = Some (w, r)"
    using sp w by (simp_all add: scan_word_def)
qed

lemma value_of_word:
  assumes "\<forall>c \<in> set v. \<not> isspace c" and "v \<noteq> []" and "length v < cap"
  shows "header_value cap [] (CHR '' '' # v) = Some v"
proof -
  have h: "\<not> blank (hd v)" "\<not> blank (last v)" using assms(1,2) not_space by auto
  have "dropWhile blank (CHR '' '' # v) = v" using h(1) assms(2) by (cases v) (auto simp: blank_def [of "CHR '' ''"])
  moreover have "dropWhile blank (rev v) = rev v" using h(2) assms(2) by (cases v rule: rev_cases) auto
  ultimately show ?thesis using assms(3) by (simp add: header_value_def)
qed

lemma digits_grow: "n \<le> fst (digits n s)"
proof (induction s arbitrary: n)
  case (Cons c s)
  from Cons.IH [of "n * 10 + digit_val c"] show ?case by auto
qed simp

lemma content_digits_value:
  "list_all is_digit s \<Longrightarrow> fst (digits n s) \<le> REQUEST_CAP \<Longrightarrow> content_digits n s = Inr (fst (digits n s))"
proof (induction s arbitrary: n)
  case (Cons c s)
  have "n * 10 + digit_val c \<le> REQUEST_CAP"
    using digits_grow [of "n * 10 + digit_val c" s] Cons.prems by simp
  with Cons show ?case by (simp add: is_digit_def digit_val_def)
qed simp

lemma content_length_dec: "n \<le> REQUEST_CAP \<Longrightarrow> content_length (CHR '' '' # dec n) = Inr n"
proof -
  assume n: "n \<le> REQUEST_CAP"
  have "hd (dec n) \<noteq> CHR '' ''" using dec_hd [of n] by (auto simp: is_digit_def)
  then have "dropWhile (\<lambda>c. c = CHR '' '') (CHR '' '' # dec n) = dec n" using dec_nonempty [of n] by (cases "dec n") auto
  then show ?thesis
    using content_digits_value [OF dec_digits, of 0 n] n dec_nonempty [of n] by (simp add: content_length_def digits_dec_value)
qed

lemma word_okD: "word_ok n w \<Longrightarrow> CHR 0x0D \<notin> set w \<and> NUL \<notin> set w \<and> w \<noteq> [] \<and> length w \<le> n \<and> (\<forall>c \<in> set w. \<not> isspace c)"
  by (auto simp: word_ok_def dest: not_space)

lemma dec_plain: "CHR 0x0D \<notin> set (dec n) \<and> NUL \<notin> set (dec n)"
  using dec_digits [of n] by (auto simp: list_all_iff is_digit_def)

lemma header_line_written:
  "rq_host r = [] \<Longrightarrow> word_ok 127 host \<Longrightarrow> header_line (''Host: '' @ host) (r, len) = Inr (r\<lparr>rq_host := host\<rparr>, len)"
  "rq_auth r = [] \<Longrightarrow> word_ok 120 key \<Longrightarrow>
     header_line (''Authorization: Bearer '' @ key) (r, len) = Inr (r\<lparr>rq_auth := ''Bearer '' @ key\<rparr>, len)"
  "n \<le> REQUEST_CAP \<Longrightarrow> header_line (''Content-Length: '' @ dec n) (r, None) = Inr (r, Some n)"
proof -
  assume "rq_host r = []" "word_ok 127 host"
  then show "header_line (''Host: '' @ host) (r, len) = Inr (r\<lparr>rq_host := host\<rparr>, len)"
    using value_of_word [of host 128] word_okD [of 127 host] by (simp add: header_line_def has_key_def)
next
  assume k: "rq_auth r = []" "word_ok 120 key"
  have "header_value 128 [] (CHR '' '' # ''Bearer '' @ key) = Some (''Bearer '' @ key)"
  proof -
    have b: "\<not> blank (last (''Bearer '' @ key))" using word_okD [OF k(2)] not_space by auto
    then have "dropWhile blank (rev (''Bearer '' @ key)) = rev (''Bearer '' @ key)"
      using word_okD [OF k(2)] by (cases key rule: rev_cases) auto
    then show ?thesis using word_okD [OF k(2)] by (simp add: header_value_def blank_def)
  qed
  then show "header_line (''Authorization: Bearer '' @ key) (r, len) = Inr (r\<lparr>rq_auth := ''Bearer '' @ key\<rparr>, len)"
    using k(1) by (simp add: header_line_def has_key_def lower_def)
next
  assume "n \<le> REQUEST_CAP"
  then show "header_line (''Content-Length: '' @ dec n) (r, None) = Inr (r, Some n)"
    using content_length_dec [of n] by (simp add: header_line_def has_key_def lower_def)
qed

definition written :: "string \<Rightarrow> string \<Rightarrow> string \<Rightarrow> string \<Rightarrow> string \<Rightarrow> request" where
  "written meth path host key body = \<lparr>rq_method = meth, rq_path = path, rq_host = host, rq_origin = [],
     rq_auth = ''Bearer '' @ key, rq_body = body\<rparr>"

lemma find_last_line: "CHR 0x0D \<notin> set l \<Longrightarrow> find_sub (CRLF @ CRLF) (l @ CRLF @ CRLF) = Some (length l)"
  by (induction l) (auto simp: CRLF_def)

text \<open>The four lines.\<close>

lemma request_head_parts:
  fixes n :: nat
  assumes "word_ok 7 meth" and "word_ok 255 path" and "word_ok 127 host" and "word_ok 120 key"
  defines "l1 \<equiv> meth @ '' '' @ path @ '' HTTP/1.1''" and "l2 \<equiv> ''Host: '' @ host" and "l3 \<equiv> ''Authorization: Bearer '' @ key"
    and "l4 \<equiv> ''Content-Length: '' @ dec n"
  shows "request_head meth path host key n = (crlf l1 @ crlf l2 @ crlf l3 @ l4) @ CRLF"
    and "CHR 0x0D \<notin> set l1 \<union> set l2 \<union> set l3 \<union> set l4" and "NUL \<notin> set (request_head meth path host key n @ CRLF)"
    and "find_sub (CRLF @ CRLF) (request_head meth path host key n @ CRLF) = Some (length (crlf l1 @ crlf l2 @ crlf l3 @ l4))"
proof -
  show h: "request_head meth path host key n = (crlf l1 @ crlf l2 @ crlf l3 @ l4) @ CRLF"
    by (simp add: request_head_def l1_def l2_def l3_def l4_def crlf_def)
  show cr: "CHR 0x0D \<notin> set l1 \<union> set l2 \<union> set l3 \<union> set l4"
    using assms(1-4) [THEN word_okD] dec_plain [of n] by (simp add: l1_def l2_def l3_def l4_def)
  show "NUL \<notin> set (request_head meth path host key n @ CRLF)"
    using assms(1-4) [THEN word_okD] dec_plain [of n] by (simp add: request_head_def crlf_def CRLF_def)
  have e: "find_sub (CRLF @ CRLF) (crlf l @ r) = map_option (\<lambda>n. length (crlf l) + n) (find_sub (CRLF @ CRLF) r)"
    if "CHR 0x0D \<notin> set l" "r \<noteq> []" "hd r \<noteq> CHR 0x0D" for l r
    using find_empty_line [OF that] by (simp add: crlf_def CRLF_def)
  have ne: "crlf l2 @ x \<noteq> [] \<and> hd (crlf l2 @ x) \<noteq> CHR 0x0D" "crlf l3 @ x \<noteq> [] \<and> hd (crlf l3 @ x) \<noteq> CHR 0x0D"
    "l4 @ x \<noteq> [] \<and> hd (l4 @ x) \<noteq> CHR 0x0D" for x
    by (simp_all add: l2_def l3_def l4_def crlf_def)
  have "request_head meth path host key n @ CRLF = crlf l1 @ crlf l2 @ crlf l3 @ l4 @ CRLF @ CRLF" by (simp add: h)
  then show "find_sub (CRLF @ CRLF) (request_head meth path host key n @ CRLF) = Some (length (crlf l1 @ crlf l2 @ crlf l3 @ l4))"
    using e [of l1, OF _ conjunct1 [OF ne(1)] conjunct2 [OF ne(1)]] e [of l2, OF _ conjunct1 [OF ne(2)] conjunct2 [OF ne(2)]]
      e [of l3, OF _ conjunct1 [OF ne(3)] conjunct2 [OF ne(3)]] cr find_last_line [of l4] by simp
qed

lemma written_read:
  assumes "word_ok 7 meth" and "word_ok 255 path" and "word_ok 127 host" and "word_ok 120 key"
    and "u \<or> loopback_host host" and "NUL \<notin> set body" and "length body \<le> REQUEST_CAP"
    and "length (request_head meth path host key (length body)) + 2 \<le> HEADER_CAP"
  shows "request_of u (request_bytes meth path host key body) st = Inr (written meth path host key body)"
proof -
  define l1 where "l1 = meth @ '' '' @ path @ '' HTTP/1.1''"
  define l2 where "l2 = ''Host: '' @ host"
  define l3 where "l3 = ''Authorization: Bearer '' @ key"
  define l4 where "l4 = ''Content-Length: '' @ dec (length body)"
  note parts = request_head_parts [OF assms(1-4), of "length body", folded l1_def l2_def l3_def l4_def]
  define h where "h = crlf l1 @ crlf l2 @ crlf l3 @ l4"
  have all: "request_bytes meth path host key body = (request_head meth path host key (length body) @ CRLF) @ body"
    by (simp add: request_bytes_def)
  have t: "take HEADER_CAP (request_bytes meth path host key body) =
      (request_head meth path host key (length body) @ CRLF) @ take (HEADER_CAP - length (request_head meth path host key (length body) @ CRLF)) body"
  proof -
    have "length (request_head meth path host key (length body) @ CRLF) \<le> HEADER_CAP" using assms(8) by (simp add: CRLF_def)
    then show ?thesis unfolding all
      by (simp only: take_append [of HEADER_CAP "request_head meth path host key (length body) @ CRLF" body] take_all)
  qed
  have "find_sub (CRLF @ CRLF) (cstr (request_head meth path host key (length body) @ CRLF)) = Some (length h)"
    using parts(3,4) by (simp add: cstr_id h_def)
  then have c: "head_cut (request_bytes meth path host key body) st = Inr (length h)"
    using find_cstr_more by (simp only: head_cut_def t) fastforce
  have b: "request_bytes meth path host key body = h @ CRLF @ CRLF @ body"
    by (simp add: request_bytes_def parts(1) h_def)
  have cr: "CHR 0x0D \<notin> set l1" "CHR 0x0D \<notin> set l2" "CHR 0x0D \<notin> set l3" "CHR 0x0D \<notin> set l4" using parts(2) by auto
  have ne: "l2 \<noteq> []" "l3 \<noteq> []" "l4 \<noteq> []" by (simp_all add: l2_def l3_def l4_def)
  have first: "find_sub CRLF (h @ CRLF) = Some (length l1)"
    using find_line [OF cr(1), of "crlf l2 @ crlf l3 @ l4 @ CRLF"] by (simp add: h_def crlf_def)
  have rest: "take (length l1) h = l1" "drop (Suc (Suc (length l1))) h = crlf l2 @ crlf l3 @ l4"
    by (simp_all add: h_def crlf_def CRLF_def)
  have line: "scan_request_line l1 = Some (meth, path, ''HTTP/1.1'')"
    using scan_word_ok [OF assms(1), of "CHR '' '' # path @ '' HTTP/1.1''"] scan_word_ok [OF assms(2), of "'' HTTP/1.1''"]
      scan_word_ok [of 15 "''HTTP/1.1''" "[]"]
    by (simp add: scan_request_line_def l1_def isspace_def word_ok_def)
  have hl: "rq_host r = [] \<Longrightarrow> header_line l2 (r, len) = Inr (r\<lparr>rq_host := host\<rparr>, len)"
    "rq_auth r = [] \<Longrightarrow> header_line l3 (r, len) = Inr (r\<lparr>rq_auth := ''Bearer '' @ key\<rparr>, len)"
    "header_line l4 (r, None) = Inr (r, Some (length body))" for r len
    unfolding l2_def l3_def l4_def using assms(3,4,7) by (simp_all only: header_line_written)
  have "header_lines (crlf l2 @ crlf l3 @ l4) (no_request\<lparr>rq_method := meth, rq_path := path\<rparr>, None) =
      Inr (no_request\<lparr>rq_method := meth, rq_path := path, rq_host := host, rq_auth := ''Bearer '' @ key\<rparr>, Some (length body))"
    by (simp add: header_lines_step cr ne header_lines_last hl no_request_def)
  then have "parse_head u h = Inr (no_request\<lparr>rq_method := meth, rq_path := path, rq_host := host, rq_auth := ''Bearer '' @ key\<rparr>, length body)"
    using assms(5) by (simp add: parse_head_def first rest line local_origin_def no_request_def)
  moreover have "take (length h) (request_bytes meth path host key body) = h"
    "take (length body) (drop (length h + 4) (request_bytes meth path host key body)) = body"
    by (simp_all add: b CRLF_def)
  ultimately show ?thesis using assms(6) by (simp add: request_of_def c written_def no_request_def del: length_take)
qed
end
