(* ===== verification/Connection.thy ===== *)
theory Connection
  imports Buffers Printf
begin

section \<open>The data folder, the key and the connection file (src/src/app/connection.c)\<close>

text \<open>
  Where the application keeps its files, the key it creates once, and the file by which the clients
  find the running service. The file system is a map from paths to what is there; what the system
  answers (an environment variable, a lock that is held, a call that fails, random bytes) is an
  argument. A call that returns false returns none, or false beside the file system it leaves.
\<close>

definition APP_PATH_CAP :: nat where "APP_PATH_CAP = 4096"

text \<open>What a path leads to: a regular file with its bytes and what \<open>stat\<close> says of it (the user's own, no
  permission for others, the number of links); a folder, the user's own or not; a symbolic link;
  anything else.\<close>

record file_stat =
  st_own :: bool
  st_closed :: bool
  st_links :: nat

datatype entry = File string file_stat | Folder bool | Link string | Special

definition own_file :: file_stat where
  "own_file = \<lparr>st_own = True, st_closed = True, st_links = 1\<rparr>"

definition private_file :: "file_stat \<Rightarrow> bool" where
  "private_file st \<longleftrightarrow> st_own st \<and> st_closed st"

type_synonym files = "string \<Rightarrow> entry option"

text \<open>\<open>path\<close> of this file and \<open>path_join\<close> of app.h: \<open>None\<close> where the result does not fit.\<close>

definition path_join :: "string \<Rightarrow> string \<Rightarrow> string option" where
  "path_join base name =
     (let s = base @ ''/'' @ name in if length s < APP_PATH_CAP then Some s else None)"

subsection \<open>The data folder\<close>

text \<open>What comes of trying the lock of a folder: no lock file, not to be opened, held, or free.\<close>

datatype folder_lock = NoLock | NotOpened | Held | Free

record surroundings =
  v_geisten_home :: "string option"
  v_geist_home :: "string option"
  v_home :: "string option"
  v_data_home :: "string option"
  s_lock :: "string \<Rightarrow> folder_lock"
  s_stat_fails :: "string \<Rightarrow> bool"
  s_rename :: bool
  s_symlink :: bool

definition folder_in_use :: "surroundings \<Rightarrow> string \<Rightarrow> bool" where
  "folder_in_use v folder =
     (case path_join folder ''app.lock'' of
        None \<Rightarrow> True
      | Some lock \<Rightarrow>
          (case s_lock v lock of NoLock \<Rightarrow> False | NotOpened \<Rightarrow> True | Held \<Rightarrow> True | Free \<Rightarrow> False))"

text \<open>\<open>rename\<close> of a folder moves everything below it. The target does not exist where it is used.\<close>

definition below :: "string \<Rightarrow> string \<Rightarrow> bool" where
  "below folder p \<longleftrightarrow> p = folder \<or> (take (length folder + 1) p = folder @ ''/'')"

definition rename_folder :: "string \<Rightarrow> string \<Rightarrow> files \<Rightarrow> files" where
  "rename_folder old new fs =
     (\<lambda>p. if below new p then fs (old @ drop (length new) p) else if below old p then None else fs p)"

definition app_home :: "surroundings \<Rightarrow> files \<Rightarrow> string option \<times> files" where
  "app_home v fs =
     (case (case v_geisten_home v of None \<Rightarrow> v_geist_home v | h \<Rightarrow> h) of
        Some home \<Rightarrow> (if home \<noteq> [] \<and> length home < APP_PATH_CAP then Some home else None, fs)
      | None \<Rightarrow>
        (case v_home v of
           None \<Rightarrow> (None, fs)
         | Some user \<Rightarrow>
           (let base = (case v_data_home v of Some d \<Rightarrow> d | None \<Rightarrow> user @ ''/.local/share'') in
            if base = [] \<or> length base \<ge> APP_PATH_CAP then (None, fs)
            else
              (case (path_join base ''geisten'', path_join base ''geist'') of
                 (Some out, Some old) \<Rightarrow>
                   if fs out \<noteq> None \<or> s_stat_fails v out then (Some out, fs)
                   else if s_stat_fails v old \<or> fs old \<noteq> Some (Folder True) then (Some out, fs)
                   else if folder_in_use v old \<or> \<not> s_rename v then (Some old, fs)
                   else (Some out, (let moved = rename_folder old out fs
                                    in if s_symlink v then moved(old \<mapsto> Link ''geisten'') else moved))
               | _ \<Rightarrow> (None, fs)))))"

subsection \<open>The key\<close>

definition HEX :: string where "HEX = ''0123456789abcdef''"

definition key_valid :: "string \<Rightarrow> bool" where
  "key_valid key \<longleftrightarrow> length key = 64 \<and> (\<forall>c \<in> set key. c \<in> set HEX)"

definition hex2 :: "nat \<Rightarrow> string" where
  "hex2 b = [hexdig (b div 16), hexdig (b mod 16)]"

text \<open>What the system does for a new key: the 32 random bytes, if they can be read; whether the file
  can be created, and whether all of it reaches the disk.\<close>

record key_help =
  k_random :: "nat list option"
  k_created :: bool
  k_stored :: bool

definition app_key :: "string \<Rightarrow> key_help \<Rightarrow> files \<Rightarrow> string option \<times> files" where
  "app_key home h fs =
     (case path_join home ''api-key'' of
        None \<Rightarrow> (None, fs)
      | Some name \<Rightarrow>
        (case fs name of
           Some (File bytes st) \<Rightarrow>
             (if \<not> private_file st \<or> length (take 65 bytes) \<noteq> 64 \<or> \<not> key_valid (cstr bytes) then None else Some bytes, fs)
         | Some _ \<Rightarrow> (None, fs)
         | None \<Rightarrow>
           (case k_random h of
              None \<Rightarrow> (None, fs)
            | Some bytes \<Rightarrow>
                if length bytes \<noteq> 32 then (None, fs)
                else
                  (let token = concat (map hex2 bytes) in
                   if \<not> k_created h then (None, fs)
                   else if \<not> k_stored h then (None, fs(name := None))
                   else (Some token, fs(name \<mapsto> File token own_file))))))"

subsection \<open>The connection file\<close>

definition connection_text :: "nat \<Rightarrow> string \<Rightarrow> int \<Rightarrow> string" where
  \<open>connection_text port token pid =
     ''{"version":1,"port":'' @ dec port @ '',"api_key":"'' @ token @ ''","pid":''
     @ deci pid @ ''}'' @ [CHR 0x0A]\<close>

text \<open>The temporary file that \<open>mkstemp\<close> made, whether it could be written and synced, and whether it
  could be renamed.\<close>

record write_help =
  wr_tmp :: "string option"
  wr_stored :: bool
  wr_renamed :: bool

definition app_connection_write :: "string \<Rightarrow> nat \<Rightarrow> string \<Rightarrow> int \<Rightarrow> write_help \<Rightarrow> files \<Rightarrow> bool \<times> files" where
  "app_connection_write home port token pid h fs =
     (case (path_join home ''connection.json'', path_join home ''.connection.XXXXXX'', wr_tmp h) of
        (Some dest, Some _, Some tmp) \<Rightarrow>
          (let data = connection_text port token pid;
               ok = (length data < 512 \<and> wr_stored h \<and> wr_renamed h)
           in if ok then (True, (fs(tmp := None))(dest \<mapsto> File data own_file)) else (False, fs(tmp := None)))
      | _ \<Rightarrow> (False, fs))"

definition app_connection_read :: "string \<Rightarrow> files \<Rightarrow> (nat \<times> string) option" where
  "app_connection_read home fs =
     (case path_join home ''connection.json'' of
        None \<Rightarrow> None
      | Some name \<Rightarrow>
        (case fs name of
           Some (File bytes st) \<Rightarrow>
             (let data = take 511 bytes in
              if \<not> private_file st \<or> data = [] \<or> length data = 511 then None
              else
                (case json_parse data of
                   None \<Rightarrow> None
                 | Some j \<Rightarrow>
                     (case (json_num j (json_get j 0 ''port'') (Fin 0), json_strdup j (json_get j 0 ''api_key'')) of
                        (Fin p, Some key) \<Rightarrow>
                          if 1 \<le> p \<and> p \<le> 65535 \<and> p = of_int \<lfloor>p\<rfloor> \<and> key_valid key then Some (nat \<lfloor>p\<rfloor>, key) else None
                      | _ \<Rightarrow> None)))
         | _ \<Rightarrow> None))"

definition app_connection_remove :: "string \<Rightarrow> files \<Rightarrow> files" where
  "app_connection_remove home fs =
     (case path_join home ''connection.json'' of None \<Rightarrow> fs | Some name \<Rightarrow> fs(name := None))"

subsection \<open>Nothing of the folder is lost\<close>

lemma below_self [simp]: "below f (f @ ''/'' @ rest)"
  by (simp add: below_def)

text \<open>Two folders beside each other are apart when neither path is below the other.\<close>

lemma geist_apart: "\<not> below (base @ ''/geisten'') (base @ ''/geist'' @ ''/'' @ rest)"
  "\<not> below (base @ ''/geist'') (base @ ''/geisten'' @ ''/'' @ rest)" "\<not> below (base @ ''/geisten'') (base @ ''/geist'')"
  by (simp_all add: below_def)

lemma rename_folder_new: "rename_folder old new fs (new @ ''/'' @ rest) = fs (old @ ''/'' @ rest)"
  by (simp add: rename_folder_def below_def)

lemma rename_folder_other: "\<not> below new p \<Longrightarrow> \<not> below old p \<Longrightarrow> rename_folder old new fs p = fs p"
  by (simp add: rename_folder_def)

text \<open>The folder that is used holds what it held or, where it did not exist, what the earlier one held.\<close>

lemma app_home_keeps:
  assumes "app_home v fs = (Some out, fs')"
  shows "(fs' = fs) \<or> (\<exists>base. out = base @ ''/geisten'' \<and> fs out = None
     \<and> (\<forall>rest. fs' (out @ ''/'' @ rest) = fs (base @ ''/geist'' @ ''/'' @ rest))
     \<and> (\<forall>p. \<not> below out p \<and> \<not> below (base @ ''/geist'') p \<longrightarrow> fs' p = fs p))"
proof (cases "fs' = fs")
  case False
  then obtain base old where p: "path_join base ''geisten'' = Some out" "path_join base ''geist'' = Some old" "fs out = None"
    and f: "fs' = (if s_symlink v then (rename_folder old out fs)(old \<mapsto> Link ''geisten'') else rename_folder old out fs)"
    using assms unfolding app_home_def by (auto simp: Let_def split: option.splits if_splits)
  have o: "out = base @ ''/geisten''" "old = base @ ''/geist''"
    using p(1,2) by (auto simp: path_join_def Let_def split: if_splits)
  have "fs' (out @ ''/'' @ rest) = fs (old @ ''/'' @ rest)" for rest
    using f o rename_folder_new [of old out fs rest] by simp
  moreover have "fs' p = fs p" if "\<not> below out p" "\<not> below old p" for p
    using that f rename_folder_other [OF that] by (auto simp: below_def)
  ultimately show ?thesis using o p(3) by auto
qed simp

subsection \<open>One key for good\<close>

lemma hexdig_valid: "n < 16 \<Longrightarrow> hexdig n \<in> set HEX"
proof -
  have "\<forall>n \<in> set [0..<16]. hexdig n \<in> set HEX" by code_simp
  then show "n < 16 \<Longrightarrow> ?thesis" by simp
qed

lemma hex2_valid: "b < 256 \<Longrightarrow> set (hex2 b) \<subseteq> set HEX"
  using hexdig_valid [of "b div 16"] hexdig_valid [of "b mod 16"] by (simp add: hex2_def less_mult_imp_div_less)

lemma hex_key_valid:
  assumes "length bytes = 32" and "\<forall>b \<in> set bytes. b < 256"
  shows "key_valid (concat (map hex2 bytes))"
proof -
  have n: "length (concat (map hex2 bs)) = 2 * length bs" for bs by (induction bs) (simp_all add: hex2_def)
  have v: "set (concat (map hex2 bytes)) \<subseteq> set HEX" using assms(2) hex2_valid by (simp add: UN_least)
  have "length (concat (map hex2 bytes)) = 64" unfolding n assms(1) by simp
  with v show ?thesis unfolding key_valid_def by blast
qed

lemma key_no_nul: "key_valid k \<Longrightarrow> NUL \<notin> set k"
proof -
  have "NUL \<notin> set HEX" by code_simp
  then show "key_valid k \<Longrightarrow> ?thesis" unfolding key_valid_def by blast
qed

lemma app_key_again:
  assumes "app_key home h fs = (Some k, fs')" and "\<forall>bs. k_random h = Some bs \<longrightarrow> (\<forall>b \<in> set bs. b < 256)"
  shows "key_valid k \<and> app_key home h2 fs' = (Some k, fs')"
proof -
  obtain name where n: "path_join home ''api-key'' = Some name"
    using assms(1) by (auto simp: app_key_def split: option.splits)
  show ?thesis
  proof (cases "fs name")
    case None
    then obtain bs where r: "k_random h = Some bs" and l: "length bs = 32" and k: "concat (map hex2 bs) = k" "fs(name \<mapsto> File k own_file) = fs'"
      using assms(1) n by (clarsimp simp: app_key_def Let_def split: option.splits if_splits)
    have "\<forall>b \<in> set bs. b < 256" using assms(2) r by blast
    from hex_key_valid [OF l this] have v: "key_valid k" unfolding k(1) .
    then have "length k = 64" by (simp add: key_valid_def)
    then show ?thesis using v n k(2) [symmetric] key_no_nul [OF v] by (simp add: app_key_def cstr_id own_file_def private_file_def)
  next
    case (Some e)
    note key = assms(1) [unfolded app_key_def n option.case Some]
    from key obtain b p where e: "e = File b p" by (cases e) auto
    from key have r: "(if \<not> private_file p \<or> length (take 65 b) \<noteq> 64 \<or> \<not> key_valid (cstr b) then None else Some b) = Some k" "fs' = fs"
      by (simp_all only: e entry.case prod.inject)
    then have b: "length (take 65 b) = 64" "key_valid (cstr b)" "k = b" "private_file p" by (simp_all split: if_splits del: length_take)
    have l: "length b = 64" using b(1) by simp
    have "length (cstr b) = 64" using b(2) by (simp add: key_valid_def)
    then have "cstr b = b" using l by (metis cstr_def takeWhile_eq_take take_all order_refl)
    then show ?thesis using b n Some e l r(2) by (simp add: app_key_def)
  qed
qed

subsection \<open>The connection is found\<close>

lemma dec_short: "n < 10 ^ k \<Longrightarrow> 0 < k \<Longrightarrow> length (dec n) \<le> k"
proof (induction n arbitrary: k rule: dec.induct)
  case (1 n)
  show ?case
  proof (cases "n < 10")
    case False
    then obtain l where k: "k = Suc l" "0 < l" using 1(2,3) by (cases k; cases "k = 1") auto
    then have "n div 10 < 10 ^ l" using 1(2) by (simp add: less_mult_imp_div_less mult.commute)
    then show ?thesis using 1(1) [OF False] k False by (simp add: dec.simps [of n])
  qed (use 1(3) in \<open>simp add: dec.simps [of n]\<close>)
qed

definition connection_tree :: "nat \<Rightarrow> string \<Rightarrow> string \<Rightarrow> (string \<times> jval) list" where
  "connection_tree port token pid =
     [(''version'', JPrim ''1''), (''port'', JPrim (dec port)), (''api_key'', JStr token), (''pid'', JPrim pid)]"

lemma key_plain: "key_valid k \<Longrightarrow> plain k"
proof -
  have "\<forall>c \<in> set HEX. 32 \<le> byte c \<and> c \<noteq> DQUOTE \<and> c \<noteq> BACKSLASH" by code_simp
  then show "key_valid k \<Longrightarrow> ?thesis" unfolding key_valid_def plain_def by blast
qed

lemma connection_text_tree:
  "key_valid token \<Longrightarrow> connection_text port token (int pid) =
     render app_esc (JObj (connection_tree port token (dec pid))) @ [CHR 0x0A]"
  by (simp add: connection_text_def connection_tree_def quoted_def app_esc_def app_esc_plain key_plain deci_def)

lemma connection_read_back:
  assumes "key_valid token" and "1 \<le> port" and "port \<le> 65535"
    and "path_join home ''connection.json'' = Some name"
    and "fs name = Some (File (connection_text port token (int pid)) own_file)"
    and "length (connection_text port token (int pid)) < 511"
  shows "app_connection_read home fs = Some (port, token)"
proof -
  let ?t = "connection_tree port token (dec pid)"
  have ok: "jfields_ok ?t" by (simp add: connection_tree_def prim_ok_dec) (simp add: prim_ok_def prim_start_def prim_end_def)
  have "ntoks (JObj ?t) \<le> JSON_TOK_CAP" by (simp add: connection_tree_def JSON_TOK_CAP_def)
  then obtain j where j: "json_parse (connection_text port token (int pid)) = Some j" and at: "is_at app_esc j 0 (JObj ?t)"
    using app_quoting.root_render_spaced [OF ok, of "[CHR 0x0A]"] connection_text_tree [OF assms(1)] by (auto simp: json_space_def)
  have keys: "\<forall>k \<in> fst ` set ?t. plain k" by (simp add: connection_tree_def plain_def)
  obtain p where p: "json_get j 0 ''port'' = int p" "is_at app_esc j p (JPrim (dec port))"
    using app_get [OF at keys, of "''port''" "JPrim (dec port)"] by (auto simp: connection_tree_def)
  obtain k where k: "json_get j 0 ''api_key'' = int k" "is_at app_esc j k (JStr token)"
    using app_get [OF at keys, of "''api_key''" "JStr token"] by (auto simp: connection_tree_def)
  have t: "take 511 (connection_text port token (int pid)) = connection_text port token (int pid)" using assms(6) by simp
  have ne: "connection_text port token (int pid) \<noteq> []" by (simp add: connection_text_def)
  have one: "(1 :: rat) \<le> of_nat port" "(of_nat port :: rat) \<le> 65535" using assms(2,3) by simp_all
  show ?thesis
    using assms(1,6) ne one app_quoting.num_render [OF p(2), of "Fin 0"] app_quoting.strdup_render [OF k(2)] key_no_nul [OF assms(1)]
    by (simp add: app_connection_read_def own_file_def private_file_def assms(4,5) t j p(1) k(1) cstr_id)
qed

lemma connection_found:
  assumes "app_connection_write home port token (int pid) h fs = (True, fs')" and "key_valid token"
    and "1 \<le> port" and "port \<le> 65535" and "pid < 2 ^ 63"
  shows "app_connection_read home fs' = Some (port, token)"
proof -
  obtain dest where d: "path_join home ''connection.json'' = Some dest"
    and f: "fs' dest = Some (File (connection_text port token (int pid)) own_file)"
    using assms(1) by (auto simp: app_connection_write_def Let_def split: option.splits if_splits)
  have "length (dec port) \<le> 5" "length (dec pid) \<le> 19"
    using dec_short [of port 5] dec_short [of pid 19] assms(4,5) by simp_all
  then have "length (connection_text port token (int pid)) < 511"
    using assms(2) by (simp add: connection_text_def key_valid_def deci_def)
  from connection_read_back [where fs = fs', OF assms(2-4) d f this] show ?thesis .
qed

end
