(* ===== verification/Compat.thy ===== *)
theory Compat
  imports Buffers
begin

section \<open>Chat requests of other programs (src/src/app/compat.c)\<close>

text \<open>
  The reader of an OpenAI chat request: what it refuses and with which code, and the messages and
  limits it takes over. Strings live in the request's arena, so the arena is passed along and a string
  that does not fit is as if it were not there. \<open>to_float\<close> is the rounding of a double to a float,
  \<open>json_bytes\<close> the size of \<open>struct json\<close>.
\<close>

definition APP_CHAT_MESSAGES :: nat where "APP_CHAT_MESSAGES = 64"

record app_chat =
  c_messages :: "(string \<times> string) list"
  c_model :: string
  c_max_tokens :: nat
  c_temperature :: rat
  c_top_p :: rat
  c_stream :: bool
  c_include_usage :: bool

type_synonym refusal = "nat \<times> string"

definition invalid_chat :: string where
  "invalid_chat = ''Invalid chat request. Expected a model and text messages.''"

subsection \<open>Primitives\<close>

definition literal :: "json \<Rightarrow> int \<Rightarrow> string \<Rightarrow> bool" where
  "literal j t v \<longleftrightarrow> t \<ge> 0 \<and> tok_type (tok_at j t) = JSMN_PRIMITIVE
     \<and> tok_end (tok_at j t) - tok_start (tok_at j t) = int (length v) \<and> tok_text j t = v"

definition starts :: "(char \<Rightarrow> bool) \<Rightarrow> string \<Rightarrow> bool" where
  "starts P s \<longleftrightarrow> s \<noteq> [] \<and> P (hd s)"

text \<open>One digit and the digits after it.\<close>

definition some_digits :: "string \<Rightarrow> string option" where
  "some_digits s = (if starts is_digit s then Some (dropWhile is_digit s) else None)"

definition integer_part :: "string \<Rightarrow> string option" where
  "integer_part p =
     (if p = [] then None
      else if hd p = CHR ''0'' then Some (tl p)
      else if byte (hd p) < 49 \<or> byte (hd p) > 57 then None
      else Some (dropWhile is_digit p))"

definition fraction :: "string \<Rightarrow> string option" where
  "fraction p = (if starts (\<lambda>c. c = CHR ''.'') p then some_digits (tl p) else Some p)"

definition exponent_part :: "string \<Rightarrow> string option" where
  "exponent_part p =
     (if starts (\<lambda>c. c = CHR ''e'' \<or> c = CHR ''E'') p
      then some_digits (if starts (\<lambda>c. c = CHR ''+'' \<or> c = CHR ''-'') (tl p) then tl (tl p) else tl p)
      else Some p)"

definition json_number :: "string \<Rightarrow> bool" where
  "json_number s =
     (Option.bind (Option.bind (integer_part (if starts (\<lambda>c. c = CHR ''-'') s then tl s else s)) fraction) exponent_part = Some [])"

definition valid_primitive :: "json \<Rightarrow> int \<Rightarrow> bool" where
  "valid_primitive j t \<longleftrightarrow> literal j t ''true'' \<or> literal j t ''false'' \<or> literal j t ''null'' \<or> json_number (tok_text j t)"

subsection \<open>Strings\<close>

text \<open>An escape that would put a NUL byte in the text; the byte after a backslash is not looked at again.\<close>

fun escapes_nul :: "string \<Rightarrow> bool" where
  "escapes_nul [] = False"
| "escapes_nul [c] = False"
| "escapes_nul (c # e # s) =
     (if c \<noteq> BACKSLASH then escapes_nul (e # s)
      else (e = CHR ''u'' \<and> take 4 s = ''0000'') \<or> escapes_nul s)"

definition text_of :: "json \<Rightarrow> int \<Rightarrow> app_arena \<Rightarrow> string option \<times> app_arena" where
  "text_of j t a =
     (if \<not> json_is_str j t \<or> escapes_nul (tok_text j t) then (None, a)
      else
        (case json_strdup j t of
           None \<Rightarrow> (None, a)
         | Some s \<Rightarrow>
             (case app_alloc 16 (of_nat (length s) + 1) 1 1 a of
                (None, a1) \<Rightarrow> (None, a1)
              | (Some p, a1) \<Rightarrow> (Some s, a1))))"

subsection \<open>What is refused\<close>

definition tokens_ok :: "json \<Rightarrow> bool" where
  "tokens_ok j \<longleftrightarrow>
     (\<forall>i \<in> set [1..<nat (json_n j)].
        (tok_type (tok j ! i) = JSMN_PRIMITIVE \<longrightarrow> valid_primitive j (int i))
        \<and> (tok_parent (tok j ! i) = 0 \<longrightarrow>
            (\<forall>k \<in> set [1..<i]. \<not> (tok_parent (tok j ! k) = 0
               \<and> tok_end (tok j ! k) - tok_start (tok j ! k) = tok_end (tok j ! i) - tok_start (tok j ! i)
               \<and> tok_text j (int i) = tok_text j (int k)))))"

definition unsupported :: "string list" where
  "unsupported = [''tools'', ''functions'', ''tool_choice'', ''function_call'', ''response_format'', ''audio'',
     ''modalities'', ''stop'', ''logprobs'', ''logit_bias'']"

fun uses_unsupported :: "json \<Rightarrow> string list \<Rightarrow> app_arena \<Rightarrow> bool \<times> app_arena" where
  "uses_unsupported j [] a = (False, a)"
| "uses_unsupported j (name # names) a =
     (let t = json_get j 0 name in
      if t < 0 \<or> (name \<in> set (take 2 unsupported) \<and> tok_type (tok_at j t) = JSMN_ARRAY \<and> tok_size (tok_at j t) = 0)
      then uses_unsupported j names a
      else if name = ''tool_choice'' then
        (case text_of j t a of
           (choice, a1) \<Rightarrow> if choice = Some ''none'' then uses_unsupported j names a1 else (True, a1))
      else (True, a))"

subsection \<open>Messages\<close>

text \<open>The children of token \<open>t\<close> in the order of the text.\<close>

definition children :: "json \<Rightarrow> int \<Rightarrow> nat list" where
  "children j t =
     filter (\<lambda>i. tok_parent (tok j ! i) = t)
       (takeWhile (\<lambda>i. tok_start (tok j ! i) < tok_end (tok_at j t)) [nat t + 1..<nat (json_n j)])"

fun text_parts :: "json \<Rightarrow> nat list \<Rightarrow> app_buffer \<Rightarrow> app_arena \<Rightarrow> (refusal + app_buffer) \<times> app_arena" where
  "text_parts j [] b a = (Inr b, a)"
| "text_parts j (k # ks) b a =
     (let (type, a1) = text_of j (json_get j (int k) ''type'') a;
          (text, a2) = text_of j (json_get j (int k) ''text'') a1
      in case (type, text) of
           (Some ty, Some tx) \<Rightarrow>
             if ty \<noteq> ''text'' then (Inl (422, ''Only text content parts are supported.''), a2)
             else text_parts j ks (app_put tx b) a2
         | _ \<Rightarrow> (Inl (422, ''Only text content parts are supported.''), a2))"

definition content_of :: "json \<Rightarrow> int \<Rightarrow> app_arena \<Rightarrow> (refusal + string option) \<times> app_arena" where
  "content_of j t a =
     (if json_is_str j t then (case text_of j t a of (s, a1) \<Rightarrow> (Inr s, a1))
      else if t \<ge> 0 \<and> tok_type (tok_at j t) = JSMN_ARRAY then
        (let cap = nat (tok_end (tok_at j t) - tok_start (tok_at j t)) + 1 in
         case app_alloc 16 (of_nat cap) 1 1 a of
           (None, a1) \<Rightarrow> (Inl (503, invalid_chat), a1)
         | (Some p, a1) \<Rightarrow>
             (case text_parts j (children j t) \<lparr>b_data = [], b_len = 0, b_cap = cap, b_failed = False\<rparr> a1 of
                (Inl e, a2) \<Rightarrow> (Inl e, a2)
              | (Inr b, a2) \<Rightarrow> (if b_failed b then Inl (503, invalid_chat) else Inr (Some (b_data b)), a2)))
      else (Inr None, a))"

fun read_messages ::
    "json \<Rightarrow> nat list \<Rightarrow> (string \<times> string) list \<Rightarrow> app_arena \<Rightarrow> (refusal + (string \<times> string) list) \<times> app_arena" where
  "read_messages j [] ms a = (Inr ms, a)"
| "read_messages j (i # is) ms a =
     (if tok_type (tok j ! i) \<noteq> JSMN_OBJECT \<or> length ms = APP_CHAT_MESSAGES then (Inl (400, invalid_chat), a)
      else
        (case text_of j (json_get j (int i) ''role'') a of
           (role, a1) \<Rightarrow>
             if role \<notin> {Some ''user'', Some ''assistant'', Some ''system''} then (Inl (400, invalid_chat), a1)
             else if json_get j (int i) ''tool_calls'' \<ge> 0 \<or> json_get j (int i) ''function_call'' \<ge> 0
             then (Inl (422, ''Tool-call history is not supported by this text-chat endpoint.''), a1)
             else
               (case content_of j (json_get j (int i) ''content'') a1 of
                  (Inl e, a2) \<Rightarrow> (Inl e, a2)
                | (Inr None, a2) \<Rightarrow> (Inl (400, invalid_chat), a2)
                | (Inr (Some content), a2) \<Rightarrow> read_messages j is (ms @ [(the role, content)]) a2)))"

subsection \<open>Numbers\<close>

definition set_number :: "(rat \<Rightarrow> rat) \<Rightarrow> string \<Rightarrow> dbl \<Rightarrow> app_chat \<Rightarrow> refusal + app_chat" where
  "set_number to_float name v c =
     (case v of
        Fin q \<Rightarrow>
          if name = ''max_tokens'' \<or> name = ''max_completion_tokens'' then
            (if q < 1 \<or> q > 4095 \<or> q \<noteq> of_int \<lfloor>q\<rfloor> then Inl (400, invalid_chat) else Inr (c\<lparr>c_max_tokens := nat \<lfloor>q\<rfloor>\<rparr>))
          else if name = ''temperature'' then
            (if q < 0 \<or> q > 2 then Inl (400, invalid_chat) else Inr (c\<lparr>c_temperature := to_float q\<rparr>))
          else if name = ''top_p'' then
            (if q \<le> 0 \<or> q > 1 then Inl (400, invalid_chat) else Inr (c\<lparr>c_top_p := to_float q\<rparr>))
          else if q \<noteq> 1 then Inl (422, ''Only one completion per request is supported.'')
          else Inr c
      | _ \<Rightarrow> Inl (400, invalid_chat))"

fun set_numbers :: "(rat \<Rightarrow> rat) \<Rightarrow> json \<Rightarrow> string list \<Rightarrow> app_chat \<Rightarrow> refusal + app_chat" where
  "set_numbers to_float j [] c = Inr c"
| "set_numbers to_float j (name # names) c =
     (let t = json_get j 0 name in
      if t < 0 then set_numbers to_float j names c
      else case set_number to_float name (json_num j t NaN) c of
             Inl e \<Rightarrow> Inl e
           | Inr c' \<Rightarrow> set_numbers to_float j names c')"

definition new_chat :: "(rat \<Rightarrow> rat) \<Rightarrow> app_chat" where
  "new_chat to_float =
     \<lparr>c_messages = [], c_model = [], c_max_tokens = 256, c_temperature = to_float (1 / 5), c_top_p = 1,
      c_stream = False, c_include_usage = False\<rparr>"

text \<open>A flag that is there has to be \<open>true\<close> or \<open>false\<close>.\<close>

definition bad_flag :: "json \<Rightarrow> int \<Rightarrow> bool" where
  "bad_flag j t \<longleftrightarrow> t \<ge> 0 \<and> \<not> literal j t ''true'' \<and> \<not> literal j t ''false''"

definition stream_flags :: "json \<Rightarrow> app_chat \<Rightarrow> refusal + app_chat" where
  "stream_flags j c =
     (let stream = json_get j 0 ''stream''; options = json_get j 0 ''stream_options''; usage = json_get j options ''include_usage'' in
      if bad_flag j stream \<or> (options \<ge> 0 \<and> tok_type (tok_at j options) \<noteq> JSMN_OBJECT) \<or> bad_flag j usage
      then Inl (400, invalid_chat)
      else Inr (c\<lparr>c_stream := json_bool j stream False, c_include_usage := json_bool j usage False\<rparr>))"

definition app_chat_parse ::
    "(rat \<Rightarrow> rat) \<Rightarrow> u64 \<Rightarrow> string \<Rightarrow> app_arena \<Rightarrow> (refusal + app_chat) \<times> app_arena" where
  "app_chat_parse to_float json_bytes body a =
     (case app_alloc 16 1 json_bytes 8 a of
        (None, a1) \<Rightarrow> (Inl (503, invalid_chat), a1)
      | (Some p, a1) \<Rightarrow>
        (case json_parse (cstr body) of
           None \<Rightarrow> (Inl (400, invalid_chat), a1)
         | Some j \<Rightarrow>
             if tok_type (tok j ! 0) \<noteq> JSMN_OBJECT \<or> \<not> tokens_ok j then (Inl (400, invalid_chat), a1)
             else
               (case uses_unsupported j unsupported a1 of
                  (True, a2) \<Rightarrow>
                    (Inl (422, ''This endpoint supports text chat only. Tools, structured output and multimodal ''
                               @ ''requests are not supported.''), a2)
                | (False, a2) \<Rightarrow>
                  (case text_of j (json_get j 0 ''model'') a2 of
                     (model, a3) \<Rightarrow>
                       let messages = json_get j 0 ''messages'' in
                       if model \<in> {None, Some []} \<or> messages < 0 \<or> tok_type (tok_at j messages) \<noteq> JSMN_ARRAY
                          \<or> tok_size (tok_at j messages) = 0
                       then (Inl (400, invalid_chat), a3)
                       else
                         (case read_messages j (children j messages) [] a3 of
                            (Inl e, a4) \<Rightarrow> (Inl e, a4)
                          | (Inr ms, a4) \<Rightarrow>
                              (if ms = [] then Inl (400, invalid_chat)
                               else case set_numbers to_float j
                                   [''max_tokens'', ''max_completion_tokens'', ''temperature'', ''top_p'', ''n'']
                                   ((new_chat to_float)\<lparr>c_model := the model, c_messages := ms\<rparr>) of
                                 Inl e \<Rightarrow> Inl e
                               | Inr c \<Rightarrow> stream_flags j c, a4))))))"

subsection \<open>Numbers as JSON defines them\<close>

text \<open>The grammar: a sign, an integer without leading zeros, a fraction, an exponent.\<close>

definition digits1 :: "string \<Rightarrow> bool" where
  "digits1 s \<longleftrightarrow> s \<noteq> [] \<and> list_all is_digit s"

definition integer_text :: "string \<Rightarrow> bool" where
  "integer_text i \<longleftrightarrow> i = ''0'' \<or> (digits1 i \<and> hd i \<noteq> CHR ''0'')"

definition exponent_text :: "string \<Rightarrow> bool" where
  "exponent_text e \<longleftrightarrow> e = [] \<or> (\<exists>m g d. e = m @ g @ d \<and> m \<in> {''e'', ''E''} \<and> g \<in> {[], ''+'', ''-''} \<and> digits1 d)"

definition fraction_text :: "string \<Rightarrow> bool" where
  "fraction_text f \<longleftrightarrow> f = [] \<or> (\<exists>d. f = ''.'' @ d \<and> digits1 d)"

definition number_grammar :: "string \<Rightarrow> bool" where
  "number_grammar s \<longleftrightarrow>
     (\<exists>sign i f e. s = sign @ i @ f @ e \<and> sign \<in> {[], ''-''} \<and> integer_text i \<and> fraction_text f \<and> exponent_text e)"

lemma some_digits_Some:
  "some_digits s = Some r \<longleftrightarrow> (\<exists>d. s = d @ r \<and> digits1 d \<and> \<not> starts is_digit r)"
proof
  assume "some_digits s = Some r"
  then have "starts is_digit s" and r: "r = dropWhile is_digit s" by (auto simp: some_digits_def split: if_splits)
  then have "digits1 (takeWhile is_digit s)"
    by (cases s) (auto simp: digits1_def starts_def list_all_iff dest: set_takeWhileD)
  moreover have "\<not> starts is_digit r" using r hd_dropWhile [of is_digit s] by (metis starts_def)
  ultimately show "\<exists>d. s = d @ r \<and> digits1 d \<and> \<not> starts is_digit r"
    using r by (metis takeWhile_dropWhile_id)
next
  assume "\<exists>d. s = d @ r \<and> digits1 d \<and> \<not> starts is_digit r"
  then obtain d where d: "s = d @ r" "digits1 d" "\<not> starts is_digit r" by blast
  then have "dropWhile is_digit s = dropWhile is_digit r"
    by (simp add: digits1_def list_all_iff dropWhile_append)
  moreover have "dropWhile is_digit r = r" using d(3) by (cases r) (auto simp: starts_def)
  moreover have "starts is_digit s" using d by (cases d) (auto simp: digits1_def starts_def)
  ultimately show "some_digits s = Some r" by (simp add: some_digits_def)
qed

lemma some_digits_nil: "some_digits s = Some [] \<longleftrightarrow> digits1 s"
  by (auto simp: some_digits_Some starts_def)

lemma exponent_part_nil: "exponent_part p = Some [] \<longleftrightarrow> exponent_text p"
proof (cases "starts (\<lambda>c. c = CHR ''e'' \<or> c = CHR ''E'') p")
  case True
  then obtain c q where p: "p = c # q" "c = CHR ''e'' \<or> c = CHR ''E''" by (cases p) (auto simp: starts_def)
  have d: "digits1 q \<Longrightarrow> \<not> starts (\<lambda>c. c = CHR ''+'' \<or> c = CHR ''-'') q"
    by (cases q) (auto simp: digits1_def starts_def is_digit_def)
  show ?thesis
  proof (cases "starts (\<lambda>c. c = CHR ''+'' \<or> c = CHR ''-'') q")
    case s: True
    then obtain g d' where q: "q = g # d'" "g = CHR ''+'' \<or> g = CHR ''-''" by (cases q) (auto simp: starts_def)
    have "exponent_part p = Some [] \<longleftrightarrow> digits1 d'"
      using True s by (simp add: exponent_part_def p(1) q(1) some_digits_nil)
    moreover have "exponent_text p \<longleftrightarrow> digits1 d'"
    proof
      assume "exponent_text p"
      then obtain m g' e where e: "p = m @ g' @ e" "m \<in> {''e'', ''E''}" "g' \<in> {[], ''+'', ''-''}" "digits1 e"
        by (auto simp: exponent_text_def p(1))
      then have "q = g' @ e" by (auto simp: p(1))
      with e s d q show "digits1 d'" by auto
    next
      assume "digits1 d'"
      then show "exponent_text p"
        unfolding exponent_text_def
        by (intro disjI2 exI [of _ "[c]"] exI [of _ "[g]"] exI [of _ d']) (use p q in auto)
    qed
    ultimately show ?thesis by simp
  next
    case s: False
    have "exponent_part p = Some [] \<longleftrightarrow> digits1 q"
      using True s by (simp add: exponent_part_def p(1) some_digits_nil)
    moreover have "exponent_text p \<longleftrightarrow> digits1 q"
    proof
      assume "exponent_text p"
      then obtain m g' e where e: "p = m @ g' @ e" "m \<in> {''e'', ''E''}" "g' \<in> {[], ''+'', ''-''}" "digits1 e"
        by (auto simp: exponent_text_def p(1))
      then have "q = g' @ e" by (auto simp: p(1))
      with e s show "digits1 q" by (auto simp: starts_def)
    next
      assume "digits1 q"
      then show "exponent_text p"
        unfolding exponent_text_def
        by (intro disjI2 exI [of _ "[c]"] exI [of _ "[]"] exI [of _ q]) (use p in auto)
    qed
    ultimately show ?thesis by simp
  qed
next
  case False
  then show ?thesis by (cases p) (auto simp: exponent_part_def exponent_text_def starts_def)
qed

lemma exponent_text_start: "exponent_text e \<Longrightarrow> \<not> starts is_digit e \<and> \<not> starts (\<lambda>c. c = CHR ''.'') e"
  by (auto simp: exponent_text_def starts_def is_digit_def)

lemma fraction_Some:
  "fraction p = Some r \<longleftrightarrow>
     (\<exists>f. p = f @ r \<and> fraction_text f \<and> (if f = [] then \<not> starts (\<lambda>c. c = CHR ''.'') r else \<not> starts is_digit r))"
proof (cases "starts (\<lambda>c. c = CHR ''.'') p")
  case True
  then obtain q where p: "p = CHR ''.'' # q" by (cases p) (auto simp: starts_def)
  have "fraction p = Some r \<longleftrightarrow> (\<exists>d. q = d @ r \<and> digits1 d \<and> \<not> starts is_digit r)"
    using True by (simp add: fraction_def p some_digits_Some)
  also have "\<dots> \<longleftrightarrow> (\<exists>f. p = f @ r \<and> fraction_text f \<and> (if f = [] then \<not> starts (\<lambda>c. c = CHR ''.'') r else \<not> starts is_digit r))"
  proof
    assume "\<exists>d. q = d @ r \<and> digits1 d \<and> \<not> starts is_digit r"
    then obtain d where "q = d @ r" "digits1 d" "\<not> starts is_digit r" by blast
    then show "\<exists>f. p = f @ r \<and> fraction_text f \<and> (if f = [] then \<not> starts (\<lambda>c. c = CHR ''.'') r else \<not> starts is_digit r)"
      by (intro exI [of _ "CHR ''.'' # d"]) (simp add: p fraction_text_def)
  next
    assume "\<exists>f. p = f @ r \<and> fraction_text f \<and> (if f = [] then \<not> starts (\<lambda>c. c = CHR ''.'') r else \<not> starts is_digit r)"
    then show "\<exists>d. q = d @ r \<and> digits1 d \<and> \<not> starts is_digit r"
      using True by (auto simp: p fraction_text_def split: if_splits)
  qed
  finally show ?thesis .
next
  case False
  then have "fraction p = Some r \<longleftrightarrow> p = r" by (auto simp: fraction_def)
  moreover have "fraction_text f \<Longrightarrow> p = f @ r \<Longrightarrow> f = []" for f
    using False by (auto simp: fraction_text_def starts_def)
  ultimately show ?thesis using False by (auto simp: fraction_text_def)
qed

lemma integer_part_Some:
  "integer_part p = Some r \<longleftrightarrow> (\<exists>i. p = i @ r \<and> integer_text i \<and> (i = ''0'' \<or> \<not> starts is_digit r))"
proof (cases "p = [] \<or> hd p = CHR ''0''")
  case True
  show ?thesis
  proof (cases p)
    case Nil
    then show ?thesis by (auto simp: integer_part_def integer_text_def digits1_def)
  next
    case (Cons c q)
    with True have c: "c = CHR ''0''" by simp
    have "integer_text i \<and> c # q = i @ r \<longleftrightarrow> i = ''0'' \<and> q = r" for i
      by (cases i) (auto simp: integer_text_def digits1_def c)
    then show ?thesis using Cons c by (auto simp: integer_part_def)
  qed
next
  case False
  then have d: "49 \<le> byte (hd p) \<and> byte (hd p) \<le> 57 \<longleftrightarrow> starts is_digit p"
  proof -
    have "byte (hd p) \<noteq> 48"
    proof
      assume "byte (hd p) = 48"
      then have "byte (hd p) = byte CHR ''0''" by simp
      then have "hd p = CHR ''0''" by (simp only: of_char_eq_iff)
      with False show False by simp
    qed
    then show ?thesis using False by (auto simp: starts_def is_digit_def)
  qed
  then have "integer_part p = some_digits p"
    using False by (auto simp: integer_part_def some_digits_def)
  then have "integer_part p = Some r \<longleftrightarrow> (\<exists>i. p = i @ r \<and> digits1 i \<and> \<not> starts is_digit r)"
    by (simp add: some_digits_Some)
  moreover have "p = i @ r \<Longrightarrow> digits1 i \<Longrightarrow> hd i = hd p" for i by (auto simp: digits1_def)
  ultimately show ?thesis using False by (auto simp: integer_text_def)
qed

theorem json_number_grammar: "json_number s \<longleftrightarrow> number_grammar s"
proof -
  define p where "p = (if starts (\<lambda>c. c = CHR ''-'') s then tl s else s)"
  have sign: "number_grammar s \<longleftrightarrow> (\<exists>i f e. p = i @ f @ e \<and> integer_text i \<and> fraction_text f \<and> exponent_text e)"
  proof (cases "starts (\<lambda>c. c = CHR ''-'') s")
    case True
    then obtain q where s: "s = CHR ''-'' # q" by (cases s) (auto simp: starts_def)
    have "\<not> (integer_text i \<and> s = i @ x)" for i x
      by (auto simp: integer_text_def digits1_def s is_digit_def Cons_eq_append_conv)
    then have "number_grammar s \<longleftrightarrow> (\<exists>i f e. s = ''-'' @ i @ f @ e \<and> integer_text i \<and> fraction_text f \<and> exponent_text e)"
      unfolding number_grammar_def by blast
    then show ?thesis by (simp add: p_def s starts_def)
  next
    case False
    have "sign = []" if "s = sign @ x" "sign \<in> {[], ''-''}" for sign x
      using False that by (auto simp: starts_def)
    then have "number_grammar s \<longleftrightarrow> (\<exists>i f e. s = [] @ i @ f @ e \<and> integer_text i \<and> fraction_text f \<and> exponent_text e)"
      unfolding number_grammar_def by blast
    then show ?thesis using False by (simp add: p_def)
  qed
  have "json_number s \<longleftrightarrow> (\<exists>r1 r2. integer_part p = Some r1 \<and> fraction r1 = Some r2 \<and> exponent_part r2 = Some [])"
    by (auto simp: json_number_def p_def bind_eq_Some_conv)
  also have "\<dots> \<longleftrightarrow> (\<exists>i f e. p = i @ f @ e \<and> integer_text i \<and> fraction_text f \<and> exponent_text e)"
  proof
    assume "\<exists>r1 r2. integer_part p = Some r1 \<and> fraction r1 = Some r2 \<and> exponent_part r2 = Some []"
    then show "\<exists>i f e. p = i @ f @ e \<and> integer_text i \<and> fraction_text f \<and> exponent_text e"
      by (auto simp: integer_part_Some fraction_Some exponent_part_nil)
  next
    assume "\<exists>i f e. p = i @ f @ e \<and> integer_text i \<and> fraction_text f \<and> exponent_text e"
    then obtain i f e where h: "p = i @ f @ e" "integer_text i" "fraction_text f" "exponent_text e" by blast
    note e = exponent_text_start [OF h(4)]
    have "\<not> starts is_digit (f @ e)"
      using h(3) e by (auto simp: fraction_text_def starts_def is_digit_def)
    then have "integer_part p = Some (f @ e)" using h(1,2) by (auto simp: integer_part_Some)
    moreover have "fraction (f @ e) = Some e" using h(3) e by (auto simp: fraction_Some)
    ultimately show "\<exists>r1 r2. integer_part p = Some r1 \<and> fraction r1 = Some r2 \<and> exponent_part r2 = Some []"
      using h(4) by (auto simp: exponent_part_nil)
  qed
  finally show ?thesis by (simp add: sign)
qed

subsection \<open>What is let through\<close>

definition chat_ok :: "(rat \<Rightarrow> rat) \<Rightarrow> app_chat \<Rightarrow> bool" where
  "chat_ok to_float c \<longleftrightarrow>
     c_messages c \<noteq> [] \<and> length (c_messages c) \<le> APP_CHAT_MESSAGES
     \<and> (\<forall>m \<in> set (c_messages c). fst m \<in> {''user'', ''assistant'', ''system''})
     \<and> c_model c \<noteq> [] \<and> 1 \<le> c_max_tokens c \<and> c_max_tokens c \<le> 4095
     \<and> (\<exists>q. 0 \<le> q \<and> q \<le> 2 \<and> c_temperature c = to_float q)
     \<and> (c_top_p c = 1 \<or> (\<exists>q. 0 < q \<and> q \<le> 1 \<and> c_top_p c = to_float q))"

lemma read_messages_ok:
  "fst (read_messages j is ms a) = Inr ms' \<Longrightarrow> length ms \<le> APP_CHAT_MESSAGES \<Longrightarrow>
     \<forall>m \<in> set ms. fst m \<in> {''user'', ''assistant'', ''system''} \<Longrightarrow>
     length ms' \<le> APP_CHAT_MESSAGES \<and> (\<forall>m \<in> set ms'. fst m \<in> {''user'', ''assistant'', ''system''})"
proof (induction j "is" ms a rule: read_messages.induct)
  case (2 j i "is" ms a)
  obtain role a1 where t: "text_of j (json_get j (int i) ''role'') a = (role, a1)" by fastforce
  obtain content a2 where c: "content_of j (json_get j (int i) ''content'') a1 = (content, a2)" by fastforce
  have r: "tok_type (tok j ! i) = JSMN_OBJECT" "length ms \<noteq> APP_CHAT_MESSAGES" "role \<in> {Some ''user'', Some ''assistant'', Some ''system''}"
    "\<not> (json_get j (int i) ''tool_calls'' \<ge> 0 \<or> json_get j (int i) ''function_call'' \<ge> 0)"
    using 2(2) by (auto simp: t split: if_splits)
  then obtain x where x: "content = Inr (Some x)" "fst (read_messages j is (ms @ [(the role, x)]) a2) = Inr ms'"
    using 2(2) by (auto simp: t c split: if_splits sum.splits option.splits)
  have "length (ms @ [(the role, x)]) \<le> APP_CHAT_MESSAGES" using 2(3) r(2) by simp
  moreover have "\<forall>m \<in> set (ms @ [(the role, x)]). fst m \<in> {''user'', ''assistant'', ''system''}" using 2(4) r(3) by auto
  ultimately show ?case
    using 2(1) [OF _ t [symmetric] _ r(4) c [symmetric] x(1) refl x(2)] r(1-3) by blast
qed simp

lemma set_number_ok: "chat_ok f c \<Longrightarrow> set_number f name v c = Inr c' \<Longrightarrow> chat_ok f c'"
proof (cases v)
  case (Fin q)
  assume "chat_ok f c" "set_number f name v c = Inr c'"
  then show ?thesis
    by (auto simp: set_number_def chat_ok_def Fin not_less le_nat_iff le_floor_iff floor_le_iff split: if_splits
        intro: exI [of _ q])
qed (simp_all add: set_number_def)

lemma set_numbers_ok: "set_numbers f j names c = Inr c' \<Longrightarrow> chat_ok f c \<Longrightarrow> chat_ok f c'"
  by (induction names arbitrary: c) (auto simp: Let_def split: if_splits sum.splits dest: set_number_ok)

lemma stream_flags_ok: "stream_flags j c = Inr c' \<Longrightarrow> chat_ok f c \<Longrightarrow> chat_ok f c'"
  by (auto simp: stream_flags_def chat_ok_def Let_def split: if_splits)

lemma chat_parse_ok:
  assumes "fst (app_chat_parse f n body a) = Inr c"
  shows "chat_ok f c"
proof -
  from assms obtain p a1 where al: "app_alloc 16 1 n 8 a = (Some p, a1)"
    by (simp add: app_chat_parse_def split: prod.splits option.splits)
  from assms obtain j where j: "json_parse (cstr body) = Some j" "\<not> (tok_type (tok j ! 0) \<noteq> JSMN_OBJECT \<or> \<not> tokens_ok j)"
    by (simp add: app_chat_parse_def al split: option.splits if_splits)
  note p1 = assms [unfolded app_chat_parse_def al prod.case option.case j(1) if_not_P [OF j(2)]]
  obtain a2 where u: "uses_unsupported j unsupported a1 = (False, a2)"
    using p1 by (cases "uses_unsupported j unsupported a1"; cases "fst (uses_unsupported j unsupported a1)") auto
  obtain model a3 where t: "text_of j (json_get j 0 ''model'') a2 = (model, a3)" by fastforce
  define messages where "messages = json_get j 0 ''messages''"
  note p2 = p1 [unfolded u prod.case bool.case t Let_def, folded messages_def]
  have g: "\<not> (model \<in> {None, Some []} \<or> messages < 0 \<or> tok_type (tok_at j messages) \<noteq> JSMN_ARRAY \<or> tok_size (tok_at j messages) = 0)"
    using p2 by (auto split: if_splits)
  note p3 = p2 [unfolded if_not_P [OF g]]
  obtain ms a4 where m: "read_messages j (children j messages) [] a3 = (Inr ms, a4)" and ms: "ms \<noteq> []"
    using p3 by (cases "read_messages j (children j messages) [] a3"; cases "fst (read_messages j (children j messages) [] a3)")
      (auto split: if_splits)
  define c0 where "c0 = (new_chat f)\<lparr>c_model := the model, c_messages := ms\<rparr>"
  obtain c1 where s: "set_numbers f j [''max_tokens'', ''max_completion_tokens'', ''temperature'', ''top_p'', ''n''] c0 = Inr c1"
      "stream_flags j c1 = Inr c"
    using p3 ms by (simp add: m c0_def [symmetric] split: sum.splits)
  have "fst (read_messages j (children j messages) [] a3) = Inr ms" by (simp add: m)
  from read_messages_ok [OF this] ms g have "chat_ok f c0"
    by (auto simp: c0_def chat_ok_def new_chat_def intro!: exI [of _ "1 / 5"])
  from stream_flags_ok [OF s(2) set_numbers_ok [OF s(1) this]] show ?thesis .
qed

end
