(* ===== verification/App.thy ===== *)
theory App
  imports Activity Lifecycle Policy History Resources Connection Request
begin

section \<open>The state of the application (src/src/app/app.h) and its preferences (src/src/app/prefs.c)\<close>

text \<open>
  The application is one record guarded by one mutex: the child process it owns, the processor the
  model runs on, the one model job, the comparison run, what is observed, the activities it shows and
  the choices it keeps. A function that runs with the mutex held is a function from the state to the
  state; what the system answers it is an argument. A function reads the clock several times; here
  it reads it once, and \<open>tm\<close> is that time in milliseconds. A field of type \<open>char[n]\<close> is its text,
  cut by \<open>fit n\<close> where the code prints into it. The journal of performance.c is behind locks of its own and
  beside the record (\<open>ap_history\<close>), as are the small files of the data folder.
\<close>

definition fit :: "nat \<Rightarrow> string \<Rightarrow> string" where
  "fit n s = take (n - 1) s"

record app_child =
  ch_pid :: nat
  ch_previous_pid :: nat
  ch_probe_ms :: rat
  ch_reaped_ms :: rat
  ch_spawned_ms :: rat
  ch_loading_started :: rat
  ch_loaded_ms :: rat
  ch_runtime_dir :: string
  ch_socket_path :: string
  ch_lifecycle :: bool
  ch_snapshot :: "lifecycle_snapshot option"
  ch_phase :: nat
  ch_requests :: nat
  ch_threads :: nat
  ch_engine :: app_engine
  ch_ready :: bool
  ch_generating :: bool
  ch_active :: string
  ch_active_id :: string
  ch_chosen :: string
  ch_operation :: u64

record app_backend =
  bk_mode :: string
  bk_active :: string
  bk_cpu :: string
  bk_gpu :: string
  bk_notice :: string
  bk_gpu_available :: bool
  bk_verified :: bool
  bk_save :: bool

text \<open>\<open>jb_thread\<close> and \<open>cm_thread\<close> stand for the \<open>pthread_t\<close> of the job and of the comparison: whether the thread
  that was made in it has not returned. No code reads them.\<close>

record app_job =
  jb_model :: "app_model option"
  jb_running :: bool
  jb_joinable :: bool
  jb_thread :: bool
  jb_download :: bool
  jb_activate :: bool
  jb_received :: u64
  jb_verified_bytes :: u64
  jb_phase :: string
  jb_receipt_checked :: bool
  jb_receipt_hit :: bool

record app_compare =
  cm_running :: bool
  cm_joinable :: bool
  cm_thread :: bool
  cm_phase :: string
  cm_result :: string
  cm_user_mode :: string
  cm_step :: nat

text \<open>What is observed while a request runs: its record, if there is one, and the samples of the process.\<close>

record app_observe =
  ob_record :: "perf_record option"
  ob_window :: app_resource_window
  ob_sample_ms :: rat
  ob_cpu_sum :: rat
  ob_process_ms :: rat
  ob_cpu_samples :: nat
  ob_process :: app_process_sample
  ob_generation :: u64

record processor_measurement =
  pm_rate :: rat
  pm_first :: rat
  pm_total :: rat
  pm_tokens :: rat
  pm_rss :: rat
  pm_recorded :: rat

text \<open>The choices that are kept, and the measurements of each model on the CPU and the GPU.\<close>

record app_prefs =
  pr_selected :: string
  pr_answer_language :: string
  pr_preview :: "bool list"
  pr_series :: string
  pr_history :: "(processor_measurement \<times> processor_measurement) list"
  pr_speed :: "(processor_measurement \<times> processor_measurement) list"

text \<open>The atomics beside the record.\<close>

record app_flags =
  fl_closing :: bool
  fl_cancelled :: bool
  fl_compare_cancelled :: bool
  fl_request_cancelled :: bool
  fl_load_cancelled :: bool

record app_state =
  ap_models :: "app_model list"
  ap_revision :: nat
  ap_catalog :: string
  ap_home :: string
  ap_models_dir :: string
  ap_token :: string
  ap_instance :: string
  ap_message :: string
  ap_api_socket :: string
  ap_port :: nat
  ap_packaged :: app_engine
  ap_generation :: u64
  ap_stopping :: bool
  ap_child :: app_child
  ap_backend :: app_backend
  ap_job :: app_job
  ap_compare :: app_compare
  ap_observe :: app_observe
  ap_load :: activity
  ap_request :: activity
  ap_download :: activity
  ap_prefs :: app_prefs
  ap_flags :: app_flags
  ap_files :: files
  ap_history :: history

abbreviation on_child :: "(app_child \<Rightarrow> app_child) \<Rightarrow> app_state \<Rightarrow> app_state" where
  "on_child f a \<equiv> a\<lparr>ap_child := f (ap_child a)\<rparr>"

abbreviation on_backend :: "(app_backend \<Rightarrow> app_backend) \<Rightarrow> app_state \<Rightarrow> app_state" where
  "on_backend f a \<equiv> a\<lparr>ap_backend := f (ap_backend a)\<rparr>"

abbreviation on_job :: "(app_job \<Rightarrow> app_job) \<Rightarrow> app_state \<Rightarrow> app_state" where
  "on_job f a \<equiv> a\<lparr>ap_job := f (ap_job a)\<rparr>"

abbreviation on_compare :: "(app_compare \<Rightarrow> app_compare) \<Rightarrow> app_state \<Rightarrow> app_state" where
  "on_compare f a \<equiv> a\<lparr>ap_compare := f (ap_compare a)\<rparr>"

abbreviation on_observe :: "(app_observe \<Rightarrow> app_observe) \<Rightarrow> app_state \<Rightarrow> app_state" where
  "on_observe f a \<equiv> a\<lparr>ap_observe := f (ap_observe a)\<rparr>"

abbreviation on_flags :: "(app_flags \<Rightarrow> app_flags) \<Rightarrow> app_state \<Rightarrow> app_state" where
  "on_flags f a \<equiv> a\<lparr>ap_flags := f (ap_flags a)\<rparr>"

abbreviation pid :: "app_state \<Rightarrow> nat" where "pid a \<equiv> ch_pid (ap_child a)"
abbreviation ready :: "app_state \<Rightarrow> bool" where "ready a \<equiv> ch_ready (ap_child a)"
abbreviation generating :: "app_state \<Rightarrow> bool" where "generating a \<equiv> ch_generating (ap_child a)"
abbreviation active_id :: "app_state \<Rightarrow> string" where "active_id a \<equiv> ch_active_id (ap_child a)"
abbreviation job_running :: "app_state \<Rightarrow> bool" where "job_running a \<equiv> jb_running (ap_job a)"
abbreviation comparing :: "app_state \<Rightarrow> bool" where "comparing a \<equiv> cm_running (ap_compare a)"
abbreviation job_thread_runs :: "app_state \<Rightarrow> bool" where "job_thread_runs a \<equiv> jb_thread (ap_job a)"
abbreviation compare_thread_runs :: "app_state \<Rightarrow> bool" where "compare_thread_runs a \<equiv> cm_thread (ap_compare a)"
abbreviation closing :: "app_state \<Rightarrow> bool" where "closing a \<equiv> fl_closing (ap_flags a)"

definition find_model :: "app_state \<Rightarrow> string option \<Rightarrow> app_model option" where
  "find_model a i = map_option (\<lambda>k. ap_models a ! k) (app_model_find (ap_models a) i)"

subsection \<open>Preferences on disk\<close>

text \<open>A preference is a short file of its own; \<open>cap\<close> is the size of the caller's buffer. \<open>ok\<close> is whether
  the temporary file could be made, written, synced and renamed.\<close>

definition read_preference :: "string \<Rightarrow> string \<Rightarrow> nat \<Rightarrow> files \<Rightarrow> string option" where
  "read_preference home name cap fs =
     (case path_join home name of
        None \<Rightarrow> None
      | Some path \<Rightarrow>
          (case fs path of
             Some (File bytes st) \<Rightarrow>
               if st_own st \<and> st_links st = 1 \<and> bytes \<noteq> [] \<and> length bytes < cap \<and> NUL \<notin> set bytes then Some bytes else None
           | _ \<Rightarrow> None))"

definition save_preference :: "string \<Rightarrow> string \<Rightarrow> string \<Rightarrow> bool \<Rightarrow> files \<Rightarrow> bool \<times> files" where
  "save_preference home name value ok fs =
     (case (path_join home name, path_join home ''.preference-XXXXXX'') of
        (Some target, Some _) \<Rightarrow> if ok then (True, fs(target \<mapsto> File value own_file)) else (False, fs)
      | _ \<Rightarrow> (False, fs))"

definition save_selection :: "string \<Rightarrow> bool \<Rightarrow> app_state \<Rightarrow> bool \<times> app_state" where
  "save_selection i ok a =
     (case save_preference (ap_home a) ''selected'' i ok (ap_files a) of
        (True, fs) \<Rightarrow> (True, a\<lparr>ap_files := fs, ap_prefs := (ap_prefs a)\<lparr>pr_selected := fit 64 i\<rparr>\<rparr>)
      | (False, fs) \<Rightarrow> (False, a\<lparr>ap_files := fs\<rparr>))"

definition restore_preview_preferences :: "app_state \<Rightarrow> app_state" where
  "restore_preview_preferences a =
     a\<lparr>ap_prefs := (ap_prefs a)\<lparr>pr_preview :=
        map (\<lambda>m. read_preference (ap_home a) (fit 80 (''preview-'' @ am_sha256 m)) 8 (ap_files a) = Some ''v1'') (ap_models a)\<rparr>\<rparr>"

text \<open>A preference that was saved is read back.\<close>

lemma saved_read:
  assumes "save_preference home name value ok fs = (True, fs')" and "value \<noteq> []" and "length value < cap" and "NUL \<notin> set value"
  shows "read_preference home name cap fs' = Some value"
  using assms by (auto simp: save_preference_def read_preference_def own_file_def split: option.splits if_splits)

lemma unsaved_same: "save_preference home name value ok fs = (False, fs') \<Longrightarrow> fs' = fs"
  by (auto simp: save_preference_def split: option.splits if_splits)

text \<open>The newest record of a model and processor as a measurement; the fields of such a record are finite.\<close>

definition drat :: "dbl \<Rightarrow> rat" where
  "drat x = (case x of Fin q \<Rightarrow> q | _ \<Rightarrow> 0)"

definition no_measurement :: processor_measurement where
  "no_measurement = \<lparr>pm_rate = 0, pm_first = 0, pm_total = 0, pm_tokens = 0, pm_rss = 0, pm_recorded = 0\<rparr>"

definition measurement :: "perf_record option \<Rightarrow> processor_measurement" where
  "measurement out =
     (case out of
        None \<Rightarrow> no_measurement
      | Some r \<Rightarrow>
          if r_id r = [] then no_measurement
          else \<lparr>pm_rate = of_nat (r_output r) / (drat (r_generation_ns r) / 10 ^ 9), pm_first = drat (r_first_ns r) / 10 ^ 9,
                pm_total = drat (r_total_ns r) / 10 ^ 9, pm_tokens = of_nat (r_output r),
                pm_rss = (if dlt (Fin 0) (r_rss r) then drat (r_rss r) else 0), pm_recorded = drat (r_timestamp r)\<rparr>)"

definition restore_measurements :: "app_state \<Rightarrow> app_state" where
  "restore_measurements a =
     (let last = (\<lambda>controlled m backend. measurement (perf_last (am_sha256 m) (pr_series (ap_prefs a)) backend controlled (ap_history a)));
          both = (\<lambda>controlled. map (\<lambda>m. (last controlled m (bk_cpu (ap_backend a)), last controlled m (bk_gpu (ap_backend a)))) (ap_models a))
      in a\<lparr>ap_prefs := (ap_prefs a)\<lparr>pr_history := both False, pr_speed := both True\<rparr>\<rparr>)"

subsection \<open>Activities\<close>

definition activity_change :: "activity_stage \<Rightarrow> rat \<Rightarrow> activity \<Rightarrow> activity" where
  "activity_change stage tm x = snd (activity_step (ac_id x) (ac_generation x) stage tm x)"

definition load_change :: "activity_stage \<Rightarrow> rat \<Rightarrow> app_state \<Rightarrow> app_state" where
  "load_change stage tm a = a\<lparr>ap_load := activity_change stage tm (ap_load a)\<rparr>"

definition load_end :: "string \<Rightarrow> int \<Rightarrow> rat \<Rightarrow> app_state \<Rightarrow> app_state" where
  "load_end outcome code tm a = a\<lparr>ap_load := snd (activity_end outcome code tm (ap_load a))\<rparr>"

text \<open>The new activity and the next operation number.\<close>

definition begin_activity :: "activity_stage \<Rightarrow> u64 \<Rightarrow> string option \<Rightarrow> rat \<Rightarrow> app_state \<Rightarrow> activity \<times> app_state" where
  "begin_activity stage gen model tm a =
     (let op = ch_operation (ap_child a) + 1 in
      ((activity_begin op gen stage tm)\<lparr>ac_model := fit 65 (case model of None \<Rightarrow> ''custom'' | Some m \<Rightarrow> m),
         ac_backend := fit 24 (bk_active (ap_backend a)), ac_engine := ch_engine (ap_child a)\<rparr>,
       on_child (\<lambda>c. c\<lparr>ch_operation := op\<rparr>) a))"

definition begin_load :: "activity_stage \<Rightarrow> u64 \<Rightarrow> string option \<Rightarrow> rat \<Rightarrow> app_state \<Rightarrow> app_state" where
  "begin_load stage gen model tm a = (case begin_activity stage gen model tm a of (x, a1) \<Rightarrow> a1\<lparr>ap_load := x\<rparr>)"

subsection \<open>Processors\<close>

unbundle bit_operations_syntax

definition gpu_supported :: "app_state \<Rightarrow> app_model option \<Rightarrow> bool" where
  "gpu_supported a model =
     (bk_gpu_available (ap_backend a)
      \<and> (case model of None \<Rightarrow> False
          | Some m \<Rightarrow> am_backends m AND (if bk_gpu (ap_backend a) = ''metal'' then 2 else 4) \<noteq> 0))"

definition recommend_gpu :: "app_state \<Rightarrow> app_model option \<Rightarrow> bool" where
  "recommend_gpu a model = (gpu_supported a model \<and> (case model of None \<Rightarrow> False | Some m \<Rightarrow> am_bytes m \<ge> APP_GIB))"

definition gpu_wanted :: "string \<Rightarrow> app_model option \<Rightarrow> app_state \<Rightarrow> bool" where
  "gpu_wanted mode model a \<longleftrightarrow> mode = ''gpu'' \<or> (mode = ''auto'' \<and> recommend_gpu a model)"

end
