(* ===== verification/Child.thy ===== *)
theory Child
  imports App
begin

section \<open>The process of the model (src/src/app/child.c)\<close>

text \<open>
  The supervision of \<open>geistd\<close>: what the packaged engine reports, stopping the child, starting it on a
  processor, and the poll that notices its death, its time limit and its readiness. What the system
  answers is in records of its own. \<open>stop_child\<close> gives the mutex away while it waits, so it is split
  at these places: \<open>stop_first\<close>, one \<open>stop_look\<close> after each sleep, and \<open>stop_last\<close>.
\<close>

subsection \<open>What the packaged engine reports\<close>

text \<open>\<open>output\<close> is what the daemon printed, if it ended with code 0.\<close>

definition probe_backends :: "string \<Rightarrow> string option \<Rightarrow> app_state \<Rightarrow> app_state" where
  "probe_backends cpu output a =
     (let a1 = on_backend (\<lambda>b. b\<lparr>bk_cpu := cpu\<rparr>) a in
      case Option.bind output json_parse of
        None \<Rightarrow> a1
      | Some j \<Rightarrow>
          let gpu = json_get j 0 ''gpu''; name = json_strdup j (json_get j gpu ''name'') in
          if name = Some ''metal'' \<or> name = Some ''vulkan''
          then on_backend (\<lambda>b. b\<lparr>bk_gpu := the name, bk_gpu_available := json_bool j (json_get j gpu ''available'') False\<rparr>) a1
          else a1)"

definition probe_engine :: "string option \<Rightarrow> app_state \<Rightarrow> app_state" where
  "probe_engine output a =
     (case Option.bind output json_parse of
        None \<Rightarrow> a
      | Some j \<Rightarrow>
          (case app_engine_parse j 0 of
             (ok, identity) \<Rightarrow>
               if ok \<and> e_version identity \<noteq> [] then
                 (let e = identity\<lparr>e_payload := e_payload (ch_engine (ap_child a))\<rparr>
                  in (on_child (\<lambda>c. c\<lparr>ch_engine := e\<rparr>) a)\<lparr>ap_packaged := e\<rparr>)
               else a))"

subsection \<open>The loading phases the child reports\<close>

definition phase_stages :: "activity_stage list" where
  "phase_stages = [ACT_NONE, ACT_BACKEND, ACT_MODEL, ACT_METADATA, ACT_WARMUP, ACT_READY]"

fun sample_phases :: "nat list \<Rightarrow> lifecycle_snapshot \<Rightarrow> app_state \<Rightarrow> app_state" where
  "sample_phases [] s a = a"
| "sample_phases (i # is) s a =
     (if s_phase_ns s ! i = 0 then a
      else
        let t = of_nat (unat (s_phase_ns s ! i)) / 10 ^ 6;
            x = ap_load a;
            tm = (if t < ac_event_at x then ac_event_at x else t)
        in sample_phases is s
             (on_child (\<lambda>c. c\<lparr>ch_phase := i\<rparr>)
               (a\<lparr>ap_load := snd (activity_step (ac_id x) (ap_generation a) (phase_stages ! i) tm x)\<rparr>)))"

definition lifecycle_sample :: "lifecycle_shared option \<Rightarrow> app_state \<Rightarrow> app_state" where
  "lifecycle_sample page a =
     (case lifecycle_read (if ch_lifecycle (ap_child a) then page else None) (ap_generation a) of
        None \<Rightarrow> a
      | Some s \<Rightarrow>
          if s_process s \<noteq> of_nat (pid a) then a
          else sample_phases [ch_phase (ap_child a) + 1..<phase_index LC_READY] s (on_child (\<lambda>c. c\<lparr>ch_snapshot := Some s\<rparr>) a))"

subsection \<open>Stopping\<close>

definition runtime_paths_close :: "app_state \<Rightarrow> app_state" where
  "runtime_paths_close = on_child (\<lambda>c. c\<lparr>ch_lifecycle := False, ch_socket_path := [], ch_runtime_dir := []\<rparr>)"

text \<open>Until the mutex is given away for the first time: readiness is revoked, \<open>SIGTERM\<close> is sent.\<close>

definition stop_first :: "app_state \<Rightarrow> app_state" where
  "stop_first a =
     on_child (\<lambda>c. c\<lparr>ch_ready := False, ch_previous_pid := if ch_pid c \<noteq> 0 then ch_pid c else ch_previous_pid c\<rparr>)
       (a\<lparr>ap_stopping := True\<rparr>)"

text \<open>One look at the process, after the mutex is held again: \<open>gone\<close> if it has ended.\<close>

definition stop_look :: "rat \<Rightarrow> bool \<Rightarrow> app_state \<Rightarrow> app_state" where
  "stop_look tm gone a = (if gone then on_child (\<lambda>c. c\<lparr>ch_pid := 0, ch_reaped_ms := tm\<rparr>) a else a)"

definition stop_cleanup :: "app_state \<Rightarrow> app_state" where
  "stop_cleanup a =
     on_child (\<lambda>c. c\<lparr>ch_snapshot := None, ch_phase := 0, ch_ready := False\<rparr>)
       ((runtime_paths_close a)\<lparr>ap_stopping := False\<rparr>)"

text \<open>After the looks: the process that is left, if any, is killed and reaped. The result is its number
  (0 if there is none) and the state.\<close>

definition stop_last :: "rat \<Rightarrow> app_state \<Rightarrow> nat \<times> app_state" where
  "stop_last tm a = (pid a, stop_cleanup (on_child (\<lambda>c. c\<lparr>ch_pid := 0, ch_reaped_ms := tm\<rparr>) a))"

text \<open>The whole of it, when nothing else takes the mutex in between.\<close>

definition stop_child :: "rat \<Rightarrow> bool \<Rightarrow> app_state \<Rightarrow> app_state" where
  "stop_child tm gone a =
     (if pid a = 0 then stop_cleanup (stop_first a) else snd (stop_last tm (stop_look tm gone (stop_first a))))"

subsection \<open>Starting\<close>

text \<open>What the system answers to a start: the digest of the executable, the hardware, the private
  folder, whether the socket, the log, the environment and the shared page could be made, and the
  spawned process or the text of the error, with whether \<open>posix_spawn\<close> was reached.\<close>

record spawn_help =
  sp_gone :: bool
  sp_payload :: "string option"
  sp_hardware :: "app_hardware option"
  sp_dir :: "string option"
  sp_socket :: bool
  sp_log :: bool
  sp_env :: bool
  sp_page :: bool
  sp_spawn :: "(bool \<times> string) + nat"

text \<open>The text that ends in an ellipsis.\<close>

definition loading_text :: string where
  "loading_text = ''Loading the model into memory'' @ [CHR 0xE2, CHR 0x80, CHR 0xA6]"

text \<open>The file name after the last slash, up to the extension.\<close>

definition base_name :: "string \<Rightarrow> string" where
  "base_name path = rev (takeWhile (\<lambda>c. c \<noteq> CHR ''/'') (rev path))"

definition model_label :: "string \<Rightarrow> string" where
  "model_label path =
     (let s = fit 160 (base_name path) in case find_sub ''.gguf'' s of None \<Rightarrow> s | Some n \<Rightarrow> take n s)"

definition runtime_cores :: "app_hardware \<Rightarrow> nat" where
  "runtime_cores h = min (unat (h_cores h)) (if h_device h = APP_PI5 then 4 else 2)"

text \<open>The state just before the process is made, with what has been checked so far; none where the code
  returns false, with the state it leaves.\<close>

definition start_prepare :: "rat \<Rightarrow> spawn_help \<Rightarrow> bool \<Rightarrow> string option \<Rightarrow> app_state \<Rightarrow> bool \<times> app_state" where
  "start_prepare tm h gpu i a0 =
     (let a1 = (if ac_id (ap_load a0) = 0 \<or> ac_outcome (ap_load a0) \<noteq> []
                then begin_load ACT_STARTING (ap_generation a0 + 1) i tm a0 else a0);
          a2 = a1\<lparr>ap_load := (ap_load a1)\<lparr>ac_backend := fit 24 (if gpu then bk_gpu (ap_backend a1) else bk_cpu (ap_backend a1))\<rparr>\<rparr>;
          a3 = on_flags (\<lambda>f. f\<lparr>fl_load_cancelled := False\<rparr>) a2;
          a4 = (if pid a3 \<noteq> 0 then load_change ACT_STOPPING tm a3 else a3);
          a5 = load_change ACT_STARTING tm (stop_child tm (sp_gone h) a4);
          engine = (ap_packaged a5)\<lparr>e_payload := case sp_payload h of Some p \<Rightarrow> p | None \<Rightarrow> e_payload (ap_packaged a5)\<rparr>;
          a6 = on_child (\<lambda>c. c\<lparr>ch_engine := engine\<rparr>) a5
      in case sp_hardware h of
           None \<Rightarrow> (False, a6\<lparr>ap_message := ''This CPU/platform does not support the bundled inference engine.''\<rparr>)
         | Some hw \<Rightarrow>
             if \<not> h_supported hw
             then (False, a6\<lparr>ap_message := ''This CPU/platform does not support the bundled inference engine.''\<rparr>)
             else
               (case sp_dir h of
                  None \<Rightarrow> (False, on_child (\<lambda>c. c\<lparr>ch_runtime_dir := []\<rparr>) a6)
                | Some dir \<Rightarrow>
                    let a7 = on_child (\<lambda>c. c\<lparr>ch_runtime_dir := dir, ch_socket_path := fit 100 (dir @ ''/inference.sock'')\<rparr>) a6 in
                    if \<not> sp_socket h then (False, stop_child tm True a7)
                    else if path_join (ap_home a7) ''server.log'' = None \<or> \<not> sp_log h \<or> \<not> sp_env h \<or> \<not> sp_page h then (False, a7)
                    else (True, on_child (\<lambda>c. c\<lparr>ch_lifecycle := True, ch_threads := runtime_cores hw, ch_requests := 0,
                            ch_spawned_ms := (case sp_spawn h of Inl (False, _) \<Rightarrow> ch_spawned_ms c | _ \<Rightarrow> tm)\<rparr>) a7)))"

definition start_child_mode_impl ::
    "rat \<Rightarrow> spawn_help \<Rightarrow> string \<Rightarrow> string option \<Rightarrow> string \<Rightarrow> app_state \<Rightarrow> bool \<times> app_state" where
  "start_child_mode_impl tm h path i mode a =
     (let model = find_model a i; gpu = gpu_wanted mode model a in
      if gpu \<and> \<not> gpu_supported a model
      then (False, a\<lparr>ap_message := ''GPU is not supported by this model and packaged engine.''\<rparr>)
      else
        (case start_prepare tm h gpu i a of
           (False, a1) \<Rightarrow> (False, a1)
         | (True, a1) \<Rightarrow>
             (case sp_spawn h of
                Inl (_, err) \<Rightarrow> (False, (on_child (\<lambda>c. c\<lparr>ch_pid := 0\<rparr>) a1)\<lparr>ap_message := fit 512 (''Cannot start geistd: '' @ err)\<rparr>)
              | Inr p \<Rightarrow>
                  let gen = ap_generation a1 + 1;
                      a2 = on_backend (\<lambda>b. b\<lparr>bk_mode := fit 8 mode, bk_active := fit 24 (if gpu then bk_gpu b else bk_cpu b),
                             bk_verified := False, bk_save := True\<rparr>)
                           (on_child (\<lambda>c. c\<lparr>ch_pid := p, ch_chosen := fit APP_PATH_CAP path,
                              ch_active_id := fit 64 (case i of None \<Rightarrow> ''custom'' | Some s \<Rightarrow> s),
                              ch_loading_started := tm, ch_active := model_label path\<rparr>) a1);
                      a3 = a2\<lparr>ap_generation := gen,
                              ap_load := (ap_load a2)\<lparr>ac_generation := gen, ac_engine := ch_engine (ap_child a2)\<rparr>\<rparr>
                  in (True, (load_change ACT_LOADING tm a3)\<lparr>ap_message := loading_text\<rparr>))))"

definition start_child_mode ::
    "rat \<Rightarrow> spawn_help \<Rightarrow> string \<Rightarrow> string option \<Rightarrow> string \<Rightarrow> app_state \<Rightarrow> bool \<times> app_state" where
  "start_child_mode tm h path i mode a =
     (case start_child_mode_impl tm h path i mode a of
        (True, a1) \<Rightarrow> (True, a1)
      | (False, a1) \<Rightarrow>
          let a2 = stop_child tm (sp_gone h) a1;
              a3 = (if ap_message a2 = []
                    then a2\<lparr>ap_message := ''Cannot start the model process. See server.log in the app data folder.''\<rparr> else a2)
          in (False, load_end ''failed'' 502 tm a3))"

text \<open>The processor that is remembered for the model, if it can still be used.\<close>

definition start_child :: "rat \<Rightarrow> spawn_help \<Rightarrow> string \<Rightarrow> string option \<Rightarrow> app_state \<Rightarrow> bool \<times> app_state" where
  "start_child tm h path i a =
     (let model = find_model a i;
          mode = (case model of
                    None \<Rightarrow> ''auto''
                  | Some m \<Rightarrow>
                      (case read_preference (ap_home a) (fit 80 (''backend-'' @ am_sha256 m)) 8 (ap_files a) of
                         None \<Rightarrow> ''auto''
                       | Some s \<Rightarrow> if (s \<noteq> ''cpu'' \<and> s \<noteq> ''gpu'') \<or> (s = ''gpu'' \<and> \<not> gpu_supported a model) then ''auto'' else s))
      in start_child_mode tm h path i mode (on_backend (\<lambda>b. b\<lparr>bk_notice := []\<rparr>) a))"

subsection \<open>The poll\<close>

record poll_help =
  po_gone :: bool
  po_page :: "lifecycle_shared option"
  po_identity :: "(string \<times> app_engine) option"
  po_page2 :: "lifecycle_shared option"
  po_preserved :: bool
  po_archived :: bool
  po_saved :: bool
  po_spawn :: spawn_help

text \<open>The process has ended or has been stopped at its time limit: the GPU falls back to the CPU once its
  diagnostics are kept.\<close>

definition poll_stopped :: "poll_help \<Rightarrow> app_state \<Rightarrow> app_state" where
  "poll_stopped h a =
     a\<lparr>ap_message := if \<not> generating a \<and> po_archived h
        then ''The model process stopped. Its diagnostics were preserved. Retry the model.''
        else ''The model process stopped. See server.log in the app data folder.''\<rparr>"

definition poll_ended :: "rat \<Rightarrow> poll_help \<Rightarrow> bool \<Rightarrow> app_state \<Rightarrow> app_state" where
  "poll_ended tm h timed_out a =
     (let a1 = (if timed_out then stop_child tm (po_gone h) a
                else runtime_paths_close (on_child (\<lambda>c. c\<lparr>ch_previous_pid := ch_pid c, ch_reaped_ms := tm\<rparr>) a));
          a2 = on_child (\<lambda>c. c\<lparr>ch_pid := 0, ch_ready := False\<rparr>) a1
      in if ac_generation (ap_load a2) > ap_generation a2 then a2
         else
           let a3 = load_end ''failed'' (if timed_out then 504 else 502) tm a2 in
           if bk_active (ap_backend a3) \<noteq> bk_cpu (ap_backend a3) then
             (if \<not> po_preserved h
              then a3\<lparr>ap_message := ''GPU failed. Diagnostics could not be archived; the model remains stopped.''\<rparr>
              else
                (case start_child_mode tm (po_spawn h) (ch_chosen (ap_child a3)) (Some (fit 64 (active_id a3))) ''cpu''
                    (on_backend (\<lambda>b. b\<lparr>bk_notice := ''GPU stopped or failed to load. Restored CPU; diagnostics are kept in the app ''
                       @ ''data folder.''\<rparr>) a3) of
                   (True, a4) \<Rightarrow> a4
                 | (False, a4) \<Rightarrow> poll_stopped h a4))
           else poll_stopped h a3)"

text \<open>The daemon answered: which processor it runs on, and which engine it is.\<close>

definition poll_answered :: "rat \<Rightarrow> poll_help \<Rightarrow> string \<Rightarrow> app_engine \<Rightarrow> app_state \<Rightarrow> app_state" where
  "poll_answered tm h reported identity a =
     (let a1 = lifecycle_sample (po_page2 h) a;
          a2 = on_child (\<lambda>c. c\<lparr>ch_engine := identity\<lparr>e_payload := e_payload (ch_engine c)\<rparr>\<rparr>) a1;
          a3 = on_backend (\<lambda>b. b\<lparr>bk_verified := (reported = bk_active b)\<rparr>) a2
      in if reported \<noteq> [] \<and> \<not> bk_verified (ap_backend a3)
         then (load_end ''failed'' 502 tm (stop_child tm (po_gone h) a3))
                \<lparr>ap_message := ''The engine reported a different processor. Reload the model.''\<rparr>
         else
           let a4 = on_child (\<lambda>c. c\<lparr>ch_loaded_ms := tm - ch_loading_started c, ch_ready := True\<rparr>) a3;
               a5 = a4\<lparr>ap_load := (ap_load a4)\<lparr>ac_engine := ch_engine (ap_child a4)\<rparr>\<rparr>;
               a6 = (load_end ''completed'' 0 tm (load_change ACT_READY tm a5))\<lparr>ap_message := []\<rparr>;
               a7 = (case find_model a6 (Some (active_id a6)) of
                       Some m \<Rightarrow>
                         if bk_save (ap_backend a6) then
                           (case save_preference (ap_home a6) (fit 80 (''backend-'' @ am_sha256 m)) (bk_mode (ap_backend a6))
                                (po_saved h) (ap_files a6) of
                              (True, fs) \<Rightarrow> a6\<lparr>ap_files := fs\<rparr>
                            | (False, fs) \<Rightarrow> on_backend (\<lambda>b. b\<lparr>bk_notice :=
                                ''The model is running, but its execution preference could not be saved.''\<rparr>) (a6\<lparr>ap_files := fs\<rparr>))
                         else a6
                     | None \<Rightarrow> a6)
           in on_backend (\<lambda>b. b\<lparr>bk_save := False\<rparr>) a7)"

definition poll_child :: "rat \<Rightarrow> poll_help \<Rightarrow> app_state \<Rightarrow> app_state" where
  "poll_child tm h a =
     (if pid a = 0 \<or> ap_stopping a then a
      else if fl_load_cancelled (ap_flags a) \<and> \<not> ready a
      then load_end ''cancelled'' 499 tm
             ((stop_child tm (po_gone h) (load_change ACT_STOPPING tm a))\<lparr>ap_message := ''Loading stopped.''\<rparr>)
      else
        let a1 = lifecycle_sample (po_page h) a;
            timed_out = (\<not> ready a1 \<and> tm - ch_loading_started (ap_child a1) > 120000)
        in if po_gone h \<or> timed_out then poll_ended tm h timed_out a1
           else if ready a1 \<or> tm - ch_probe_ms (ap_child a1) < 250 then a1
           else
             let a2 = on_child (\<lambda>c. c\<lparr>ch_probe_ms := tm\<rparr>) a1 in
             case po_identity h of None \<Rightarrow> a2 | Some (reported, identity) \<Rightarrow> poll_answered tm h reported identity a2)"

end
