(* ===== verification/Observe.thy ===== *)
theory Observe
  imports Child
begin

section \<open>Observing a request (src/src/app/observe.c)\<close>

text \<open>
  What is recorded around a request of the model: the record of the observation, the samples of the
  process while it runs, and its end, which hands the record to the journal and replaces a child that
  did not finish. The answers of the system are in \<open>sample_help\<close>; \<open>now\<close> is the time of day.
\<close>

record sample_help =
  sa_page :: "lifecycle_shared option"
  sa_now_ns :: u64
  sa_time :: int
  sa_process :: "app_process_sample option"
  sa_cpus :: "nat option"

definition memory_generation :: "nat \<Rightarrow> app_state \<Rightarrow> string" where
  "memory_generation cap a = fit cap (ap_instance a @ '':'' @ dec (unat (ap_generation a)))"

text \<open>The code of a Linux build, where the resident size comes from \<open>/proc\<close>.\<close>

definition memory_observe :: "sample_help \<Rightarrow> app_state \<Rightarrow> app_memory_record \<Rightarrow> app_memory_record" where
  "memory_observe h a m =
     (let sample = lifecycle_memory_read (if ch_lifecycle (ap_child a) then sa_page h else None) (ap_generation a);
          valid = (pid a > 0 \<and> \<not> ap_stopping a \<and> memory_generation 112 a = m_generation m
                   \<and> (case sample of None \<Rightarrow> False | Some s \<Rightarrow> l_process s = of_nat (pid a)))
      in app_memory_observe (if valid then sample else None) (sa_now_ns h) (Fin (of_int (sa_time h))) (m\<lparr>m_rss_source := 2\<rparr>))"

definition memory_process_sample :: "rat \<Rightarrow> sample_help \<Rightarrow> app_state \<Rightarrow> app_state" where
  "memory_process_sample tm h a =
     (if pid a = 0 \<or> ap_stopping a then on_observe (\<lambda>ob. ob\<lparr>ob_process := no_sample, ob_generation := 0\<rparr>) a
      else if ob_generation (ap_observe a) = ap_generation a \<and> tm - ob_process_ms (ap_observe a) < 2000 then a
      else on_observe (\<lambda>ob. ob\<lparr>ob_generation := ap_generation a, ob_process_ms := tm,
             ob_process := (case sa_process h of None \<Rightarrow> no_sample | Some s \<Rightarrow> s)\<rparr>) a)"

text \<open>What one sample adds to the window and to the record; the CPU share is the mean of the windows.\<close>

definition sample_record :: "sample_help \<Rightarrow> app_state \<Rightarrow> app_observe \<Rightarrow> perf_record \<Rightarrow> app_observe" where
  "sample_record h a o1 r =
     (let m = memory_observe h a (r_memory r);
          r1 = r\<lparr>r_memory := m\<lparr>m_rss_age_ms := if pid a > 0 then Fin 0 else Fin (-1)\<rparr>, r_rss := Fin (-1)\<rparr>
      in case (if pid a > 0 then sa_process h else None) of
           None \<Rightarrow> o1\<lparr>ob_record := Some r1\<rparr>
         | Some s \<Rightarrow>
             let rss = Fin (of_nat (unat (s_rss s)));
                 r2 = r1\<lparr>r_rss := rss, r_memory := (r_memory r1)\<lparr>m_rss_age_ms := Fin 0\<rparr>,
                         r_peak_rss := (if dlt (r_peak_rss r1) rss then rss else r_peak_rss r1), r_samples := r_samples r1 + 1\<rparr>
             in (case sa_cpus h of
                   None \<Rightarrow> o1\<lparr>ob_record := Some r2\<rparr>
                 | Some cpus \<Rightarrow>
                     let w = app_resource_update (Some s) cpus (ob_window o1);
                         o2 = o1\<lparr>ob_window := w\<rparr>
                     in if w_cpu_known w then
                          (let all = ob_cpu_sum o2 + w_cpu_percent w; n = ob_cpu_samples o2 + 1
                           in o2\<lparr>ob_cpu_sum := all, ob_cpu_samples := n,
                                 ob_record := Some (r2\<lparr>r_cpu_percent := Fin (all / of_nat n)\<rparr>)\<rparr>)
                        else o2\<lparr>ob_record := Some r2\<rparr>))"

definition observation_sample :: "rat \<Rightarrow> sample_help \<Rightarrow> bool \<Rightarrow> app_state \<Rightarrow> app_state" where
  "observation_sample tm h force a =
     (case ob_record (ap_observe a) of
        None \<Rightarrow> a
      | Some r \<Rightarrow>
          if \<not> force \<and> tm - ob_sample_ms (ap_observe a) < 2000 then a
          else on_observe (\<lambda>ob. sample_record h a (ob\<lparr>ob_sample_ms := tm\<rparr>) r) a)"

text \<open>One round of the monitor thread.\<close>

definition monitor_round :: "rat \<Rightarrow> poll_help \<Rightarrow> sample_help \<Rightarrow> sample_help \<Rightarrow> app_state \<Rightarrow> app_state" where
  "monitor_round tm p h h2 a = observation_sample tm h2 False (memory_process_sample tm h (poll_child tm p a))"

subsection \<open>Begin\<close>

text \<open>The record after \<open>memset\<close>; \<open>perf_begin\<close> sets its memory.\<close>

definition zero_record :: perf_record where
  "zero_record =
     \<lparr>r_schema = 0, r_memory = app_memory_reset, r_engine = no_engine, r_id = [], r_model = [], r_artifact = [],
      r_quantization = [], r_series = [], r_backend = [], r_source = [], r_outcome = [], r_finish = [], r_run = [],
      r_timestamp = Fin 0, r_generation_ns = Fin 0, r_first_ns = Fin 0, r_first_answer_ns = Fin 0, r_total_ns = Fin 0,
      r_prefill_ns = Fin 0, r_load_ns = Fin 0, r_rss = Fin 0, r_peak_rss = Fin 0, r_cpu_percent = Fin 0, r_input = 0,
      r_output = 0, r_reused = 0, r_epoch = 0, r_max_tokens = 0, r_threads = 0, r_samples = 0, r_temperature = Fin 0,
      r_top_p = Fin 0, r_cold = False, r_contention = False, r_warmup = False, r_enabled = False, r_reasoning = False\<rparr>"

text \<open>The requests of one runtime are counted modulo \<open>2 ^ 32\<close>; the first one is the cold one.\<close>

definition observed_record :: "string \<Rightarrow> nat \<Rightarrow> rat \<Rightarrow> rat \<Rightarrow> app_state \<Rightarrow> perf_record \<Rightarrow> perf_record" where
  "observed_record source max_tok temperature top_p a r0 =
     (let model = find_model a (Some (active_id a)); cold = (ch_requests (ap_child a) = 0) in
      r0\<lparr>r_engine := ch_engine (ap_child a),
         r_memory := (r_memory r0)\<lparr>m_generation := memory_generation 112 a\<rparr>,
         r_model := fit 65 (active_id a),
         r_artifact := (case model of Some m \<Rightarrow> fit 65 (am_sha256 m) | None \<Rightarrow> ''unknown-custom-artifact''),
         r_quantization := (case model of Some m \<Rightarrow> fit 32 (am_quantization m) | None \<Rightarrow> []),
         r_backend := fit 24 (bk_active (ap_backend a)),
         r_series := (case model of Some m \<Rightarrow> fit 768 (pr_series (ap_prefs a)) | None \<Rightarrow> ''unknown-custom-series''),
         r_source := fit 24 source,
         r_threads := ch_threads (ap_child a), r_max_tokens := max_tok, r_temperature := Fin temperature, r_top_p := Fin top_p,
         r_cold := cold, r_load_ns := (if cold then Fin (ch_loaded_ms (ap_child a) * 10 ^ 6) else Fin (-1)),
         r_contention := (job_running a \<and> \<not> jb_activate (ap_job a))\<rparr>)"

definition observation_begin ::
    "rat \<Rightarrow> sample_help \<Rightarrow> string \<Rightarrow> nat \<Rightarrow> rat \<Rightarrow> rat \<Rightarrow> app_state \<Rightarrow> app_state" where
  "observation_begin tm h source max_tok temperature top_p a =
     (let (r0, hist) = perf_begin (sa_time h) zero_record (ap_history a);
          r = observed_record source max_tok temperature top_p a r0;
          a1 = (on_child (\<lambda>c. c\<lparr>ch_requests := (ch_requests c + 1) mod 2 ^ 32\<rparr>) a)\<lparr>ap_history := hist\<rparr>;
          (x, a2) = begin_activity ACT_CONNECT (ap_generation a1) (Some (active_id a1)) tm a1;
          a3 = on_flags (\<lambda>f. f\<lparr>fl_request_cancelled := False\<rparr>) (a2\<lparr>ap_request := x\<rparr>);
          a4 = on_observe (\<lambda>ob. ob\<lparr>ob_record := Some r, ob_window := no_window, ob_cpu_samples := 0, ob_cpu_sum := 0\<rparr>) a3
      in observation_sample tm h True a4)"

subsection \<open>End\<close>

text \<open>What the run reports (\<open>struct app_run_stats\<close>), without the name of its stage.\<close>

record app_run_stats =
  rs_limited :: bool
  rs_reasoning :: bool
  rs_no_answer :: bool
  rs_max_tokens :: nat
  rs_first_answer_ns :: dbl
  rs_tokens :: nat
  rs_prompt_tokens :: nat
  rs_reused :: nat
  rs_generation_ns :: dbl
  rs_total_ns :: dbl
  rs_prefill_ns :: dbl

definition outcome_text :: "int \<Rightarrow> bool \<Rightarrow> string" where
  "outcome_text rc no_answer =
     (if rc = 499 then ''cancelled'' else if rc = 498 then ''disconnected''
      else if rc = 422 \<and> no_answer then ''no_answer'' else if rc = 400 then ''error''
      else if rc \<noteq> 0 then ''interrupted'' else if no_answer then ''no_answer'' else ''completed'')"

definition finished_record :: "int \<Rightarrow> rat \<Rightarrow> rat \<Rightarrow> app_run_stats \<Rightarrow> perf_record \<Rightarrow> perf_record" where
  "finished_record rc first elapsed st r =
     r\<lparr>r_generation_ns := rs_generation_ns st, r_first_ns := (if first > 0 then Fin (first * 10 ^ 6) else Fin (-1)),
       r_first_answer_ns := rs_first_answer_ns st, r_reasoning := rs_reasoning st,
       r_max_tokens := (if rs_max_tokens st \<noteq> 0 then rs_max_tokens st else r_max_tokens r),
       r_total_ns := Fin (elapsed * 10 ^ 6), r_prefill_ns := rs_prefill_ns st, r_input := rs_prompt_tokens st,
       r_output := rs_tokens st, r_reused := rs_reused st, r_outcome := outcome_text rc (rs_no_answer st),
       r_finish := (if rc \<noteq> 0 then ''unknown'' else if rs_limited st then ''length'' else ''stop'')\<rparr>"

record end_help =
  en_sample :: sample_help
  en_gone :: bool
  en_archived :: bool
  en_spawn :: spawn_help

text \<open>\<open>rc\<close> is the outcome of the run. One that did not finish leaves the child in an unknown place: it is
  stopped and, if its diagnostics could be kept, started again as it was.\<close>

definition observation_end ::
    "rat \<Rightarrow> end_help \<Rightarrow> int \<Rightarrow> rat \<Rightarrow> rat \<Rightarrow> app_run_stats \<Rightarrow> app_state \<Rightarrow> app_state" where
  "observation_end tm h rc0 first elapsed st a =
     (let a1 = observation_sample tm (en_sample h) True a;
          rc = (if rc0 = 498 \<and> fl_request_cancelled (ap_flags a1) then 499 else rc0);
          a2 = on_observe (\<lambda>ob. ob\<lparr>ob_record := None\<rparr>) a1;
          a3 = a2\<lparr>ap_request := snd (activity_end (if rc = 499 then ''cancelled'' else if rc \<noteq> 0 then ''failed'' else ''completed'')
                   rc tm (ap_request a2))\<rparr>;
          a4 = (case ob_record (ap_observe a1) of
                  None \<Rightarrow> a3
                | Some r \<Rightarrow> a3\<lparr>ap_history := perf_submit (sa_time (en_sample h)) (finished_record rc first elapsed st r) (ap_history a3)\<rparr>);
          a5 = restore_measurements a4;
          a6 = (if (rc = 499 \<or> rc = 498 \<or> rc = 502 \<or> rc = 504) \<and> \<not> closing a5 then
                  (let path = ch_chosen (ap_child a5); i = fit 64 (active_id a5); mode = fit 8 (bk_mode (ap_backend a5));
                       b = stop_child tm (en_gone h) (begin_load ACT_STOPPING (ap_generation a5 + 1) (Some i) tm a5)
                   in if en_archived h then snd (start_child_mode tm (en_spawn h) path (Some i) mode b)
                      else (load_end ''failed'' 502 tm b)\<lparr>ap_message := ''The model is stopped. Its diagnostics could not be archived.''\<rparr>)
                else a5)
      in on_child (\<lambda>c. c\<lparr>ch_generating := False\<rparr>) a6)"

end
