(* ===== verification/Jobs.thy ===== *)
theory Jobs
  imports Observe
begin

section \<open>The model job (src/src/app/jobs.c)\<close>

text \<open>
  The one job that downloads a model, verifies it and starts it. \<open>begin_job\<close> starts its thread; the
  thread takes the mutex a few times: \<open>job_receipt\<close>, \<open>job_verifying\<close>, \<open>job_verified\<close> and \<open>job_finish\<close>
  are these parts, \<open>job_verdict\<close> is what it does in between with the files. The answers of the file
  system and of the transfer are arguments.
\<close>

subsection \<open>What is installed\<close>

text \<open>\<open>sizes\<close> is \<open>regular_size\<close>: the size of a regular file that is not empty, 0 otherwise.\<close>

definition model_inventory :: "(string \<Rightarrow> u64) \<Rightarrow> app_state \<Rightarrow> app_inventory list" where
  "model_inventory sizes a =
     map (\<lambda>i.
       let m = ap_models a ! i; path = path_join (ap_models_dir a) (am_file m);
           (cpu, gpu) = pr_history (ap_prefs a) ! i
       in \<lparr>installed = (case path of Some p \<Rightarrow> sizes p = am_bytes m | None \<Rightarrow> False),
           partial_bytes = (case path of Some p \<Rightarrow> if length (p @ ''.part'') < APP_PATH_CAP then sizes (p @ ''.part'') else 0 | None \<Rightarrow> 0),
           tps = app_device_rate (Fin (pm_rate cpu)) (gpu_supported a (Some m)) (Fin (pm_rate gpu))\<rparr>)
     [0..<length (ap_models a)]"

subsection \<open>The transfer\<close>

record download_sink =
  ds_bytes :: u64
  ds_limit :: u64

text \<open>The progress is that of the load if the job starts the model, else that of the download.\<close>

definition job_activity :: "(activity \<Rightarrow> activity) \<Rightarrow> app_state \<Rightarrow> app_state" where
  "job_activity f a = (if jb_activate (ap_job a) then a\<lparr>ap_load := f (ap_load a)\<rparr> else a\<lparr>ap_download := f (ap_download a)\<rparr>)"

text \<open>\<open>count\<close> is what \<open>fwrite\<close> wrote of the block. The result is what the library is told.\<close>

definition download_write ::
    "rat \<Rightarrow> u64 \<Rightarrow> u64 \<Rightarrow> u64 \<Rightarrow> download_sink \<Rightarrow> app_state \<Rightarrow> u64 \<times> download_sink \<times> app_state" where
  "download_write tm elem n count s a =
     (if fl_cancelled (ap_flags a) \<or> closing a then (0, s, a)
      else case ckd_mul elem n of
        None \<Rightarrow> (0, s, a)
      | Some block \<Rightarrow>
          (case ckd_add (ds_bytes s) block of
             None \<Rightarrow> (0, s, a)
           | Some e \<Rightarrow>
               if e > ds_limit s then (0, s, a)
               else
                 let s1 = s\<lparr>ds_bytes := ds_bytes s + count\<rparr>
                 in (count, s1, job_activity (activity_progress (ds_bytes s1) tm)
                       (on_job (\<lambda>j. j\<lparr>jb_received := ds_bytes s1\<rparr>) a))))"

text \<open>The library calls it block by block until it is told of less than the block.\<close>

fun download_blocks :: "rat \<Rightarrow> (u64 \<times> u64 \<times> u64) list \<Rightarrow> download_sink \<Rightarrow> app_state \<Rightarrow> download_sink \<times> app_state" where
  "download_blocks tm [] s a = (s, a)"
| "download_blocks tm ((elem, n, count) # blocks) s a =
     (case download_write tm elem n count s a of
        (got, s1, a1) \<Rightarrow> if got = elem * n then download_blocks tm blocks s1 a1 else (s1, a1))"

text \<open>The partial file: whether it opens, its size if it is a regular file, the stream; the transfer with
  its blocks, its result and status; whether all reached the disk.\<close>

record download_help =
  dl_open :: "string option"
  dl_size :: "u64 option"
  dl_stream :: bool
  dl_transfer :: bool
  dl_blocks :: "(u64 \<times> u64 \<times> u64) list"
  dl_result :: "string option"
  dl_status :: int
  dl_synced :: bool
  dl_closed :: bool

definition download_model :: "rat \<Rightarrow> download_help \<Rightarrow> app_model \<Rightarrow> app_state \<Rightarrow> bool \<times> string \<times> app_state" where
  "download_model tm h m a =
     (case dl_open h of
        Some err \<Rightarrow> (False, fit 512 (''Cannot create download file: '' @ err), a)
      | None \<Rightarrow>
        (case dl_size h of
           None \<Rightarrow> (False, ''Invalid partial download. Remove the .part file and retry.'', a)
         | Some got \<Rightarrow>
           if got > am_bytes m then (False, ''Invalid partial download. Remove the .part file and retry.'', a)
           else
             let a1 = on_job (\<lambda>j. j\<lparr>jb_received := got\<rparr>) a in
             if \<not> dl_stream h then (False, ''Cannot open download stream.'', a1)
             else
               let done = (got = am_bytes m);
                   (s, a2) = (if \<not> done \<and> dl_transfer h then download_blocks tm (dl_blocks h) \<lparr>ds_bytes = got, ds_limit = am_bytes m\<rparr> a1
                              else (\<lparr>ds_bytes = got, ds_limit = am_bytes m\<rparr>, a1));
                   ok = (if done then True
                         else dl_transfer h \<and> dl_result h = None \<and> (dl_status h = 200 \<or> dl_status h = 206) \<and> ds_bytes s = am_bytes m);
                   why = (if ok then []
                          else if \<not> dl_transfer h then ''Cannot allocate the download connection.''
                          else fit 512 (''Download paused: '' @ (case dl_result h of None \<Rightarrow> ''No error'' | Some e \<Rightarrow> e)
                                        @ ''. Retry resumes the partial file.''))
               in if \<not> dl_synced h then (False, ''Cannot save download: disk full or I/O error.'', a2)
                  else (ok \<and> dl_closed h, why, a2)))"

subsection \<open>The stamp of a file\<close>

record model_stat =
  ms_dev :: nat
  ms_ino :: nat
  ms_size :: nat
  ms_mode :: nat
  ms_uid :: nat
  ms_gid :: nat
  ms_nlink :: nat
  ms_mtime :: int
  ms_mnsec :: int
  ms_ctime :: int
  ms_cnsec :: int

definition stamp_words :: "app_model \<Rightarrow> model_stat \<Rightarrow> string list" where
  "stamp_words m s =
     [''v1'', am_sha256 m, dec (ms_dev s), dec (ms_ino s), dec (ms_size s), dec (ms_mode s), dec (ms_uid s), dec (ms_gid s),
      dec (ms_nlink s), deci (ms_mtime s), deci (ms_mnsec s), deci (ms_ctime s), deci (ms_cnsec s)]"

fun words_line :: "string list \<Rightarrow> string" where
  "words_line [] = []"
| "words_line [w] = w"
| "words_line (w # v # ws) = w @ '' '' @ words_line (v # ws)"

text \<open>None if \<open>lstat\<close> fails, if the file is no regular one, or if it has another size.\<close>

definition model_stamp :: "app_model \<Rightarrow> model_stat option \<Rightarrow> string option" where
  "model_stamp m st =
     (case st of
        None \<Rightarrow> None
      | Some s \<Rightarrow>
          if ms_size s \<noteq> unat (am_bytes m) \<or> length (words_line (stamp_words m s)) \<ge> 512 then None
          else Some (words_line (stamp_words m s)))"

subsection \<open>The thread\<close>

text \<open>What the file system tells the thread: the file before it is read, its digest if it could be read
  without a cancellation, and the file after it; for a download the same file once more, whether it
  could be opened and renamed (or why not), whether the renamed file is the one that was verified, and
  its stamp.\<close>

record job_help =
  jh_before :: "model_stat option"
  jh_hash :: "string option"
  jh_after :: "model_stat option"
  jh_held :: bool
  jh_part :: "model_stat option"
  jh_rename :: "string option"
  jh_same :: bool
  jh_placed :: "model_stat option"

text \<open>What the thread knows at its end.\<close>

record job_result =
  jv_ok :: bool
  jv_cached :: bool
  jv_why :: string
  jv_stamp :: "string option"
  jv_unlink :: bool

definition receipt_key :: "app_model \<Rightarrow> string" where
  "receipt_key m = fit 80 (''verified-'' @ am_sha256 m)"

definition job_paths :: "app_model \<Rightarrow> app_state \<Rightarrow> bool" where
  "job_paths m a \<longleftrightarrow> (case path_join (ap_models_dir a) (am_file m) of None \<Rightarrow> False | Some p \<Rightarrow> length (p @ ''.part'') < APP_PATH_CAP)"

text \<open>The receipt counts if the file still has the stamp it names. \<open>ok\<close>: the paths fit and the download,
  if there was one, is complete.\<close>

definition job_cached :: "bool \<Rightarrow> app_model \<Rightarrow> job_help \<Rightarrow> app_state \<Rightarrow> bool" where
  "job_cached ok m h a \<longleftrightarrow>
     ok \<and> \<not> jb_download (ap_job a) \<and> model_stamp m (jh_before h) \<noteq> None
     \<and> read_preference (ap_home a) (receipt_key m) 512 (ap_files a) = model_stamp m (jh_before h)"

definition job_receipt :: "bool \<Rightarrow> app_state \<Rightarrow> app_state" where
  "job_receipt cached a =
     (if jb_activate (ap_job a)
      then on_job (\<lambda>j. j\<lparr>jb_receipt_checked := True, jb_receipt_hit := cached, jb_verified_bytes := 0\<rparr>) a else a)"

definition job_verifying :: "rat \<Rightarrow> app_state \<Rightarrow> app_state" where
  "job_verifying tm a = job_activity (activity_change ACT_HASH tm) (on_job (\<lambda>j. j\<lparr>jb_phase := ''verifying''\<rparr>) a)"

definition job_verified :: "app_model \<Rightarrow> app_state \<Rightarrow> app_state" where
  "job_verified m a = (if jb_activate (ap_job a) then on_job (\<lambda>j. j\<lparr>jb_verified_bytes := am_bytes m\<rparr>) a else a)"

text \<open>The verification, for a job that was not cancelled before it. \<open>stopped\<close> and \<open>stopped2\<close> are the
  cancellation as it is looked at after a mismatch and before the receipt is written.\<close>

definition job_verdict :: "bool \<Rightarrow> bool \<Rightarrow> app_model \<Rightarrow> bool \<Rightarrow> bool \<Rightarrow> job_help \<Rightarrow> job_result" where
  "job_verdict stopped stopped2 m download cached h =
     (let before = model_stamp m (jh_before h);
          hash_ok = (cached \<or> (before \<noteq> None \<and> jh_hash h \<noteq> None));
          stable = (model_stamp m (jh_after h) \<noteq> None \<and> before = model_stamp m (jh_after h));
          ok = (hash_ok \<and> stable \<and> (cached \<or> jh_hash h = Some (am_sha256 m)))
      in if \<not> ok then
           \<lparr>jv_ok = False, jv_cached = cached,
            jv_why = (if \<not> stopped \<and> \<not> (before = None \<or> (hash_ok \<and> stable))
                      then ''Cannot read the model for verification. Check disk and file permissions.''
                      else ''Checksum or size mismatch. The model was not started; download it again.''),
            jv_stamp = None, jv_unlink = (\<not> stopped \<and> (before = None \<or> (hash_ok \<and> stable)))\<rparr>
         else if download then
           (let same = (jh_held h \<and> model_stamp m (jh_part h) \<noteq> None \<and> before = model_stamp m (jh_part h));
                placed = (same \<and> jh_rename h = None \<and> jh_same h \<and> model_stamp m (jh_placed h) \<noteq> None)
            in \<lparr>jv_ok = placed, jv_cached = cached,
                jv_why = (if placed then []
                          else case jh_rename h of
                            Some err \<Rightarrow> if same then fit 512 (''Cannot finish download: '' @ err)
                                        else ''Cannot finish verification. The model file changed.''
                          | None \<Rightarrow> ''Cannot finish verification. The model file changed.''),
                jv_stamp = (if placed \<and> \<not> cached \<and> \<not> stopped2 then model_stamp m (jh_placed h) else None),
                jv_unlink = False\<rparr>)
         else \<lparr>jv_ok = True, jv_cached = cached, jv_why = [],
               jv_stamp = (if \<not> cached \<and> \<not> stopped2 then model_stamp m (jh_after h) else None), jv_unlink = False\<rparr>)"

text \<open>The receipt is written outside the mutex; then the thread takes it for the last time. \<open>ok\<close>, \<open>reason\<close>
  are its verdict, and after this part it returns.\<close>

definition save_receipt :: "app_model \<Rightarrow> string option \<Rightarrow> bool \<Rightarrow> app_state \<Rightarrow> app_state" where
  "save_receipt m stamp stored a =
     (case stamp of None \<Rightarrow> a | Some s \<Rightarrow> a\<lparr>ap_files := snd (save_preference (ap_home a) (receipt_key m) s stored (ap_files a))\<rparr>)"

definition job_finish :: "rat \<Rightarrow> spawn_help \<Rightarrow> bool \<Rightarrow> app_model \<Rightarrow> bool \<Rightarrow> string \<Rightarrow> app_state \<Rightarrow> app_state" where
  "job_finish tm h selection_saved m ok reason a =
     (let stopped = (fl_cancelled (ap_flags a) \<or> closing a);
          target = (case path_join (ap_models_dir a) (am_file m) of Some p \<Rightarrow> p | None \<Rightarrow> []);
          a1 = (if stopped then a\<lparr>ap_message := ''Download or verification cancelled. Partial downloads can be resumed.''\<rparr>
                else if ok then
                  (if \<not> jb_activate (ap_job a) then a\<lparr>ap_message := ''Download complete.''\<rparr>
                   else case start_child tm h target (Some (am_id m)) a of
                          (True, b) \<Rightarrow> snd (save_selection (am_id m) selection_saved b)
                        | (False, b) \<Rightarrow> b)
                else a\<lparr>ap_message := (if reason \<noteq> [] then reason else ''Cannot prepare the model.'')\<rparr>);
          a2 = (if stopped then job_activity (\<lambda>x. snd (activity_end ''cancelled'' 499 tm x)) a1
                else if \<not> ok \<or> (jb_activate (ap_job a1) \<and> pid a1 = 0)
                then job_activity (\<lambda>x. snd (activity_end ''failed'' 502 tm x)) a1
                else if \<not> jb_activate (ap_job a1) then job_activity (\<lambda>x. snd (activity_end ''completed'' 0 tm x)) a1
                else a1)
      in on_job (\<lambda>j. j\<lparr>jb_running := False, jb_phase := [], jb_thread := False\<rparr>) a2)"

subsection \<open>Begin\<close>

text \<open>\<open>created\<close>: the thread could be made. A finished thread is joined first.\<close>

definition begin_job :: "rat \<Rightarrow> bool \<Rightarrow> app_model \<Rightarrow> bool \<Rightarrow> bool \<Rightarrow> app_state \<Rightarrow> bool \<times> app_state" where
  "begin_job tm created m download activate a =
     (if am_unsupported_format m \<noteq> None \<or> am_backends m = 0
      then (False, a\<lparr>ap_message := ''This model requires PQ2_0 and Hadamard support, unavailable in the bundled engine.''\<rparr>)
      else
        let a1 = on_job (\<lambda>j. j\<lparr>jb_joinable := False\<rparr>) a;
            a2 = (if activate
                  then on_job (\<lambda>j. j\<lparr>jb_receipt_checked := False, jb_receipt_hit := False, jb_verified_bytes := 0\<rparr>) a1 else a1);
            (x, a3) = begin_activity (if download then ACT_DOWNLOAD else ACT_RECEIPT)
                        (if activate then ap_generation a2 + 1 else ap_generation a2) (Some (am_id m)) tm a2;
            a4 = (if activate then on_flags (\<lambda>f. f\<lparr>fl_load_cancelled := False\<rparr>) (a3\<lparr>ap_load := x\<rparr>) else a3\<lparr>ap_download := x\<rparr>);
            a5 = on_job (\<lambda>j. j\<lparr>jb_model := Some m, jb_download := download, jb_activate := activate, jb_running := True,
                   jb_received := 0, jb_phase := if download then ''downloading'' else ''preparing''\<rparr>) a4;
            a6 = (if download
                  then on_observe (\<lambda>ob. ob\<lparr>ob_record := map_option (\<lambda>r. r\<lparr>r_contention := True\<rparr>) (ob_record ob)\<rparr>) a5 else a5);
            a7 = on_flags (\<lambda>f. f\<lparr>fl_cancelled := False\<rparr>) (a6\<lparr>ap_message := []\<rparr>)
        in if created then (True, on_job (\<lambda>j. j\<lparr>jb_thread := True, jb_joinable := True\<rparr>) a7)
           else (False, (job_activity (\<lambda>x. snd (activity_end ''failed'' 503 tm x))
                   (on_job (\<lambda>j. j\<lparr>jb_running := False, jb_phase := []\<rparr>) a7))\<lparr>ap_message := ''Cannot start model worker.''\<rparr>))"

end
