(* ===== verification/Compare.thy ===== *)
theory Compare
  imports Jobs Compat
begin

section \<open>Comparing and switching processors (src/src/app/compare.c, src/src/app/status.c)\<close>

text \<open>
  The comparison of CPU and GPU on the loaded model, the parts of its thread that hold the mutex, and
  the request that switches the processor. A function that answers a request returns the answer; the
  bytes of an answer are those of \<open>request.c\<close>.
\<close>

datatype reply = Sent nat string string | Refused nat string | ApiRefused nat string | Admitted

definition done_reply :: "nat \<Rightarrow> reply" where
  "done_reply code = Sent code ''application/json'' ''{}''"

subsection \<open>The comparison\<close>

definition comparison_start :: "u64 \<Rightarrow> bool \<Rightarrow> string \<Rightarrow> app_arena \<Rightarrow> app_state \<Rightarrow> reply \<times> app_state" where
  "comparison_start json_bytes created body arena a =
     (case (fst (app_alloc 16 1 json_bytes 8 arena), json_parse body) of
        (Some _, Some j) \<Rightarrow>
          if \<not> json_bool j (json_get j 0 ''confirm'') False then (Refused 400 ''Confirm the local processor comparison.'', a)
          else if \<not> ready a \<or> generating a \<or> job_running a \<or> comparing a \<or> find_model a (Some (active_id a)) = None
          then (Refused 409 ''Load a model and wait for other work to finish.'', a)
          else
            let a1 = on_compare (\<lambda>c. c\<lparr>cm_joinable := False, cm_running := True, cm_step := 0, cm_result := [], cm_phase := ''loading''\<rparr>)
                       (on_flags (\<lambda>f. f\<lparr>fl_compare_cancelled := False\<rparr>) a);
                a2 = on_compare (\<lambda>c. c\<lparr>cm_thread := created, cm_joinable := created\<rparr>) a1;
                a3 = (if created then a2 else on_compare (\<lambda>c. c\<lparr>cm_running := False\<rparr>) a2)
            in (if created then done_reply 202 else Refused 503 ''Cannot start comparison.'', a3)
      | _ \<Rightarrow> (Refused 400 ''Confirm the local processor comparison.'', a))"

text \<open>\<open>comparison_cancel\<close> without a request: the flags.\<close>

definition compare_stopped :: "app_state \<Rightarrow> bool" where
  "compare_stopped a \<longleftrightarrow> fl_compare_cancelled (ap_flags a) \<or> closing a"

text \<open>What the thread takes over at its beginning: the file, the model, the mode to restore, and the
  number of processors to measure.\<close>

definition comparison_take :: "app_state \<Rightarrow> (string \<times> string \<times> string \<times> nat) \<times> app_state" where
  "comparison_take a =
     ((ch_chosen (ap_child a), active_id a, bk_mode (ap_backend a),
       if gpu_supported a (find_model a (Some (active_id a))) then 2 else 1),
      on_compare (\<lambda>c. c\<lparr>cm_user_mode := bk_mode (ap_backend a)\<rparr>) a)"

definition comparison_switch ::
    "rat \<Rightarrow> spawn_help \<Rightarrow> string \<Rightarrow> string \<Rightarrow> nat \<Rightarrow> app_state \<Rightarrow> bool \<times> app_state" where
  "comparison_switch tm h path i slot a =
     (let a1 = on_compare (\<lambda>c. c\<lparr>cm_phase := ''loading''\<rparr>) a;
          (ok, a2) = (if compare_stopped a1 then (False, a1)
                      else start_child_mode tm h path (Some i) (if slot \<noteq> 0 then ''gpu'' else ''cpu'') a1)
      in (ok, on_backend (\<lambda>b. b\<lparr>bk_save := False\<rparr>) a2))"

definition comparison_measure ::
    "rat \<Rightarrow> sample_help \<Rightarrow> string \<Rightarrow> nat \<Rightarrow> nat \<Rightarrow> app_state \<Rightarrow> app_state" where
  "comparison_measure tm h run slot repeat a =
     (let a1 = on_compare (\<lambda>c. c\<lparr>cm_step := slot * 4 + repeat + 1, cm_phase := if repeat \<noteq> 0 then ''measuring'' else ''warmup''\<rparr>)
                 (on_child (\<lambda>c. c\<lparr>ch_generating := True\<rparr>) a);
          a2 = observation_begin tm h ''controlled_test'' 128 0 1 a1
      in on_observe (\<lambda>ob. ob\<lparr>ob_record := map_option (\<lambda>r. r\<lparr>r_warmup := (repeat = 0), r_run := fit 80 run\<rparr>) (ob_record ob)\<rparr>) a2)"

definition comparison_measured ::
    "rat \<Rightarrow> end_help \<Rightarrow> int \<Rightarrow> rat \<Rightarrow> rat \<Rightarrow> app_run_stats \<Rightarrow> app_state \<Rightarrow> app_state" where
  "comparison_measured tm h rc first elapsed st a =
     observation_end tm h (if compare_stopped a then 499 else rc) first elapsed st a"

definition comparison_restore ::
    "rat \<Rightarrow> spawn_help \<Rightarrow> string \<Rightarrow> string \<Rightarrow> string \<Rightarrow> app_state \<Rightarrow> bool \<times> app_state" where
  "comparison_restore tm h path i previous a =
     (let a1 = on_compare (\<lambda>c. c\<lparr>cm_phase := ''restoring''\<rparr>) a;
          (ok, a2) = (if closing a1 then (False, a1) else start_child_mode tm h path (Some i) previous a1)
      in (ok, on_backend (\<lambda>b. b\<lparr>bk_save := False\<rparr>) a2))"

definition comparison_finish :: "bool \<Rightarrow> bool \<Rightarrow> app_state \<Rightarrow> app_state" where
  "comparison_finish restored ok a =
     on_compare (\<lambda>c. c\<lparr>cm_running := False, cm_thread := False, cm_phase := [],
       cm_result := (if \<not> restored then ''restore_failed'' else if compare_stopped a then ''cancelled''
                     else if ok then ''completed'' else ''failed'')\<rparr>) a"

subsection \<open>Switching\<close>

definition execution_response ::
    "rat \<Rightarrow> spawn_help \<Rightarrow> spawn_help \<Rightarrow> bool \<Rightarrow> string \<Rightarrow> app_state \<Rightarrow> reply \<times> app_state" where
  "execution_response tm h h2 stored text a =
     (case Option.bind (json_parse text) (\<lambda>j. json_strdup j (json_get j 0 ''mode'')) of
        None \<Rightarrow> (Refused 400 ''Choose Auto, CPU or GPU.'', a)
      | Some mode \<Rightarrow>
          if mode \<notin> {''auto'', ''cpu'', ''gpu''} then (Refused 400 ''Choose Auto, CPU or GPU.'', a)
          else
            let model = find_model a (Some (active_id a)) in
            if \<not> ready a \<or> comparing a \<or> generating a \<or> job_running a
            then (Refused 409 ''Wait until the loaded model is idle before changing execution.'', a)
            else if mode = ''gpu'' \<and> \<not> gpu_supported a model
            then (Refused 409 ''GPU is not supported by this model and packaged engine.'', a)
            else if (if gpu_wanted mode model a then bk_gpu (ap_backend a) else bk_cpu (ap_backend a)) = bk_active (ap_backend a) then
              (let (ok, fs) = (case model of
                    None \<Rightarrow> (True, ap_files a)
                  | Some m \<Rightarrow> save_preference (ap_home a) (fit 80 (''backend-'' @ am_sha256 m)) mode stored (ap_files a))
               in if \<not> ok then (Refused 500 ''Cannot save execution preference.'', a\<lparr>ap_files := fs\<rparr>)
                  else (done_reply 200, on_backend (\<lambda>b. b\<lparr>bk_mode := mode, bk_notice := []\<rparr>) (a\<lparr>ap_files := fs\<rparr>)))
            else
              (let path = ch_chosen (ap_child a); i = active_id a in
               case start_child_mode tm h path (Some i) mode (on_backend (\<lambda>b. b\<lparr>bk_notice := []\<rparr>) a) of
                 (True, a1) \<Rightarrow> (done_reply 202, a1)
               | (False, a1) \<Rightarrow>
                   (Refused 500 ''Cannot change execution. Restoring CPU.'', snd (start_child_mode tm h2 path (Some i) ''cpu'' a1))))"

end
