(* ===== verification/Routes.thy ===== *)
theory Routes
  imports Compare
begin

section \<open>Requests of the user interface and of other programs (src/src/app/routes.c, catalog.c, status.c, chat.c)\<close>

text \<open>
  \<open>handle\<close> and the functions it calls with the mutex held: what each path does to the state and what
  it answers. A request to the model is followed up to its admission (\<open>Admitted\<close>); \<open>observation_end\<close>
  is its end. What a request meets outside the state is the record \<open>world\<close>. A request saves at most
  one preference, so one flag says whether that works.
\<close>

record world =
  w_tm :: rat
  w_now :: int
  w_json_bytes :: u64
  w_stored :: bool
  w_created :: bool
  w_gone :: bool
  w_sample :: sample_help
  w_spawn :: spawn_help
  w_spawn2 :: spawn_help
  w_sizes :: "string \<Rightarrow> u64"
  w_stat :: "string \<Rightarrow> model_stat option"
  w_hardware :: "app_hardware option"
  w_hardware2 :: "app_hardware option"
  w_assess :: assessor
  w_geistr_catalog :: "string \<Rightarrow> (app_model list \<times> nat) option"
  w_asset :: "string \<Rightarrow> string"
  w_tasks_json :: string
  w_verdict :: "string \<Rightarrow> string option"
  w_removed :: bool
  w_compacted :: bool
  w_to_float :: "rat \<Rightarrow> rat"

subsection \<open>The catalog\<close>

definition APP_CATALOG_BYTES :: nat where "APP_CATALOG_BYTES = 24576"
definition APP_MODEL_COUNT :: nat where "APP_MODEL_COUNT = 32"

text \<open>The rules of a catalog are those of geist-runtime, \<open>geistr\<close>; the application adds its own limits.\<close>

definition app_catalog_parse ::
    "(string \<Rightarrow> (app_model list \<times> nat) option) \<Rightarrow> string \<Rightarrow> (app_model list \<times> nat) option" where
  "app_catalog_parse geistr text =
     (if length text > APP_CATALOG_BYTES then None
      else case geistr text of
             None \<Rightarrow> None
           | Some (ms, revision) \<Rightarrow> if length ms > APP_MODEL_COUNT then None else Some (ms, revision))"

definition catalog_invalid :: string where
  "catalog_invalid = ''Invalid model catalog. Check schema, entries and unique IDs/files.''"

text \<open>A file name of the present catalog that would get another content while such a file exists.\<close>

definition reassigned :: "(string \<Rightarrow> u64) \<Rightarrow> app_model list \<Rightarrow> app_state \<Rightarrow> bool" where
  "reassigned sizes ms a \<longleftrightarrow>
     (\<exists>old \<in> set (ap_models a). \<exists>new \<in> set ms.
        am_file old = am_file new \<and> (am_sha256 old \<noteq> am_sha256 new \<or> am_bytes old \<noteq> am_bytes new)
        \<and> (case path_join (ap_models_dir a) (am_file old) of
             None \<Rightarrow> False
           | Some p \<Rightarrow> sizes p \<noteq> 0 \<or> (length (p @ ''.part'') < APP_PATH_CAP \<and> sizes (p @ ''.part'') \<noteq> 0)))"

definition running_changed :: "app_model list \<Rightarrow> app_state \<Rightarrow> bool" where
  "running_changed ms a \<longleftrightarrow>
     ready a
     \<and> (case find_model a (Some (active_id a)) of
          None \<Rightarrow> False
        | Some old \<Rightarrow>
            (case app_model_find ms (Some (active_id a)) of
               None \<Rightarrow> True
             | Some k \<Rightarrow> am_sha256 old \<noteq> am_sha256 (ms ! k) \<or> am_file old \<noteq> am_file (ms ! k)
                 \<or> am_backends old \<noteq> am_backends (ms ! k) \<or> am_bytes old \<noteq> am_bytes (ms ! k)))"

definition import_catalog :: "world \<Rightarrow> string \<Rightarrow> app_state \<Rightarrow> reply \<times> app_state" where
  "import_catalog w text a =
     (case app_catalog_parse (w_geistr_catalog w) text of
        None \<Rightarrow> (Refused 400 catalog_invalid, a)
      | Some (ms, revision) \<Rightarrow>
          if comparing a \<or> job_running a \<or> generating a \<or> (pid a \<noteq> 0 \<and> \<not> ready a)
          then (Refused 409 ''Finish the current operation before importing a catalog.'', a)
          else if revision \<le> ap_revision a then (Refused 409 ''Import a catalog with a newer revision.'', a)
          else if running_changed ms a
          then (Refused 409 ''The running model must stay unchanged in this catalog.'', a)
          else if reassigned (w_sizes w) ms a
          then (Refused 409 ''Use a new filename when replacing an existing model hash.'', a)
          else
            (case save_preference (ap_home a) ''catalog.json'' text (w_stored w) (ap_files a) of
               (False, fs) \<Rightarrow> (Refused 500 ''Cannot save the catalog. The previous catalog is kept.'', a\<lparr>ap_files := fs\<rparr>)
             | (True, fs) \<Rightarrow>
                 let a1 = a\<lparr>ap_files := fs, ap_models := ms, ap_revision := revision, ap_catalog := text\<rparr>;
                     a2 = restore_measurements (restore_preview_preferences a1)
                 in (done_reply 200,
                     if find_model a2 (Some (pr_selected (ap_prefs a2))) = None
                     then a2\<lparr>ap_prefs := (ap_prefs a2)\<lparr>pr_selected := []\<rparr>\<rparr> else a2)))"

subsection \<open>Asking the model\<close>

text \<open>Whether the one session of the daemon is free.\<close>

definition model_busy :: "app_state \<Rightarrow> bool" where
  "model_busy a \<longleftrightarrow> closing a \<or> \<not> ready a \<or> comparing a \<or> (job_running a \<and> jb_activate (ap_job a))"

definition admit ::
    "world \<Rightarrow> string \<Rightarrow> nat \<Rightarrow> rat \<Rightarrow> rat \<Rightarrow> app_state \<Rightarrow> app_state" where
  "admit w source max_tok temperature top_p a =
     observation_begin (w_tm w) (w_sample w) source max_tok temperature top_p (on_child (\<lambda>c. c\<lparr>ch_generating := True\<rparr>) a)"

definition completions :: "world \<Rightarrow> string \<Rightarrow> app_arena \<Rightarrow> app_state \<Rightarrow> reply \<times> app_state" where
  "completions w body arena a =
     (case app_chat_parse (w_to_float w) (w_json_bytes w) body arena of
        (Inl (code, msg), _) \<Rightarrow> (ApiRefused code msg, a)
      | (Inr chat, ar) \<Rightarrow>
          let (t, ar1) = app_alloc 16 32768 1 1 ar; (b, ar2) = app_alloc 16 65536 1 1 ar1 in
          if t = None \<or> b = None then (ApiRefused 503 ''Request memory budget exhausted.'', a)
          else if model_busy a then (ApiRefused 503 ''Select and load a model in geisten first.'', a)
          else if c_model chat \<noteq> active_id a
          then (ApiRefused 404 ''Requested model is not loaded. Refresh /v1/models after changing models.'', a)
          else if generating a
          then (ApiRefused 429 ''The shared model is busy. Retry after the current request completes.'', a)
          else (Admitted, admit w ''api'' (c_max_tokens chat) (c_temperature chat) (c_top_p chat) a))"

subsection \<open>What other programs are told\<close>

definition connections_json :: "bool \<Rightarrow> app_state \<Rightarrow> app_buffer \<Rightarrow> app_buffer" where
  \<open>connections_json models a = stmts
     (if models then
        [app_put ''{"object":"list","data":['']
        @ (if ready a then
             [app_put ''{"id":'', app_quote (active_id a),
              app_put ('',"object":"model","created":0,"owned_by":"local","context_window":4096,"capabilities":''
                       @ ''{"chat":true,"tools":false,"vision":false}}'')]
           else [])
        @ [app_put '']}'']
      else
        [app_printf (''{"base_url":"http://127.0.0.1:'' @ dec (ap_port a) @ ''/v1","api_key":''), app_quote (ap_token a),
         app_put '',"socket":'', (if ap_api_socket a \<noteq> [] then app_quote (ap_api_socket a) else app_put ''null''),
         app_put '',"model":'', app_quote (if pid a > 0 then active_id a else []),
         app_printf ('',"ready":'' @ (if ready a then ''true'' else ''false'') @ '',"daemon_pid":'' @ dec (pid a)
           @ '',"context_tokens":4096,"max_output_tokens":4095,"chat":true,"tools":false,"quality":"unverified"}'')])\<close>

definition connections :: "bool \<Rightarrow> app_state \<Rightarrow> reply" where
  "connections models a =
     (let b = connections_json models a \<lparr>b_data = [], b_len = 0, b_cap = 4096, b_failed = False\<rparr>
      in if b_failed b then ApiRefused 503 ''Connection description exceeds capacity.''
         else Sent 200 ''application/json'' (b_data b))"

subsection \<open>Measurements and settings\<close>

definition performance_clear :: "world \<Rightarrow> json \<Rightarrow> app_state \<Rightarrow> reply \<times> app_state" where
  "performance_clear w j a =
     (if \<not> json_bool j (json_get j 0 ''confirm'') False
      then (Refused 400 ''Confirm deleting local measurement history.'', a)
      else case perf_clear (w_removed w) (ap_history a) of
             (ok, p) \<Rightarrow> (if ok then done_reply 200 else Refused 503 ''History could not be saved.'',
                         restore_measurements (a\<lparr>ap_history := p\<rparr>)))"

definition performance_settings :: "world \<Rightarrow> json \<Rightarrow> app_state \<Rightarrow> reply \<times> app_state" where
  "performance_settings w j a =
     (let days = json_num j (json_get j 0 ''days'') (Fin 0); enabled = json_get j 0 ''enabled'' in
      if \<not> (literal j enabled ''true'' \<or> literal j enabled ''false'') \<or> days \<notin> {Fin 30, Fin 90, Fin 365}
      then (Refused 400 ''Choose 30, 90 or 365 days.'', a)
      else case perf_settings (w_now w) (w_stored w) (w_compacted w) (json_bool j enabled False) (nat \<lfloor>drat days\<rfloor>) (ap_history a) of
             (ok, p) \<Rightarrow> (if ok then done_reply 200 else Refused 503 ''History could not be saved.'', a\<lparr>ap_history := p\<rparr>))"

text \<open>The text of the thresholds, made of the body and checked with \<open>printf\<close> and \<open>sscanf\<close>, is \<open>w_verdict\<close>.\<close>

definition verdict_settings :: "world \<Rightarrow> string \<Rightarrow> app_state \<Rightarrow> reply \<times> app_state" where
  "verdict_settings w body a =
     (case w_verdict w body of
        None \<Rightarrow> (Refused 400 (''Use 1 '' @ [CHR 0xE2, CHR 0x89, CHR 0xA4] @ '' fast '' @ [CHR 0xE2, CHR 0x89, CHR 0xA4] @ '' usable ''
                  @ [CHR 0xE2, CHR 0x89, CHR 0xA4] @ '' 3600 s, a pass rate from 0.5 to 1 and a known intent.''), a)
      | Some text \<Rightarrow>
          (case save_preference (ap_home a) ''verdict-settings'' text (w_stored w) (ap_files a) of
             (True, fs) \<Rightarrow> (done_reply 200, a\<lparr>ap_files := fs\<rparr>)
           | (False, fs) \<Rightarrow> (Refused 500 ''Cannot save the verdict settings.'', a\<lparr>ap_files := fs\<rparr>)))"

subsection \<open>Stopping things\<close>

definition activity_cancel :: "world \<Rightarrow> string \<Rightarrow> app_arena \<Rightarrow> app_state \<Rightarrow> reply \<times> app_state" where
  "activity_cancel w body arena a =
     (case (fst (app_alloc 16 1 (w_json_bytes w) 8 arena), json_parse body) of
        (Some _, Some j) \<Rightarrow>
          let x = (if generating a then ap_request a else ap_load a);
              i = json_num j (json_get j 0 ''id'') (Fin 0);
              valid = (json_strdup j (json_get j 0 ''instance'') = Some (ap_instance a)
                \<and> json_num j (json_get j 0 ''generation'') (Fin (-1)) = Fin (of_nat (unat (ac_generation x)))
                \<and> dlt (Fin 0) i \<and> i = Fin (of_nat (unat (ac_id x))) \<and> ac_outcome x = []
                \<and> (generating a \<or> job_running a \<or> (pid a \<noteq> 0 \<and> \<not> ready a)))
          in if \<not> valid then (Refused 409 ''This operation is no longer active.'', a)
             else if generating a then
               (done_reply 202, on_flags (\<lambda>f. f\<lparr>fl_request_cancelled := True,
                   fl_compare_cancelled := fl_compare_cancelled f \<or> comparing a\<rparr>)
                 (a\<lparr>ap_request := activity_change ACT_STOPPING (w_tm w) (ap_request a)\<rparr>))
             else
               (done_reply 202, on_flags (\<lambda>f. f\<lparr>fl_load_cancelled := True,
                   fl_cancelled := fl_cancelled f \<or> jb_activate (ap_job a)\<rparr>)
                 (a\<lparr>ap_load := activity_change ACT_STOPPING (w_tm w) (ap_load a)\<rparr>))
      | _ \<Rightarrow> (Refused 409 ''This operation is no longer active.'', a))"

definition quit_if_idle :: "app_state \<Rightarrow> reply \<times> app_state" where
  "quit_if_idle a =
     (if comparing a \<or> generating a \<or> job_running a \<or> (pid a \<noteq> 0 \<and> \<not> ready a)
      then (Refused 409 ''Finish the current task before updating geisten.'', a)
      else (done_reply 202, on_flags (\<lambda>f. f\<lparr>fl_closing := True\<rparr>) a))"

definition stop_model :: "world \<Rightarrow> app_state \<Rightarrow> reply \<times> app_state" where
  "stop_model w a =
     (if ap_stopping a \<or> comparing a \<or> generating a \<or> job_running a then (Refused 409 ''Stop the current task first.'', a)
      else (done_reply 200,
            (on_backend (\<lambda>b. b\<lparr>bk_notice := []\<rparr>)
              (on_child (\<lambda>c. c\<lparr>ch_active := [], ch_active_id := []\<rparr>) (stop_child (w_tm w) (w_gone w) a)))\<lparr>ap_message := []\<rparr>))"

end
