(* ===== verification/Actions.thy ===== *)
theory Actions
  imports Routes
begin

section \<open>Dispatch, and the actions on a model (src/src/app/routes.c)\<close>

text \<open>
  The rest of \<open>handle\<close>: consent, download, removal, selection and setup of a model, and the dispatch
  of every path. \<open>remove_model\<close> also returns the names it removes from the models folder.
\<close>

subsection \<open>Consent and removal\<close>

definition preview_model :: "world \<Rightarrow> json \<Rightarrow> nat \<Rightarrow> app_state \<Rightarrow> reply \<times> app_state" where
  "preview_model w j k a =
     (let m = ap_models a ! k in
      if \<not> json_bool j (json_get j 0 ''experimental'') False then (Refused 400 ''Preview consent must be explicit.'', a)
      else case save_preference (ap_home a) (fit 80 (''preview-'' @ am_sha256 m)) ''v1'' (w_stored w) (ap_files a) of
             (True, fs) \<Rightarrow> (done_reply 200, a\<lparr>ap_files := fs, ap_prefs := (ap_prefs a)\<lparr>pr_preview := (pr_preview (ap_prefs a))[k := True]\<rparr>\<rparr>)
           | (False, fs) \<Rightarrow> (Refused 500 ''Cannot save preview consent.'', a\<lparr>ap_files := fs\<rparr>))"

text \<open>What the models folder says of a name, and whether it opens and a name can be removed from it.\<close>

datatype looked = Missing | Regular | Odd

record folder_help =
  fo_open :: bool
  fo_look :: "string \<Rightarrow> looked"
  fo_unlink :: "string \<Rightarrow> bool"

text \<open>Names are removed one after the other until one cannot be; a missing one counts as removed.\<close>

fun unlink_all :: "folder_help \<Rightarrow> string list \<Rightarrow> bool \<times> string list" where
  "unlink_all h [] = (True, [])"
| "unlink_all h (n # ns) =
     (if fo_look h n = Missing then unlink_all h ns
      else if fo_unlink h n then (case unlink_all h ns of (ok, gone) \<Rightarrow> (ok, n # gone))
      else (False, []))"

definition remove_model :: "world \<Rightarrow> folder_help \<Rightarrow> app_model \<Rightarrow> app_state \<Rightarrow> reply \<times> string list \<times> app_state" where
  "remove_model w h m a =
     (case path_join (ap_models_dir a) (am_file m) of
        None \<Rightarrow> (Refused 409 ''Cannot remove this download safely.'', [], a)
      | Some path \<Rightarrow>
          let names = [am_file m, am_file m @ ''.part''];
              safe = (fo_open h \<and> length (am_file m @ ''.part'') < 256 \<and> (\<forall>n \<in> set names. fo_look h n \<noteq> Odd));
              a1 = (if safe \<and> pid a > 0 \<and> (active_id a = am_id m \<or> ch_chosen (ap_child a) = path)
                    then stop_child (w_tm w) (w_gone w) a else a);
              (safe1, gone) = (if safe then unlink_all h names else (False, []));
              (safe2, a2) = (if safe1 \<and> pr_selected (ap_prefs a1) = am_id m then save_selection [] (w_stored w) a1 else (safe1, a1));
              a3 = (if safe2 then
                      (if active_id a2 = am_id m
                       then on_backend (\<lambda>b. b\<lparr>bk_notice := []\<rparr>) (on_child (\<lambda>c. c\<lparr>ch_active_id := [], ch_active := []\<rparr>) a2)
                       else a2)\<lparr>ap_message := []\<rparr>
                    else a2)
          in (if safe2 then done_reply 200 else Refused 409 ''Cannot remove this download safely.'', gone, a3))"

subsection \<open>Selection, download and setup\<close>

definition usable_disk :: "u64 \<Rightarrow> app_model \<Rightarrow> app_hardware \<Rightarrow> app_hardware" where
  "usable_disk part m h = (if part \<le> am_bytes m \<and> -1 - h_disk h > part then h\<lparr>h_disk := h_disk h + part\<rparr> else h)"

text \<open>The model that runs already, with its file unchanged since it was verified.\<close>

definition already_running :: "world \<Rightarrow> app_model \<Rightarrow> string \<Rightarrow> app_state \<Rightarrow> bool" where
  "already_running w m path a \<longleftrightarrow>
     ready a \<and> active_id a = am_id m \<and> ch_chosen (ap_child a) = path
     \<and> model_stamp m (w_stat w path) \<noteq> None
     \<and> read_preference (ap_home a) (receipt_key m) 512 (ap_files a) = model_stamp m (w_stat w path)"

definition setup_choice :: "world \<Rightarrow> nat \<Rightarrow> app_state \<Rightarrow> bool" where
  "setup_choice w k a \<longleftrightarrow>
     (case w_hardware2 w of
        None \<Rightarrow> False
      | Some h \<Rightarrow>
          let c = app_recommend (ap_models a) h (model_inventory (w_sizes w) a) (Some (pr_selected (ap_prefs a)))
                    (if ready a then Some (active_id a) else None)
          in is_eligible c \<and> chosen c = Some k)"

definition use_model :: "world \<Rightarrow> bool \<Rightarrow> bool \<Rightarrow> nat \<Rightarrow> app_state \<Rightarrow> reply \<times> app_state" where
  "use_model w setup download0 k a =
     (let m = ap_models a ! k;
          path = path_join (ap_models_dir a) (am_file m);
          inst = (case path of None \<Rightarrow> False | Some p \<Rightarrow> w_sizes w p = am_bytes m)
      in if \<not> download0 \<and> inst \<and> already_running w m (the path) a then (done_reply 200, a)
         else if setup \<and> \<not> setup_choice w k a
         then (Refused 409 ''The platform check changed. Review the setup suggestion and retry.'', a)
         else
           let download = (if setup then \<not> inst else download0) in
           (case w_hardware w of
              None \<Rightarrow> (Refused 409 ''Cannot read this computer's resources.'', a)
            | Some hw \<Rightarrow>
                let h = (case path of
                           Some p \<Rightarrow> if length (p @ ''.part'') < APP_PATH_CAP then usable_disk (w_sizes w (p @ ''.part'')) m hw else hw
                         | None \<Rightarrow> hw);
                    s = app_assess (w_assess w) h m (inst \<and> \<not> download)
                in if as_fit s = APP_UNAVAILABLE then (Refused 409 (as_reason s), a)
                   else if \<not> download \<and> \<not> inst then (Refused 409 ''Download this model first.'', a)
                   else
                     let activate = (\<not> download \<or> pid a = 0);
                         (saved, a1) = (if activate \<and> pid a = 0 then save_selection (am_id m) (w_stored w) a else (True, a));
                         (ok, a2) = (if saved then begin_job (w_tm w) (w_created w) m download activate a1 else (False, a1))
                     in (if ok then done_reply 202 else Refused 503 ''Cannot start model worker.'', a2)))"

definition set_preferences :: "world \<Rightarrow> json \<Rightarrow> app_state \<Rightarrow> reply \<times> app_state" where
  "set_preferences w j a =
     (case json_strdup j (json_get j 0 ''language'') of
        Some language \<Rightarrow>
          if language \<noteq> ''de'' \<and> language \<noteq> ''en'' then (Refused 400 ''Choose English or German.'', a)
          else (case save_preference (ap_home a) ''answer-language'' language (w_stored w) (ap_files a) of
                  (True, fs) \<Rightarrow> (done_reply 200, a\<lparr>ap_files := fs, ap_prefs := (ap_prefs a)\<lparr>pr_answer_language := language\<rparr>\<rparr>)
                | (False, fs) \<Rightarrow> (Refused 500 ''Cannot save language preference.'', a\<lparr>ap_files := fs\<rparr>))
      | None \<Rightarrow> (Refused 400 ''Choose English or German.'', a))"

text \<open>The guard in front of every action on a model.\<close>

definition action_blocked :: "bool \<Rightarrow> bool \<Rightarrow> app_model \<Rightarrow> app_state \<Rightarrow> bool" where
  "action_blocked preview download m a \<longleftrightarrow>
     closing a \<or> ap_stopping a \<or> comparing a \<or> (\<not> preview \<and> job_running a)
     \<or> (generating a \<and> \<not> preview \<and> \<not> (download \<and> pid a > 0 \<and> am_id m \<noteq> active_id a))
     \<or> (download \<and> pid a > 0 \<and> am_id m = active_id a)"

definition model_action :: "world \<Rightarrow> folder_help \<Rightarrow> string \<Rightarrow> string \<Rightarrow> app_arena \<Rightarrow> app_state \<Rightarrow> reply \<times> string list \<times> app_state" where
  "model_action w f path body arena a =
     (if fst (app_alloc 16 1 (w_json_bytes w) 8 arena) = None then (Refused 503 ''Request memory budget exhausted.'', [], a)
      else case json_parse body of
        None \<Rightarrow> (Refused 400 ''Invalid JSON.'', [], a)
      | Some j \<Rightarrow>
          if path = ''/app/preferences'' then (case set_preferences w j a of (r, b) \<Rightarrow> (r, [], b))
          else
            (case app_model_find (ap_models a) (json_strdup j (json_get j 0 ''id'')) of
               None \<Rightarrow> (Refused 400 ''Choose a model from the catalog.'', [], a)
             | Some k \<Rightarrow>
                 let m = ap_models a ! k; preview = (path = ''/app/preview''); download = (path = ''/app/download'') in
                 if action_blocked preview download m a then (Refused 409 ''Another task is active.'', [], a)
                 else if preview then (case preview_model w j k a of (r, b) \<Rightarrow> (r, [], b))
                 else if path = ''/app/remove'' then remove_model w f m a
                 else (case use_model w (path = ''/app/setup'') download k a of (r, b) \<Rightarrow> (r, [], b))))"

subsection \<open>Dispatch\<close>

definition assets :: "(string \<times> string) list" where
  "assets = [(''/'', ''text/html; charset=utf-8''), (''/app.css'', ''text/css; charset=utf-8''),
     (''/i18n.js'', ''text/javascript; charset=utf-8''), (''/marked.js'', ''text/javascript; charset=utf-8''),
     (''/markdown.js'', ''text/javascript; charset=utf-8''), (''/snippets.js'', ''text/javascript; charset=utf-8''),
     (''/katex.js'', ''text/javascript; charset=utf-8''), (''/app.js'', ''text/javascript; charset=utf-8'')]"

text \<open>What is answered without the key.\<close>

definition public_reply :: "world \<Rightarrow> request \<Rightarrow> reply option" where
  \<open>public_reply w r =
     (if rq_method r \<noteq> ''GET'' then None
      else case map_of assets (rq_path r) of
        Some type \<Rightarrow> Some (Sent 200 type (w_asset w (rq_path r)))
      | None \<Rightarrow> if rq_path r = ''/health'' then Some (Sent 200 ''application/json'' ''{"app":"geist"}'') else None)\<close>

definition model_paths :: "string list" where
  "model_paths = [''/app/setup'', ''/app/preview'', ''/app/preferences'', ''/app/download'', ''/app/remove'', ''/app/select'']"

text \<open>\<open>generate\<close> and \<open>status_response\<close> are arguments: the first is \<open>generate\<close> of Generate, the second is
  \<open>status_response\<close>: the document it makes of the state, or its refusal.\<close>

definition handle_authorized ::
    "(string \<Rightarrow> app_arena \<Rightarrow> app_state \<Rightarrow> reply \<times> app_state) \<Rightarrow> (app_state \<Rightarrow> nat \<times> string + string) \<Rightarrow> world \<Rightarrow> folder_help
       \<Rightarrow> request \<Rightarrow> app_arena \<Rightarrow> app_state \<Rightarrow> reply \<times> string list \<times> app_state" where
  "handle_authorized generate status w f r arena a =
     (let get = (rq_method r = ''GET''); post = (rq_method r = ''POST''); path = rq_path r; body = rq_body r;
          keep = (\<lambda>reply. (reply, [], a)); with = (\<lambda>(reply, b). (reply, [], b)) in
      if get \<and> path = ''/v1/models'' then keep (connections True a)
      else if get \<and> path = ''/app/connections'' then keep (connections False a)
      else if post \<and> path = ''/v1/chat/completions'' then with (completions w body arena a)
      else if take 4 path = ''/v1/'' then keep (ApiRefused 404 ''Unsupported endpoint. Use /v1/models or /v1/chat/completions.'')
      else if get \<and> path = ''/app/status'' then keep (case status a of Inl (c, t) \<Rightarrow> Refused c t | Inr t \<Rightarrow> Sent 200 ''application/json'' t)
      else if post \<and> path = ''/app/performance/compare'' then with (comparison_start (w_json_bytes w) (w_created w) body arena a)
      else if post \<and> path = ''/app/performance/cancel''
      then (done_reply 200, [], on_flags (\<lambda>fl. fl\<lparr>fl_compare_cancelled := True\<rparr>) a)
      else if get \<and> path = ''/app/performance/export'' then
        (case perf_export (w_now w) (ap_history a) of
           (Some d, p) \<Rightarrow> (Sent 200 ''application/x-ndjson'' d, [], a\<lparr>ap_history := p\<rparr>)
         | (None, p) \<Rightarrow> (Refused 503 ''History export exceeds the memory budget.'', [], a\<lparr>ap_history := p\<rparr>))
      else if post \<and> path = ''/app/verdict-settings'' then with (verdict_settings w body a)
      else if post \<and> (path = ''/app/performance/settings'' \<or> path = ''/app/performance/clear'') then
        (case (fst (app_alloc 16 1 (w_json_bytes w) 8 arena), json_parse body) of
           (Some _, Some j) \<Rightarrow> with (if path = ''/app/performance/clear'' then performance_clear w j a else performance_settings w j a)
         | _ \<Rightarrow> keep (Refused 400 ''Invalid history settings.''))
      else if path = ''/app/catalog'' then
        (if get then keep (Sent 200 ''application/json'' (ap_catalog a))
         else if post then with (import_catalog w body a)
         else keep (Refused 405 ''Use GET or POST.''))
      else if path = ''/app/execution'' then
        (if \<not> post then keep (Refused 405 ''Use POST.'')
         else with (execution_response (w_tm w) (w_spawn w) (w_spawn2 w) (w_stored w) body a))
      else if get \<and> path = ''/app/tasks'' then keep (Sent 200 ''application/json'' (w_tasks_json w))
      else if \<not> post then keep (Refused 405 ''POST required.'')
      else if path = ''/app/generate'' then with (generate body arena a)
      else if path = ''/app/activity/cancel'' then with (activity_cancel w body arena a)
      else if path = ''/app/cancel'' then (done_reply 200, [], on_flags (\<lambda>fl. fl\<lparr>fl_cancelled := True\<rparr>) a)
      else if path = ''/app/quit-if-idle'' then with (quit_if_idle a)
      else if path = ''/app/quit'' then (done_reply 202, [], on_flags (\<lambda>fl. fl\<lparr>fl_closing := True\<rparr>) a)
      else if path = ''/app/stop'' then with (stop_model w a)
      else if path \<notin> set model_paths then keep (Refused 404 ''Unknown action.'')
      else model_action w f path body arena a)"

definition app_handle ::
    "(string \<Rightarrow> app_arena \<Rightarrow> app_state \<Rightarrow> reply \<times> app_state) \<Rightarrow> (app_state \<Rightarrow> nat \<times> string + string) \<Rightarrow> world \<Rightarrow> folder_help
       \<Rightarrow> nat + request \<Rightarrow> app_arena \<Rightarrow> app_state \<Rightarrow> reply \<times> string list \<times> app_state" where
  "app_handle generate status w f req arena a =
     (case req of
        Inl code \<Rightarrow> (Refused code ''Invalid, oversized or non-local request.'', [], a)
      | Inr r \<Rightarrow>
          (case public_reply w r of
             Some reply \<Rightarrow> (reply, [], a)
           | None \<Rightarrow>
               if \<not> authorized (ap_token a) r then
                 (if take 4 (rq_path r) = ''/v1/'' then (ApiRefused 401 ''A valid local geisten API key is required.'', [], a)
                  else (Refused 403 ''Open the private app link supplied by the launcher.'', [], a))
               else handle_authorized generate status w f r arena a))"

end
