(* ===== verification/Generate.thy ===== *)
theory Generate
  imports Actions
begin

section \<open>A task for the model (src/src/app/chat.c, tasks.c)\<close>

text \<open>
  \<open>generate\<close> up to the point where the model is asked: the checks of the body, the text or the
  conversation the model is given, and the admission under the mutex. The tasks and the record of
  their quality are generated tables, \<open>tasks\<close> and \<open>records\<close> here.
\<close>

record app_task =
  tk_id :: string
  tk_version :: string
  tk_title :: string
  tk_instruction :: string
  tk_url :: string
  tk_input_limit :: nat
  tk_output_limit :: nat

datatype app_quality = APP_QUALITY_UNVERIFIED | APP_QUALITY_PASSED | APP_QUALITY_FAILED

record app_quality_record =
  qr_sha256 :: string
  qr_task :: string
  qr_version :: string
  qr_language :: string
  qr_device :: string
  qr_quality :: app_quality

definition app_task_find :: "app_task list \<Rightarrow> string option \<Rightarrow> app_task option" where
  "app_task_find tasks i = (case i of None \<Rightarrow> None | Some s \<Rightarrow> find (\<lambda>t. tk_id t = s) tasks)"

definition device_name :: "app_device_kind \<Rightarrow> string" where
  "device_name d = (case d of APP_APPLE_SILICON \<Rightarrow> ''apple-silicon'' | APP_PI5 \<Rightarrow> ''pi5'' | APP_UNKNOWN \<Rightarrow> ''unknown'')"

definition app_task_quality ::
    "app_quality_record list \<Rightarrow> app_model option \<Rightarrow> app_task option \<Rightarrow> string option \<Rightarrow> app_device_kind \<Rightarrow> app_quality" where
  "app_task_quality records model task language device =
     (case (model, task, language) of
        (Some m, Some t, Some l) \<Rightarrow>
          (case find (\<lambda>r. qr_sha256 r = am_sha256 m \<and> qr_task r = tk_id t \<and> qr_version r = tk_version t
                \<and> qr_language r = l \<and> qr_device r = device_name device) records of
             Some r \<Rightarrow> qr_quality r
           | None \<Rightarrow> APP_QUALITY_UNVERIFIED)
      | _ \<Rightarrow> APP_QUALITY_UNVERIFIED)"

definition app_task_fit :: "app_fit \<Rightarrow> app_quality \<Rightarrow> app_fit" where
  "app_task_fit resource quality =
     (if resource = APP_UNAVAILABLE then APP_UNAVAILABLE
      else if resource = APP_RECOMMENDED \<and> quality = APP_QUALITY_PASSED then APP_RECOMMENDED else APP_CONDITIONAL)"

subsection \<open>The checks\<close>

text \<open>What the model is given: one text, or the messages of a conversation with its limits.\<close>

datatype question = Text string | Conversation app_chat

definition answer_language :: "string \<Rightarrow> string" where
  "answer_language l = (if l = ''de'' then ''Answer in German.'' else ''Answer in English.'')"

text \<open>User and assistant take turns, nobody says nothing, and the last message is the prompt.\<close>

definition alternating :: "(string \<times> string) list \<Rightarrow> bool" where
  "alternating ms \<longleftrightarrow> (\<forall>i < length ms. fst (ms ! i) = (if i mod 2 = 1 then ''assistant'' else ''user'') \<and> snd (ms ! i) \<noteq> [])"

definition conversation_of ::
    "world \<Rightarrow> app_task \<Rightarrow> string \<Rightarrow> string \<Rightarrow> json \<Rightarrow> string \<Rightarrow> app_arena \<Rightarrow> (refusal + app_chat) \<times> app_arena" where
  "conversation_of w task prompt language j body arena =
     (case app_chat_parse (w_to_float w) (w_json_bytes w) body arena of
        (Inl e, ar) \<Rightarrow> (Inl e, ar)
      | (Inr chat, ar) \<Rightarrow>
          (if tk_id task \<noteq> ''freeform'' \<or> json_bool j (json_get j 0 ''benchmark'') False
              \<or> length (c_messages chat) \<ge> APP_CHAT_MESSAGES \<or> length (c_messages chat) mod 2 = 0
           then Inl (400, ''Use alternating user and assistant messages ending with the current input.'')
           else if \<not> alternating (c_messages chat) then Inl (400, ''Use alternating nonempty user and assistant messages.'')
           else if snd (last (c_messages chat)) \<noteq> prompt then Inl (400, ''The final message must match the current input.'')
           else Inr (chat\<lparr>c_max_tokens :=
                        (if json_get j 0 ''max_tokens'' < 0 \<and> json_get j 0 ''max_completion_tokens'' < 0 then 0 else c_max_tokens chat),
                      c_messages := (''system'', answer_language language) # c_messages chat\<rparr>), ar))"

text \<open>The task, the prompt, the language, and the question.\<close>

definition question_of ::
    "world \<Rightarrow> app_task list \<Rightarrow> json \<Rightarrow> string \<Rightarrow> app_arena \<Rightarrow> refusal + (app_task \<times> string \<times> question)" where
  "question_of w tasks j body arena =
     (let task_id = json_strdup j (json_get j 0 ''task'');
          version = json_strdup j (json_get j 0 ''task_version'') in
      case app_task_find tasks (Some (case task_id of None \<Rightarrow> ''freeform'' | Some i \<Rightarrow> i)) of
        None \<Rightarrow> Inl (400, ''Choose an available task and its current version.'')
      | Some task \<Rightarrow>
          if tk_url task \<noteq> [] \<or> \<not> (task_id = None \<or> version = Some (tk_version task))
          then Inl (400, ''Choose an available task and its current version.'')
          else
            (case json_strdup j (json_get j 0 ''prompt'') of
               None \<Rightarrow> Inl (503, ''Cannot allocate prompt.'')
             | Some prompt \<Rightarrow>
                 if prompt = [] \<or> length prompt > tk_input_limit task
                 then Inl (400, ''The input is empty or exceeds this task's byte limit.'')
                 else
                   let token = json_get j 0 ''language''; requested = json_strdup j token;
                       language = (if requested = Some ''de'' then ''de'' else ''en'') in
                   if \<not> (token < 0 \<or> requested = Some ''de'' \<or> requested = Some ''en'')
                   then Inl (400, ''Choose English or German for this task.'')
                   else
                     (case (if json_get j 0 ''messages'' \<ge> 0
                            then (case conversation_of w task prompt language j body arena of
                                (Inl e, ar) \<Rightarrow> (Inl e, ar) | (Inr c, ar) \<Rightarrow> (Inr (Conversation c), ar))
                            else (Inr (Text (answer_language language @ [CHR 0x0A] @ tk_instruction task @ [CHR 0x0A, CHR 0x0A]
                                  @ ''Input:'' @ [CHR 0x0A] @ prompt)), arena)) of
                        (Inl e, ar) \<Rightarrow> Inl e
                      | (Inr q, ar) \<Rightarrow>
                          if fst (app_alloc 16 (of_nat (length prompt + length (tk_instruction task) + 128)) 1 1 ar) = None
                          then Inl (503, ''Request memory budget exhausted.'')
                          else Inr (task, language, q))))"

subsection \<open>Admission\<close>

definition generate ::
    "world \<Rightarrow> app_task list \<Rightarrow> app_quality_record list \<Rightarrow> string \<Rightarrow> app_arena \<Rightarrow> app_state \<Rightarrow> reply \<times> question option \<times> app_state" where
  "generate w tasks records body arena a =
     (case app_alloc 16 1 (w_json_bytes w) 8 arena of
        (None, ar) \<Rightarrow> (Refused 503 ''Request memory budget exhausted.'', None, a)
      | (Some _, ar) \<Rightarrow>
        (case json_parse body of
           None \<Rightarrow> (Refused 400 ''A text prompt is required.'', None, a)
         | Some j \<Rightarrow>
           if \<not> json_is_str j (json_get j 0 ''prompt'') then (Refused 400 ''A text prompt is required.'', None, a)
           else
             (case question_of w tasks j body ar of
                Inl (code, reason) \<Rightarrow> (Refused code reason, None, a)
              | Inr (task, language, q) \<Rightarrow>
                  if closing a \<or> \<not> ready a \<or> comparing a \<or> generating a \<or> (job_running a \<and> jb_activate (ap_job a))
                  then (Refused 409 ''Wait until the model is ready and idle.'', None, a)
                  else if (case q of Conversation c \<Rightarrow> c_model c \<noteq> active_id a | Text _ \<Rightarrow> False)
                  then (Refused 409 ''The loaded model changed. Clear the chat to continue with the new model.'', None, a)
                  else
                    let quality = app_task_quality records (find_model a (Some (active_id a))) (Some task) (Some language)
                          (case w_hardware w of None \<Rightarrow> APP_UNKNOWN | Some h \<Rightarrow> h_device h) in
                    if ((case q of Conversation _ \<Rightarrow> True | Text _ \<Rightarrow> False) \<or> bk_active (ap_backend a) \<noteq> bk_cpu (ap_backend a)
                        \<or> quality \<noteq> APP_QUALITY_PASSED) \<and> \<not> json_bool j (json_get j 0 ''experimental'') False
                    then (Refused 409 ''This task/model/language is experimental. Enable experimental use explicitly.'', None, a)
                    else
                      (Admitted, Some q,
                       (case q of
                          Conversation c \<Rightarrow> admit w ''app'' (c_max_tokens c) (c_temperature c) (c_top_p c) a
                        | Text _ \<Rightarrow> admit w ''app'' (if json_bool j (json_get j 0 ''benchmark'') False then 64 else tk_output_limit task)
                            (w_to_float w (1 / 5)) 1 a)))))"

definition generate_reply ::
    "world \<Rightarrow> app_task list \<Rightarrow> app_quality_record list \<Rightarrow> string \<Rightarrow> app_arena \<Rightarrow> app_state \<Rightarrow> reply \<times> app_state" where
  "generate_reply w tasks records body arena a = (case generate w tasks records body arena a of (r, q, b) \<Rightarrow> (r, b))"

end
