(* ===== verification/AppFrames.thy ===== *)
theory AppFrames
  imports Generate
begin

section \<open>What the parts of the application leave alone\<close>

text \<open>
  \<open>core\<close> is what decides who may use the model: the threads, the job, the comparison, the request and the flags
  of an end. Every function that works on the child process keeps it, and no start or stop touches the
  files. The facts are in the collection \<open>frame\<close>.
\<close>

definition core :: "app_state \<Rightarrow> (bool \<times> bool) \<times> bool \<times> bool \<times> bool \<times> bool \<times> bool \<times> bool" where
  "core a = ((job_thread_runs a, compare_thread_runs a),
     job_running a, jb_activate (ap_job a), comparing a, generating a, closing a, fl_cancelled (ap_flags a))"

text \<open>The rest of what no function of the child changes.\<close>

definition fixed_part :: "app_state \<Rightarrow> string \<times> string \<times> string \<times> app_model list \<times> files" where
  "fixed_part a = (ap_home a, ap_models_dir a, ap_token a, ap_models a, ap_files a)"

lemma core_update [simp]:
  "core (a\<lparr>ap_load := x\<rparr>) = core a" "core (a\<lparr>ap_request := x\<rparr>) = core a" "core (a\<lparr>ap_download := x\<rparr>) = core a"
  "core (a\<lparr>ap_message := t\<rparr>) = core a" "core (a\<lparr>ap_generation := g\<rparr>) = core a" "core (a\<lparr>ap_stopping := s\<rparr>) = core a"
  "core (a\<lparr>ap_backend := b\<rparr>) = core a" "core (a\<lparr>ap_observe := ob\<rparr>) = core a" "core (a\<lparr>ap_prefs := pr\<rparr>) = core a"
  "core (a\<lparr>ap_files := fs\<rparr>) = core a" "core (a\<lparr>ap_history := p\<rparr>) = core a" "core (a\<lparr>ap_models := ms\<rparr>) = core a"
  "core (a\<lparr>ap_revision := r\<rparr>) = core a" "core (a\<lparr>ap_catalog := t\<rparr>) = core a"
  "ch_generating c = generating a \<Longrightarrow> core (a\<lparr>ap_child := c\<rparr>) = core a"
  "jb_running j = job_running a \<Longrightarrow> jb_activate j = jb_activate (ap_job a) \<Longrightarrow> jb_thread j = job_thread_runs a \<Longrightarrow> core (a\<lparr>ap_job := j\<rparr>) = core a"
  "cm_running q = comparing a \<Longrightarrow> cm_thread q = compare_thread_runs a \<Longrightarrow> core (a\<lparr>ap_compare := q\<rparr>) = core a"
  "fl_closing f = closing a \<Longrightarrow> fl_cancelled f = fl_cancelled (ap_flags a) \<Longrightarrow> core (a\<lparr>ap_flags := f\<rparr>) = core a"
  by (simp_all add: core_def)

lemma fixed_part_update [simp]:
  "fixed_part (a\<lparr>ap_load := x\<rparr>) = fixed_part a" "fixed_part (a\<lparr>ap_request := x\<rparr>) = fixed_part a"
  "fixed_part (a\<lparr>ap_download := x\<rparr>) = fixed_part a" "fixed_part (a\<lparr>ap_message := t\<rparr>) = fixed_part a"
  "fixed_part (a\<lparr>ap_generation := g\<rparr>) = fixed_part a" "fixed_part (a\<lparr>ap_stopping := s\<rparr>) = fixed_part a"
  "fixed_part (a\<lparr>ap_backend := b\<rparr>) = fixed_part a" "fixed_part (a\<lparr>ap_observe := ob\<rparr>) = fixed_part a"
  "fixed_part (a\<lparr>ap_prefs := pr\<rparr>) = fixed_part a" "fixed_part (a\<lparr>ap_history := p\<rparr>) = fixed_part a"
  "fixed_part (a\<lparr>ap_child := c\<rparr>) = fixed_part a" "fixed_part (a\<lparr>ap_job := j\<rparr>) = fixed_part a"
  "fixed_part (a\<lparr>ap_compare := q\<rparr>) = fixed_part a" "fixed_part (a\<lparr>ap_flags := f\<rparr>) = fixed_part a"
  by (simp_all add: fixed_part_def)

subsection \<open>Activities\<close>

lemma load_change_frame [frame]:
  "core (load_change st tm a) = core a" "fixed_part (load_change st tm a) = fixed_part a" "ap_child (load_change st tm a) = ap_child a"
  "ap_stopping (load_change st tm a) = ap_stopping a" "ap_generation (load_change st tm a) = ap_generation a"
  by (simp_all add: load_change_def)

lemma load_end_frame [frame]:
  "core (load_end out c tm a) = core a" "fixed_part (load_end out c tm a) = fixed_part a" "ap_child (load_end out c tm a) = ap_child a"
  "ap_stopping (load_end out c tm a) = ap_stopping a" "ap_generation (load_end out c tm a) = ap_generation a"
  by (simp_all add: load_end_def)

lemma begin_load_frame [frame]:
  "core (begin_load st gen m tm a) = core a" "fixed_part (begin_load st gen m tm a) = fixed_part a"
  "ready (begin_load st gen m tm a) = ready a" "pid (begin_load st gen m tm a) = pid a"
  "ap_stopping (begin_load st gen m tm a) = ap_stopping a" "ap_generation (begin_load st gen m tm a) = ap_generation a"
  by (simp_all add: begin_load_def begin_activity_def Let_def)

lemma sample_phases_frame [frame]:
  "core (sample_phases is s a) = core a" "fixed_part (sample_phases is s a) = fixed_part a"
  "ready (sample_phases is s a) = ready a" "pid (sample_phases is s a) = pid a"
  "ap_stopping (sample_phases is s a) = ap_stopping a" "ap_generation (sample_phases is s a) = ap_generation a"
  by (induction "is" arbitrary: a) (simp_all add: Let_def)

lemma lifecycle_sample_frame [frame]:
  "core (lifecycle_sample page a) = core a" "fixed_part (lifecycle_sample page a) = fixed_part a"
  "ready (lifecycle_sample page a) = ready a" "pid (lifecycle_sample page a) = pid a"
  "ap_stopping (lifecycle_sample page a) = ap_stopping a" "ap_generation (lifecycle_sample page a) = ap_generation a"
  by (simp_all add: lifecycle_sample_def frame split: option.splits)

subsection \<open>Stopping and starting\<close>

lemma stop_child_frame [frame]:
  "core (stop_child tm g a) = core a" "fixed_part (stop_child tm g a) = fixed_part a" "\<not> ready (stop_child tm g a)"
  "pid (stop_child tm g a) = 0" "\<not> ap_stopping (stop_child tm g a)" "ap_generation (stop_child tm g a) = ap_generation a"
  by (simp_all add: stop_child_def stop_cleanup_def stop_first_def stop_last_def stop_look_def runtime_paths_close_def)

lemma start_prepare_frame:
  assumes "start_prepare tm h gpu i a = (ok, a')"
  shows "core a' = core a" "fixed_part a' = fixed_part a" "\<not> ready a'" "pid a' = 0" "\<not> ap_stopping a'" "ap_generation a' = ap_generation a"
proof -
  define a1 where "a1 = (if ac_id (ap_load a) = 0 \<or> ac_outcome (ap_load a) \<noteq> [] then begin_load ACT_STARTING (ap_generation a + 1) i tm a else a)"
  define a2 where "a2 = a1\<lparr>ap_load := (ap_load a1)\<lparr>ac_backend := fit 24 (if gpu then bk_gpu (ap_backend a1) else bk_cpu (ap_backend a1))\<rparr>\<rparr>"
  define a3 where "a3 = on_flags (\<lambda>f. f\<lparr>fl_load_cancelled := False\<rparr>) a2"
  define a4 where "a4 = (if pid a3 \<noteq> 0 then load_change ACT_STOPPING tm a3 else a3)"
  define a5 where "a5 = load_change ACT_STARTING tm (stop_child tm (sp_gone h) a4)"
  define engine where "engine = (ap_packaged a5)\<lparr>e_payload := case sp_payload h of Some p \<Rightarrow> p | None \<Rightarrow> e_payload (ap_packaged a5)\<rparr>"
  define a6 where "a6 = on_child (\<lambda>c. c\<lparr>ch_engine := engine\<rparr>) a5"
  have 4: "core a4 = core a" "fixed_part a4 = fixed_part a" "ap_generation a4 = ap_generation a"
    by (simp_all add: a4_def frame) (simp_all add: a3_def a2_def a1_def begin_load_def begin_activity_def Let_def)
  have 6: "core a6 = core a" "fixed_part a6 = fixed_part a" "\<not> ready a6" "pid a6 = 0" "\<not> ap_stopping a6" "ap_generation a6 = ap_generation a"
    using 4 frame by (simp_all add: a6_def a5_def frame)
  note e = assms [unfolded start_prepare_def Let_def, folded a1_def, folded a2_def, folded a3_def, folded a4_def, folded a5_def,
      folded engine_def, folded a6_def]
  show "core a' = core a" "fixed_part a' = fixed_part a" "\<not> ready a'" "pid a' = 0" "\<not> ap_stopping a'" "ap_generation a' = ap_generation a"
    using e 6 by (auto simp: frame split: option.splits if_splits)
qed


text \<open>A start: the child is stopped in every case; it runs, under the next generation, if the start worked.\<close>

definition started :: "bool \<Rightarrow> spawn_help \<Rightarrow> app_state \<Rightarrow> app_state \<Rightarrow> bool" where
  "started ok h a a' \<longleftrightarrow> core a' = core a \<and> fixed_part a' = fixed_part a \<and> \<not> ready a' \<and> \<not> ap_stopping a'
     \<and> (if ok then sp_spawn h = Inr (pid a') \<and> ap_generation a' = ap_generation a + 1
        else pid a' = 0 \<and> ap_generation a' = ap_generation a)"

lemma start_impl_frame:
  assumes "start_child_mode_impl tm h path i mode a = (ok, a')"
  shows "core a' = core a \<and> fixed_part a' = fixed_part a \<and> (ok \<longrightarrow> started True h a a') \<and> (\<not> ok \<longrightarrow> ap_generation a' = ap_generation a)"
proof (cases "gpu_wanted mode (find_model a i) a \<and> \<not> gpu_supported a (find_model a i)")
  case True
  then show ?thesis using assms by (auto simp: start_child_mode_impl_def Let_def)
next
  case False
  obtain ok1 a1 where p: "start_prepare tm h (gpu_wanted mode (find_model a i) a) i a = (ok1, a1)" by fastforce
  note f = start_prepare_frame [OF p]
  note e = assms [unfolded start_child_mode_impl_def Let_def if_not_P [OF False] p prod.case]
  show ?thesis
  proof (cases ok1)
    case False
    then show ?thesis using e f by auto
  next
    case True
    show ?thesis
    proof (cases "sp_spawn h")
      case (Inl err)
      then show ?thesis using e f True by (auto split: prod.splits)
    next
      case (Inr q)
      then show ?thesis using e f True by (auto simp: started_def frame)
    qed
  qed
qed

lemma start_mode_frame: "start_child_mode tm h path i mode a = (ok, a') \<Longrightarrow> started ok h a a'"
proof -
  assume s: "start_child_mode tm h path i mode a = (ok, a')"
  obtain ok1 a1 where p: "start_child_mode_impl tm h path i mode a = (ok1, a1)" by fastforce
  show ?thesis
    using s start_impl_frame [OF p] by (cases ok1) (auto simp: start_child_mode_def p Let_def started_def frame split: if_splits)
qed

lemma start_child_frame: "start_child tm h path i a = (ok, a') \<Longrightarrow> started ok h a a'"
proof -
  assume "start_child tm h path i a = (ok, a')"
  then obtain mode where "start_child_mode tm h path i mode (on_backend (\<lambda>b. b\<lparr>bk_notice := []\<rparr>) a) = (ok, a')"
    by (auto simp: start_child_def Let_def)
  from start_mode_frame [OF this] show ?thesis by (simp add: started_def)
qed

subsection \<open>Receipts\<close>

text \<open>The receipt of a model: only the model job writes it.\<close>

definition receipt :: "app_model \<Rightarrow> app_state \<Rightarrow> string option" where
  "receipt m a = read_preference (ap_home a) (receipt_key m) 512 (ap_files a)"

lemma receipt_frame: "fixed_part a' = fixed_part a \<Longrightarrow> receipt m a' = receipt m a"
  by (simp add: receipt_def fixed_part_def)

lemma receipt_update [simp]:
  "receipt m (a\<lparr>ap_load := x\<rparr>) = receipt m a" "receipt m (a\<lparr>ap_request := x\<rparr>) = receipt m a"
  "receipt m (a\<lparr>ap_download := x\<rparr>) = receipt m a" "receipt m (a\<lparr>ap_message := t\<rparr>) = receipt m a"
  "receipt m (a\<lparr>ap_backend := b\<rparr>) = receipt m a" "receipt m (a\<lparr>ap_observe := ob\<rparr>) = receipt m a"
  "receipt m (a\<lparr>ap_prefs := pr\<rparr>) = receipt m a" "receipt m (a\<lparr>ap_history := p\<rparr>) = receipt m a"
  "receipt m (a\<lparr>ap_child := c\<rparr>) = receipt m a" "receipt m (a\<lparr>ap_job := j\<rparr>) = receipt m a"
  "receipt m (a\<lparr>ap_compare := q\<rparr>) = receipt m a" "receipt m (a\<lparr>ap_flags := f\<rparr>) = receipt m a"
  "receipt m (a\<lparr>ap_models := ms\<rparr>) = receipt m a" "receipt m (a\<lparr>ap_revision := r\<rparr>) = receipt m a"
  "receipt m (a\<lparr>ap_catalog := t\<rparr>) = receipt m a"
  by (simp_all add: receipt_def)

lemma path_join_inj: "path_join base x = Some p \<Longrightarrow> path_join base y = Some p \<Longrightarrow> x = y"
  by (auto simp: path_join_def Let_def split: if_splits)

lemma save_other:
  assumes "save_preference home name value ok fs = (r, fs')" and "name \<noteq> key"
  shows "read_preference home key cap fs' = read_preference home key cap fs"
  using assms path_join_inj
  by (auto simp: save_preference_def read_preference_def split: option.splits if_splits)

lemma receipt_key_first: "receipt_key m = ''v'' @ ''erified-'' @ take 70 (am_sha256 m)"
  by (simp add: receipt_key_def fit_def)

text \<open>A preference whose name does not begin as that of a receipt leaves every receipt as it is.\<close>

lemma save_receipts:
  assumes "save_preference (ap_home a) name value ok (ap_files a) = (r, fs)" and "take 2 name \<noteq> ''ve'' \<or> name = ''verdict-settings''"
  shows "receipt m (a\<lparr>ap_files := fs\<rparr>) = receipt m a"
proof -
  have "take 4 (receipt_key m) = ''veri''" by (simp add: receipt_key_first)
  then have "name \<noteq> receipt_key m" using assms(2) by (auto simp: receipt_key_first)
  from save_other [OF assms(1) this] show ?thesis by (simp add: receipt_def)
qed


subsection \<open>What a function keeps\<close>

text \<open>A child that is ready is a process, and no stop is left half done.\<close>

definition alive :: "app_state \<Rightarrow> bool" where
  "alive a \<longleftrightarrow> (ready a \<longrightarrow> pid a \<noteq> 0) \<and> \<not> ap_stopping a"

definition kept :: "app_state \<Rightarrow> app_state \<Rightarrow> bool" where
  "kept a a' \<longleftrightarrow> core a' = core a \<and> ap_home a' = ap_home a \<and> (\<forall>m. receipt m a' = receipt m a) \<and> (alive a \<longrightarrow> alive a')"

lemma kept_refl [simp]: "kept a a"
  by (simp add: kept_def)

lemma kept_trans: "kept a b \<Longrightarrow> kept b c \<Longrightarrow> kept a c"
  by (simp add: kept_def)

lemma fixed_home: "fixed_part a' = fixed_part a \<Longrightarrow> ap_home a' = ap_home a"
  by (simp add: fixed_part_def)

lemma keptI: "core a' = core a \<Longrightarrow> fixed_part a' = fixed_part a \<Longrightarrow> (alive a \<Longrightarrow> alive a') \<Longrightarrow> kept a a'"
  using receipt_frame [of a' a] fixed_home [of a' a] by (simp add: kept_def)

lemma kept_stop: "kept a (stop_child tm g a)"
  by (rule keptI) (simp_all add: alive_def frame)

lemma kept_started: "started ok h a a' \<Longrightarrow> kept a a'"
  by (rule keptI) (simp_all add: started_def alive_def)

lemmas kept_start = kept_started [OF start_mode_frame] kept_started [OF start_child_frame]

lemma kept_start_snd: "kept a (snd (start_child_mode tm h path i mode a))"
  using kept_start(1) by (metis prod.collapse)

lemma kept_change: "kept a (load_change st tm a)" "kept a (load_end out c tm a)" "kept a (begin_load st gen m tm a)"
  "kept a (lifecycle_sample page a)"
  by (rule keptI; simp add: alive_def frame)+

text \<open>Updates that do not concern the decision.\<close>

lemma kept_update [simp]:
  "kept a (a\<lparr>ap_message := t\<rparr>)" "kept a (a\<lparr>ap_load := x\<rparr>)" "kept a (a\<lparr>ap_request := x\<rparr>)" "kept a (a\<lparr>ap_download := x\<rparr>)"
  "kept a (a\<lparr>ap_backend := b\<rparr>)" "kept a (a\<lparr>ap_observe := ob\<rparr>)" "kept a (a\<lparr>ap_prefs := pr\<rparr>)" "kept a (a\<lparr>ap_history := p\<rparr>)"
  by (simp_all add: kept_def alive_def)

lemma kept_save:
  assumes "save_preference (ap_home a) name value ok (ap_files a) = (r, fs)" and "take 2 name \<noteq> ''ve'' \<or> name = ''verdict-settings''"
  shows "kept a (a\<lparr>ap_files := fs\<rparr>)"
  using save_receipts [OF assms] by (simp add: kept_def alive_def)

lemma kept_selection: "save_selection i ok a = (r, a') \<Longrightarrow> kept a a'"
proof -
  assume s: "save_selection i ok a = (r, a')"
  obtain b fs where p: "save_preference (ap_home a) ''selected'' i ok (ap_files a) = (b, fs)" by fastforce
  from kept_save [OF p] have "kept a (a\<lparr>ap_files := fs\<rparr>)" by simp
  with s show ?thesis by (cases b) (auto simp: save_selection_def p kept_def alive_def)
qed

lemma kept_measurements: "kept a (restore_measurements a)"
  by (simp add: restore_measurements_def Let_def)

lemma kept_previews: "kept a (restore_preview_preferences a)"
  by (simp add: restore_preview_preferences_def)

subsection \<open>The poll and the observation\<close>

lemma kept_message: "kept a b \<Longrightarrow> kept a (b\<lparr>ap_message := t\<rparr>)"
  using kept_trans kept_update(1) by blast

lemma kept_poll_stopped: "kept a (poll_stopped h a)"
  by (simp add: poll_stopped_def)

lemma kept_ended: "kept a (poll_ended tm h t a)"
proof -
  define a1 where "a1 = (if t then stop_child tm (po_gone h) a
     else runtime_paths_close (on_child (\<lambda>c. c\<lparr>ch_previous_pid := ch_pid c, ch_reaped_ms := tm\<rparr>) a))"
  define a2 where "a2 = on_child (\<lambda>c. c\<lparr>ch_pid := 0, ch_ready := False\<rparr>) a1"
  define a3 where "a3 = load_end ''failed'' (if t then 504 else 502) tm a2"
  have "fixed_part a2 = fixed_part a" by (simp add: a2_def a1_def frame runtime_paths_close_def)
  then have 2: "kept a a2"
    using receipt_frame [of a2 a] fixed_home [of a2 a]
    by (auto simp: kept_def alive_def frame a2_def a1_def runtime_paths_close_def)
  then have 3: "kept a a3" using kept_trans [OF 2 kept_change(2)] by (simp only: a3_def)
  note e = poll_ended_def [of tm h t a, unfolded Let_def, folded a1_def, folded a2_def, folded a3_def]
  define b where "b = on_backend (\<lambda>b. b\<lparr>bk_notice := ''GPU stopped or failed to load. Restored CPU; diagnostics are kept in the app ''
                       @ ''data folder.''\<rparr>) a3"
  obtain ok a4 where s: "start_child_mode tm (po_spawn h) (ch_chosen (ap_child a3)) (Some (fit 64 (active_id a3))) ''cpu'' b = (ok, a4)"
    by fastforce
  have "kept a b" using kept_trans [OF 3 kept_update(5)] by (simp add: b_def)
  then have 4: "kept a a4" using kept_trans kept_start(1) [OF s] by blast
  show ?thesis
    unfolding e b_def [symmetric] s
    using 2 3 4 kept_trans [OF 3 kept_poll_stopped] kept_trans [OF 4 kept_poll_stopped] kept_message [OF 3] by (simp split: bool.split)
qed

lemma kept_answered:
  assumes "pid a \<noteq> 0"
  shows "kept a (poll_answered tm h reported identity a)"
proof -
  define a1 where "a1 = lifecycle_sample (po_page2 h) a"
  define a2 where "a2 = on_child (\<lambda>c. c\<lparr>ch_engine := identity\<lparr>e_payload := e_payload (ch_engine c)\<rparr>\<rparr>) a1"
  define a3 where "a3 = on_backend (\<lambda>b. b\<lparr>bk_verified := (reported = bk_active b)\<rparr>) a2"
  define a4 where "a4 = on_child (\<lambda>c. c\<lparr>ch_loaded_ms := tm - ch_loading_started c, ch_ready := True\<rparr>) a3"
  define a5 where "a5 = a4\<lparr>ap_load := (ap_load a4)\<lparr>ac_engine := ch_engine (ap_child a4)\<rparr>\<rparr>"
  define a6 where "a6 = (load_end ''completed'' 0 tm (load_change ACT_READY tm a5))\<lparr>ap_message := []\<rparr>"
  have 1: "kept a a1" "pid a1 = pid a" using kept_change(4) by (simp_all add: a1_def frame)
  have 3: "kept a a3" "pid a3 = pid a" using 1 by (auto simp: a3_def a2_def kept_def alive_def)
  have 5: "kept a a5" using 3 assms by (simp add: a5_def a4_def kept_def alive_def)
  have 6: "kept a a6"
    unfolding a6_def by (rule kept_message, rule kept_trans [OF kept_trans [OF 5 kept_change(1)] kept_change(2)])
  have 7: "kept a (a6\<lparr>ap_files := fs\<rparr>)"
    if "save_preference (ap_home a6) (fit 80 (''backend-'' @ am_sha256 m)) v ok (ap_files a6) = (r, fs)" for m v ok r fs
    using kept_trans [OF 6 kept_save [OF that]] by (simp add: fit_def)
  have nb: "kept a (on_backend f b)" if "kept a b" for f b using that kept_trans kept_update(5) by blast
  define a7 where "a7 = (case find_model a6 (Some (active_id a6)) of
      Some m \<Rightarrow>
        if bk_save (ap_backend a6) then
          (case save_preference (ap_home a6) (fit 80 (''backend-'' @ am_sha256 m)) (bk_mode (ap_backend a6)) (po_saved h) (ap_files a6) of
             (True, fs) \<Rightarrow> a6\<lparr>ap_files := fs\<rparr>
           | (False, fs) \<Rightarrow> on_backend (\<lambda>b. b\<lparr>bk_notice :=
               ''The model is running, but its execution preference could not be saved.''\<rparr>) (a6\<lparr>ap_files := fs\<rparr>))
        else a6
    | None \<Rightarrow> a6)"
  have "kept a a7"
  proof (cases "find_model a6 (Some (active_id a6))")
    case (Some m)
    obtain r fs where sv: "save_preference (ap_home a6) (fit 80 (''backend-'' @ am_sha256 m)) (bk_mode (ap_backend a6)) (po_saved h)
        (ap_files a6) = (r, fs)" by fastforce
    from 7 [OF sv] nb [OF 7 [OF sv]] 6 show ?thesis unfolding a7_def Some option.case sv prod.case by (cases r) simp_all
  qed (simp add: a7_def 6)
  note 8 = nb [OF this]
  note e = poll_answered_def [of tm h reported identity a, unfolded Let_def, folded a1_def, folded a2_def, folded a3_def,
      folded a4_def, folded a5_def, folded a6_def, folded a7_def]
  have "kept a ((load_end ''failed'' 502 tm (stop_child tm (po_gone h) a3))\<lparr>ap_message := t\<rparr>)" for t
    by (rule kept_message, rule kept_trans [OF kept_trans [OF 3(1) kept_stop] kept_change(2)])
  with 8 show ?thesis unfolding e by simp
qed

lemma kept_poll: "kept a (poll_child tm h a)"
proof (cases "pid a = 0 \<or> ap_stopping a")
  case True
  then show ?thesis by (simp add: poll_child_def)
next
  case False
  define a1 where "a1 = lifecycle_sample (po_page h) a"
  have 1: "kept a a1" "pid a1 \<noteq> 0" using False kept_change(4) by (simp_all add: a1_def frame)
  have 2: "kept a (on_child (\<lambda>c. c\<lparr>ch_probe_ms := tm\<rparr>) a1)" using 1 by (simp add: kept_def alive_def)
  have c: "kept a (load_end ''cancelled'' 499 tm ((stop_child tm (po_gone h) (load_change ACT_STOPPING tm a))\<lparr>ap_message := t\<rparr>))" for t
    by (rule kept_trans [OF kept_message kept_change(2)], rule kept_trans [OF kept_change(1) kept_stop])
  have e: "kept a (poll_ended tm h t a1)" for t using kept_trans [OF 1(1) kept_ended] .
  have w: "kept a (poll_answered tm h r i (on_child (\<lambda>c. c\<lparr>ch_probe_ms := tm\<rparr>) a1))" for r i
    by (rule kept_trans [OF 2 kept_answered]) (use 1(2) in simp)
  show ?thesis
    using False c e w 1 2 by (auto simp: poll_child_def Let_def a1_def [symmetric] split: option.splits)
qed

lemma kept_sample: "kept a (observation_sample tm h force a)" "ap_child (observation_sample tm h force a) = ap_child a"
  by (simp_all add: observation_sample_def split: option.splits)

lemma kept_monitor: "kept a (monitor_round tm p h h2 a)"
proof -
  have "kept b (memory_process_sample tm h b)" for b by (simp add: memory_process_sample_def)
  from kept_trans [OF kept_trans [OF kept_poll this] kept_sample(1)] show ?thesis by (simp add: monitor_round_def)
qed

end
