(* ===== verification/AppSteps.thy ===== *)
theory AppSteps
  imports AppFrames
begin

section \<open>The application as a state machine\<close>

text \<open>
  The threads of the application take the mutex in turns: the monitor, at most eight requests, the
  model job and the comparison. \<open>step\<close> is one turn: a part that holds the mutex from the first to the
  last statement, except that a stop is not interrupted. Beside the state are the requests that were
  admitted and have not ended, whether the comparison is between the begin and the end of a
  measurement, where the job stands, and, as a ghost, the stamps of the files whose digest was the one
  the stamp names. A part of the job or of the comparison is a step only while the thread made for it runs
  (\<open>sy_job\<close>, \<open>compare_thread_runs\<close>): what \<open>running\<close> says enables nothing.
\<close>

datatype job_thread = NoJob | Working app_model | Decided app_model bool string "string option"

record sys =
  sy_app :: app_state
  sy_requests :: nat
  sy_measuring :: bool
  sy_job :: job_thread
  sy_verified :: "string list"

definition idle :: "app_state \<Rightarrow> bool" where
  "idle a \<longleftrightarrow> \<not> generating a \<and> \<not> comparing a \<and> \<not> job_running a"

definition cancelled :: "app_state \<Rightarrow> bool" where
  "cancelled a \<longleftrightarrow> fl_cancelled (ap_flags a) \<or> closing a"

text \<open>The stamp of the file a verdict is about, and the stamps that are new with it.\<close>

definition decided_stamp :: "app_model \<Rightarrow> bool \<Rightarrow> job_help \<Rightarrow> job_result \<Rightarrow> string option" where
  "decided_stamp m download h v =
     (if jv_ok v then model_stamp m (if download then jh_placed h else jh_after h) else None)"

definition new_stamps :: "app_model \<Rightarrow> bool \<Rightarrow> job_help \<Rightarrow> job_result \<Rightarrow> string list" where
  "new_stamps m download h v =
     (if jv_ok v \<and> \<not> jv_cached v then (case decided_stamp m download h v of None \<Rightarrow> [] | Some st \<Rightarrow> [st]) else [])"

inductive step :: "sys \<Rightarrow> sys \<Rightarrow> bool" where
  monitor: "step s (s\<lparr>sy_app := monitor_round tm p h h2 (sy_app s)\<rparr>)"
| request:
    "app_handle (generate_reply w tasks records) status w f req arena (sy_app s) = (reply, gone, b) \<Longrightarrow>
     step s (s\<lparr>sy_app := b, sy_requests := sy_requests s + (if reply = Admitted then 1 else 0),
        sy_job := if job_thread_runs b \<and> \<not> job_thread_runs (sy_app s) then Working (the (jb_model (ap_job b))) else sy_job s\<rparr>)"
| request_end:
    "0 < sy_requests s \<Longrightarrow>
     step s (s\<lparr>sy_app := observation_end tm h rc first elapsed st (sy_app s), sy_requests := sy_requests s - 1\<rparr>)"
| download: "sy_job s = Working m \<Longrightarrow> step s (s\<lparr>sy_app := snd (snd (download_write tm elem n count sink (sy_app s)))\<rparr>)"
| looked: "sy_job s = Working m \<Longrightarrow> step s (s\<lparr>sy_app := job_receipt cached (sy_app s)\<rparr>)"
| verifying: "sy_job s = Working m \<Longrightarrow> step s (s\<lparr>sy_app := job_verifying tm (sy_app s)\<rparr>)"
| verified: "sy_job s = Working m \<Longrightarrow> step s (s\<lparr>sy_app := job_verified m (sy_app s)\<rparr>)"
| unverified: "sy_job s = Working m \<Longrightarrow> \<not> ok \<or> cancelled (sy_app s) \<Longrightarrow> step s (s\<lparr>sy_job := Decided m ok reason None\<rparr>)"
| decide:
    "sy_job s = Working m \<Longrightarrow> \<not> cancelled (sy_app s) \<Longrightarrow>
     v = job_verdict stopped stopped2 m (jb_download (ap_job (sy_app s))) (job_cached True m h (sy_app s)) h \<Longrightarrow>
     step s (s\<lparr>sy_app := save_receipt m (jv_stamp v) stored (sy_app s),
        sy_job := Decided m (jv_ok v) (jv_why v) (decided_stamp m (jb_download (ap_job (sy_app s))) h v),
        sy_verified := new_stamps m (jb_download (ap_job (sy_app s))) h v @ sy_verified s\<rparr>)"
| finish:
    "sy_job s = Decided m ok reason st \<Longrightarrow>
     step s (s\<lparr>sy_app := job_finish tm h saved m ok reason (sy_app s), sy_job := NoJob\<rparr>)"
| compare_take: "compare_thread_runs (sy_app s) \<Longrightarrow> \<not> sy_measuring s \<Longrightarrow> step s (s\<lparr>sy_app := snd (comparison_take (sy_app s))\<rparr>)"
| compare_switch:
    "compare_thread_runs (sy_app s) \<Longrightarrow> \<not> sy_measuring s \<Longrightarrow> step s (s\<lparr>sy_app := snd (comparison_switch tm h path i slot (sy_app s))\<rparr>)"
| compare_measure:
    "compare_thread_runs (sy_app s) \<Longrightarrow> \<not> sy_measuring s \<Longrightarrow>
     step s (s\<lparr>sy_app := comparison_measure tm h2 run slot repeat (sy_app s), sy_measuring := True\<rparr>)"
| compare_measured:
    "compare_thread_runs (sy_app s) \<Longrightarrow> sy_measuring s \<Longrightarrow>
     step s (s\<lparr>sy_app := comparison_measured tm he rc first elapsed st (sy_app s), sy_measuring := False\<rparr>)"
| compare_restore:
    "compare_thread_runs (sy_app s) \<Longrightarrow> \<not> sy_measuring s \<Longrightarrow> step s (s\<lparr>sy_app := snd (comparison_restore tm h path i previous (sy_app s))\<rparr>)"
| compare_finish:
    "compare_thread_runs (sy_app s) \<Longrightarrow> \<not> sy_measuring s \<Longrightarrow> step s (s\<lparr>sy_app := comparison_finish restored ok (sy_app s)\<rparr>)"
| launch_file: "idle (sy_app s) \<Longrightarrow> step s (s\<lparr>sy_app := snd (start_child tm h path i (sy_app s))\<rparr>)"
| launch_saved:
    "idle (sy_app s) \<Longrightarrow> begin_job tm created m False True (sy_app s) = (ok, b) \<Longrightarrow>
     step s (s\<lparr>sy_app := b, sy_job := if job_thread_runs b then Working m else sy_job s\<rparr>)"
| quit: "step s (s\<lparr>sy_app := on_flags (\<lambda>fl. fl\<lparr>fl_closing := True, fl_cancelled := True\<rparr>) (sy_app s)\<rparr>)"
| shut: "idle (sy_app s) \<Longrightarrow> closing (sy_app s) \<Longrightarrow> step s (s\<lparr>sy_app := stop_child tm g (sy_app s)\<rparr>)"

text \<open>A thread runs exactly while its flag says so.\<close>

definition threads_ok :: "app_state \<Rightarrow> bool" where
  "threads_ok a \<longleftrightarrow> (job_thread_runs a \<longleftrightarrow> job_running a) \<and> (compare_thread_runs a \<longleftrightarrow> comparing a)"

text \<open>A new process: nothing runs; the receipts are those of earlier runs.\<close>

definition fresh :: "sys \<Rightarrow> bool" where
  "fresh s \<longleftrightarrow> idle (sy_app s) \<and> \<not> job_thread_runs (sy_app s) \<and> \<not> compare_thread_runs (sy_app s) \<and> alive (sy_app s) \<and> sy_requests s = 0 \<and> \<not> sy_measuring s \<and> sy_job s = NoJob
     \<and> (\<forall>m st. receipt m (sy_app s) = Some st \<longrightarrow> st \<in> set (sy_verified s))"

inductive reachable :: "sys \<Rightarrow> bool" where
  fresh: "fresh s \<Longrightarrow> reachable s"
| next_state: "reachable s \<Longrightarrow> step s s' \<Longrightarrow> reachable s'"

subsection \<open>What a request may change\<close>

definition same_job :: "app_state \<Rightarrow> app_state \<Rightarrow> bool" where
  "same_job a b \<longleftrightarrow> job_running b = job_running a \<and> (job_running a \<longrightarrow> jb_activate (ap_job b) = jb_activate (ap_job a))"

definition handled :: "app_state \<Rightarrow> reply \<Rightarrow> app_state \<Rightarrow> bool" where
  "handled a reply b \<longleftrightarrow>
     ap_home b = ap_home a \<and> (\<forall>m. receipt m b = receipt m a) \<and> (alive a \<longrightarrow> alive b) \<and> (threads_ok a \<longrightarrow> threads_ok b)
     \<and> (closing a \<longrightarrow> closing b) \<and> (job_running a \<and> cancelled a \<longrightarrow> cancelled b)
     \<and> ((reply \<noteq> Admitted \<and> same_job a b \<and> comparing b = comparing a \<and> generating b = generating a)
       \<or> (reply = Admitted \<and> \<not> model_busy a \<and> \<not> generating a \<and> same_job a b \<and> comparing b = comparing a \<and> generating b)
       \<or> (reply \<noteq> Admitted \<and> ready a \<and> \<not> comparing a \<and> \<not> generating a \<and> \<not> job_running a \<and> same_job a b \<and> comparing b \<and> \<not> generating b)
       \<or> (reply \<noteq> Admitted \<and> \<not> comparing a \<and> \<not> job_running a \<and> comparing b = comparing a \<and> generating b = generating a
           \<and> job_running b \<and> (generating a \<longrightarrow> \<not> jb_activate (ap_job b))))"

lemma handled_kept: "kept a b \<Longrightarrow> reply \<noteq> Admitted \<Longrightarrow> handled a reply b"
  by (auto simp: kept_def handled_def core_def same_job_def cancelled_def threads_ok_def)

lemma handled_same [simp]: "reply \<noteq> Admitted \<Longrightarrow> handled a reply a"
  by (rule handled_kept) simp_all

lemma done_not_admitted [simp]: "done_reply c \<noteq> Admitted"
  by (simp add: done_reply_def)

subsection \<open>Every request\<close>

lemma kept_flags:
  "fl_closing f = closing a \<Longrightarrow> fl_cancelled f = fl_cancelled (ap_flags a) \<Longrightarrow> kept a (a\<lparr>ap_flags := f\<rparr>)"
  by (rule keptI) (simp_all add: alive_def)

lemma kept_child:
  "ch_generating c = generating a \<Longrightarrow> (alive a \<Longrightarrow> ch_ready c \<Longrightarrow> ch_pid c \<noteq> 0) \<Longrightarrow> kept a (a\<lparr>ap_child := c\<rparr>)"
  by (rule keptI) (simp_all add: alive_def)

lemma kept_begun: "begin_activity stage gen model tm a = (x, b) \<Longrightarrow> kept a b"
  by (intro keptI) (auto simp: begin_activity_def Let_def alive_def)

lemma kept_begin: "kept a (observation_begin tm h source n t p a)"
proof -
  obtain r0 hist where pb: "perf_begin (sa_time h) zero_record (ap_history a) = (r0, hist)" by fastforce
  define a1 where "a1 = (on_child (\<lambda>c. c\<lparr>ch_requests := (ch_requests c + 1) mod 2 ^ 32\<rparr>) a)\<lparr>ap_history := hist\<rparr>"
  obtain x a2 where b: "begin_activity ACT_CONNECT (ap_generation a1) (Some (active_id a1)) tm a1 = (x, a2)" by fastforce
  have "kept a a1" by (rule keptI) (simp_all add: a1_def alive_def)
  moreover have "kept a1 a2" by (rule kept_begun [OF b])
  moreover have "kept a2 (on_observe f (on_flags (\<lambda>f. f\<lparr>fl_request_cancelled := False\<rparr>) (a2\<lparr>ap_request := x\<rparr>)))" for f
    by (rule keptI) (simp_all add: alive_def)
  ultimately have "kept a (on_observe f (on_flags (\<lambda>f. f\<lparr>fl_request_cancelled := False\<rparr>) (a2\<lparr>ap_request := x\<rparr>)))" for f
    using kept_trans by blast
  note k = kept_trans [OF this kept_sample(1)]
  note e = observation_begin_def [of tm h source n t p a, unfolded Let_def pb prod.case, folded a1_def, unfolded b prod.case]
  show ?thesis unfolding e by (rule k)
qed

lemma admit_core:
  "core (admit w source n t p a) = ((job_thread_runs a, compare_thread_runs a), job_running a, jb_activate (ap_job a), comparing a, True, closing a, fl_cancelled (ap_flags a))"
  "ap_home (admit w source n t p a) = ap_home a" "receipt mo (admit w source n t p a) = receipt mo a"
  "alive a \<Longrightarrow> alive (admit w source n t p a)"
  using kept_begin [of "on_child (\<lambda>c. c\<lparr>ch_generating := True\<rparr>) a" "w_tm w" "w_sample w" source n t p]
  by (simp_all add: admit_def kept_def) (simp_all add: core_def alive_def)

lemma handled_admit: "\<not> model_busy a \<Longrightarrow> \<not> generating a \<Longrightarrow> handled a Admitted (admit w source n t p a)"
  using admit_core [where w = w and source = source and n = n and t = t and p = p and a = a]
  by (auto simp: handled_def core_def same_job_def cancelled_def threads_ok_def)

lemma handled_completions: "completions w body arena a = (reply, b) \<Longrightarrow> handled a reply b"
  by (auto simp: completions_def Let_def handled_admit split: prod.splits sum.splits if_splits)

lemma handled_generate: "generate_reply w tasks records body arena a = (reply, b) \<Longrightarrow> handled a reply b"
  by (auto simp: generate_reply_def generate_def model_busy_def Let_def intro!: handled_admit
      split: prod.splits sum.splits option.splits if_splits question.splits)

lemma handled_comparison: "comparison_start n created body arena a = (reply, b) \<Longrightarrow> handled a reply b"
  by (auto simp: comparison_start_def Let_def handled_def same_job_def cancelled_def alive_def receipt_def done_reply_def threads_ok_def
      split: option.splits if_splits)

lemma kept_execution: "execution_response tm h h2 stored text a = (reply, b) \<Longrightarrow> kept a b \<and> reply \<noteq> Admitted"
proof -
  assume e: "execution_response tm h h2 stored text a = (reply, b)"
  define bk where "bk = (ap_backend a)\<lparr>bk_notice := []\<rparr>"
  have s: "kept a (a\<lparr>ap_files := fs, ap_backend := bk\<rparr>) \<and> kept a (a\<lparr>ap_files := fs\<rparr>)"
    if "save_preference (ap_home a) (fit 80 (''backend-'' @ am_sha256 m)) v ok (ap_files a) = (r, fs)" for bk m v ok r fs
    using kept_save [OF that] kept_trans [OF kept_save [OF that] kept_update(5)] by (simp add: fit_def)
  have t: "kept a a1" "kept a (snd (start_child_mode tm h2 path (Some i2) ''cpu'' a1))"
    if "start_child_mode tm h path i mode (a\<lparr>ap_backend := bk\<rparr>) = (ok, a1)" for path i mode ok a1 i2
  proof -
    show "kept a a1" using kept_trans [OF kept_update(5) kept_start(1) [OF that]] .
    then show "kept a (snd (start_child_mode tm h2 path (Some i2) ''cpu'' a1))" using kept_trans kept_start_snd by blast
  qed
  show ?thesis
  proof (cases "Option.bind (json_parse text) (\<lambda>j. json_strdup j (json_get j 0 ''mode''))")
    case None
    then show ?thesis using e by (auto simp: execution_response_def)
  next
    case (Some mode)
    define model where "model = find_model a (Some (active_id a))"
    note e1 = e [unfolded execution_response_def Some option.case Let_def, folded model_def, folded bk_def]
    show ?thesis
    proof (cases "mode \<notin> {''auto'', ''cpu'', ''gpu''} \<or> (\<not> ready a \<or> comparing a \<or> generating a \<or> job_running a)
        \<or> (mode = ''gpu'' \<and> \<not> gpu_supported a model)")
      case True
      then show ?thesis using e1 by (auto split: if_splits)
    next
      case False
      then have f: "\<not> mode \<notin> {''auto'', ''cpu'', ''gpu''}" "\<not> (\<not> ready a \<or> comparing a \<or> generating a \<or> job_running a)"
        "\<not> (mode = ''gpu'' \<and> \<not> gpu_supported a model)" by blast+
      note e2 = e1 [unfolded if_not_P [OF f(1)] if_not_P [OF f(2)] if_not_P [OF f(3)]]
      show ?thesis
      proof (cases "(if gpu_wanted mode model a then bk_gpu (ap_backend a) else bk_cpu (ap_backend a)) = bk_active (ap_backend a)")
        case True
        note e3 = e2 [unfolded if_P [OF True]]
        show ?thesis
        proof (cases model)
          case None
          then show ?thesis using e3 by auto
        next
          case (Some m)
          obtain r fs where sv: "save_preference (ap_home a) (fit 80 (''backend-'' @ am_sha256 m)) mode stored (ap_files a) = (r, fs)"
            by fastforce
          show ?thesis using e3 s [OF sv] unfolding Some option.case sv prod.case by (auto split: if_splits)
        qed
      next
        case b: False
        obtain r a1 where st: "start_child_mode tm h (ch_chosen (ap_child a)) (Some (active_id a)) mode (a\<lparr>ap_backend := bk\<rparr>) = (r, a1)"
          by fastforce
        show ?thesis using e2 [unfolded if_not_P [OF b] st prod.case] t [OF st] by (cases r) auto
      qed
    qed
  qed
qed

lemma kept_catalog: "kept a (a\<lparr>ap_models := ms, ap_revision := r, ap_catalog := t\<rparr>)"
  by (simp add: kept_def alive_def)

lemma kept_import: "import_catalog w text a = (reply, b) \<Longrightarrow> kept a b \<and> reply \<noteq> Admitted"
proof -
  assume e: "import_catalog w text a = (reply, b)"
  obtain r fs where sv: "save_preference (ap_home a) ''catalog.json'' text (w_stored w) (ap_files a) = (r, fs)" by fastforce
  have 1: "kept a (a\<lparr>ap_files := fs\<rparr>)" using kept_save [OF sv] by simp
  have 2: "kept a (a\<lparr>ap_files := fs, ap_models := ms, ap_revision := v, ap_catalog := text\<rparr>)" for ms v
    using kept_trans [OF 1 kept_catalog] .
  have 3: "kept a (restore_measurements (restore_preview_preferences
      (a\<lparr>ap_files := fs, ap_models := ms, ap_revision := v, ap_catalog := text\<rparr>)))" for ms v
    using kept_trans [OF kept_trans [OF 2 kept_previews] kept_measurements] .
  have 4: "kept a (restore_measurements (restore_preview_preferences
      (a\<lparr>ap_files := fs, ap_models := ms, ap_revision := v, ap_catalog := text\<rparr>))\<lparr>ap_prefs := pr\<rparr>)" for ms v pr
    using kept_trans [OF 3 kept_update(7)] .
  show ?thesis
  proof (cases "app_catalog_parse (w_geistr_catalog w) text")
    case None
    then show ?thesis using e by (auto simp: import_catalog_def)
  next
    case (Some x)
    obtain ms v where x: "x = (ms, v)" by fastforce
    note e1 = e [unfolded import_catalog_def Some x option.case prod.case sv Let_def]
    show ?thesis using e1 1 3 [where ms = ms and v = v] 4 [where ms = ms and v = v] by (cases r) (auto split: if_splits)
  qed
qed

lemma kept_settings:
  "performance_clear w j a = (reply, b) \<Longrightarrow> kept a b \<and> reply \<noteq> Admitted"
  "performance_settings w j a = (reply, b) \<Longrightarrow> kept a b \<and> reply \<noteq> Admitted"
proof -
  have "kept a (restore_measurements (a\<lparr>ap_history := p\<rparr>))" for p
    using kept_trans [OF kept_update(8) kept_measurements] .
  then show "performance_clear w j a = (reply, b) \<Longrightarrow> kept a b \<and> reply \<noteq> Admitted"
    by (auto simp: performance_clear_def split: if_splits prod.splits)
  show "performance_settings w j a = (reply, b) \<Longrightarrow> kept a b \<and> reply \<noteq> Admitted"
    by (auto simp: performance_settings_def Let_def split: if_splits prod.splits)
qed

lemma kept_verdict: "verdict_settings w body a = (reply, b) \<Longrightarrow> kept a b \<and> reply \<noteq> Admitted"
proof -
  assume e: "verdict_settings w body a = (reply, b)"
  show ?thesis
  proof (cases "w_verdict w body")
    case (Some t)
    obtain r fs where sv: "save_preference (ap_home a) ''verdict-settings'' t (w_stored w) (ap_files a) = (r, fs)" by fastforce
    from kept_save [OF sv] e [unfolded verdict_settings_def Some option.case sv] show ?thesis by (cases r) auto
  qed (use e in \<open>auto simp: verdict_settings_def\<close>)
qed

lemma kept_language: "set_preferences w j a = (reply, b) \<Longrightarrow> kept a b \<and> reply \<noteq> Admitted"
proof -
  assume e: "set_preferences w j a = (reply, b)"
  show ?thesis
  proof (cases "json_strdup j (json_get j 0 ''language'')")
    case (Some l)
    obtain r fs where sv: "save_preference (ap_home a) ''answer-language'' l (w_stored w) (ap_files a) = (r, fs)" by fastforce
    have "kept a (a\<lparr>ap_files := fs\<rparr>)" using kept_save [OF sv] by simp
    moreover have "kept a (a\<lparr>ap_files := fs, ap_prefs := pr\<rparr>)" for pr using kept_trans [OF calculation kept_update(7)] .
    ultimately show ?thesis using e [unfolded set_preferences_def Some option.case sv] by (cases r) (auto split: if_splits)
  qed (use e in \<open>auto simp: set_preferences_def\<close>)
qed

lemma kept_preview: "preview_model w j k a = (reply, b) \<Longrightarrow> kept a b \<and> reply \<noteq> Admitted"
proof -
  assume e: "preview_model w j k a = (reply, b)"
  obtain r fs where sv: "save_preference (ap_home a) (fit 80 (''preview-'' @ am_sha256 (ap_models a ! k))) ''v1'' (w_stored w) (ap_files a) = (r, fs)"
    by fastforce
  have "kept a (a\<lparr>ap_files := fs\<rparr>)" using kept_save [OF sv] by (simp add: fit_def)
  moreover have "kept a (a\<lparr>ap_files := fs, ap_prefs := pr\<rparr>)" for pr using kept_trans [OF calculation kept_update(7)] .
  ultimately show ?thesis using e [unfolded preview_model_def Let_def sv] by (cases r) (auto split: if_splits)
qed

lemma handled_flags:
  "handled a (done_reply c) (on_flags (\<lambda>fl. fl\<lparr>fl_closing := True\<rparr>) a)" "handled a (done_reply c) (on_flags (\<lambda>fl. fl\<lparr>fl_cancelled := True\<rparr>) a)"
  "handled a (done_reply c) (on_flags (\<lambda>fl. fl\<lparr>fl_compare_cancelled := True\<rparr>) a)"
  by (simp_all add: handled_def same_job_def cancelled_def alive_def threads_ok_def)

lemma handled_busy:
  assumes "generating a" and "fl_closing f = closing a" and "fl_cancelled f = fl_cancelled (ap_flags a)" and "reply \<noteq> Admitted"
  shows "handled a reply (a\<lparr>ap_request := x, ap_flags := f\<rparr>)"
  by (rule handled_kept [OF keptI]) (simp_all add: assms alive_def)

lemma handled_load:
  assumes "fl_closing f = closing a" and "fl_cancelled (ap_flags a) \<Longrightarrow> fl_cancelled f" and "reply \<noteq> Admitted"
  shows "handled a reply (a\<lparr>ap_load := x, ap_flags := f\<rparr>)"
  using assms by (auto simp: handled_def same_job_def cancelled_def alive_def threads_ok_def)

lemma handled_cancel: "activity_cancel w body arena a = (reply, b) \<Longrightarrow> handled a reply b"
  by (auto simp: activity_cancel_def Let_def intro!: handled_busy handled_load split: option.splits if_split_asm simp del: unat_eq_zero)

lemma handled_quit: "quit_if_idle a = (reply, b) \<Longrightarrow> handled a reply b"
  using handled_flags(1) by (auto simp: quit_if_idle_def split: if_splits)

lemma kept_stop_model: "stop_model w a = (reply, b) \<Longrightarrow> kept a b \<and> reply \<noteq> Admitted"
proof -
  assume e: "stop_model w a = (reply, b)"
  define a1 where "a1 = stop_child (w_tm w) (w_gone w) a"
  have "kept a1 (on_backend f (on_child (\<lambda>c. c\<lparr>ch_active := [], ch_active_id := []\<rparr>) a1)\<lparr>ap_message := []\<rparr>)" for f
    by (rule keptI) (simp_all add: alive_def)
  with kept_stop [of a "w_tm w" "w_gone w"] have "kept a (on_backend f (on_child (\<lambda>c. c\<lparr>ch_active := [], ch_active_id := []\<rparr>) a1)\<lparr>ap_message := []\<rparr>)" for f
    unfolding a1_def [symmetric] using kept_trans by blast
  then show ?thesis using e by (auto simp: stop_model_def a1_def split: if_splits)
qed


subsection \<open>The actions on a model\<close>

lemma kept_activity [simp]: "kept a (job_activity f a)"
  by (simp add: job_activity_def)

lemma handled_job:
  assumes "kept a b" and "\<not> job_running a" and "\<not> comparing a" and "reply \<noteq> Admitted"
    and "ap_home c = ap_home b" and "\<forall>m. receipt m c = receipt m b" and "alive b \<longrightarrow> alive c" and "closing c = closing b"
    and "comparing c = comparing b" and "generating c = generating b"
    and "job_running c \<and> generating c \<longrightarrow> \<not> jb_activate (ap_job c)"
    and "threads_ok b \<longrightarrow> threads_ok c"
  shows "handled a reply c"
  using assms by (auto simp: handled_def kept_def core_def same_job_def threads_ok_def)

lemma handled_begin:
  assumes "begin_job tm created m download activate b = (ok, c)" and "kept a b" and "\<not> job_running a" and "\<not> comparing a"
    and "generating a \<longrightarrow> \<not> activate" and "reply \<noteq> Admitted"
  shows "handled a reply c"
proof (cases "am_unsupported_format m \<noteq> None \<or> am_backends m = 0")
  case True
  then have c: "kept b c" using assms(1) by (auto simp: begin_job_def)
  show ?thesis by (rule handled_kept [OF kept_trans [OF assms(2) c] assms(6)])
next
  case False
  define b2 where "b2 = (if activate
     then on_job (\<lambda>j. j\<lparr>jb_receipt_checked := False, jb_receipt_hit := False, jb_verified_bytes := 0\<rparr>)
            (on_job (\<lambda>j. j\<lparr>jb_joinable := False\<rparr>) b) else on_job (\<lambda>j. j\<lparr>jb_joinable := False\<rparr>) b)"
  obtain x b3 where s: "begin_activity (if download then ACT_DOWNLOAD else ACT_RECEIPT)
     (if activate then ap_generation b2 + 1 else ap_generation b2) (Some (am_id m)) tm b2 = (x, b3)" by fastforce
  have "kept b b2" by (rule keptI) (simp_all add: b2_def alive_def)
  then have 3: "kept b b3" using kept_trans kept_begun [OF s] by blast
  define b5 where "b5 = on_job (\<lambda>j. j\<lparr>jb_model := Some m, jb_download := download, jb_activate := activate, jb_running := True,
     jb_received := 0, jb_phase := if download then ''downloading'' else ''preparing''\<rparr>)
     (if activate then on_flags (\<lambda>f. f\<lparr>fl_load_cancelled := False\<rparr>) (b3\<lparr>ap_load := x\<rparr>) else b3\<lparr>ap_download := x\<rparr>)"
  define b7 where "b7 = on_flags (\<lambda>f. f\<lparr>fl_cancelled := False\<rparr>)
     ((if download then on_observe (\<lambda>ob. ob\<lparr>ob_record := map_option (\<lambda>r. r\<lparr>r_contention := True\<rparr>) (ob_record ob)\<rparr>) b5 else b5)\<lparr>ap_message := []\<rparr>)"
  define b8 where "b8 = job_activity (\<lambda>x. snd (activity_end ''failed'' 503 tm x)) (on_job (\<lambda>j. j\<lparr>jb_running := False, jb_phase := []\<rparr>) b7)"
  note e = assms(1) [unfolded begin_job_def Let_def if_not_P [OF False], folded b2_def, unfolded s prod.case, folded b5_def,
      folded b7_def, folded b8_def]
  have k: "kept a b3" using kept_trans [OF assms(2) 3] .
  then have n3: "threads_ok b3 \<longrightarrow> \<not> job_thread_runs b3"
    using assms(3) by (simp add: threads_ok_def kept_def core_def)
  have 5: "ap_child b5 = ap_child b3" "ap_compare b5 = ap_compare b3" "ap_home b5 = ap_home b3" "ap_stopping b5 = ap_stopping b3"
    "\<And>mo. receipt mo b5 = receipt mo b3" "closing b5 = closing b3" "job_running b5" "jb_activate (ap_job b5) = activate"
    "job_thread_runs b5 = job_thread_runs b3"
    by (simp_all add: b5_def)
  have 7: "ap_child b7 = ap_child b3" "ap_compare b7 = ap_compare b3" "ap_home b7 = ap_home b3" "ap_stopping b7 = ap_stopping b3"
    "\<And>mo. receipt mo b7 = receipt mo b3" "closing b7 = closing b3" "job_running b7" "jb_activate (ap_job b7) = activate"
    "job_thread_runs b7 = job_thread_runs b3"
    using 5 by (simp_all add: b7_def)
  have 8: "ap_child b8 = ap_child b3" "ap_compare b8 = ap_compare b3" "ap_home b8 = ap_home b3" "ap_stopping b8 = ap_stopping b3"
    "\<And>mo. receipt mo b8 = receipt mo b3" "closing b8 = closing b3" "\<not> job_running b8"
    "job_thread_runs b8 = job_thread_runs b3"
    using 7 by (simp_all add: b8_def job_activity_def)
  have g3: "generating b3 = generating a" using k by (simp add: kept_def core_def)
  have "handled a reply (on_job (\<lambda>j. j\<lparr>jb_thread := True, jb_joinable := True\<rparr>) b7)"
    by (rule handled_job [OF k assms(3,4,6)]) (use 7 g3 assms(5) in \<open>simp_all add: alive_def threads_ok_def\<close>)
  moreover have "handled a reply (b8\<lparr>ap_message := t\<rparr>)" for t
    by (rule handled_job [OF k assms(3,4,6)]) (use 8 n3 in \<open>simp_all add: alive_def threads_ok_def\<close>)
  ultimately show ?thesis using e by (cases created) auto
qed

lemma handled_remove: "remove_model w h m a = (reply, gone, b) \<Longrightarrow> handled a reply b"
proof (cases "path_join (ap_models_dir a) (am_file m)")
  case None
  then show "remove_model w h m a = (reply, gone, b) \<Longrightarrow> ?thesis" by (auto simp: remove_model_def)
next
  case (Some path)
  assume e: "remove_model w h m a = (reply, gone, b)"
  define safe where "safe = (fo_open h \<and> length (am_file m @ ''.part'') < 256 \<and> (\<forall>n \<in> set [am_file m, am_file m @ ''.part'']. fo_look h n \<noteq> Odd))"
  define a1 where "a1 = (if safe \<and> pid a > 0 \<and> (active_id a = am_id m \<or> ch_chosen (ap_child a) = path)
                    then stop_child (w_tm w) (w_gone w) a else a)"
  obtain safe1 g where u: "(if safe then unlink_all h [am_file m, am_file m @ ''.part''] else (False, [])) = (safe1, g)" by fastforce
  obtain safe2 a2 where s: "(if safe1 \<and> pr_selected (ap_prefs a1) = am_id m then save_selection [] (w_stored w) a1 else (safe1, a1)) = (safe2, a2)"
    by fastforce
  define a3 where "a3 = (if active_id a2 = am_id m
                       then on_backend (\<lambda>b. b\<lparr>bk_notice := []\<rparr>) (on_child (\<lambda>c. c\<lparr>ch_active_id := [], ch_active := []\<rparr>) a2)
                       else a2)"
  note e1 = e [unfolded remove_model_def Let_def Some option.case, folded safe_def, folded a1_def, unfolded u prod.case s, folded a3_def]
  have 1: "kept a a1" using kept_stop by (simp add: a1_def)
  have 2: "kept a a2" using s 1 kept_trans [OF 1 kept_selection] by (auto split: if_splits)
  have "kept a2 a3" by (auto simp: a3_def kept_def alive_def)
  then have "kept a a3" using 2 kept_trans by blast
  then have "kept a (a3\<lparr>ap_message := []\<rparr>)" by (rule kept_message)
  then show ?thesis using e1 2 handled_kept by auto
qed

lemma handled_use:
  assumes "use_model w setup download0 k a = (reply, b)" and "\<not> job_running a" and "\<not> comparing a" and "\<not> (setup \<and> download0)"
    and "generating a \<longrightarrow> download0 \<and> pid a > 0"
  shows "handled a reply b"
proof -
  define m where "m = ap_models a ! k"
  define path where "path = path_join (ap_models_dir a) (am_file m)"
  define inst where "inst = (case path of None \<Rightarrow> False | Some p \<Rightarrow> w_sizes w p = am_bytes m)"
  define download where "download = (if setup then \<not> inst else download0)"
  define activate where "activate = (\<not> download \<or> pid a = 0)"
  obtain sv a1 where s: "(if activate \<and> pid a = 0 then save_selection (am_id m) (w_stored w) a else (True, a)) = (sv, a1)" by fastforce
  obtain ok a2 where j: "(if sv then begin_job (w_tm w) (w_created w) m download activate a1 else (False, a1)) = (ok, a2)" by fastforce
  have 1: "kept a a1" using s kept_selection by (auto split: if_splits)
  have g: "generating a \<longrightarrow> \<not> activate" using assms(4,5) by (auto simp: activate_def download_def)
  have "\<And>r. r \<noteq> Admitted \<Longrightarrow> handled a r a2"
    using j handled_begin [OF _ 1 assms(2,3) g] handled_kept [OF 1] by (auto split: if_splits)
  then show ?thesis
    using assms(1) [unfolded use_model_def Let_def, folded m_def, folded path_def, folded inst_def, folded download_def,
        folded activate_def, unfolded s prod.case j]
    by (auto split: if_split_asm option.splits)
qed

lemma handled_action: "model_action w f path body arena a = (reply, gone, b) \<Longrightarrow> handled a reply b"
proof -
  assume e: "model_action w f path body arena a = (reply, gone, b)"
  have p: "set_preferences w j a = (r, c) \<Longrightarrow> handled a r c" for j r c using kept_language [of w j a r c] handled_kept by blast
  have v: "preview_model w j k a = (r, c) \<Longrightarrow> handled a r c" for j k r c using kept_preview [of w j k a r c] handled_kept by blast
  have u: "use_model w (path = ''/app/setup'') (path = ''/app/download'') k a = (r, c) \<Longrightarrow> handled a r c"
    if "\<not> action_blocked False (path = ''/app/download'') (ap_models a ! k) a" for k r c
    using that by (intro handled_use) (auto simp: action_blocked_def)
  show ?thesis
    using e p v u handled_remove
    by (auto simp: model_action_def Let_def split: option.splits if_split_asm prod.splits)
qed


lemma handled_export: "perf_export t (ap_history a) = (d, p) \<Longrightarrow> reply \<noteq> Admitted \<Longrightarrow> handled a reply (a\<lparr>ap_history := p\<rparr>)"
  by (rule handled_kept) simp_all

lemma connections_not_admitted [simp]: "connections q a \<noteq> Admitted"
  by (simp add: connections_def Let_def)

definition all_handled :: "app_state \<Rightarrow> reply \<times> string list \<times> app_state \<Rightarrow> bool" where
  "all_handled a x = (case x of (reply, gone, b) \<Rightarrow> handled a reply b)"

lemma all_handled_if: "(c \<Longrightarrow> all_handled a x) \<Longrightarrow> (\<not> c \<Longrightarrow> all_handled a y) \<Longrightarrow> all_handled a (if c then x else y)"
  by simp

lemma all_handled_with: "(\<And>r b. f = (r, b) \<Longrightarrow> handled a r b) \<Longrightarrow> all_handled a (case f of (r, b) \<Rightarrow> (r, [], b))"
  by (cases f) (simp add: all_handled_def)

lemma all_handled_keep: "r \<noteq> Admitted \<Longrightarrow> all_handled a (r, [], a)"
  by (simp add: all_handled_def)

lemma all_handled_kept: "kept a b \<and> r \<noteq> Admitted \<Longrightarrow> handled a r b"
  using handled_kept by blast

lemma all_handled_authorized: "all_handled a (handle_authorized (generate_reply w tasks records) status w f r arena a)"
proof -
  have c: "all_handled a (case perf_export t (ap_history a) of
      (Some d, p) \<Rightarrow> (Sent 200 k d, [], a\<lparr>ap_history := p\<rparr>) | (None, p) \<Rightarrow> (Refused 503 l, [], a\<lparr>ap_history := p\<rparr>))" for t k l
    using handled_export by (auto simp: all_handled_def split: option.splits prod.splits)
  have s: "all_handled a (case (fst (app_alloc 16 1 n 8 arena), json_parse body) of
      (Some _, Some j) \<Rightarrow> (case if q then performance_clear w j a else performance_settings w j a of (r, b) \<Rightarrow> (r, [], b))
    | _ \<Rightarrow> (Refused 400 l, [], a))" for n body q l
    using kept_settings [of w _ a] handled_kept
    by (auto simp: all_handled_def split: option.splits prod.splits if_split_asm)
  have m: "all_handled a (model_action w f p body arena a)" for p body
    using handled_action by (auto simp: all_handled_def)
  note w = all_handled_with [OF handled_completions] all_handled_with [OF handled_generate] all_handled_with [OF handled_comparison]
    all_handled_with [OF handled_cancel] all_handled_with [OF handled_quit] all_handled_with [OF all_handled_kept [OF kept_verdict]]
    all_handled_with [OF all_handled_kept [OF kept_import]] all_handled_with [OF all_handled_kept [OF kept_execution]]
    all_handled_with [OF all_handled_kept [OF kept_stop_model]]
  have fl: "all_handled a (done_reply q, [], on_flags (\<lambda>fl. fl\<lparr>fl_closing := True\<rparr>) a)"
    "all_handled a (done_reply q, [], on_flags (\<lambda>fl. fl\<lparr>fl_cancelled := True\<rparr>) a)"
    "all_handled a (done_reply q, [], on_flags (\<lambda>fl. fl\<lparr>fl_compare_cancelled := True\<rparr>) a)" for q
    using handled_flags by (auto simp: all_handled_def)
  have st: "all_handled a (case status a of Inl (q, t) \<Rightarrow> Refused q t | Inr t \<Rightarrow> Sent 200 k t, [], a)" for k
    by (rule all_handled_keep) (simp split: sum.split prod.split)
  show ?thesis
    unfolding handle_authorized_def Let_def
    by (assumption | rule all_handled_if c s m st fl | (rule all_handled_keep, simp (no_asm); fail) | (rule w, assumption))+
qed

lemma request_handled: "app_handle (generate_reply w tasks records) status w f req arena a = (reply, gone, b) \<Longrightarrow> handled a reply b"
proof -
  assume e: "app_handle (generate_reply w tasks records) status w f req arena a = (reply, gone, b)"
  have "all_handled a (app_handle (generate_reply w tasks records) status w f req arena a)"
    unfolding app_handle_def
    by (auto simp: public_reply_def all_handled_authorized intro!: all_handled_keep split: sum.split option.splits if_splits)
  then show ?thesis by (simp add: e all_handled_def)
qed


subsection \<open>The parts of the job and of the comparison\<close>

lemma kept_job:
  assumes "jb_running j = job_running a" and "jb_activate j = jb_activate (ap_job a)" and "jb_thread j = job_thread_runs a"
  shows "kept a (a\<lparr>ap_job := j\<rparr>)"
  by (rule keptI) (simp_all add: assms alive_def)

lemma kept_parts:
  "kept a (snd (snd (download_write tm elem n count sink a)))" "kept a (job_receipt cached a)" "kept a (job_verifying tm a)"
  "kept a (job_verified m a)"
proof -
  have d: "kept a (job_activity f (a\<lparr>ap_job := j\<rparr>))" if "jb_running j = job_running a" "jb_activate j = jb_activate (ap_job a)" "jb_thread j = job_thread_runs a" for f j
    using kept_trans [OF kept_job [OF that] kept_activity] .
  show "kept a (snd (snd (download_write tm elem n count sink a)))"
    by (simp add: download_write_def Let_def d split: option.split)
  show "kept a (job_receipt cached a)" by (simp add: job_receipt_def kept_job)
  show "kept a (job_verifying tm a)" by (simp add: job_verifying_def d)
  show "kept a (job_verified m a)" by (simp add: job_verified_def kept_job)
qed

lemma kept_compare:
  assumes "cm_running c = comparing a" and "cm_thread c = compare_thread_runs a"
  shows "kept a (a\<lparr>ap_compare := c\<rparr>)"
  by (rule keptI) (simp_all add: assms alive_def)

lemma kept_switch: "kept a (snd (comparison_switch tm h path i slot a))"
proof -
  define a1 where "a1 = on_compare (\<lambda>c. c\<lparr>cm_phase := ''loading''\<rparr>) a"
  obtain ok a2 where s: "(if compare_stopped a1 then (False, a1)
      else start_child_mode tm h path (Some i) (if slot \<noteq> 0 then ''gpu'' else ''cpu'') a1) = (ok, a2)" by fastforce
  have 1: "kept a a1" by (simp add: a1_def kept_compare)
  have "kept a a2" using s 1 kept_trans [OF 1 kept_start(1)] by (auto split: if_split_asm)
  then show ?thesis
    unfolding comparison_switch_def Let_def a1_def [symmetric] s prod.case snd_conv using kept_trans kept_update(5) by blast
qed

lemma kept_restore: "kept a (snd (comparison_restore tm h path i previous a))"
proof -
  define a1 where "a1 = on_compare (\<lambda>c. c\<lparr>cm_phase := ''restoring''\<rparr>) a"
  obtain ok a2 where s: "(if closing a1 then (False, a1) else start_child_mode tm h path (Some i) previous a1) = (ok, a2)" by fastforce
  have 1: "kept a a1" by (simp add: a1_def kept_compare)
  have "kept a a2" using s 1 kept_trans [OF 1 kept_start(1)] by (auto split: if_split_asm)
  then show ?thesis
    unfolding comparison_restore_def Let_def a1_def [symmetric] s prod.case snd_conv using kept_trans kept_update(5) by blast
qed

lemma kept_take: "kept a (snd (comparison_take a))"
  by (simp add: comparison_take_def kept_compare)

text \<open>The begin and the end of a measurement and the end of a request change only that a request runs.\<close>

lemma kept_ended_request: "kept (on_child (\<lambda>c. c\<lparr>ch_generating := False\<rparr>) a) (observation_end tm h rc first elapsed st a)"
proof -
  define a1 where "a1 = observation_sample tm (en_sample h) True a"
  define rc1 where "rc1 = (if rc = 498 \<and> fl_request_cancelled (ap_flags a1) then 499 else rc)"
  define a2 where "a2 = on_observe (\<lambda>ob. ob\<lparr>ob_record := None\<rparr>) a1"
  define a3 where "a3 = a2\<lparr>ap_request := snd (activity_end (if rc1 = 499 then ''cancelled'' else if rc1 \<noteq> 0 then ''failed'' else ''completed'')
     rc1 tm (ap_request a2))\<rparr>"
  define a4 where "a4 = (case ob_record (ap_observe a1) of
      None \<Rightarrow> a3
    | Some r \<Rightarrow> a3\<lparr>ap_history := perf_submit (sa_time (en_sample h)) (finished_record rc1 first elapsed st r) (ap_history a3)\<rparr>)"
  define a5 where "a5 = restore_measurements a4"
  define b where "b = stop_child tm (en_gone h) (begin_load ACT_STOPPING (ap_generation a5 + 1) (Some (fit 64 (active_id a5))) tm a5)"
  define a6 where "a6 = (if (rc1 = 499 \<or> rc1 = 498 \<or> rc1 = 502 \<or> rc1 = 504) \<and> \<not> closing a5 then
      (if en_archived h then snd (start_child_mode tm (en_spawn h) (ch_chosen (ap_child a5)) (Some (fit 64 (active_id a5))) (fit 8 (bk_mode (ap_backend a5))) b)
       else (load_end ''failed'' 502 tm b)\<lparr>ap_message := ''The model is stopped. Its diagnostics could not be archived.''\<rparr>)
    else a5)"
  note e = observation_end_def [of tm h rc first elapsed st a, unfolded Let_def, folded a1_def, folded rc1_def, folded a2_def,
      folded a3_def, folded a4_def, folded a5_def, folded b_def, folded a6_def]
  have 1: "kept a a1" by (simp add: a1_def kept_sample)
  have 2: "kept a a2" unfolding a2_def by (rule kept_trans [OF 1]) simp
  have 3: "kept a a3" unfolding a3_def by (rule kept_trans [OF 2]) simp
  have 4: "kept a a4" using 3 kept_trans [OF 3 kept_update(8)] by (simp add: a4_def split: option.split)
  have 5: "kept a a5" unfolding a5_def by (rule kept_trans [OF 4 kept_measurements])
  have b: "kept a b" unfolding b_def by (rule kept_trans [OF kept_trans [OF 5 kept_change(3)] kept_stop])
  have "kept a a6"
    using 5 kept_trans [OF b kept_start_snd] kept_message [OF kept_trans [OF b kept_change(2)]] by (simp add: a6_def)
  then show ?thesis unfolding e by (auto simp: kept_def core_def alive_def)
qed

lemma kept_measure: "kept (on_child (\<lambda>c. c\<lparr>ch_generating := True\<rparr>) a) (comparison_measure tm h run slot repeat a)"
proof -
  define a1 where "a1 = on_compare (\<lambda>c. c\<lparr>cm_step := slot * 4 + repeat + 1, cm_phase := if repeat \<noteq> 0 then ''measuring'' else ''warmup''\<rparr>)
                 (on_child (\<lambda>c. c\<lparr>ch_generating := True\<rparr>) a)"
  have "kept (on_child (\<lambda>c. c\<lparr>ch_generating := True\<rparr>) a) a1" unfolding a1_def by (rule kept_compare) simp_all
  then show ?thesis
    unfolding comparison_measure_def Let_def a1_def [symmetric]
    using kept_trans [OF kept_trans [OF _ kept_begin] kept_update(6)] by blast
qed

text \<open>The end of the job.\<close>

lemma kept_finish: "kept (on_job (\<lambda>j. j\<lparr>jb_running := False, jb_thread := False\<rparr>) a) (job_finish tm h saved m ok reason a)"
proof -
  define target where "target = (case path_join (ap_models_dir a) (am_file m) of Some p \<Rightarrow> p | None \<Rightarrow> [])"
  define stopped where "stopped = (fl_cancelled (ap_flags a) \<or> closing a)"
  obtain r b where s: "start_child tm h target (Some (am_id m)) a = (r, b)" by fastforce
  define a1 where "a1 = (if stopped then a\<lparr>ap_message := ''Download or verification cancelled. Partial downloads can be resumed.''\<rparr>
                else if ok then
                  (if \<not> jb_activate (ap_job a) then a\<lparr>ap_message := ''Download complete.''\<rparr>
                   else case (r, b) of (True, b) \<Rightarrow> snd (save_selection (am_id m) saved b) | (False, b) \<Rightarrow> b)
                else a\<lparr>ap_message := (if reason \<noteq> [] then reason else ''Cannot prepare the model.'')\<rparr>)"
  define a2 where "a2 = (if stopped then job_activity (\<lambda>x. snd (activity_end ''cancelled'' 499 tm x)) a1
                else if \<not> ok \<or> (jb_activate (ap_job a1) \<and> pid a1 = 0)
                then job_activity (\<lambda>x. snd (activity_end ''failed'' 502 tm x)) a1
                else if \<not> jb_activate (ap_job a1) then job_activity (\<lambda>x. snd (activity_end ''completed'' 0 tm x)) a1
                else a1)"
  note e = job_finish_def [of tm h saved m ok reason a, unfolded Let_def, folded target_def, folded stopped_def, unfolded s,
      folded a1_def, folded a2_def]
  have b: "kept a b" using kept_start(2) [OF s] .
  have "kept a (snd (save_selection (am_id m) saved b))" using kept_trans [OF b kept_selection] by (metis prod.collapse)
  then have 1: "kept a a1" using b by (simp add: a1_def split: bool.split)
  then have "kept a a2" using kept_trans [OF 1 kept_activity] by (simp add: a2_def)
  then show ?thesis unfolding e by (auto simp: kept_def core_def alive_def)
qed


subsection \<open>The invariant\<close>

text \<open>One user of the model at a time, and a start of the job only of a file that was verified.\<close>

definition one_user :: "sys \<Rightarrow> bool" where
  "one_user s \<longleftrightarrow>
     (let a = sy_app s in
      sy_requests s \<le> 1 \<and> (sy_measuring s \<longrightarrow> comparing a) \<and> (comparing a \<longrightarrow> sy_requests s = 0 \<and> \<not> job_running a)
      \<and> (generating a \<longleftrightarrow> sy_requests s = 1 \<or> sy_measuring s)
      \<and> (sy_requests s = 1 \<and> job_running a \<longrightarrow> \<not> jb_activate (ap_job a)))"

definition job_known :: "sys \<Rightarrow> bool" where
  "job_known s \<longleftrightarrow>
     alive (sy_app s) \<and> threads_ok (sy_app s) \<and> (job_thread_runs (sy_app s) \<longleftrightarrow> sy_job s \<noteq> NoJob)
     \<and> (\<forall>m st. receipt m (sy_app s) = Some st \<longrightarrow> st \<in> set (sy_verified s))
     \<and> (\<forall>m reason st. sy_job s = Decided m True reason st \<longrightarrow>
          (case st of None \<Rightarrow> cancelled (sy_app s) | Some x \<Rightarrow> x \<in> set (sy_verified s)))"

lemma kept_core:
  assumes "kept a b"
  shows "job_running b = job_running a" "jb_activate (ap_job b) = jb_activate (ap_job a)" "comparing b = comparing a"
    "generating b = generating a" "cancelled b = cancelled a" "closing b = closing a" "idle b = idle a" "alive a \<longrightarrow> alive b"
    "receipt m b = receipt m a" "job_thread_runs b = job_thread_runs a" "threads_ok b = threads_ok a"
  using assms by (auto simp: kept_def core_def cancelled_def idle_def threads_ok_def)

lemma kept_invariant:
  assumes "kept (sy_app s) b"
  shows "one_user (s\<lparr>sy_app := b\<rparr>) = one_user s" "job_known s \<Longrightarrow> job_known (s\<lparr>sy_app := b\<rparr>)"
proof -
  show "one_user (s\<lparr>sy_app := b\<rparr>) = one_user s" using kept_core [OF assms] by (simp add: one_user_def Let_def)
  show "job_known s \<Longrightarrow> job_known (s\<lparr>sy_app := b\<rparr>)"
    using kept_core [OF assms] by (auto simp: job_known_def split: option.splits)
qed

lemma handled_one_user:
  assumes "handled (sy_app s) reply b" and "one_user s"
  shows "one_user (s\<lparr>sy_app := b, sy_requests := sy_requests s + (if reply = Admitted then 1 else 0), sy_job := j\<rparr>)"
  using assms unfolding handled_def one_user_def same_job_def model_busy_def Let_def
  by (cases "reply = Admitted") auto

lemma handled_job_known:
  assumes "handled (sy_app s) reply b" and "job_known s"
  shows "job_known (s\<lparr>sy_app := b, sy_requests := n, sy_job := if job_thread_runs b \<and> \<not> job_thread_runs (sy_app s) then Working m else sy_job s\<rparr>)"
proof -
  have t: "threads_ok (sy_app s)" using assms(2) by (simp add: job_known_def)
  have h: "\<And>m. receipt m b = receipt m (sy_app s)" "alive (sy_app s) \<Longrightarrow> alive b" "job_running (sy_app s) \<Longrightarrow> job_running b"
    "job_running (sy_app s) \<Longrightarrow> cancelled (sy_app s) \<Longrightarrow> cancelled b" "threads_ok b"
    using assms(1) t by (auto simp: handled_def same_job_def)
  have "job_thread_runs (sy_app s) \<Longrightarrow> job_thread_runs b" "job_thread_runs (sy_app s) = job_running (sy_app s)"
    using t h(3,5) by (auto simp: threads_ok_def)
  moreover have "\<not> job_thread_runs (sy_app s) \<Longrightarrow> sy_job s = NoJob" using assms(2) by (simp add: job_known_def)
  ultimately show ?thesis
    using h assms(2) by (auto simp: job_known_def split: option.splits)
qed

lemma fresh_invariant: "fresh s \<Longrightarrow> one_user s \<and> job_known s"
  by (auto simp: fresh_def one_user_def job_known_def idle_def threads_ok_def Let_def)

lemma receipt_saved: "receipt m' (save_receipt m (Some x) stored a) = Some y \<Longrightarrow> y = x \<or> receipt m' a = Some y"
proof -
  assume r: "receipt m' (save_receipt m (Some x) stored a) = Some y"
  obtain ok fs where s: "save_preference (ap_home a) (receipt_key m) x stored (ap_files a) = (ok, fs)" by fastforce
  have f: "read_preference (ap_home a) (receipt_key m') 512 fs = Some y" using r by (simp add: save_receipt_def receipt_def s)
  show ?thesis
  proof (cases "receipt_key m' = receipt_key m \<and> ok")
    case True
    then show ?thesis using f s by (auto simp: save_preference_def read_preference_def split: option.splits if_splits)
  next
    case False
    have "read_preference (ap_home a) (receipt_key m') 512 fs = read_preference (ap_home a) (receipt_key m') 512 (ap_files a)"
    proof (cases ok)
      case True
      with False have "receipt_key m \<noteq> receipt_key m'" by auto
      then show ?thesis by (rule save_other [OF s])
    next
      case not_saved: False
      then have "fs = ap_files a" using s unsaved_same [of "ap_home a" "receipt_key m" x stored "ap_files a" fs] by simp
      then show ?thesis by simp
    qed
    then show ?thesis using f by (simp add: receipt_def)
  qed
qed

text \<open>What a verdict says: the stamp is that of a file whose digest was the right one, now or at its receipt.\<close>

definition digest_ok :: "app_model \<Rightarrow> bool \<Rightarrow> job_help \<Rightarrow> bool" where
  "digest_ok m cached h \<longleftrightarrow>
     (cached \<or> (model_stamp m (jh_before h) \<noteq> None \<and> jh_hash h = Some (am_sha256 m)))
     \<and> model_stamp m (jh_after h) \<noteq> None \<and> model_stamp m (jh_before h) = model_stamp m (jh_after h)"

definition moved_ok :: "app_model \<Rightarrow> job_help \<Rightarrow> bool" where
  "moved_ok m h \<longleftrightarrow>
     jh_held h \<and> model_stamp m (jh_part h) \<noteq> None \<and> model_stamp m (jh_before h) = model_stamp m (jh_part h)
     \<and> jh_rename h = None \<and> jh_same h \<and> model_stamp m (jh_placed h) \<noteq> None"

lemma verdict_parts:
  "jv_ok (job_verdict stopped stopped2 m download cached h) \<longleftrightarrow> digest_ok m cached h \<and> (download \<longrightarrow> moved_ok m h)"
  "jv_cached (job_verdict stopped stopped2 m download cached h) = cached"
  "jv_stamp (job_verdict stopped stopped2 m download cached h) =
     (if digest_ok m cached h \<and> (download \<longrightarrow> moved_ok m h) \<and> \<not> cached \<and> \<not> stopped2
      then model_stamp m (if download then jh_placed h else jh_after h) else None)"
proof -
  define before after hash where "before = model_stamp m (jh_before h)" and "after = model_stamp m (jh_after h)" and "hash = jh_hash h"
  have d: "digest_ok m cached h \<longleftrightarrow>
      (cached \<or> (before \<noteq> None \<and> hash \<noteq> None)) \<and> (after \<noteq> None \<and> before = after) \<and> (cached \<or> hash = Some (am_sha256 m))"
    by (auto simp: digest_ok_def before_def after_def hash_def)
  have g: "moved_ok m h \<longleftrightarrow> (jh_held h \<and> model_stamp m (jh_part h) \<noteq> None \<and> before = model_stamp m (jh_part h))
      \<and> jh_rename h = None \<and> jh_same h \<and> model_stamp m (jh_placed h) \<noteq> None"
    by (auto simp: moved_ok_def before_def)
  note e = job_verdict_def [of stopped stopped2 m download cached h, unfolded Let_def, folded before_def after_def hash_def,
      folded d, folded g]
  show "jv_ok (job_verdict stopped stopped2 m download cached h) \<longleftrightarrow> digest_ok m cached h \<and> (download \<longrightarrow> moved_ok m h)"
    unfolding e by simp
  show "jv_cached (job_verdict stopped stopped2 m download cached h) = cached" unfolding e by simp
  show "jv_stamp (job_verdict stopped stopped2 m download cached h) =
     (if digest_ok m cached h \<and> (download \<longrightarrow> moved_ok m h) \<and> \<not> cached \<and> \<not> stopped2
      then model_stamp m (if download then jh_placed h else jh_after h) else None)"
    unfolding e by (cases cached) (simp_all add: after_def)
qed

lemma verdict_stamp:
  assumes "v = job_verdict stopped stopped2 m download (job_cached True m h a) h" and "download = jb_download (ap_job a)" and "jv_ok v"
  shows "\<exists>x. decided_stamp m download h v = Some x \<and> (x \<in> set (new_stamps m download h v) \<or> receipt m a = Some x)"
proof (cases "job_cached True m h a")
  case True
  then have r: "\<not> download" "receipt m a = model_stamp m (jh_before h)" using assms(2) by (simp_all add: job_cached_def receipt_def)
  have "model_stamp m (jh_after h) \<noteq> None" "model_stamp m (jh_before h) = model_stamp m (jh_after h)"
    using assms(1,3) verdict_parts(1) by (simp_all add: digest_ok_def)
  then show ?thesis using r assms(3) by (auto simp: decided_stamp_def)
next
  case False
  have "model_stamp m (if download then jh_placed h else jh_after h) \<noteq> None"
    using assms(1,3) verdict_parts(1) by (auto simp: digest_ok_def moved_ok_def)
  then show ?thesis
    using assms(1,3) False verdict_parts(2) by (auto simp: decided_stamp_def new_stamps_def)
qed

lemma verdict_new:
  assumes "v = job_verdict stopped stopped2 m download cached h" and "jv_stamp v = Some x"
  shows "x \<in> set (new_stamps m download h v)"
proof -
  have "jv_ok v" "\<not> jv_cached v" "model_stamp m (if download then jh_placed h else jh_after h) = Some x"
    using assms verdict_parts by (auto split: if_split_asm)
  then show ?thesis by (simp add: new_stamps_def decided_stamp_def)
qed


lemma save_receipt_frame:
  "ap_home (save_receipt m st stored a) = ap_home a" "core (save_receipt m st stored a) = core a"
  "alive (save_receipt m st stored a) = alive a"
  by (simp_all add: save_receipt_def alive_def split: option.split)

lemma save_receipt_core:
  "job_running (save_receipt m st stored a) = job_running a" "jb_activate (ap_job (save_receipt m st stored a)) = jb_activate (ap_job a)"
  "comparing (save_receipt m st stored a) = comparing a" "generating (save_receipt m st stored a) = generating a"
  "cancelled (save_receipt m st stored a) = cancelled a" "job_thread_runs (save_receipt m st stored a) = job_thread_runs a"
  "threads_ok (save_receipt m st stored a) = threads_ok a"
  by (simp_all add: save_receipt_def cancelled_def threads_ok_def split: option.split)

lemma decided_known:
  assumes "job_known s" and "sy_job s = Working m"
    and "v = job_verdict stopped stopped2 m download (job_cached True m h (sy_app s)) h" and "download = jb_download (ap_job (sy_app s))"
  shows "job_known (s\<lparr>sy_app := save_receipt m (jv_stamp v) stored (sy_app s),
        sy_job := Decided m (jv_ok v) reason (decided_stamp m download h v),
        sy_verified := new_stamps m download h v @ sy_verified s\<rparr>)"
proof -
  have r: "\<And>m' st. receipt m' (sy_app s) = Some st \<Longrightarrow> st \<in> set (sy_verified s)" using assms(1) by (auto simp: job_known_def)
  have new: "st \<in> set (new_stamps m download h v) \<or> st \<in> set (sy_verified s)"
    if "receipt m' (save_receipt m (jv_stamp v) stored (sy_app s)) = Some st" for m' st
  proof (cases "jv_stamp v")
    case None
    then show ?thesis using that r by (simp add: save_receipt_def)
  next
    case (Some x)
    then show ?thesis using receipt_saved that r verdict_new [OF assms(3)] by (metis)
  qed
  have d: "\<exists>x. decided_stamp m download h v = Some x \<and> (x \<in> set (new_stamps m download h v) \<or> x \<in> set (sy_verified s))" if "jv_ok v"
    using verdict_stamp [OF assms(3,4) that] r by blast
  show ?thesis
    using assms(1,2) new d by (auto simp: job_known_def save_receipt_frame save_receipt_core split: option.split)
qed

lemma decided_user:
  "one_user s \<Longrightarrow> one_user (s\<lparr>sy_app := save_receipt m st stored (sy_app s), sy_job := j, sy_verified := vs\<rparr>)"
  by (simp add: one_user_def save_receipt_core Let_def)

text \<open>The changes of the small parts, on \<open>one_user\<close> and \<open>job_known\<close>.\<close>

lemma request_ended:
  assumes "one_user s" and "job_known s" and "0 < sy_requests s" and "kept (on_child (\<lambda>c. c\<lparr>ch_generating := False\<rparr>) (sy_app s)) b"
  shows "one_user (s\<lparr>sy_app := b, sy_requests := sy_requests s - 1\<rparr>) \<and> job_known (s\<lparr>sy_app := b, sy_requests := sy_requests s - 1\<rparr>)"
  using assms(1-3) kept_core [OF assms(4)]
  by (auto simp: one_user_def job_known_def Let_def cancelled_def alive_def threads_ok_def split: option.splits)

lemma measure_begun:
  assumes "one_user s" and "job_known s" and "comparing (sy_app s)" and "kept (on_child (\<lambda>c. c\<lparr>ch_generating := True\<rparr>) (sy_app s)) b"
  shows "one_user (s\<lparr>sy_app := b, sy_measuring := True\<rparr>) \<and> job_known (s\<lparr>sy_app := b, sy_measuring := True\<rparr>)"
  using assms(1-3) kept_core [OF assms(4)]
  by (auto simp: one_user_def job_known_def Let_def cancelled_def alive_def threads_ok_def split: option.splits)

lemma measure_ended:
  assumes "one_user s" and "job_known s" and "sy_measuring s" and "kept (on_child (\<lambda>c. c\<lparr>ch_generating := False\<rparr>) (sy_app s)) b"
  shows "one_user (s\<lparr>sy_app := b, sy_measuring := False\<rparr>) \<and> job_known (s\<lparr>sy_app := b, sy_measuring := False\<rparr>)"
  using assms(1-3) kept_core [OF assms(4)]
  by (auto simp: one_user_def job_known_def Let_def cancelled_def alive_def threads_ok_def split: option.splits)

lemma job_ended:
  assumes "one_user s" and "job_known s" and "kept (on_job (\<lambda>j. j\<lparr>jb_running := False, jb_thread := False\<rparr>) (sy_app s)) b"
  shows "one_user (s\<lparr>sy_app := b, sy_job := NoJob\<rparr>) \<and> job_known (s\<lparr>sy_app := b, sy_job := NoJob\<rparr>)"
  using assms(1,2) kept_core [OF assms(3)]
  by (auto simp: one_user_def job_known_def Let_def cancelled_def alive_def threads_ok_def)

lemma compare_ended:
  assumes "one_user s" and "job_known s" and "\<not> sy_measuring s"
  shows "one_user (s\<lparr>sy_app := comparison_finish restored ok (sy_app s)\<rparr>) \<and> job_known (s\<lparr>sy_app := comparison_finish restored ok (sy_app s)\<rparr>)"
  using assms
  by (auto simp: comparison_finish_def one_user_def job_known_def Let_def cancelled_def alive_def threads_ok_def split: option.splits)

lemma idle_job:
  assumes "one_user s" and "job_known s" and "idle (sy_app s)" and "begin_job tm created m False True (sy_app s) = (ok, b)"
  shows "one_user (s\<lparr>sy_app := b, sy_job := if job_thread_runs b then Working m else sy_job s\<rparr>)
    \<and> job_known (s\<lparr>sy_app := b, sy_job := if job_thread_runs b then Working m else sy_job s\<rparr>)"
proof -
  have h: "handled (sy_app s) (Refused 0 []) b"
    by (rule handled_begin [OF assms(4) kept_refl]) (use assms(3) in \<open>simp_all add: idle_def\<close>)
  have n: "\<not> job_thread_runs (sy_app s)" using assms(2,3) by (simp add: idle_def job_known_def threads_ok_def)
  show ?thesis
    using handled_one_user [OF h assms(1)] handled_job_known [OF h assms(2), where n = "sy_requests s" and m = m] n by simp
qed


lemma step_invariant: "step s s' \<Longrightarrow> one_user s \<Longrightarrow> job_known s \<Longrightarrow> one_user s' \<and> job_known s'"
proof (induction rule: step.induct)
  case (monitor s tm p h h2)
  then show ?case using kept_invariant kept_monitor by blast
next
  case (request w tasks records status f req arena s reply gone b)
  note h = request_handled [OF request(1)]
  show ?case using handled_one_user [OF h request(2)] handled_job_known [OF h request(3)] by blast
next
  case (request_end s tm h rc first elapsed st)
  then show ?case using request_ended kept_ended_request by blast
next
  case (download s m tm elem n count sink)
  then show ?case using kept_invariant kept_parts(1) by blast
next
  case (looked s m cached)
  then show ?case using kept_invariant kept_parts(2) by blast
next
  case (verifying s m tm)
  then show ?case using kept_invariant kept_parts(3) by blast
next
  case (verified s m)
  then show ?case using kept_invariant kept_parts(4) by blast
next
  case (unverified s m ok reason)
  then show ?case by (auto simp: one_user_def job_known_def)
next
  case (decide s m v stopped stopped2 h stored)
  then show ?case using decided_known [OF decide(5,1,3) refl] decided_user by blast
next
  case (finish s m ok reason st tm h saved)
  then show ?case using job_ended kept_finish by blast
next
  case (compare_take s)
  then show ?case using kept_invariant kept_take by blast
next
  case (compare_switch s tm h path i slot)
  then show ?case using kept_invariant kept_switch by blast
next
  case (compare_measure s tm h2 run slot repeat)
  then have "comparing (sy_app s)" by (simp add: job_known_def threads_ok_def)
  then show ?case using compare_measure measure_begun kept_measure by blast
next
  case (compare_measured s tm he rc first elapsed st)
  then show ?case unfolding comparison_measured_def using measure_ended kept_ended_request by blast
next
  case (compare_restore s tm h path i previous)
  then show ?case using kept_invariant kept_restore by blast
next
  case (compare_finish s restored ok)
  then show ?case using compare_ended by blast
next
  case (launch_file s tm h path i)
  have "kept (sy_app s) (snd (start_child tm h path i (sy_app s)))" using kept_start(2) by (metis prod.collapse)
  then show ?case using launch_file kept_invariant by blast
next
  case (launch_saved s tm created m ok b)
  then show ?case using idle_job by blast
next
  case (quit s)
  then show ?case by (auto simp: one_user_def job_known_def threads_ok_def cancelled_def alive_def Let_def split: option.splits)
next
  case (shut s tm g)
  then show ?case using kept_invariant kept_stop by blast
qed

lemma reachable_invariant: "reachable s \<Longrightarrow> one_user s \<and> job_known s"
  by (induction rule: reachable.induct) (use fresh_invariant step_invariant in blast)+

subsection \<open>A start of the job\<close>

lemma generation_kept:
  "ap_generation (job_activity f a) = ap_generation a" "ap_generation (snd (save_selection i ok a)) = ap_generation a"
  by (auto simp: job_activity_def save_selection_def split: prod.split bool.split)

lemma finish_starts:
  assumes "ap_generation (job_finish tm h saved m ok reason a) \<noteq> ap_generation a"
  shows "ok \<and> \<not> cancelled a \<and> jb_activate (ap_job a)"
  using assms by (auto simp: job_finish_def Let_def generation_kept cancelled_def split: if_split_asm)

lemma started_known:
  assumes "reachable s" and "sy_job s = Decided m ok reason st"
    and "ap_generation (job_finish tm h saved m ok reason (sy_app s)) \<noteq> ap_generation (sy_app s)"
  shows "ok \<and> (\<exists>x. st = Some x \<and> x \<in> set (sy_verified s))"
  using reachable_invariant [OF assms(1)] assms(2) finish_starts [OF assms(3)]
  by (auto simp: job_known_def split: option.splits)

subsection \<open>The application can always come to rest\<close>

text \<open>At rest no request runs and no thread of the job or of the comparison is left.\<close>

definition at_rest :: "sys \<Rightarrow> bool" where
  "at_rest s \<longleftrightarrow> sy_requests s = 0 \<and> \<not> sy_measuring s \<and> idle (sy_app s)
     \<and> \<not> job_thread_runs (sy_app s) \<and> \<not> compare_thread_runs (sy_app s)"

lemma step_reach: "step s s' \<Longrightarrow> reachable s \<Longrightarrow> reachable s' \<and> step\<^sup>*\<^sup>* s s'"
  using next_state by auto

text \<open>A request ends; a measurement ends; the comparison ends; the job ends without a verdict. The thread whose
  step this is runs because the flag is set, by the invariant.\<close>

lemma rest_request:
  assumes "reachable s"
  shows "\<exists>s'. step\<^sup>*\<^sup>* s s' \<and> reachable s' \<and> sy_requests s' = 0"
proof (cases "sy_requests s = 0")
  case False
  fix h :: end_help and st :: app_run_stats
  have one: "sy_requests s \<le> 1" using reachable_invariant [OF assms] by (simp add: one_user_def Let_def)
  have "step s (s\<lparr>sy_app := observation_end 0 h 0 0 0 st (sy_app s), sy_requests := sy_requests s - 1\<rparr>)"
    by (rule step.request_end) (use False in simp)
  from step_reach [OF this assms] show ?thesis using one by force
qed (use assms in blast)

lemma rest_measure:
  assumes "reachable s" and "sy_requests s = 0"
  shows "\<exists>s'. step\<^sup>*\<^sup>* s s' \<and> reachable s' \<and> sy_requests s' = 0 \<and> \<not> sy_measuring s'"
proof (cases "sy_measuring s")
  case True
  fix h :: end_help and st :: app_run_stats
  have "compare_thread_runs (sy_app s)"
    using reachable_invariant [OF assms(1)] True by (simp add: one_user_def job_known_def threads_ok_def Let_def)
  then have "step s (s\<lparr>sy_app := comparison_measured 0 h 0 0 0 st (sy_app s), sy_measuring := False\<rparr>)"
    using True by (rule step.compare_measured)
  from step_reach [OF this assms(1)] show ?thesis using assms(2) by force
qed (use assms in blast)

lemma rest_compare:
  assumes "reachable s" and "sy_requests s = 0" and "\<not> sy_measuring s"
  shows "\<exists>s'. step\<^sup>*\<^sup>* s s' \<and> reachable s' \<and> sy_requests s' = 0 \<and> \<not> sy_measuring s' \<and> \<not> comparing (sy_app s')"
proof (cases "comparing (sy_app s)")
  case True
  then have "compare_thread_runs (sy_app s)" using reachable_invariant [OF assms(1)] by (simp add: job_known_def threads_ok_def)
  then have "step s (s\<lparr>sy_app := comparison_finish True True (sy_app s)\<rparr>)" using assms(3) by (rule step.compare_finish)
  from step_reach [OF this assms(1)] show ?thesis using assms(2,3) by (force simp: comparison_finish_def)
qed (use assms in blast)

lemma rest_idle: "reachable s \<Longrightarrow> sy_requests s = 0 \<Longrightarrow> \<not> sy_measuring s \<Longrightarrow> \<not> comparing (sy_app s) \<Longrightarrow> sy_job s = NoJob \<Longrightarrow> at_rest s"
  using reachable_invariant [of s] by (auto simp: at_rest_def one_user_def job_known_def threads_ok_def idle_def Let_def)

lemma rest_decided:
  assumes "reachable s" and "sy_job s = Decided m ok reason st" and "sy_requests s = 0" and "\<not> sy_measuring s" and "\<not> comparing (sy_app s)"
  shows "\<exists>s'. step\<^sup>*\<^sup>* s s' \<and> at_rest s'"
proof -
  fix h :: spawn_help
  define b where "b = job_finish 0 h True m ok reason (sy_app s)"
  define z where "z = s\<lparr>sy_app := b, sy_job := NoJob\<rparr>"
  have "step s z" unfolding z_def b_def by (rule step.finish [OF assms(2)])
  from step_reach [OF this assms(1)] have z: "step\<^sup>*\<^sup>* s z" "reachable z" by blast+
  have "\<not> comparing b" using kept_core(3) [OF kept_finish, of 0 h True m ok reason "sy_app s"] assms(5) by (simp add: b_def)
  then have "at_rest z" using z(2) assms(3,4) by (intro rest_idle) (simp_all add: z_def)
  with z show ?thesis by blast
qed

lemma rest_job:
  assumes "reachable s" and "sy_requests s = 0" and "\<not> sy_measuring s" and "\<not> comparing (sy_app s)"
  shows "\<exists>s'. step\<^sup>*\<^sup>* s s' \<and> at_rest s'"
proof (cases "sy_job s")
  case NoJob
  then show ?thesis using rest_idle [OF assms] by blast
next
  case (Decided m ok reason st)
  then show ?thesis using rest_decided [OF assms(1) _ assms(2-4)] by blast
next
  case (Working m)
  define z where "z = s\<lparr>sy_job := Decided m False [] None\<rparr>"
  have "step s z" unfolding z_def by (rule step.unverified [OF Working]) simp
  from step_reach [OF this assms(1)] have z: "step\<^sup>*\<^sup>* s z" "reachable z" by blast+
  obtain s' where "step\<^sup>*\<^sup>* z s'" "at_rest s'"
    using rest_decided [OF z(2), of m False "[]" None] assms by (auto simp: z_def)
  then show ?thesis using z(1) rtranclp_trans [of step s z s'] by blast
qed

lemma rest:
  assumes "reachable s"
  shows "\<exists>s'. step\<^sup>*\<^sup>* s s' \<and> at_rest s'"
proof -
  obtain s1 where 1: "step\<^sup>*\<^sup>* s s1" "reachable s1" "sy_requests s1 = 0" using rest_request [OF assms] by blast
  obtain s2 where 2: "step\<^sup>*\<^sup>* s1 s2" "reachable s2" "sy_requests s2 = 0" "\<not> sy_measuring s2" using rest_measure [OF 1(2,3)] by blast
  obtain s3 where 3: "step\<^sup>*\<^sup>* s2 s3" "reachable s3" "sy_requests s3 = 0" "\<not> sy_measuring s3" "\<not> comparing (sy_app s3)"
    using rest_compare [OF 2(2-4)] by blast
  obtain s4 where "step\<^sup>*\<^sup>* s3 s4" "at_rest s4" using rest_job [OF 3(2-5)] by blast
  then show ?thesis using 1(1) 2(1) 3(1) by (meson rtranclp_trans)
qed

end
