(* ===== verification/AppFacts.thy ===== *)
theory AppFacts
  imports AppSteps
begin

section \<open>Facts about single actions of the application\<close>

text \<open>
  What a stamp identifies; what a removal removes and who may ask for it; that an import leaves the
  running model in the catalog; and what happens if the job starts a model while the monitor waits for
  the old one to end.
\<close>

subsection \<open>Stamps\<close>

lemma dec_injective: "dec m = dec n \<Longrightarrow> m = n"
  by (metis digits_dec_value)

lemma dec_same: "dec m = dec n \<longleftrightarrow> m = n"
  using dec_injective by blast

lemma dec_no_minus: "dec n \<noteq> CHR ''-'' # t"
  using dec_hd [of n] by (auto simp: is_digit_def)

lemma deci_injective: "deci i = deci j \<Longrightarrow> i = j"
  using dec_no_minus [symmetric] dec_no_minus
  by (auto simp: deci_def dest: dec_injective split: if_splits)

lemma deci_same: "deci i = deci j \<longleftrightarrow> i = j"
  using deci_injective by blast

lemma dec_no_space: "CHR '' '' \<notin> set (dec n)"
  using dec_digits [of n] by (auto simp: list_all_iff is_digit_def)

lemma deci_no_space: "CHR '' '' \<notin> set (deci i)"
  using dec_no_space by (auto simp: deci_def)

lemma split_at_space:
  "CHR '' '' \<notin> set u \<Longrightarrow> CHR '' '' \<notin> set v \<Longrightarrow> u @ CHR '' '' # s = v @ CHR '' '' # t \<Longrightarrow> u = v \<and> s = t"
proof (induction u arbitrary: v)
  case Nil
  then show ?case by (cases v) auto
next
  case (Cons c u)
  then show ?case by (cases v) auto
qed

lemma words_line_injective:
  assumes "length ws = length vs" and "\<forall>w \<in> set (ws @ vs). CHR '' '' \<notin> set w" and "words_line ws = words_line vs"
  shows "ws = vs"
  using assms
proof (induction ws arbitrary: vs rule: words_line.induct)
  case (2 w)
  then show ?case by (cases vs) auto
next
  case (3 w w2 ws)
  then obtain v v2 vs' where v: "vs = v # v2 # vs'" by (metis length_Suc_conv)
  have "w @ CHR '' '' # words_line (w2 # ws) = v @ CHR '' '' # words_line (v2 # vs')" using 3(4) v by simp
  moreover have "CHR '' '' \<notin> set w" "CHR '' '' \<notin> set v" using 3(3) v by auto
  ultimately have e: "w = v" "words_line (w2 # ws) = words_line (v2 # vs')" using split_at_space by blast+
  have "w2 # ws = v2 # vs'" by (rule 3(1) [OF _ _ e(2)]) (use 3(2,3) v in auto)
  then show ?case using e(1) v by simp
qed simp

lemma stamp_words_space: "CHR '' '' \<notin> set (am_sha256 m) \<Longrightarrow> \<forall>w \<in> set (stamp_words m s). CHR '' '' \<notin> set w"
  using dec_no_space deci_no_space by (simp add: stamp_words_def)

lemma stamp_injective:
  assumes "model_stamp m (Some s) = Some x" and "model_stamp m' (Some s') = Some x"
    and "CHR '' '' \<notin> set (am_sha256 m)" and "CHR '' '' \<notin> set (am_sha256 m')"
  shows "am_sha256 m' = am_sha256 m \<and> s' = s"
proof -
  have "words_line (stamp_words m s) = words_line (stamp_words m' s')"
    using assms(1,2) by (auto simp: model_stamp_def split: if_splits)
  moreover have "\<forall>w \<in> set (stamp_words m s @ stamp_words m' s'). CHR '' '' \<notin> set w"
    using stamp_words_space assms(3,4) by auto
  ultimately have "stamp_words m s = stamp_words m' s'"
    by (intro words_line_injective) (simp_all add: stamp_words_def)
  then have "am_sha256 m' = am_sha256 m" and "ms_dev s' = ms_dev s" "ms_ino s' = ms_ino s" "ms_size s' = ms_size s"
    "ms_mode s' = ms_mode s" "ms_uid s' = ms_uid s" "ms_gid s' = ms_gid s" "ms_nlink s' = ms_nlink s" "ms_mtime s' = ms_mtime s"
    "ms_mnsec s' = ms_mnsec s" "ms_ctime s' = ms_ctime s" "ms_cnsec s' = ms_cnsec s"
    by (simp_all add: stamp_words_def dec_same deci_same)
  then show ?thesis by simp
qed

lemma new_stamp_means:
  assumes "x \<in> set (new_stamps m download h (job_verdict stopped stopped2 m download cached h))"
  shows "jh_hash h = Some (am_sha256 m) \<and> model_stamp m (jh_before h) = model_stamp m (jh_after h)
    \<and> model_stamp m (if download then jh_placed h else jh_after h) = Some x"
proof -
  define v where "v = job_verdict stopped stopped2 m download cached h"
  have n: "x \<in> set (new_stamps m download h v)" using assms by (simp only: v_def)
  have c: "jv_ok v \<and> \<not> jv_cached v"
  proof (rule ccontr)
    assume "\<not> (jv_ok v \<and> \<not> jv_cached v)"
    then have "new_stamps m download h v = []" unfolding new_stamps_def by (rule if_not_P)
    then show False using n by simp
  qed
  then have v: "jv_ok v" "\<not> jv_cached v" by blast+
  moreover have "decided_stamp m download h v = Some x" using n v by (cases "decided_stamp m download h v") (simp_all add: new_stamps_def)
  ultimately have v: "jv_ok v" "\<not> jv_cached v" "decided_stamp m download h v = Some x" by blast+
  then have "digest_ok m cached h" "\<not> cached" using verdict_parts(1,2) [of stopped stopped2 m download cached h, folded v_def] by simp_all
  moreover have "model_stamp m (if download then jh_placed h else jh_after h) = Some x" using v(1,3) by (simp add: decided_stamp_def)
  ultimately show ?thesis by (simp add: digest_ok_def)
qed

subsection \<open>Removal\<close>

lemma unlink_all_gone: "unlink_all h ns = (ok, gone) \<Longrightarrow> n \<in> set gone \<Longrightarrow> n \<in> set ns \<and> fo_look h n \<noteq> Missing"
  by (induction h ns arbitrary: ok gone rule: unlink_all.induct) (auto split: if_splits prod.splits)

lemma selection_child: "ap_child (snd (save_selection i ok a)) = ap_child a"
  by (auto simp: save_selection_def split: prod.split bool.split)

lemma removed:
  assumes "remove_model w h m a = (reply, gone, b)" and "n \<in> set gone"
  shows "n \<in> {am_file m, am_file m @ ''.part''} \<and> fo_look h n = Regular
    \<and> (pid b = 0 \<or> (active_id a \<noteq> am_id m \<and> path_join (ap_models_dir a) (am_file m) \<noteq> Some (ch_chosen (ap_child a))))"
proof -
  obtain path where p: "path_join (ap_models_dir a) (am_file m) = Some path"
    using assms by (cases "path_join (ap_models_dir a) (am_file m)") (auto simp: remove_model_def)
  define safe where "safe = (fo_open h \<and> length (am_file m @ ''.part'') < 256 \<and> (\<forall>n \<in> set [am_file m, am_file m @ ''.part'']. fo_look h n \<noteq> Odd))"
  define a1 where "a1 = (if safe \<and> pid a > 0 \<and> (active_id a = am_id m \<or> ch_chosen (ap_child a) = path)
                    then stop_child (w_tm w) (w_gone w) a else a)"
  obtain safe1 g where u: "(if safe then unlink_all h [am_file m, am_file m @ ''.part''] else (False, [])) = (safe1, g)" by fastforce
  obtain safe2 a2 where s: "(if safe1 \<and> pr_selected (ap_prefs a1) = am_id m then save_selection [] (w_stored w) a1 else (safe1, a1)) = (safe2, a2)"
    by fastforce
  define a3 where "a3 = (if active_id a2 = am_id m
                       then on_backend (\<lambda>b. b\<lparr>bk_notice := []\<rparr>) (on_child (\<lambda>c. c\<lparr>ch_active_id := [], ch_active := []\<rparr>) a2)
                       else a2)"
  note e = assms(1) [unfolded remove_model_def Let_def p option.case, folded safe_def, folded a1_def, unfolded u prod.case s, folded a3_def]
  have g: "gone = g" using e by simp
  then have safe: safe using u assms(2) by (cases safe) auto
  then have n: "n \<in> {am_file m, am_file m @ ''.part''}" "fo_look h n \<noteq> Missing"
    using u assms(2) g unlink_all_gone [of h "[am_file m, am_file m @ ''.part'']" safe1 g n] by auto
  then have "fo_look h n = Regular" using safe by (cases "fo_look h n") (auto simp: safe_def)
  moreover have "pid b = pid a1"
  proof -
    have "pid a2 = pid a1" using s selection_child [of "[]" "w_stored w" a1] by (auto split: if_split_asm)
    then show ?thesis using e by (auto simp: a3_def split: if_split_asm)
  qed
  moreover have "pid a1 = 0 \<or> (active_id a \<noteq> am_id m \<and> ch_chosen (ap_child a) \<noteq> path)"
    using safe by (auto simp: a1_def frame)
  ultimately show ?thesis using n p by auto
qed

text \<open>What a request removes: \<open>frees\<close> says which model it was asked to remove.\<close>

definition frees :: "folder_help \<Rightarrow> string \<Rightarrow> app_state \<Rightarrow> string list \<Rightarrow> app_state \<Rightarrow> bool" where
  "frees f body a gone b \<longleftrightarrow>
     gone = []
     \<or> (\<exists>m \<in> set (ap_models a).
          (\<exists>j. json_parse body = Some j \<and> json_strdup j (json_get j 0 ''id'') = Some (am_id m)) \<and>
          (\<forall>n \<in> set gone. n \<in> {am_file m, am_file m @ ''.part''} \<and> fo_look f n = Regular)
          \<and> \<not> closing a \<and> \<not> comparing a \<and> \<not> generating a \<and> \<not> job_running a
          \<and> (pid b = 0 \<or> (active_id a \<noteq> am_id m \<and> path_join (ap_models_dir a) (am_file m) \<noteq> Some (ch_chosen (ap_child a)))))"

lemma app_model_find_nth: "app_model_find ms i = Some k \<Longrightarrow> k < length ms"
  by (auto simp: app_model_find_def find_Some_iff split: option.splits)

lemma app_model_find_id: "app_model_find ms i = Some k \<Longrightarrow> i = Some (am_id (ms ! k))"
  by (auto simp: app_model_find_def find_Some_iff split: option.splits)

lemma action_frees:
  assumes "model_action w f path body arena a = (reply, gone, b)"
  shows "frees f body a gone b \<and> (gone \<noteq> [] \<longrightarrow> path = ''/app/remove'')"
proof (cases "path = ''/app/remove'' \<and> gone \<noteq> []")
  case False
  have "path \<noteq> ''/app/remove'' \<Longrightarrow> gone = []"
    using assms by (auto simp: model_action_def Let_def split: option.splits if_split_asm prod.splits)
  then show ?thesis using False by (auto simp: frees_def)
next
  case True
  then obtain j k where j: "json_parse body = Some j"
    and k: "app_model_find (ap_models a) (json_strdup j (json_get j 0 ''id'')) = Some k"
    "\<not> action_blocked False False (ap_models a ! k) a" "remove_model w f (ap_models a ! k) a = (reply, gone, b)"
    using assms by (auto simp: model_action_def Let_def split: option.splits if_split_asm prod.splits)
  have "ap_models a ! k \<in> set (ap_models a)" using app_model_find_nth [OF k(1)] by simp
  moreover obtain n where "n \<in> set gone" using True by (cases gone) auto
  ultimately show ?thesis using True j app_model_find_id [OF k(1)] k(2) removed [OF k(3)] by (auto simp: frees_def action_blocked_def)
qed

definition frees_only :: "folder_help \<Rightarrow> string \<Rightarrow> app_state \<Rightarrow> bool \<Rightarrow> reply \<times> string list \<times> app_state \<Rightarrow> bool" where
  "frees_only f body a asked x = (case x of (reply, gone, b) \<Rightarrow> gone = [] \<or> (asked \<and> frees f body a gone b))"

lemma frees_if: "(c \<Longrightarrow> frees_only f y0 a q x) \<Longrightarrow> (\<not> c \<Longrightarrow> frees_only f y0 a q y) \<Longrightarrow> frees_only f y0 a q (if c then x else y)"
  by simp

lemma frees_none: "frees_only f y0 a q (r, [], b)"
  by (simp add: frees_only_def)

lemma frees_with: "frees_only f y0 a q (case x of (r, b) \<Rightarrow> (r, [], b))"
  by (cases x) (simp add: frees_only_def)

lemma authorized_frees:
  "frees_only f (rq_body r) a (rq_method r = ''POST'' \<and> rq_path r = ''/app/remove'') (handle_authorized gen status w f r arena a)"
proof -
  have m: "frees_only f (rq_body r) a (rq_method r = ''POST'' \<and> rq_path r = ''/app/remove'') (model_action w f (rq_path r) (rq_body r) arena a)"
    if "\<not> rq_method r \<noteq> ''POST''"
    using action_frees [of w f "rq_path r" "rq_body r" arena a] that by (cases "model_action w f (rq_path r) (rq_body r) arena a") (auto simp: frees_only_def)
  have c: "frees_only f y0 a q (case perf_export t (ap_history a) of
      (Some d, p) \<Rightarrow> (Sent 200 k d, [], a\<lparr>ap_history := p\<rparr>) | (None, p) \<Rightarrow> (Refused 503 l, [], a\<lparr>ap_history := p\<rparr>))" for y0 q t k l
    by (auto simp: frees_only_def split: option.splits prod.splits)
  have s: "frees_only f y0 a q (case (fst (app_alloc 16 1 n 8 arena), json_parse body) of
      (Some _, Some j) \<Rightarrow> (case if z then performance_clear w j a else performance_settings w j a of (r, b) \<Rightarrow> (r, [], b))
    | _ \<Rightarrow> (Refused 400 l, [], a))" for y0 n body q l z
    by (auto simp: frees_only_def split: option.splits prod.splits)
  show ?thesis
    unfolding handle_authorized_def Let_def
    by (assumption | rule frees_if c s frees_none frees_with | (rule m, assumption))+
qed

lemma request_frees:
  assumes "app_handle gen status w f req arena a = (reply, gone, b)" and "gone \<noteq> []"
  shows "\<exists>r. req = Inr r \<and> authorized (ap_token a) r \<and> rq_method r = ''POST'' \<and> rq_path r = ''/app/remove'' \<and> frees f (rq_body r) a gone b"
proof -
  obtain r where r: "req = Inr r" "public_reply w r = None" "authorized (ap_token a) r" "handle_authorized gen status w f r arena a = (reply, gone, b)"
    using assms by (auto simp: app_handle_def split: sum.splits option.splits if_split_asm)
  then show ?thesis using authorized_frees [of f r a gen status w arena] assms(2) by (simp add: frees_only_def)
qed

subsection \<open>Import\<close>

lemma import_running:
  assumes "import_catalog w text a = (done_reply 200, b)" and "ready a" and "find_model a (Some (active_id a)) = Some old"
  shows "\<exists>new. find_model b (Some (active_id b)) = Some new \<and> active_id b = active_id a \<and> am_sha256 new = am_sha256 old
    \<and> am_file new = am_file old \<and> am_backends new = am_backends old \<and> am_bytes new = am_bytes old"
proof -
  obtain ms v where p: "app_catalog_parse (w_geistr_catalog w) text = Some (ms, v)"
    using assms(1) by (auto simp: import_catalog_def done_reply_def split: option.splits)
  obtain r fs where s: "save_preference (ap_home a) ''catalog.json'' text (w_stored w) (ap_files a) = (r, fs)" by fastforce
  have d: "\<And>c t. Refused c t \<noteq> done_reply 200" by (simp add: done_reply_def)
  note e = assms(1) [unfolded import_catalog_def p option.case prod.case s Let_def]
  have n: "\<not> running_changed ms a" and r: r using e d by (auto split: if_split_asm bool.split_asm)
  define a2 where "a2 = restore_measurements (restore_preview_preferences (a\<lparr>ap_files := fs, ap_models := ms, ap_revision := v, ap_catalog := text\<rparr>))"
  have m: "ap_models b = ms" "ap_child b = ap_child a"
    using e d r unfolding a2_def [symmetric]
    by (auto simp: a2_def restore_measurements_def restore_preview_preferences_def Let_def split: if_split_asm)
  obtain k where k: "app_model_find ms (Some (active_id a)) = Some k" "am_sha256 (ms ! k) = am_sha256 old" "am_file (ms ! k) = am_file old"
    "am_backends (ms ! k) = am_backends old" "am_bytes (ms ! k) = am_bytes old"
    using n assms(2,3) by (auto simp: running_changed_def split: option.splits)
  show ?thesis by (rule exI [of _ "ms ! k"]) (use k m in \<open>simp add: find_model_def\<close>)
qed

subsection \<open>The answer to a caller without the key\<close>

lemma no_key_answer:
  assumes "\<not> authorized (ap_token a) r"
  shows "app_handle gen status w f (Inr r) arena a =
    (case public_reply w r of
       Some reply \<Rightarrow> (reply, [], a)
     | None \<Rightarrow> (if take 4 (rq_path r) = ''/v1/'' then ApiRefused 401 ''A valid local geisten API key is required.''
                else Refused 403 ''Open the private app link supplied by the launcher.'', [], a))"
  using assms by (simp add: app_handle_def split: option.split)

subsection \<open>A start while a stop waits\<close>

text \<open>The monitor stops a model that did not load in time and gives the mutex away; the job takes it, starts
  its model, and gives it back; the monitor looks again, finds a process, and kills it: the new one.\<close>

lemma start_during_stop:
  assumes "start_child_mode tm h path i mode (stop_first a) = (True, b)"
  shows "sp_spawn h = Inr (pid b) \<and> \<not> ap_stopping b \<and> fst (stop_last tm2 (stop_look tm2 False b)) = pid b
    \<and> pid (snd (stop_last tm2 (stop_look tm2 False b))) = 0"
  using start_mode_frame [OF assms]
  by (simp add: started_def stop_last_def stop_look_def stop_cleanup_def runtime_paths_close_def)

subsection \<open>The words of a request\<close>

lemma word_get: "word_ok 7 ''GET''"
  by code_simp

lemma word_root: "word_ok 255 ''/''"
  by code_simp

lemma word_host: "word_ok 127 ''localhost:80''"
  by code_simp

lemma word_key: "word_ok 120 ''k''"
  by code_simp

lemma local_host: "loopback_host ''localhost:80''"
  unfolding loopback_host_iff by (intro exI [of _ "''80''"]) (simp add: decimal_def digit_value_def)

end
