(* ===== verification/AppScenes.thy ===== *)
theory AppScenes
  imports AppFacts AppSamples
begin

section \<open>Concrete states of the application\<close>

text \<open>
  The state as the process starts with it, one with a model that runs, and a world whose answers are
  all good; the runs the witnesses of the properties use.
\<close>

definition app0 :: app_state where
  "app0 =
     \<lparr>ap_models = [model0], ap_revision = 1, ap_catalog = [], ap_home = ''/h'', ap_models_dir = ''/m'', ap_token = ''k'',
      ap_instance = ''i'', ap_message = [], ap_api_socket = [], ap_port = 80, ap_packaged = no_engine, ap_generation = 0,
      ap_stopping = False,
      ap_child = \<lparr>ch_pid = 0, ch_previous_pid = 0, ch_probe_ms = 0, ch_reaped_ms = 0, ch_spawned_ms = 0, ch_loading_started = 0,
        ch_loaded_ms = 0, ch_runtime_dir = [], ch_socket_path = [], ch_lifecycle = False, ch_snapshot = None, ch_phase = 0,
        ch_requests = 0, ch_threads = 0, ch_engine = no_engine, ch_ready = False, ch_generating = False, ch_active = [],
        ch_active_id = [], ch_chosen = [], ch_operation = 0\<rparr>,
      ap_backend = \<lparr>bk_mode = [], bk_active = [], bk_cpu = ''cpu'', bk_gpu = ''vulkan'', bk_notice = [], bk_gpu_available = False,
        bk_verified = False, bk_save = False\<rparr>,
      ap_job = \<lparr>jb_model = None, jb_running = False, jb_joinable = False, jb_thread = False, jb_download = False, jb_activate = False,
        jb_received = 0, jb_verified_bytes = 0, jb_phase = [], jb_receipt_checked = False, jb_receipt_hit = False\<rparr>,
      ap_compare = \<lparr>cm_running = False, cm_joinable = False, cm_thread = False, cm_phase = [], cm_result = [], cm_user_mode = [], cm_step = 0\<rparr>,
      ap_observe = \<lparr>ob_record = None, ob_window = no_window, ob_sample_ms = 0, ob_cpu_sum = 0, ob_process_ms = 0,
        ob_cpu_samples = 0, ob_process = no_sample, ob_generation = 0\<rparr>,
      ap_load = no_activity, ap_request = no_activity, ap_download = no_activity,
      ap_prefs = \<lparr>pr_selected = [], pr_answer_language = ''en'', pr_preview = [False], pr_series = [], pr_history = [], pr_speed = []\<rparr>,
      ap_flags = \<lparr>fl_closing = False, fl_cancelled = False, fl_compare_cancelled = False, fl_request_cancelled = False,
        fl_load_cancelled = False\<rparr>,
      ap_files = (\<lambda>_. None), ap_history = history0\<rparr>"

definition sys0 :: sys where
  "sys0 = \<lparr>sy_app = app0, sy_requests = 0, sy_measuring = False, sy_job = NoJob, sy_verified = []\<rparr>"

lemma fresh0: "fresh sys0"
  by (simp add: fresh_def sys0_def app0_def idle_def alive_def receipt_def read_preference_def split: option.split)

subsection \<open>A start of a saved model\<close>

definition spawn0 :: spawn_help where
  "spawn0 = \<lparr>sp_gone = True, sp_payload = None, sp_hardware = Some device0, sp_dir = Some ''/t'', sp_socket = True, sp_log = True,
     sp_env = True, sp_page = True, sp_spawn = Inr 7\<rparr>"

definition file0 :: model_stat where
  "file0 = \<lparr>ms_dev = 1, ms_ino = 2, ms_size = 400 * 1048576, ms_mode = 33152, ms_uid = 3, ms_gid = 4, ms_nlink = 1,
     ms_mtime = 5, ms_mnsec = 6, ms_ctime = 7, ms_cnsec = 8\<rparr>"

definition job0 :: job_help where
  "job0 = \<lparr>jh_before = Some file0, jh_hash = Some (am_sha256 model0), jh_after = Some file0, jh_held = True, jh_part = None,
     jh_rename = None, jh_same = True, jh_placed = None\<rparr>"

definition stamp0 :: string where
  "stamp0 = words_line (stamp_words model0 file0)"

definition app1 :: app_state where
  "app1 = snd (begin_job 0 True model0 False True app0)"

definition sys1 :: sys where
  "sys1 = sys0\<lparr>sy_app := app1, sy_job := Working model0\<rparr>"

definition verdict0 :: job_result where
  "verdict0 = job_verdict False False model0 False (job_cached True model0 job0 app1) job0"

definition sys2 :: sys where
  "sys2 = sys1\<lparr>sy_app := save_receipt model0 (jv_stamp verdict0) True app1,
     sy_job := Decided model0 (jv_ok verdict0) (jv_why verdict0) (decided_stamp model0 (jb_download (ap_job app1)) job0 verdict0),
     sy_verified := new_stamps model0 (jb_download (ap_job app1)) job0 verdict0 @ sy_verified sys1\<rparr>"

lemma stamp0: "model_stamp model0 (Some file0) = Some stamp0"
proof -
  have "ms_size file0 = unat (am_bytes model0)" by (simp add: file0_def model0_def)
  moreover have "length stamp0 < 512" unfolding stamp0_def stamp_words_def file0_def model0_def by (simp add: dec.simps deci_def)
  ultimately show ?thesis by (simp add: model_stamp_def stamp0_def)
qed

lemma app1:
  "job_running app1" "job_thread_runs app1" "jb_activate (ap_job app1)" "\<not> cancelled app1" "jb_download (ap_job app1) = False" "ap_files app1 = (\<lambda>_. None)"
  "ap_home app1 = ''/h''" "ap_models_dir app1 = ''/m''" "ap_generation app1 = 0"
  by (simp_all add: app1_def begin_job_def Let_def begin_activity_def model0_def cancelled_def app0_def)

lemma verdict0: "jv_ok verdict0" "jv_stamp verdict0 = Some stamp0" "\<not> job_cached True model0 job0 app1"
proof -
  have n: "\<not> job_cached True model0 job0 app1"
    by (simp add: job_cached_def read_preference_def app1 job0_def stamp0 split: option.split)
  then show "\<not> job_cached True model0 job0 app1" .
  have "digest_ok model0 False job0" by (simp add: digest_ok_def job0_def stamp0)
  then show "jv_ok verdict0" "jv_stamp verdict0 = Some stamp0"
    using n by (simp_all add: verdict0_def verdict_parts) (simp add: job0_def stamp0)
qed

lemma reachable0: "reachable sys0" by (rule reachable.fresh [OF fresh0])

lemma reachable1: "reachable sys1"
proof -
  have "idle (sy_app sys0)" by (simp add: sys0_def app0_def idle_def)
  moreover have "begin_job 0 True model0 False True (sy_app sys0) = (True, app1)"
    by (simp add: app1_def sys0_def begin_job_def Let_def begin_activity_def model0_def)
  ultimately have "step sys0 (sys0\<lparr>sy_app := app1, sy_job := if job_thread_runs app1 then Working model0 else sy_job sys0\<rparr>)"
    by (rule step.launch_saved)
  then show ?thesis using reachable0 reachable.next_state by (simp add: app1 sys1_def)
qed

lemma reachable2: "reachable sys2"
proof -
  have j: "sy_job sys1 = Working model0" and a: "sy_app sys1 = app1" by (simp_all add: sys1_def)
  have c: "\<not> cancelled (sy_app sys1)" by (simp add: a app1)
  have v: "verdict0 = job_verdict False False model0 (jb_download (ap_job (sy_app sys1))) (job_cached True model0 job0 (sy_app sys1)) job0"
    by (simp add: verdict0_def a app1)
  from step.decide [OF j c v, of True] have "step sys1 sys2" by (simp add: sys2_def a)
  then show ?thesis by (rule reachable.next_state [OF reachable1])
qed

lemma decided2: "sy_job sys2 = Decided model0 True (jv_why verdict0) (Some stamp0)"
  using verdict0 by (simp add: sys2_def decided_stamp_def app1 job0_def stamp0)

lemma generation2: "ap_generation (sy_app sys2) = 0"
  by (simp add: sys2_def save_receipt_def verdict0 app1)

lemma home_kept:
  "ap_home (stop_child tm g a) = ap_home a" "ap_home (load_change st tm a) = ap_home a" "ap_home (begin_load st gen m tm a) = ap_home a"
  using kept_stop kept_change unfolding kept_def by blast+

lemma start_works:
  assumes "\<not> gpu_wanted mode (find_model a i) a" and "sp_hardware h = Some hw" and "h_supported hw" and "sp_dir h = Some d"
    and "sp_socket h" and "sp_log h" and "sp_env h" and "sp_page h" and "path_join (ap_home a) ''server.log'' \<noteq> None"
    and "sp_spawn h = Inr p"
  shows "fst (start_child_mode tm h path i mode a)"
  using assms by (simp add: start_child_mode_def start_child_mode_impl_def start_prepare_def Let_def home_kept split: prod.split bool.split)

lemma starts2: "ap_generation (job_finish 1 spawn0 True model0 True reason (sy_app sys2)) = 1"
proof -
  let ?a = "sy_app sys2" and ?t = "''/m/m.gguf''"
  have a: "ap_home ?a = ''/h''" "\<not> cancelled ?a" "jb_activate (ap_job ?a)" "ap_models_dir ?a = ''/m''" "ap_generation ?a = 0"
    "\<not> bk_gpu_available (ap_backend ?a)"
    by (simp_all add: sys2_def save_receipt_def verdict0 app1 cancelled_def) (simp_all add: app1_def begin_job_def Let_def
        begin_activity_def model0_def app0_def)
  have "fst (start_child 1 spawn0 ?t (Some (am_id model0)) ?a)"
    unfolding start_child_def Let_def
    by (rule start_works [where hw = device0 and d = "''/t''" and p = 7])
       (auto simp: a spawn0_def device0_def gpu_wanted_def recommend_gpu_def gpu_supported_def path_join_def APP_PATH_CAP_def
         split: option.split)
  then obtain b where b: "start_child 1 spawn0 ?t (Some (am_id model0)) ?a = (True, b)" by (cases "start_child 1 spawn0 ?t (Some (am_id model0)) ?a") simp
  have "path_join (ap_models_dir ?a) (am_file model0) = Some ?t" by (simp add: a path_join_def model0_def APP_PATH_CAP_def)
  then show ?thesis
    using start_child_frame [OF b] a b by (simp add: job_finish_def cancelled_def generation_kept started_def Let_def)
qed

subsection \<open>A chat request of another program\<close>

definition ask_body :: string where
  \<open>ask_body = ''{"model":"m","messages":[{"role":"user","content":"hi"}]}''\<close>
definition ask_json :: json where
  "ask_json = \<lparr>src = ask_body, tok =
     [\<lparr>tok_type = JSMN_OBJECT, tok_start = 0, tok_end = 57, tok_size = 2, tok_parent = -1\<rparr>,
      \<lparr>tok_type = JSMN_STRING, tok_start = 2, tok_end = 7, tok_size = 1, tok_parent = 0\<rparr>,
      \<lparr>tok_type = JSMN_STRING, tok_start = 10, tok_end = 11, tok_size = 0, tok_parent = 1\<rparr>,
      \<lparr>tok_type = JSMN_STRING, tok_start = 14, tok_end = 22, tok_size = 1, tok_parent = 0\<rparr>,
      \<lparr>tok_type = JSMN_ARRAY, tok_start = 24, tok_end = 56, tok_size = 1, tok_parent = 3\<rparr>,
      \<lparr>tok_type = JSMN_OBJECT, tok_start = 25, tok_end = 55, tok_size = 2, tok_parent = 4\<rparr>,
      \<lparr>tok_type = JSMN_STRING, tok_start = 27, tok_end = 31, tok_size = 1, tok_parent = 5\<rparr>,
      \<lparr>tok_type = JSMN_STRING, tok_start = 34, tok_end = 38, tok_size = 0, tok_parent = 6\<rparr>,
      \<lparr>tok_type = JSMN_STRING, tok_start = 41, tok_end = 48, tok_size = 1, tok_parent = 5\<rparr>,
      \<lparr>tok_type = JSMN_STRING, tok_start = 51, tok_end = 53, tok_size = 0, tok_parent = 8\<rparr>], json_n = 10\<rparr>"
lemma chat_parse: "json_parse ask_body = Some ask_json" by code_simp
lemma chat_ok1: "tok_type (tok ask_json ! 0) = JSMN_OBJECT" "tokens_ok ask_json" "cstr ask_body = ask_body" by code_simp+
lemma chat_get: "json_get ask_json 0 ''model'' = 2" "json_get ask_json 0 ''messages'' = 4" by code_simp+
lemma chat_strs: "json_strdup ask_json 2 = Some ''m''" "json_strdup ask_json 7 = Some ''user''"  "json_strdup ask_json 9 = Some ''hi''" by code_simp+
lemma chat_msg: "json_get ask_json 5 ''role'' = 7" "json_get ask_json 5 ''content'' = 9" "json_get ask_json 5 ''tool_calls'' = -1" "json_get ask_json 5 ''function_call'' = -1" by code_simp+
lemma chat_none: "list_all (\<lambda>k. json_get ask_json 0 k = -1) (unsupported @ [''max_tokens'', ''max_completion_tokens'', ''temperature'', ''top_p'', ''n'',
   ''stream'', ''stream_options''])" by code_simp
lemma chat_children: "children ask_json 4 = [5]" by code_simp

lemma chat_strings: "json_is_str ask_json 2" "json_is_str ask_json 7" "json_is_str ask_json 9"
  "escapes_nul (tok_text ask_json 2) = False" "escapes_nul (tok_text ask_json 7) = False" "escapes_nul (tok_text ask_json 9) = False"
  "json_get ask_json (-1) ''include_usage'' = -1" "tok_type (tok ask_json ! 4) = JSMN_ARRAY" "tok_size (tok ask_json ! 4) = 1"
  "tok_type (tok ask_json ! 5) = JSMN_OBJECT" by code_simp+

definition parsed_chat :: app_chat where
  "parsed_chat = \<lparr>c_messages = [(''user'', ''hi'')], c_model = ''m'', c_max_tokens = 256, c_temperature = 1 / 5, c_top_p = 1,
     c_stream = False, c_include_usage = False\<rparr>"

definition arena0 :: app_arena where "arena0 = \<lparr>a_used = 0, a_cap = 4096\<rparr>"

lemma chat_allocs:
  "app_alloc 16 1 1000 8 arena0 = (Some 0, \<lparr>a_used = 1000, a_cap = 4096\<rparr>)"
  "app_alloc 16 2 1 1 \<lparr>a_used = 1000, a_cap = 4096\<rparr> = (Some 1000, \<lparr>a_used = 1002, a_cap = 4096\<rparr>)"
  "app_alloc 16 5 1 1 \<lparr>a_used = 1002, a_cap = 4096\<rparr> = (Some 1002, \<lparr>a_used = 1007, a_cap = 4096\<rparr>)"
  "app_alloc 16 3 1 1 \<lparr>a_used = 1007, a_cap = 4096\<rparr> = (Some 1007, \<lparr>a_used = 1010, a_cap = 4096\<rparr>)"
  by (simp_all add: app_alloc_def ckd_mul_def ckd_add_def arena0_def)

lemma chat_scene: "fst (app_chat_parse (\<lambda>q. q) 1000 ask_body arena0) = Inr parsed_chat"
proof -
  have u: "uses_unsupported ask_json unsupported a = (False, a)" for a
    using chat_none by (simp add: unsupported_def Let_def)
  have t: "text_of ask_json 2 \<lparr>a_used = 1000, a_cap = 4096\<rparr> = (Some ''m'', \<lparr>a_used = 1002, a_cap = 4096\<rparr>)"
    "text_of ask_json 7 \<lparr>a_used = 1002, a_cap = 4096\<rparr> = (Some ''user'', \<lparr>a_used = 1007, a_cap = 4096\<rparr>)"
    "text_of ask_json 9 \<lparr>a_used = 1007, a_cap = 4096\<rparr> = (Some ''hi'', \<lparr>a_used = 1010, a_cap = 4096\<rparr>)"
    by (simp_all add: text_of_def chat_strings chat_strs chat_allocs)
  have r: "read_messages ask_json [5] [] \<lparr>a_used = 1002, a_cap = 4096\<rparr> = (Inr [(''user'', ''hi'')], \<lparr>a_used = 1010, a_cap = 4096\<rparr>)"
    by (simp add: chat_strings chat_msg t content_of_def APP_CHAT_MESSAGES_def)
  have n: "set_numbers f ask_json [''max_tokens'', ''max_completion_tokens'', ''temperature'', ''top_p'', ''n''] c = Inr c" for f c
    using chat_none by (simp add: Let_def)
  have s: "json_get ask_json 0 ''stream'' = -1" "json_get ask_json 0 ''stream_options'' = -1" using chat_none by simp_all
  show ?thesis
    by (simp add: app_chat_parse_def chat_allocs chat_ok1 chat_parse u chat_get t r n chat_strings chat_children new_chat_def
        stream_flags_def s bad_flag_def json_bool_def parsed_chat_def Let_def del: read_messages.simps set_numbers.simps)
qed

subsection \<open>A removal, an import\<close>

definition id_body :: string where \<open>id_body = ''{"id":"smollm2-360m"}''\<close>

definition id_json :: json where
  "id_json = \<lparr>src = id_body, tok =
     [\<lparr>tok_type = JSMN_OBJECT, tok_start = 0, tok_end = 21, tok_size = 1, tok_parent = -1\<rparr>,
      \<lparr>tok_type = JSMN_STRING, tok_start = 2, tok_end = 4, tok_size = 1, tok_parent = 0\<rparr>,
      \<lparr>tok_type = JSMN_STRING, tok_start = 7, tok_end = 19, tok_size = 0, tok_parent = 1\<rparr>], json_n = 3\<rparr>"

lemma id_parse: "json_parse id_body = Some id_json"
  by code_simp

lemma id_get: "json_strdup id_json (json_get id_json 0 ''id'') = Some ''smollm2-360m''"
  by code_simp

definition world0 :: world where
  "world0 =
     \<lparr>w_tm = 1, w_now = 1000, w_json_bytes = 1000, w_stored = True, w_created = True, w_gone = True,
      w_sample = \<lparr>sa_page = None, sa_now_ns = 0, sa_time = 1000, sa_process = None, sa_cpus = None\<rparr>,
      w_spawn = spawn0, w_spawn2 = spawn0, w_sizes = (\<lambda>_. 0), w_stat = (\<lambda>_. None), w_hardware = Some device0,
      w_hardware2 = Some device0, w_assess = (\<lambda>m h i. (RESOURCE_LIMITED, [])),
      w_geistr_catalog = (\<lambda>t. Some ([model0\<lparr>am_name := ''New''\<rparr>], 2)), w_asset = (\<lambda>_. []), w_tasks_json = [],
      w_verdict = (\<lambda>_. None), w_removed = True, w_compacted = True, w_to_float = (\<lambda>q. q)\<rparr>"

definition folder0 :: folder_help where
  "folder0 = \<lparr>fo_open = True, fo_look = (\<lambda>_. Regular), fo_unlink = (\<lambda>_. True)\<rparr>"

definition remove_request :: "string \<Rightarrow> request" where
  "remove_request key = \<lparr>rq_method = ''POST'', rq_path = ''/app/remove'', rq_host = ''127.0.0.1:80'', rq_origin = [],
     rq_auth = ''Bearer '' @ key, rq_body = id_body\<rparr>"

definition no_generate :: "string \<Rightarrow> app_arena \<Rightarrow> app_state \<Rightarrow> reply \<times> app_state" where
  "no_generate body arena a = (Refused 503 [], a)"

definition no_status :: "app_state \<Rightarrow> nat \<times> string + string" where
  "no_status a = Inr []"

lemma key0: "authorized (ap_token app0) (remove_request ''k'')" "\<not> authorized (ap_token app0) (remove_request ''x'')"
  by (simp_all add: authorized_iff remove_request_def app0_def)

lemma public0: "public_reply w (remove_request key) = None"
  by (simp add: public_reply_def remove_request_def)

lemma remove_parts:
  "rq_method (remove_request key) = ''POST''" "rq_path (remove_request key) = ''/app/remove''"
  "rq_body (remove_request key) = id_body" "w_json_bytes world0 = 1000"
  by (simp_all add: remove_request_def world0_def)

lemma remove_scene:
  "\<exists>b. app_handle no_generate no_status world0 folder0 (Inr (remove_request ''k'')) arena0 app0
     = (done_reply 200, [''m.gguf'', ''m.gguf.part''], b)"
proof -
  have m: "\<exists>b. remove_model world0 folder0 model0 app0 = (done_reply 200, [''m.gguf'', ''m.gguf.part''], b)"
    by (simp add: remove_model_def path_join_def app0_def model0_def APP_PATH_CAP_def folder0_def Let_def)
  have f: "app_model_find (ap_models app0) (Some ''smollm2-360m'') = Some 0" "ap_models app0 ! 0 = model0"
    "\<not> action_blocked False False model0 app0"
    by (simp_all add: app_model_find_def app0_def model0_def action_blocked_def)
  show ?thesis
    using m
    by (simp add: app_handle_def public0 key0 handle_authorized_def remove_parts model_action_def model_paths_def
        id_parse id_get f chat_allocs Let_def)
qed

definition app_running :: app_state where
  "app_running = on_child (\<lambda>c. c\<lparr>ch_ready := True, ch_pid := 7, ch_active_id := am_id model0\<rparr>) app0"

lemma import_scene: "\<exists>b. import_catalog world0 ''c'' app_running = (done_reply 200, b)"
proof -
  have s: "save_preference ''/h'' ''catalog.json'' ''c'' True (\<lambda>_. None) = (True, [''/h/catalog.json'' \<mapsto> File ''c'' own_file])"
    by (simp add: save_preference_def path_join_def APP_PATH_CAP_def)
  have p: "app_catalog_parse (w_geistr_catalog world0) ''c'' = Some ([model0\<lparr>am_name := ''New''\<rparr>], 2)"
    by (simp add: app_catalog_parse_def world0_def APP_CATALOG_BYTES_def APP_MODEL_COUNT_def)
  have n: "\<not> running_changed [model0\<lparr>am_name := ''New''\<rparr>] app_running" "\<not> reassigned (w_sizes world0) [model0\<lparr>am_name := ''New''\<rparr>] app_running"
    by (simp_all add: running_changed_def reassigned_def app_running_def app0_def find_model_def app_model_find_def)
  show ?thesis
    unfolding import_catalog_def p option.case prod.case
    using n by (simp add: app_running_def app0_def world0_def s Let_def)
qed

lemma running0: "find_model app_running (Some (active_id app_running)) = Some model0" "ready app_running"
  by (simp_all add: app_running_def app0_def find_model_def app_model_find_def)


subsection \<open>A key and a connection file\<close>

definition random0 :: key_help where
  "random0 = \<lparr>k_random = Some (replicate 32 171), k_created = True, k_stored = True\<rparr>"

definition store0 :: write_help where
  "store0 = \<lparr>wr_tmp = Some ''/h/.connection.abcdef'', wr_stored = True, wr_renamed = True\<rparr>"

lemma connection_scene:
  "\<exists>key fs1 fs2. app_key ''/h'' random0 (\<lambda>_. None) = (Some key, fs1) \<and> app_connection_write ''/h'' 80 key (int 7) store0 fs1 = (True, fs2)"
proof -
  have "\<exists>key fs1. app_key ''/h'' random0 (\<lambda>_. None) = (Some key, fs1)"
    by (simp add: app_key_def random0_def path_join_def APP_PATH_CAP_def Let_def)
  then obtain key fs1 where k: "app_key ''/h'' random0 (\<lambda>_. None) = (Some key, fs1)" by blast
  have "key_valid key" using app_key_again [OF k] by (simp add: random0_def)
  then have "length (connection_text 80 key (int 7)) < 511" by (simp add: connection_text_def key_valid_def deci_def dec.simps)
  then have "\<exists>fs2. app_connection_write ''/h'' 80 key (int 7) store0 fs1 = (True, fs2)"
    by (simp add: app_connection_write_def store0_def path_join_def APP_PATH_CAP_def Let_def)
  with k show ?thesis by blast
qed

end
