(* ===== verification/HeldChat.thy ===== *)
theory HeldChat
  imports Client Observe Compat
begin

section \<open>The conversation the application holds in geistd (src/src/app/daemon.c)\<close>

text \<open>
  The application keeps one chat open in \<open>geistd\<close> and remembers what it holds. A request is matched
  against that: the chat is rewound to the common start, and only the rest is sent. What is called of the
  client is the record \<open>chat_service\<close> of functions over the state \<open>'w\<close> of a connection;
  \<open>client_service\<close> is the client of \<open>Client\<close>. Allocations succeed. \<open>fault\<close> is \<open>errno\<close> as the last
  call left it, and the times are those the clock gives.
\<close>

type_synonym message = "string \<times> string"
type_synonym pieces = "(bool \<times> string) list"

record 'w chat_service =
  sv_info :: "nat \<Rightarrow> 'w \<Rightarrow> string option \<times> 'w"
  sv_open :: "rat \<Rightarrow> rat \<Rightarrow> string \<Rightarrow> 'w \<Rightarrow> string option \<times> 'w"
  sv_close :: "string \<Rightarrow> 'w \<Rightarrow> bool \<times> 'w"
  sv_rewind :: "string \<Rightarrow> nat \<Rightarrow> 'w \<Rightarrow> nat option \<times> 'w"
  sv_send :: "string \<Rightarrow> nat \<Rightarrow> message list \<Rightarrow> (pieces \<Rightarrow> bool \<Rightarrow> string \<Rightarrow> bool) \<Rightarrow> 'w \<Rightarrow> bool \<times> chat_stats \<times> pieces \<times> 'w"
  sv_error :: "'w \<Rightarrow> string"

text \<open>The client's calls; \<open>fmt_g\<close> is \<open>%g\<close> of the library.\<close>

definition client_service :: "(rat \<Rightarrow> string) \<Rightarrow> client chat_service" where
  "client_service fmt_g =
     \<lparr>sv_info = geistd_info,
      sv_open = (\<lambda>t p reasoning. geistd_chat_open (fmt_g t) (fmt_g p) (Some reasoning) True),
      sv_close = geistd_chat_close, sv_rewind = geistd_chat_rewind, sv_send = geistd_chat_send, sv_error = cl_err\<rparr>"

subsection \<open>Identity\<close>

definition app_daemon_identity :: "'w chat_service \<Rightarrow> 'w option \<Rightarrow> bool \<times> string \<times> app_engine" where
  "app_daemon_identity S conn =
     (case conn of
        None \<Rightarrow> (False, [], no_engine)
      | Some w \<Rightarrow>
          (case Option.bind (fst (sv_info S 2048 w)) json_parse of
             None \<Rightarrow> (False, [], no_engine)
           | Some j \<Rightarrow>
               let name = json_strdup j (json_get j 0 ''backend'');
                   (ok, e) = app_engine_parse j (json_get j 0 ''engine'')
               in (ok, (case name of None \<Rightarrow> [] | Some b \<Rightarrow> fit 24 b), e)))"

subsection \<open>What is held\<close>

record held =
  hd_id :: string
  hd_path :: string
  hd_temperature :: rat
  hd_top_p :: rat
  hd_reasoning :: string
  hd_msgs :: "message list"

definition held_keep :: "nat \<Rightarrow> held \<Rightarrow> held" where
  "held_keep n h = h\<lparr>hd_msgs := take n (hd_msgs h)\<rparr>"

definition held_push :: "message \<Rightarrow> held \<Rightarrow> bool \<times> held" where
  "held_push m h = (if length (hd_msgs h) > APP_CHAT_MESSAGES then (False, h) else (True, h\<lparr>hd_msgs := hd_msgs h @ [m]\<rparr>))"

text \<open>The pushes of a turn: one that fails drops the chat, and the loop goes on.\<close>

fun held_say :: "message list \<Rightarrow> held \<Rightarrow> held" where
  "held_say [] h = h"
| "held_say (m # ms) h =
     held_say ms (case held_push m h of (True, h1) \<Rightarrow> h1 | (False, h1) \<Rightarrow> h1\<lparr>hd_id := []\<rparr>)"

text \<open>Roles other than system and assistant count as user, as in the runtime.\<close>

definition same_role :: "string \<Rightarrow> string \<Rightarrow> bool" where
  "same_role a b \<longleftrightarrow> (a = ''system'') = (b = ''system'') \<and> (a = ''assistant'') = (b = ''assistant'')"

text \<open>The common start with what is held, short of the last message.\<close>

fun common_start :: "message list \<Rightarrow> message list \<Rightarrow> nat" where
  "common_start (h # hs) (m # ms) =
     (if ms \<noteq> [] \<and> same_role (fst h) (fst m) \<and> snd h = snd m then Suc (common_start hs ms) else 0)"
| "common_start hs ms = 0"

subsection \<open>A turn\<close>

text \<open>What a call reports: its stage, its numbers, and the answer so far as the client sees it.\<close>

record run =
  rn_stage :: string
  rn_stats :: app_run_stats
  rn_answer :: string

definition no_run :: run where
  "no_run = \<lparr>rn_stage = ''connect'',
     rn_stats = \<lparr>rs_limited = False, rs_reasoning = False, rs_no_answer = False, rs_max_tokens = 0,
       rs_first_answer_ns = Fin (-1), rs_tokens = 0, rs_prompt_tokens = 0, rs_reused = 0, rs_generation_ns = Fin 0,
       rs_total_ns = Fin 0, rs_prefill_ns = Fin (-1)\<rparr>,
     rn_answer = []\<rparr>"

definition answer_text :: "pieces \<Rightarrow> string" where
  "answer_text ps = concat (map snd (filter (\<lambda>p. \<not> fst p) ps))"

text \<open>What the calls of \<open>chat_part\<close> do to it: the first one ends the prefill, at \<open>first\<close> nanoseconds.\<close>

definition chat_parts :: "rat \<Rightarrow> pieces \<Rightarrow> run \<Rightarrow> run" where
  "chat_parts first ps r =
     (let r1 = (if ps \<noteq> [] \<and> rn_stage r = ''prefill''
                then r\<lparr>rn_stage := ''generate'', rn_stats := (rn_stats r)\<lparr>rs_prefill_ns := Fin first\<rparr>\<rparr> else r)
      in r1\<lparr>rn_answer := rn_answer r @ answer_text ps\<rparr>)"

definition scaled :: "rat \<Rightarrow> dbl \<Rightarrow> dbl" where
  "scaled k x = (case x of Fin q \<Rightarrow> Fin (q * k) | _ \<Rightarrow> x)"

text \<open>The numbers of an answer that ended well; sizes are 64-bit and may wrap. \<open>cs_numbers\<close> are the input,
  context and output tokens, what was dropped, and the length; \<open>cs_times\<close> the prefill, the first
  answer, the generation and the total in milliseconds.\<close>

definition answered :: "u64 \<Rightarrow> nat \<Rightarrow> chat_stats \<Rightarrow> app_run_stats \<Rightarrow> app_run_stats" where
  "answered capacity mx cs st =
     (let inp = of_nat (cs_numbers cs ! 0); out = of_nat (cs_numbers cs ! 2);
          prompt = of_nat (cs_numbers cs ! 1) - out;
          room = (if prompt + 1 < capacity then unat (capacity - prompt - 1) else 0)
      in st\<lparr>rs_prompt_tokens := unat prompt, rs_reused := (if prompt > inp then unat (prompt - inp) else 0),
            rs_max_tokens := (if mx \<noteq> 0 \<and> mx < room then mx else room), rs_limited := (cs_finish cs \<noteq> ''stop''),
            rs_tokens := unat out, rs_generation_ns := scaled (10 ^ 6) (cs_times cs ! 2),
            rs_prefill_ns := (if dlt (rs_prefill_ns st) (Fin 0) then scaled (10 ^ 6) (cs_times cs ! 0) else rs_prefill_ns st)\<rparr>)"

definition no_contact :: string where "no_contact = ''Could not contact the model service. Reload the model.''"
definition too_long :: string where "too_long = ''The prompt does not fit this model's context. Try a shorter text.''"

definition unknown_chat :: "'w chat_service \<Rightarrow> 'w \<Rightarrow> bool" where
  "unknown_chat S w \<longleftrightarrow> strstr (sv_error S w) ''unknown chat''"

definition held_fits :: "string \<Rightarrow> rat \<Rightarrow> rat \<Rightarrow> string \<Rightarrow> held \<Rightarrow> bool" where
  "held_fits path temperature top_p format h \<longleftrightarrow>
     hd_id h \<noteq> [] \<and> hd_path h = path \<and> hd_temperature h = temperature \<and> hd_top_p h = top_p \<and> hd_reasoning h = format"

text \<open>A chat with the same daemon and the same options, else a new one.\<close>

definition held_open ::
    "'w chat_service \<Rightarrow> string \<Rightarrow> rat \<Rightarrow> rat \<Rightarrow> string \<Rightarrow> held \<Rightarrow> 'w \<Rightarrow> bool \<times> held \<times> 'w" where
  "held_open S path temperature top_p format h w =
     (if held_fits path temperature top_p format h then (True, h, w)
      else
        let w1 = (if hd_id h \<noteq> [] \<and> hd_path h = path then snd (sv_close S (hd_id h) w) else w);
            h1 = (held_keep 0 h)\<lparr>hd_id := []\<rparr>
        in (case sv_open S temperature top_p format w1 of
              (None, w2) \<Rightarrow> (False, h1, w2)
            | (Some k, w2) \<Rightarrow>
                (True, h1\<lparr>hd_id := k, hd_path := fit 256 path, hd_reasoning := fit 16 format,
                          hd_temperature := temperature, hd_top_p := top_p\<rparr>, w2)))"

text \<open>An attempt either has to be made again, the daemon does not know the chat, or ends with a code.\<close>

datatype turn = Again | Ended int string

definition held_send ::
    "'w chat_service \<Rightarrow> u64 \<Rightarrow> nat \<Rightarrow> message list \<Rightarrow> (pieces \<Rightarrow> bool \<Rightarrow> string \<Rightarrow> bool) \<Rightarrow> rat \<Rightarrow> run \<Rightarrow> held \<Rightarrow> 'w
       \<Rightarrow> turn \<times> run \<times> held \<times> 'w" where
  "held_send S capacity mx new part first r h w =
     (let r1 = r\<lparr>rn_stage := ''prefill'',
                 rn_stats := (rn_stats r)\<lparr>rs_prompt_tokens := sum_list (map (length \<circ> snd) new) div 4 + 1\<rparr>\<rparr>
      in case sv_send S (hd_id h) mx new part w of
           (ok, cs, ps, w1) \<Rightarrow>
             let r2 = chat_parts first ps r1 in
             if \<not> ok then
               (if unknown_chat S w1 then (Again, r2, h\<lparr>hd_id := []\<rparr>, w1)
                else if cs_status cs = ''context'' then (Ended 400 too_long, r2, h, w1)
                else (Ended 502 no_contact, r2, h, w1))
             else
               let h1 = held_say (new @ [(''assistant'', rn_answer r2)]) h in
               if cs_finish cs = ''client'' then (Ended 499 no_contact, r2, h1, w1)
               else if cs_finish cs \<notin> {''stop'', ''length'', ''context''} then (Ended 502 no_contact, r2, h1, w1)
               else (Ended 0 no_contact, r2\<lparr>rn_stats := answered capacity mx cs (rn_stats r2)\<rparr>, h1, w1))"

definition held_turn ::
    "'w chat_service \<Rightarrow> string \<Rightarrow> message list \<Rightarrow> nat \<Rightarrow> rat \<Rightarrow> rat \<Rightarrow> string \<Rightarrow> (pieces \<Rightarrow> bool \<Rightarrow> string \<Rightarrow> bool) \<Rightarrow> u64
       \<Rightarrow> rat \<Rightarrow> run \<Rightarrow> held \<Rightarrow> 'w \<Rightarrow> turn \<times> run \<times> held \<times> 'w" where
  "held_turn S path ms mx temperature top_p format part capacity first r h w =
     (case held_open S path temperature top_p format h w of
        (False, h1, w1) \<Rightarrow> (Ended 502 no_contact, r, h1, w1)
      | (True, h1, w1) \<Rightarrow>
          let keep = common_start (hd_msgs h1) ms in
          (case (if keep < length (hd_msgs h1) then sv_rewind S (hd_id h1) keep w1 else (Some (length (hd_msgs h1)), w1)) of
             (None, w2) \<Rightarrow>
               if unknown_chat S w2 then (Again, r, h1\<lparr>hd_id := []\<rparr>, w2) else (Ended 502 no_contact, r, h1, w2)
           | (Some _, w2) \<Rightarrow> held_send S capacity mx (drop keep ms) part first r (held_keep keep h1) w2))"

text \<open>At most two attempts: a chat the daemon does not know is opened anew once.\<close>

definition held_turns ::
    "'w chat_service \<Rightarrow> string \<Rightarrow> message list \<Rightarrow> nat \<Rightarrow> rat \<Rightarrow> rat \<Rightarrow> string \<Rightarrow> (pieces \<Rightarrow> bool \<Rightarrow> string \<Rightarrow> bool) \<Rightarrow> u64
       \<Rightarrow> rat \<Rightarrow> run \<Rightarrow> held \<Rightarrow> 'w \<Rightarrow> turn \<times> run \<times> held \<times> 'w" where
  "held_turns S path ms mx temperature top_p format part capacity first r h w =
     (case held_turn S path ms mx temperature top_p format part capacity first r h w of
        (Again, r1, h1, w1) \<Rightarrow> held_turn S path ms mx temperature top_p format part capacity first r1 h1 w1
      | ended \<Rightarrow> ended)"

subsection \<open>The call\<close>

datatype fault = NoFault | Canceled | TimedOut

definition prefill_timeout :: string where
  "prefill_timeout = ''Input processing timed out after 10 minutes. Shorten the conversation or select GPU.''"
definition generate_timeout :: string where
  "generate_timeout = ''The model stopped responding while generating. Try again or select GPU.''"
definition prefill_failed :: string where
  "prefill_failed = ''Model execution failed while processing the input. Try a shorter conversation or select GPU.''"
definition generate_failed :: string where
  "generate_failed = ''Model execution failed while generating. Reload the model or select another processor.''"

text \<open>The end of every call: what a failure is called.\<close>

definition chat_end :: "fault \<Rightarrow> string \<Rightarrow> int \<Rightarrow> string \<Rightarrow> int \<times> string" where
  "chat_end fault stage rc msg =
     (let (rc1, msg1) =
        (if rc \<noteq> 502 then (rc, msg)
         else case fault of
             Canceled \<Rightarrow> (499, msg)
           | TimedOut \<Rightarrow> (504, if stage = ''prefill'' then prefill_timeout else if stage = ''generate'' then generate_timeout
                               else no_contact)
           | NoFault \<Rightarrow> (502, if stage = ''prefill'' then prefill_failed else if stage = ''generate'' then generate_failed
                             else no_contact))
      in (rc1, if rc1 = 499 then ''Generation cancelled.'' else msg1))"

text \<open>The capacity the daemon tells is a number it prints as an integer; one without a meaning is none.\<close>

definition told_capacity :: "json \<Rightarrow> nat" where
  "told_capacity j = (case to_unsigned 64 (json_num j (json_get j 0 ''ctx'') (Fin 0)) of None \<Rightarrow> 0 | Some n \<Rightarrow> n)"

definition app_daemon_chat ::
    "'w chat_service \<Rightarrow> 'w option \<Rightarrow> string \<Rightarrow> message list \<Rightarrow> nat \<Rightarrow> rat \<Rightarrow> rat \<Rightarrow> string option
       \<Rightarrow> (pieces \<Rightarrow> bool \<Rightarrow> string \<Rightarrow> bool) \<Rightarrow> fault \<Rightarrow> rat \<Rightarrow> rat \<Rightarrow> held \<Rightarrow> (int \<times> string) \<times> run \<times> held \<times> 'w option" where
  "app_daemon_chat S conn path ms mx temperature top_p reasoning part fault first spent h =
     (let format = (if reasoning = Some ''think_tags'' then ''think_tags'' else ''none'');
          (t, r, h1, conn1) =
            (case conn of
               None \<Rightarrow> (Ended 502 no_contact, no_run, h, None)
             | Some w \<Rightarrow>
                 if ms = [] \<or> length ms > APP_CHAT_MESSAGES then (Ended 502 no_contact, no_run, h, Some w)
                 else
                   (case sv_info S 2048 w of
                      (None, w1) \<Rightarrow> (Ended 502 no_contact, no_run, h, Some w1)
                    | (Some text, w1) \<Rightarrow>
                        (case json_parse text of
                           None \<Rightarrow> (Ended 502 no_contact, no_run, h, Some w1)
                         | Some j \<Rightarrow>
                             let capacity = told_capacity j in
                             if \<not> json_bool j (json_get j 0 ''chat_api'') False
                             then (Ended 400 ''This model's chat format is not supported.'', no_run, h, Some w1)
                             else if capacity = 0 \<or> capacity > 4096 \<or> mx > 4095 then (Ended 502 no_contact, no_run, h, Some w1)
                             else
                               (case held_turns S path ms mx temperature top_p format part (of_nat capacity) first
                                       (no_run\<lparr>rn_stage := ''open''\<rparr>) h w1 of
                                  (t, r, h1, w2) \<Rightarrow> (t, r, h1, Some w2)))));
          r1 = r\<lparr>rn_stats := (rn_stats r)\<lparr>rs_total_ns := Fin spent\<rparr>\<rparr>
      in (case t of
            Again \<Rightarrow> chat_end fault (rn_stage r1) 502 no_contact
          | Ended rc msg \<Rightarrow> chat_end fault (rn_stage r1) rc msg, r1, h1, conn1))"

text \<open>One prompt is a conversation of one message.\<close>

definition app_daemon_run ::
    "(rat \<Rightarrow> rat) \<Rightarrow> 'w chat_service \<Rightarrow> 'w option \<Rightarrow> string \<Rightarrow> string \<Rightarrow> nat \<Rightarrow> string option
       \<Rightarrow> (pieces \<Rightarrow> bool \<Rightarrow> string \<Rightarrow> bool) \<Rightarrow> fault \<Rightarrow> rat \<Rightarrow> rat \<Rightarrow> held \<Rightarrow> (int \<times> string) \<times> run \<times> held \<times> 'w option" where
  "app_daemon_run to_float S conn path prompt mx reasoning part fault first spent h =
     app_daemon_chat S conn path [(''user'', prompt)] mx (to_float (1 / 5)) 1 reasoning part fault first spent h"

end
