(* ===== verification/HeldMirror.thy ===== *)
theory HeldMirror
  imports HeldChat
begin

section \<open>The held conversation is the conversation of the chat\<close>

text \<open>
  \<open>booked S\<close> is the service \<open>S\<close> with a book beside it: what each chat holds by the calls made so far.
  Opening a chat empties it, a rewind cuts it, a send that ended adds its messages and the answer, one
  that was refused for the context adds nothing, and of one that broke off nothing is known any more.
  Here the application's memory is compared with the book.
\<close>

type_synonym book = "string \<Rightarrow> message list option"

definition booked :: "'w chat_service \<Rightarrow> ('w \<times> book) chat_service" where
  "booked S =
     \<lparr>sv_info = (\<lambda>n (w, b). case sv_info S n w of (x, w1) \<Rightarrow> (x, w1, b)),
      sv_open = (\<lambda>t p f (w, b). case sv_open S t p f w of
         (None, w1) \<Rightarrow> (None, w1, b) | (Some k, w1) \<Rightarrow> (Some k, w1, b(k \<mapsto> []))),
      sv_close = (\<lambda>k (w, b). case sv_close S k w of (ok, w1) \<Rightarrow> (ok, w1, b(k := None))),
      sv_rewind = (\<lambda>k n (w, b). case sv_rewind S k n w of
         (None, w1) \<Rightarrow> (None, w1, b(k := None)) | (Some l, w1) \<Rightarrow> (Some l, w1, b(k := map_option (take n) (b k)))),
      sv_send = (\<lambda>k mx ms part (w, b). case sv_send S k mx ms part w of
         (ok, cs, ps, w1) \<Rightarrow>
           (ok, cs, ps, w1,
            if ok then b(k := map_option (\<lambda>xs. xs @ ms @ [(''assistant'', answer_text ps)]) (b k))
            else if cs_status cs = ''context'' then b else b(k := None))),
      sv_error = (\<lambda>(w, b). sv_error S w)\<rparr>"

lemma booked_simps:
  "sv_info (booked S) n (w, b) = (case sv_info S n w of (x, w1) \<Rightarrow> (x, w1, b))"
  "sv_open (booked S) t p f (w, b) = (case sv_open S t p f w of
     (None, w1) \<Rightarrow> (None, w1, b) | (Some k, w1) \<Rightarrow> (Some k, w1, b(k \<mapsto> [])))"
  "sv_close (booked S) k (w, b) = (case sv_close S k w of (ok, w1) \<Rightarrow> (ok, w1, b(k := None)))"
  "sv_rewind (booked S) k n (w, b) = (case sv_rewind S k n w of
     (None, w1) \<Rightarrow> (None, w1, b(k := None)) | (Some l, w1) \<Rightarrow> (Some l, w1, b(k := map_option (take n) (b k))))"
  "sv_send (booked S) k mx ms part (w, b) = (case sv_send S k mx ms part w of
     (ok, cs, ps, w1) \<Rightarrow>
       (ok, cs, ps, w1,
        if ok then b(k := map_option (\<lambda>xs. xs @ ms @ [(''assistant'', answer_text ps)]) (b k))
        else if cs_status cs = ''context'' then b else b(k := None)))"
  "unknown_chat (booked S) (w, b) = unknown_chat S w"
  by (simp_all add: booked_def unknown_chat_def)

text \<open>What the application believes is what the book says.\<close>

definition held_true :: "held \<Rightarrow> book \<Rightarrow> bool" where
  "held_true h b \<longleftrightarrow> hd_id h = [] \<or> b (hd_id h) = Some (hd_msgs h)"

text \<open>A daemon that does not know the chat says so before the first piece.\<close>

definition refuses_first :: "'w chat_service \<Rightarrow> bool" where
  "refuses_first S \<longleftrightarrow>
     (\<forall>k mx ms part w cs ps w1. sv_send S k mx ms part w = (False, cs, ps, w1) \<longrightarrow> unknown_chat S w1 \<longrightarrow> ps = [])"

subsection \<open>Common starts\<close>

definition alike :: "message \<Rightarrow> message \<Rightarrow> bool" where
  "alike a b \<longleftrightarrow> same_role (fst a) (fst b) \<and> snd a = snd b"

lemma alike_refl [simp]: "alike m m"
  by (simp add: alike_def same_role_def)

lemma common_start_short: "ms \<noteq> [] \<Longrightarrow> common_start hs ms < length ms"
  by (induction hs ms rule: common_start.induct) auto

lemma common_start_held: "common_start hs ms \<le> length hs"
  by (induction hs ms rule: common_start.induct) auto

lemma common_start_alike: "list_all2 alike (take (common_start hs ms) hs) (take (common_start hs ms) ms)"
  by (induction hs ms rule: common_start.induct) (auto simp: alike_def)

text \<open>No longer start would do.\<close>

lemma common_start_longest:
  "common_start hs ms < length hs \<Longrightarrow> Suc (common_start hs ms) < length ms
     \<Longrightarrow> \<not> alike (hs ! common_start hs ms) (ms ! common_start hs ms)"
  by (induction hs ms rule: common_start.induct) (auto simp: alike_def split: if_splits)

lemma held_say_all:
  "length (hd_msgs h) + length ms \<le> Suc APP_CHAT_MESSAGES \<Longrightarrow> held_say ms h = h\<lparr>hd_msgs := hd_msgs h @ ms\<rparr>"
  by (induction ms arbitrary: h) (auto simp: held_push_def)

lemma list_all2_alike_refl [simp]: "list_all2 alike xs xs"
  by (induction xs) auto

lemma take_le_common: "list_all2 alike (take n hs) (take n ms) \<Longrightarrow> list_all2 alike (take n hs @ drop n ms @ xs) (ms @ xs)"
  by (subst (3) append_take_drop_id [of n, symmetric]) (simp only: append_assoc list_all2_appendI list_all2_alike_refl)

subsection \<open>A turn\<close>

lemma book_open:
  assumes "held_open (booked S) path t p f h (w, b) = (ok, h1, w1, b1)" and "held_true h b"
  shows "(ok \<longrightarrow> b1 (hd_id h1) = Some (hd_msgs h1)) \<and> (\<not> ok \<longrightarrow> hd_id h1 = [])"
proof (cases "held_fits path t p f h")
  case True
  then show ?thesis using assms by (auto simp: held_open_def held_true_def held_fits_def)
next
  case False
  obtain w2 b2 where "(if hd_id h \<noteq> [] \<and> hd_path h = path then snd (sv_close (booked S) (hd_id h) (w, b)) else (w, b)) = (w2, b2)"
    by fastforce
  moreover obtain x w3 where "sv_open S t p f w2 = (x, w3)" by fastforce
  ultimately show ?thesis
    using assms(1) False by (cases x) (auto simp: held_open_def Let_def booked_simps held_keep_def)
qed

text \<open>What a send leaves: the book again says what is held, unless it broke off.\<close>

definition turn_true :: "message list \<Rightarrow> turn \<Rightarrow> run \<Rightarrow> held \<Rightarrow> book \<Rightarrow> bool" where
  "turn_true ms t r h b \<longleftrightarrow>
     (case t of
        Again \<Rightarrow> hd_id h = [] \<and> rn_answer r = []
      | Ended rc msg \<Rightarrow>
          (rc = 0 \<longrightarrow> b (hd_id h) = Some (hd_msgs h) \<and> list_all2 alike (hd_msgs h) (ms @ [(''assistant'', rn_answer r)]))
          \<and> (rc \<noteq> 502 \<longrightarrow> held_true h b) \<and> rc \<noteq> 504)"

lemma book_send:
  assumes "held_send (booked S) cap mx new part first r h (w, b) = (t, r1, h1, w1, b1)"
    and "b (hd_id h) = Some (hd_msgs h)" and "length (hd_msgs h) + length new \<le> APP_CHAT_MESSAGES"
    and "refuses_first S" and "rn_answer r = []" and "list_all2 alike (hd_msgs h @ new @ [(''assistant'', rn_answer r1)])
           (ms @ [(''assistant'', rn_answer r1)])"
  shows "turn_true ms t r1 h1 b1"
proof -
  obtain ok cs ps w2 where s: "sv_send S (hd_id h) mx new part w = (ok, cs, ps, w2)" by (metis prod_cases4)
  define r0 where "r0 = r\<lparr>rn_stage := ''prefill'', rn_stats := (rn_stats r)\<lparr>rs_prompt_tokens := sum_list (map (length \<circ> snd) new) div 4 + 1\<rparr>\<rparr>"
  have a: "rn_answer (chat_parts first ps r0) = answer_text ps"
    using assms(5) by (simp add: chat_parts_def r0_def Let_def)
  note eq = assms(1) [unfolded held_send_def r0_def [symmetric]]
  show ?thesis
  proof (cases ok)
    case False
    have "ps = []" if "unknown_chat S w2"
      using assms(4) s False that unfolding refuses_first_def by (metis (full_types))
    then have n: "answer_text ps = []" if "unknown_chat S w2" using that by (simp add: answer_text_def)
    show ?thesis
      using eq s False assms(2) a n
      by (auto simp: booked_simps turn_true_def held_true_def Let_def split: if_splits)
  next
    case True
    have say: "held_say (new @ [(''assistant'', answer_text ps)]) h = h\<lparr>hd_msgs := hd_msgs h @ new @ [(''assistant'', answer_text ps)]\<rparr>"
      using assms(3) by (subst held_say_all) auto
    have b: "b1 = b(hd_id h := Some (hd_msgs h @ new @ [(''assistant'', answer_text ps)]))"
      "h1 = h\<lparr>hd_msgs := hd_msgs h @ new @ [(''assistant'', answer_text ps)]\<rparr>" "rn_answer r1 = answer_text ps"
      using eq s True assms(2) a say
      by (auto simp: booked_simps Let_def split: if_splits)
    obtain rc msg where t: "t = Ended rc msg" "rc \<noteq> 504"
      using eq s True by (auto simp: booked_simps Let_def split: if_splits)
    show ?thesis
      using assms(6) by (auto simp: t turn_true_def held_true_def b)
  qed
qed

lemma book_turn:
  assumes "held_turn (booked S) path ms mx t p f part cap first r h (w, b) = (e, r1, h1, w1, b1)"
    and "held_true h b" and "ms \<noteq> []" and "length ms \<le> APP_CHAT_MESSAGES" and "refuses_first S" and "rn_answer r = []"
  shows "turn_true ms e r1 h1 b1"
proof -
  obtain ok ho wo bo where o: "held_open (booked S) path t p f h (w, b) = (ok, ho, wo, bo)" by (metis prod_cases4)
  note bo = book_open [OF o assms(2)] and eq = assms(1) [unfolded held_turn_def o prod.case]
  show ?thesis
  proof (cases ok)
    case False
    with eq bo show ?thesis by (auto simp: turn_true_def held_true_def)
  next
    case True
    let ?keep = "common_start (hd_msgs ho) ms"
    note short = common_start_short [OF assms(3), of "hd_msgs ho"]
    obtain x w2 b2 where rw: "(if ?keep < length (hd_msgs ho) then sv_rewind (booked S) (hd_id ho) ?keep (wo, bo)
        else (Some (length (hd_msgs ho)), wo, bo)) = (x, w2, b2)" by (metis prod_cases3)
    note eq = eq [unfolded bool.case Let_def rw prod.case]
    show ?thesis
    proof (cases x)
      case None
      with eq True assms(6) show ?thesis by (auto simp: turn_true_def split: if_splits)
    next
      case (Some l)
      have "b2 (hd_id ho) = Some (take ?keep (hd_msgs ho))"
        using rw bo True Some common_start_held [of "hd_msgs ho" ms]
        by (auto simp: booked_simps split: if_splits prod.splits option.splits)
      then have b2: "b2 (hd_id (held_keep ?keep ho)) = Some (hd_msgs (held_keep ?keep ho))" by (simp add: held_keep_def)
      have len: "length (hd_msgs (held_keep ?keep ho)) + length (drop ?keep ms) \<le> APP_CHAT_MESSAGES"
        using assms(4) short common_start_held [of "hd_msgs ho" ms] by (simp add: held_keep_def)
      have al: "list_all2 alike (hd_msgs (held_keep ?keep ho) @ drop ?keep ms @ [(''assistant'', rn_answer r1)])
          (ms @ [(''assistant'', rn_answer r1)])"
        unfolding held_keep_def by simp (rule take_le_common [OF common_start_alike])
      have "held_send (booked S) cap mx (drop ?keep ms) part first r (held_keep ?keep ho) (w2, b2) = (e, r1, h1, w1, b1)"
        using eq True Some by simp
      from book_send [OF this b2 len assms(5,6) al] show ?thesis .
    qed
  qed
qed

lemma book_turns:
  assumes "held_turns (booked S) path ms mx t p f part cap first r h (w, b) = (e, r1, h1, w1, b1)"
    and "held_true h b" and "ms \<noteq> []" and "length ms \<le> APP_CHAT_MESSAGES" and "refuses_first S" and "rn_answer r = []"
  shows "turn_true ms e r1 h1 b1"
proof -
  obtain e2 r2 h2 w2 b2 where o: "held_turn (booked S) path ms mx t p f part cap first r h (w, b) = (e2, r2, h2, w2, b2)"
    by (metis prod_cases5)
  note t = book_turn [OF o assms(2-6)]
  show ?thesis
  proof (cases e2)
    case Again
    with t have h: "held_true h2 b2" "rn_answer r2 = []" by (auto simp: turn_true_def held_true_def)
    from book_turn [OF _ h(1) assms(3-5) h(2)] assms(1) show ?thesis by (simp add: held_turns_def o Again)
  next
    case (Ended rc msg)
    with t assms(1) show ?thesis by (simp add: held_turns_def o)
  qed
qed

subsection \<open>The call\<close>

lemma chat_end_code: "fst (chat_end fault stage rc msg) = rc \<or> rc = 502 \<and> fst (chat_end fault stage rc msg) \<in> {499, 502, 504}"
  by (auto simp: chat_end_def split: fault.split)

lemma chat_end_zero: "fst (chat_end fault stage rc msg) = 0 \<Longrightarrow> rc = 0"
  using chat_end_code [of fault stage rc msg] by auto

lemma chat_end_failed: "chat_end fault stage 502 msg = (rc, msg1) \<Longrightarrow> rc \<in> {499, 502, 504}"
  using chat_end_code [of fault stage 502 msg] by auto

lemma held_is_book:
  assumes "app_daemon_chat (booked S) (Some (w, b)) path ms mx t p reasoning part fault first spent h
             = ((rc, msg), r, h1, Some (w1, b1))"
    and "held_true h b" and "refuses_first S"
  shows "(rc \<notin> {499, 502, 504} \<longrightarrow> held_true h1 b1)
     \<and> (rc = 0 \<longrightarrow> b1 (hd_id h1) = Some (hd_msgs h1) \<and> list_all2 alike (hd_msgs h1) (ms @ [(''assistant'', rn_answer r)]))"
proof (cases "ms = [] \<or> length ms > APP_CHAT_MESSAGES")
  case True
  then show ?thesis using assms(1) by (auto simp: app_daemon_chat_def Let_def dest: chat_end_failed)
next
  case False
  obtain x wi where i: "sv_info S 2048 w = (x, wi)" by fastforce
  have ib: "sv_info (booked S) 2048 (w, b) = (x, wi, b)" by (simp add: booked_simps i)
  note eq = assms(1) [unfolded app_daemon_chat_def option.case ib prod.case]
  consider (no) "x = None" | (bad) tx where "x = Some tx" "json_parse tx = None"
    | (good) tx j where "x = Some tx" "json_parse tx = Some j" by (cases x) auto
  then show ?thesis
  proof cases
    case no
    then show ?thesis using eq False by (auto simp: Let_def dest: chat_end_failed)
  next
    case bad
    then show ?thesis using eq False by (auto simp: Let_def dest: chat_end_failed)
  next
    case good
    show ?thesis
    proof (cases "json_bool j (json_get j 0 ''chat_api'') False \<and> \<not> (told_capacity j = 0 \<or> told_capacity j > 4096 \<or> mx > 4095)")
      case no: False
      then have "h1 = h" "b1 = b" "rc \<noteq> 0"
        using eq False good by (auto simp: Let_def split: if_splits dest: chat_end_failed)
          (auto simp: chat_end_def)
      with assms(2) show ?thesis by simp
    next
      case yes: True
      let ?f = "if reasoning = Some ''think_tags'' then ''think_tags'' else ''none''"
      obtain e r2 h2 w2 b2 where tu: "held_turns (booked S) path ms mx t p ?f part (of_nat (told_capacity j)) first (no_run\<lparr>rn_stage := ''open''\<rparr>) h (wi, b)
          = (e, r2, h2, w2, b2)" by (metis prod_cases5)
      have "turn_true ms e r2 h2 b2"
        by (rule book_turns [OF tu assms(2) _ _ assms(3)]) (use False in \<open>auto simp: no_run_def\<close>)
      moreover have "h1 = h2" "b1 = b2" "rn_answer r = rn_answer r2"
        "rc = fst (case e of Again \<Rightarrow> chat_end fault (rn_stage r2) 502 no_contact | Ended c m \<Rightarrow> chat_end fault (rn_stage r2) c m)"
        using eq False good yes tu by (auto simp: Let_def split: turn.splits)
      ultimately show ?thesis
        using chat_end_code [of fault "rn_stage r2"]
        by (cases e) (fastforce simp: turn_true_def held_true_def dest: chat_end_zero)+
    qed
  qed
qed

end
