(* ===== verification/Proxy.thy ===== *)
theory Proxy
  imports Generate HeldChat
begin

section \<open>What is streamed back while the model runs (src/src/app/chat.c)\<close>

text \<open>
  \<open>proxy\<close> is \<open>struct proxy\<close> with its socket: \<open>px_out\<close> is what was written to it, \<open>px_room\<close> how many bytes
  it will still take. Its callbacks are called between the pieces of an answer (\<open>proxy_cancel\<close>) and with
  each piece (\<open>proxy_part\<close>). What they see of the run is its record \<open>run\<close>; \<open>look\<close> is what a peek at
  the socket says, and the clock is read once in a call. \<open>app_last\<close> is what the status document shows of the
  request: its phase, and the last failure.
\<close>

record proxy =
  px_out :: string
  px_room :: nat
  px_started :: bool
  px_disconnected :: bool
  px_expired :: bool
  px_preparing :: bool
  px_app :: bool
  px_reading :: bool
  px_start :: rat
  px_first :: rat
  px_first_answer :: rat
  px_heartbeat :: rat
  px_progress :: rat
  px_phase_since :: rat
  px_visible :: bool
  px_reasoning :: bool
  px_thinking_now :: bool
  px_format :: "string option"
  px_phase :: string
  px_operation :: u64
  px_generation :: u64
  px_pieces :: u64
  px_thought :: u64

record app_last =
  la_phase :: string
  la_message :: string
  la_stage :: string
  la_model :: string
  la_backend :: string
  la_code :: int

datatype look = Quiet | Hung

text \<open>A proxy as \<open>generate\<close> and \<open>completions\<close> make it.\<close>

definition new_proxy :: "nat \<Rightarrow> bool \<Rightarrow> rat \<Rightarrow> proxy" where
  "new_proxy room in_app now =
     \<lparr>px_out = [], px_room = room, px_started = False, px_disconnected = False, px_expired = False, px_preparing = False,
      px_app = in_app, px_reading = False, px_start = now, px_first = 0, px_first_answer = 0, px_heartbeat = 0,
      px_progress = 0, px_phase_since = 0, px_visible = False, px_reasoning = False, px_thinking_now = False,
      px_format = None, px_phase = [], px_operation = 0, px_generation = 0, px_pieces = 0, px_thought = 0\<rparr>"

definition send_bytes :: "string \<Rightarrow> 'a proxy_scheme \<Rightarrow> bool \<times> 'a proxy_scheme" where
  "send_bytes s p =
     (if length s \<le> px_room p then (True, p\<lparr>px_out := px_out p @ s, px_room := px_room p - length s\<rparr>)
      else (False, p\<lparr>px_out := px_out p @ take (px_room p) s, px_room := 0\<rparr>))"

text \<open>What a buffer of \<open>cap\<close> bytes holds after the writers ran, unless it was too small.\<close>

definition empty_buffer :: "nat \<Rightarrow> app_buffer" where
  "empty_buffer cap = \<lparr>b_data = [], b_len = 0, b_cap = cap, b_failed = False\<rparr>"

definition built :: "nat \<Rightarrow> (app_buffer \<Rightarrow> app_buffer) list \<Rightarrow> string option" where
  "built cap fs = (let b = stmts fs (empty_buffer cap) in if b_failed b then None else Some (take (b_len b) (b_data b)))"

definition send_built :: "nat \<Rightarrow> (app_buffer \<Rightarrow> app_buffer) list \<Rightarrow> 'a proxy_scheme \<Rightarrow> bool \<times> 'a proxy_scheme" where
  "send_built cap fs p = (case built cap fs of None \<Rightarrow> (False, p) | Some s \<Rightarrow> send_bytes s p)"

subsection \<open>The page's stream\<close>

definition ndjson_head :: string where
  "ndjson_head = crlf ''HTTP/1.1 200 OK'' @ crlf ''Content-Type: application/x-ndjson'' @ crlf ''Cache-Control: no-store''
     @ crlf ''Connection: close'' @ crlf ''X-Content-Type-Options: nosniff'' @ CRLF"

definition proxy_head :: "'a proxy_scheme \<Rightarrow> bool \<times> 'a proxy_scheme" where
  "proxy_head p =
     (if px_started p then (True, p) else (case send_bytes ndjson_head p of (ok, p1) \<Rightarrow> (ok, p1\<lparr>px_started := ok\<rparr>)))"

definition proxy_event :: "string \<Rightarrow> 'a proxy_scheme \<Rightarrow> bool \<times> 'a proxy_scheme" where
  "proxy_event s p = (case proxy_head p of (False, p1) \<Rightarrow> (False, p1) | (True, p1) \<Rightarrow> send_bytes s p1)"

definition NL :: string where "NL = [CHR 0x0A]"

definition thinking_stmts :: "string \<Rightarrow> (app_buffer \<Rightarrow> app_buffer) list" where
  \<open>thinking_stmts text = [app_put ''{"thinking":'', app_quote text, app_put (''}'' @ NL)]\<close>

definition proxy_thinking :: "string \<Rightarrow> 'a proxy_scheme \<Rightarrow> bool \<times> 'a proxy_scheme" where
  "proxy_thinking text p = (case built 4096 (thinking_stmts text) of None \<Rightarrow> (False, p) | Some s \<Rightarrow> proxy_event s p)"

text \<open>Something to see: not only blanks.\<close>

definition shows_text :: "string \<Rightarrow> bool" where
  "shows_text s \<longleftrightarrow> dropWhile (\<lambda>c. c \<in> {CHR '' '', CHR 0x09, CHR 0x0D, CHR 0x0A}) s \<noteq> []"

definition note_answer :: "rat \<Rightarrow> string \<Rightarrow> 'a proxy_scheme \<Rightarrow> 'a proxy_scheme" where
  "note_answer now text p = (if shows_text text \<and> px_first_answer p = 0 then p\<lparr>px_first_answer := now - px_start p\<rparr> else p)"

definition response_stmts :: "string \<Rightarrow> (app_buffer \<Rightarrow> app_buffer) list" where
  \<open>response_stmts text = [app_put ''{"response":'', app_quote text, app_put ('',"done":false}'' @ NL)]\<close>

definition proxy_send :: "rat \<Rightarrow> string \<Rightarrow> 'a proxy_scheme \<Rightarrow> bool \<times> 'a proxy_scheme" where
  "proxy_send now text p =
     (case proxy_head (note_answer now text p) of
        (False, p1) \<Rightarrow> (False, p1)
      | (True, p1) \<Rightarrow> send_built 16384 (response_stmts text) p1)"

definition preparing_line :: string where \<open>preparing_line = ''{"phase":"preparing"}'' @ NL\<close>
definition heartbeat_line :: string where \<open>heartbeat_line = ''{"heartbeat":true}'' @ NL\<close>

definition proxy_keepalive :: "rat \<Rightarrow> 'a proxy_scheme \<Rightarrow> bool \<times> 'a proxy_scheme" where
  "proxy_keepalive now p =
     (case (if px_started p then (True, p) else proxy_send now [] p) of
        (False, p1) \<Rightarrow> (False, p1)
      | (True, p1) \<Rightarrow>
          send_bytes (if px_thinking_now p1 \<and> px_first_answer p1 = 0 then preparing_line else heartbeat_line) p1)"

subsection \<open>Callbacks\<close>

text \<open>The three functions a proxy is given; the page's has a view of the thinking.\<close>

record 'p target =
  tg_send :: "rat \<Rightarrow> string \<Rightarrow> 'p \<Rightarrow> bool \<times> 'p"
  tg_keepalive :: "rat \<Rightarrow> 'p \<Rightarrow> bool \<times> 'p"
  tg_think :: "(string \<Rightarrow> 'p \<Rightarrow> bool \<times> 'p) option"

definition page_target :: "'a proxy_scheme target" where
  "page_target = \<lparr>tg_send = proxy_send, tg_keepalive = proxy_keepalive, tg_think = Some proxy_thinking\<rparr>"

definition prefill_line :: "nat \<Rightarrow> string" where
  \<open>prefill_line n = fit 96 (''{"phase":"prefill","tokens":'' @ dec n @ ''}'' @ NL)\<close>

definition thought_line :: "nat \<Rightarrow> string" where
  \<open>thought_line n = fit 80 (''{"phase":"preparing","tokens":'' @ dec n @ ''}'' @ NL)\<close>

type_synonym 'a seat = "'a proxy_scheme \<times> app_state \<times> app_last"

text \<open>A new stage of the run is shown and traced.\<close>

definition note_phase :: "rat \<Rightarrow> run \<Rightarrow> 'a seat \<Rightarrow> 'a seat" where
  "note_phase now r x =
     (case x of (p, a, l) \<Rightarrow>
        if px_phase p = rn_stage r then (p, a, l)
        else
          let ph = fit 24 (rn_stage r) in
          (p\<lparr>px_phase := ph, px_phase_since := now\<rparr>,
           a\<lparr>ap_request := snd (activity_step (px_operation p) (px_generation p) (activity_request_stage (Some ph)) now (ap_request a))\<rparr>,
           l\<lparr>la_phase := fit 24 ph\<rparr>))"

definition announce :: "rat \<Rightarrow> run \<Rightarrow> 'a proxy_scheme \<Rightarrow> bool \<times> 'a proxy_scheme" where
  "announce now r p =
     (if px_app p \<and> \<not> px_reading p \<and> px_phase p = ''prefill'' \<and> now - px_phase_since p \<ge> 1000
      then proxy_event (prefill_line (rs_prompt_tokens (rn_stats r))) (p\<lparr>px_reading := True\<rparr>)
      else (True, p))"

definition beat :: "'a proxy_scheme target \<Rightarrow> rat \<Rightarrow> 'a proxy_scheme \<Rightarrow> bool \<times> 'a proxy_scheme" where
  "beat T now p =
     (if now - (if px_heartbeat p \<noteq> 0 then px_heartbeat p else px_start p) \<ge> 10000
      then tg_keepalive T now (p\<lparr>px_heartbeat := now\<rparr>) else (True, p))"

text \<open>Whether the run is to be given up.\<close>

definition proxy_cancel :: "'a proxy_scheme target \<Rightarrow> look \<Rightarrow> rat \<Rightarrow> run \<Rightarrow> 'a seat \<Rightarrow> bool \<times> 'a seat" where
  "proxy_cancel T look now r x =
     (case x of (p0, a0, l0) \<Rightarrow>
        let p1 = p0\<lparr>px_disconnected := (look = Hung), px_expired := (now - px_start p0 > 3600000)\<rparr> in
        if closing a0 \<or> fl_request_cancelled (ap_flags a0) \<or> px_expired p1 \<or> px_disconnected p1 then (True, p1, a0, l0)
        else
          (case note_phase now r (p1, a0, l0) of
             (p2, a, l) \<Rightarrow>
               (case announce now r p2 of
                  (False, p3) \<Rightarrow> (True, p3\<lparr>px_disconnected := True\<rparr>, a, l)
                | (True, p3) \<Rightarrow>
                    (case beat T now p3 of
                       (False, p4) \<Rightarrow> (True, p4\<lparr>px_disconnected := True\<rparr>, a, l)
                     | (True, p4) \<Rightarrow> (False, p4, a, l)))))"

text \<open>The piece itself: thinking is for those who look at it, the answer for everybody.\<close>

definition pass_on :: "'a proxy_scheme target \<Rightarrow> rat \<Rightarrow> bool \<Rightarrow> string \<Rightarrow> 'a proxy_scheme \<Rightarrow> bool \<times> 'a proxy_scheme" where
  "pass_on T now thinking text p =
     (let p1 = (if text \<noteq> [] \<and> px_first p = 0 then p\<lparr>px_first := now - px_start p\<rparr> else p) in
      if thinking then
        (let p2 = p1\<lparr>px_reasoning := True, px_thinking_now := \<not> px_visible p1\<rparr>
         in case tg_think T of
              None \<Rightarrow> (True, p2)
            | Some think \<Rightarrow> if text \<noteq> [] then think text p2 else (True, p2))
      else if text \<noteq> [] then
        tg_send T now text (p1\<lparr>px_thinking_now := False, px_visible := px_visible p1 \<or> shows_text text\<rparr>)
      else (True, p1))"

text \<open>Counted in the trace of the request, if it is still this one.\<close>

definition count_piece :: "rat \<Rightarrow> string \<Rightarrow> 'a seat \<Rightarrow> 'a seat" where
  "count_piece now text x =
     (case x of (p, a, l) \<Rightarrow>
        if text \<noteq> [] \<and> ac_id (ap_request a) = px_operation p \<and> ac_generation (ap_request a) = px_generation p then
          (let n = px_pieces p + 1; t = activity_progress n now (ap_request a)
           in (p\<lparr>px_pieces := n\<rparr>,
               a\<lparr>ap_request := (if px_visible p then activity_change ACT_ANSWER now t
                               else if px_thinking_now p then activity_change ACT_PREPARING now t else t)\<rparr>, l))
        else (p, a, l))"

definition first_thought :: "'a proxy_scheme target \<Rightarrow> rat \<Rightarrow> bool \<times> 'a proxy_scheme \<Rightarrow> bool \<times> 'a proxy_scheme" where
  "first_thought T now op =
     (case op of (ok, p) \<Rightarrow>
        if ok \<and> px_reasoning p \<and> \<not> px_preparing p
        then (case tg_keepalive T now p of (ok1, p1) \<Rightarrow> (ok1, p1\<lparr>px_preparing := True\<rparr>)) else (ok, p))"

definition thought_count :: "rat \<Rightarrow> string \<Rightarrow> bool \<times> 'a proxy_scheme \<Rightarrow> bool \<times> 'a proxy_scheme" where
  "thought_count now text op =
     (case op of (ok, p) \<Rightarrow>
        if ok \<and> px_app p \<and> px_thinking_now p \<and> text \<noteq> [] then
          (let p1 = p\<lparr>px_thought := px_thought p + 1\<rparr> in
           if now - px_progress p1 \<ge> 1000 then proxy_event (thought_line (unat (px_thought p1))) (p1\<lparr>px_progress := now\<rparr>)
           else (True, p1))
        else (ok, p))"

definition proxy_part :: "'a proxy_scheme target \<Rightarrow> look \<Rightarrow> rat \<Rightarrow> run \<Rightarrow> bool \<Rightarrow> string \<Rightarrow> 'a seat \<Rightarrow> bool \<times> 'a seat" where
  "proxy_part T look now r thinking text x =
     (case proxy_cancel T look now r x of
        (True, x1) \<Rightarrow> (False, x1)
      | (False, p1, a1, l1) \<Rightarrow>
          (case pass_on T now thinking text p1 of
             (ok, p2) \<Rightarrow>
               (case count_piece now text (p2, a1, l1) of
                  (p3, a3, l3) \<Rightarrow>
                    (case thought_count now text (first_thought T now (ok, p3)) of (ok4, p4) \<Rightarrow> (ok4, p4, a3, l3)))))"

subsection \<open>Begin and end\<close>

definition proxy_init :: "'a seat \<Rightarrow> 'a seat" where
  "proxy_init x =
     (case x of (p, a, l) \<Rightarrow>
        (p\<lparr>px_format := (case find_model a (Some (active_id a)) of Some m \<Rightarrow> am_reasoning_format m | None \<Rightarrow> None),
           px_operation := ac_id (ap_request a), px_generation := ac_generation (ap_request a)\<rparr>, a,
         \<lparr>la_phase = ''connect'', la_message = [], la_stage = [], la_model = [], la_backend = [], la_code = 0\<rparr>))"

definition expired_text :: string where
  "expired_text = ''The one-hour request limit was reached. Shorten the conversation or select GPU.''"

definition proxy_finish ::
    "run \<Rightarrow> int \<times> string \<Rightarrow> 'a seat \<Rightarrow> (int \<times> string) \<times> app_run_stats \<times> app_last" where
  "proxy_finish r e x =
     (case x of (p, a, l) \<Rightarrow>
        let st = (rn_stats r)\<lparr>rs_reasoning := px_reasoning p, rs_no_answer := \<not> px_visible p,
                   rs_first_answer_ns := (if px_visible p \<and> px_first_answer p > 0 then Fin (px_first_answer p * 10 ^ 6) else Fin (-1))\<rparr>;
            (rc, msg) = (if px_expired p then (504, expired_text) else e)
        in ((rc, msg), st,
            if rc \<noteq> 0 \<and> rc \<noteq> 499 \<and> \<not> px_disconnected p
            then l\<lparr>la_message := fit 256 msg, la_stage := fit 24 (rn_stage r), la_model := fit 64 (active_id a),
                   la_backend := fit 24 (bk_active (ap_backend a)), la_code := rc\<rparr>
            else l))"

text \<open>The last bytes the page gets, and the outcome the observation ends with.\<close>

definition no_frac :: "dbl \<Rightarrow> string" where "no_frac x = printf_f 0 x"
definition flag_text :: "bool \<Rightarrow> string" where "flag_text b = (if b then ''true'' else ''false'')"

definition done_line :: "app_run_stats \<Rightarrow> rat \<Rightarrow> string" where
  \<open>done_line st first =
     ''{"done":true,"eval_count":'' @ dec (rs_tokens st) @ '',"eval_duration":'' @ no_frac (rs_generation_ns st)
     @ '',"total_duration":'' @ no_frac (rs_total_ns st) @ '',"prompt_eval_count":'' @ dec (rs_prompt_tokens st)
     @ '',"reused":'' @ dec (rs_reused st) @ '',"limited":'' @ flag_text (rs_limited st)
     @ '',"reasoning":'' @ flag_text (rs_reasoning st) @ '',"no_answer":'' @ flag_text (rs_no_answer st)
     @ '',"max_tokens":'' @ dec (rs_max_tokens st) @ '',"first_model_text_ns":''
     @ no_frac (if first > 0 then Fin (first * 10 ^ 6) else Fin (-1))
     @ '',"first_answer_ns":'' @ no_frac (rs_first_answer_ns st) @ ''}'' @ NL\<close>

definition error_stmts :: "string \<Rightarrow> (app_buffer \<Rightarrow> app_buffer) list" where
  \<open>error_stmts msg = [app_put ''{"error":'', app_quote msg, app_put (''}'' @ NL)]\<close>

definition generate_finish ::
    "rat \<Rightarrow> (int \<times> string) \<Rightarrow> app_run_stats \<Rightarrow> 'a proxy_scheme \<Rightarrow> int \<times> 'a proxy_scheme" where
  "generate_finish now e st p =
     (case e of (rc0, msg) \<Rightarrow>
        let (ok, p1) = (if rc0 = 0 \<and> \<not> px_started p then proxy_send now [] p else (True, p));
            rc = (if ok then rc0 else 502)
        in if \<not> px_started p1 then (rc, snd (send_bytes (error_response (nat (if rc \<noteq> 0 then rc else 502)) msg) p1))
           else if rc \<noteq> 0 then (rc, snd (send_built 1024 (error_stmts msg) p1))
           else (case send_bytes (done_line st (px_first p1)) p1 of (sent, p2) \<Rightarrow> (if sent then 0 else 498, p2)))"

end
