(* ===== verification/Completion.thy ===== *)
theory Completion
  imports Proxy
begin

section \<open>The stream other programs get (src/src/app/chat.c)\<close>

text \<open>
  \<open>completion_proxy\<close> is a proxy with the request of an OpenAI client: whether it streams, the model and
  the id of its answer, and the text of an answer that is not streamed. \<open>epoch\<close> is the time of day in
  seconds.
\<close>

record completion_proxy = proxy +
  cp_stream :: bool
  cp_model :: string
  cp_id :: string
  cp_text :: app_buffer

definition sse_head :: string where
  "sse_head = crlf ''HTTP/1.1 200 OK'' @ crlf ''Content-Type: text/event-stream'' @ crlf ''Cache-Control: no-store''
     @ crlf ''Connection: close'' @ crlf ''X-Content-Type-Options: nosniff'' @ CRLF"

definition completion_prefix :: "int \<Rightarrow> completion_proxy \<Rightarrow> bool \<Rightarrow> (app_buffer \<Rightarrow> app_buffer) list" where
  \<open>completion_prefix epoch p chunk =
     [app_put ''{"id":'', app_quote (cp_id p),
      app_printf ('',"object":"chat.completion'' @ (if chunk then ''.chunk'' else []) @ ''","created":'' @ deci epoch @ '',"model":''),
      app_quote (cp_model p)]\<close>

definition chunk_stmts :: "int \<Rightarrow> completion_proxy \<Rightarrow> string \<Rightarrow> (app_buffer \<Rightarrow> app_buffer) list" where
  \<open>chunk_stmts epoch p text =
     app_put ''data: '' # completion_prefix epoch p True
     @ [app_put '',"choices":[{"index":0,"delta":{"role":"assistant","content":'', app_quote text,
        app_put (''},"finish_reason":null}]}'' @ NL @ NL)]\<close>

definition completion_send :: "int \<Rightarrow> rat \<Rightarrow> string \<Rightarrow> completion_proxy \<Rightarrow> bool \<times> completion_proxy" where
  "completion_send epoch now decoded p0 =
     (let p = note_answer now decoded p0 in
      if \<not> cp_stream p then (let b = app_put decoded (cp_text p) in (\<not> b_failed b, p\<lparr>cp_text := b\<rparr>))
      else
        (case (if px_started p then (True, p)
               else (case send_bytes sse_head p of (ok, p1) \<Rightarrow> (ok, if ok then p1\<lparr>px_started := True\<rparr> else p1))) of
           (False, p1) \<Rightarrow> (False, p1)
         | (True, p1) \<Rightarrow> send_built 16384 (chunk_stmts epoch p1 decoded) p1))"

definition completion_keepalive :: "int \<Rightarrow> rat \<Rightarrow> completion_proxy \<Rightarrow> bool \<times> completion_proxy" where
  "completion_keepalive epoch now p =
     (if \<not> cp_stream p then (True, p)
      else
        (case (if px_started p then (True, p) else completion_send epoch now [] p) of
           (False, p1) \<Rightarrow> (False, p1)
         | (True, p1) \<Rightarrow> send_bytes ('': preparing'' @ NL @ NL) p1))"

definition completion_target :: "int \<Rightarrow> completion_proxy target" where
  "completion_target epoch =
     \<lparr>tg_send = completion_send epoch, tg_keepalive = completion_keepalive epoch, tg_think = None\<rparr>"

definition completion_part ::
    "int \<Rightarrow> look \<Rightarrow> rat \<Rightarrow> run \<Rightarrow> bool \<Rightarrow> string \<Rightarrow> completion_proxy \<times> app_state \<times> app_last
       \<Rightarrow> bool \<times> completion_proxy \<times> app_state \<times> app_last" where
  "completion_part epoch = proxy_part (completion_target epoch)"

definition api_error_stmts :: "int \<Rightarrow> string \<Rightarrow> (app_buffer \<Rightarrow> app_buffer) list" where
  \<open>api_error_stmts code msg =
     [app_put ''{"error":{"message":'', app_quote msg,
      app_printf ('',"type":"invalid_request_error","code":'' @ deci code @ ''}}'')]\<close>

text \<open>The body goes out even if it was cut by its buffer.\<close>

definition api_error :: "int \<Rightarrow> string \<Rightarrow> string" where
  "api_error code msg =
     (let b = stmts (api_error_stmts code msg) (empty_buffer 1024)
      in response (nat code) ''application/json'' (take (b_len b) (b_data b)))"

subsection \<open>The end\<close>

text \<open>The outcome once the run is over: an overfull text, or no answer at all, are failures.\<close>

definition completion_outcome :: "int \<times> string \<Rightarrow> completion_proxy \<Rightarrow> int \<times> string" where
  "completion_outcome e p =
     (let (rc1, msg1) = (if b_failed (cp_text p) then (502, ''The model produced invalid or oversized text.'') else e)
      in if rc1 = 0 \<and> \<not> px_visible p
         then (422, ''The model produced no answer. Try again or allow more output tokens.'') else (rc1, msg1))"

text \<open>Whether the observation ends before the last bytes are sent: for an answer that is complete and whose
  client is still there.\<close>

definition released_early :: "int \<Rightarrow> 'a proxy_scheme \<Rightarrow> bool" where
  "released_early rc p \<longleftrightarrow> rc = 0 \<and> \<not> px_disconnected p"

definition usage_text :: "app_run_stats \<Rightarrow> string" where
  \<open>usage_text st = ''"usage":{"prompt_tokens":'' @ dec (rs_prompt_tokens st) @ '',"completion_tokens":'' @ dec (rs_tokens st)
     @ '',"total_tokens":'' @ dec ((rs_prompt_tokens st + rs_tokens st) mod 2 ^ 64) @ ''}''\<close>

definition answer_stmts ::
    "int \<Rightarrow> bool \<Rightarrow> app_run_stats \<Rightarrow> completion_proxy \<Rightarrow> (app_buffer \<Rightarrow> app_buffer) list" where
  \<open>answer_stmts epoch usage st p =
     (if cp_stream p then [app_put ''data: ''] else [])
     @ completion_prefix epoch p (cp_stream p)
     @ [app_put '',"choices":[{"index":0,'']
     @ (if cp_stream p then [app_put ''"delta":{},'']
        else [app_put ''"message":{"role":"assistant","content":'', app_quote (b_data (cp_text p)), app_put ''},''])
     @ [app_put ''"finish_reason":'', app_quote (if rs_limited st then ''length'' else ''stop''), app_put ''}]'']
     @ (if cp_stream p then [] else [app_printf ('','' @ usage_text st)])
     @ [app_put ''}'']
     @ (if cp_stream p then
          [app_put (NL @ NL)]
          @ (if usage then
               [app_put ''data: ''] @ completion_prefix epoch p True @ [app_printf ('',"choices":[],'' @ usage_text st @ ''}'' @ NL @ NL)]
             else [])
          @ [app_put (''data: [DONE]'' @ NL @ NL)]
        else [])\<close>

definition stream_error_stmts :: "string \<Rightarrow> (app_buffer \<Rightarrow> app_buffer) list" where
  \<open>stream_error_stmts msg = [app_put ''data: {"error":{"message":'', app_quote msg, app_put (''}}'' @ NL @ NL)]\<close>

text \<open>The last bytes, and the code the observation ends with if it did not end before. An error in a stream is
  sent as far as the buffer holds it.\<close>

definition completion_finish ::
    "int \<Rightarrow> rat \<Rightarrow> bool \<Rightarrow> int \<times> string \<Rightarrow> app_run_stats \<Rightarrow> completion_proxy \<Rightarrow> int \<times> bool \<times> completion_proxy" where
  "completion_finish epoch now usage e st p0 =
     (case e of (rc0, msg) \<Rightarrow>
        let (ok, p) = (if rc0 = 0 \<and> cp_stream p0 \<and> \<not> px_started p0 then completion_send epoch now [] p0 else (True, p0));
            rc = (if ok then rc0 else 502);
            early = released_early rc p
        in if rc \<noteq> 0 then
             (if \<not> px_started p then (rc, early, snd (send_bytes (api_error rc msg) p))
              else
                let b = stmts (stream_error_stmts msg) (empty_buffer 65536)
                in (rc, early, snd (send_bytes (take (b_len b) (b_data b)) p)))
           else
             (case built 65536 (answer_stmts epoch usage st p) of
                None \<Rightarrow>
                  if cp_stream p then (502, early, p)
                  else (502, early, snd (send_bytes (api_error 502 ''Completion exceeds response capacity.'') p))
              | Some body \<Rightarrow>
                  (case send_bytes (if cp_stream p then body else response 200 ''application/json'' body) p of
                     (sent, p1) \<Rightarrow> (if sent then 0 else 498, early, p1))))"

end
