(* ===== verification/PageStream.thy ===== *)
theory PageStream
  imports Proxy Wire
begin

section \<open>What the page reads is what the model said\<close>

text \<open>
  The page reads its stream line by line, each line a JSON object. Here is that reader, over the JSON reader of
  the repository, and the run of a proxy as a list of its callbacks in any order; an answer that ends well
  leaves lines whose texts are the answer. \<open>streamed\<close> is the invariant of the run.
\<close>

subsection \<open>The reader\<close>

fun complete_lines :: "string \<Rightarrow> string \<Rightarrow> string list" where
  "complete_lines l [] = []"
| "complete_lines l (c # s) = (if c = CHR 0x0A then l # complete_lines [] s else complete_lines (l @ [c]) s)"

definition page_lines :: "string \<Rightarrow> string list" where
  "page_lines out = complete_lines [] (drop (length ndjson_head) out)"

definition line_text :: "string \<Rightarrow> string" where
  \<open>line_text l =
     (if take 12 l = ''{"response":'' then
        (case json_parse l of
           None \<Rightarrow> []
         | Some j \<Rightarrow> (case json_strdup j (json_get j 0 ''response'') of None \<Rightarrow> [] | Some t \<Rightarrow> t))
      else [])\<close>

definition page_text :: "string \<Rightarrow> string" where
  "page_text out = concat (map line_text (page_lines out))"

definition one_line :: "string \<Rightarrow> bool" where
  "one_line l \<longleftrightarrow> CHR 0x0A \<notin> set l"

definition unlines :: "string list \<Rightarrow> string" where
  "unlines ls = concat (map (\<lambda>l. l @ NL) ls)"

lemma complete_line: "one_line l \<Longrightarrow> complete_lines k (l @ NL @ s) = (k @ l) # complete_lines [] s"
  by (induction l arbitrary: k) (auto simp: one_line_def NL_def)

lemma complete_unlines: "\<forall>l \<in> set ls. one_line l \<Longrightarrow> complete_lines [] (unlines ls) = ls"
proof (induction ls)
  case (Cons l ls)
  have "unlines (l # ls) = l @ NL @ unlines ls" by (simp add: unlines_def)
  with Cons show ?case by (simp add: complete_line)
qed (simp add: unlines_def)

lemma unlines_snoc: "unlines (ls @ [l]) = unlines ls @ l @ NL"
  by (simp add: unlines_def)

subsection \<open>The lines\<close>

lemma built_text:
  assumes "built cap fs = Some s" and "list_all2 writes fs ts" and "0 < cap" and "cap < 2 ^ 31"
  shows "s = concat ts"
proof -
  have b: "buf_ok (empty_buffer cap)" using assms(3,4) by (simp add: buf_ok_def empty_buffer_def)
  have f: "\<not> b_failed (stmts fs (empty_buffer cap))" and s: "s = take (b_len (stmts fs (empty_buffer cap))) (b_data (stmts fs (empty_buffer cap)))"
    using assms(1) by (auto simp: built_def Let_def split: if_splits)
  from writesD(4) [OF writes_stmts [OF assms(2)] b f] s show ?thesis by (simp add: empty_buffer_def)
qed

lemma writes_plain: "NUL \<notin> set s \<Longrightarrow> writes (app_put s) s"
  using writes_put [of s] cstr_id [of s] by simp

lemma hexdig_plain: "n < 16 \<Longrightarrow> hexdig n \<noteq> CHR 0x0A"
proof -
  assume "n < 16"
  moreover have "\<forall>k \<in> set [0..<16]. hexdig k \<noteq> CHR 0x0A" by code_simp
  ultimately show ?thesis by simp
qed

lemma one_line_esc: "one_line (concat (map app_esc s))"
proof -
  have "CHR 0x0A \<notin> set (app_esc c)" for c
    using hexdig_plain [of 0] hexdig_plain [of "byte c div 16"] hexdig_plain [of "byte c mod 16"]
    by (auto simp: app_esc_def u_escape_def div_less_iff_less_mult split: if_splits)
  then show ?thesis by (auto simp: one_line_def)
qed

lemma one_line_append [simp]: "one_line (s @ t) \<longleftrightarrow> one_line s \<and> one_line t"
  by (auto simp: one_line_def)

lemma one_line_dec [simp]: "one_line (dec n)"
  using dec_digits [of n] by (auto simp: one_line_def list_all_iff is_digit_def)

lemma one_line_Cons: "one_line (c # s) \<longleftrightarrow> c \<noteq> CHR 0x0A \<and> one_line s"
  by (auto simp: one_line_def)

lemma one_line_Nil [simp]: "one_line []"
  by (simp add: one_line_def)

lemma one_line_quoted: "one_line (quoted_text t)"
  using one_line_esc [of "cstr t"] by (simp add: quoted_text_def one_line_Cons)

definition silent :: "string \<Rightarrow> bool" where
  "silent l \<longleftrightarrow> one_line l \<and> line_text l = []"

lemma response_line:
  assumes "built 16384 (response_stmts text) = Some s"
  obtains l where "s = l @ NL" and "one_line l" and "line_text l = cstr text"
proof -
  let ?l = \<open>''{"response":'' @ quoted_text text @ '',"done":false}''\<close>
  have \<open>list_all2 writes (response_stmts text) [''{"response":'', quoted_text text, '',"done":false}'' @ NL]\<close>
    unfolding response_stmts_def by (intro list_all2_Cons [THEN iffD2] conjI writes_plain writes_quote list_all2_Nil [THEN iffD2] refl) (simp_all add: NL_def)
  from built_text [OF assms this] have s: "s = ?l @ NL" by simp
  have one: "one_line ?l" using one_line_quoted [of "text"] by (simp add: one_line_Cons)
  let ?fs = "[(''response'', JStr (cstr text)), (''done'', JPrim ''false'')]"
  have r: "?l = render app_esc (JObj ?fs)"
    by (simp add: quoted_text_def quoted_def app_esc_def)
  have ok: "jfields_ok ?fs" "ntoks (JObj ?fs) \<le> JSON_TOK_CAP" by (simp_all add: JSON_TOK_CAP_def)
  obtain j where j: "json_parse ?l = Some j" "is_at app_esc j 0 (JObj ?fs)"
    using app_quoting.root_render [OF ok] r by metis
  have "\<forall>k \<in> fst ` set ?fs. plain k" by (simp add: plain_def)
  from app_get [OF j(2) this, of "''response''" "JStr (cstr text)"] obtain m where
    "json_get j 0 ''response'' = int m" "is_at app_esc j m (JStr (cstr text))" by auto
  with app_quoting.strdup_render [of j m "cstr text"] have "json_strdup j (json_get j 0 ''response'') = Some (cstr text)"
    using cstr_no_nul [of "text"] by (simp add: cstr_id)
  then have "line_text ?l = cstr text" using j(1) by (simp add: line_text_def)
  with that s one show thesis by blast
qed

lemma thinking_line:
  assumes "built 4096 (thinking_stmts text) = Some s"
  obtains l where "s = l @ NL" and "silent l"
proof -
  let ?l = \<open>''{"thinking":'' @ quoted_text text @ ''}''\<close>
  have \<open>list_all2 writes (thinking_stmts text) [''{"thinking":'', quoted_text text, ''}'' @ NL]\<close>
    unfolding thinking_stmts_def by (intro list_all2_Cons [THEN iffD2] conjI writes_plain writes_quote list_all2_Nil [THEN iffD2] refl) (simp_all add: NL_def)
  from built_text [OF assms this] have "s = ?l @ NL" by simp
  moreover have "silent ?l" using one_line_quoted [of "text"] by (simp add: silent_def one_line_Cons line_text_def)
  ultimately show thesis using that by blast
qed

lemma silent_lines:
  "\<exists>l. preparing_line = l @ NL \<and> silent l" "\<exists>l. heartbeat_line = l @ NL \<and> silent l"
  by (auto simp: preparing_line_def heartbeat_line_def silent_def one_line_Cons line_text_def)

lemma counted_line:
  assumes "n < 2 ^ 64"
  shows "\<exists>l. prefill_line n = l @ NL \<and> silent l" "\<exists>l. thought_line n = l @ NL \<and> silent l"
proof -
  have "n < 10 ^ 20" using assms by simp
  then have "length (dec n) \<le> 20" by (rule length_dec) simp
  then show "\<exists>l. prefill_line n = l @ NL \<and> silent l" "\<exists>l. thought_line n = l @ NL \<and> silent l"
    by (auto simp: prefill_line_def thought_line_def fit_def NL_def silent_def one_line_Cons line_text_def
        intro!: exI [of _ "_ @ dec n @ ''}''"])
qed

subsection \<open>The run\<close>

text \<open>What the page has so far: nothing, or the head and complete lines, whose texts are \<open>said\<close>.\<close>

definition streamed :: "string \<Rightarrow> 'a proxy_scheme \<Rightarrow> bool" where
  "streamed said p \<longleftrightarrow>
     (if px_started p then \<exists>ls. px_out p = ndjson_head @ unlines ls \<and> (\<forall>l \<in> set ls. one_line l) \<and> concat (map line_text ls) = said
      else px_out p = [] \<and> said = [])"

lemma streamed_text:
  assumes "streamed said p" and "px_started p"
  shows "page_text (px_out p) = said"
  using assms by (auto simp: streamed_def page_text_def page_lines_def complete_unlines)

lemma streamed_cong [simp]:
  "streamed said (p\<lparr>px_disconnected := b\<rparr>) = streamed said p" "streamed said (p\<lparr>px_expired := b\<rparr>) = streamed said p"
  "streamed said (p\<lparr>px_preparing := b\<rparr>) = streamed said p" "streamed said (p\<lparr>px_reading := b\<rparr>) = streamed said p"
  "streamed said (p\<lparr>px_first := t\<rparr>) = streamed said p" "streamed said (p\<lparr>px_first_answer := t\<rparr>) = streamed said p"
  "streamed said (p\<lparr>px_heartbeat := t\<rparr>) = streamed said p" "streamed said (p\<lparr>px_progress := t\<rparr>) = streamed said p"
  "streamed said (p\<lparr>px_phase_since := t\<rparr>) = streamed said p" "streamed said (p\<lparr>px_visible := b\<rparr>) = streamed said p"
  "streamed said (p\<lparr>px_reasoning := b\<rparr>) = streamed said p" "streamed said (p\<lparr>px_thinking_now := b\<rparr>) = streamed said p"
  "streamed said (p\<lparr>px_phase := s\<rparr>) = streamed said p" "streamed said (p\<lparr>px_pieces := n\<rparr>) = streamed said p"
  "streamed said (p\<lparr>px_thought := n\<rparr>) = streamed said p"
  by (simp_all add: streamed_def)

lemma head_streamed:
  assumes "proxy_head p = (True, p1)" and "streamed said p"
  shows "streamed said p1 \<and> px_started p1"
proof (cases "px_started p")
  case False
  with assms have "px_out p1 = ndjson_head @ unlines []" "px_started p1" "said = []"
    by (auto simp: proxy_head_def send_bytes_def streamed_def unlines_def split: if_splits prod.splits)
  then show ?thesis by (simp add: streamed_def exI [of _ "[]"])
qed (use assms in \<open>auto simp: proxy_head_def\<close>)

lemma line_streamed:
  assumes "send_bytes (l @ NL) p = (True, p1)" and "streamed said p" and "px_started p" and "one_line l"
  shows "streamed (said @ line_text l) p1 \<and> px_started p1"
proof -
  obtain ls where ls: "px_out p = ndjson_head @ unlines ls" "\<forall>l \<in> set ls. one_line l" "concat (map line_text ls) = said"
    using assms(2,3) by (auto simp: streamed_def)
  have "px_out p1 = ndjson_head @ unlines (ls @ [l])" "px_started p1"
    using assms(1,3) ls(1) by (auto simp: send_bytes_def unlines_snoc split: if_splits)
  with ls(2,3) assms(4) show ?thesis unfolding streamed_def by (auto intro!: exI [of _ "ls @ [l]"])
qed

lemma event_streamed:
  assumes "proxy_event s p = (True, p1)" and "streamed said p" and "\<exists>l. s = l @ NL \<and> silent l"
  shows "streamed said p1 \<and> px_started p1"
proof -
  obtain p2 where h: "proxy_head p = (True, p2)" "send_bytes s p2 = (True, p1)"
    using assms(1) by (auto simp: proxy_event_def split: prod.splits bool.splits)
  obtain l where l: "s = l @ NL" "silent l" using assms(3) by blast
  from line_streamed [OF h(2) [unfolded l(1)], of said] head_streamed [OF h(1) assms(2)] l(2) show ?thesis
    by (simp add: silent_def)
qed

lemma send_streamed:
  assumes "proxy_send tm text p = (True, p1)" and "streamed said p"
  shows "streamed (said @ cstr text) p1 \<and> px_started p1"
proof -
  obtain p2 where h: "proxy_head (note_answer tm text p) = (True, p2)" "send_built 16384 (response_stmts text) p2 = (True, p1)"
    using assms(1) by (auto simp: proxy_send_def split: prod.splits bool.splits)
  have n: "streamed said (note_answer tm text p)" using assms(2) by (simp add: note_answer_def)
  obtain s where s: "built 16384 (response_stmts text) = Some s" "send_bytes s p2 = (True, p1)"
    using h(2) by (auto simp: send_built_def split: option.splits)
  obtain l where l: "s = l @ NL" "one_line l" "line_text l = cstr text" using response_line [OF s(1)] .
  from line_streamed [OF s(2) [unfolded l(1)], of said] head_streamed [OF h(1) n] l(2,3) show ?thesis by simp
qed

lemma keepalive_streamed:
  assumes "proxy_keepalive tm p = (True, p1)" and "streamed said p"
  shows "streamed said p1 \<and> px_started p1"
proof -
  obtain p2 where h: "(if px_started p then (True, p) else proxy_send tm [] p) = (True, p2)"
    "send_bytes (if px_thinking_now p2 \<and> px_first_answer p2 = 0 then preparing_line else heartbeat_line) p2 = (True, p1)"
    using assms(1) by (auto simp: proxy_keepalive_def split: prod.splits bool.splits)
  have "streamed said p2 \<and> px_started p2"
    using h(1) assms(2) send_streamed [of tm "[]" p p2 said] by (auto simp: cstr_def split: if_splits)
  moreover obtain l where "(if px_thinking_now p2 \<and> px_first_answer p2 = 0 then preparing_line else heartbeat_line) = l @ NL" "silent l"
    using silent_lines by metis
  ultimately show ?thesis using line_streamed [of l p2 p1 said] h(2) by (simp add: silent_def)
qed

lemma thinking_streamed:
  assumes "proxy_thinking text p = (True, p1)" and "streamed said p"
  shows "streamed said p1"
proof -
  obtain s where s: "built 4096 (thinking_stmts text) = Some s" "proxy_event s p = (True, p1)"
    using assms(1) by (auto simp: proxy_thinking_def split: option.splits)
  obtain l where "s = l @ NL" "silent l" using thinking_line [OF s(1)] .
  with event_streamed [OF s(2) assms(2)] show ?thesis by blast
qed

text \<open>The token counts of a run are 64-bit.\<close>

definition counts_ok :: "run \<Rightarrow> bool" where
  "counts_ok r \<longleftrightarrow> rs_prompt_tokens (rn_stats r) < 2 ^ 64"

lemma cancel_streamed:
  assumes "proxy_cancel page_target look tm r (p, a, l) = (False, p1, a1, l1)" and "streamed said p" and "counts_ok r"
  shows "streamed said p1"
proof -
  define p0 where "p0 = p\<lparr>px_disconnected := (look = Hung), px_expired := (tm - px_start p > 3600000)\<rparr>"
  have 0: "streamed said p0" using assms(2) by (simp add: p0_def)
  obtain p2 a2 l2 where 2: "note_phase tm r (p0, a, l) = (p2, a2, l2)" by (metis prod_cases3)
  then have s2: "streamed said p2" using 0 by (auto simp: note_phase_def Let_def split: if_splits)
  obtain p3 p4 where 3: "announce tm r p2 = (True, p3)" and 4: "beat page_target tm p3 = (True, p4)" "p1 = p4"
    using assms(1) 2 by (auto simp: proxy_cancel_def Let_def p0_def split: if_splits prod.splits bool.splits)
  have "streamed said p3"
    using 3 s2 event_streamed [of "prefill_line (rs_prompt_tokens (rn_stats r))" "p2\<lparr>px_reading := True\<rparr>" p3 said]
      counted_line(1) [OF assms(3) [unfolded counts_ok_def]]
    by (auto simp: announce_def split: if_splits)
  then show ?thesis
    using 4 keepalive_streamed [of tm "p3\<lparr>px_heartbeat := tm\<rparr>" p4 said]
    by (auto simp: beat_def page_target_def split: if_splits)
qed

lemma pass_streamed:
  assumes "pass_on page_target tm thinking text p = (True, p1)" and "streamed said p"
  shows "streamed (said @ (if thinking then [] else cstr text)) p1"
proof -
  define p2 where "p2 = (if text \<noteq> [] \<and> px_first p = 0 then p\<lparr>px_first := tm - px_start p\<rparr> else p)"
  have 2: "streamed said p2" using assms(2) by (simp add: p2_def)
  note eq = assms(1) [unfolded pass_on_def p2_def [symmetric] Let_def page_target_def, simplified]
  show ?thesis
  proof (cases thinking)
    case True
    with eq 2 thinking_streamed [of "text" "p2\<lparr>px_reasoning := True, px_thinking_now := \<not> px_visible p2\<rparr>" p1 said]
    show ?thesis by (auto split: if_splits)
  next
    case False
    with eq 2 send_streamed [of tm "text" "p2\<lparr>px_thinking_now := False, px_visible := px_visible p2 \<or> shows_text text\<rparr>" p1 said]
    show ?thesis by (auto simp: cstr_def split: if_splits)
  qed
qed

lemma part_streamed:
  assumes "proxy_part page_target look tm r thinking text (p, a, l) = (True, p1, a1, l1)" and "streamed said p" and "counts_ok r"
  shows "streamed (said @ (if thinking then [] else cstr text)) p1"
proof -
  let ?said = "said @ (if thinking then [] else cstr text)"
  obtain p2 a2 l2 where c: "proxy_cancel page_target look tm r (p, a, l) = (False, p2, a2, l2)"
    using assms(1) by (auto simp: proxy_part_def split: prod.splits bool.splits)
  obtain ok p3 where pa: "pass_on page_target tm thinking text p2 = (ok, p3)" by fastforce
  obtain p4 a4 l4 where co: "count_piece tm text (p3, a2, l2) = (p4, a4, l4)" by (metis prod_cases3)
  obtain ok5 p5 where fi: "first_thought page_target tm (ok, p4) = (ok5, p5)" by fastforce
  have th: "thought_count tm text (ok5, p5) = (True, p1)"
    using assms(1) c pa co fi by (auto simp: proxy_part_def split: prod.splits)
  have ok: "ok5" "ok" using th fi by (auto simp: thought_count_def first_thought_def split: if_splits prod.splits)
  have "streamed ?said p3" using pass_streamed [OF pa [unfolded ok(2)[THEN eqTrueI]] cancel_streamed [OF c assms(2,3)]] .
  then have "streamed ?said p4" using co by (auto simp: count_piece_def Let_def split: if_splits)
  then have "streamed ?said p5"
    using fi ok keepalive_streamed [of tm p4 _ ?said] by (auto simp: first_thought_def page_target_def split: if_splits prod.splits)
  then show ?thesis
    using th ok event_streamed [of "thought_line (unat (px_thought p5 + 1))" "p5\<lparr>px_thought := px_thought p5 + 1, px_progress := tm\<rparr>" p1 ?said]
      counted_line(2) [of "unat (px_thought p5 + 1)"] unsigned_less [of "px_thought p5 + 1", where ?'a = nat]
    by (auto simp: thought_count_def Let_def split: if_splits)
qed

text \<open>The callbacks of one request: a look at the client, or a piece of the answer.\<close>

datatype callback = Poll look rat run | Piece look rat run bool string

definition callback_run :: "callback \<Rightarrow> run" where
  "callback_run m = (case m of Poll k tm r \<Rightarrow> r | Piece k tm r th t \<Rightarrow> r)"

definition callback_text :: "callback \<Rightarrow> string" where
  "callback_text m = (case m of Poll k tm r \<Rightarrow> [] | Piece k tm r th t \<Rightarrow> if th then [] else cstr t)"

text \<open>Whether the run went on to its end, and where the proxy is then.\<close>

fun page_run :: "callback list \<Rightarrow> 'a seat \<Rightarrow> bool \<times> 'a seat" where
  "page_run [] x = (True, x)"
| "page_run (Poll k tm r # ms) x =
     (case proxy_cancel page_target k tm r x of (True, x1) \<Rightarrow> (False, x1) | (False, x1) \<Rightarrow> page_run ms x1)"
| "page_run (Piece k tm r th t # ms) x =
     (case proxy_part page_target k tm r th t x of (True, x1) \<Rightarrow> page_run ms x1 | (False, x1) \<Rightarrow> (False, x1))"

lemma run_streamed:
  "page_run ms (p, a, l) = (True, p1, a1, l1) \<Longrightarrow> streamed said p \<Longrightarrow> \<forall>m \<in> set ms. counts_ok (callback_run m)
     \<Longrightarrow> streamed (said @ concat (map callback_text ms)) p1"
proof (induction ms arbitrary: p a l said)
  case (Cons m ms)
  show ?case
  proof (cases m)
    case (Poll k tm r)
    obtain p2 a2 l2 where c: "proxy_cancel page_target k tm r (p, a, l) = (False, p2, a2, l2)" "page_run ms (p2, a2, l2) = (True, p1, a1, l1)"
      using Cons.prems(1) by (auto simp: Poll split: prod.splits bool.splits)
    have "streamed said p2" using cancel_streamed [OF c(1) Cons.prems(2)] Cons.prems(3) by (simp add: Poll callback_run_def)
    from Cons.IH [OF c(2) this] Cons.prems(3) show ?thesis by (simp add: Poll callback_text_def)
  next
    case (Piece k tm r th t)
    obtain p2 a2 l2 where c: "proxy_part page_target k tm r th t (p, a, l) = (True, p2, a2, l2)" "page_run ms (p2, a2, l2) = (True, p1, a1, l1)"
      using Cons.prems(1) by (auto simp: Piece split: prod.splits bool.splits)
    have "streamed (said @ (if th then [] else cstr t)) p2"
      using part_streamed [OF c(1) Cons.prems(2)] Cons.prems(3) by (simp add: Piece callback_run_def)
    from Cons.IH [OF c(2) this] Cons.prems(3) show ?thesis by (simp add: Piece callback_text_def)
  qed
qed simp

lemma one_line_no_frac [simp]: "one_line (no_frac x)"
  by (simp add: no_frac_def printf_f_def fixed_point_def one_line_Cons split: dbl.split)

lemma one_line_flag [simp]: "one_line (flag_text b)"
  by (simp add: flag_text_def one_line_Cons)

lemma done_line_line: "\<exists>l. done_line st first = l @ NL \<and> silent l"
  by (rule exI [of _ "butlast (done_line st first)"])
    (simp add: done_line_def NL_def silent_def butlast_append one_line_Cons line_text_def)

text \<open>From the first piece to the last line.\<close>

lemma stream_reaches_page:
  assumes "page_run ms (new_proxy room True tm, a, l) = (True, p1, a1, l1)" and "generate_finish tm1 e st p1 = (0, p2)"
    and "\<forall>m \<in> set ms. counts_ok (callback_run m)"
  shows "page_text (px_out p2) = concat (map callback_text ms) \<and> last (page_lines (px_out p2)) @ NL = done_line st (px_first p2)"
proof -
  let ?said = "concat (map callback_text ms)"
  have n: "streamed [] (new_proxy room True tm)" by (simp add: streamed_def new_proxy_def)
  from run_streamed [OF assms(1) n assms(3)] have 1: "streamed ?said p1" by simp
  obtain rc0 msg where e: "e = (rc0, msg)" by fastforce
  obtain ok p3 where se: "(if rc0 = 0 \<and> \<not> px_started p1 then proxy_send tm1 [] p1 else (True, p1)) = (ok, p3)" by fastforce
  have on: "ok \<Longrightarrow> rc0 = 0 \<Longrightarrow> px_started p3"
    using se send_streamed [of tm1 "[]" p1 p3 ?said] 1 by (auto split: if_splits)
  have rc: "ok" "rc0 = 0" "px_started p3" "send_bytes (done_line st (px_first p3)) p3 = (True, p2)"
    using assms(2) e se on by (auto simp: generate_finish_def Let_def split: if_splits prod.splits)
  have 3: "streamed ?said p3"
    using se rc(1) 1 send_streamed [of tm1 "[]" p1 p3 ?said] by (auto simp: cstr_def split: if_splits)
  obtain d where d: "done_line st (px_first p3) = d @ NL" "silent d" using done_line_line by blast
  obtain ls where ls: "px_out p3 = ndjson_head @ unlines ls" "\<forall>l \<in> set ls. one_line l" "concat (map line_text ls) = ?said"
    using 3 rc(3) by (auto simp: streamed_def)
  have "px_out p2 = ndjson_head @ unlines (ls @ [d])" "px_first p2 = px_first p3"
    using rc(4) ls(1) d(1) by (auto simp: send_bytes_def unlines_snoc split: if_splits)
  moreover have "\<forall>l \<in> set (ls @ [d]). one_line l" using ls(2) d(2) by (auto simp: silent_def)
  then have "complete_lines [] (unlines (ls @ [d])) = ls @ [d]" by (rule complete_unlines)
  ultimately show ?thesis using ls(3) d by (simp add: page_text_def page_lines_def silent_def)
qed

subsection \<open>The last line fits its buffer\<close>

text \<open>The code prints the last line into 512 bytes and sends as many as \<open>snprintf\<close> says it has. They are there while
  no number has more than 50 digits, which no count and no duration of a reply comes near.\<close>

definition small :: "dbl \<Rightarrow> bool" where
  "small x \<longleftrightarrow> (case x of Fin q \<Rightarrow> \<bar>q\<bar> < 10 ^ 50 - 1 | _ \<Rightarrow> True)"

lemma no_frac_short: "small x \<Longrightarrow> length (no_frac x) \<le> 51"
proof (cases x)
  case (Fin q)
  assume s: "small x"
  have "of_int (round_even \<bar>q\<bar>) \<le> \<bar>q\<bar> + 1" by (auto simp: round_even_def Let_def) linarith+
  then have "of_int (round_even \<bar>q\<bar>) < (of_int (10 ^ 50) :: rat)" using s Fin by (simp add: small_def)
  then have "nat (round_even \<bar>q\<bar>) < 10 ^ 50" unfolding of_int_less_iff by simp
  then have "length (dec (nat (round_even \<bar>q\<bar>))) \<le> 50" by (rule length_dec) simp
  moreover have "no_frac x = (if q < 0 then ''-'' else []) @ dec (nat (round_even \<bar>q\<bar>))"
    by (simp add: Fin no_frac_def printf_f_def fixed_point_def Let_def)
  ultimately show ?thesis by (cases "q < 0") simp_all
qed (simp_all add: no_frac_def printf_f_def)

lemma done_line_fits:
  assumes "\<forall>n \<in> {rs_tokens st, rs_prompt_tokens st, rs_reused st, rs_max_tokens st}. n < 2 ^ 64"
    and "\<forall>x \<in> {rs_generation_ns st, rs_total_ns st, rs_first_answer_ns st, Fin (first * 10 ^ 6)}. small x"
  shows "length (done_line st first) < 512"
proof -
  have "length (dec n) \<le> 20" if "n < 2 ^ 64" for n
    by (rule length_dec) (use that in simp_all)
  moreover have "length (flag_text b) \<le> 5" for b by (simp add: flag_text_def)
  moreover have "small (Fin (-1))" by (simp add: small_def)
  ultimately have
    "length (dec (rs_tokens st)) \<le> 20" "length (dec (rs_prompt_tokens st)) \<le> 20" "length (dec (rs_reused st)) \<le> 20"
    "length (dec (rs_max_tokens st)) \<le> 20" "length (flag_text (rs_limited st)) \<le> 5" "length (flag_text (rs_reasoning st)) \<le> 5"
    "length (flag_text (rs_no_answer st)) \<le> 5" "length (no_frac (rs_generation_ns st)) \<le> 51" "length (no_frac (rs_total_ns st)) \<le> 51"
    "length (no_frac (if first > 0 then Fin (first * 10 ^ 6) else Fin (-1))) \<le> 51" "length (no_frac (rs_first_answer_ns st)) \<le> 51"
    using assms no_frac_short by auto
  then show ?thesis unfolding done_line_def NL_def length_append list.size by linarith
qed

end
