(* ===== verification/Profile.thy ===== *)
theory Profile
  imports Observe
begin

section \<open>The profile of a model, the journal on disk and its settings (src/src/app/performance.c)\<close>

text \<open>
  What the page shows of the history: the samples of each processor that belong to one workload, their
  percentiles, and the recent replies. Then the files behind the history: a journal in two segments, the
  settings, and the start. The fields of a retained record are finite, so a value computed from them is an
  exact rational. Engines are equal when their four strings are, as the rest of their storage is zero.
\<close>

subsection \<open>Percentiles\<close>

definition percentile :: "rat list \<Rightarrow> rat \<Rightarrow> rat" where
  "percentile values q =
     (if values = [] then -1
      else
        let ys = sort values; pos = of_nat (length ys - 1) * q; i = nat \<lfloor>pos\<rfloor>
        in ys ! i + (ys ! (i + (if i + 1 < length ys then 1 else 0)) - ys ! i) * (pos - of_nat i))"

subsection \<open>A group of samples\<close>

definition reply_rate :: "perf_record \<Rightarrow> rat" where
  "reply_rate r = of_nat (r_output r) / (drat (r_generation_ns r) / 10 ^ 9)"

text \<open>The median of what is known, that is not negative.\<close>

definition agg :: "string \<Rightarrow> (perf_record \<Rightarrow> rat) \<Rightarrow> perf_record list \<Rightarrow> (app_buffer \<Rightarrow> app_buffer) list" where
  \<open>agg name f rs =
     [app_put ('',"'' @ name @ ''":''), put_number (Fin (percentile (filter (\<lambda>v. v \<ge> 0) (map f rs)) (1 / 2)))]\<close>

definition aggregate :: "perf_record list \<Rightarrow> (app_buffer \<Rightarrow> app_buffer) list" where
  \<open>aggregate rs =
     (if rs = [] then [app_put ''null'']
      else
        [app_printf (''{"count":'' @ dec (length rs) @ '',"backend":''), app_quote (r_backend (hd rs)),
         app_put '',"engine":'', app_engine_json (r_engine (hd rs))]
        @ agg ''rate'' reply_rate rs
        @ [app_put '',"q25":'', put_number (Fin (percentile (map reply_rate rs) (1 / 4))),
           app_put '',"q75":'', put_number (Fin (percentile (map reply_rate rs) (3 / 4)))]
        @ agg ''first'' (\<lambda>r. drat (r_first_ns r) / 10 ^ 9) rs
        @ agg ''first_answer'' (\<lambda>r. drat (r_first_answer_ns r) / 10 ^ 9) rs
        @ [app_printf ('',"first_answer_count":'' @ dec (length (filter (\<lambda>r. drat (r_first_answer_ns r) \<ge> 0) rs)))]
        @ agg ''total'' (\<lambda>r. drat (r_total_ns r) / 10 ^ 9) rs
        @ agg ''tokens'' (\<lambda>r. of_nat (r_output r)) rs
        @ agg ''rss_bytes'' (\<lambda>r. drat (r_rss r)) rs
        @ agg ''sampled_peak_rss'' (\<lambda>r. drat (r_peak_rss r)) rs
        @ agg ''gpu_allocated_bytes'' (\<lambda>r. if m_status (r_memory r) = 1 then drat (m_gpu_end (r_memory r)) else -1) rs
        @ agg ''gpu_sampled_peak'' (\<lambda>r. if m_gpu_samples (r_memory r) \<noteq> 0 then drat (m_gpu_peak (r_memory r)) else -1) rs
        @ [app_printf ('',"gpu_known_count":'' @ dec (length (filter (\<lambda>r. m_status (r_memory r) = 1) rs))),
           app_printf ('',"recorded_at":'' @ printf_f 0 (r_timestamp (hd rs)) @ ''}'')])\<close>

text \<open>A record whose id is empty is none.\<close>

definition no_id :: "perf_record option \<Rightarrow> bool" where
  "no_id g \<longleftrightarrow> (case g of None \<Rightarrow> True | Some r \<Rightarrow> r_id r = [])"

definition group_json :: "perf_record option \<Rightarrow> (app_buffer \<Rightarrow> app_buffer) list" where
  \<open>group_json g =
     (if no_id g then [app_put ''null'']
      else let r = the g in
        [app_printf (''{"input":'' @ dec (input_class (r_input r)) @ '',"output":'' @ dec (output_class (r_output r))
           @ '',"cached":'' @ yes_no (r_reused r > 0) @ '',"cold":'' @ yes_no (r_cold r)
           @ '',"contention":'' @ yes_no (r_contention r) @ '',"controlled":'' @ yes_no (r_source r = ''controlled_test'') @ ''}'')])\<close>

subsection \<open>The samples of a profile\<close>

text \<open>The records are looked at from the newest on. The first one that counts decides whether a comparison is
  shown and which engine; the first of each processor its workload.\<close>

record profile =
  pf_recent :: "perf_record list"
  pf_group :: "perf_record option"
  pf_comparison :: bool
  pf_run :: string
  pf_ref_cpu :: "perf_record option"
  pf_ref_gpu :: "perf_record option"
  pf_cpu :: "perf_record list"
  pf_gpu :: "perf_record list"

definition no_profile :: profile where
  "no_profile = \<lparr>pf_recent = [], pf_group = None, pf_comparison = False, pf_run = [], pf_ref_cpu = None, pf_ref_gpu = None,
     pf_cpu = [], pf_gpu = []\<rparr>"

definition decide_group :: "perf_record \<Rightarrow> profile \<Rightarrow> profile" where
  "decide_group r v =
     (if pf_group v = None then v\<lparr>pf_group := Some r, pf_comparison := (r_source r = ''controlled_test''), pf_run := fit 80 (r_run r)\<rparr>
      else v)"

definition other_run :: "profile \<Rightarrow> perf_record \<Rightarrow> bool" where
  "other_run v r \<longleftrightarrow>
     (if pf_comparison v then r_source r \<noteq> ''controlled_test'' \<or> r_run r \<noteq> pf_run v else r_source r = ''controlled_test'')
     \<or> r_engine r \<noteq> r_engine (the (pf_group v))"

definition group_sample :: "perf_record \<Rightarrow> perf_record option \<times> perf_record list \<Rightarrow> perf_record option \<times> perf_record list" where
  "group_sample r x =
     (case x of (ref, rs) \<Rightarrow>
        let ref1 = (if no_id ref then Some r else ref)
        in (ref1, if perf_group r = perf_group (the ref1) \<and> length rs < 30 then rs @ [r] else rs))"

definition profile_step :: "string \<Rightarrow> string \<Rightarrow> string \<Rightarrow> string \<Rightarrow> perf_record \<Rightarrow> profile \<Rightarrow> profile" where
  "profile_step artifact series cpu gpu r v =
     (if r_artifact r \<noteq> artifact then v
      else
        let v1 = (if length (pf_recent v) < 12 then v\<lparr>pf_recent := pf_recent v @ [r]\<rparr> else v) in
        if r_series r \<noteq> series \<or> \<not> eligible r \<or> r_contention r then v1
        else
          let v2 = decide_group r v1 in
          if other_run v2 r then v2
          else if r_backend r = cpu then
            (case group_sample r (pf_ref_cpu v2, pf_cpu v2) of (ref, rs) \<Rightarrow> v2\<lparr>pf_ref_cpu := ref, pf_cpu := rs\<rparr>)
          else if r_backend r = gpu then
            (case group_sample r (pf_ref_gpu v2, pf_gpu v2) of (ref, rs) \<Rightarrow> v2\<lparr>pf_ref_gpu := ref, pf_gpu := rs\<rparr>)
          else v2)"

definition profile_of :: "string \<Rightarrow> string \<Rightarrow> string \<Rightarrow> string \<Rightarrow> perf_record list \<Rightarrow> profile" where
  "profile_of artifact series cpu gpu records = fold (profile_step artifact series cpu gpu) (rev records) no_profile"

definition recent_json :: "string \<Rightarrow> perf_record option \<Rightarrow> nat \<Rightarrow> perf_record \<Rightarrow> (app_buffer \<Rightarrow> app_buffer) list" where
  \<open>recent_json series g i r =
     (if i > 0 then [app_put '','' ] else [])
     @ [app_put ''{"id":'', app_quote (r_id r), app_put '',"backend":'', app_quote (r_backend r),
        app_put '',"source":'', app_quote (r_source r), app_put '',"outcome":'', app_quote (r_outcome r),
        app_put '',"engine":'', app_engine_json (r_engine r),
        app_printf ('',"timestamp":'' @ printf_f 0 (r_timestamp r) @ '',"generation_ns":'' @ printf_f 0 (r_generation_ns r)
          @ '',"input":'' @ dec (r_input r) @ '',"output":'' @ dec (r_output r) @ '',"warmup":'' @ yes_no (r_warmup r)
          @ '',"contention":'' @ yes_no (r_contention r) @ '',"historical":''
          @ yes_no (r_series r \<noteq> series \<or> (\<not> no_id g \<and> r_engine r \<noteq> r_engine (the g))) @ ''}'')]\<close>

definition perf_view :: "string \<Rightarrow> string \<Rightarrow> string \<Rightarrow> string \<Rightarrow> history \<Rightarrow> app_buffer \<Rightarrow> app_buffer" where
  \<open>perf_view artifact series cpu gpu p =
     (let v = profile_of artifact series cpu gpu (p_records p) in
      stmts
       ([app_printf (''{"enabled":'' @ yes_no (p_enabled p) @ '',"days":'' @ dec (p_days p) @ '',"error":'' @ yes_no (p_error p)
           @ '',"dropped":'' @ dec (unat (p_dropped p)) @ '',"invalid":'' @ dec (unat (p_invalid p))
           @ '',"persisted":'' @ dec (unat (p_persisted p)) @ '',"retained":'' @ dec (length (p_records p))
           @ '',"pending":'' @ dec (q_len (p_queue p)) @ '',"limit":'' @ dec PERF_RECORDS @ '',"artifact":''),
         app_quote artifact, app_put '',"group":'']
        @ group_json (pf_group v)
        @ [app_put '',"cpu_group":''] @ group_json (pf_ref_cpu v)
        @ [app_put '',"gpu_group":''] @ group_json (pf_ref_gpu v)
        @ [app_put '',"cpu":''] @ aggregate (pf_cpu v)
        @ [app_put '',"gpu":''] @ aggregate (pf_gpu v)
        @ [app_put '',"recent":[''] 
        @ concat (map (\<lambda>i. recent_json series (pf_group v) i (pf_recent v ! i)) [0..<length (pf_recent v)])
        @ [app_put '']}'']))\<close>

subsection \<open>An earlier build\<close>

text \<open>The newest speeds, CPU and GPU, under another series, and the version of the newest such record. A
  processor whose name starts with \<open>cpu\<close> is the CPU.\<close>

definition earlier_match :: "string \<Rightarrow> string \<Rightarrow> perf_record \<Rightarrow> bool" where
  "earlier_match artifact series r \<longleftrightarrow>
     r_artifact r = artifact \<and> r_series r \<noteq> series \<and> r_outcome r = ''completed'' \<and> r_output r > 0
     \<and> dlt (Fin 0) (r_generation_ns r) \<and> \<not> r_warmup r"

definition perf_earlier :: "string \<Rightarrow> string \<Rightarrow> history \<Rightarrow> bool \<times> rat \<times> rat \<times> string" where
  "perf_earlier artifact series p =
     fold (\<lambda>r (found, c, g, version).
        if \<not> earlier_match artifact series r then (found, c, g, version)
        else
          let on_cpu = (take 3 (r_backend r) = ''cpu'')
          in (True, if on_cpu \<and> c = 0 then reply_rate r else c, if \<not> on_cpu \<and> g = 0 then reply_rate r else g,
              if found then version else fit 64 (e_version (r_engine r))))
       (rev (p_records p)) (False, 0, 0, [])"

subsection \<open>The journal on disk\<close>

text \<open>The two segments, \<open>observations.1.jsonl\<close> and \<open>observations.jsonl\<close>, each a text or not there. \<open>opened\<close> is
  whether a private file could be opened, \<open>renamed\<close>, \<open>created\<close> and \<open>synced\<close> what a rotation is answered, and
  \<open>written\<close> how many bytes of the line were taken before a write failed, if one did.\<close>

record segments =
  sg_previous :: "string option"
  sg_current :: "string option"

record append_help =
  ah_opened :: bool
  ah_stat :: bool
  ah_renamed :: bool
  ah_created :: bool
  ah_synced :: bool
  ah_written :: "nat option"
  ah_flushed :: bool

definition line_of :: "perf_record \<Rightarrow> string option" where
  "line_of r = (let b = record_json r \<lparr>b_data = [], b_len = 0, b_cap = LINE_CAP, b_failed = False\<rparr>
                in if b_failed b then None else Some (take (b_len b) (b_data b)))"

definition put_line :: "append_help \<Rightarrow> string \<Rightarrow> segments \<Rightarrow> bool \<times> segments" where
  "put_line h line s =
     (case ah_written h of
        None \<Rightarrow> (ah_flushed h, s\<lparr>sg_current := Some ((case sg_current s of None \<Rightarrow> [] | Some t \<Rightarrow> t) @ line)\<rparr>)
      | Some n \<Rightarrow> (False, s\<lparr>sg_current := Some ((case sg_current s of None \<Rightarrow> [] | Some t \<Rightarrow> t) @ take n line)\<rparr>))"

definition append_record :: "append_help \<Rightarrow> perf_record \<Rightarrow> segments \<Rightarrow> bool \<times> segments" where
  "append_record h r s =
     (case line_of r of
        None \<Rightarrow> (False, s)
      | Some line \<Rightarrow>
          if \<not> ah_opened h then (False, s)
          else
            let cur = (case sg_current s of None \<Rightarrow> [] | Some t \<Rightarrow> t); s1 = s\<lparr>sg_current := Some cur\<rparr> in
            if \<not> ah_stat h then (False, s1)
            else if length cur + length line > SEGMENT_BYTES then
              (if \<not> ah_renamed h then (False, s1)
               else if \<not> ah_created h then (False, \<lparr>sg_previous = Some cur, sg_current = None\<rparr>)
               else
                 let s2 = \<lparr>sg_previous = Some cur, sg_current = Some []\<rparr>
                 in if ah_synced h then put_line h line s2 else (False, s2))
            else put_line h line s1)"

text \<open>A file is replaced by its new text at once, or not at all; \<open>done\<close> is whether it was.\<close>

definition settings_text :: "bool \<Rightarrow> nat \<Rightarrow> bool \<Rightarrow> string" where
  \<open>settings_text enabled days deleted =
     ''{"schema":1,"enabled":'' @ yes_no enabled @ '',"days":'' @ dec days @ '',"legacy_deleted":'' @ yes_no deleted @ ''}'' @ [CHR 0x0A]\<close>

subsection \<open>The start\<close>

text \<open>The settings that are found: nothing to read, a file that is refused, or a text.\<close>

definition read_settings :: "opened \<Rightarrow> history \<Rightarrow> history" where
  "read_settings file p =
     (case file of
        Missing \<Rightarrow> p
      | Refused \<Rightarrow> p\<lparr>p_enabled := False, p_error := True\<rparr>
      | Content text \<Rightarrow>
          (case json_parse (take 255 text) of
             None \<Rightarrow> p\<lparr>p_enabled := False, p_error := True\<rparr>
           | Some j \<Rightarrow>
               let p1 = p\<lparr>p_legacy_deleted := json_bool j (json_get j 0 ''legacy_deleted'') False,
                          p_enabled := json_bool j (json_get j 0 ''enabled'') False\<rparr>;
                   days = json_num j (json_get j 0 ''days'') (Fin 90)
               in if days \<in> {Fin 30, Fin 90, Fin 365} then p1\<lparr>p_days := nat \<lfloor>drat days\<rfloor>\<rparr> else p1\<lparr>p_error := True\<rparr>))"

text \<open>The static state before the start, and what the system answers: whether the directory is usable, what was
  left of interrupted writes (\<open>stale\<close>: one could not be removed), the files, the random number of this
  start, and whether the writer's thread was created. \<open>wrote\<close> is whether a compaction succeeded, \<open>replaced\<close> how many
  segments one that failed replaced before it did; \<open>tail\<close> is whether the current segment could be opened again for the seal, and \<open>sealed\<close> whether
  the newline a torn tail needs could be written.\<close>

definition history_before :: history where
  "history_before =
     \<lparr>p_started = False, p_closing = False, p_enabled = True, p_error = False, p_legacy_deleted = False, p_expired = False,
      p_compacted = 0, p_days = 90, p_epoch = 1, p_sequence = 0, p_dropped = 0, p_persisted = 0, p_invalid = 0, p_boot = 0,
      p_records = [], p_queue = \<lparr>q_slots = replicate PERF_QUEUE zero_record, q_head = 0, q_len = 0\<rparr>\<rparr>"

text \<open>A torn tail is sealed with a newline.\<close>

definition seal_tail :: "segments \<Rightarrow> segments" where
  "seal_tail s =
     (case sg_current s of
        Some t \<Rightarrow> if t \<noteq> [] \<and> last t \<noteq> CHR 0x0A then s\<lparr>sg_current := Some (t @ [CHR 0x0A])\<rparr> else s
      | None \<Rightarrow> s)"

record init_help =
  in_dir :: bool
  in_stale :: bool
  in_settings :: opened
  in_previous :: opened
  in_current :: opened
  in_wrote :: bool
  in_replaced :: nat
  in_tail :: bool
  in_sealed :: bool
  in_random :: "u64 option"
  in_fallback :: u64
  in_thread :: bool

definition perf_init :: "int \<Rightarrow> init_help \<Rightarrow> history \<Rightarrow> history" where
  "perf_init tm h p =
     (let p1 = (if \<not> in_dir h \<or> in_stale h then p\<lparr>p_error := True\<rparr> else p);
          p2 = load tm (in_current h) (load tm (in_previous h) (read_settings (in_settings h) p1));
          p3 = (if p_expired p2 then
                  (case compact_history tm (in_wrote h) p2 of (None, q) \<Rightarrow> q\<lparr>p_error := True\<rparr> | (Some _, q) \<Rightarrow> q) else p2);
          p4 = p3\<lparr>p_compacted := tm, p_error := (p_error p3 \<or> in_tail h \<and> \<not> in_sealed h)\<rparr>;
          boot = (case in_random h of None \<Rightarrow> 0 | Some b \<Rightarrow> b)
      in p4\<lparr>p_boot := (if boot = 0 then in_fallback h else boot), p_started := in_thread h,
            p_error := (p_error p4 \<or> \<not> in_thread h)\<rparr>)"

text \<open>What the same call leaves on the disk: the segments of a compaction, replaced one after the other, and the seal.\<close>

definition compacted_segments :: "nat \<Rightarrow> (string \<times> string) option \<Rightarrow> segments \<Rightarrow> segments" where
  "compacted_segments replaced res s =
     (case res of
        None \<Rightarrow> s
      | Some (old, new) \<Rightarrow>
          if replaced = 0 then s
          else if replaced = 1 then s\<lparr>sg_previous := Some old\<rparr>
          else \<lparr>sg_previous = Some old, sg_current = Some new\<rparr>)"

definition init_segments :: "int \<Rightarrow> init_help \<Rightarrow> history \<Rightarrow> segments \<Rightarrow> segments" where
  "init_segments tm h p s =
     (let p1 = (if \<not> in_dir h \<or> in_stale h then p\<lparr>p_error := True\<rparr> else p);
          p2 = load tm (in_current h) (load tm (in_previous h) (read_settings (in_settings h) p1));
          s1 = (if p_expired p2 then
                  compacted_segments (if in_wrote h then 2 else in_replaced h) (fst (compact_history tm True p2)) s
                else s)
      in if in_tail h \<and> in_sealed h then seal_tail s1 else s1)"

text \<open>The end: the writer is told, and joined.\<close>

definition perf_close :: "history \<Rightarrow> history" where
  "perf_close p = p\<lparr>p_closing := True\<rparr>"

end
