(* ===== verification/ProfileFacts.thy ===== *)
theory ProfileFacts
  imports Profile "HOL-Library.Multiset"
begin

section \<open>What the profile is, and what the journal keeps\<close>

text \<open>
  The one pass over the records is the list of the records that count, filtered; a percentile lies between
  its neighbours in the sorted values; a segment of the journal stays within its bound and an append
  loses nothing but a whole previous segment.
\<close>

subsection \<open>Percentiles\<close>

lemma percentile_rank:
  fixes q :: rat
  assumes "values \<noteq> []" and "0 \<le> q" and "q \<le> 1"
  obtains i where "i < length values" and "of_nat i \<le> of_nat (length values - 1) * q"
    and "of_nat (length values - 1) * q < of_nat i + 1"
    and "sort values ! i \<le> percentile values q"
    and "Suc i < length values \<Longrightarrow> percentile values q \<le> sort values ! Suc i"
    and "of_nat (length values - 1) * q = of_nat i \<Longrightarrow> percentile values q = sort values ! i"
proof -
  let ?ys = "sort values" and ?pos = "of_nat (length values - 1) * q"
  define i where "i = nat \<lfloor>?pos\<rfloor>"
  have pos: "0 \<le> ?pos" "?pos \<le> of_nat (length values - 1)"
    using assms(2,3) by (simp_all add: mult_left_le)
  then have i: "of_nat i \<le> ?pos" "?pos < of_nat i + 1"
    unfolding i_def by (simp_all add: of_nat_nat floor_less_iff) linarith
  then have le: "i \<le> length values - 1" using pos(2) by (metis (no_types, lifting) order_trans of_nat_le_iff)
  then have len: "i < length values" using assms(1) by (cases "values") auto
  let ?f = "?pos - of_nat i"
  have f: "0 \<le> ?f" "?f \<le> 1" using i by simp_all
  have p: "percentile values q = ?ys ! i + (?ys ! (i + (if i + 1 < length values then 1 else 0)) - ?ys ! i) * ?f"
    unfolding percentile_def Let_def length_sort i_def [symmetric] by (simp only: if_False assms(1))
  show thesis
  proof (rule that [OF len i])
    have up: "?ys ! i \<le> ?ys ! (i + (if i + 1 < length values then 1 else 0))"
      using len by (intro sorted_nth_mono) auto
    then show "?ys ! i \<le> percentile values q" using f by (simp add: p)
    show "percentile values q \<le> ?ys ! Suc i" if "Suc i < length values"
    proof -
      have "(?ys ! Suc i - ?ys ! i) * ?f \<le> ?ys ! Suc i - ?ys ! i" using up that f(2) by (intro mult_left_le) auto
      then show ?thesis using that by (simp add: p)
    qed
    show "percentile values q = ?ys ! i" if "?pos = of_nat i" using that by (simp add: p del: of_nat_mult)
  qed
qed

text \<open>At most half of the values are below the median, and at most half above it.\<close>

lemma sorted_below: "sorted ys \<Longrightarrow> i < length ys \<Longrightarrow> ys ! i \<le> m \<Longrightarrow> length (filter (\<lambda>v. m < v) ys) \<le> length ys - Suc i"
proof -
  assume s: "sorted ys" and i: "i < length ys" "ys ! i \<le> (m :: 'a :: linorder)"
  have "filter (\<lambda>v. m < v) (take (Suc i) ys) = []"
  proof (rule filter_False, rule ballI)
    fix v assume "v \<in> set (take (Suc i) ys)"
    then obtain k where "k \<le> i" "v = ys ! k" by (auto simp: in_set_conv_nth less_Suc_eq_le)
    with s i show "\<not> m < v" using sorted_nth_mono [OF s, of k i] by auto
  qed
  then have "filter (\<lambda>v. m < v) ys = filter (\<lambda>v. m < v) (drop (Suc i) ys)"
    by (metis append_Nil append_take_drop_id filter_append)
  then show ?thesis by (metis length_drop length_filter_le)
qed

lemma sorted_above: "sorted ys \<Longrightarrow> i < length ys \<Longrightarrow> m \<le> ys ! i \<Longrightarrow> length (filter (\<lambda>v. v < m) ys) \<le> i"
proof -
  assume s: "sorted ys" and i: "i < length ys" "(m :: 'a :: linorder) \<le> ys ! i"
  have "filter (\<lambda>v. v < m) (drop i ys) = []"
  proof (rule filter_False, rule ballI)
    fix v assume "v \<in> set (drop i ys)"
    then obtain k where "k < length ys - i" "v = drop i ys ! k" by (auto simp: in_set_conv_nth)
    then have "i + k < length ys" "v = ys ! (i + k)" by auto
    with s i show "\<not> v < m" using sorted_nth_mono [OF s, of i "i + k"] by auto
  qed
  then have "filter (\<lambda>v. v < m) ys = filter (\<lambda>v. v < m) (take i ys)"
    by (metis append_Nil2 append_take_drop_id filter_append)
  then show ?thesis by (metis length_filter_le length_take min.cobounded2 order_trans)
qed

lemma filter_sort_length: "length (filter P (sort xs)) = length (filter P xs)"
proof -
  have "mset (filter P (sort xs)) = mset (filter P xs)" by (simp add: mset_filter)
  then show ?thesis by (metis size_mset)
qed

lemma median_splits:
  assumes "values \<noteq> []"
  shows "2 * length (filter (\<lambda>v. v < percentile values (1 / 2)) values) \<le> length values
       \<and> 2 * length (filter (\<lambda>v. percentile values (1 / 2) < v) values) \<le> length values"
proof -
  let ?m = "percentile values (1 / 2)" and ?n = "length values"
  obtain i where i: "i < ?n" "of_nat i \<le> of_nat (?n - 1) * (1 / 2 :: rat)" "of_nat (?n - 1) * (1 / 2 :: rat) < of_nat i + 1"
    "sort values ! i \<le> ?m" "Suc i < ?n \<Longrightarrow> ?m \<le> sort values ! Suc i" "of_nat (?n - 1) * (1 / 2 :: rat) = of_nat i \<Longrightarrow> ?m = sort values ! i"
    by (rule percentile_rank [OF assms, of "1 / 2"]) simp_all
  have "of_nat (2 * i) \<le> (of_nat (?n - 1) :: rat)" "(of_nat (?n - 1) :: rat) < of_nat (2 * i + 2)"
    using i(2,3) by (simp_all add: field_simps)
  then have n: "2 * i \<le> ?n - 1" "?n - 1 < 2 * i + 2" unfolding of_nat_le_iff of_nat_less_iff .
  have below: "length (filter (\<lambda>v. v < ?m) (sort values)) \<le> (if ?n = 2 * i + 1 then i else Suc i)"
  proof (cases "?n = 2 * i + 1")
    case True
    have "?m = sort values ! i" by (rule i(6)) (simp add: True)
    then show ?thesis using True sorted_above [of "sort values" i ?m] i(1) by simp
  next
    case False
    then have "Suc i < ?n" using n i(1) by linarith
    with i(5) False sorted_above [of "sort values" "Suc i" ?m] show ?thesis by simp
  qed
  have above: "length (filter (\<lambda>v. ?m < v) (sort values)) \<le> ?n - Suc i"
    using sorted_below [of "sort values" i ?m] i(1,4) by simp
  show ?thesis using below above n i(1) by (auto simp: filter_sort_length split: if_splits)
qed

subsection \<open>The samples\<close>

text \<open>The records that count for a profile, newest first; those of the same engine, and of the same comparison if
  the newest is of one; and of these the ones of the first one's workload, at most 30.\<close>

definition usable :: "string \<Rightarrow> string \<Rightarrow> perf_record \<Rightarrow> bool" where
  "usable artifact series r \<longleftrightarrow> r_artifact r = artifact \<and> r_series r = series \<and> eligible r \<and> \<not> r_contention r"

definition same_view :: "perf_record \<Rightarrow> perf_record \<Rightarrow> bool" where
  "same_view g r \<longleftrightarrow>
     (if r_source g = ''controlled_test'' then r_source r = ''controlled_test'' \<and> r_run r = fit 80 (r_run g)
      else r_source r \<noteq> ''controlled_test'')
     \<and> r_engine r = r_engine g"

definition one_workload :: "perf_record list \<Rightarrow> perf_record list" where
  "one_workload rs = take 30 (filter (\<lambda>r. perf_group r = perf_group (hd rs)) rs)"

definition first_of :: "'a list \<Rightarrow> 'a option" where
  "first_of xs = (if xs = [] then None else Some (hd xs))"

text \<open>The records of one processor that a profile may use.\<close>

definition of_processor :: "string \<Rightarrow> string \<Rightarrow> (string \<Rightarrow> bool) \<Rightarrow> perf_record list \<Rightarrow> perf_record list" where
  "of_processor artifact series on xs =
     (let us = filter (usable artifact series) xs in filter (\<lambda>r. same_view (hd us) r \<and> on (r_backend r)) us)"

lemma hd_append1: "hd (xs @ [x]) = (if xs = [] then x else hd xs)"
  by (cases xs) auto

lemma sample_of_first:
  assumes "\<forall>r \<in> set rs. r_id r \<noteq> []" and "r_id r \<noteq> []"
  shows "group_sample r (first_of rs, one_workload rs) = (first_of (rs @ [r]), one_workload (rs @ [r]))"
proof -
  have t: "take 30 (xs @ [x]) = (if length xs < 30 then take 30 xs @ [x] else take 30 xs)" for xs and x :: perf_record
    by (auto simp: not_less)
  show ?thesis
    using assms by (cases rs) (auto simp: group_sample_def first_of_def one_workload_def no_id_def t Let_def)
qed

lemma of_processor_snoc:
  "of_processor artifact series on (xs @ [r]) =
     (if \<not> usable artifact series r then of_processor artifact series on xs
      else let g = hd (filter (usable artifact series) xs @ [r])
           in if same_view g r \<and> on (r_backend r) then of_processor artifact series on xs @ [r]
              else of_processor artifact series on xs)"
proof (cases "filter (usable artifact series) xs = []")
  case True
  then show ?thesis by (simp add: of_processor_def Let_def)
next
  case False
  then show ?thesis by (simp add: of_processor_def Let_def)
qed

definition profile_spec :: "string \<Rightarrow> string \<Rightarrow> string \<Rightarrow> string \<Rightarrow> perf_record list \<Rightarrow> profile" where
  "profile_spec artifact series cpu gpu xs =
     (let us = filter (usable artifact series) xs;
          cs = of_processor artifact series (\<lambda>b. b = cpu) xs; gs = of_processor artifact series (\<lambda>b. b \<noteq> cpu \<and> b = gpu) xs
      in \<lparr>pf_recent = take 12 (filter (\<lambda>r. r_artifact r = artifact) xs), pf_group = first_of us,
          pf_comparison = (us \<noteq> [] \<and> r_source (hd us) = ''controlled_test''),
          pf_run = (if us = [] then [] else fit 80 (r_run (hd us))), pf_ref_cpu = first_of cs, pf_ref_gpu = first_of gs,
          pf_cpu = one_workload cs, pf_gpu = one_workload gs\<rparr>)"

lemma profile_step_spec:
  assumes "\<forall>x \<in> set xs. r_id x \<noteq> []" and "r_id r \<noteq> []"
  shows "profile_step artifact series cpu gpu r (profile_spec artifact series cpu gpu xs) = profile_spec artifact series cpu gpu (xs @ [r])"
proof -
  let ?us = "filter (usable artifact series) xs" and ?P = "profile_spec artifact series cpu gpu"
  define cs where "cs = of_processor artifact series (\<lambda>b. b = cpu) xs"
  define gs where "gs = of_processor artifact series (\<lambda>b. b \<noteq> cpu \<and> b = gpu) xs"
  have sub: "\<forall>x \<in> set cs. r_id x \<noteq> []" "\<forall>x \<in> set gs. r_id x \<noteq> []"
    using assms(1) by (auto simp: cs_def gs_def of_processor_def Let_def)
  have rec: "(if length (take 12 ys) < 12 then take 12 ys @ [r] else take 12 ys) = take 12 (ys @ [r])" for ys :: "perf_record list"
    by (auto simp: not_less)
  note snoc = of_processor_snoc [of artifact series _ xs r]
  show ?thesis
  proof (cases "usable artifact series r")
    case False
    then have u: "r_artifact r \<noteq> artifact \<or> r_series r \<noteq> series \<or> \<not> eligible r \<or> r_contention r" by (auto simp: usable_def)
    show ?thesis
    proof (cases "r_artifact r = artifact")
      case True
      with u False show ?thesis
        using rec [of "filter (\<lambda>r. r_artifact r = artifact) xs"]
        by (auto simp: profile_step_def profile_spec_def Let_def snoc)
    next
      case no: False
      with False show ?thesis by (simp add: profile_step_def profile_spec_def Let_def snoc)
    qed
  next
    case True
    define v1 where "v1 = (?P xs)\<lparr>pf_recent := take 12 (filter (\<lambda>r. r_artifact r = artifact) (xs @ [r]))\<rparr>"
    define g where "g = hd (?us @ [r])"
    have art: "r_artifact r = artifact" using True by (simp add: usable_def)
    have v1: "(if length (pf_recent (?P xs)) < 12 then (?P xs)\<lparr>pf_recent := pf_recent (?P xs) @ [r]\<rparr> else ?P xs) = v1"
      using rec [of "filter (\<lambda>r. r_artifact r = artifact) xs"] art by (auto simp: v1_def profile_spec_def Let_def)
    define v2 where "v2 = decide_group r v1"
    have v2: "v2 = v1\<lparr>pf_group := Some g, pf_comparison := (r_source g = ''controlled_test''), pf_run := fit 80 (r_run g)\<rparr>"
      by (cases "?us = []") (simp_all add: v2_def v1_def decide_group_def profile_spec_def Let_def first_of_def g_def hd_append1)
    have other: "other_run v2 r \<longleftrightarrow> \<not> same_view g r"
      by (auto simp: v2 other_run_def same_view_def)
    have step: "profile_step artifact series cpu gpu r (?P xs) =
        (if other_run v2 r then v2
          else if r_backend r = cpu then
            (case group_sample r (pf_ref_cpu v2, pf_cpu v2) of (ref, rs) \<Rightarrow> v2\<lparr>pf_ref_cpu := ref, pf_cpu := rs\<rparr>)
          else if r_backend r = gpu then
            (case group_sample r (pf_ref_gpu v2, pf_gpu v2) of (ref, rs) \<Rightarrow> v2\<lparr>pf_ref_gpu := ref, pf_gpu := rs\<rparr>)
          else v2)"
      using True unfolding profile_step_def Let_def v1 v2_def [symmetric] by (simp add: usable_def)
    have refs: "pf_ref_cpu v2 = first_of cs" "pf_cpu v2 = one_workload cs" "pf_ref_gpu v2 = first_of gs" "pf_gpu v2 = one_workload gs"
      by (simp_all add: v2 v1_def profile_spec_def Let_def cs_def gs_def)
    have new: "?P (xs @ [r]) = v2\<lparr>pf_ref_cpu := first_of (if same_view g r \<and> r_backend r = cpu then cs @ [r] else cs),
        pf_cpu := one_workload (if same_view g r \<and> r_backend r = cpu then cs @ [r] else cs),
        pf_ref_gpu := first_of (if same_view g r \<and> r_backend r \<noteq> cpu \<and> r_backend r = gpu then gs @ [r] else gs),
        pf_gpu := one_workload (if same_view g r \<and> r_backend r \<noteq> cpu \<and> r_backend r = gpu then gs @ [r] else gs)\<rparr>"
      using True by (simp add: profile_spec_def snoc Let_def v2 v1_def cs_def gs_def g_def first_of_def hd_append1)
    show ?thesis
      unfolding step new other refs sample_of_first [OF sub(1) assms(2)] sample_of_first [OF sub(2) assms(2)]
      by (auto simp: refs [symmetric])
  qed
qed

lemma profile_of_spec:
  assumes "\<forall>r \<in> set records. r_id r \<noteq> []"
  shows "profile_of artifact series cpu gpu records = profile_spec artifact series cpu gpu (rev records)"
proof -
  have "fold (profile_step artifact series cpu gpu) xs no_profile = profile_spec artifact series cpu gpu xs"
    if "\<forall>x \<in> set xs. r_id x \<noteq> []" for xs
    using that
  proof (induction xs rule: rev_induct)
    case Nil
    show ?case by (simp add: no_profile_def profile_spec_def Let_def of_processor_def first_of_def one_workload_def)
  next
    case (snoc r xs)
    then show ?case using profile_step_spec [of xs r] by simp
  qed
  with assms show ?thesis by (simp add: profile_of_def)
qed

subsection \<open>The journal\<close>

definition journal_text :: "string option \<Rightarrow> string" where
  "journal_text t = (case t of None \<Rightarrow> [] | Some s \<Rightarrow> s)"

lemma line_of_record:
  assumes "journal_ok tm days r" and "r_schema r \<noteq> 1"
  shows "line_of r = Some (journal_line r)"
proof -
  let ?b = "\<lparr>b_data = [], b_len = 0, b_cap = LINE_CAP, b_failed = False\<rparr>"
  have b: "buf_ok ?b" by (simp add: buf_ok_def LINE_CAP_def)
  have w: "writes (record_json r) (journal_line r)"
    using writes_record assms unfolding journal_line_def journal_ok_def by blast
  have "length (journal_line r) < LINE_CAP"
    using assms(1) by (simp add: journal_ok_def journal_line_def LINE_CAP_def del: render.simps)
  then have f: "\<not> b_failed (record_json r ?b)" using writesD(3) [OF w b] by simp
  from writesD(4) [OF w b f] f show ?thesis by (simp add: line_of_def Let_def)
qed

text \<open>Reading goes on behind a newline, whatever is before it.\<close>

lemma fgets_take: "\<exists>k > 0. fgets_line t = take k t \<and> (CHR 0x0A \<in> set t \<longrightarrow> fgets_line (t @ s) = take k t)"
proof (cases "CHR 0x0A \<in> set t")
  case True
  then obtain l cs where t: "t = l @ CHR 0x0A # cs" "CHR 0x0A \<notin> set l" by (metis split_list_first)
  have w: "takeWhile (\<lambda>c. c \<noteq> CHR 0x0A) (l @ CHR 0x0A # r) = l" for r using t(2) by (induction l) auto
  have "fgets_line (l @ CHR 0x0A # r) = take (min (LINE_CAP - 1) (Suc (length l))) (l @ CHR 0x0A # cs)" for r
    unfolding fgets_line_def w Let_def by (simp add: LINE_CAP_def min_def take_Cons')
  then show ?thesis using t(1) by (intro exI [of _ "min (LINE_CAP - 1) (Suc (length l))"]) (auto simp: LINE_CAP_def)
next
  case False
  then have "takeWhile (\<lambda>c. c \<noteq> CHR 0x0A) t = t" by (auto simp: takeWhile_eq_all_conv)
  then have "fgets_line t = take (LINE_CAP - 1) t" unfolding fgets_line_def Let_def by (simp only: if_False less_irrefl)
  with False show ?thesis by (intro exI [of _ "LINE_CAP - 1"]) (simp add: LINE_CAP_def)
qed

lemma load_lines_append:
  "t \<noteq> [] \<Longrightarrow> last t = CHR 0x0A \<Longrightarrow> NUL \<notin> set t \<Longrightarrow> load_lines tm d (t @ s) p = load_lines tm False s (load_lines tm d t p)"
proof (induction "length t" arbitrary: t d p rule: less_induct)
  case less
  have nl: "CHR 0x0A \<in> set t" using less.prems by (metis last_in_set)
  obtain k where k: "k > 0" "fgets_line t = take k t" "fgets_line (t @ s) = take k t" using fgets_take [of t s] nl by blast
  let ?c = "take k t"
  have c: "cstr ?c = ?c" using less.prems(3) by (intro cstr_id) (meson in_set_takeD)
  have rest: "drop (length ?c) (t @ s) = drop (length ?c) t @ s" by simp
  have step: "load_lines tm d' (drop (length ?c) t @ s) p' = load_lines tm False s (load_lines tm d' (drop (length ?c) t) p')"
    if "drop (length ?c) t = [] \<Longrightarrow> \<not> d'" for d' p'
  proof (cases "drop (length ?c) t = []")
    case True
    have "load_lines tm False [] p' = p'" by (simp add: load_lines.simps)
    then show ?thesis using that [OF True] by (simp only: True append_Nil simp_thms)
  next
    case False
    moreover have "last (drop (length ?c) t) = CHR 0x0A" using less.prems(2) False by (metis append_take_drop_id last_appendR)
    moreover have "NUL \<notin> set (drop (length ?c) t)" using less.prems(3) by (meson in_set_dropD)
    moreover have "length (drop (length ?c) t) < length t" using k(1) less.prems(1) by (cases t) auto
    ultimately show ?thesis using less.hyps by blast
  qed
  have whole: "CHR 0x0A \<in> set ?c" if r: "drop (length ?c) t = []"
  proof -
    from r have "length t \<le> length ?c" by (simp only: drop_eq_Nil)
    then have "?c = t" by (simp only: length_take take_all_iff)
    with nl show ?thesis by (simp only:)
  qed
  have ne: "\<not> t @ s = []" using less.prems(1) by (simp only: append_is_Nil_conv simp_thms)
  let ?nl = "CHR 0x0A \<in> set ?c" and ?r = "drop (length ?c) t"
  have whole1: "?r = [] \<Longrightarrow> \<not> \<not> ?nl" using whole by simp
  define q where "q = (\<lambda>r. if known (r_id r) p then p
      else (retain tm r p)\<lparr>p_persisted := p_persisted (retain tm r p) + 1\<rparr>)"
  define next_of where "next_of = (if d then (\<not> ?nl, p) else if \<not> ?nl then (True, p\<lparr>p_invalid := p_invalid p + 1\<rparr>)
      else case perf_parse tm ?c of None \<Rightarrow> (False, p\<lparr>p_invalid := p_invalid p + 1\<rparr>) | Some r \<Rightarrow> (False, q r))"
  have next1: "load_lines tm d (t @ s) p = load_lines tm (fst next_of) (?r @ s) (snd next_of)"
    unfolding load_lines.simps [of tm d "t @ s"] Let_def k(3) c rest if_not_P [OF ne] next_of_def q_def
    by (cases d; cases ?nl; cases "perf_parse tm ?c") (simp_all only: simp_thms if_True if_False option.case fst_conv snd_conv)
  have next2: "load_lines tm d t p = load_lines tm (fst next_of) ?r (snd next_of)"
    unfolding load_lines.simps [of tm d t] Let_def k(2) c if_not_P [OF less.prems(1)] next_of_def q_def
    by (cases d; cases ?nl; cases "perf_parse tm ?c") (simp_all only: simp_thms if_True if_False option.case fst_conv snd_conv)
  have "?r = [] \<Longrightarrow> \<not> fst next_of"
    using whole1 unfolding next_of_def by (cases d; cases "perf_parse tm ?c") simp_all
  from step [OF this] show ?case by (simp only: next1 next2)
qed

lemma retain_known:
  assumes "dle (cutoff tm (p_days p)) (r_timestamp r)"
  shows "known (r_id r) (retain tm r p)"
proof -
  have "\<not> dlt (r_timestamp r) (cutoff tm (p_days p))"
    using assms by (cases "r_timestamp r") (auto simp: cutoff_def dle_def)
  then show ?thesis by (auto simp: retain_def Let_def known_def)
qed

lemma load_lines_days [simp]: "p_days (load_lines tm d t p) = p_days p"
  by (induction tm d t p rule: load_lines.induct)
    (subst load_lines.simps, auto simp: Let_def retain_def split: option.split)

text \<open>The line of an observation, read behind whole lines.\<close>

lemma line_loaded:
  assumes "journal_ok tm (p_days p) r"
  shows "known (r_id r) (load_lines tm False (journal_line r) p)"
proof -
  note f = fgets_journal_line(1) [OF assms, of "[]"] fgets_journal_line(2) [OF assms]
  have parse: "perf_parse tm (journal_line r) = Some (journaled_record r)"
    using assms record_read_back unfolding journal_ok_def journal_line_def by blast
  have "CHR 0x0A \<in> set (journal_line r)" "journal_line r \<noteq> []" by (simp_all add: journal_line_def del: render.simps)
  then have "load_lines tm False (journal_line r) p =
      (if known (r_id r) p then p else (retain tm (journaled_record r) p)\<lparr>p_persisted := p_persisted (retain tm (journaled_record r) p) + 1\<rparr>)"
    using f parse by (subst load_lines.simps) (simp add: Let_def journaled_frame load_lines.simps [of tm False "[]"])
  then show ?thesis
    using retain_known [of tm p "journaled_record r"] journaled_cutoff [OF assms] by (auto simp: journaled_frame known_def)
qed

text \<open>Behind a sealed file a line begins at its own first byte.\<close>

lemma sealed_line_loaded:
  assumes "t = [] \<or> last t = CHR 0x0A" and "NUL \<notin> set t" and "journal_ok tm (p_days p) r"
  shows "known (r_id r) (load_lines tm False (t @ journal_line r) p)"
proof (cases "t = []")
  case True
  then show ?thesis using line_loaded [OF assms(3)] by simp
next
  case False
  then show ?thesis using assms load_lines_append [of t tm False] line_loaded [of tm "load_lines tm False t p" r] by simp
qed

lemma sealed_text: "(case sg_current (seal_tail s) of None \<Rightarrow> True | Some t \<Rightarrow> t = [] \<or> last t = CHR 0x0A)"
  by (auto simp: seal_tail_def split: option.split)

lemma sealed_no_nul:
  "NUL \<notin> set (journal_text (sg_current s)) \<Longrightarrow> NUL \<notin> set (journal_text (sg_current (seal_tail s)))"
  by (auto simp: seal_tail_def journal_text_def split: option.split)

text \<open>A successful append leaves the line whole, alone in a new segment or behind the sealed text.\<close>

lemma append_record_text:
  assumes "append_record h r s = (True, s1)" and "line_of r = Some line" and "length line \<le> SEGMENT_BYTES"
  shows "\<exists>t. (t = [] \<or> t = journal_text (sg_current s)) \<and> sg_current s1 = Some (t @ line) \<and> length (t @ line) \<le> SEGMENT_BYTES"
proof -
  have put: "put_line h line q = (True, s1) \<Longrightarrow> sg_current s1 = Some (journal_text (sg_current q) @ line)" for q
    by (auto simp: put_line_def journal_text_def split: option.splits)
  define cur where "cur = journal_text (sg_current s)"
  have a: "append_record h r s =
      (if \<not> ah_opened h then (False, s)
       else let s1 = s\<lparr>sg_current := Some cur\<rparr> in
         if \<not> ah_stat h then (False, s1)
         else if length cur + length line > SEGMENT_BYTES then
           (if \<not> ah_renamed h then (False, s1)
            else if \<not> ah_created h then (False, \<lparr>sg_previous = Some cur, sg_current = None\<rparr>)
            else if ah_synced h then put_line h line \<lparr>sg_previous = Some cur, sg_current = Some []\<rparr>
              else (False, \<lparr>sg_previous = Some cur, sg_current = Some []\<rparr>))
         else put_line h line s1)"
    unfolding append_record_def cur_def journal_text_def by (simp only: assms(2) option.case Let_def)
  show ?thesis
  proof (cases "length cur + length line > SEGMENT_BYTES")
    case True
    then have "put_line h line \<lparr>sg_previous = Some cur, sg_current = Some []\<rparr> = (True, s1)"
      using assms(1) unfolding a by (auto simp: Let_def split: if_splits)
    from put [OF this] show ?thesis using assms(3) by (simp add: journal_text_def)
  next
    case False
    then have "put_line h line (s\<lparr>sg_current := Some cur\<rparr>) = (True, s1)"
      using assms(1) unfolding a by (auto simp: Let_def split: if_splits)
    from put [OF this] show ?thesis using False by (auto simp: journal_text_def cur_def)
  qed
qed

text \<open>A torn tail that ends in a zero byte, as a crash may leave it, is sealed as well; but \<open>strchr\<close> does not
  find the newline behind the zero, so what is read next counts as the rest of the same line: the observation
  that was appended behind the seal is dropped.\<close>

lemma zero_tail_loses_next:
  assumes "journal_ok tm days r"
  shows "load_lines tm False ([NUL, CHR 0x0A] @ journal_line r) p = p\<lparr>p_invalid := p_invalid p + 1\<rparr>"
proof -
  have c: "fgets_line ([NUL, CHR 0x0A] @ journal_line r) = [NUL, CHR 0x0A]"
    by (simp add: fgets_line_def Let_def LINE_CAP_def)
  have d: "CHR 0x0A \<in> set (journal_line r)" "journal_line r \<noteq> []" by (simp_all add: journal_line_def del: render.simps)
  have second: "load_lines tm True (journal_line r) q = q" for q
    using fgets_journal_line(1) [OF assms, of "[]"] fgets_journal_line(2) [OF assms] d
    by (subst load_lines.simps) (simp add: Let_def load_lines.simps [of tm False "[]"])
  have nul: "CHR 0x0A \<notin> set (cstr [NUL, CHR 0x0A])" by (simp add: cstr_def)
  show ?thesis
    by (subst load_lines.simps) (use c nul second in \<open>simp add: Let_def\<close>)
qed

text \<open>What a write that broke off left is sealed at a start only: the next line that is appended by the same
  process goes behind it, on the same line of the file.\<close>

lemma torn_line_merges:
  assumes "append_record h1 r1 s = (False, s1)" and "ah_written h1 = Some n" and "ah_opened h1" and "ah_stat h1"
    and "append_record h2 r2 s1 = (True, s2)"
    and "journal_ok tm days r1" and "r_schema r1 \<noteq> 1" and "journal_ok tm2 days2 r2" and "r_schema r2 \<noteq> 1"
    and small: "length (journal_text (sg_current s)) + length (journal_line r1) + length (journal_line r2) \<le> SEGMENT_BYTES"
  shows "sg_current s2 = Some (journal_text (sg_current s) @ take n (journal_line r1) @ journal_line r2)"
proof -
  have l1: "line_of r1 = Some (journal_line r1)" and l2: "line_of r2 = Some (journal_line r2)"
    using line_of_record assms(6-9) by blast+
  have 1: "sg_current s1 = Some (journal_text (sg_current s) @ take n (journal_line r1))"
    using assms(1-4) small unfolding append_record_def l1
    by (simp add: put_line_def journal_text_def Let_def split: option.splits) auto
  then have "length (journal_text (sg_current s1)) + length (journal_line r2) \<le> SEGMENT_BYTES"
    using small by (simp add: journal_text_def)
  then have "put_line h2 (journal_line r2) (s1\<lparr>sg_current := sg_current s1\<rparr>) = (True, s2)"
    using assms(5) 1 unfolding append_record_def l2 by (auto simp: journal_text_def Let_def split: if_splits)
  then show ?thesis using 1 by (auto simp: put_line_def split: option.splits)
qed

end
