(* ===== verification/JournalDisk.thy ===== *)
theory JournalDisk
  imports ProfileFacts
begin

section \<open>The journal from one start to the next\<close>

text \<open>
  What happens to the two segments while the process runs, as steps from the start on, and what
  the next start knows of it; and the history in memory from the start on. \<open>perf_init\<close> ends a torn
  tail with a newline, once. A write that breaks off in the middle of a line tears the tail again, and nothing seals
  it before the next append: the steps here are the others.
\<close>

subsection \<open>The writers of the journal write no zero byte, and a record ends with a newline\<close>

definition writes_plain :: "(app_buffer \<Rightarrow> app_buffer) \<Rightarrow> bool" where
  "writes_plain f \<longleftrightarrow> (\<exists>t. writes f t \<and> NUL \<notin> set t)"

named_theorems plains "writers of no zero byte"

lemma plain_put [plains]: "writes_plain (app_put s)"
proof -
  have "NUL \<notin> set (cstr s)" unfolding cstr_def by (auto dest: set_takeWhileD)
  then show ?thesis using writes_put unfolding writes_plain_def by blast
qed

lemma plain_printf [plains]: "NUL \<notin> set t \<Longrightarrow> writes_plain (app_printf t)"
  using writes_printf unfolding writes_plain_def by blast

lemma plain_comp: "writes_plain f \<Longrightarrow> writes_plain g \<Longrightarrow> writes_plain (\<lambda>b. g (f b))"
  unfolding writes_plain_def using writes_comp by (metis Un_iff set_append)

lemma plain_if [plains]: "writes_plain f \<Longrightarrow> writes_plain g \<Longrightarrow> writes_plain (if c then f else g)"
  by simp

lemma plain_stmts [plains]: "list_all writes_plain fs \<Longrightarrow> writes_plain (stmts fs)"
proof (induction fs)
  case Nil
  have "stmts [] = (\<lambda>b. b)" by (rule ext) simp
  then show ?case using writes_id unfolding writes_plain_def by auto
next
  case (Cons f fs)
  have "stmts (f # fs) = (\<lambda>b. stmts fs (f b))" by (rule ext) simp
  with Cons plain_comp [of f "stmts fs"] show ?case by simp
qed

lemma dec_no_nul [simp]: "NUL \<notin> set (dec n)"
proof
  assume "NUL \<in> set (dec n)"
  then have "is_digit NUL" using dec_digits [of n] by (simp add: list_all_iff)
  then show False by (simp add: is_digit_def)
qed

lemma plain_fold: "\<forall>x \<in> set xs. writes_plain (f x) \<Longrightarrow> writes_plain (fold f xs)"
proof (induction xs)
  case Nil
  then show ?case using writes_id unfolding writes_plain_def by (auto simp: id_def)
next
  case (Cons x xs)
  then show ?case using plain_comp [of "f x" "fold f xs"] by (simp add: comp_def)
qed

lemma hexdig_no_nul: "n < 16 \<Longrightarrow> hexdig n \<noteq> NUL"
proof
  assume "n < 16" "hexdig n = NUL"
  then have "hexval NUL = n" using hexval_hexdig by metis
  then show False using \<open>n < 16\<close> by (simp add: hexval_def)
qed

lemma plain_quote [plains]: "writes_plain (app_quote s)"
proof -
  have "writes_plain (quote_char c)" if "c \<noteq> NUL" for c
  proof -
    have "NUL \<notin> set (u_escape (byte c))" using hexdig_no_nul [THEN not_sym] by (simp add: u_escape_def)
    then have "writes_plain (if c = DQUOTE \<or> c = BACKSLASH then app_printf [BACKSLASH, c]
        else if byte c < 32 then app_printf (u_escape (byte c)) else app_put [c])"
      using that by (intro plains) auto
    moreover have "quote_char c = (if c = DQUOTE \<or> c = BACKSLASH then app_printf [BACKSLASH, c]
        else if byte c < 32 then app_printf (u_escape (byte c)) else app_put [c])"
      by (rule ext) (simp add: quote_char_def)
    ultimately show ?thesis by simp
  qed
  moreover have "\<forall>c \<in> set (cstr s). c \<noteq> NUL" unfolding cstr_def by (auto dest: set_takeWhileD)
  ultimately have "writes_plain (fold quote_char (cstr s))" by (intro plain_fold) auto
  from plain_comp [OF plain_comp [OF plain_put this] plain_put]
  show ?thesis by (simp add: app_quote_def [abs_def])
qed

lemma general17_no_nul: "NUL \<notin> set (general17 q)"
proof -
  have s: "NUL \<notin> set (strip0 t)" if "NUL \<notin> set t" for t
    using that strip0_split [of t] by (metis Un_iff set_append)
  have "NUL \<notin> set (take k (strip0 (dec n)))" "NUL \<notin> set (drop k (strip0 (dec n)))" for k n
    using s [of "dec n"] by (auto dest: in_set_takeD in_set_dropD)
  moreover have "NUL \<notin> set (take k (strip0 (dec n) @ replicate m (CHR ''0'')))" for k n m
    using s [of "dec n"] by (auto dest!: in_set_takeD)
  ultimately show ?thesis
    using s by (auto simp: general17_def Let_def point_def pad0_def)
qed

lemma plain_number [plains]: "writes_plain (put_number x)"
proof (cases "dlt x (Fin 0) \<or> \<not> dfinite x")
  case True
  then have "put_number x = app_put ''null''" by (intro ext) (simp add: put_number_def)
  then show ?thesis by (simp add: plain_put)
next
  case False
  then have "put_number x = app_printf (printf_g x)" by (intro ext) (simp add: put_number_def)
  moreover have "NUL \<notin> set (printf_g x)" using general17_no_nul by (simp add: printf_g_def split: dbl.split)
  ultimately show ?thesis by (simp add: plain_printf)
qed

lemma plain_value: "writes_plain (engine_value s)"
  by (cases "s = []") (simp_all add: engine_value_def [abs_def] plain_quote plain_put)

lemma plain_engine [plains]: "writes_plain (app_engine_json e)"
  unfolding app_engine_json_def by (intro plain_stmts) (simp add: plain_value plain_put plain_quote)

lemma plain_memory [plains]: "writes_plain (app_memory_json m rss peak n)"
  unfolding app_memory_json_def
  by (intro plain_stmts) (simp add: plain_put plain_quote plain_printf plain_number)

text \<open>Whole lines: nothing, or a text that ends with a newline.\<close>

definition whole :: "string \<Rightarrow> bool" where
  "whole t \<longleftrightarrow> NUL \<notin> set t \<and> (t = [] \<or> last t = CHR 0x0A)"

lemma whole_append [intro]: "whole s \<Longrightarrow> whole t \<Longrightarrow> whole (s @ t)"
  by (cases "t = []") (auto simp: whole_def)

lemma record_writes_line:
  obtains t where "writes (record_json r) t" and "whole t" and "t \<noteq> []"
proof -
  have snoc: "stmts (fs @ [g]) = (\<lambda>b. g (stmts fs b))" for fs g
  proof (rule ext)
    fix b show "stmts (fs @ [g]) b = g (stmts fs b)" by (induction fs arbitrary: b) simp_all
  qed
  have yes: "NUL \<notin> set (yes_no b)" for b by (simp add: yes_no_def)
  have split: "xs @ ys @ a # b # c # d # e # f # zs = (xs @ ys @ a # b # c # d # e # f # butlast zs) @ [last zs]"
    if "zs \<noteq> []" for xs ys zs and a b c d e f :: "app_buffer \<Rightarrow> app_buffer"
    using that by simp
  have "\<exists>fs. record_json r = stmts (fs @ [app_put (CHR ''}'' # [CHR 0x0A])]) \<and> list_all writes_plain fs"
    unfolding record_json_def
    by (subst split, simp)
      (intro exI conjI, rule arg_cong [where f = stmts],
       simp, simp add: plain_put plain_quote plain_printf plain_number plain_engine plain_memory yes)
  then obtain fs where fs: "record_json r = stmts (fs @ [app_put (CHR ''}'' # [CHR 0x0A])])" "list_all writes_plain fs"
    by blast
  from plain_stmts [OF fs(2)] obtain u where u: "writes (stmts fs) u" "NUL \<notin> set u" unfolding writes_plain_def by blast
  have "writes (record_json r) (u @ cstr (CHR ''}'' # [CHR 0x0A]))"
    unfolding fs(1) snoc by (rule writes_comp [OF u(1) writes_put])
  moreover have "cstr (CHR ''}'' # [CHR 0x0A]) = CHR ''}'' # [CHR 0x0A]" by (simp add: cstr_def)
  ultimately show thesis using u(2) by (intro that [of "u @ CHR ''}'' # [CHR 0x0A]"]) (simp_all add: whole_def)
qed

text \<open>So every line that is appended, and both texts of a compaction, are whole lines.\<close>

lemma line_whole: "line_of r = Some line \<Longrightarrow> whole line"
proof -
  assume l: "line_of r = Some line"
  let ?b = "\<lparr>b_data = [], b_len = 0, b_cap = LINE_CAP, b_failed = False\<rparr>"
  have b: "buf_ok ?b" by (simp add: buf_ok_def LINE_CAP_def)
  obtain t where t: "writes (record_json r) t" "whole t" by (rule record_writes_line)
  have f: "\<not> b_failed (record_json r ?b)" using l by (auto simp: line_of_def Let_def split: if_splits)
  from writesD(4) [OF t(1) b f] f l have "line = t" by (simp add: line_of_def Let_def)
  with t(2) show ?thesis by simp
qed

lemma fold_whole: "\<exists>t. writes (fold record_json rs) t \<and> whole t"
proof (induction rs)
  case Nil
  then show ?case using writes_id by (auto simp: id_def whole_def)
next
  case (Cons r rs)
  then obtain u where u: "writes (fold record_json rs) u" "whole u" by blast
  obtain t where t: "writes (record_json r) t" "whole t" by (rule record_writes_line)
  have "fold record_json (r # rs) = (\<lambda>b. fold record_json rs (record_json r b))" by (rule ext) simp
  with writes_comp [OF t(1) u(1)] t(2) u(2) show ?case by auto
qed

lemma export_whole: "fst (perf_export tm p) = Some data \<Longrightarrow> whole data"
proof -
  assume e: "fst (perf_export tm p) = Some data"
  define kept where "kept = filter (\<lambda>x. dle (cutoff tm (p_days p)) (r_timestamp x)) (p_records p)"
  define b where "b = \<lparr>b_data = [], b_len = 0, b_cap = 2 * SEGMENT_BYTES, b_failed = False\<rparr>"
  have f: "\<not> b_failed (fold record_json kept b)" "data = b_data (fold record_json kept b)"
    using e by (auto simp: perf_export_def Let_def kept_def b_def split: if_splits)
  obtain t where t: "writes (fold record_json kept) t" "whole t" using fold_whole [of kept] by blast
  have "buf_ok b" by (simp add: b_def buf_ok_def SEGMENT_BYTES_def)
  from writesD(4) [OF t(1) this f(1)] f(2) have "data = t" by (simp add: b_def)
  with t(2) show ?thesis by simp
qed

lemma compact_whole:
  assumes "fst (compact_history tm wrote p) = Some (old, new)"
  shows "whole new"
proof -
  have "fst (perf_export tm p) = Some (old @ new)"
    using assms compact_segments(1) [of tm wrote p old new "snd (compact_history tm wrote p)"]
    by (simp add: prod_eq_iff)
  from export_whole [OF this] show ?thesis by (cases "new = []") (auto simp: whole_def)
qed

subsection \<open>The disk from a start on\<close>

text \<open>An append that breaks off in the middle of its line.\<close>

definition breaks_off :: "append_help \<Rightarrow> perf_record \<Rightarrow> bool" where
  "breaks_off h r \<longleftrightarrow>
     (case (line_of r, ah_written h) of (Some line, Some n) \<Rightarrow> 0 < n \<and> n < length line | _ \<Rightarrow> False)"

text \<open>The writer's appends, done or refused, compactions of whatever is retained at the time, whole or
  interrupted between the segments, and the removal of the files.\<close>

inductive disk_move :: "segments \<Rightarrow> segments \<Rightarrow> bool" where
  appended: "\<not> breaks_off h r \<Longrightarrow> disk_move s (snd (append_record h r s))"
| compacted: "disk_move s (compacted_segments n (fst (compact_history tm True p)) s)"
| removed: "disk_move s \<lparr>sg_previous = (if a then None else sg_previous s), sg_current = (if b then None else sg_current s)\<rparr>"

definition whole_current :: "segments \<Rightarrow> bool" where
  "whole_current s \<longleftrightarrow> whole (journal_text (sg_current s))"

lemma append_whole:
  assumes "whole_current s" and "\<not> breaks_off h r"
  shows "whole_current (snd (append_record h r s))"
proof (cases "line_of r")
  case None
  then show ?thesis using assms(1) by (simp add: append_record_def)
next
  case (Some line)
  have part: "whole (case ah_written h of None \<Rightarrow> line | Some n \<Rightarrow> take n line)"
    using line_whole [OF Some] assms(2) Some
    by (auto simp: breaks_off_def not_less whole_def split: option.splits)
  have put: "whole_current (snd (put_line h line q))" if "whole_current q" for q
    using whole_append [OF that [unfolded whole_current_def] part]
    by (auto simp: put_line_def whole_current_def journal_text_def split: option.splits)
  have old: "whole_current (s\<lparr>sg_current := Some (case sg_current s of None \<Rightarrow> [] | Some t \<Rightarrow> t)\<rparr>)"
    using assms(1) by (simp add: whole_current_def journal_text_def split: option.splits)
  have new: "whole_current \<lparr>sg_previous = x, sg_current = Some []\<rparr>" "whole_current \<lparr>sg_previous = x, sg_current = None\<rparr>" for x
    by (simp_all add: whole_current_def journal_text_def whole_def)
  show ?thesis
    unfolding append_record_def Some option.case Let_def
    using assms(1) old new put [OF old] put [OF new(1)] by auto
qed

lemma compacted_whole: "whole_current s \<Longrightarrow> whole_current (compacted_segments n (fst (compact_history tm True p)) s)"
  using compact_whole [of tm True p]
  by (auto simp: compacted_segments_def whole_current_def journal_text_def split: option.split prod.split)

lemma moves_whole: "disk_move s s1 \<Longrightarrow> whole_current s \<Longrightarrow> whole_current s1"
proof (induction rule: disk_move.induct)
  case (removed s a b)
  then show ?case by (auto simp: whole_current_def journal_text_def whole_def)
qed (simp_all add: append_whole compacted_whole)

text \<open>A start leaves whole lines, if there is no segment, or the tail could be opened and sealed.\<close>

lemma seal_whole: "NUL \<notin> set (journal_text (sg_current s)) \<Longrightarrow> whole_current (seal_tail s)"
  using sealed_text [of s] sealed_no_nul [of s]
  by (auto simp: whole_current_def whole_def journal_text_def split: option.splits)

lemma whole_seal: "whole_current s \<Longrightarrow> whole_current (seal_tail s)"
  by (rule seal_whole) (simp add: whole_current_def whole_def)

lemma compacted_no_nul:
  "NUL \<notin> set (journal_text (sg_current s))
   \<Longrightarrow> NUL \<notin> set (journal_text (sg_current (compacted_segments n (fst (compact_history tm True p)) s)))"
  using compact_whole [of tm True p]
  by (auto simp: compacted_segments_def whole_def journal_text_def split: option.split prod.split)

lemma init_whole:
  assumes "sg_current s = None \<or> in_tail h \<and> in_sealed h" and "NUL \<notin> set (journal_text (sg_current s))"
  shows "whole_current (init_segments tm h p s)"
proof -
  obtain c n q where i: "init_segments tm h p s =
      (let s1 = (if c then compacted_segments n (fst (compact_history tm True q)) s else s)
       in if in_tail h \<and> in_sealed h then seal_tail s1 else s1)"
    unfolding init_segments_def Let_def by blast
  define s1 where "s1 = (if c then compacted_segments n (fst (compact_history tm True q)) s else s)"
  have none: "whole_current s" if "sg_current s = None"
    using that by (simp add: whole_current_def journal_text_def whole_def)
  have "NUL \<notin> set (journal_text (sg_current s1))" using assms(2) compacted_no_nul by (simp add: s1_def)
  moreover have "sg_current s = None \<Longrightarrow> whole_current s1" using none compacted_whole by (simp add: s1_def)
  ultimately show ?thesis using assms(1) seal_whole whole_seal unfolding i s1_def [symmetric] Let_def by auto
qed

lemma runs_whole: "disk_move\<^sup>*\<^sup>* s s1 \<Longrightarrow> whole_current s \<Longrightarrow> whole_current s1"
  by (induction rule: rtranclp_induct) (auto intro: moves_whole)

subsection \<open>What the next start knows\<close>

text \<open>What was loaded is not older than the cut, so a compaction at the same time keeps it.\<close>

definition recent :: "int \<Rightarrow> history \<Rightarrow> bool" where
  "recent tm p \<longleftrightarrow> (\<forall>r \<in> set (p_records p). dle (cutoff tm (p_days p)) (r_timestamp r))"

lemma not_older: "\<not> dlt x (cutoff tm d) \<Longrightarrow> x = NaN \<or> dle (cutoff tm d) x"
  by (cases x) (auto simp: cutoff_def dle_def)

lemma retain_recent: "r_timestamp r \<noteq> NaN \<Longrightarrow> recent tm (retain tm r p)"
proof -
  assume t: "r_timestamp r \<noteq> NaN"
  define kept where "kept = filter (\<lambda>x. dle (cutoff tm (p_days p)) (r_timestamp x)) (p_records p)"
  have k: "\<forall>x \<in> set kept. dle (cutoff tm (p_days p)) (r_timestamp x)" by (simp add: kept_def)
  moreover have "set (tl kept) \<subseteq> set kept" by (cases kept) auto
  ultimately have "\<forall>x \<in> set (tl kept). dle (cutoff tm (p_days p)) (r_timestamp x)" by blast
  with k t not_older [of "r_timestamp r" tm "p_days p"] show ?thesis
    unfolding retain_def recent_def kept_def [symmetric] Let_def by simp
qed

lemma all_valid:
  fixes V :: "perf_record \<Rightarrow> bool"
  defines "ok \<equiv> \<lambda>x. \<forall>r. x = Some r \<longrightarrow> V r"
  shows "ok None" and "ok (if V r then Some r else None)" and "(\<And>y. ok (f y)) \<Longrightarrow> ok (case o1 of None \<Rightarrow> None | Some y \<Rightarrow> f y)"
    and "ok x \<Longrightarrow> ok (if c then None else x)" and "(\<And>y z. ok (g y z)) \<Longrightarrow> ok (case w of (y, z) \<Rightarrow> g y z)"
    and "(\<And>y. ok (k y)) \<Longrightarrow> ok (let y = v in k y)"
  by (auto simp: ok_def split: option.splits prod.splits)

lemma parse_valid: "\<forall>r. perf_parse tm l = Some r \<longrightarrow> perf_valid tm r"
  unfolding perf_parse_def by (intro all_valid)

lemma parse_timed: "perf_parse tm l = Some r \<Longrightarrow> r_timestamp r \<noteq> NaN"
  using parse_valid [of tm l] by (auto simp: perf_valid_def dfinite_def)

lemma load_lines_recent: "recent tm p \<Longrightarrow> recent tm (load_lines tm d t p)"
proof (induction tm d t p rule: load_lines.induct)
  case (1 tm d t p)
  have r: "recent tm (q\<lparr>p_invalid := i\<rparr>) = recent tm q" "recent tm (q\<lparr>p_persisted := i\<rparr>) = recent tm q" for q i
    by (simp_all add: recent_def)
  show ?case
    using 1 retain_recent parse_timed
    by (subst load_lines.simps) (auto simp: Let_def r split: option.split)
qed

lemma load_recent: "recent tm p \<Longrightarrow> recent tm (load tm f p)"
  using load_lines_recent [of tm p False] by (auto simp: load_def recent_def split: opened.split)

lemma load_days [simp]: "p_days (load tm f p) = p_days p"
  by (simp add: load_def split: opened.split)

lemma settings_days: "p_days (read_settings f (p\<lparr>p_error := e\<rparr>)) = p_days (read_settings f p)"
  by (simp add: read_settings_def Let_def split: opened.split option.split)

lemma settings_records [simp]: "p_records (read_settings f p) = p_records p"
  by (simp add: read_settings_def Let_def split: opened.split option.split)

lemma compact_keeps_recent: "recent tm p \<Longrightarrow> p_records (snd (compact_history tm w p)) = p_records p"
  by (simp add: compact_history_def perf_export_def recent_def Let_def filter_id_conv split: option.split)

text \<open>The records of a start are those it loads.\<close>

lemma init_records:
  "\<exists>e. p_records (perf_init tm h history_before)
     = p_records (load tm (in_current h) (load tm (in_previous h) (read_settings (in_settings h) (history_before\<lparr>p_error := e\<rparr>))))"
proof -
  define p1 where "p1 = (if \<not> in_dir h \<or> in_stale h then history_before\<lparr>p_error := True\<rparr> else history_before)"
  define p2 where "p2 = load tm (in_current h) (load tm (in_previous h) (read_settings (in_settings h) p1))"
  have "p_records p1 = []" by (simp add: p1_def history_before_def)
  then have "recent tm p2" unfolding p2_def by (intro load_recent) (simp add: recent_def)
  then have "p_records (perf_init tm h history_before) = p_records p2"
    using compact_keeps_recent [of tm p2 "in_wrote h"]
    unfolding perf_init_def p1_def [symmetric] Let_def p2_def [symmetric]
    by (auto split: option.split prod.split)
  moreover have "p1 = history_before\<lparr>p_error := p_error p1\<rparr>" by (simp add: p1_def history_before_def)
  ultimately show ?thesis unfolding p2_def by metis
qed

lemma append_reaches_start:
  assumes run: "disk_move\<^sup>*\<^sup>* (init_segments tm0 h0 p0 s0) s1"
    and start: "sg_current s0 = None \<or> in_tail h0 \<and> in_sealed h0" "NUL \<notin> set (journal_text (sg_current s0))"
    and app: "append_record h r s1 = (True, s2)"
    and disk: "in_current h2 = Content (journal_text (sg_current s2))"
    and rec: "journal_ok tm (p_days (read_settings (in_settings h2) history_before)) r" "r_schema r \<noteq> 1"
  shows "known (r_id r) (perf_init tm h2 history_before)"
proof -
  have w: "whole (journal_text (sg_current s1))"
    using runs_whole [OF run init_whole [OF start]] by (simp add: whole_current_def)
  have line: "line_of r = Some (journal_line r)" using rec by (rule line_of_record)
  have "length (journal_line r) \<le> SEGMENT_BYTES"
    using rec(1) by (simp add: journal_ok_def journal_line_def LINE_CAP_def SEGMENT_BYTES_def del: render.simps)
  from append_record_text [OF app line this] obtain t
    where t: "t = [] \<or> t = journal_text (sg_current s1)" "sg_current s2 = Some (t @ journal_line r)"
      "length (t @ journal_line r) \<le> SEGMENT_BYTES"
    by blast
  have tw: "t = [] \<or> last t = CHR 0x0A" "NUL \<notin> set t" using t(1) w by (auto simp: whole_def)
  obtain e where e: "p_records (perf_init tm h2 history_before)
      = p_records (load tm (in_current h2) (load tm (in_previous h2) (read_settings (in_settings h2) (history_before\<lparr>p_error := e\<rparr>))))"
    using init_records by blast
  define p where "p = load tm (in_previous h2) (read_settings (in_settings h2) (history_before\<lparr>p_error := e\<rparr>))"
  have "journal_ok tm (p_days p) r" using rec(1) by (simp add: p_def settings_days)
  from sealed_line_loaded [OF tw this] t(2,3) disk
  have "known (r_id r) (load tm (in_current h2) p)" by (simp add: load_def journal_text_def)
  then show ?thesis unfolding known_def e p_def .
qed

subsection \<open>The history in memory from the start on\<close>

text \<open>A start, then calls into it in any order, up to the end.\<close>

inductive history_run :: "history \<Rightarrow> bool" where
  started: "history_run (perf_init tm h history_before)"
| moved: "history_run p \<Longrightarrow> history_move p q \<Longrightarrow> history_run q"
| ended: "history_run p \<Longrightarrow> history_run (perf_close p)"

lemma before_ok: "history_ok history_before"
  by (simp add: history_ok_def history_before_def ring_ok_def PERF_QUEUE_def)

lemma load_lines_ok [intr_inv]: "history_ok p \<Longrightarrow> history_ok (load_lines tm d t p)"
proof (induction tm d t p rule: load_lines.induct)
  case (1 tm d t p)
  have r: "history_ok (q\<lparr>p_invalid := i\<rparr>) = history_ok q" "history_ok (q\<lparr>p_persisted := i\<rparr>) = history_ok q" for q i
    by (simp_all add: history_ok_def)
  show ?case
    using 1 retain_ok by (subst load_lines.simps) (auto simp: Let_def r split: option.split)
qed

lemma load_ok [intr_inv]: "history_ok p \<Longrightarrow> history_ok (load tm f p)"
  using load_lines_ok by (simp add: load_def history_ok_frame split: opened.split)

lemma read_settings_ok [intr_inv]: "history_ok p \<Longrightarrow> history_ok (read_settings f p)"
  by (simp add: read_settings_def Let_def history_ok_def split: opened.split option.split)

lemma init_ok [intr_inv]: "history_ok p \<Longrightarrow> history_ok (perf_init tm h p)"
proof -
  assume p: "history_ok p"
  define p1 where "p1 = (if \<not> in_dir h \<or> in_stale h then p\<lparr>p_error := True\<rparr> else p)"
  define p2 where "p2 = load tm (in_current h) (load tm (in_previous h) (read_settings (in_settings h) p1))"
  define p3 where "p3 = (if p_expired p2 then
      (case compact_history tm (in_wrote h) p2 of (None, q) \<Rightarrow> q\<lparr>p_error := True\<rparr> | (Some _, q) \<Rightarrow> q) else p2)"
  have "history_ok p2" using p unfolding p2_def p1_def by (auto intro: intr_inv)
  then have "history_ok p3"
    using compact_ok [of p2 tm "in_wrote h"] by (auto simp: p3_def history_ok_frame split: prod.split option.split)
  then show ?thesis
    unfolding perf_init_def p1_def [symmetric] Let_def p2_def [symmetric] p3_def [symmetric] by (simp add: history_ok_def)
qed

lemma history_runs_ok: "history_run p \<Longrightarrow> history_ok p"
proof (induction rule: history_run.induct)
  case (started tm h)
  then show ?case by (rule init_ok [OF before_ok])
next
  case (ended p)
  then show ?case by (simp add: perf_close_def history_ok_def)
qed (rule moves_ok)

end
