(* ===== verification/StreamSamples.thy ===== *)
theory StreamSamples
  imports HeldMirror PageStream JournalDisk AppSamples
begin

text \<open>
  Concrete inputs for the streams and the files: a service that answers one word, an answer in two pieces
  for the page, and a journal whose last line was torn.
\<close>

definition info_tree0 :: "(string \<times> jval) list" where
  "info_tree0 = [(''ctx'', JPrim (dec 2048)), (''chat_api'', JPrim ''true'')]"

definition info_text0 :: string where
  "info_text0 = render app_esc (JObj info_tree0)"

definition chat_service0 :: "unit chat_service" where
  \<open>chat_service0 =
     \<lparr>sv_info = (\<lambda>n w. (Some info_text0, w)), sv_open = (\<lambda>t p f w. (Some ''0123456789abcdef'', w)),
      sv_close = (\<lambda>k w. (True, w)), sv_rewind = (\<lambda>k n w. (Some n, w)),
      sv_send = (\<lambda>k mx ms part w.
        (True, \<lparr>cs_finish = ''stop'', cs_status = [], cs_numbers = [3, 4, 1, 0, 4], cs_times = replicate 4 (Fin 0)\<rparr>, [(False, ''hi'')], w)),
      sv_error = (\<lambda>w. [])\<rparr>\<close>

definition held0 :: held where
  "held0 = \<lparr>hd_id = [], hd_path = [], hd_temperature = 0, hd_top_p = 0, hd_reasoning = [], hd_msgs = []\<rparr>"

lemma refuses_first0: "refuses_first chat_service0"
  by (simp add: refuses_first_def chat_service0_def)

lemma info0: "\<exists>j. json_parse info_text0 = Some j \<and> told_capacity j = 2048
    \<and> json_bool j (json_get j 0 ''chat_api'') False"
proof -
  have ok: "jfields_ok info_tree0" "ntoks (JObj info_tree0) \<le> JSON_TOK_CAP"
    by (simp_all add: info_tree0_def JSON_TOK_CAP_def)
  obtain j where j: "json_parse info_text0 = Some j" "is_at app_esc j 0 (JObj info_tree0)"
    using app_quoting.root_render [OF ok] unfolding info_text0_def .
  have keys: "\<forall>k \<in> fst ` set info_tree0. plain k" by (simp add: info_tree0_def plain_def)
  have "json_num j (json_get j (int 0) ''ctx'') (Fin 0) = Fin (of_nat 2048)"
    by (rule nat_read [OF j(2) keys]) (simp add: info_tree0_def)
  moreover have "json_bool j (json_get j (int 0) ''chat_api'') False = (hd ''true'' = CHR ''t'')"
    by (rule bool_read [OF j(2) keys]) (simp_all add: info_tree0_def)
  ultimately show ?thesis using j(1) by (simp add: told_capacity_def to_unsigned_def)
qed

lemma chat0_run:
  "\<exists>r h1 b1 msg. app_daemon_chat (booked chat_service0) (Some ((), Map.empty)) ''s'' [(''user'', ''hello'')] 0 0 1 None
      (\<lambda>ps th t. True) NoFault 5 9 held0 = ((0, msg), r, h1, Some ((), b1)) \<and> rn_answer r = ''hi''"
proof -
  obtain j where j: "json_parse info_text0 = Some j" "told_capacity j = 2048"
      "json_bool j (json_get j 0 ''chat_api'') False"
    using info0 by blast
  have i: "sv_info (booked chat_service0) 2048 ((), Map.empty) = (Some info_text0, (), Map.empty)"
    by (simp add: booked_simps chat_service0_def)
  obtain r h1 b1 msg where t: "held_turns (booked chat_service0) ''s'' [(''user'', ''hello'')] 0 0 1 ''none'' (\<lambda>ps th t. True)
      2048 5 (no_run\<lparr>rn_stage := ''open''\<rparr>) held0 ((), Map.empty) = (Ended 0 msg, r, h1, (), b1)" "rn_answer r = ''hi''"
    by (simp add: held_turns_def held_turn_def held_open_def held_fits_def held_send_def held0_def booked_simps chat_service0_def
        held_keep_def chat_parts_def answer_text_def no_run_def)
  show ?thesis
    unfolding app_daemon_chat_def
    by (simp add: i j t chat_end_def APP_CHAT_MESSAGES_def)
qed

subsection \<open>An answer for the page\<close>

definition callbacks0 :: "callback list" where
  "callbacks0 =
     [Poll Quiet 2 no_run, Piece Quiet 3 (no_run\<lparr>rn_stage := ''generate''\<rparr>) True ''hm'',
      Piece Quiet 4 (no_run\<lparr>rn_stage := ''generate''\<rparr>) False ''hi'', Piece Quiet 5 (no_run\<lparr>rn_stage := ''generate''\<rparr>) False '' there'']"

definition last0 :: app_last where
  "last0 = \<lparr>la_phase = [], la_message = [], la_stage = [], la_model = [], la_backend = [], la_code = 0\<rparr>"

definition run_stats0 :: app_run_stats where
  "run_stats0 = rn_stats no_run"

lemma built0:
  "built 4096 (thinking_stmts ''hm'') = Some (''{'' @ [DQUOTE] @ ''thinking'' @ [DQUOTE] @ '':'' @ [DQUOTE] @ ''hm'' @ [DQUOTE] @ ''}'' @ NL)"
  "built 16384 (response_stmts []) = Some (''{'' @ [DQUOTE] @ ''response'' @ [DQUOTE, CHR '':'', DQUOTE, DQUOTE] @ '','' @ [DQUOTE] @ ''done'' @ [DQUOTE] @ '':false}'' @ NL)"
  "built 16384 (response_stmts ''hi'') = Some (''{'' @ [DQUOTE] @ ''response'' @ [DQUOTE, CHR '':'', DQUOTE] @ ''hi'' @ [DQUOTE] @ '','' @ [DQUOTE] @ ''done'' @ [DQUOTE] @ '':false}'' @ NL)"
  "built 16384 (response_stmts '' there'') = Some (''{'' @ [DQUOTE] @ ''response'' @ [DQUOTE, CHR '':'', DQUOTE] @ '' there'' @ [DQUOTE] @ '','' @ [DQUOTE] @ ''done'' @ [DQUOTE] @ '':false}'' @ NL)"
  by (simp_all add: built_def thinking_stmts_def response_stmts_def empty_buffer_def app_put_def app_quote_def quote_char_def cstr_def NL_def Let_def)

lemma done0: "length (done_line run_stats0 2) \<le> 1000"
  by (simp add: done_line_def run_stats0_def no_run_def no_frac_def printf_f_def fixed_point_def flag_text_def NL_def dec.simps round_even_def)

lemma page0:
  assumes "\<not> closing a" and "\<not> fl_request_cancelled (ap_flags a)" and "ap_request a = no_activity"
  shows "\<exists>p1 a1 l1. page_run callbacks0 (new_proxy 4096 True 1, a, last0) = (True, p1, a1, l1)
    \<and> fst (generate_finish 4 (0, []) run_stats0 p1) = 0"
  using assms done0
  by (simp add: callbacks0_def page_target_def new_proxy_def proxy_cancel_def proxy_part_def note_phase_def announce_def beat_def
      pass_on_def count_piece_def first_thought_def thought_count_def proxy_thinking_def proxy_event_def proxy_head_def
      send_bytes_def send_built_def proxy_send_def proxy_keepalive_def note_answer_def no_run_def no_activity_def built0 Let_def
      activity_progress_def activity_change_def generate_finish_def run_stats0_def last0_def shows_text_def ndjson_head_def crlf_def
      preparing_line_def heartbeat_line_def NL_def fit_def activity_step_def CRLF_def)

subsection \<open>A torn journal\<close>

definition torn_text0 :: string where "torn_text0 = ''torn''"
definition torn0 :: segments where "torn0 = \<lparr>sg_previous = None, sg_current = Some torn_text0\<rparr>"

definition append_help0 :: append_help where
  "append_help0 = \<lparr>ah_opened = True, ah_stat = True, ah_renamed = True, ah_created = True, ah_synced = True, ah_written = None,
     ah_flushed = True\<rparr>"

definition init_help0 :: "opened \<Rightarrow> init_help" where
  "init_help0 current =
     \<lparr>in_dir = True, in_stale = False, in_settings = opened.Missing, in_previous = opened.Missing, in_current = current, in_wrote = True,
      in_replaced = 0, in_tail = True, in_sealed = True, in_random = Some 7, in_fallback = 1, in_thread = True\<rparr>"

lemma init0: "init_segments 1000 (init_help0 (Content torn_text0)) history_before torn0 = seal_tail torn0"
proof -
  have "fgets_line torn_text0 = torn_text0" "cstr torn_text0 = torn_text0"
    by (simp_all add: torn_text0_def fgets_line_def cstr_def LINE_CAP_def Let_def)
  then have "load_lines 1000 False torn_text0 p = p\<lparr>p_invalid := p_invalid p + 1\<rparr>" for p
    by (subst load_lines.simps, simp add: Let_def load_lines.simps [of 1000 True "[]"]) (simp add: torn_text0_def)
  then show ?thesis
    by (simp add: init_segments_def init_help0_def read_settings_def load_def history_before_def torn_text0_def SEGMENT_BYTES_def)
qed

lemma append0:
  "append_record append_help0 record0 (seal_tail torn0)
     = (True, torn0\<lparr>sg_current := Some (torn_text0 @ [CHR 0x0A] @ journal_line record0)\<rparr>)"
proof -
  have l: "line_of record0 = Some (journal_line record0)"
    using line_of_record [OF journal_record0] by (simp add: record0_def)
  have n: "length (journal_line record0) < 8192"
    using journal_record0 by (simp add: journal_ok_def journal_line_def LINE_CAP_def del: render.simps)
  show ?thesis
    unfolding append_record_def l using n
    by (simp add: append_help0_def torn0_def torn_text0_def seal_tail_def put_line_def Let_def SEGMENT_BYTES_def)
qed

lemma spec_of_record0:
  "pf_cpu (profile_spec (r_artifact record0) (r_series record0) (r_backend record0) ''none'' (rev [record0])) = [record0]"
proof -
  have "usable (r_artifact record0) (r_series record0) record0"
    by (simp add: usable_def eligible_def record0_def)
  moreover have "same_view record0 record0" by (simp add: same_view_def record0_def)
  ultimately show ?thesis by (simp add: profile_spec_def of_processor_def one_workload_def Let_def)
qed

end
