(* ===== verification/StatusDoc.thy ===== *)
theory StatusDoc
  imports Generate Proxy Profile
begin

section \<open>The status document (src/src/app/status.c)\<close>

text \<open>
  What \<open>/app/status\<close> answers, statement by statement. A statement is one call of a writer with its
  argument; \<open>emit\<close> names it and \<open>perform\<close> makes it. The ranking of the models is geist-runtime's: \<open>ranker\<close> is
  \<open>geistr_catalog_parse\<close>, which is \<open>None\<close> for a catalog it refuses and else the number of its entries, and
  \<open>geistr_rank\<close>. The measurements of a model are finite, the seconds of a fit are what the runtime gives. The code keeps the parsed catalog
  while the address of its text stays the same; here it is parsed in every call.
\<close>

datatype emit =
    Write string
  | Fmt string
  | Quote string
  | EngineJson app_engine
  | TraceJson activity rat bool
  | MemoryJson app_memory_record dbl
  | ViewJson string string string string history

fun perform :: "emit \<Rightarrow> app_buffer \<Rightarrow> app_buffer" where
  "perform (Write s) = app_put s"
| "perform (Fmt s) = app_printf s"
| "perform (Quote s) = app_quote s"
| "perform (EngineJson e) = app_engine_json e"
| "perform (TraceJson x tm alive) = activity_json x tm alive"
| "perform (MemoryJson m rss) = app_memory_json m rss (Fin (-1)) (if dle (Fin 0) rss then 1 else 0)"
| "perform (ViewJson artifact series cpu gpu p) = perf_view artifact series cpu gpu p"

definition APP_VERSION :: string where "APP_VERSION = ''0.5.30''"

subsection \<open>What the runtime says of the models\<close>

datatype geistr_verdict = VERDICT_GOOD | VERDICT_USABLE | VERDICT_NOT_RECOMMENDED | VERDICT_UNKNOWN
datatype geistr_basis = BASIS_NONE | BASIS_ESTIMATED | BASIS_MEASURED
datatype geistr_processor = PROCESSOR_AUTO | PROCESSOR_CPU | PROCESSOR_GPU

record geistr_fit =
  ft_entry :: nat
  ft_id :: string
  ft_verdict :: geistr_verdict
  ft_basis :: geistr_basis
  ft_reason :: string
  ft_processor :: geistr_processor
  ft_seconds_cpu :: dbl
  ft_seconds_gpu :: dbl
  ft_estimated_from :: nat
  ft_passed :: nat
  ft_total :: nat
  ft_installed :: bool

record geistr_local =
  lo_installed :: bool
  lo_partial :: u64
  lo_cpu :: "rat \<times> rat"
  lo_gpu :: "rat \<times> rat"

record app_limits =
  fast_s :: rat
  usable_s :: rat
  reliable :: rat

record ranker =
  rk_count :: "string \<Rightarrow> nat option"
  rk_rank :: "string \<Rightarrow> app_hardware \<Rightarrow> nat \<Rightarrow> geistr_local list \<Rightarrow> app_limits \<Rightarrow> string option
                \<Rightarrow> (geistr_fit list \<times> geistr_fit option) option"

text \<open>What the call is given beside the state: the clocks, the machine, the process, the two libraries, the
  threshold settings, and the phase and error of the last request.\<close>

record status_help =
  sh_tm :: rat
  sh_now_ns :: u64
  sh_hardware :: app_hardware
  sh_known :: bool
  sh_sizes :: "string \<Rightarrow> u64"
  sh_process :: "app_process_sample option"
  sh_memory :: sample_help
  sh_last :: app_last
  sh_limits :: app_limits
  sh_intent :: string
  sh_suite :: string
  sh_assess :: assessor
  sh_ranker :: ranker
  sh_fmt_g :: "rat \<Rightarrow> string"

definition numeric_rate :: "dbl \<Rightarrow> emit" where
  "numeric_rate rate = (if known_rate rate then Fmt (printf_f 2 rate) else Write ''null'')"

subsection \<open>The service\<close>

definition current_model :: "app_state \<Rightarrow> nat option" where
  "current_model a = app_model_find (ap_models a) (Some (active_id a))"

definition recommendation_of :: "status_help \<Rightarrow> app_state \<Rightarrow> app_recommendation" where
  "recommendation_of h a =
     app_recommend (ap_models a) (sh_hardware h) (model_inventory (sh_sizes h) a) (Some (pr_selected (ap_prefs a)))
       (if ready a then Some (active_id a) else None)"

definition head_part :: "status_help \<Rightarrow> app_state \<Rightarrow> emit list" where
  \<open>head_part h a =
     (let c = recommendation_of h a in
      [Write ''{"version":'', Quote APP_VERSION, Fmt ('',"catalog_revision":'' @ dec (ap_revision a)),
       Write '',"api_socket":'', if ap_api_socket a \<noteq> [] then Quote (ap_api_socket a) else Write ''null'',
       Write '',"quality_suite":'', Quote (sh_suite h),
       Write '',"recommendation":{"id":'', Quote (case chosen c of Some k \<Rightarrow> am_id (ap_models a ! k) | None \<Rightarrow> []),
       Write '',"preferred_id":'', Quote (am_id (ap_models a ! preferred c)),
       Write '',"source":'', Quote (source_of c),
       Write '',"reason":'', Quote (case why c of Some t \<Rightarrow> t | None \<Rightarrow> []),
       Fmt ('',"eligible":'' @ yes_no (is_eligible c) @ ''},"answer_language":''), Quote (pr_answer_language (ap_prefs a)),
       Write '',"engine":'', EngineJson (ch_engine (ap_child a))])\<close>

definition activity_part :: "status_help \<Rightarrow> app_state \<Rightarrow> emit list" where
  \<open>activity_part h a =
     (let alive = (\<lambda>x. pid a > 0 \<and> ac_generation x = ap_generation a) in
      [Write '',"activity":{"instance":'', Quote (ap_instance a),
       Write '',"load":'', TraceJson (ap_load a) (sh_tm h) (alive (ap_load a)),
       Write '',"request":'', TraceJson (ap_request a) (sh_tm h) (alive (ap_request a)),
       Write '',"download":'', TraceJson (ap_download a) (sh_tm h) False,
       Fmt (''},"process_generation":'' @ dec (unat (ap_generation a)))])\<close>

text \<open>A phase that was entered ends where the next one begins that was, or now; \<open>ready\<close> has no length.\<close>

definition phase_end :: "u64 \<Rightarrow> u64 list \<Rightarrow> nat \<Rightarrow> u64" where
  "phase_end now_ns phases i =
     (case filter (\<lambda>j. phases ! j \<noteq> 0) [i + 1..<LC_PHASES] of
        j # js \<Rightarrow> phases ! j
      | [] \<Rightarrow> if i = phase_index LC_READY then phases ! i else now_ns)"

definition snapshot_phases :: "app_state \<Rightarrow> u64 list" where
  "snapshot_phases a = (case ch_snapshot (ap_child a) of None \<Rightarrow> replicate LC_PHASES 0 | Some s \<Rightarrow> s_phase_ns s)"

definition phase_part :: "u64 \<Rightarrow> u64 list \<Rightarrow> nat \<Rightarrow> emit list" where
  \<open>phase_part now_ns phases i =
     [Write ''{"stage":'', Quote (lifecycle_name (int i)),
      Fmt ('',"started_ms":'' @ printf_f 3 (Fin (of_nat (unat (phases ! i)) / 10 ^ 6))
         @ '',"duration_ms":'' @ printf_f 3 (Fin (of_nat (unat (phase_end now_ns phases i - phases ! i)) / 10 ^ 6)) @ ''}'')]\<close>

text \<open>The elements of an array, with commas between them.\<close>

fun with_commas :: "emit list list \<Rightarrow> emit list" where
  "with_commas [] = []"
| "with_commas [p] = p"
| "with_commas (p # ps) = p @ [Write '','' ] @ with_commas ps"

definition lifecycle_part :: "status_help \<Rightarrow> app_state \<Rightarrow> emit list" where
  \<open>lifecycle_part h a =
     [Write '',"lifecycle":{'',
      Fmt (''"generation":'' @ dec (unat (ap_generation a)) @ '',"pid":'' @ dec (pid a)
        @ '',"previous_pid":'' @ dec (ch_previous_pid (ap_child a)) @ '',"spawned_ms":'' @ printf_f 3 (Fin (ch_spawned_ms (ap_child a)))
        @ '',"reaped_ms":'' @ printf_f 3 (Fin (ch_reaped_ms (ap_child a))) @ '',"receipt":''),
      Quote (if jb_receipt_checked (ap_job a) then (if jb_receipt_hit (ap_job a) then ''hit'' else ''miss'') else ''not_checked''),
      Fmt ('',"verified_bytes":'' @ dec (unat (jb_verified_bytes (ap_job a))) @ '',"engine_phases":['')]
     @ with_commas (map (phase_part (sh_now_ns h) (snapshot_phases a))
                (filter (\<lambda>i. snapshot_phases a ! i \<noteq> 0) [phase_index LC_BACKEND..<LC_PHASES]))
     @ [Write '']}'',
        Write '',"request_phase":'', Quote (if generating a then la_phase (sh_last h) else ''idle''),
        Write '',"last_error":{"message":'', Quote (la_message (sh_last h)), Write '',"stage":'', Quote (la_stage (sh_last h)),
        Write '',"model":'', Quote (la_model (sh_last h)), Write '',"backend":'', Quote (la_backend (sh_last h)),
        Fmt ('',"code":'' @ deci (la_code (sh_last h)) @ ''}'')]\<close>

subsection \<open>The processor\<close>

definition execution_rate :: "app_state \<Rightarrow> rat" where
  "execution_rate a =
     (case current_model a of
        Some k \<Rightarrow>
          if ready a \<and> bk_verified (ap_backend a) then
            pm_rate ((if bk_active (ap_backend a) = bk_cpu (ap_backend a) then fst else snd) (pr_history (ap_prefs a) ! k))
          else 0
      | None \<Rightarrow> 0)"

definition execution_part :: "app_state \<Rightarrow> emit list" where
  \<open>execution_part a =
     (let bk = ap_backend a; model = find_model a (Some (active_id a)); gpu = gpu_supported a model;
          mode = (if comparing a \<and> cm_user_mode (ap_compare a) \<noteq> [] then cm_user_mode (ap_compare a) else bk_mode bk);
          rate = Fin (execution_rate a)
      in [Write '',"execution":{"mode":'', Quote (if mode \<noteq> [] then mode else ''auto''),
          Write '',"active":'', Quote (if ready a then (if bk_active bk = bk_cpu bk then ''cpu'' else ''gpu'') else []),
          Write '',"backend":'', Quote (if ready a then bk_active bk else []),
          Write '',"recommended":'', Quote (if recommend_gpu a model then ''gpu'' else ''cpu''),
          Fmt ('',"basis":"hardware","verified":'' @ yes_no (ready a \<and> bk_verified bk) @ '',"gpu_available":'' @ yes_no gpu
            @ '',"gpu_backend":''),
          Quote (bk_gpu bk),
          Write '',"reason":'',
          Quote (if \<not> gpu then ''GPU is not supported by this model and packaged engine.''
                 else if recommend_gpu a model then ''GPU is the default for models of 1 GiB and larger; not a measured comparison.''
                 else ''CPU is the default for models under 1 GiB; not a measured comparison.''),
          Write '',"notice":'', Quote (bk_notice bk),
          Fmt ('',"performance":{"target_tps":'' @ printf_f 1 (Fin 8) @ '',"below_target":'' @ yes_no (app_rate_below_target rate)
            @ '',"rate":''),
          if known_rate rate then Fmt (printf_f 6 rate) else Write ''null'',
          Write ''}}''])\<close>

text \<open>The last measurement of each processor, if there is one.\<close>

definition measured_part :: "app_state \<Rightarrow> bool \<Rightarrow> processor_measurement \<Rightarrow> emit list" where
  \<open>measured_part a gpu x =
     [Fmt (''{"processor":"'' @ (if gpu then ''gpu'' else ''cpu'') @ ''","backend":''),
      Quote (if gpu then bk_gpu (ap_backend a) else bk_cpu (ap_backend a)),
      Fmt ('',"rate":'' @ printf_f 6 (Fin (pm_rate x)) @ '',"first":'' @ printf_f 6 (Fin (pm_first x))
        @ '',"total":'' @ printf_f 6 (Fin (pm_total x)) @ '',"tokens":'' @ printf_f 0 (Fin (pm_tokens x))
        @ '',"rss_bytes":'' @ printf_f 0 (Fin (pm_rss x)) @ '',"recorded_at":'' @ printf_f 0 (Fin (pm_recorded x)) @ ''}'')]\<close>

definition measurements_of :: "app_state \<Rightarrow> (bool \<times> processor_measurement) list" where
  "measurements_of a =
     (case current_model a of
        None \<Rightarrow> []
      | Some k \<Rightarrow> filter (\<lambda>x. pm_recorded (snd x) \<noteq> 0)
          [(False, fst (pr_history (ap_prefs a) ! k)), (True, snd (pr_history (ap_prefs a) ! k))])"

definition comparison_part :: "app_state \<Rightarrow> emit list" where
  \<open>comparison_part a =
     [Fmt ('',"comparison":{"running":'' @ yes_no (comparing a) @ '',"step":'' @ dec (cm_step (ap_compare a)) @ '',"phase":''),
      Quote (cm_phase (ap_compare a)), Write '',"result":'', Quote (cm_result (ap_compare a)), Write ''}'',
      Write '',"performance_history":['']
     @ with_commas (map (\<lambda>(gpu, x). measured_part a gpu x) (measurements_of a)) @ [Write '']'']\<close>

subsection \<open>The machine and the process\<close>

definition hardware_part :: "status_help \<Rightarrow> emit list" where
  \<open>hardware_part h =
     (let x = sh_hardware h in
      [Write '',"hardware":{"name":'', Quote (h_name x), Write '',"arch":'', Quote (h_arch x), Write '',"os":'', Quote (h_os x),
       Fmt ('',"logical_cpus":'' @ dec (unat (h_logical_cpus x))),
       Write '',"device":'', Quote (device_name (h_device x)),
       Fmt ('',"ram":'' @ dec (unat (h_ram x)) @ '',"available":'' @ dec (unat (h_available x)) @ '',"disk":'' @ dec (unat (h_disk x))
         @ '',"cores":'' @ dec (unat (h_cores x)) @ '',"known":'' @ yes_no (sh_known h) @ '',"disk_known":'' @ yes_no (h_disk_known x)
         @ '',"available_known":'' @ yes_no (h_available_known x) @ ''},'')])\<close>

definition process_now :: "status_help \<Rightarrow> app_state \<Rightarrow> app_process_sample option" where
  "process_now h a = (if pid a > 0 then sh_process h else None)"

definition resource_part :: "status_help \<Rightarrow> app_resource_window \<Rightarrow> app_state \<Rightarrow> emit list" where
  \<open>resource_part h w a =
     [Write ''"resources":{"scope":"geistd","rss_bytes":'',
      (case process_now h a of Some s \<Rightarrow> Fmt (dec (unat (s_rss s))) | None \<Rightarrow> Write ''null''),
      Write '',"cpu_percent":'',
      if w_cpu_known w then Fmt (printf_f 2 (Fin (w_cpu_percent w))) else Write ''null'',
      Fmt ('',"cpu_interval_ms":'' @ printf_f 0 (Fin (w_interval_ms w)) @ ''},'')]\<close>

definition live_rss :: "status_help \<Rightarrow> app_state \<Rightarrow> dbl" where
  "live_rss h a =
     (let ob = ap_observe a in
      if pid a > 0 \<and> ob_generation ob = ap_generation a \<and> s_pid (ob_process ob) = int (pid a) \<and> sh_tm h - ob_process_ms ob \<le> 6000
      then Fin (of_nat (unat (s_rss (ob_process ob)))) else Fin (-1))"

definition live_memory :: "status_help \<Rightarrow> app_state \<Rightarrow> app_memory_record" where
  "live_memory h a =
     (let m = (if pid a > 0 \<and> \<not> ap_stopping a then app_memory_reset\<lparr>m_generation := memory_generation 112 a\<rparr> else app_memory_reset)
      in (memory_observe (sh_memory h) a m)\<lparr>m_rss_age_ms :=
           (if pid a > 0 \<and> ob_generation (ap_observe a) = ap_generation a then Fin (sh_tm h - ob_process_ms (ap_observe a)) else Fin (-1))\<rparr>)"

definition process_part :: "status_help \<Rightarrow> app_state \<Rightarrow> emit list" where
  \<open>process_part h a =
     (let jb = ap_job a; loading = (pid a > 0 \<and> \<not> ready a) in
      [Write ''"memory":'', MemoryJson (live_memory h a) (live_rss h a), Write '','',
       Write ''"runtime":"geistd","active":'', Quote (if pid a > 0 then ch_active (ap_child a) else []),
       Write '',"active_id":'', Quote (if pid a > 0 then active_id a else []),
       Write '',"message":'', Quote (ap_message a),
       Write '',"phase":'', Quote (jb_phase jb),
       Write '',"job_model":'', Quote (if jb_running jb then (case jb_model jb of Some m \<Rightarrow> am_id m | None \<Rightarrow> []) else []),
       Fmt ('',"received":'' @ dec (unat (jb_received jb)) @ '',"ready":'' @ yes_no (ready a) @ '',"loading":'' @ yes_no loading
         @ '',"busy":'' @ yes_no (comparing a \<or> jb_running jb \<or> generating a)
         @ '',"inference_busy":'' @ yes_no (comparing a \<or> generating a \<or> (jb_running jb \<and> jb_activate jb) \<or> loading)
         @ '',"background_download":'' @ yes_no (jb_running jb \<and> \<not> jb_activate jb) @ '',"models":['')])\<close>

subsection \<open>The models\<close>

definition geistr_device_gpu :: "app_state \<Rightarrow> nat" where
  "geistr_device_gpu a = (if bk_gpu_available (ap_backend a) then (if bk_gpu (ap_backend a) = ''metal'' then 2 else 4) else 0)"

definition local_models :: "status_help \<Rightarrow> app_state \<Rightarrow> geistr_local list" where
  "local_models h a =
     map (\<lambda>i. let iv = model_inventory (sh_sizes h) a ! i; (cpu, gpu) = pr_speed (ap_prefs a) ! i
              in \<lparr>lo_installed = installed iv, lo_partial = partial_bytes iv, lo_cpu = (pm_rate cpu, pm_first cpu),
                  lo_gpu = (pm_rate gpu, pm_first gpu)\<rparr>)
     [0..<length (ap_models a)]"

definition ranking_of :: "status_help \<Rightarrow> app_state \<Rightarrow> geistr_fit list \<times> geistr_fit option" where
  "ranking_of h a =
     (if rk_count (sh_ranker h) (ap_catalog a) \<noteq> Some (length (ap_models a)) then ([], None)
      else
        case rk_rank (sh_ranker h) (ap_catalog a) (sh_hardware h) (geistr_device_gpu a) (local_models h a) (sh_limits h)
               (if sh_intent h \<noteq> ''chat'' then Some (sh_intent h) else None) of
          Some r \<Rightarrow> r
        | None \<Rightarrow> ([], None))"

definition no_fit :: geistr_fit where
  "no_fit = \<lparr>ft_entry = 0, ft_id = [], ft_verdict = VERDICT_UNKNOWN, ft_basis = BASIS_NONE, ft_reason = ''quality_unknown'',
     ft_processor = PROCESSOR_AUTO, ft_seconds_cpu = Fin (-1), ft_seconds_gpu = Fin (-1), ft_estimated_from = 0, ft_passed = 0,
     ft_total = 0, ft_installed = False\<rparr>"

text \<open>The fit of a model: the last one of the ranking with its entry.\<close>

definition fit_of :: "status_help \<Rightarrow> app_state \<Rightarrow> nat \<Rightarrow> geistr_fit" where
  "fit_of h a i = (case filter (\<lambda>f. ft_entry f = i) (rev (fst (ranking_of h a))) of f # fs \<Rightarrow> f | [] \<Rightarrow> no_fit)"

fun verdict_name :: "geistr_verdict \<Rightarrow> string" where
  "verdict_name VERDICT_GOOD = ''good''"
| "verdict_name VERDICT_USABLE = ''usable''"
| "verdict_name VERDICT_NOT_RECOMMENDED = ''not_recommended''"
| "verdict_name VERDICT_UNKNOWN = ''unknown''"

fun basis_text :: "geistr_basis \<Rightarrow> string" where
  "basis_text BASIS_NONE = ''null''"
| \<open>basis_text BASIS_ESTIMATED = ''"estimated"''\<close>
| \<open>basis_text BASIS_MEASURED = ''"measured"''\<close>

definition processor_part :: "geistr_processor \<Rightarrow> emit" where
  "processor_part p =
     (if p \<noteq> PROCESSOR_AUTO then Quote (if p = PROCESSOR_GPU then ''gpu'' else ''cpu'') else Write ''null'')"

definition fit_number :: "app_fit \<Rightarrow> nat" where
  "fit_number f = (case f of APP_RECOMMENDED \<Rightarrow> 0 | APP_CONDITIONAL \<Rightarrow> 1 | APP_UNAVAILABLE \<Rightarrow> 2)"

text \<open>The machine as it is for a model whose file is on the disk in part.\<close>

definition adjusted_hardware :: "app_hardware \<Rightarrow> app_model \<Rightarrow> u64 \<Rightarrow> app_hardware" where
  "adjusted_hardware x m part =
     (if part \<le> am_bytes m \<and> h_disk_known x \<and> (-1) - h_disk x > part then x\<lparr>h_disk := h_disk x + part\<rparr> else x)"

definition earlier_of :: "app_state \<Rightarrow> nat \<Rightarrow> bool \<times> rat \<times> rat \<times> string" where
  "earlier_of a i =
     (let (cpu, gpu) = pr_history (ap_prefs a) ! i in
      if pm_rate cpu > 0 \<or> pm_rate gpu > 0 then (False, 0, 0, [])
      else perf_earlier (am_sha256 (ap_models a ! i)) (pr_series (ap_prefs a)) (ap_history a))"

definition assessment_of :: "status_help \<Rightarrow> app_state \<Rightarrow> nat \<Rightarrow> app_assessment" where
  "assessment_of h a i =
     (let m = ap_models a ! i; iv = model_inventory (sh_sizes h) a ! i; (cpu, gpu) = pr_history (ap_prefs a) ! i;
          x = app_assess_device (sh_assess h) (adjusted_hardware (sh_hardware h) m (partial_bytes iv)) m (installed iv)
                (Fin (pm_rate cpu)) (gpu_supported a (Some m)) (Fin (pm_rate gpu));
          before = fst (earlier_of a i)
      in if as_reason x = unmeasured_mac \<and> before
         then x\<lparr>as_reason := ''Fits this Mac's memory. Speed measured with an earlier geisten version.''\<rparr>
         else if as_reason x = unmeasured_device \<and> before
         then x\<lparr>as_reason := ''No known resource restriction. Speed measured with an earlier geisten version.''\<rparr>
         else x)"

definition identity_part :: "status_help \<Rightarrow> app_state \<Rightarrow> nat \<Rightarrow> emit list" where
  \<open>identity_part h a i =
     (let m = ap_models a ! i; iv = model_inventory (sh_sizes h) a ! i; x = assessment_of h a i in
      [Write ''{"id":'', Quote (am_id m), Write '',"name":'', Quote (am_name m), Write '',"group_id":'', Quote (am_group_id m),
       Write '',"group_name":'', Quote (am_group_name m), Write '',"quantization":'', Quote (am_quantization m),
       Write '',"sha256":'', Quote (am_sha256 m),
       Fmt ('',"bytes":'' @ dec (unat (am_bytes m)) @ '',"ram_gib":'' @ dec (unat (am_recommended_ram_gib m))
         @ '',"working_mib":'' @ dec (unat (am_working_mib m)) @ '',"installed":'' @ yes_no (installed iv)
         @ '',"partial":'' @ dec (unat (partial_bytes iv)) @ '',"resource_fit":'' @ dec (fit_number (as_fit x))
         @ '',"fit":'' @ dec (fit_number (app_task_fit (as_fit x) APP_QUALITY_UNVERIFIED)) @ '',"quality":"unverified","reason":''),
       Quote (as_reason x),
       Write '',"quality_evidence":'', Write (case am_quality m of Some t \<Rightarrow> t | None \<Rightarrow> ''null''),
       Write '',"reference":'', Write (case am_reference m of Some t \<Rightarrow> t | None \<Rightarrow> ''null''),
       Write '',"capabilities":{"chat":true,"vision":false,"speech_recognition":false}'',
       Fmt ('',"preview_accepted":'' @ yes_no (pr_preview (ap_prefs a) ! i)),
       Write '',"performance":'', Quote (as_performance x)])\<close>

definition speed_part :: "app_state \<Rightarrow> nat \<Rightarrow> emit list" where
  \<open>speed_part a i =
     (let (cpu, gpu) = pr_history (ap_prefs a) ! i; (before, c, g, version) = earlier_of a i in
      [Write '',"speed":{"cpu":'', numeric_rate (Fin (pm_rate cpu)), Write '',"gpu":'', numeric_rate (Fin (pm_rate gpu)),
       Write ''},"earlier":'']
      @ (if before then [Write ''{"engine":'', Quote version, Write '',"cpu":'', numeric_rate (Fin c), Write '',"gpu":'', numeric_rate (Fin g), Write ''}'']
         else [Write ''null'']))\<close>

definition verdict_part :: "status_help \<Rightarrow> app_state \<Rightarrow> nat \<Rightarrow> emit list" where
  \<open>verdict_part h a i =
     (let f = fit_of h a i; (cpu, gpu) = pr_speed (ap_prefs a) ! i; on_gpu = gpu_supported a (Some (ap_models a ! i));
          estimated = (\<not> pm_rate cpu > 0 \<and> \<not> (on_gpu \<and> pm_rate gpu > 0))
      in [Write '',"verdict":{"basis":'', Write (basis_text (ft_basis f)), Write '',"value":'', Quote (verdict_name (ft_verdict f)),
          Write '',"reason":'', Quote (ft_reason f), Write '',"processor":'', processor_part (ft_processor f),
          Write '',"seconds":{"cpu":'', numeric_rate (ft_seconds_cpu f), Write '',"gpu":'', numeric_rate (ft_seconds_gpu f),
          Write ''},"measured_at":{"cpu":'', numeric_rate (if estimated then Fin (-1) else Fin (pm_recorded cpu)),
          Write '',"gpu":'', numeric_rate (if estimated \<or> \<not> on_gpu then Fin (-1) else Fin (pm_recorded gpu)),
          Fmt (''},"estimated_from":'' @ dec (ft_estimated_from f)),
          Write '',"passed":'',
          if ft_total f \<noteq> 0 then Fmt (dec (ft_passed f) @ '',"total":'' @ dec (ft_total f) @ ''}'') else Write ''null,"total":null}'',
          Write ''}''])\<close>

definition model_part :: "status_help \<Rightarrow> app_state \<Rightarrow> nat \<Rightarrow> emit list" where
  "model_part h a i = identity_part h a i @ speed_part a i @ verdict_part h a i"

subsection \<open>The choice and the settings\<close>

definition choice_part :: "status_help \<Rightarrow> app_state \<Rightarrow> emit list" where
  \<open>choice_part h a =
     (case ranking_of h a of
        (ranked, best) \<Rightarrow>
          [Write ''],"ranking":['']
          @ with_commas (map (\<lambda>f. [Quote (ft_id f)]) ranked)
          @ [Write ''],"best_choice":'']
          @ (case best of
               None \<Rightarrow> [Write ''null'']
             | Some f \<Rightarrow>
                 [Write ''{"id":'', Quote (ft_id f), Write '',"verdict":'', Quote (verdict_name (ft_verdict f)),
                  Fmt ('',"action":"'' @ (if ready a \<and> active_id a = ft_id f then ''active'' else if ft_installed f then ''start'' else ''download'')
                    @ ''","basis":'' @ basis_text (ft_basis f)),
                  Write '',"processor":'', processor_part (ft_processor f), Write ''}'']))\<close>

definition settings_part :: "status_help \<Rightarrow> app_state \<Rightarrow> emit list" where
  \<open>settings_part h a =
     (let l = sh_limits h;
          artifact = (case current_model a of Some k \<Rightarrow> fit 65 (am_sha256 (ap_models a ! k)) | None \<Rightarrow> [])
      in [Fmt ('',"limits":{"fast_s":'' @ sh_fmt_g h (fast_s l) @ '',"usable_s":'' @ sh_fmt_g h (usable_s l)
            @ '',"reliable":'' @ sh_fmt_g h (reliable l) @ '',"intent":"'' @ sh_intent h @ ''"}''),
          Write '',"performance_profile":'',
          ViewJson artifact (pr_series (ap_prefs a)) (bk_cpu (ap_backend a)) (bk_gpu (ap_backend a)) (ap_history a),
          Write ''}''])\<close>

definition status_parts :: "status_help \<Rightarrow> app_resource_window \<Rightarrow> app_state \<Rightarrow> emit list" where
  "status_parts h w a =
     head_part h a @ activity_part h a @ lifecycle_part h a @ execution_part a @ comparison_part a @ hardware_part h
     @ resource_part h w a @ process_part h a @ with_commas (map (model_part h a) [0..<length (ap_models a)])
     @ choice_part h a @ settings_part h a"

definition STATUS_CAP :: nat where "STATUS_CAP = 65536"

text \<open>\<open>room\<close> is whether the arena has the 64 KiB of the document. The window of the processor time goes on from call to
  call.\<close>

definition status_response ::
    "status_help \<Rightarrow> bool \<Rightarrow> app_resource_window \<Rightarrow> app_state \<Rightarrow> (nat \<times> string + string) \<times> app_resource_window" where
  "status_response h room w a =
     (if \<not> room then (Inl (503, ''Request memory budget exhausted.''), w)
      else
        let w1 = app_resource_update (process_now h a) (unat (h_logical_cpus (sh_hardware h))) w in
        (case built STATUS_CAP (map perform (status_parts h w1 a)) of
           None \<Rightarrow> Inl (503, ''Status exceeds the response memory budget.'')
         | Some body \<Rightarrow> Inr body, w1))"

end
