(* ===== verification/JsonShape.thy ===== *)
theory JsonShape
  imports Profile Proxy Wire
begin

section \<open>The objects the application writes\<close>

text \<open>
  Which JSON value a sequence of statements writes: the text of every statement is known, and the texts in
  a row are the text of the value. The trace of an activity and the profile of a model are such values; a string is
  written up to its first zero byte. \<open>prints\<close> is what C promises of the text of a double, of which the
  rationals of the model stand for a part.
\<close>

definition prints :: "dbl \<Rightarrow> bool" where
  "prints x \<longleftrightarrow> prim_ok (num_text x)"

lemma prints_negative: "q < 0 \<Longrightarrow> prints (Fin q)"
  by (simp add: prints_def num_text_def)

subsection \<open>Texts of statements\<close>

lemma writes_via: "writes f t \<Longrightarrow> t = u \<Longrightarrow> writes f u"
  by simp

lemma writes_stmts_Nil: "writes (stmts []) []"
  using writes_stmts [of "[]" "[]"] by simp

lemma writes_stmts_Cons: "writes f t \<Longrightarrow> writes (stmts fs) u \<Longrightarrow> writes (stmts (f # fs)) (t @ u)"
proof -
  assume "writes f t" and "writes (stmts fs) u"
  from writes_comp [OF this] have "writes (\<lambda>b. stmts fs (f b)) (t @ u)" .
  moreover have "stmts (f # fs) = (\<lambda>b. stmts fs (f b))" by (rule ext) simp
  ultimately show ?thesis by (simp only:)
qed

lemma stmts_append: "stmts (fs @ gs) b = stmts gs (stmts fs b)"
  by (induction fs arbitrary: b) auto

lemma writes_stmts_append: "writes (stmts fs) t \<Longrightarrow> writes (stmts gs) u \<Longrightarrow> writes (stmts (fs @ gs)) (t @ u)"
  using writes_comp [of "stmts fs" t "stmts gs" u] by (simp add: stmts_append [abs_def])

lemma writes_choice: "writes f s \<Longrightarrow> writes g t \<Longrightarrow> writes (if P then f else g) (if P then s else t)"
  by simp

lemma writes_stmts_choice:
  "writes (stmts fs) s \<Longrightarrow> writes (stmts gs) t \<Longrightarrow> writes (stmts (if P then fs else gs)) (if P then s else t)"
  by simp

lemmas statement_texts = writes_stmts_Nil writes_stmts_Cons writes_stmts_append writes_choice writes_stmts_choice
  writes_put writes_printf writes_quote writes_number

lemma quoted_render: "quoted_text s = render app_esc (JStr (cstr s))"
  by (simp add: quoted_text_def quoted_def)

text \<open>The members behind the first one.\<close>

definition more :: "(string \<times> jval) list \<Rightarrow> string" where
  "more fs = concat (map (\<lambda>(k, v). CHR '','' # key_text k @ render app_esc v) fs)"

lemma render_fields_more: "render_fields app_esc (f # fs) = key_text (fst f) @ render app_esc (snd f) @ more fs"
  by (induction fs arbitrary: f) (auto simp: more_def key_text_def)

lemma render_object: "render app_esc (JObj ((k, v) # fs)) = CHR ''{'' # key_text k @ render app_esc v @ more fs @ ''}''"
  by (simp only: render.simps render_fields_more) simp

lemma more_simps: "more [] = []" "more ((k, v) # fs) = CHR '','' # key_text k @ render app_esc v @ more fs"
  "more (fs @ gs) = more fs @ more gs"
  by (simp_all add: more_def)

lemma render_elems_snoc: "render_elems app_esc (vs @ [v]) = render_elems app_esc vs @ (if vs = [] then [] else '','') @ render app_esc v"
  by (induction vs) auto

text \<open>A key that is written as it is.\<close>

lemma key_text_plain: "plain k \<Longrightarrow> key_text k = DQUOTE # k @ [DQUOTE, CHR '':'']"
  by (simp add: key_text_def quoted_def app_esc_plain)

lemma jfields_ok_all: "jfields_ok fs \<longleftrightarrow> (\<forall>x \<in> set fs. jval_ok (snd x))"
  by (induction fs) auto

lemma jvals_ok_all: "jvals_ok vs \<longleftrightarrow> (\<forall>v \<in> set vs. jval_ok v)"
  by (induction vs) auto

lemma prim_ok_yes_no [simp]: "prim_ok (yes_no b)"
  by (simp add: yes_no_def)

lemma cstr_literal: "NUL \<notin> set s \<Longrightarrow> cstr s = s"
  by (rule cstr_id)

subsection \<open>Numbers\<close>

lemma number_char: "is_digit c \<or> c = CHR ''.'' \<Longrightarrow> \<not> prim_end c \<and> 32 \<le> byte c \<and> byte c < 127"
  using digit_inside [of c] by (auto simp: prim_end_def)

lemma fixed_point_ok [simp]: "prim_ok (fixed_point k q)"
proof -
  define n where "n = nat (round_even (\<bar>q\<bar> * 10 ^ k))"
  define body where "body = dec (n div 10 ^ k) @ (if k = 0 then [] else CHR ''.'' # pad0 k (dec (n mod 10 ^ k)))"
  have f: "fixed_point k q = (if q < 0 then ''-'' else []) @ body"
    by (simp add: fixed_point_def Let_def n_def body_def)
  have "\<forall>c \<in> set (dec m). is_digit c" for m using dec_digits [of m] by (simp add: list_all_iff)
  moreover have "is_digit (CHR ''0'')" by (simp add: is_digit_def)
  ultimately have "\<forall>c \<in> set body. is_digit c \<or> c = CHR ''.''" by (auto simp: body_def pad0_def)
  then have 1: "\<forall>c \<in> set body. \<not> prim_end c \<and> 32 \<le> byte c \<and> byte c < 127" using number_char by blast
  have 2: "body \<noteq> []" "is_digit (hd body)" using dec_nonempty dec_hd by (auto simp: body_def hd_append)
  have 3: "prim_start (CHR ''-'')" "\<not> prim_end (CHR ''-'')" by (simp_all add: prim_start_def prim_end_def)
  show ?thesis using 1 2 3 digit_start [OF 2(2)] unfolding f by (auto simp: prim_ok_def)
qed

lemma printf_f_ok [simp]: "prim_ok (printf_f k (Fin q))"
  by (simp add: printf_f_def)

lemma printf_f_finite: "dfinite x \<Longrightarrow> prim_ok (printf_f k x)"
  by (cases x) (simp_all add: dfinite_def)

lemma prim_ok_deci [simp]: "prim_ok (deci i)"
proof (cases "i < 0")
  case True
  have "prim_ok (dec (nat (- i)))" by simp
  then show ?thesis using True by (auto simp: deci_def prim_ok_def prim_start_def prim_end_def)
qed (simp add: deci_def)

subsection \<open>A trace\<close>

definition ms_text :: "rat \<Rightarrow> jval" where
  "ms_text x = JPrim (printf_f 3 (Fin x))"

definition phase_tree :: "activity \<Rightarrow> rat \<Rightarrow> nat \<Rightarrow> jval" where
  "phase_tree a tm i = JObj
     [(''stage'', JStr (cstr (activity_name (ph_stage (ac_phase a ! i))))),
      (''offset_ms'', ms_text (ph_start (ac_phase a ! i) - ac_started a)),
      (''duration_ms'', ms_text (if i + 1 = length (ac_phase a) \<and> ac_outcome a = [] then tm - ph_start (ac_phase a ! i)
                                 else ph_duration (ac_phase a ! i)))]"

definition activity_tree :: "activity \<Rightarrow> rat \<Rightarrow> bool \<Rightarrow> jval" where
  "activity_tree a tm alive =
     (if ac_id a = 0 then JPrim ''null''
      else
        let fin = (if ac_outcome a \<noteq> [] then ac_ended a else tm); final = ac_phase a ! (length (ac_phase a) - 1) in JObj
        [(''id'', JPrim (dec (unat (ac_id a)))), (''generation'', JPrim (dec (unat (ac_generation a)))),
         (''sequence'', JPrim (dec (unat (ac_sequence a)))), (''stage'', JStr (cstr (activity_name (ac_stage a)))),
         (''elapsed_ms'', ms_text (fin - ac_started a)), (''stage_elapsed_ms'', ms_text (fin - ph_start final)),
         (''event_age_ms'', ms_text (tm - ac_event_at a)), (''runtime_alive'', JPrim (if alive then ''true'' else ''false'')),
         (''progress_events'', JPrim (dec (unat (ac_progress a)))), (''error_code'', JPrim (deci (ac_error a))),
         (''outcome'', JStr (cstr (ac_outcome a))), (''backend'', JStr (cstr (ac_backend a))), (''model'', JStr (cstr (ac_model a))),
         (''engine'', JObj (engine_tree (ac_engine a))),
         (''phases'', JArr (map (phase_tree a tm) [0..<length (ac_phase a)]))])"

text \<open>The elements of an array that is written with an index.\<close>

lemma writes_elements:
  assumes "\<And>i. i < n \<Longrightarrow> writes (stmts (f i)) (render app_esc (v i))"
  shows "writes (stmts (concat (map (\<lambda>i. (if 0 < i then [app_put '','' ] else []) @ f i) [0..<n])))
     (render_elems app_esc (map v [0..<n]))"
  using assms
proof (induction n)
  case 0
  show ?case using writes_id by simp
next
  case (Suc n)
  have c: "writes (stmts (if 0 < n then [app_put '','' ] else [])) (if 0 < n then '','' else [])"
    using writes_stmts_Cons [OF writes_put writes_stmts_Nil, of "'',''"] writes_stmts_Nil by (auto simp: cstr_def)
  have "writes (stmts (concat (map (\<lambda>i. (if 0 < i then [app_put '','' ] else []) @ f i) [0..<n])
      @ ((if 0 < n then [app_put '','' ] else []) @ f n)))
     (render_elems app_esc (map v [0..<n]) @ (if 0 < n then '','' else []) @ render app_esc (v n))"
    using Suc by (intro writes_stmts_append c) auto
  moreover have "map v [0..<n] = [] \<longleftrightarrow> \<not> 0 < n" by simp
  ultimately show ?case
    by (simp only: upt_Suc_append [OF le0] map_append list.map concat_append concat.simps append_Nil2 render_elems_snoc if_not_P)
      (cases n; simp only: less_irrefl zero_less_Suc if_True if_False simp_thms append_Nil)
qed

lemma writes_phase:
  \<open>writes (stmts [app_put ''{"stage":'', app_quote (activity_name (ph_stage (ac_phase a ! i))),
      app_printf ('',"offset_ms":'' @ printf_f 3 (Fin (ph_start (ac_phase a ! i) - ac_started a)) @ '',"duration_ms":''
        @ printf_f 3 (Fin (if i + 1 = length (ac_phase a) \<and> ac_outcome a = [] then tm - ph_start (ac_phase a ! i)
                           else ph_duration (ac_phase a ! i))) @ ''}'')])
     (render app_esc (phase_tree a tm i))\<close>
  by (rule writes_via, (rule statement_texts)+)
    (simp add: phase_tree_def ms_text_def render_object more_simps key_text_plain plain_def quoted_render cstr_literal del: render.simps(4))

lemma writes_activity:
  assumes "engine_strings (ac_engine a)"
  shows "writes (activity_json a tm alive) (render app_esc (activity_tree a tm alive))"
proof (cases "ac_id a = 0")
  case True
  then show ?thesis using writes_put [of "''null''"] by (simp add: activity_json_def [abs_def] activity_tree_def cstr_literal)
next
  case False
  show ?thesis
    unfolding activity_json_def [abs_def] Let_def if_not_P [OF False]
    by (rule writes_via, (rule writes_elements writes_phase statement_texts writes_engine [OF assms])+)
      (simp add: activity_tree_def False ms_text_def render_object more_simps key_text_plain plain_def quoted_render cstr_literal Let_def
        del: render.simps(4))
qed

lemma activity_tree_ok: "jval_ok (activity_tree a tm alive)"
  by (auto simp: activity_tree_def ms_text_def phase_tree_def jvals_ok_all engine_tree_def engine_lib_def or_null_def Let_def)

subsection \<open>A profile\<close>

definition group_tree :: "perf_record option \<Rightarrow> jval" where
  "group_tree g =
     (if no_id g then JPrim ''null''
      else let r = the g in JObj
        [(''input'', JPrim (dec (input_class (r_input r)))), (''output'', JPrim (dec (output_class (r_output r)))),
         (''cached'', JPrim (yes_no (r_reused r > 0))), (''cold'', JPrim (yes_no (r_cold r))),
         (''contention'', JPrim (yes_no (r_contention r))), (''controlled'', JPrim (yes_no (r_source r = ''controlled_test'')))])"

lemma writes_group: "writes (stmts (group_json g)) (render app_esc (group_tree g))"
proof (cases "no_id g")
  case True
  show ?thesis unfolding group_json_def if_P [OF True]
    by (rule writes_via, (rule statement_texts)+) (simp add: group_tree_def True cstr_literal)
next
  case False
  show ?thesis unfolding group_json_def if_not_P [OF False] Let_def
    by (rule writes_via, (rule statement_texts)+)
      (simp add: group_tree_def False render_object more_simps key_text_plain plain_def Let_def del: render.simps(4))
qed

definition median_of :: "(perf_record \<Rightarrow> rat) \<Rightarrow> perf_record list \<Rightarrow> jval" where
  "median_of f rs = JPrim (num_text (Fin (percentile (filter (\<lambda>v. v \<ge> 0) (map f rs)) (1 / 2))))"

definition aggregate_tree :: "perf_record list \<Rightarrow> jval" where
  "aggregate_tree rs =
     (if rs = [] then JPrim ''null''
      else JObj
        [(''count'', JPrim (dec (length rs))), (''backend'', JStr (cstr (r_backend (hd rs)))),
         (''engine'', JObj (engine_tree (r_engine (hd rs)))), (''rate'', median_of reply_rate rs),
         (''q25'', JPrim (num_text (Fin (percentile (map reply_rate rs) (1 / 4))))),
         (''q75'', JPrim (num_text (Fin (percentile (map reply_rate rs) (3 / 4))))),
         (''first'', median_of (\<lambda>r. drat (r_first_ns r) / 10 ^ 9) rs),
         (''first_answer'', median_of (\<lambda>r. drat (r_first_answer_ns r) / 10 ^ 9) rs),
         (''first_answer_count'', JPrim (dec (length (filter (\<lambda>r. drat (r_first_answer_ns r) \<ge> 0) rs)))),
         (''total'', median_of (\<lambda>r. drat (r_total_ns r) / 10 ^ 9) rs), (''tokens'', median_of (\<lambda>r. of_nat (r_output r)) rs),
         (''rss_bytes'', median_of (\<lambda>r. drat (r_rss r)) rs), (''sampled_peak_rss'', median_of (\<lambda>r. drat (r_peak_rss r)) rs),
         (''gpu_allocated_bytes'', median_of (\<lambda>r. if m_status (r_memory r) = 1 then drat (m_gpu_end (r_memory r)) else -1) rs),
         (''gpu_sampled_peak'', median_of (\<lambda>r. if m_gpu_samples (r_memory r) \<noteq> 0 then drat (m_gpu_peak (r_memory r)) else -1) rs),
         (''gpu_known_count'', JPrim (dec (length (filter (\<lambda>r. m_status (r_memory r) = 1) rs)))),
         (''recorded_at'', JPrim (printf_f 0 (r_timestamp (hd rs))))])"

lemma writes_agg:
  assumes "plain name" and "NUL \<notin> set name"
  shows "writes (stmts (agg name f rs)) (CHR '','' # key_text name @ render app_esc (median_of f rs))"
proof -
  have k: \<open>cstr ('',"'' @ name @ ''":'') = CHR '','' # key_text name\<close>
    using assms by (subst cstr_id) (simp_all add: key_text_plain)
  show ?thesis unfolding agg_def
    by (rule writes_via, (rule statement_texts)+) (simp add: k [simplified] median_of_def)
qed

lemma agg_names:
  "writes (stmts (agg ''rate'' f rs)) (CHR '','' # key_text ''rate'' @ render app_esc (median_of f rs))"
  "writes (stmts (agg ''first'' f rs)) (CHR '','' # key_text ''first'' @ render app_esc (median_of f rs))"
  "writes (stmts (agg ''first_answer'' f rs)) (CHR '','' # key_text ''first_answer'' @ render app_esc (median_of f rs))"
  "writes (stmts (agg ''total'' f rs)) (CHR '','' # key_text ''total'' @ render app_esc (median_of f rs))"
  "writes (stmts (agg ''tokens'' f rs)) (CHR '','' # key_text ''tokens'' @ render app_esc (median_of f rs))"
  "writes (stmts (agg ''rss_bytes'' f rs)) (CHR '','' # key_text ''rss_bytes'' @ render app_esc (median_of f rs))"
  "writes (stmts (agg ''sampled_peak_rss'' f rs)) (CHR '','' # key_text ''sampled_peak_rss'' @ render app_esc (median_of f rs))"
  "writes (stmts (agg ''gpu_allocated_bytes'' f rs)) (CHR '','' # key_text ''gpu_allocated_bytes'' @ render app_esc (median_of f rs))"
  "writes (stmts (agg ''gpu_sampled_peak'' f rs)) (CHR '','' # key_text ''gpu_sampled_peak'' @ render app_esc (median_of f rs))"
  by (rule writes_agg; simp add: plain_def)+

lemma writes_aggregate:
  assumes "rs \<noteq> [] \<Longrightarrow> engine_strings (r_engine (hd rs))"
  shows "writes (stmts (aggregate rs)) (render app_esc (aggregate_tree rs))"
proof (cases "rs = []")
  case True
  show ?thesis unfolding aggregate_def if_P [OF True]
    by (rule writes_via, (rule statement_texts)+) (simp add: aggregate_tree_def True cstr_literal)
next
  case False
  show ?thesis unfolding aggregate_def if_not_P [OF False]
    by (rule writes_via, (rule agg_names statement_texts writes_engine [OF assms [OF False]])+)
      (simp add: aggregate_tree_def False render_object more_simps key_text_plain plain_def quoted_render cstr_literal
        del: render.simps(4))
qed

definition recent_tree :: "string \<Rightarrow> perf_record option \<Rightarrow> perf_record \<Rightarrow> jval" where
  "recent_tree series g r = JObj
     [(''id'', JStr (cstr (r_id r))), (''backend'', JStr (cstr (r_backend r))), (''source'', JStr (cstr (r_source r))),
      (''outcome'', JStr (cstr (r_outcome r))), (''engine'', JObj (engine_tree (r_engine r))),
      (''timestamp'', JPrim (printf_f 0 (r_timestamp r))), (''generation_ns'', JPrim (printf_f 0 (r_generation_ns r))),
      (''input'', JPrim (dec (r_input r))), (''output'', JPrim (dec (r_output r))), (''warmup'', JPrim (yes_no (r_warmup r))),
      (''contention'', JPrim (yes_no (r_contention r))),
      (''historical'', JPrim (yes_no (r_series r \<noteq> series \<or> (\<not> no_id g \<and> r_engine r \<noteq> r_engine (the g)))))]"

lemma writes_recent:
  assumes "engine_strings (r_engine r)"
  shows \<open>writes (stmts [app_put ''{"id":'', app_quote (r_id r), app_put '',"backend":'', app_quote (r_backend r),
        app_put '',"source":'', app_quote (r_source r), app_put '',"outcome":'', app_quote (r_outcome r),
        app_put '',"engine":'', app_engine_json (r_engine r),
        app_printf ('',"timestamp":'' @ printf_f 0 (r_timestamp r) @ '',"generation_ns":'' @ printf_f 0 (r_generation_ns r)
          @ '',"input":'' @ dec (r_input r) @ '',"output":'' @ dec (r_output r) @ '',"warmup":'' @ yes_no (r_warmup r)
          @ '',"contention":'' @ yes_no (r_contention r) @ '',"historical":''
          @ yes_no (r_series r \<noteq> series \<or> (\<not> no_id g \<and> r_engine r \<noteq> r_engine (the g))) @ ''}'')])
     (render app_esc (recent_tree series g r))\<close>
  by (rule writes_via, (rule statement_texts writes_engine [OF assms])+)
    (simp add: recent_tree_def render_object more_simps key_text_plain plain_def quoted_render cstr_literal del: render.simps(4))

definition view_tree :: "string \<Rightarrow> string \<Rightarrow> string \<Rightarrow> string \<Rightarrow> history \<Rightarrow> jval" where
  "view_tree artifact series cpu gpu p =
     (let v = profile_of artifact series cpu gpu (p_records p) in JObj
      [(''enabled'', JPrim (yes_no (p_enabled p))), (''days'', JPrim (dec (p_days p))), (''error'', JPrim (yes_no (p_error p))),
       (''dropped'', JPrim (dec (unat (p_dropped p)))), (''invalid'', JPrim (dec (unat (p_invalid p)))),
       (''persisted'', JPrim (dec (unat (p_persisted p)))), (''retained'', JPrim (dec (length (p_records p)))),
       (''pending'', JPrim (dec (q_len (p_queue p)))), (''limit'', JPrim (dec PERF_RECORDS)), (''artifact'', JStr (cstr artifact)),
       (''group'', group_tree (pf_group v)), (''cpu_group'', group_tree (pf_ref_cpu v)), (''gpu_group'', group_tree (pf_ref_gpu v)),
       (''cpu'', aggregate_tree (pf_cpu v)), (''gpu'', aggregate_tree (pf_gpu v)),
       (''recent'', JArr (map (\<lambda>i. recent_tree series (pf_group v) (pf_recent v ! i)) [0..<length (pf_recent v)]))])"

text \<open>The records of a profile are records of the history.\<close>

definition profile_records :: "profile \<Rightarrow> perf_record set" where
  "profile_records v = set (pf_recent v) \<union> set (pf_cpu v) \<union> set (pf_gpu v)"

lemma group_sample_records: "group_sample r (x, rs) = (ref, ss) \<Longrightarrow> set ss \<subseteq> insert r (set rs)"
  by (auto simp: group_sample_def Let_def split: if_splits)

lemma profile_step_records: "profile_records (profile_step artifact series cpu gpu r v) \<subseteq> insert r (profile_records v)"
proof -
  define v1 where "v1 = (if length (pf_recent v) < 12 then v\<lparr>pf_recent := pf_recent v @ [r]\<rparr> else v)"
  define v2 where "v2 = decide_group r v1"
  obtain c cs where c: "group_sample r (pf_ref_cpu v2, pf_cpu v2) = (c, cs)" by fastforce
  obtain g gs where g: "group_sample r (pf_ref_gpu v2, pf_gpu v2) = (g, gs)" by fastforce
  have 1: "profile_records v1 \<subseteq> insert r (profile_records v)" by (auto simp: v1_def profile_records_def)
  have "profile_records v2 = profile_records v1" by (simp add: v2_def decide_group_def profile_records_def)
  with 1 have 2: "profile_records v2 \<subseteq> insert r (profile_records v)" by simp
  have 3: "profile_records (v2\<lparr>pf_ref_cpu := c, pf_cpu := cs\<rparr>) \<subseteq> insert r (profile_records v)"
    using group_sample_records [OF c] 2 by (auto simp: profile_records_def)
  have 4: "profile_records (v2\<lparr>pf_ref_gpu := g, pf_gpu := gs\<rparr>) \<subseteq> insert r (profile_records v)"
    using group_sample_records [OF g] 2 by (auto simp: profile_records_def)
  have "profile_step artifact series cpu gpu r v \<in> {v, v1, v2, v2\<lparr>pf_ref_cpu := c, pf_cpu := cs\<rparr>, v2\<lparr>pf_ref_gpu := g, pf_gpu := gs\<rparr>}"
    unfolding profile_step_def Let_def v1_def [symmetric] v2_def [symmetric] c g prod.case by simp
  then show ?thesis using 1 2 3 4 by auto
qed

lemma profile_of_records: "profile_records (profile_of artifact series cpu gpu records) \<subseteq> set records"
proof -
  have "profile_records (fold (profile_step artifact series cpu gpu) xs v) \<subseteq> set xs \<union> profile_records v" for xs v
  proof (induction xs arbitrary: v)
    case (Cons x xs)
    from Cons.IH [of "profile_step artifact series cpu gpu x v"] profile_step_records [of artifact series cpu gpu x v]
    show ?case by auto
  qed simp
  from this [of "rev records" no_profile] show ?thesis by (simp add: profile_of_def no_profile_def profile_records_def)
qed

lemma writes_view:
  assumes "\<forall>r \<in> set (p_records p). engine_strings (r_engine r)"
  shows "writes (perf_view artifact series cpu gpu p) (render app_esc (view_tree artifact series cpu gpu p))"
proof -
  define v where "v = profile_of artifact series cpu gpu (p_records p)"
  have r: "engine_strings (r_engine x)" if "x \<in> profile_records v" for x
    using that profile_of_records assms unfolding v_def by blast
  have c: "pf_cpu v \<noteq> [] \<Longrightarrow> engine_strings (r_engine (hd (pf_cpu v)))" and g: "pf_gpu v \<noteq> [] \<Longrightarrow> engine_strings (r_engine (hd (pf_gpu v)))"
    by (rule r, simp add: profile_records_def)+
  have n: "engine_strings (r_engine (pf_recent v ! i))" if "i < length (pf_recent v)" for i
    using that by (intro r) (simp add: profile_records_def)
  show ?thesis
    unfolding perf_view_def [abs_def] Let_def v_def [symmetric] recent_json_def
    by (rule writes_via, (rule writes_elements writes_group writes_aggregate c g writes_recent n statement_texts | assumption)+)
      (simp add: view_tree_def v_def render_object more_simps key_text_plain plain_def quoted_render cstr_literal Let_def
        del: render.simps(4))
qed

text \<open>The numbers of a group that are printed as doubles.\<close>

definition agg_values :: "perf_record list \<Rightarrow> (perf_record \<Rightarrow> rat) list" where
  "agg_values rs =
     [reply_rate, \<lambda>r. drat (r_first_ns r) / 10 ^ 9, \<lambda>r. drat (r_first_answer_ns r) / 10 ^ 9, \<lambda>r. drat (r_total_ns r) / 10 ^ 9,
      \<lambda>r. of_nat (r_output r), \<lambda>r. drat (r_rss r), \<lambda>r. drat (r_peak_rss r),
      \<lambda>r. if m_status (r_memory r) = 1 then drat (m_gpu_end (r_memory r)) else -1,
      \<lambda>r. if m_gpu_samples (r_memory r) \<noteq> 0 then drat (m_gpu_peak (r_memory r)) else -1]"

definition agg_prints :: "perf_record list \<Rightarrow> bool" where
  "agg_prints rs \<longleftrightarrow>
     (\<forall>f \<in> set (agg_values rs). prints (Fin (percentile (filter (\<lambda>v. v \<ge> 0) (map f rs)) (1 / 2))))
     \<and> prints (Fin (percentile (map reply_rate rs) (1 / 4))) \<and> prints (Fin (percentile (map reply_rate rs) (3 / 4)))"

lemma aggregate_tree_ok:
  assumes "agg_prints rs" and "\<forall>r \<in> set rs. dfinite (r_timestamp r)"
  shows "jval_ok (aggregate_tree rs)"
proof (cases "rs = []")
  case False
  then have "dfinite (r_timestamp (hd rs))" using assms(2) by simp
  then show ?thesis
    using assms(1) False printf_f_finite [of "r_timestamp (hd rs)" 0]
    by (simp add: aggregate_tree_def agg_prints_def agg_values_def prints_def median_of_def engine_tree_def engine_lib_def or_null_def)
qed (simp add: aggregate_tree_def)

definition view_prints :: "profile \<Rightarrow> bool" where
  "view_prints v \<longleftrightarrow> agg_prints (pf_cpu v) \<and> agg_prints (pf_gpu v)"

lemma view_tree_ok:
  assumes "\<forall>r \<in> set (p_records p). dfinite (r_timestamp r) \<and> dfinite (r_generation_ns r)"
    and "view_prints (profile_of artifact series cpu gpu (p_records p))"
  shows "jval_ok (view_tree artifact series cpu gpu p)"
proof -
  define v where "v = profile_of artifact series cpu gpu (p_records p)"
  have r: "dfinite (r_timestamp x)" "dfinite (r_generation_ns x)" if "x \<in> profile_records v" for x
    using that profile_of_records assms(1) unfolding v_def by blast+
  have "jval_ok (aggregate_tree (pf_cpu v))" "jval_ok (aggregate_tree (pf_gpu v))"
    using assms(2) r by (auto simp: view_prints_def v_def [symmetric] profile_records_def intro!: aggregate_tree_ok)
  moreover have "jval_ok (group_tree g)" for g by (simp add: group_tree_def Let_def)
  moreover have "jval_ok (recent_tree series g (pf_recent v ! i))" if "i < length (pf_recent v)" for g i
    using that r [of "pf_recent v ! i"] printf_f_finite
    by (simp add: recent_tree_def profile_records_def engine_tree_def engine_lib_def or_null_def)
  ultimately show ?thesis by (auto simp: view_tree_def v_def [symmetric] Let_def jvals_ok_all)
qed

end
