(* ===== verification/StatusTree.thy ===== *)
theory StatusTree
  imports StatusDoc JsonShape
begin

section \<open>The status document is one JSON object\<close>

text \<open>
  The members of the document as a tree, part by part in the order of the statements, and that the statements
  write it. The tree has what the state has; a string is cut at its first zero byte.
\<close>

lemma writes_perform:
  "writes (perform (Write s)) (cstr s)" "writes (perform (Fmt s)) s" "writes (perform (Quote s)) (quoted_text s)"
  "writes (perform (TraceJson x tm alive)) (render app_esc (activity_tree x tm alive))" if "engine_strings (ac_engine x)"
  using writes_put writes_printf writes_quote writes_activity [OF that] by simp_all

lemma writes_perform_text:
  "writes (perform (Write s)) (cstr s)" "writes (perform (Fmt s)) s" "writes (perform (Quote s)) (quoted_text s)"
  using writes_put writes_printf writes_quote by simp_all

lemma writes_perform_if: "writes (perform x) s \<Longrightarrow> writes (perform y) t \<Longrightarrow> writes (perform (if P then x else y)) (if P then s else t)"
  by simp

definition rate_value :: "dbl \<Rightarrow> jval" where
  "rate_value x = JPrim (if known_rate x then printf_f 2 x else ''null'')"

lemma writes_rate: "writes (perform (numeric_rate x)) (render app_esc (rate_value x))"
  using writes_perform_text(1) [of "''null''"] writes_perform_text(2) by (simp add: numeric_rate_def rate_value_def cstr_literal)

definition processor_value :: "geistr_processor \<Rightarrow> jval" where
  "processor_value p = (if p \<noteq> PROCESSOR_AUTO then JStr (if p = PROCESSOR_GPU then ''gpu'' else ''cpu'') else JPrim ''null'')"

lemma writes_processor: "writes (perform (processor_part p)) (render app_esc (processor_value p))"
  using writes_perform_text(1) [of "''null''"] writes_perform_text(3) [of "''gpu''"] writes_perform_text(3) [of "''cpu''"]
  by (simp add: processor_part_def processor_value_def cstr_literal quoted_render)

lemma writes_null: "writes (perform (Write ''null'')) ''null''"
  using writes_perform_text(1) [of "''null''"] by (simp add: cstr_literal)

lemmas emitted = writes_null writes_stmts_Nil writes_stmts_Cons writes_stmts_append writes_perform_if writes_perform_text writes_rate writes_processor

lemma cstr_chars: "cstr [] = []" "cstr (c # s) = (if c = NUL then [] else c # cstr s)"
  by (simp_all add: cstr_def)

lemmas tree_text = render_object more_simps key_text_plain plain_def quoted_render cstr_chars

text \<open>Words that stand in the statements with their quotes.\<close>

lemma plain_quoted: "plain k \<Longrightarrow> quoted app_esc k = DQUOTE # k @ [DQUOTE]"
  by (simp add: quoted_def app_esc_plain)

lemma quoted_words:
  "quoted app_esc ''hardware'' = DQUOTE # ''hardware'' @ [DQUOTE]" "quoted app_esc ''geistd'' = DQUOTE # ''geistd'' @ [DQUOTE]"
  "quoted app_esc ''unverified'' = DQUOTE # ''unverified'' @ [DQUOTE]" "quoted app_esc ''estimated'' = DQUOTE # ''estimated'' @ [DQUOTE]"
  "quoted app_esc ''measured'' = DQUOTE # ''measured'' @ [DQUOTE]"
  "quoted app_esc (if b then ''gpu'' else ''cpu'') = DQUOTE # (if b then ''gpu'' else ''cpu'') @ [DQUOTE]"
  "quoted app_esc (if b then ''active'' else if c then ''start'' else ''download'')
     = DQUOTE # (if b then ''active'' else if c then ''start'' else ''download'') @ [DQUOTE]"
  by (rule plain_quoted, simp add: plain_def)+

text \<open>The elements of an array.\<close>

lemma writes_commas:
  assumes "\<And>x. x \<in> set xs \<Longrightarrow> writes (stmts (map perform (p x))) (render app_esc (v x))"
  shows "writes (stmts (map perform (with_commas (map p xs)))) (render_elems app_esc (map v xs))"
  using assms
proof (induction xs)
  case Nil
  show ?case using writes_id by simp
next
  case (Cons x xs)
  then have 1: "writes (stmts (map perform (p x))) (render app_esc (v x))" by simp
  show ?case
  proof (cases xs)
    case Nil
    with 1 show ?thesis by simp
  next
    case (Cons y ys)
    have 2: "writes (stmts (map perform [Write '','' ])) '',''"
      by (rule writes_via, unfold list.map, (rule emitted)+) (simp add: cstr_literal)
    have 3: "writes (stmts (map perform (with_commas (map p xs)))) (render_elems app_esc (map v xs))"
      by (rule Cons.IH) (use Cons.prems in simp)
    have "with_commas (map p (x # xs)) = p x @ [Write '','' ] @ with_commas (map p xs)" by (simp add: Cons)
    then show ?thesis
      using writes_stmts_append [OF 1 writes_stmts_append [OF 2 3]] by (simp add: Cons)
  qed
qed

subsection \<open>The service\<close>

definition head_fields :: "status_help \<Rightarrow> app_state \<Rightarrow> (string \<times> jval) list" where
  "head_fields h a =
     (let c = recommendation_of h a in
      [(''version'', JStr APP_VERSION), (''catalog_revision'', JPrim (dec (ap_revision a))),
       (''api_socket'', if ap_api_socket a \<noteq> [] then JStr (cstr (ap_api_socket a)) else JPrim ''null''),
       (''quality_suite'', JStr (cstr (sh_suite h))),
       (''recommendation'', JObj
         [(''id'', JStr (cstr (case chosen c of Some k \<Rightarrow> am_id (ap_models a ! k) | None \<Rightarrow> []))),
          (''preferred_id'', JStr (cstr (am_id (ap_models a ! preferred c)))), (''source'', JStr (cstr (source_of c))),
          (''reason'', JStr (cstr (case why c of Some t \<Rightarrow> t | None \<Rightarrow> []))), (''eligible'', JPrim (yes_no (is_eligible c)))]),
       (''answer_language'', JStr (cstr (pr_answer_language (ap_prefs a)))),
       (''engine'', JObj (engine_tree (ch_engine (ap_child a))))])"

lemma writes_head:
  assumes "engine_strings (ch_engine (ap_child a))"
  shows "writes (stmts (map perform (head_part h a)))
     (CHR ''{'' # key_text ''version'' @ render app_esc (JStr APP_VERSION) @ more (tl (head_fields h a)))"
proof -
  have e: "writes (perform (EngineJson (ch_engine (ap_child a)))) (render app_esc (JObj (engine_tree (ch_engine (ap_child a)))))"
    using writes_engine [OF assms] by simp
  show ?thesis
    unfolding head_part_def Let_def list.map
    by (rule writes_via, (rule e emitted)+) (simp add: head_fields_def APP_VERSION_def tree_text Let_def del: render.simps(4))
qed

definition activity_fields :: "status_help \<Rightarrow> app_state \<Rightarrow> (string \<times> jval) list" where
  "activity_fields h a =
     (let alive = (\<lambda>x. pid a > 0 \<and> ac_generation x = ap_generation a) in
      [(''activity'', JObj
         [(''instance'', JStr (cstr (ap_instance a))), (''load'', activity_tree (ap_load a) (sh_tm h) (alive (ap_load a))),
          (''request'', activity_tree (ap_request a) (sh_tm h) (alive (ap_request a))),
          (''download'', activity_tree (ap_download a) (sh_tm h) False)]),
       (''process_generation'', JPrim (dec (unat (ap_generation a))))])"

definition activity_strings :: "app_state \<Rightarrow> bool" where
  "activity_strings a \<longleftrightarrow>
     engine_strings (ac_engine (ap_load a)) \<and> engine_strings (ac_engine (ap_request a)) \<and> engine_strings (ac_engine (ap_download a))"

lemma writes_activities:
  assumes "activity_strings a"
  shows "writes (stmts (map perform (activity_part h a))) (more (activity_fields h a))"
proof -
  note t = writes_perform(4)
  have e: "engine_strings (ac_engine (ap_load a))" "engine_strings (ac_engine (ap_request a))" "engine_strings (ac_engine (ap_download a))"
    using assms by (simp_all add: activity_strings_def)
  show ?thesis
    unfolding activity_part_def Let_def list.map
    by (rule writes_via, (rule t [OF e(1)] t [OF e(2)] t [OF e(3)] emitted)+) (simp add: activity_fields_def tree_text Let_def del: render.simps(4))
qed

definition phase_value :: "u64 \<Rightarrow> u64 list \<Rightarrow> nat \<Rightarrow> jval" where
  "phase_value now_ns phases i = JObj
     [(''stage'', JStr (cstr (lifecycle_name (int i)))), (''started_ms'', ms_text (of_nat (unat (phases ! i)) / 10 ^ 6)),
      (''duration_ms'', ms_text (of_nat (unat (phase_end now_ns phases i - phases ! i)) / 10 ^ 6))]"

lemma writes_phases: "writes (stmts (map perform (phase_part now_ns phases i))) (render app_esc (phase_value now_ns phases i))"
  unfolding phase_part_def list.map
  by (rule writes_via, (rule emitted)+) (simp add: phase_value_def ms_text_def tree_text del: render.simps(4))

definition lifecycle_fields :: "status_help \<Rightarrow> app_state \<Rightarrow> (string \<times> jval) list" where
  "lifecycle_fields h a =
     [(''lifecycle'', JObj
        [(''generation'', JPrim (dec (unat (ap_generation a)))), (''pid'', JPrim (dec (pid a))),
         (''previous_pid'', JPrim (dec (ch_previous_pid (ap_child a)))), (''spawned_ms'', ms_text (ch_spawned_ms (ap_child a))),
         (''reaped_ms'', ms_text (ch_reaped_ms (ap_child a))),
         (''receipt'', JStr (if jb_receipt_checked (ap_job a) then (if jb_receipt_hit (ap_job a) then ''hit'' else ''miss'') else ''not_checked'')),
         (''verified_bytes'', JPrim (dec (unat (jb_verified_bytes (ap_job a))))),
         (''engine_phases'', JArr (map (phase_value (sh_now_ns h) (snapshot_phases a))
            (filter (\<lambda>i. snapshot_phases a ! i \<noteq> 0) [phase_index LC_BACKEND..<LC_PHASES])))]),
      (''request_phase'', JStr (cstr (if generating a then la_phase (sh_last h) else ''idle''))),
      (''last_error'', JObj
        [(''message'', JStr (cstr (la_message (sh_last h)))), (''stage'', JStr (cstr (la_stage (sh_last h)))),
         (''model'', JStr (cstr (la_model (sh_last h)))), (''backend'', JStr (cstr (la_backend (sh_last h)))),
         (''code'', JPrim (deci (la_code (sh_last h))))])]"

lemma writes_lifecycle: "writes (stmts (map perform (lifecycle_part h a))) (more (lifecycle_fields h a))"
  unfolding lifecycle_part_def map_append list.map(2) list.map(1)
  by (rule writes_via, (rule writes_commas writes_phases emitted)+)
    (simp add: lifecycle_fields_def ms_text_def tree_text del: render.simps(4))

subsection \<open>The processor\<close>

definition execution_fields :: "app_state \<Rightarrow> (string \<times> jval) list" where
  "execution_fields a =
     (let bk = ap_backend a; model = find_model a (Some (active_id a)); gpu = gpu_supported a model;
          mode = (if comparing a \<and> cm_user_mode (ap_compare a) \<noteq> [] then cm_user_mode (ap_compare a) else bk_mode bk);
          rate = Fin (execution_rate a)
      in [(''execution'', JObj
           [(''mode'', JStr (cstr (if mode \<noteq> [] then mode else ''auto''))),
            (''active'', JStr (cstr (if ready a then (if bk_active bk = bk_cpu bk then ''cpu'' else ''gpu'') else []))),
            (''backend'', JStr (cstr (if ready a then bk_active bk else []))),
            (''recommended'', JStr (cstr (if recommend_gpu a model then ''gpu'' else ''cpu''))), (''basis'', JStr ''hardware''),
            (''verified'', JPrim (yes_no (ready a \<and> bk_verified bk))), (''gpu_available'', JPrim (yes_no gpu)),
            (''gpu_backend'', JStr (cstr (bk_gpu bk))),
            (''reason'', JStr (cstr (if \<not> gpu then ''GPU is not supported by this model and packaged engine.''
               else if recommend_gpu a model then ''GPU is the default for models of 1 GiB and larger; not a measured comparison.''
               else ''CPU is the default for models under 1 GiB; not a measured comparison.''))),
            (''notice'', JStr (cstr (bk_notice bk))),
            (''performance'', JObj
              [(''target_tps'', JPrim (printf_f 1 (Fin 8))), (''below_target'', JPrim (yes_no (app_rate_below_target rate))),
               (''rate'', JPrim (if known_rate rate then printf_f 6 rate else ''null''))])])])"

lemma writes_execution: "writes (stmts (map perform (execution_part a))) (more (execution_fields a))"
  unfolding execution_part_def Let_def list.map
  by (rule writes_via, (rule emitted)+)
    (simp add: execution_fields_def tree_text Let_def quoted_words del: render.simps(4) split del: if_split)

definition measured_value :: "app_state \<Rightarrow> bool \<times> processor_measurement \<Rightarrow> jval" where
  "measured_value a gx =
     (case gx of (gpu, x) \<Rightarrow> JObj
      [(''processor'', JStr (if gpu then ''gpu'' else ''cpu'')),
       (''backend'', JStr (cstr (if gpu then bk_gpu (ap_backend a) else bk_cpu (ap_backend a)))),
       (''rate'', JPrim (printf_f 6 (Fin (pm_rate x)))), (''first'', JPrim (printf_f 6 (Fin (pm_first x)))),
       (''total'', JPrim (printf_f 6 (Fin (pm_total x)))), (''tokens'', JPrim (printf_f 0 (Fin (pm_tokens x)))),
       (''rss_bytes'', JPrim (printf_f 0 (Fin (pm_rss x)))), (''recorded_at'', JPrim (printf_f 0 (Fin (pm_recorded x))))])"

lemma writes_measured:
  "writes (stmts (map perform (case gx of (gpu, x) \<Rightarrow> measured_part a gpu x))) (render app_esc (measured_value a gx))"
  unfolding split_def measured_part_def list.map
  by (rule writes_via, (rule emitted)+)
    (simp add: measured_value_def split_def tree_text quoted_words del: render.simps(4) split del: if_split)

definition comparison_fields :: "app_state \<Rightarrow> (string \<times> jval) list" where
  "comparison_fields a =
     [(''comparison'', JObj
        [(''running'', JPrim (yes_no (comparing a))), (''step'', JPrim (dec (cm_step (ap_compare a)))),
         (''phase'', JStr (cstr (cm_phase (ap_compare a)))), (''result'', JStr (cstr (cm_result (ap_compare a))))]),
      (''performance_history'', JArr (map (measured_value a) (measurements_of a)))]"

lemma writes_comparison: "writes (stmts (map perform (comparison_part a))) (more (comparison_fields a))"
  unfolding comparison_part_def map_append list.map(2) list.map(1)
  by (rule writes_via, (rule writes_commas writes_measured emitted)+)
    (simp add: comparison_fields_def tree_text del: render.simps(4))

subsection \<open>The machine and the process\<close>

definition hardware_tree :: "status_help \<Rightarrow> jval" where
  "hardware_tree h =
     (let x = sh_hardware h in JObj
      [(''name'', JStr (cstr (h_name x))), (''arch'', JStr (cstr (h_arch x))), (''os'', JStr (cstr (h_os x))),
       (''logical_cpus'', JPrim (dec (unat (h_logical_cpus x)))), (''device'', JStr (cstr (device_name (h_device x)))),
       (''ram'', JPrim (dec (unat (h_ram x)))), (''available'', JPrim (dec (unat (h_available x)))),
       (''disk'', JPrim (dec (unat (h_disk x)))), (''cores'', JPrim (dec (unat (h_cores x)))), (''known'', JPrim (yes_no (sh_known h))),
       (''disk_known'', JPrim (yes_no (h_disk_known x))), (''available_known'', JPrim (yes_no (h_available_known x)))])"

lemma writes_hardware: "writes (stmts (map perform (hardware_part h))) (more [(''hardware'', hardware_tree h)] @ '','')"
  unfolding hardware_part_def Let_def list.map
  by (rule writes_via, (rule emitted)+) (simp add: hardware_tree_def Let_def tree_text del: render.simps(4) split del: if_split)

definition resource_tree :: "status_help \<Rightarrow> app_resource_window \<Rightarrow> app_state \<Rightarrow> jval" where
  "resource_tree h w a = JObj
     [(''scope'', JStr ''geistd''),
      (''rss_bytes'', JPrim (case process_now h a of Some s \<Rightarrow> dec (unat (s_rss s)) | None \<Rightarrow> ''null'')),
      (''cpu_percent'', JPrim (if w_cpu_known w then printf_f 2 (Fin (w_cpu_percent w)) else ''null'')),
      (''cpu_interval_ms'', JPrim (printf_f 0 (Fin (w_interval_ms w))))]"

lemma writes_rss:
  "writes (perform (case x of Some s \<Rightarrow> Fmt (dec (unat (s_rss s))) | None \<Rightarrow> Write ''null''))
     (case x of Some s \<Rightarrow> dec (unat (s_rss s)) | None \<Rightarrow> ''null'')"
  using writes_null writes_perform_text(2) by (cases x) auto

lemma writes_resources:
  "writes (stmts (map perform (resource_part h w a))) (key_text ''resources'' @ render app_esc (resource_tree h w a) @ '','')"
  unfolding resource_part_def list.map
  by (rule writes_via, (rule writes_rss emitted)+) (simp add: resource_tree_def tree_text quoted_words del: render.simps(4) split del: if_split)

definition process_fields :: "status_help \<Rightarrow> app_state \<Rightarrow> (string \<times> jval) list" where
  "process_fields h a =
     (let jb = ap_job a; loading = (pid a > 0 \<and> \<not> ready a) in
      [(''runtime'', JStr ''geistd''), (''active'', JStr (cstr (if pid a > 0 then ch_active (ap_child a) else []))),
       (''active_id'', JStr (cstr (if pid a > 0 then active_id a else []))), (''message'', JStr (cstr (ap_message a))),
       (''phase'', JStr (cstr (jb_phase jb))),
       (''job_model'', JStr (cstr (if jb_running jb then (case jb_model jb of Some m \<Rightarrow> am_id m | None \<Rightarrow> []) else []))),
       (''received'', JPrim (dec (unat (jb_received jb)))), (''ready'', JPrim (yes_no (ready a))), (''loading'', JPrim (yes_no loading)),
       (''busy'', JPrim (yes_no (comparing a \<or> jb_running jb \<or> generating a))),
       (''inference_busy'', JPrim (yes_no (comparing a \<or> generating a \<or> (jb_running jb \<and> jb_activate jb) \<or> loading))),
       (''background_download'', JPrim (yes_no (jb_running jb \<and> \<not> jb_activate jb)))])"

definition memory_value :: "status_help \<Rightarrow> app_state \<Rightarrow> jval" where
  "memory_value h a = JObj (memory_tree (live_memory h a) (live_rss h a) (Fin (-1)) (if dle (Fin 0) (live_rss h a) then 1 else 0))"

lemma writes_process:
  assumes "NUL \<notin> set (m_generation (live_memory h a))"
  shows "writes (stmts (map perform (process_part h a)))
     (key_text ''memory'' @ render app_esc (memory_value h a) @ more (process_fields h a) @ '','' @ key_text ''models'' @ ''['')"
proof -
  have m: "writes (perform (MemoryJson (live_memory h a) (live_rss h a))) (render app_esc (memory_value h a))"
    using writes_memory [OF assms] by (simp add: memory_value_def)
  show ?thesis
    unfolding process_part_def Let_def list.map
    by (rule writes_via, (rule m emitted)+)
      (simp add: process_fields_def tree_text Let_def quoted_words del: render.simps(4) split del: if_split)
qed

subsection \<open>The models\<close>

text \<open>The evidence of a model is a text of the catalog: a JSON value, as geist-runtime keeps it.\<close>

definition evidence_ok :: "string option \<Rightarrow> jval \<Rightarrow> bool" where
  "evidence_ok t v \<longleftrightarrow> jval_ok v \<and> cstr (case t of Some s \<Rightarrow> s | None \<Rightarrow> ''null'') = render app_esc v"

definition identity_fields :: "status_help \<Rightarrow> app_state \<Rightarrow> jval \<Rightarrow> jval \<Rightarrow> nat \<Rightarrow> (string \<times> jval) list" where
  "identity_fields h a quality reference i =
     (let m = ap_models a ! i; iv = model_inventory (sh_sizes h) a ! i; x = assessment_of h a i in
      [(''id'', JStr (cstr (am_id m))), (''name'', JStr (cstr (am_name m))), (''group_id'', JStr (cstr (am_group_id m))),
       (''group_name'', JStr (cstr (am_group_name m))), (''quantization'', JStr (cstr (am_quantization m))),
       (''sha256'', JStr (cstr (am_sha256 m))), (''bytes'', JPrim (dec (unat (am_bytes m)))),
       (''ram_gib'', JPrim (dec (unat (am_recommended_ram_gib m)))), (''working_mib'', JPrim (dec (unat (am_working_mib m)))),
       (''installed'', JPrim (yes_no (installed iv))), (''partial'', JPrim (dec (unat (partial_bytes iv)))),
       (''resource_fit'', JPrim (dec (fit_number (as_fit x)))),
       (''fit'', JPrim (dec (fit_number (app_task_fit (as_fit x) APP_QUALITY_UNVERIFIED)))), (''quality'', JStr ''unverified''),
       (''reason'', JStr (cstr (as_reason x))), (''quality_evidence'', quality), (''reference'', reference),
       (''capabilities'', JObj [(''chat'', JPrim ''true''), (''vision'', JPrim ''false''), (''speech_recognition'', JPrim ''false'')]),
       (''preview_accepted'', JPrim (yes_no (pr_preview (ap_prefs a) ! i))),
       (''performance'', JStr (cstr (as_performance x)))])"

lemma writes_identity:
  assumes "evidence_ok (am_quality (ap_models a ! i)) quality" and "evidence_ok (am_reference (ap_models a ! i)) reference"
  shows "writes (stmts (map perform (identity_part h a i)))
     (CHR ''{'' # key_text ''id'' @ render app_esc (JStr (cstr (am_id (ap_models a ! i)))) @ more (tl (identity_fields h a quality reference i)))"
proof -
  have e: "writes (perform (Write (case am_quality (ap_models a ! i) of Some t \<Rightarrow> t | None \<Rightarrow> ''null''))) (render app_esc quality)"
      "writes (perform (Write (case am_reference (ap_models a ! i) of Some t \<Rightarrow> t | None \<Rightarrow> ''null''))) (render app_esc reference)"
    using assms writes_perform_text(1) by (metis evidence_ok_def)+
  show ?thesis
    unfolding identity_part_def Let_def list.map
    by (rule writes_via, (rule e emitted)+)
      (simp add: identity_fields_def tree_text Let_def quoted_words del: render.simps(4) split del: if_split)
qed

definition speed_fields :: "app_state \<Rightarrow> nat \<Rightarrow> (string \<times> jval) list" where
  "speed_fields a i =
     (let (cpu, gpu) = pr_history (ap_prefs a) ! i; (before, c, g, version) = earlier_of a i in
      [(''speed'', JObj [(''cpu'', rate_value (Fin (pm_rate cpu))), (''gpu'', rate_value (Fin (pm_rate gpu)))]),
       (''earlier'', if before then JObj [(''engine'', JStr (cstr version)), (''cpu'', rate_value (Fin c)), (''gpu'', rate_value (Fin g))]
          else JPrim ''null'')])"

lemma writes_speed: "writes (stmts (map perform (speed_part a i))) (more (speed_fields a i))"
proof -
  obtain cpu gpu where m: "pr_history (ap_prefs a) ! i = (cpu, gpu)" by fastforce
  obtain before c g version where e: "earlier_of a i = (before, c, g, version)" by (metis prod_cases4)
  show ?thesis
  proof (cases before)
    case True
    show ?thesis
      unfolding speed_part_def Let_def m e prod.case if_P [OF True] map_append list.map
      by (rule writes_via, (rule emitted)+)
        (simp add: speed_fields_def m e True tree_text del: render.simps(4) split del: if_split)
  next
    case False
    show ?thesis
      unfolding speed_part_def Let_def m e prod.case if_not_P [OF False] map_append list.map
      by (rule writes_via, (rule emitted)+)
        (simp add: speed_fields_def m e False tree_text del: render.simps(4) split del: if_split)
  qed
qed

definition basis_value :: "geistr_basis \<Rightarrow> jval" where
  "basis_value b = (case b of BASIS_NONE \<Rightarrow> JPrim ''null'' | BASIS_ESTIMATED \<Rightarrow> JStr ''estimated'' | BASIS_MEASURED \<Rightarrow> JStr ''measured'')"

lemma basis_render: "basis_text b = render app_esc (basis_value b)"
  by (cases b) (simp_all add: basis_value_def quoted_words)

lemma writes_basis: "writes (perform (Write (basis_text b))) (render app_esc (basis_value b))"
proof -
  have "cstr (basis_text b) = basis_text b" by (cases b) (simp_all add: cstr_chars)
  then show ?thesis using writes_perform_text(1) [of "basis_text b"] by (simp add: basis_render)
qed

definition verdict_fields :: "status_help \<Rightarrow> app_state \<Rightarrow> nat \<Rightarrow> (string \<times> jval) list" where
  "verdict_fields h a i =
     (let f = fit_of h a i; (cpu, gpu) = pr_speed (ap_prefs a) ! i; on_gpu = gpu_supported a (Some (ap_models a ! i));
          estimated = (\<not> pm_rate cpu > 0 \<and> \<not> (on_gpu \<and> pm_rate gpu > 0))
      in [(''verdict'', JObj
           [(''basis'', basis_value (ft_basis f)), (''value'', JStr (cstr (verdict_name (ft_verdict f)))), (''reason'', JStr (cstr (ft_reason f))),
            (''processor'', processor_value (ft_processor f)),
            (''seconds'', JObj [(''cpu'', rate_value (ft_seconds_cpu f)), (''gpu'', rate_value (ft_seconds_gpu f))]),
            (''measured_at'', JObj [(''cpu'', rate_value (if estimated then Fin (-1) else Fin (pm_recorded cpu))),
               (''gpu'', rate_value (if estimated \<or> \<not> on_gpu then Fin (-1) else Fin (pm_recorded gpu)))]),
            (''estimated_from'', JPrim (dec (ft_estimated_from f))),
            (''passed'', JPrim (if ft_total f \<noteq> 0 then dec (ft_passed f) else ''null'')),
            (''total'', JPrim (if ft_total f \<noteq> 0 then dec (ft_total f) else ''null''))])])"

lemma writes_verdict: "writes (stmts (map perform (verdict_part h a i))) (more (verdict_fields h a i) @ ''}'')"
proof -
  obtain cpu gpu where m: "pr_speed (ap_prefs a) ! i = (cpu, gpu)" by fastforce
  show ?thesis
  proof (cases "ft_total (fit_of h a i) \<noteq> 0")
    case True
    show ?thesis
      unfolding verdict_part_def Let_def m prod.case if_P [OF True] list.map
      by (rule writes_via, (rule writes_basis emitted)+)
        (simp add: verdict_fields_def m True [simplified] tree_text Let_def del: render.simps(4) split del: if_split)
  next
    case False
    show ?thesis
      unfolding verdict_part_def Let_def m prod.case if_not_P [OF False] list.map
      by (rule writes_via, (rule writes_basis emitted)+)
        (simp add: verdict_fields_def m False [simplified] tree_text Let_def del: render.simps(4) split del: if_split)
  qed
qed

definition model_tree :: "status_help \<Rightarrow> app_state \<Rightarrow> (nat \<Rightarrow> jval \<times> jval) \<Rightarrow> nat \<Rightarrow> jval" where
  "model_tree h a evidence i =
     JObj (identity_fields h a (fst (evidence i)) (snd (evidence i)) i @ speed_fields a i @ verdict_fields h a i)"

definition evidence_of :: "app_state \<Rightarrow> (nat \<Rightarrow> jval \<times> jval) \<Rightarrow> bool" where
  "evidence_of a evidence \<longleftrightarrow>
     (\<forall>i < length (ap_models a). evidence_ok (am_quality (ap_models a ! i)) (fst (evidence i))
        \<and> evidence_ok (am_reference (ap_models a ! i)) (snd (evidence i)))"

lemma writes_model:
  assumes "evidence_of a evidence" and "i < length (ap_models a)"
  shows "writes (stmts (map perform (model_part h a i))) (render app_esc (model_tree h a evidence i))"
proof -
  note e = assms(1) [unfolded evidence_of_def, rule_format, OF assms(2)]
  obtain fs where f: "identity_fields h a (fst (evidence i)) (snd (evidence i)) i = (''id'', JStr (cstr (am_id (ap_models a ! i)))) # fs"
    by (simp add: identity_fields_def Let_def)
  show ?thesis
    unfolding model_part_def map_append model_tree_def f append_Cons render_object more_simps
    by (rule writes_via [OF writes_stmts_append [OF writes_identity [OF e [THEN conjunct1] e [THEN conjunct2]]
        writes_stmts_append [OF writes_speed writes_verdict]]])
      (simp add: f)
qed

subsection \<open>The choice and the settings\<close>

definition best_value :: "app_state \<Rightarrow> geistr_fit option \<Rightarrow> jval" where
  "best_value a pick =
     (case pick of
        None \<Rightarrow> JPrim ''null''
      | Some f \<Rightarrow> JObj
          [(''id'', JStr (cstr (ft_id f))), (''verdict'', JStr (cstr (verdict_name (ft_verdict f)))),
           (''action'', JStr (if ready a \<and> active_id a = ft_id f then ''active'' else if ft_installed f then ''start'' else ''download'')),
           (''basis'', basis_value (ft_basis f)), (''processor'', processor_value (ft_processor f))])"

definition choice_fields :: "status_help \<Rightarrow> app_state \<Rightarrow> (string \<times> jval) list" where
  "choice_fields h a =
     [(''ranking'', JArr (map (\<lambda>f. JStr (cstr (ft_id f))) (fst (ranking_of h a)))),
      (''best_choice'', best_value a (snd (ranking_of h a)))]"

lemma writes_ranked: "writes (stmts (map perform [Quote (ft_id f)])) (render app_esc (JStr (cstr (ft_id f))))"
  unfolding list.map by (rule writes_via, (rule emitted)+) (simp add: quoted_render)

lemma writes_choices: "writes (stmts (map perform (choice_part h a))) ('']'' @ more (choice_fields h a))"
proof -
  obtain ranked pick where r: "ranking_of h a = (ranked, pick)" by fastforce
  note e = writes_commas [of ranked "\<lambda>f. [Quote (ft_id f)]", OF writes_ranked]
  show ?thesis
  proof (cases pick)
    case None
    show ?thesis
      unfolding choice_part_def r prod.case None option.case map_append list.map(2) list.map(1)
      by (rule writes_via, (rule e [unfolded list.map(2) list.map(1)] emitted)+)
        (simp add: choice_fields_def r None best_value_def tree_text del: render.simps(4) split del: if_split)
  next
    case (Some f)
    show ?thesis
      unfolding choice_part_def r prod.case Some option.case map_append list.map(2) list.map(1)
      by (rule writes_via, (rule e [unfolded list.map(2) list.map(1)] emitted)+)
        (simp add: choice_fields_def r Some best_value_def basis_render tree_text quoted_words del: render.simps(4) split del: if_split)
  qed
qed

definition profile_tree :: "app_state \<Rightarrow> jval" where
  "profile_tree a = view_tree (case current_model a of Some k \<Rightarrow> fit 65 (am_sha256 (ap_models a ! k)) | None \<Rightarrow> [])
     (pr_series (ap_prefs a)) (bk_cpu (ap_backend a)) (bk_gpu (ap_backend a)) (ap_history a)"

definition settings_fields :: "status_help \<Rightarrow> app_state \<Rightarrow> (string \<times> jval) list" where
  "settings_fields h a =
     [(''limits'', JObj
        [(''fast_s'', JPrim (sh_fmt_g h (fast_s (sh_limits h)))), (''usable_s'', JPrim (sh_fmt_g h (usable_s (sh_limits h)))),
         (''reliable'', JPrim (sh_fmt_g h (reliable (sh_limits h)))), (''intent'', JStr (sh_intent h))]),
      (''performance_profile'', profile_tree a)]"

lemma writes_settings:
  assumes "plain (sh_intent h)" and "\<forall>r \<in> set (p_records (ap_history a)). engine_strings (r_engine r)"
  shows "writes (stmts (map perform (settings_part h a))) (more (settings_fields h a) @ ''}'')"
proof -
  define artifact where "artifact = (case current_model a of Some k \<Rightarrow> fit 65 (am_sha256 (ap_models a ! k)) | None \<Rightarrow> [])"
  have v: "writes (perform (ViewJson artifact (pr_series (ap_prefs a)) (bk_cpu (ap_backend a)) (bk_gpu (ap_backend a)) (ap_history a)))
      (render app_esc (profile_tree a))"
    using writes_view [OF assms(2)] by (simp add: profile_tree_def artifact_def)
  show ?thesis
    unfolding settings_part_def Let_def artifact_def [symmetric] list.map
    by (rule writes_via, (rule v emitted)+)
      (simp add: settings_fields_def tree_text plain_quoted [OF assms(1)] del: render.simps(4))
qed

subsection \<open>The document\<close>

definition status_fields :: "status_help \<Rightarrow> app_resource_window \<Rightarrow> app_state \<Rightarrow> (nat \<Rightarrow> jval \<times> jval) \<Rightarrow> (string \<times> jval) list" where
  "status_fields h w a evidence =
     head_fields h a @ activity_fields h a @ lifecycle_fields h a @ execution_fields a @ comparison_fields a
     @ [(''hardware'', hardware_tree h), (''resources'', resource_tree h w a), (''memory'', memory_value h a)]
     @ process_fields h a @ [(''models'', JArr (map (model_tree h a evidence) [0..<length (ap_models a)]))]
     @ choice_fields h a @ settings_fields h a"

text \<open>The strings of the state are C strings, its records finite, and every number is printed as one.\<close>

definition status_ok :: "status_help \<Rightarrow> app_state \<Rightarrow> (nat \<Rightarrow> jval \<times> jval) \<Rightarrow> bool" where
  "status_ok h a evidence \<longleftrightarrow>
     engine_strings (ch_engine (ap_child a)) \<and> activity_strings a \<and> NUL \<notin> set (m_generation (live_memory h a))
     \<and> evidence_of a evidence \<and> plain (sh_intent h)
     \<and> (\<forall>r \<in> set (p_records (ap_history a)). engine_strings (r_engine r) \<and> dfinite (r_timestamp r) \<and> dfinite (r_generation_ns r))"

definition status_prints :: "status_help \<Rightarrow> app_state \<Rightarrow> bool" where
  "status_prints h a \<longleftrightarrow>
     jval_ok (memory_value h a)
     \<and> (\<forall>x \<in> {fast_s (sh_limits h), usable_s (sh_limits h), reliable (sh_limits h)}. prim_ok (sh_fmt_g h x))
     \<and> (\<forall>artifact. view_prints (profile_of artifact (pr_series (ap_prefs a)) (bk_cpu (ap_backend a)) (bk_gpu (ap_backend a))
           (p_records (ap_history a))))"

lemma writes_status:
  assumes "status_ok h a evidence"
  shows "writes (stmts (map perform (status_parts h w a))) (render app_esc (JObj (status_fields h w a evidence)))"
proof -
  have ok: "engine_strings (ch_engine (ap_child a))" "activity_strings a" "NUL \<notin> set (m_generation (live_memory h a))"
      "evidence_of a evidence" "plain (sh_intent h)" "\<forall>r \<in> set (p_records (ap_history a)). engine_strings (r_engine r)"
    using assms by (simp_all add: status_ok_def)
  have models: "writes (stmts (map perform (with_commas (map (model_part h a) [0..<length (ap_models a)]))))
      (render_elems app_esc (map (model_tree h a evidence) [0..<length (ap_models a)]))"
    by (rule writes_commas) (rule writes_model [OF ok(4)], simp)
  obtain fs where f: "head_fields h a = (''version'', JStr APP_VERSION) # fs" by (simp add: head_fields_def Let_def)
  note parts = writes_stmts_append [OF writes_head [OF ok(1), of h] writes_stmts_append [OF writes_activities [OF ok(2), of h]
    writes_stmts_append [OF writes_lifecycle [of h a] writes_stmts_append [OF writes_execution [of a]
    writes_stmts_append [OF writes_comparison [of a] writes_stmts_append [OF writes_hardware [of h]
    writes_stmts_append [OF writes_resources [of h w a] writes_stmts_append [OF writes_process [OF ok(3)]
    writes_stmts_append [OF models writes_stmts_append [OF writes_choices [of h a] writes_settings [OF ok(5,6)]]]]]]]]]]]
  show ?thesis
    unfolding status_parts_def map_append
    by (rule writes_via [OF parts])
      (simp add: status_fields_def f render_object more_simps del: render.simps(1,4))
qed

end
