(* ===== verification/Cli.thy ===== *)
theory Cli
  imports Connection StatusDoc
begin

section \<open>The command line (src/src/app/cli.c)\<close>

text \<open>
  The client \<open>geisten\<close>, command by command, as Linux builds it. Its variables are the record \<open>cli\<close>, what it
  prints included; everything outside is \<open>outside\<close>, whose operations take the world and give the world back. An
  exchange over HTTP is libcurl's: it brings parts of the answer until it ends or until \<open>receive\<close> refuses one.
  Allocations succeed.
\<close>

subsection \<open>What is outside\<close>

text \<open>The parts of an answer as they come, whether the transfer ends well, and its code.\<close>

record exchange =
  ex_parts :: "string list"
  ex_whole :: bool
  ex_status :: nat

datatype owner_file = NoOwnerFile | OwnerNotOpened | OwnerFile bool

record 'w outside =
  ou_home :: string
  ou_directory :: string
  ou_getenv :: "string \<Rightarrow> string option"
  ou_unit :: bool
  ou_desktop :: bool
  ou_executable :: "string \<Rightarrow> bool"
  ou_files :: "'w \<Rightarrow> files"
  ou_owner :: "string \<Rightarrow> 'w \<Rightarrow> owner_file"
  ou_exchange :: "string \<Rightarrow> string \<Rightarrow> string option \<Rightarrow> nat \<Rightarrow> 'w \<Rightarrow> exchange \<times> 'w"
  ou_pause :: "'w \<Rightarrow> 'w"
  ou_command :: "string list \<Rightarrow> 'w \<Rightarrow> int \<times> 'w"
  ou_mkdir :: "string \<Rightarrow> 'w \<Rightarrow> bool \<times> 'w"
  ou_fork :: "string list \<Rightarrow> 'w \<Rightarrow> bool \<times> 'w"
  ou_terminal :: "string \<Rightarrow> 'w \<Rightarrow> string option \<times> 'w"

record 'w cli =
  ci_port :: nat
  ci_token :: string
  ci_reply :: string
  ci_start_error :: nat
  ci_out :: string
  ci_err :: string
  ci_world :: 'w

definition say :: "string \<Rightarrow> 'w cli \<Rightarrow> 'w cli" where
  "say s c = c\<lparr>ci_out := ci_out c @ s\<rparr>"

definition puts :: "string \<Rightarrow> 'w cli \<Rightarrow> 'w cli" where
  "puts s = say (s @ [CHR 0x0A])"

definition protest :: "string \<Rightarrow> 'w cli \<Rightarrow> 'w cli" where
  "protest s c = c\<lparr>ci_err := ci_err c @ s\<rparr>"

definition complain :: "string \<Rightarrow> 'w cli \<Rightarrow> 'w cli" where
  "complain s = protest (s @ [CHR 0x0A])"

subsection \<open>A request\<close>

text \<open>The number of bytes that were taken; anything else than all of them ends the transfer.\<close>

definition receive :: "string \<Rightarrow> app_buffer \<Rightarrow> nat \<times> app_buffer" where
  "receive data b =
     (if length data \<ge> b_cap b - b_len b then (0, b)
      else (length data, b\<lparr>b_data := take (b_len b) (b_data b) @ data, b_len := b_len b + length data\<rparr>))"

fun receive_all :: "string list \<Rightarrow> app_buffer \<Rightarrow> bool \<times> app_buffer" where
  "receive_all [] b = (True, b)"
| "receive_all (d # ds) b = (case receive d b of (n, b1) \<Rightarrow> if n = length d then receive_all ds b1 else (False, b1))"

definition REPLY_CAP :: nat where "REPLY_CAP = 65536"

definition cli_request :: "'w outside \<Rightarrow> string \<Rightarrow> string option \<Rightarrow> nat \<Rightarrow> 'w cli \<Rightarrow> nat \<times> 'w cli" where
  "cli_request ou path body timeout c =
     (case app_connection_read (ou_home ou) (ou_files ou (ci_world c)) of
        None \<Rightarrow> (0, c)
      | Some (port, token) \<Rightarrow>
          (case ou_exchange ou (fit 256 (''http://127.0.0.1:'' @ dec port @ path)) (fit 96 (''Authorization: Bearer '' @ token)) body
                  timeout (ci_world c) of
             (x, w) \<Rightarrow>
               (case receive_all (ex_parts x) \<lparr>b_data = [], b_len = 0, b_cap = REPLY_CAP, b_failed = False\<rparr> of
                  (taken, b) \<Rightarrow>
                    (if taken \<and> ex_whole x then ex_status x else 0,
                     c\<lparr>ci_port := port, ci_token := token, ci_reply := cstr (b_data b), ci_world := w\<rparr>))))"

definition pause_short :: "'w outside \<Rightarrow> 'w cli \<Rightarrow> 'w cli" where
  "pause_short ou c = c\<lparr>ci_world := ou_pause ou (ci_world c)\<rparr>"

definition command :: "'w outside \<Rightarrow> string list \<Rightarrow> 'w cli \<Rightarrow> int \<times> 'w cli" where
  "command ou args c = (case ou_command ou args (ci_world c) of (r, w) \<Rightarrow> (r, c\<lparr>ci_world := w\<rparr>))"

subsection \<open>Stopping\<close>

definition systemd_home :: "'w outside \<Rightarrow> bool" where
  "systemd_home ou =
     (let user = (case ou_getenv ou ''HOME'' of Some h \<Rightarrow> h | None \<Rightarrow> []);
          standard = user @ ''/.local/share/geisten''; earlier = user @ ''/.local/share/geist''
      in length standard < APP_PATH_CAP \<and> length earlier < APP_PATH_CAP \<and> ou_getenv ou ''GEISTEN_HOME'' = None
         \<and> ou_getenv ou ''GEIST_HOME'' = None \<and> (ou_home ou = standard \<or> ou_home ou = earlier)
         \<and> ou_directory ou = ''/usr/lib/geisten'' \<and> ou_unit ou)"

definition owner_released :: "'w outside \<Rightarrow> 'w cli \<Rightarrow> bool" where
  "owner_released ou c =
     (case path_join (ou_home ou) ''app.lock'' of
        None \<Rightarrow> False
      | Some path \<Rightarrow>
          (case ou_owner ou path (ci_world c) of NoOwnerFile \<Rightarrow> True | OwnerNotOpened \<Rightarrow> False | OwnerFile released \<Rightarrow> released))"

text \<open>\<open>None\<close> is a path that does not fit.\<close>

fun poll_service_stopped :: "nat \<Rightarrow> 'w outside \<Rightarrow> 'w cli \<Rightarrow> bool option \<times> 'w cli" where
  "poll_service_stopped 0 ou c = (Some False, c)"
| "poll_service_stopped (Suc n) ou c =
     (case path_join (ou_home ou) ''connection.json'' of
        None \<Rightarrow> (None, c)
      | Some descriptor \<Rightarrow>
          if ou_files ou (ci_world c) descriptor = None \<and> owner_released ou c then (Some True, c)
          else poll_service_stopped n ou (pause_short ou c))"

definition wait_stopped :: "'w outside \<Rightarrow> 'w cli \<Rightarrow> bool \<times> 'w cli" where
  "wait_stopped ou c =
     (case (if systemd_home ou then command ou [''systemctl'', ''--user'', ''stop'', ''geisten.service''] c else (0, c)) of
        (r, c1) \<Rightarrow>
          if r \<noteq> 0 then (False, complain ''Cannot confirm the user service stopped. Check its journal before restarting.'' c1)
          else
            (case poll_service_stopped 100 ou c1 of
               (Some True, c2) \<Rightarrow> (True, c2)
             | (Some False, c2) \<Rightarrow>
                 (False, complain ''Cannot confirm the service stopped. Check the service log before restarting.'' c2)
             | (None, c2) \<Rightarrow> (False, c2)))"

subsection \<open>The version of the service\<close>

text \<open>An unsigned number as \<open>strtoul\<close> reads it, with 64 bits, and what follows it. \<open>sscanf\<close> keeps 32 bits.\<close>

definition scan_unsigned :: "string \<Rightarrow> (nat \<times> string) option" where
  "scan_unsigned s =
     (let s1 = dropWhile (\<lambda>c. c = CHR '' '' \<or> (9 \<le> byte c \<and> byte c \<le> 13)) s;
          neg = (s1 \<noteq> [] \<and> hd s1 = CHR ''-'');
          s2 = (if s1 \<noteq> [] \<and> (hd s1 = CHR ''-'' \<or> hd s1 = CHR ''+'') then tl s1 else s1)
      in if s2 = [] \<or> \<not> is_digit (hd s2) then None
         else case digits 0 s2 of
                (v, r) \<Rightarrow> Some (if v \<ge> 2 ^ 64 then 2 ^ 64 - 1 else if neg then (2 ^ 64 - v) mod 2 ^ 64 else v, r))"

text \<open>\<open>"%u.%u.%u%c"\<close> with exactly three conversions.\<close>

definition scan_version :: "string \<Rightarrow> nat list option" where
  "scan_version s =
     (case scan_unsigned s of
        Some (x, d # r) \<Rightarrow>
          (if d \<noteq> CHR ''.'' then None
           else case scan_unsigned r of
             Some (y, e # t) \<Rightarrow>
               (if e \<noteq> CHR ''.'' then None
                else case scan_unsigned t of Some (z, []) \<Rightarrow> Some [x mod 2 ^ 32, y mod 2 ^ 32, z mod 2 ^ 32] | _ \<Rightarrow> None)
           | _ \<Rightarrow> None)
      | _ \<Rightarrow> None)"

fun first_difference :: "nat list \<Rightarrow> nat list \<Rightarrow> int" where
  "first_difference (a # as) (b # bs) = (if a \<noteq> b then (if a < b then -1 else 1) else first_difference as bs)"
| "first_difference _ _ = 0"

definition version_order :: "string option \<Rightarrow> int" where
  "version_order remote =
     (case remote of
        None \<Rightarrow> 2
      | Some r \<Rightarrow> (case (scan_version r, scan_version APP_VERSION) of (Some a, Some b) \<Rightarrow> first_difference a b | _ \<Rightarrow> 2))"

definition reply_version :: "'w cli \<Rightarrow> string option" where
  "reply_version c = (case json_parse (ci_reply c) of None \<Rightarrow> None | Some j \<Rightarrow> json_strdup j (json_get j 0 ''version''))"

definition current_service :: "'w outside \<Rightarrow> 'w cli \<Rightarrow> bool \<times> 'w cli" where
  "current_service ou c =
     (let order = version_order (reply_version c) in
      if order = 0 then (True, c)
      else if order = 1 then
        (False, complain ''A newer geisten service is running. Open the newest installed app.'' (c\<lparr>ci_start_error := 44\<rparr>))
      else if order = 2 then
        (False, complain ''An older unversioned service is running. Finish your work, then run: geisten restart''
                  (c\<lparr>ci_start_error := 42\<rparr>))
      else
        (case cli_request ou ''/app/quit-if-idle'' (Some ''{}'') 5 c of
           (code, c1) \<Rightarrow>
             if code \<noteq> 202 then
               (False, complain ''Finish the current task before updating geisten; then reopen the app.''
                         (c1\<lparr>ci_start_error := if code = 409 then 43 else 42\<rparr>))
             else wait_stopped ou c1))"

subsection \<open>Starting\<close>

text \<open>The folders on the way to the home, the home itself included.\<close>

definition folders_to :: "string \<Rightarrow> string list" where
  "folders_to home = [take n home. n \<leftarrow> [1..<Suc (length home)], n = length home \<or> home ! n = CHR ''/'']"

fun make_folders :: "string list \<Rightarrow> 'w outside \<Rightarrow> 'w cli \<Rightarrow> bool \<times> 'w cli" where
  "make_folders [] ou c = (True, c)"
| "make_folders (f # fs) ou c =
     (case ou_mkdir ou f (ci_world c) of
        (ok, w) \<Rightarrow> if ok then make_folders fs ou (c\<lparr>ci_world := w\<rparr>) else (False, c\<lparr>ci_world := w\<rparr>))"

definition port_argument :: "'w outside \<Rightarrow> string" where
  "port_argument ou = (case ou_getenv ou ''GEIST_PORT'' of Some p \<Rightarrow> p | None \<Rightarrow> ''8766'')"

definition app_arguments :: "'w outside \<Rightarrow> string \<Rightarrow> string list" where
  "app_arguments ou executable =
     [executable, ''--home'', ou_home ou, ''--port'', port_argument ou]
     @ (case ou_getenv ou ''GEIST_MODEL'' of Some m \<Rightarrow> if m \<noteq> [] then [''--model'', m] else [] | None \<Rightarrow> [])"

definition spawn_app :: "'w outside \<Rightarrow> 'w cli \<Rightarrow> bool \<times> 'w cli" where
  "spawn_app ou c =
     (case (path_join (ou_directory ou) ''geist-app'', path_join (ou_directory ou) ''geistd'') of
        (Some executable, Some daemon) \<Rightarrow>
          if \<not> ou_executable ou daemon then
            (False, complain (''geisten is incomplete: '' @ daemon
               @ '' is missing. Reinstall geisten, or in a source checkout run 'make' first.'') c)
          else
            (case scan_unsigned (port_argument ou) of
               Some (requested, []) \<Rightarrow>
                 if requested > 65535 then (False, c)
                 else (case ou_fork ou (app_arguments ou executable) (ci_world c) of (ok, w) \<Rightarrow> (ok, c\<lparr>ci_world := w\<rparr>))
             | _ \<Rightarrow> (False, c))
      | _ \<Rightarrow> (False, c))"

fun poll_started :: "nat \<Rightarrow> 'w outside \<Rightarrow> 'w cli \<Rightarrow> bool \<times> 'w cli" where
  "poll_started 0 ou c = (False, complain ''geisten did not start. Check port 8766 and service permissions.'' c)"
| "poll_started (Suc n) ou c =
     (case cli_request ou ''/app/status'' None 2 c of
        (code, c1) \<Rightarrow> if code = 200 then (True, c1) else poll_started n ou (pause_short ou c1))"

definition launch :: "'w outside \<Rightarrow> 'w cli \<Rightarrow> bool \<times> 'w cli" where
  "launch ou c =
     (case make_folders (folders_to (ou_home ou)) ou c of
        (False, c1) \<Rightarrow> (False, c1)
      | (True, c1) \<Rightarrow>
          (case (if systemd_home ou then
                   (case command ou [''systemctl'', ''--user'', ''start'', ''geisten.service''] c1 of
                      (r, c2) \<Rightarrow>
                        if r \<noteq> 0 then
                          (False, complain ''Cannot start the user service. In a headless session, run geist-app in the foreground.'' c2)
                        else (True, c2))
                 else spawn_app ou c1) of
             (False, c2) \<Rightarrow> (False, c2)
           | (True, c2) \<Rightarrow> poll_started 100 ou c2))"

definition start_service :: "'w outside \<Rightarrow> 'w cli \<Rightarrow> bool \<times> 'w cli" where
  "start_service ou c =
     (case cli_request ou ''/app/status'' None 2 c of
        (code, c1) \<Rightarrow>
          if code = 200 then
            (case current_service ou c1 of
               (False, c2) \<Rightarrow> (False, c2)
             | (True, c2) \<Rightarrow> (case cli_request ou ''/app/status'' None 2 c2 of (code2, c3) \<Rightarrow> if code2 = 200 then (True, c3) else launch ou c3))
          else launch ou c1)"

subsection \<open>What setup reads of the status document\<close>

record setup_state =
  su_id :: "string option"
  su_reason :: "string option"
  su_active :: "string option"
  su_job :: "string option"
  su_phase :: "string option"
  su_message :: "string option"
  su_name :: "string option"
  su_eligible :: bool
  su_ready :: bool
  su_loading :: bool
  su_installed :: bool
  su_received :: dbl
  su_bytes :: dbl

definition setup_read :: "json \<Rightarrow> setup_state" where
  "setup_read j =
     (let rec = json_get j 0 ''recommendation'' in
      \<lparr>su_id = json_strdup j (json_get j rec ''id''), su_reason = json_strdup j (json_get j rec ''reason''),
       su_active = json_strdup j (json_get j 0 ''active_id''), su_job = json_strdup j (json_get j 0 ''job_model''),
       su_phase = json_strdup j (json_get j 0 ''phase''), su_message = json_strdup j (json_get j 0 ''message''), su_name = None,
       su_eligible = json_bool j (json_get j rec ''eligible'') False, su_ready = json_bool j (json_get j 0 ''ready'') False,
       su_loading = json_bool j (json_get j 0 ''loading'') False, su_installed = False,
       su_received = json_num j (json_get j 0 ''received'') (Fin 0), su_bytes = Fin 0\<rparr>)"

text \<open>The elements of the array \<open>models\<close>; the fields of the one with the wanted id.\<close>

definition model_tokens :: "json \<Rightarrow> int \<Rightarrow> nat list" where
  "model_tokens j models =
     (if models \<ge> 0 then filter (\<lambda>i. tok_parent (tok j ! i) = models) [nat (models + 1)..<nat (json_n j)] else [])"

definition setup_model :: "json \<Rightarrow> string \<Rightarrow> nat \<Rightarrow> setup_state \<Rightarrow> setup_state" where
  "setup_model j mid i s =
     (if json_strdup j (json_get j (int i) ''id'') = Some mid then
        s\<lparr>su_name := json_strdup j (json_get j (int i) ''name''), su_bytes := json_num j (json_get j (int i) ''bytes'') (Fin 0),
          su_installed := json_bool j (json_get j (int i) ''installed'') False\<rparr>
      else s)"

definition setup_of :: "json \<Rightarrow> string option \<Rightarrow> setup_state" where
  "setup_of j want =
     (let s = setup_read j in
      case (case want of Some w \<Rightarrow> Some w | None \<Rightarrow> su_id s) of
        None \<Rightarrow> s
      | Some mid \<Rightarrow> fold (setup_model j mid) (model_tokens j (json_get j 0 ''models'')) s)"

definition setup_state_read :: "'w outside \<Rightarrow> string option \<Rightarrow> 'w cli \<Rightarrow> setup_state option \<times> 'w cli" where
  "setup_state_read ou want c =
     (case cli_request ou ''/app/status'' None 5 c of
        (code, c1) \<Rightarrow>
          (if code \<noteq> 200 then None
           else case json_parse (ci_reply c1) of None \<Rightarrow> None | Some j \<Rightarrow> Some (setup_of j want), c1))"

subsection \<open>The list of the models\<close>

definition symbol_of :: "string option \<Rightarrow> string" where
  "symbol_of v =
     (if v = Some ''good'' then [CHR 0xE2, CHR 0x9C, CHR 0x93]
      else if v = Some ''usable'' then [CHR 0xE2, CHR 0x97, CHR 0x90]
      else if v = Some ''not_recommended'' then [CHR 0xE2, CHR 0x9C, CHR 0x97]
      else ''?'')"

definition padded :: "nat \<Rightarrow> string \<Rightarrow> string" where
  "padded n s = s @ replicate (n - length s) CHR '' ''"

definition model_line :: "json \<Rightarrow> nat \<Rightarrow> string" where
  "model_line j i =
     (let verdict = json_get j (int i) ''verdict''; mid = json_strdup j (json_get j (int i) ''id'');
          processor = json_strdup j (json_get j verdict ''processor'');
          passed = json_num j (json_get j verdict ''passed'') (Fin (-1)); tot = json_num j (json_get j verdict ''total'') (Fin 0);
          seconds = (case processor of Some p \<Rightarrow> json_num j (json_get j (json_get j verdict ''seconds'') p) (Fin (-1)) | None \<Rightarrow> Fin (-1));
          basis = json_strdup j (json_get j verdict ''basis'');
          quality = (if dle (Fin 0) passed \<and> dlt (Fin 0) tot
                     then fit 32 (printf_f 0 passed @ ''/'' @ printf_f 0 tot @ '' correct'') else ''not tested'');
          speed = (if dle (Fin 0) seconds
                   then fit 48 (''~'' @ printf_f 0 (if dlt seconds (Fin 1) then Fin 1 else seconds) @ '' s per answer (''
                          @ (case processor of Some p \<Rightarrow> p | None \<Rightarrow> []) @ (if basis = Some ''estimated'' then '', estimated'' else []) @ '')'')
                   else ''not measured'')
      in symbol_of (json_strdup j (json_get j verdict ''value'')) @ '' ''
         @ padded 18 (case mid of Some x \<Rightarrow> x | None \<Rightarrow> ''?'') @ '' ''
         @ padded 10 (if json_bool j (json_get j (int i) ''installed'') False then ''installed'' else ''-'') @ '' ''
         @ padded 16 quality @ '' '' @ speed @ [CHR 0x0A])"

definition choice_line :: "json \<Rightarrow> string" where
  "choice_line j =
     (let choice = json_get j 0 ''best_choice''; pick = json_strdup j (json_get j choice ''id'');
          action = json_strdup j (json_get j choice ''action'')
      in [CHR 0x0A]
         @ (case pick of
              None \<Rightarrow> ''No model fits this computer well.''
            | Some p \<Rightarrow>
                if action = Some ''download'' then ''Recommended here: '' @ p @ '' (geisten download '' @ p @ '')''
                else if action = Some ''start'' then ''Recommended here: '' @ p @ '' (geisten use '' @ p @ '')''
                else ''Recommended here: '' @ p @ '' (active)'')
         @ [CHR 0x0A])"

definition legend :: string where
  "legend = [CHR 0x0A] @ symbol_of (Some ''good'') @ '' good choice  '' @ symbol_of (Some ''usable'') @ '' usable, with limits  ''
     @ symbol_of (Some ''not_recommended'') @ '' not recommended  ? not measured yet'' @ [CHR 0x0A] @ ''JSON with reasons: geisten status''"

definition print_models :: "'w cli \<Rightarrow> nat \<times> 'w cli" where
  "print_models c =
     (case json_parse (ci_reply c) of
        None \<Rightarrow> (1, complain ''geisten is not responding.'' c)
      | Some j \<Rightarrow>
          (0, puts legend (say (choice_line j) (say (concat (map (model_line j) (model_tokens j (json_get j 0 ''models'')))) c))))"

subsection \<open>Setup\<close>

text \<open>One confirmation on the terminal; of the answer at most 15 bytes are read.\<close>

definition confirm :: "'w outside \<Rightarrow> string \<Rightarrow> 'w cli \<Rightarrow> bool \<times> 'w cli" where
  "confirm ou question c =
     (case ou_terminal ou (question @ '' [y/N] '') (ci_world c) of
        (answer, w) \<Rightarrow>
          (case answer of Some (d # ds) \<Rightarrow> d \<in> {CHR ''y'', CHR ''Y'', CHR ''j'', CHR ''J''} | _ \<Rightarrow> False, c\<lparr>ci_world := w\<rparr>))"

text \<open>The text in a buffer of \<open>cap\<close> bytes, and whether a statement did not fit.\<close>

definition written_in :: "nat \<Rightarrow> (app_buffer \<Rightarrow> app_buffer) list \<Rightarrow> string \<times> bool" where
  "written_in cap ss = (let b = stmts ss \<lparr>b_data = [], b_len = 0, b_cap = cap, b_failed = False\<rparr> in (cstr (b_data b), b_failed b))"

text \<open>The decade of the percentage. A conversion from infinity, which C leaves open, does not arise with the numbers
  the service writes.\<close>

definition percent_of :: "dbl \<Rightarrow> dbl \<Rightarrow> int" where
  "percent_of got bytes =
     (case (got, bytes) of
        (Fin r, Fin b) \<Rightarrow>
          if b > 0 then
            (let q = 100 * r / b in if q \<ge> 0 then \<lfloor>q\<rfloor> div 10 * 10 else - (\<lfloor>- q\<rfloor> div 10 * 10))
          else -1
      | _ \<Rightarrow> -1)"

datatype progress = Loaded | Lost | Stopped string | Waiting

text \<open>What one reading shows: the last phase and percentage printed, the polls without work so far, and whether work
  was ever seen.\<close>

record follow =
  fo_phase :: string
  fo_shown :: int
  fo_idle :: nat
  fo_started :: bool

definition working :: "string \<Rightarrow> setup_state \<Rightarrow> bool" where
  "working mid s \<longleftrightarrow> su_loading s \<or> su_job s = Some mid"

definition nonempty_text :: "string option \<Rightarrow> bool" where
  "nonempty_text t \<longleftrightarrow> t \<noteq> None \<and> t \<noteq> Some []"

definition follow_step :: "string \<Rightarrow> setup_state \<Rightarrow> follow \<Rightarrow> 'w cli \<Rightarrow> progress \<times> follow \<times> 'w cli" where
  "follow_step mid s f c =
     (if su_ready s \<and> su_active s = Some mid then (Loaded, f, c)
      else
        let f1 = f\<lparr>fo_started := fo_started f \<or> working mid s\<rparr>;
            f2 = (if \<not> working mid s \<and> \<not> fo_started f1 then f1\<lparr>fo_idle := fo_idle f1 + 1\<rparr> else f1)
        in if \<not> working mid s \<and> (fo_started f2 \<or> fo_idle f2 > 150) then
             (Stopped (case su_message s of Some (m # ms) \<Rightarrow> m # ms | _ \<Rightarrow> ''no details''), f2, c)
           else
             let fresh = (nonempty_text (su_phase s) \<and> Some (fo_phase f2) \<noteq> su_phase s);
                 f3 = (if fresh then f2\<lparr>fo_phase := fit 128 (the (su_phase s))\<rparr> else f2);
                 c1 = (if fresh then puts (fo_phase f3) c else c);
                 percent = percent_of (su_received s) (su_bytes s)
             in if nonempty_text (su_job s) \<and> percent > fo_shown f3 \<and> percent < 100 \<and> dlt (Fin 0) (su_received s)
                then (Waiting, f3\<lparr>fo_shown := percent\<rparr>, puts (''  '' @ deci percent @ ''%'') c1)
                else (Waiting, f3, c1))"

text \<open>The loop goes on as long as the service works: \<open>fuel\<close> bounds it here, and \<open>None\<close> is that it was not enough.\<close>

fun follow_setup :: "nat \<Rightarrow> 'w outside \<Rightarrow> string \<Rightarrow> follow \<Rightarrow> 'w cli \<Rightarrow> progress option \<times> 'w cli" where
  "follow_setup 0 ou mid f c = (None, c)"
| "follow_setup (Suc n) ou mid f c =
     (case setup_state_read ou (Some mid) c of
        (None, c1) \<Rightarrow> (Some Lost, c1)
      | (Some s, c1) \<Rightarrow>
          (case follow_step mid s f c1 of
             (Waiting, f1, c2) \<Rightarrow> follow_setup n ou mid f1 (pause_short ou (pause_short ou c2))
           | (r, f1, c2) \<Rightarrow> (Some r, c2)))"

definition choice_stmts :: "string \<Rightarrow> (app_buffer \<Rightarrow> app_buffer) list" where
  \<open>choice_stmts mid = [app_put ''{"id":'', app_quote mid, app_put '',"experimental":true}'']\<close>

definition hello_stmts :: "string \<Rightarrow> (app_buffer \<Rightarrow> app_buffer) list" where
  \<open>hello_stmts mid =
     [app_put ''{"model":'', app_quote mid,
      app_put '',"messages":[{"role":"user","content":"Say hello in one sentence."}],"max_tokens":64}'']\<close>

definition setup_test :: "'w outside \<Rightarrow> string \<Rightarrow> 'w cli \<Rightarrow> nat \<times> 'w cli" where
  \<open>setup_test ou mid c =
     (case cli_request ou ''/v1/chat/completions'' (Some (fst (written_in 512 (hello_stmts mid)))) 180 c of
        (code, c1) \<Rightarrow>
          if code \<noteq> 200 then
            (1, complain (''Test failed: '' @ ci_reply c1 @ [CHR 0x0A] @ ''The model stays loaded; retry with: geisten test'') c1)
          else
            (0, puts (''Test passed: the model answered through the local API.'' @ [CHR 0x0A]
                  @ ''Next: geisten chat "Hello" | geisten config continue | geisten config opencode'') c1))\<close>

definition follow0 :: follow where
  "follow0 = \<lparr>fo_phase = [], fo_shown = -1, fo_idle = 0, fo_started = False\<rparr>"

definition setup_load :: "nat \<Rightarrow> 'w outside \<Rightarrow> bool \<Rightarrow> string \<Rightarrow> string \<Rightarrow> 'w cli \<Rightarrow> nat option \<times> 'w cli" where
  "setup_load fuel ou yes mid name c =
     (let body = fst (written_in 256 (choice_stmts mid));
          c1 = (if yes then c
                else case cli_request ou ''/app/preview'' (Some body) 5 c of
                       (code, c1) \<Rightarrow> if code \<noteq> 200 then complain (''Cannot record the model choice: '' @ ci_reply c1) c1 else c1)
      in case cli_request ou ''/app/setup'' (Some body) 10 c1 of
           (code, c2) \<Rightarrow>
             if code \<noteq> 200 \<and> code \<noteq> 202 then (Some 1, complain (''Setup refused: '' @ ci_reply c2) c2)
             else
               (case follow_setup fuel ou mid follow0 c2 of
                  (None, c3) \<Rightarrow> (None, c3)
                | (Some Loaded, c3) \<Rightarrow>
                    (case setup_test ou mid (puts (''Model ready: '' @ name) c3) of (r, c4) \<Rightarrow> (Some r, c4))
                | (Some (Stopped m), c3) \<Rightarrow> (Some 1, complain (''Setup stopped: '' @ m) c3)
                | (Some _, c3) \<Rightarrow> (Some 1, complain ''Lost the connection to geisten during setup. Run geisten setup again.'' c3)))"

definition setup_command :: "nat \<Rightarrow> 'w outside \<Rightarrow> bool \<Rightarrow> 'w cli \<Rightarrow> nat option \<times> 'w cli" where
  "setup_command fuel ou yes c =
     (case start_service ou c of
        (False, c1) \<Rightarrow> (Some (ci_start_error c1), c1)
      | (True, c1) \<Rightarrow>
          (case setup_state_read ou None c1 of
             (None, c2) \<Rightarrow> (Some 1, complain ''geisten is not responding.'' c2)
           | (Some s, c2) \<Rightarrow>
               if su_ready s \<and> nonempty_text (su_active s) then
                 (let mid = fit 128 (the (su_active s)) in
                  case setup_test ou mid (puts (''A model is already loaded: '' @ mid) c2) of (r, c3) \<Rightarrow> (Some r, c3))
               else if \<not> su_eligible s \<or> \<not> nonempty_text (su_id s) \<or> su_name s = None then
                 (Some 4, complain (''No model fits this computer: '' @ (case su_reason s of Some r \<Rightarrow> r | None \<Rightarrow> ''unknown reason'')) c2)
               else
                 let mid = fit 128 (the (su_id s)); name = fit 128 (the (su_name s));
                     gb = (case su_bytes s of Fin b \<Rightarrow> Fin (b / 10 ^ 9) | x \<Rightarrow> x);
                     question = fit 512 (if su_installed s then ''Load '' @ name @ '' (already downloaded)?''
                                         else ''Download '' @ printf_f 1 gb @ '' GB and load '' @ name @ ''?'');
                     c3 = puts (''Recommended model: '' @ name @ ''. '' @ (case su_reason s of Some r \<Rightarrow> r | None \<Rightarrow> [])) c2
                 in (case (if yes then (True, c3) else confirm ou question c3) of
                       (False, c4) \<Rightarrow> (Some 0, puts ''No model set up. Later, run: geisten setup'' c4)
                     | (True, c4) \<Rightarrow> setup_load fuel ou yes mid name c4)))"

subsection \<open>The commands\<close>

definition usage :: string where
  "usage =
     ''geisten start | stop | restart | status | models | open | setup [--yes]'' @ [CHR 0x0A]
     @ ''geisten download MODEL | use MODEL | chat TEXT | test | test-agent'' @ [CHR 0x0A]
     @ ''geisten connection | config continue | config opencode'' @ [CHR 0x0A]
     @ ''(geist is the earlier name of this command and still works.)'' @ [CHR 0x0A]
     @ ''Connection/config output contains your private local API key.'' @ [CHR 0x0A]
     @ ''Set GEIST_HOME to use an isolated service data folder.''"

definition run_stop :: "'w outside \<Rightarrow> bool \<Rightarrow> 'w cli \<Rightarrow> nat \<times> 'w cli" where
  "run_stop ou restart c =
     (case cli_request ou ''/app/quit'' (Some ''{}'') 5 c of
        (code, c1) \<Rightarrow>
          if code \<noteq> 0 \<and> code \<noteq> 202 then (1, protest (ci_reply c1) c1)
          else
            (case wait_stopped ou c1 of
               (False, c2) \<Rightarrow> (1, c2)
             | (True, c2) \<Rightarrow>
                 if \<not> restart then (0, puts ''geisten stopped. Downloaded models are preserved.'' c2)
                 else (case start_service ou c2 of (ok, c3) \<Rightarrow> (if ok then 0 else ci_start_error c3, c3))))"

definition run_start :: "'w outside \<Rightarrow> bool \<Rightarrow> 'w cli \<Rightarrow> nat \<times> 'w cli" where
  "run_start ou browse c =
     (case start_service ou c of
        (False, c1) \<Rightarrow> (ci_start_error c1, c1)
      | (True, c1) \<Rightarrow>
          if \<not> browse then (0, puts ''geisten is running.'' c1)
          else
            let url = fit 256 (''http://127.0.0.1:'' @ dec (ci_port c1) @ ''/#'' @ ci_token c1) in
            if ou_getenv ou ''DISPLAY'' = None \<and> ou_getenv ou ''WAYLAND_DISPLAY'' = None
            then (0, puts (''Open through your SSH tunnel: '' @ url) c1)
            else
              (case command ou (if ou_desktop ou then [''/usr/bin/geisten-desktop''] else [''xdg-open'', url]) c1 of
                 (r, c2) \<Rightarrow> (if r = 0 then 0 else 1, c2)))"

definition id_stmts :: "string \<Rightarrow> (app_buffer \<Rightarrow> app_buffer) list" where
  \<open>id_stmts model = [app_put ''{"id":'', app_quote model, app_put ''}'']\<close>

definition run_model :: "'w outside \<Rightarrow> bool \<Rightarrow> string \<Rightarrow> 'w cli \<Rightarrow> nat \<times> 'w cli" where
  "run_model ou download model c =
     (case written_in 1024 (id_stmts model) of
        (body, failed) \<Rightarrow>
          if failed then (2, c)
          else (case cli_request ou (if download then ''/app/download'' else ''/app/select'') (Some body) 5 c of
                  (code, c1) \<Rightarrow> (if code = 202 then 0 else 1, puts (ci_reply c1) c1)))"

definition continue_stmts :: "nat \<Rightarrow> string \<Rightarrow> string \<Rightarrow> (app_buffer \<Rightarrow> app_buffer) list" where
  \<open>continue_stmts port token model =
     [app_put (''{"name":"geisten Local","version":"1.0.0","schema":"v1","models":[{"name":"geisten","provider":"openai",''
               @ ''"model":''),
      app_quote model,
      app_printf ('',"apiBase":"http://127.0.0.1:'' @ dec port @ ''/v1","apiKey":''), app_quote token,
      app_put ('',"roles":["chat"],"capabilities":[],"defaultCompletionOptions":{"contextLength":4096,"maxTokens":512}}]}'')]\<close>

definition opencode_stmts :: "nat \<Rightarrow> string \<Rightarrow> string \<Rightarrow> (app_buffer \<Rightarrow> app_buffer) list" where
  \<open>opencode_stmts port token model =
     [app_put (''{"$schema":"https://opencode.ai/config.json","provider":{"geist":{"npm":"@ai-sdk/openai-compatible",''
               @ ''"name":"geisten","options":{''),
      app_printf (''"baseURL":"http://127.0.0.1:'' @ dec port @ ''/v1","apiKey":''), app_quote token,
      app_put ''},"models":{'', app_quote model,
      app_put '':{"name":"geisten local text","tool_call":false,"limit":{"context":4096,"output":512}}}}},"model":'',
      app_quote (fit 256 (''geist/'' @ model)),
      app_put ('',"default_agent":"geist-chat","agent":{"geist-chat":{"mode":"primary","description":"Local text chat without ''
               @ ''tools","prompt":"Answer the user briefly. You cannot access files or execute tools.",''
               @ ''"permission":{"*":"deny"}}}}'')]\<close>

definition print_config :: "'w outside \<Rightarrow> string \<Rightarrow> string \<Rightarrow> 'w cli \<Rightarrow> nat \<times> 'w cli" where
  "print_config ou which model c =
     (if which \<noteq> ''continue'' \<and> which \<noteq> ''opencode'' then (2, puts usage c)
      else
        (case written_in 32768 ((if which = ''continue'' then continue_stmts else opencode_stmts) (ci_port c) (ci_token c) model) of
           (body, failed) \<Rightarrow> if failed then (1, c) else (0, puts body c)))"

text \<open>The body of a chat request; \<open>agent\<close> offers a tool, which the service has to refuse.\<close>

definition probe_text :: string where
  \<open>probe_text =
     '',"tools":[{"type":"function","function":{"name":"connection_probe","parameters":{"type":"object","properties":{}}}}]''\<close>

definition chat_stmts :: "bool \<Rightarrow> nat \<Rightarrow> string \<Rightarrow> string \<Rightarrow> (app_buffer \<Rightarrow> app_buffer) list" where
  \<open>chat_stmts agent max_tokens model content =
     [app_put ''{"model":'', app_quote model,
      app_put '',"messages":[{"role":"user","content":'', app_quote content,
      app_printf (''}],"max_tokens":'' @ dec max_tokens)]
     @ (if agent then [app_put probe_text] else []) @ [app_put ''}'']\<close>

definition run_chat :: "'w outside \<Rightarrow> string \<Rightarrow> string \<Rightarrow> string \<Rightarrow> 'w cli \<Rightarrow> nat \<times> 'w cli" where
  "run_chat ou cmd content model c =
     (let test = (cmd = ''test''); agent = (cmd = ''test-agent'') in
      case written_in 32768 (chat_stmts agent (if agent then 32 else if test then 512 else 256) model
             (if test \<or> agent then ''Say hello in one sentence.'' else content)) of
        (body, failed) \<Rightarrow>
          if failed then (2, c)
          else
            (case cli_request ou ''/v1/chat/completions'' (Some body) 180 c of
               (code, c1) \<Rightarrow>
                 if agent \<and> code = 422 then
                   (3, puts ''Agent tools: unsupported. Explicit rejection verified; this is not agent acceptance.'' c1)
                 else if code \<noteq> 200 then
                   (1, complain (''Request failed ('' @ dec code @ ''): '' @ ci_reply c1) c1)
                 else (0, puts (ci_reply c1) c1)))"

text \<open>The commands that need a loaded model. \<open>args\<close> is what follows the command.\<close>

definition run_connected :: "'w outside \<Rightarrow> string \<Rightarrow> string list \<Rightarrow> 'w cli \<Rightarrow> nat \<times> 'w cli" where
  "run_connected ou cmd args c =
     (case cli_request ou ''/app/connections'' None 5 c of
        (code, c1) \<Rightarrow>
          if code \<noteq> 200 then (1, c1)
          else if cmd = ''connection'' then (0, puts (ci_reply c1) c1)
          else
            (case json_parse (ci_reply c1) of
               None \<Rightarrow> (1, c1)
             | Some j \<Rightarrow>
                 (case json_strdup j (json_get j 0 ''model'') of
                    Some (m # ms) \<Rightarrow>
                      if cmd = ''config'' \<and> length args = 1 then print_config ou (hd args) (m # ms) c1
                      else if cmd \<notin> {''chat'', ''test'', ''test-agent''} then (2, puts usage c1)
                      else if cmd = ''chat'' \<and> length args \<noteq> 1 then (2, puts usage c1)
                      else run_chat ou cmd (if args = [] then [] else hd args) (m # ms) c1
                  | _ \<Rightarrow> (1, complain ''Choose and load a model in geisten first.'' c1))))"

definition run_served :: "'w outside \<Rightarrow> string \<Rightarrow> string list \<Rightarrow> 'w cli \<Rightarrow> nat \<times> 'w cli" where
  "run_served ou cmd args c =
     (case cli_request ou ''/app/status'' None 5 c of
        (code, c1) \<Rightarrow>
          if code \<noteq> 200 then (1, complain ''geisten is not running. Start the app or run: geisten start'' c1)
          else if cmd = ''status'' then (0, puts (ci_reply c1) c1)
          else if cmd = ''models'' then print_models c1
          else if cmd = ''download'' \<or> cmd = ''use'' then
            (if length args \<noteq> 1 then (2, puts usage c1) else run_model ou (cmd = ''download'') (hd args) c1)
          else run_connected ou cmd args c1)"

text \<open>\<open>run\<close> behind the two folders it finds first, \<open>ou_home\<close> and \<open>ou_directory\<close>. \<open>None\<close> is that the fuel of \<open>setup\<close> was
  not enough.\<close>

definition run_command :: "nat \<Rightarrow> 'w outside \<Rightarrow> string list \<Rightarrow> 'w cli \<Rightarrow> nat option \<times> 'w cli" where
  "run_command fuel ou argv c =
     (case argv of
        [] \<Rightarrow> (Some 0, puts usage c)
      | cmd # args \<Rightarrow>
          if cmd = ''--help'' then (Some 0, puts usage c)
          else if cmd = ''setup'' then
            (if length args > 1 \<or> (length args = 1 \<and> hd args \<noteq> ''--yes'') then (Some 2, puts usage c)
             else setup_command fuel ou (length args = 1) c)
          else
            (case (if cmd = ''stop'' \<or> cmd = ''restart'' then run_stop ou (cmd = ''restart'') c
                   else if cmd = ''start'' \<or> cmd = ''open'' then run_start ou (cmd = ''open'') c
                   else run_served ou cmd args c) of
               (r, c1) \<Rightarrow> (Some r, c1)))"

end
