(* ===== verification/StatusRead.thy ===== *)
theory StatusRead
  imports StatusTree Cli
begin

section \<open>The status document is read as the state\<close>

text \<open>
  The document is well formed, so the command line parses what the service wrote. \<open>setup_view\<close> is what
  \<open>geisten setup\<close> should learn, said of the state; \<open>setup_reads\<close> shows that it learns this, through the text of the
  document, the parts it arrives in and the reader.
\<close>

subsection \<open>Well formed\<close>

lemma prim_ok_choice: "prim_ok s \<Longrightarrow> prim_ok t \<Longrightarrow> prim_ok (if P then s else t)"
  by simp

lemma prim_ok_words [simp]: "prim_ok ''null''" "prim_ok ''true''" "prim_ok ''false''"
  by (simp_all add: prim_ok_def prim_start_def prim_end_def)

lemma known_rate_finite: "known_rate x \<Longrightarrow> dfinite x"
  by (cases x) (simp_all add: known_rate_def dfinite_def)

lemma rate_value_ok [simp]: "jval_ok (rate_value x)"
  using printf_f_finite [OF known_rate_finite] by (simp add: rate_value_def)

lemma parts_ok [simp]:
  "jval_ok (processor_value p)" "jval_ok (basis_value b)" "jval_ok (phase_value now_ns phases i)" "jval_ok (ms_text q)"
  "jval_ok (measured_value a gx)" "jval_ok (hardware_tree h)" "jval_ok (resource_tree h w a)"
  "jfields_ok (engine_tree e)"
  by (auto simp: processor_value_def basis_value_def phase_value_def ms_text_def measured_value_def hardware_tree_def resource_tree_def
      engine_tree_def engine_lib_def or_null_def Let_def split: geistr_basis.splits prod.splits option.splits)

lemma head_ok: "jfields_ok (head_fields h a)"
  by (simp add: head_fields_def Let_def)

lemma activity_ok: "jfields_ok (activity_fields h a)"
  by (simp add: activity_fields_def Let_def activity_tree_ok)

lemma lifecycle_ok: "jfields_ok (lifecycle_fields h a)"
  by (auto simp: lifecycle_fields_def jvals_ok_all)

lemma execution_ok: "jfields_ok (execution_fields a)"
  by (simp add: execution_fields_def Let_def)

lemma comparison_ok: "jfields_ok (comparison_fields a)"
  by (auto simp: comparison_fields_def jvals_ok_all)

lemma process_ok: "jfields_ok (process_fields h a)"
  by (simp add: process_fields_def Let_def)

lemma identity_ok: "jval_ok quality \<Longrightarrow> jval_ok reference \<Longrightarrow> jfields_ok (identity_fields h a quality reference i)"
  by (simp add: identity_fields_def Let_def)

lemma speed_ok: "jfields_ok (speed_fields a i)"
  by (auto simp: speed_fields_def Let_def split: prod.splits)

lemma verdict_ok: "jfields_ok (verdict_fields h a i)"
  by (auto simp: verdict_fields_def Let_def split: prod.splits)

lemma jfields_ok_append [simp]: "jfields_ok (xs @ ys) \<longleftrightarrow> jfields_ok xs \<and> jfields_ok ys"
  by (auto simp: jfields_ok_all)

lemma model_tree_ok:
  assumes "evidence_of a evidence" and "i < length (ap_models a)"
  shows "jval_ok (model_tree h a evidence i)"
  using assms identity_ok speed_ok verdict_ok by (simp add: evidence_of_def evidence_ok_def model_tree_def)

lemma choices_ok: "jfields_ok (choice_fields h a)"
  by (auto simp: choice_fields_def jvals_ok_all best_value_def split: option.splits)

lemma status_settings_ok:
  assumes "status_ok h a evidence" and "status_prints h a"
  shows "jfields_ok (settings_fields h a)"
proof -
  have "jval_ok (profile_tree a)"
    unfolding profile_tree_def by (rule view_tree_ok) (use assms in \<open>simp_all add: status_ok_def status_prints_def\<close>)
  with assms(2) show ?thesis by (simp add: settings_fields_def status_prints_def)
qed

lemma status_fields_ok:
  assumes "status_ok h a evidence" and "status_prints h a"
  shows "jfields_ok (status_fields h w a evidence)"
proof -
  have "evidence_of a evidence" using assms(1) by (simp add: status_ok_def)
  then have "jvals_ok (map (model_tree h a evidence) [0..<length (ap_models a)])"
    using model_tree_ok by (auto simp: jvals_ok_all)
  moreover have "jval_ok (memory_value h a)" using assms(2) by (simp add: status_prints_def)
  ultimately show ?thesis
    using head_ok activity_ok lifecycle_ok execution_ok comparison_ok process_ok choices_ok status_settings_ok [OF assms]
    by (simp add: status_fields_def del: jval_ok.simps(4))
qed

subsection \<open>The text\<close>

lemma written_text:
  assumes "built cap fs = Some s" and "writes (stmts fs) t" and "0 < cap" and "cap < 2 ^ 31"
  shows "s = t \<and> length s < cap"
proof -
  have b: "buf_ok (empty_buffer cap)" using assms(3,4) by (simp add: buf_ok_def empty_buffer_def)
  have f: "\<not> b_failed (stmts fs (empty_buffer cap))" and s: "s = take (b_len (stmts fs (empty_buffer cap))) (b_data (stmts fs (empty_buffer cap)))"
    using assms(1) by (auto simp: built_def Let_def split: if_splits)
  have e: "b_data (empty_buffer cap) = []" "b_len (empty_buffer cap) = 0" "b_cap (empty_buffer cap) = cap"
    by (simp_all add: empty_buffer_def)
  from writesD(3,4) [OF assms(2) b] f s e show ?thesis by (auto simp: not_le)
qed

lemma built_writes:
  assumes "writes (stmts fs) t" and "length t < cap" and "cap < 2 ^ 31"
  shows "built cap fs = Some t"
proof -
  have b: "buf_ok (empty_buffer cap)" using assms(2,3) by (simp add: buf_ok_def empty_buffer_def)
  have e: "b_data (empty_buffer cap) = []" "b_len (empty_buffer cap) = 0" "b_cap (empty_buffer cap) = cap" "\<not> b_failed (empty_buffer cap)"
    by (simp_all add: empty_buffer_def)
  have f: "\<not> b_failed (stmts fs (empty_buffer cap))" using writesD(3) [OF assms(1) b] e assms(2) by simp
  from writesD(4) [OF assms(1) b f] e f show ?thesis by (simp add: built_def Let_def)
qed

definition STATUS_TOKENS :: "status_help \<Rightarrow> app_resource_window \<Rightarrow> app_state \<Rightarrow> (nat \<Rightarrow> jval \<times> jval) \<Rightarrow> nat" where
  "STATUS_TOKENS h w a evidence = ntoks (JObj (status_fields h w a evidence))"

lemma status_text:
  assumes "status_response h True w a = (Inr body, w1)" and "status_ok h a evidence"
  shows "body = render app_esc (JObj (status_fields h w1 a evidence)) \<and> length body < STATUS_CAP"
proof -
  have b: "built STATUS_CAP (map perform (status_parts h w1 a)) = Some body"
    using assms(1) by (auto simp: status_response_def Let_def split: option.splits)
  show ?thesis by (rule written_text [OF b writes_status [OF assms(2)]]) (simp_all add: STATUS_CAP_def)
qed

lemma status_parsed:
  assumes "status_response h True w a = (Inr body, w1)" and "status_ok h a evidence" and "status_prints h a"
    and "STATUS_TOKENS h w1 a evidence \<le> JSON_TOK_CAP"
  obtains j where "json_parse body = Some j" and "is_at app_esc j 0 (JObj (status_fields h w1 a evidence))"
    and "length (tok j) = ntoks (JObj (status_fields h w1 a evidence))" and "NUL \<notin> set body" and "length body < STATUS_CAP"
proof -
  note t = status_text [OF assms(1,2)] and ok = status_fields_ok [OF assms(2,3), of w1]
  from app_quoting.root_tokens [OF ok assms(4) [unfolded STATUS_TOKENS_def]] obtain j where
    "json_parse body = Some j" "is_at app_esc j 0 (JObj (status_fields h w1 a evidence))"
    "length (tok j) = ntoks (JObj (status_fields h w1 a evidence))"
    using t by metis
  moreover have "jval_ok (JObj (status_fields h w1 a evidence))" using ok by simp
  with render_visible(1) [OF this, of NUL] t have "NUL \<notin> set body" by auto
  ultimately show thesis using that t by blast
qed

subsection \<open>Members of the document\<close>

lemma map_of_skip: "k \<notin> set (map fst xs) \<Longrightarrow> map_of (xs @ ys) k = map_of ys k"
  by (simp add: map_add_def map_of_eq_None_iff split: option.split) (metis map_of_eq_None_iff option.distinct(1))

lemma map_of_here: "map_of xs k = Some v \<Longrightarrow> map_of (xs @ ys) k = Some v"
  by (simp add: map_add_Some_iff)

lemma status_keys:
  "map fst (head_fields h a) = [''version'', ''catalog_revision'', ''api_socket'', ''quality_suite'', ''recommendation'',
     ''answer_language'', ''engine'']"
  "map fst (activity_fields h a) = [''activity'', ''process_generation'']"
  "map fst (lifecycle_fields h a) = [''lifecycle'', ''request_phase'', ''last_error'']"
  "map fst (execution_fields a) = [''execution'']"
  "map fst (comparison_fields a) = [''comparison'', ''performance_history'']"
  "map fst (process_fields h a) = [''runtime'', ''active'', ''active_id'', ''message'', ''phase'', ''job_model'', ''received'', ''ready'',
     ''loading'', ''busy'', ''inference_busy'', ''background_download'']"
  "map fst (choice_fields h a) = [''ranking'', ''best_choice'']"
  "map fst (settings_fields h a) = [''limits'', ''performance_profile'']"
  by (simp_all add: head_fields_def activity_fields_def lifecycle_fields_def execution_fields_def comparison_fields_def process_fields_def
      choice_fields_def settings_fields_def Let_def)

lemma status_plain: "\<forall>k \<in> fst ` set (status_fields h w a evidence). plain k"
proof -
  have "fst ` set (status_fields h w a evidence) = set (map fst (status_fields h w a evidence))" by simp
  also have "\<dots> = set (map fst (head_fields h a)) \<union> set (map fst (activity_fields h a)) \<union> set (map fst (lifecycle_fields h a))
      \<union> set (map fst (execution_fields a)) \<union> set (map fst (comparison_fields a)) \<union> {''hardware'', ''resources'', ''memory''}
      \<union> set (map fst (process_fields h a)) \<union> {''models''} \<union> set (map fst (choice_fields h a)) \<union> set (map fst (settings_fields h a))"
    by (auto simp: status_fields_def)
  finally show ?thesis by (simp only: status_keys) (simp add: plain_def)
qed

lemma status_member:
  "map_of (head_fields h a) key = Some v \<Longrightarrow> map_of (status_fields h w a evidence) key = Some v"
  "map_of (process_fields h a) key = Some v \<Longrightarrow> map_of (status_fields h w a evidence) key = Some v"
  "map_of (status_fields h w a evidence) ''models'' = Some (JArr (map (model_tree h a evidence) [0..<length (ap_models a)]))"
proof -
  show "map_of (head_fields h a) key = Some v \<Longrightarrow> map_of (status_fields h w a evidence) key = Some v"
    unfolding status_fields_def by (rule map_of_here)
  assume "map_of (process_fields h a) key = Some v"
  then have "key \<in> set (map fst (process_fields h a))" by (metis map_of_eq_None_iff option.distinct(1) set_map)
  with \<open>map_of (process_fields h a) key = Some v\<close> show "map_of (status_fields h w a evidence) key = Some v"
    unfolding status_fields_def status_keys
    by (subst map_of_skip map_of_here; (auto simp: status_keys simp del: map_of_append set_map)?)+
next
  show "map_of (status_fields h w a evidence) ''models'' = Some (JArr (map (model_tree h a evidence) [0..<length (ap_models a)]))"
    unfolding status_fields_def
    by (subst map_of_skip, (simp add: status_keys del: set_map; fail))+ simp
qed

subsection \<open>What setup learns\<close>

definition with_model :: "status_help \<Rightarrow> app_state \<Rightarrow> nat \<Rightarrow> setup_state \<Rightarrow> setup_state" where
  "with_model h a i s =
     s\<lparr>su_name := Some (cstr (am_name (ap_models a ! i))), su_bytes := Fin (of_nat (unat (am_bytes (ap_models a ! i)))),
       su_installed := installed (model_inventory (sh_sizes h) a ! i)\<rparr>"

definition setup_plain :: "status_help \<Rightarrow> app_state \<Rightarrow> setup_state" where
  "setup_plain h a =
     (let c = recommendation_of h a; jb = ap_job a in
      \<lparr>su_id = Some (cstr (case chosen c of Some k \<Rightarrow> am_id (ap_models a ! k) | None \<Rightarrow> [])),
       su_reason = Some (cstr (case why c of Some t \<Rightarrow> t | None \<Rightarrow> [])),
       su_active = Some (cstr (if pid a > 0 then active_id a else [])),
       su_job = Some (cstr (if jb_running jb then (case jb_model jb of Some m \<Rightarrow> am_id m | None \<Rightarrow> []) else [])),
       su_phase = Some (cstr (jb_phase jb)), su_message = Some (cstr (ap_message a)), su_name = None, su_eligible = is_eligible c,
       su_ready = ready a, su_loading = (pid a > 0 \<and> \<not> ready a), su_installed = False,
       su_received = Fin (of_nat (unat (jb_received jb))), su_bytes = Fin 0\<rparr>)"

text \<open>The model that is described: the last one with the wanted id, or with the id of the recommendation.\<close>

definition setup_view :: "status_help \<Rightarrow> app_state \<Rightarrow> string option \<Rightarrow> setup_state" where
  "setup_view h a want =
     (let s = setup_plain h a; key = (case want of Some x \<Rightarrow> x | None \<Rightarrow> the (su_id s)) in
      case filter (\<lambda>i. cstr (am_id (ap_models a ! i)) = key) (rev [0..<length (ap_models a)]) of
        i # is \<Rightarrow> with_model h a i s
      | [] \<Rightarrow> s)"

lemma fold_last_match:
  assumes "\<And>i k s. upd i (upd k s) = upd i s"
  shows "fold (\<lambda>i s. if P i then upd i s else s) xs s = (case filter P (rev xs) of i # is \<Rightarrow> upd i s | [] \<Rightarrow> s)"
proof (induction xs rule: rev_induct)
  case (snoc x xs)
  show ?case
  proof (cases "P x")
    case True
    then have "fold (\<lambda>i s. if P i then upd i s else s) (xs @ [x]) s = upd x (fold (\<lambda>i s. if P i then upd i s else s) xs s)" by simp
    also have "\<dots> = upd x s" using snoc.IH assms by (simp split: list.split)
    finally show ?thesis using True by simp
  qed (use snoc in simp)
qed simp

lemma string_at:
  assumes "is_at app_esc j n (JObj fs)" and "\<forall>k \<in> fst ` set fs. plain k" and "map_of fs key = Some (JStr (cstr s))"
  shows "json_strdup j (json_get j (int n) key) = Some (cstr s)"
  by (rule text_read [OF assms]) simp

lemma flag_at:
  assumes "is_at app_esc j n (JObj fs)" and "\<forall>k \<in> fst ` set fs. plain k" and "map_of fs key = Some (JPrim (yes_no b))"
  shows "json_bool j (json_get j (int n) key) d = b"
  using bool_read [OF assms] by (simp add: yes_no_def split: if_splits)

lemma setup_read_view:
  assumes "is_at app_esc j 0 (JObj (status_fields h w a evidence))"
  shows "setup_read j = setup_plain h a"
proof -
  define c where "c = recommendation_of h a"
  define rs where "rs = [(''id'', JStr (cstr (case chosen c of Some k \<Rightarrow> am_id (ap_models a ! k) | None \<Rightarrow> []))),
    (''preferred_id'', JStr (cstr (am_id (ap_models a ! preferred c)))), (''source'', JStr (cstr (source_of c))),
    (''reason'', JStr (cstr (case why c of Some t \<Rightarrow> t | None \<Rightarrow> []))), (''eligible'', JPrim (yes_no (is_eligible c)))]"
  have rec: "map_of (head_fields h a) ''recommendation'' = Some (JObj rs)"
    by (simp add: head_fields_def Let_def rs_def c_def)
  obtain m where m: "json_get j 0 ''recommendation'' = int m" "is_at app_esc j m (JObj rs)"
    using app_get [OF assms status_plain status_member(1) [OF rec]] by auto
  have p: "\<forall>k \<in> fst ` set rs. plain k" by (simp add: rs_def plain_def)
  note s = string_at [OF m(2) p] string_at [OF assms status_plain status_member(2), simplified]
    and f = flag_at [OF m(2) p] flag_at [OF assms status_plain status_member(2), simplified]
    and n = nat_read [OF assms status_plain status_member(2), simplified]
  have 1: "json_strdup j (json_get j (int m) ''id'') = Some (cstr (case chosen c of Some k \<Rightarrow> am_id (ap_models a ! k) | None \<Rightarrow> []))"
    "json_strdup j (json_get j (int m) ''reason'') = Some (cstr (case why c of Some t \<Rightarrow> t | None \<Rightarrow> []))"
    by (rule s(1), simp add: rs_def)+
  have 2: "json_bool j (json_get j (int m) ''eligible'') False = is_eligible c" by (rule f(1)) (simp add: rs_def)
  have 3: "json_strdup j (json_get j 0 ''active_id'') = Some (cstr (if pid a > 0 then active_id a else []))"
    "json_strdup j (json_get j 0 ''job_model'')
       = Some (cstr (if jb_running (ap_job a) then (case jb_model (ap_job a) of Some m \<Rightarrow> am_id m | None \<Rightarrow> []) else []))"
    "json_strdup j (json_get j 0 ''phase'') = Some (cstr (jb_phase (ap_job a)))"
    "json_strdup j (json_get j 0 ''message'') = Some (cstr (ap_message a))"
    by (rule s(2), simp add: process_fields_def Let_def)+
  have 4: "json_bool j (json_get j 0 ''ready'') False = ready a" "json_bool j (json_get j 0 ''loading'') False = (pid a > 0 \<and> \<not> ready a)"
    by (rule f(2), simp add: process_fields_def Let_def)+
  have 5: "json_num j (json_get j 0 ''received'') (Fin 0) = Fin (of_nat (unat (jb_received (ap_job a))))"
    by (rule n) (simp add: process_fields_def Let_def)
  show ?thesis unfolding setup_read_def setup_plain_def Let_def m(1) c_def [symmetric] 1 2 3 4 5 ..
qed

lemma model_plain: "\<forall>k \<in> fst ` set (identity_fields h a q r i @ speed_fields a i @ verdict_fields h a i). plain k"
proof -
  have "map fst (identity_fields h a q r i) = [''id'', ''name'', ''group_id'', ''group_name'', ''quantization'', ''sha256'', ''bytes'', ''ram_gib'',
      ''working_mib'', ''installed'', ''partial'', ''resource_fit'', ''fit'', ''quality'', ''reason'', ''quality_evidence'', ''reference'',
      ''capabilities'', ''preview_accepted'', ''performance'']"
    by (simp add: identity_fields_def Let_def)
  moreover have "map fst (speed_fields a i) = [''speed'', ''earlier'']" by (simp add: speed_fields_def Let_def split_def)
  moreover have "map fst (verdict_fields h a i) = [''verdict'']" by (simp add: verdict_fields_def Let_def split_def)
  ultimately have "map fst (identity_fields h a q r i @ speed_fields a i @ verdict_fields h a i) = [''id'', ''name'', ''group_id'', ''group_name'',
      ''quantization'', ''sha256'', ''bytes'', ''ram_gib'', ''working_mib'', ''installed'', ''partial'', ''resource_fit'', ''fit'', ''quality'',
      ''reason'', ''quality_evidence'', ''reference'', ''capabilities'', ''preview_accepted'', ''performance'', ''speed'', ''earlier'', ''verdict'']"
    by simp
  moreover have "fst ` set fs = set (map fst fs)" for fs :: "(string \<times> jval) list" by simp
  ultimately show ?thesis by (simp only:) (simp add: plain_def)
qed

lemma setup_model_view:
  assumes "is_at app_esc j p (model_tree h a evidence i)"
  shows "setup_model j key p s = (if cstr (am_id (ap_models a ! i)) = key then with_model h a i s else s)"
proof -
  define fs where "fs = identity_fields h a (fst (evidence i)) (snd (evidence i)) i @ speed_fields a i @ verdict_fields h a i"
  have at: "is_at app_esc j p (JObj fs)" using assms by (simp add: model_tree_def fs_def)
  have p: "\<forall>k \<in> fst ` set fs. plain k" unfolding fs_def by (rule model_plain)
  have m: "map_of fs ''id'' = Some (JStr (cstr (am_id (ap_models a ! i))))" "map_of fs ''name'' = Some (JStr (cstr (am_name (ap_models a ! i))))"
    "map_of fs ''bytes'' = Some (JPrim (dec (unat (am_bytes (ap_models a ! i)))))"
    "map_of fs ''installed'' = Some (JPrim (yes_no (installed (model_inventory (sh_sizes h) a ! i))))"
    unfolding fs_def by (rule map_of_here, simp add: identity_fields_def Let_def)+
  show ?thesis
    unfolding setup_model_def with_model_def string_at [OF at p m(1)] string_at [OF at p m(2)] nat_read [OF at p m(3)] flag_at [OF at p m(4)]
    by simp
qed

lemma setup_of_view:
  assumes "is_at app_esc j 0 (JObj (status_fields h w a evidence))" and "length (tok j) = ntoks (JObj (status_fields h w a evidence))"
  shows "setup_of j want = setup_view h a want"
proof -
  have m: "map_of (raw_fields app_esc (status_fields h w a evidence)) ''models''
      = Some (JArr (map (model_tree h a evidence) [0..<length (ap_models a)]))"
    unfolding app_raw_fields [OF status_plain] by (rule status_member)
  obtain t where t: "json_get j 0 ''models'' = int t"
    and e: "list_all2 (is_at app_esc j) (filter (\<lambda>i. tok_parent (tok j ! i) = int t) [Suc t..<length (tok j)])
       (map (model_tree h a evidence) [0..<length (ap_models a)])"
    using app_quoting.array_member [OF assms m] by auto
  have n: "json_n j = int (length (tok j))" using assms(1) by (simp add: is_at_def)
  have toks: "model_tokens j (json_get j 0 ''models'') = filter (\<lambda>i. tok_parent (tok j ! i) = int t) [Suc t..<length (tok j)]"
    by (simp add: model_tokens_def t n nat_add_distrib)
  have elems: "fold (setup_model j key) ps s = fold (\<lambda>i s. if cstr (am_id (ap_models a ! i)) = key then with_model h a i s else s) xs s"
    if "list_all2 (is_at app_esc j) ps (map (model_tree h a evidence) xs)" for ps xs key s
    using that
  proof (induction ps arbitrary: xs s)
    case (Cons p ps)
    then obtain x ys where x: "xs = x # ys" "is_at app_esc j p (model_tree h a evidence x)"
      "list_all2 (is_at app_esc j) ps (map (model_tree h a evidence) ys)"
      by (auto simp: list_all2_Cons1 map_eq_Cons_conv)
    from Cons.IH [OF x(3)] show ?case by (simp only: x(1) fold_simps setup_model_view [OF x(2)])
  qed simp
  have "\<exists>y. su_id (setup_plain h a) = Some y" by (simp add: setup_plain_def Let_def)
  then obtain y where y: "su_id (setup_plain h a) = Some y" ..
  have last: "fold (\<lambda>i s. if cstr (am_id (ap_models a ! i)) = key then with_model h a i s else s) [0..<length (ap_models a)] s
      = (case filter (\<lambda>i. cstr (am_id (ap_models a ! i)) = key) (rev [0..<length (ap_models a)]) of i # is \<Rightarrow> with_model h a i s | [] \<Rightarrow> s)"
    for key s by (rule fold_last_match) (simp add: with_model_def)
  show ?thesis
    unfolding setup_of_def setup_view_def Let_def setup_read_view [OF assms(1)] toks
    by (cases want) (simp_all add: y elems [OF e] last del: upt_Suc)
qed

subsection \<open>Over the wire\<close>

text \<open>The service is found, and what it answers to this request arrives whole, in any parts.\<close>

definition answers :: "'w outside \<Rightarrow> string \<Rightarrow> string option \<Rightarrow> nat \<Rightarrow> 'w cli \<Rightarrow> nat \<Rightarrow> string \<Rightarrow> bool" where
  "answers ou path body timeout c code text \<longleftrightarrow>
     (case app_connection_read (ou_home ou) (ou_files ou (ci_world c)) of
        None \<Rightarrow> False
      | Some (port, token) \<Rightarrow>
          (case ou_exchange ou (fit 256 (''http://127.0.0.1:'' @ dec port @ path)) (fit 96 (''Authorization: Bearer '' @ token)) body
                  timeout (ci_world c) of
             (x, w) \<Rightarrow> ex_whole x \<and> ex_status x = code \<and> concat (ex_parts x) = text))"

lemma received_whole:
  assumes "b_len b = length (b_data b)" and "b_len b + length (concat ds) < b_cap b"
  shows "\<exists>b1. receive_all ds b = (True, b1) \<and> b_data b1 = b_data b @ concat ds"
  using assms
proof (induction ds arbitrary: b)
  case (Cons d ds)
  define b1 where "b1 = b\<lparr>b_data := b_data b @ d, b_len := b_len b + length d\<rparr>"
  have "\<not> b_cap b - b_len b \<le> length d" using Cons.prems(2) by simp
  then have "receive d b = (length d, b1)" using Cons.prems(1) by (simp add: receive_def b1_def)
  moreover obtain b2 where "receive_all ds b1 = (True, b2)" "b_data b2 = b_data b1 @ concat ds"
    using Cons.IH [of b1] Cons.prems by (auto simp: b1_def)
  ultimately show ?case by (simp add: b1_def)
qed simp

lemma request_answered:
  assumes "answers ou path body timeout c code text" and "length text < REPLY_CAP" and "NUL \<notin> set text"
  obtains c1 where "cli_request ou path body timeout c = (code, c1)" and "ci_reply c1 = text"
proof -
  obtain port token x w where a: "app_connection_read (ou_home ou) (ou_files ou (ci_world c)) = Some (port, token)"
    "ou_exchange ou (fit 256 (''http://127.0.0.1:'' @ dec port @ path)) (fit 96 (''Authorization: Bearer '' @ token)) body
       timeout (ci_world c) = (x, w)"
    "ex_whole x" "ex_status x = code" "concat (ex_parts x) = text"
    using assms(1) by (auto simp: answers_def split: option.splits prod.splits)
  obtain b where b: "receive_all (ex_parts x) \<lparr>b_data = [], b_len = 0, b_cap = REPLY_CAP, b_failed = False\<rparr> = (True, b)" "b_data b = text"
    using received_whole [of "\<lparr>b_data = [], b_len = 0, b_cap = REPLY_CAP, b_failed = False\<rparr>" "ex_parts x"] a(5) assms(2) by auto
  have "cli_request ou path body timeout c = (code, c\<lparr>ci_port := port, ci_token := token, ci_reply := cstr (b_data b), ci_world := w\<rparr>)"
    unfolding cli_request_def a(1,2) option.case prod.case b(1) by (simp add: a(3,4))
  then show thesis by (rule that) (simp add: b(2) cstr_id [OF assms(3)])
qed

lemma setup_reads:
  assumes "status_response h True w a = (Inr body, w1)" and "status_ok h a evidence" and "status_prints h a"
    and "STATUS_TOKENS h w1 a evidence \<le> JSON_TOK_CAP" and "answers ou ''/app/status'' None 5 c 200 body"
  shows "fst (setup_state_read ou want c) = Some (setup_view h a want)"
proof -
  obtain j where j: "json_parse body = Some j" "is_at app_esc j 0 (JObj (status_fields h w1 a evidence))"
    "length (tok j) = ntoks (JObj (status_fields h w1 a evidence))" and body: "NUL \<notin> set body" "length body < STATUS_CAP"
    using status_parsed [OF assms(1-4)] .
  have "length body < REPLY_CAP" using body(2) by (simp add: STATUS_CAP_def REPLY_CAP_def)
  from request_answered [OF assms(5) this body(1)] obtain c1 where
    "cli_request ou ''/app/status'' None 5 c = (200, c1)" "ci_reply c1 = body" .
  then show ?thesis using j(1) setup_of_view [OF j(2,3)] by (simp add: setup_state_read_def)
qed

subsection \<open>How long the text is\<close>

text \<open>A bound that needs no look at the characters: each may be escaped.\<close>

fun text_bound :: "jval \<Rightarrow> nat" and elems_bound :: "jval list \<Rightarrow> nat" and fields_bound :: "(string \<times> jval) list \<Rightarrow> nat" where
  "text_bound (JStr s) = 6 * length s + 2"
| "text_bound (JPrim s) = length s"
| "text_bound (JArr vs) = elems_bound vs + 2"
| "text_bound (JObj fs) = fields_bound fs + 2"
| "elems_bound [] = 0"
| "elems_bound (v # vs) = text_bound v + 1 + elems_bound vs"
| "fields_bound [] = 0"
| "fields_bound ((k, v) # fs) = 6 * length k + text_bound v + 4 + fields_bound fs"

lemma app_esc_length: "length (app_esc c) \<le> 6"
  by (simp add: app_esc_def u_escape_def)

lemma quoted_length_le: "length (quoted app_esc s) \<le> 6 * length s + 2"
proof -
  have "length (concat (map app_esc s)) \<le> 6 * length s"
  proof (induction s)
    case (Cons c s)
    with app_esc_length [of c] show ?case by simp
  qed simp
  then show ?thesis by (simp add: quoted_def)
qed

lemma render_length:
  "length (render app_esc v) \<le> text_bound v"
  "length (render_elems app_esc vs) \<le> elems_bound vs"
  "length (render_fields app_esc fs) \<le> fields_bound fs"
proof (induction v and vs and fs rule: text_bound_elems_bound_fields_bound.induct)
  case (1 s)
  then show ?case using quoted_length_le by simp
next
  case (8 k v fs)
  then show ?case using quoted_length_le [of k] by simp
qed auto

lemma fields_bound_append: "fields_bound (xs @ ys) = fields_bound xs + fields_bound ys"
  by (induction xs) auto

end
