(* ===== verification/CliFacts.thy ===== *)
theory CliFacts
  imports StatusRead
begin

section \<open>What the command line does to a service\<close>

text \<open>
  A service of a later version is left as it is; a setup that sees no work comes to an end. \<open>dotted\<close> is a version as
  services write it.
\<close>

subsection \<open>Versions\<close>

definition dotted :: "nat \<Rightarrow> nat \<Rightarrow> nat \<Rightarrow> string" where
  "dotted x y z = dec x @ ''.'' @ dec y @ ''.'' @ dec z"

lemma digit_not_blank: "is_digit d \<Longrightarrow> \<not> (d = CHR '' '' \<or> (9 \<le> byte d \<and> byte d \<le> 13)) \<and> d \<noteq> CHR ''-'' \<and> d \<noteq> CHR ''+''"
  by (auto simp: is_digit_def)

lemma scan_dec:
  assumes "n < 2 ^ 32" and "r = [] \<or> \<not> is_digit (hd r)"
  shows "scan_unsigned (dec n @ r) = Some (n, r)"
proof -
  obtain d ds where d: "dec n = d # ds" "is_digit d" using dec_hd [of n] dec_nonempty [of n] by (cases "dec n") auto
  have "digits 0 (d # ds @ r) = (n, r)" using digits_dec [OF assms(2), of n] by (simp add: d(1))
  moreover have "\<not> 2 ^ 64 \<le> n" using assms(1) by simp
  moreover have "dropWhile (\<lambda>c. c = CHR '' '' \<or> (9 \<le> byte c \<and> byte c \<le> 13)) (dec n @ r) = d # ds @ r"
    using digit_not_blank [OF d(2)] by (auto simp: d(1))
  ultimately show ?thesis
    using digit_not_blank [OF d(2)] d(2) by (simp add: scan_unsigned_def Let_def)
qed

lemma scan_dotted:
  assumes "x < 2 ^ 32" and "y < 2 ^ 32" and "z < 2 ^ 32"
  shows "scan_version (dotted x y z) = Some [x, y, z]"
proof -
  have p: "\<not> is_digit (CHR ''.'')" by (simp add: is_digit_def)
  have 1: "scan_unsigned (dotted x y z) = Some (x, CHR ''.'' # dec y @ ''.'' @ dec z)"
    using scan_dec [OF assms(1), of "CHR ''.'' # dec y @ ''.'' @ dec z"] p by (simp add: dotted_def)
  have 2: "scan_unsigned (dec y @ ''.'' @ dec z) = Some (y, CHR ''.'' # dec z)"
    using scan_dec [OF assms(2), of "CHR ''.'' # dec z"] p by simp
  have 3: "scan_unsigned (dec z) = Some (z, [])" using scan_dec [OF assms(3), of "[]"] by simp
  show ?thesis using assms 2 3 by (simp add: scan_version_def 1)
qed

lemma own_version: "APP_VERSION = dotted 0 5 30"
  by (simp add: APP_VERSION_def dotted_def dec.simps) code_simp

definition later :: "nat list \<Rightarrow> nat list \<Rightarrow> bool" where
  "later a b \<longleftrightarrow> (b, a) \<in> lexord {(x, y). x < y}"

lemma first_difference_order:
  "length a = length b \<Longrightarrow> first_difference a b = (if a = b then 0 else if later a b then 1 else -1)"
  by (induction a b rule: list_induct2) (auto simp: later_def)

lemma version_order_dotted:
  assumes "x < 2 ^ 32" and "y < 2 ^ 32" and "z < 2 ^ 32"
  shows "version_order (Some (dotted x y z)) = (if [x, y, z] = [0, 5, 30] then 0 else if later [x, y, z] [0, 5, 30] then 1 else -1)"
proof -
  have "scan_version APP_VERSION = Some [0, 5, 30]" unfolding own_version by (rule scan_dotted) simp_all
  then show ?thesis
    using first_difference_order [of "[x, y, z]" "[0, 5, 30]"] by (simp add: version_order_def scan_dotted [OF assms])
qed

lemma newer_left_alone:
  assumes "answers ou ''/app/status'' None 2 c 200 text" and "length text < REPLY_CAP" and "NUL \<notin> set text"
    and "json_parse text = Some j" and "json_strdup j (json_get j 0 ''version'') = Some (dotted x y z)"
    and "x < 2 ^ 32" and "y < 2 ^ 32" and "z < 2 ^ 32" and "later [x, y, z] [0, 5, 30]"
  shows "\<exists>c1. start_service ou c = (False, c1) \<and> ci_start_error c1 = 44 \<and> ci_world c1 = ci_world (snd (cli_request ou ''/app/status'' None 2 c))"
proof -
  obtain c1 where c: "cli_request ou ''/app/status'' None 2 c = (200, c1)" "ci_reply c1 = text"
    using request_answered [OF assms(1-3)] .
  have "[x, y, z] \<noteq> [0, 5, 30]" using assms(9) by (auto simp: later_def)
  then have "version_order (reply_version c1) = 1"
    using version_order_dotted [OF assms(6-8)] assms(9) by (simp add: reply_version_def c(2) assms(4,5))
  then show ?thesis by (simp add: start_service_def c(1) current_service_def complain_def protest_def)
qed

subsection \<open>Setup ends\<close>

definition no_work :: "'w outside \<Rightarrow> string \<Rightarrow> bool" where
  "no_work ou key \<longleftrightarrow> (\<forall>c s. fst (setup_state_read ou (Some key) c) = Some s \<longrightarrow> \<not> working key s)"

lemma idle_step:
  assumes "\<not> working key s" and "follow_step key s f c = (Waiting, f1, c1)"
  shows "\<not> fo_started f1 \<and> fo_idle f1 = Suc (fo_idle f) \<and> fo_idle f < 150"
  using assms by (auto simp: follow_step_def Let_def split: if_splits)

lemma setup_gives_up:
  assumes "no_work ou key" and "fo_idle f \<le> 150" and "150 < fo_idle f + n"
  shows "fst (follow_setup n ou key f c) \<noteq> None"
  using assms(2,3)
proof (induction n arbitrary: f c)
  case (Suc n)
  obtain r c1 where r: "setup_state_read ou (Some key) c = (r, c1)" by fastforce
  show ?case
  proof (cases r)
    case None
    then show ?thesis by (simp add: r)
  next
    case (Some s)
    obtain p f1 c2 where p: "follow_step key s f c1 = (p, f1, c2)" by (metis prod_cases3)
    have w: "\<not> working key s" using assms(1) r Some unfolding no_work_def by (metis fst_conv)
    show ?thesis
    proof (cases p)
      case Waiting
      from idle_step [OF w p [unfolded Waiting]] have "fst (follow_setup n ou key f1 (pause_short ou (pause_short ou c2))) \<noteq> None"
        using Suc.IH [of f1] Suc.prems(2) by simp
      then show ?thesis by (simp add: r Some p Waiting)
    qed (simp_all add: r Some p)
  qed
qed simp

lemma setup_told:
  assumes "fst (follow_setup n ou key f c) = Some Loaded"
  shows "\<exists>c1 s. fst (setup_state_read ou (Some key) c1) = Some s \<and> su_ready s \<and> su_active s = Some key"
  using assms
proof (induction n arbitrary: f c)
  case (Suc n)
  obtain r c1 where r: "setup_state_read ou (Some key) c = (r, c1)" by fastforce
  with Suc.prems obtain s where s: "r = Some s" by (cases r) auto
  obtain p f1 c2 where p: "follow_step key s f c1 = (p, f1, c2)" by (metis prod_cases3)
  show ?case
  proof (cases p)
    case Loaded
    then have "su_ready s \<and> su_active s = Some key" using p by (auto simp: follow_step_def Let_def split: if_splits)
    then show ?thesis using r s by (metis fst_conv)
  next
    case Waiting
    with Suc.prems r s p have "fst (follow_setup n ou key f1 (pause_short ou (pause_short ou c2))) = Some Loaded" by simp
    then show ?thesis by (rule Suc.IH)
  qed (use Suc.prems r s p in simp_all)
qed simp

end
