(* ===== verification/StatusScene.thy ===== *)
theory StatusScene
  imports CliFacts AppScenes
begin

section \<open>A status document\<close>

text \<open>
  The start of a download on a machine without measurements: the document fits its buffer and the reader's tokens.
\<close>

definition no_ranker :: ranker where
  "no_ranker = \<lparr>rk_count = (\<lambda>c. None), rk_rank = (\<lambda>c hw gpu ls l i. None)\<rparr>"

definition help0 :: status_help where
  "help0 = \<lparr>sh_tm = 1, sh_now_ns = 1000000000, sh_hardware = device0, sh_known = True, sh_sizes = (\<lambda>_. 0), sh_process = None,
     sh_memory = (w_sample world0)\<lparr>sa_time := 0\<rparr>, sh_last = \<lparr>la_phase = ''idle'', la_message = [], la_stage = [], la_model = [], la_backend = [], la_code = 0\<rparr>,
     sh_limits = \<lparr>fast_s = 10, usable_s = 60, reliable = 9 / 10\<rparr>, sh_intent = ''chat'', sh_suite = ''s'', sh_assess = (\<lambda>m hw i. (RESOURCE_LIMITED, ''ram'')),
     sh_ranker = no_ranker, sh_fmt_g = (\<lambda>q. if q = 10 then ''10'' else if q = 60 then ''60'' else ''0.9'')\<rparr>"

definition nothing0 :: "nat \<Rightarrow> jval \<times> jval" where "nothing0 i = (JPrim ''null'', JPrim ''null'')"

definition no_measure :: processor_measurement where
  "no_measure = \<lparr>pm_rate = 0, pm_first = 0, pm_total = 0, pm_tokens = 0, pm_rss = 0, pm_recorded = 0\<rparr>"

definition shown0 :: app_state where
  "shown0 = app0\<lparr>ap_message := ''Downloading'',
     ap_job := (ap_job app0)\<lparr>jb_model := Some model0, jb_running := True, jb_phase := ''download'', jb_received := 1048576\<rparr>,
     ap_prefs := (ap_prefs app0)\<lparr>pr_history := [(no_measure, no_measure)], pr_speed := [(no_measure, no_measure)]\<rparr>\<rparr>"


lemma literals0: "prim_ok ''0''" "prim_ok ''10''" "prim_ok ''60''" "prim_ok ''0.9''" "prim_ok ''2000''"
  by (simp_all add: prim_ok_def prim_start_def prim_end_def)

lemmas help_def = help0_def world0_def no_ranker_def device0_def

lemma shown0_parts:
  "ap_models shown0 = [model0]" "ap_child shown0 = ap_child app0" "ap_load shown0 = no_activity" "ap_request shown0 = no_activity"
  "ap_download shown0 = no_activity" "ap_history shown0 = history0" "ap_backend shown0 = ap_backend app0" "ap_compare shown0 = ap_compare app0"
  "ap_observe shown0 = ap_observe app0" "ap_message shown0 = ''Downloading''" "ap_instance shown0 = ''i''" "ap_api_socket shown0 = []"
  "ap_revision shown0 = 1" "ap_generation shown0 = 0" "ap_stopping shown0 = False" "ap_models_dir shown0 = ''/m''"
  "pr_history (ap_prefs shown0) = [(no_measure, no_measure)]" "pr_speed (ap_prefs shown0) = [(no_measure, no_measure)]"
  "pr_preview (ap_prefs shown0) = [False]" "pr_series (ap_prefs shown0) = []" "pr_selected (ap_prefs shown0) = []"
  "pr_answer_language (ap_prefs shown0) = ''en''" "ap_catalog shown0 = []"
  "jb_model (ap_job shown0) = Some model0" "jb_running (ap_job shown0)" "jb_phase (ap_job shown0) = ''download''"
  "jb_received (ap_job shown0) = 1048576" "jb_verified_bytes (ap_job shown0) = 0" "\<not> jb_receipt_checked (ap_job shown0)"
  "\<not> jb_activate (ap_job shown0)"
  by (simp_all add: shown0_def app0_def)

lemma child0:
  "pid app0 = 0" "ch_engine (ap_child app0) = no_engine" "\<not> ready app0" "\<not> generating app0" "active_id app0 = []" "ch_active (ap_child app0) = []"
  "ch_snapshot (ap_child app0) = None" "ch_previous_pid (ap_child app0) = 0" "ch_spawned_ms (ap_child app0) = 0" "ch_reaped_ms (ap_child app0) = 0"
  "bk_mode (ap_backend app0) = []" "bk_active (ap_backend app0) = []" "bk_cpu (ap_backend app0) = ''cpu''" "bk_gpu (ap_backend app0) = ''vulkan''"
  "bk_notice (ap_backend app0) = []" "\<not> bk_gpu_available (ap_backend app0)" "\<not> bk_verified (ap_backend app0)"
  "\<not> cm_running (ap_compare app0)" "cm_phase (ap_compare app0) = []" "cm_result (ap_compare app0) = []" "cm_user_mode (ap_compare app0) = []"
  "cm_step (ap_compare app0) = 0" "ob_generation (ap_observe app0) = 0" "ch_lifecycle (ap_child app0) = False"
  by (simp_all add: app0_def)

lemma measure0: "pm_rate no_measure = 0" "pm_first no_measure = 0" "pm_recorded no_measure = 0"
  by (simp_all add: no_measure_def)

lemmas scene = shown0_parts child0 measure0

lemma zeros: "printf_f 3 (Fin 0) = ''0.000''" "printf_f 0 (Fin 0) = ''0''" "printf_f 1 (Fin 8) = ''8.0''" "printf_f 6 (Fin 0) = ''0.000000''"
proof -
  have r: "round_even 0 = 0" "round_even 80 = 80" using round_even_int [of 0] round_even_int [of 80] by simp_all
  have d: "dec 0 = ''0''" "dec 8 = ''8''" "pad0 3 ''0'' = ''000''" "pad0 1 ''0'' = ''0''" "pad0 6 ''0'' = ''000000''" by code_simp+
  show "printf_f 3 (Fin 0) = ''0.000''" "printf_f 0 (Fin 0) = ''0''" "printf_f 1 (Fin 8) = ''8.0''" "printf_f 6 (Fin 0) = ''0.000000''"
    using d by (simp_all add: printf_f_def fixed_point_def r)
qed

lemma shown_inventory: "model_inventory (sh_sizes help0) shown0 = [inventory0]"
  by (simp add: model_inventory_def inventory0_def scene path_join_def APP_PATH_CAP_def model0_def help_def app_device_rate_def gpu_supported_def)

lemma not_found0: "app_model_find [model0] (Some []) = None" "app_model_find [model0] (Some ''smollm2-360m'') = Some 0"
  by (simp_all add: app_model_find_def model0_def)

lemma fits0: "setup_limit device0 model0 inventory0 False = None"
  by (simp add: setup_limit_def model0_def device0_def inventory0_def APP_GIB_def MIB_def ram_needed_def working_bytes_def)

lemma unlimited0: "slow_limit device0 [model0] [inventory0] 0 0 = None"
  by (simp add: slow_limit_def fits0) (simp add: inventory0_def app_rate_below_target_def known_rate_def)

lemma rec0: "recommendation_of help0 shown0 = \<lparr>chosen = Some 0, preferred = 0, source_of = ''default'',
                         why = Some ''Platform default. Memory is estimated; answer quality is still unverified.'',
                         is_eligible = True\<rparr>"
proof -
  have "sh_hardware help0 = device0" "h_device device0 = APP_UNKNOWN" by (simp_all add: help0_def device0_def)
  then show ?thesis by (simp add: recommendation_of_def scene shown_inventory app_recommend_def not_found0 unlimited0)
qed

lemma current0: "current_model shown0 = None"
  by (simp add: current_model_def scene app_model_find_def model0_def)

lemma bound_head: "fields_bound (head_fields help0 shown0) \<le> 3000"
  by (simp add: head_fields_def Let_def rec0 scene) (simp add: help_def model0_def cstr_chars APP_VERSION_def dec.simps engine_tree_def engine_lib_def no_engine_def or_null_def yes_no_def)
lemma bound_activity: "fields_bound (activity_fields help0 shown0) \<le> 3000"
  by (simp add: activity_fields_def Let_def scene activity_tree_def) (simp add: no_activity_def cstr_chars dec.simps)
lemma bound_lifecycle: "fields_bound (lifecycle_fields help0 shown0) \<le> 3000"
  by (simp add: lifecycle_fields_def Let_def scene ms_text_def snapshot_phases_def zeros) (simp add: help_def deci_def cstr_chars dec.simps)
lemma bound_execution: "fields_bound (execution_fields shown0) \<le> 4000"
  by (simp add: execution_fields_def Let_def scene execution_rate_def current0 find_model_def gpu_supported_def
     recommend_gpu_def zeros zeros(3) [simplified] known_rate_def app_rate_below_target_def app_model_find_def cstr_chars yes_no_def) 
lemma bound_comparison: "fields_bound (comparison_fields shown0) \<le> 4000"
  by (simp add: comparison_fields_def Let_def scene dec.simps measurements_of_def current0 cstr_chars yes_no_def)
lemma bound_hardware: "text_bound (hardware_tree help0) \<le> 4000"
  by (simp add: hardware_tree_def Let_def help_def dec.simps APP_GIB_def cstr_chars yes_no_def device_name_def)
lemma bound_resource: "text_bound (resource_tree help0 no_window shown0) \<le> 4000"
  by (simp add: resource_tree_def Let_def process_now_def scene no_window_def zeros)
lemma bound_process: "fields_bound (process_fields help0 shown0) \<le> 4000"
  by (simp add: process_fields_def Let_def scene) (simp add: dec.simps cstr_chars yes_no_def model0_def)
lemma bound_choice: "fields_bound (choice_fields help0 shown0) \<le> 4000"
  by (simp add: choice_fields_def scene ranking_of_def) (simp add: help_def best_value_def)

lemma memory0: "live_memory help0 shown0 = app_memory_reset\<lparr>m_rss_source := 2\<rparr>"
  by (simp add: live_memory_def memory_observe_def scene help_def) (simp add: app_memory_observe_def app_memory_reset_def)

lemma memory_tree0: "memory_value help0 shown0 = JObj (memory_tree (app_memory_reset\<lparr>m_rss_source := 2\<rparr>) (Fin (-1)) (Fin (-1)) 0)"
  by (simp add: memory_value_def memory0 live_rss_def scene)

lemma bound_memory: "text_bound (memory_value help0 shown0) \<le> 9000"
  by (simp add: memory_tree0 memory_tree_def app_memory_reset_def or_null_def num_text_def rss_reason_def rss_text_def gpu_reason_def dec.simps)

lemma ok_memory: "jval_ok (memory_value help0 shown0)"
  by (simp add: memory_tree0 memory_tree_def app_memory_reset_def or_null_def num_text_def rss_reason_def rss_text_def gpu_reason_def
      prim_ok_dec literals0)

lemma earlier0: "earlier_of shown0 0 = (False, 0, 0, [])"
  by (simp add: earlier_of_def scene perf_earlier_def history0_def)

lemma adjusted_device: "h_device (adjusted_hardware x m part) = h_device x"
  by (simp add: adjusted_hardware_def)

lemma assessed0: "assessment_of help0 shown0 0 = \<lparr>as_fit = APP_CONDITIONAL,
    as_reason = ''RAM is smaller than the model file, before context and OS memory.'',
    as_performance = ''Unknown on this device; measure after download.''\<rparr>"
proof -
  have "app_assess (sh_assess help0) (adjusted_hardware (sh_hardware help0) m part) m inst = \<lparr>as_fit = APP_CONDITIONAL,
      as_reason = ''RAM is smaller than the model file, before context and OS memory.'',
      as_performance = ''Unknown on this device; measure after download.''\<rparr>" for m part inst
    unfolding app_assess_def adjusted_device by (simp add: help_def app_resource_text_def resource_texts_def)
  moreover have "\<not> known_rate (Fin 0)" by (simp add: known_rate_def)
  ultimately show ?thesis
    by (simp add: assessment_of_def scene earlier0 app_assess_device_def)
qed

lemma fit_short: "length (dec (fit_number f)) = 1"
  by (cases f) (simp_all add: fit_number_def dec.simps)

lemma bound_identity: "fields_bound (identity_fields help0 shown0 (JPrim ''null'') (JPrim ''null'') 0) \<le> 9000"
  by (simp add: identity_fields_def Let_def scene shown_inventory assessed0 fit_short)
    (simp add: model0_def inventory0_def dec.simps cstr_chars yes_no_def)

lemma bound_speed: "fields_bound (speed_fields shown0 0) \<le> 1000"
  by (simp add: speed_fields_def scene earlier0 rate_value_def known_rate_def)

lemma unranked0: "ranking_of help0 shown0 = ([], None)"
  by (simp add: ranking_of_def help_def)

lemma bound_verdict: "fields_bound (verdict_fields help0 shown0 0) \<le> 3000"
  by (simp add: verdict_fields_def scene fit_of_def unranked0)
    (simp add: no_fit_def rate_value_def known_rate_def processor_value_def basis_value_def cstr_chars dec.simps)

lemma bound_settings: "fields_bound (settings_fields help0 shown0) \<le> 5000"
  by (simp add: settings_fields_def profile_tree_def current0 scene help_def)
    (simp add: view_tree_def profile_of_def no_profile_def history0_def group_tree_def no_id_def aggregate_tree_def Let_def cstr_chars yes_no_def
      dec.simps PERF_RECORDS_def)

lemma status_bound: "text_bound (JObj (status_fields help0 no_window shown0 nothing0)) < STATUS_CAP"
  using bound_head bound_activity bound_lifecycle bound_execution bound_comparison bound_hardware bound_resource bound_process bound_choice
    bound_memory bound_identity bound_speed bound_verdict bound_settings
  by (simp add: status_fields_def fields_bound_append model_tree_def nothing0_def scene(1) STATUS_CAP_def)

lemma status_ok0: "status_ok help0 shown0 nothing0"
  by (simp add: status_ok_def activity_strings_def evidence_of_def evidence_ok_def nothing0_def memory0 scene)
    (simp add: no_engine_def engine_strings_def no_activity_def app_memory_reset_def help0_def plain_def history0_def model0_def cstr_chars)

lemma status_prints0: "status_prints help0 shown0"
  by (simp add: status_prints_def ok_memory scene) (simp add: help0_def profile_of_def history0_def no_profile_def view_prints_def agg_prints_def
      agg_values_def percentile_def prints_negative literals0)

lemma nfields_append: "nfields (xs @ ys) = nfields xs + nfields ys"
  by (induction xs) auto

lemma tokens_of:
  "nfields (head_fields help0 shown0) \<le> 100" "nfields (activity_fields help0 shown0) \<le> 100" "nfields (lifecycle_fields help0 shown0) \<le> 100"
  "nfields (execution_fields shown0) \<le> 100" "nfields (comparison_fields shown0) \<le> 100" "ntoks (hardware_tree help0) \<le> 100"
  "ntoks (resource_tree help0 no_window shown0) \<le> 100" "ntoks (memory_value help0 shown0) \<le> 100" "nfields (process_fields help0 shown0) \<le> 100"
  "nfields (choice_fields help0 shown0) \<le> 100"
proof -
  show "nfields (head_fields help0 shown0) \<le> 100" by (simp add: head_fields_def Let_def engine_tree_size scene)
  show "nfields (activity_fields help0 shown0) \<le> 100"
    by (simp add: activity_fields_def Let_def scene activity_tree_def) (simp add: no_activity_def)
  show "nfields (lifecycle_fields help0 shown0) \<le> 100" by (simp add: lifecycle_fields_def scene ms_text_def snapshot_phases_def)
  show "nfields (execution_fields shown0) \<le> 100" by (simp add: execution_fields_def Let_def)
  show "nfields (comparison_fields shown0) \<le> 100" by (simp add: comparison_fields_def measurements_of_def current0)
  show "ntoks (hardware_tree help0) \<le> 100" by (simp add: hardware_tree_def Let_def)
  show "ntoks (resource_tree help0 no_window shown0) \<le> 100" by (simp add: resource_tree_def)
  show "ntoks (memory_value help0 shown0) \<le> 100" by (simp add: memory_tree0 memory_tree_def or_null_def)
  show "nfields (process_fields help0 shown0) \<le> 100" by (simp add: process_fields_def Let_def)
  show "nfields (choice_fields help0 shown0) \<le> 100" by (simp add: choice_fields_def unranked0 best_value_def)
qed

lemma tokens_model:
  "nfields (identity_fields help0 shown0 (JPrim ''null'') (JPrim ''null'') 0) \<le> 100" "nfields (speed_fields shown0 0) \<le> 100"
  "nfields (verdict_fields help0 shown0 0) \<le> 100" "nfields (settings_fields help0 shown0) \<le> 200"
proof -
  show "nfields (identity_fields help0 shown0 (JPrim ''null'') (JPrim ''null'') 0) \<le> 100" by (simp add: identity_fields_def Let_def)
  show "nfields (speed_fields shown0 0) \<le> 100" by (simp add: speed_fields_def scene earlier0 rate_value_def)
  show "nfields (verdict_fields help0 shown0 0) \<le> 100"
    by (simp add: verdict_fields_def scene fit_of_def unranked0 no_fit_def rate_value_def processor_value_def basis_value_def)
  show "nfields (settings_fields help0 shown0) \<le> 200"
    by (simp add: settings_fields_def profile_tree_def current0 scene)
      (simp add: view_tree_def profile_of_def no_profile_def history0_def group_tree_def no_id_def aggregate_tree_def Let_def)
qed

lemma tokens0: "STATUS_TOKENS help0 no_window shown0 nothing0 \<le> JSON_TOK_CAP"
  using tokens_of tokens_model
  by (simp add: STATUS_TOKENS_def status_fields_def nfields_append model_tree_def nothing0_def scene(1) JSON_TOK_CAP_def)

subsection \<open>The command line that reads it\<close>

lemma status_built:
  obtains body where "status_response help0 True no_window shown0 = (Inr body, no_window)"
proof -
  have w: "app_resource_update (process_now help0 shown0) n no_window = no_window" for n
    by (simp add: process_now_def scene app_resource_update_def)
  have "length (render app_esc (JObj (status_fields help0 no_window shown0 nothing0))) < STATUS_CAP"
    using render_length(1) [of "JObj (status_fields help0 no_window shown0 nothing0)"] status_bound by simp
  from built_writes [OF writes_status [OF status_ok0] this] obtain body where
    "built STATUS_CAP (map perform (status_parts help0 no_window shown0)) = Some body"
    by (auto simp: STATUS_CAP_def)
  then show thesis by (intro that) (simp add: status_response_def w Let_def)
qed

definition outside0 :: "string \<Rightarrow> nat outside" where
  "outside0 text =
     \<lparr>ou_home = ''/h'', ou_directory = ''/usr/lib/geisten'', ou_getenv = (\<lambda>_. None), ou_unit = False, ou_desktop = False,
      ou_executable = (\<lambda>_. True), ou_files = (\<lambda>_. [''/h/connection.json'' \<mapsto> File (connection_text 80 (replicate 64 CHR ''a'') 7) own_file]),
      ou_owner = (\<lambda>_ _. OwnerFile False), ou_exchange = (\<lambda>url auth body timeout n. (\<lparr>ex_parts = [text], ex_whole = True, ex_status = 200\<rparr>, n + 1)),
      ou_pause = (\<lambda>n. n), ou_command = (\<lambda>_ n. (0, n)), ou_mkdir = (\<lambda>_ n. (True, n)), ou_fork = (\<lambda>_ n. (True, n)), ou_terminal = (\<lambda>_ n. (None, n))\<rparr>"

definition cli0 :: "nat cli" where
  "cli0 = \<lparr>ci_port = 0, ci_token = [], ci_reply = [], ci_start_error = 1, ci_out = [], ci_err = [], ci_world = 0\<rparr>"

lemma connection0: "app_connection_read (ou_home (outside0 text)) (ou_files (outside0 text) n) = Some (80, replicate 64 CHR ''a'')"
proof -
  let ?k = "replicate 64 CHR ''a''"
  have k: "key_valid ?k" by (simp add: key_valid_def HEX_def)
  have "length (connection_text 80 ?k (int 7)) < 511" by (simp add: connection_text_def deci_def dec.simps)
  then have "app_connection_read ''/h'' [''/h/connection.json'' \<mapsto> File (connection_text 80 ?k (int 7)) own_file] = Some (80, ?k)"
    by (intro connection_read_back [OF k, where name = "''/h/connection.json''" and pid = 7]) (simp_all add: path_join_def APP_PATH_CAP_def)
  then show ?thesis by (simp add: outside0_def)
qed

lemma answers0: "answers (outside0 text) path body timeout c 200 text"
  unfolding answers_def connection0 by (simp add: outside0_def)

lemma world_after0: "ci_world (snd (cli_request (outside0 text) path body timeout cli0)) = 1"
  unfolding cli_request_def connection0 option.case prod.case by (simp add: outside0_def cli0_def split_def)

lemma version_read:
  obtains j where \<open>json_parse ''{"version":"0.6.0"}'' = Some j\<close> and "json_strdup j (json_get j 0 ''version'') = Some (dotted 0 6 0)"
proof -
  let ?fs = "[(''version'', JStr (cstr ''0.6.0''))]"
  have t: "dotted 0 6 0 = ''0.6.0''" by code_simp
  have ok: "jfields_ok ?fs" "ntoks (JObj ?fs) \<le> JSON_TOK_CAP" "\<forall>k \<in> fst ` set ?fs. plain k"
    by (simp_all add: JSON_TOK_CAP_def plain_def)
  obtain j where j: "json_parse (render app_esc (JObj ?fs)) = Some j" "is_at app_esc j 0 (JObj ?fs)"
    using app_quoting.root_render [OF ok(1,2)] .
  have "json_strdup j (json_get j (int 0) ''version'') = Some (cstr ''0.6.0'')" by (rule string_at [OF j(2) ok(3)]) simp
  moreover have \<open>render app_esc (JObj ?fs) = ''{"version":"0.6.0"}''\<close> by (simp add: quoted_def app_esc_def cstr_chars)
  ultimately show thesis using that j(1) by (simp add: t cstr_chars)
qed

lemma view0:
  "setup_view help0 shown0 None = \<lparr>su_id = Some ''smollm2-360m'',
     su_reason = Some ''Platform default. Memory is estimated; answer quality is still unverified.'', su_active = Some [],
     su_job = Some ''smollm2-360m'', su_phase = Some ''download'', su_message = Some ''Downloading'', su_name = Some ''SmolLM2'',
     su_eligible = True, su_ready = False, su_loading = False, su_installed = False, su_received = Fin 1048576, su_bytes = Fin 419430400\<rparr>"
  by (simp add: setup_view_def setup_plain_def Let_def rec0 scene with_model_def shown_inventory)
    (simp add: model0_def inventory0_def cstr_chars)

lemma idle0: "status_response help0 True no_window shown0 = (Inr body, no_window) \<Longrightarrow> no_work (outside0 body) ''other''"
proof -
  assume "status_response help0 True no_window shown0 = (Inr body, no_window)"
  from setup_reads [OF this status_ok0 status_prints0 tokens0 answers0]
  have "fst (setup_state_read (outside0 body) (Some ''other'') c) = Some (setup_view help0 shown0 (Some ''other''))" for c .
  moreover have "su_loading (setup_view help0 shown0 (Some ''other'')) = False"
    "su_job (setup_view help0 shown0 (Some ''other'')) = Some ''smollm2-360m''"
    by (simp_all add: setup_view_def setup_plain_def Let_def scene) (simp_all add: model0_def cstr_chars)
  ultimately show ?thesis by (simp add: no_work_def working_def)
qed

end
