(* ===== verification/Spec2Isabelle.thy ===== *)
theory Spec2Isabelle
  imports Prelude Jsmn JsonText Cnum Json JsonTree Framing Slots Logits Sessions SessionInv Chats Daemon DaemonInv Watched
    Client Wire Samples Lifecycle Gguf Buffers Printf Engine Memory Perf Ring History AppSamples Policy Activity Resources
    Request Connection Compat App Child Observe Jobs Compare Routes Actions Generate AppFrames AppSteps AppFacts AppScenes
    HeldChat HeldMirror Proxy Completion PageStream Profile ProfileFacts JournalDisk StreamSamples
    StatusDoc JsonShape StatusTree Cli StatusRead CliFacts StatusScene
begin

text \<open>
  The repository is a local inference service in C. \<open>geistd\<close> (src/src/geistd.c) holds one model and up to a
  few sessions and chats, and answers framed requests on a Unix socket; programs reach it through the
  single-header client (src/clients/geistd_client.h). The application (src/src/app) starts \<open>geistd\<close> as its
  child, downloads and verifies models, measures and compares the processors, keeps a journal of what it
  measured, and serves a local HTTP interface to its own page and to other programs. The engine (geistlib) and
  geist-runtime are outside the repository: what the code calls of them is a parameter here.

  Parts of the daemon, and where they are.
  \<^item> \<open>Jsmn\<close>, \<open>JsonText\<close>, \<open>Json\<close>, \<open>Cnum\<close>, \<open>JsonTree\<close>: the tokenizer src/src/jsmn.h, the four writers of string
    literals, the reader src/src/json.c, the doubles it returns, and the tokens of the text of a JSON tree.
  \<^item> \<open>Framing\<close>, \<open>Slots\<close>, \<open>Logits\<close>, \<open>Sessions\<close>, \<open>Chats\<close>, \<open>Daemon\<close>: src/src/geistd.c from the frames to \<open>serve_conn\<close>,
    one function per \<open>op_*\<close>; \<open>SessionInv\<close> and \<open>DaemonInv\<close> lift an invariant of one session to the daemon.
    The record \<open>engine\<close> holds the engine's functions, \<open>engine_keeps\<close> what they promise of the KV cache.
  \<^item> \<open>Client\<close>, \<open>Wire\<close>, \<open>Streams\<close>: the calls of the client, and both sides joined over the bytes between them.
  \<^item> \<open>Lifecycle\<close>: the shared-memory channel of src/src/lifecycle.c, a sequence lock with its reader and writer
    interleaved instruction by instruction. \<open>Gguf\<close>: src/src/gguf.c over the bytes of a file.
  \<^item> \<open>Samples\<close>: an engine that keeps the contract, a runtime, and a daemon over both.

  Parts of the application.
  \<^item> \<open>Buffers\<close>, \<open>Printf\<close>, \<open>Policy\<close> (core.c), \<open>Engine\<close> (engine.c), \<open>Memory\<close> (memory.c), \<open>Activity\<close> (activity.c),
    \<open>Resources\<close> (resources.c): the arena and the text buffer, the number formats, the recommendation of a model,
    the records of an engine and its memory with their lines of JSON, traces, and \<open>/proc/<pid>/stat\<close>.
  \<^item> \<open>Perf\<close>, \<open>Ring\<close>, \<open>History\<close> (performance.c): a record and its line in the journal, the queue to the writer, and
    the history with its writer, retention, compaction, export and import. \<open>AppSamples\<close> has concrete inputs.
  \<^item> \<open>Request\<close> (request.c), \<open>Connection\<close> (connection.c), \<open>Compat\<close> (compat.c): the HTTP reader, the key and the file
    by which clients find the service, and the OpenAI chat request.
  \<^item> \<open>App\<close> (app.h, prefs.c): the record \<open>app_state\<close> guarded by the one mutex. \<open>Child\<close> (child.c), \<open>Observe\<close>
    (observe.c), \<open>Jobs\<close> (jobs.c), \<open>Compare\<close> (compare.c): what the threads do to it. \<open>Routes\<close>, \<open>Actions\<close>, \<open>Generate\<close>
    (routes.c, catalog.c, status.c, chat.c, tasks.c): what a request does to it.
  \<^item> \<open>HeldChat\<close> (daemon.c): the one conversation the application keeps with \<open>geistd\<close>, over a record \<open>chat_service\<close> of the
    client's functions; \<open>HeldMirror\<close> compares it with a book of what each chat was given. \<open>Proxy\<close>, \<open>Completion\<close> (chat.c):
    the callbacks while the model answers, the stream of the page, the answer of other programs, and how both
    end; \<open>PageStream\<close> reads the stream back. \<open>Profile\<close>, \<open>ProfileFacts\<close> (performance.c): the percentiles and the profile of
    a model, the two segments of the journal, the settings and the start. \<open>StreamSamples\<close> has concrete inputs.
  \<^item> \<open>StatusDoc\<close> (status.c): the document of \<open>/app/status\<close>, a list of statements; \<open>JsonShape\<close>, \<open>StatusTree\<close>: the JSON
    value these write. \<open>Cli\<close> (cli.c): the commands of \<open>geisten\<close>, over a record \<open>outside\<close> of what it calls. \<open>StatusRead\<close>: the
    document read back by the command line; \<open>CliFacts\<close>: versions and the polling of setup; \<open>StatusScene\<close>: a concrete one.
  \<^item> \<open>AppFrames\<close>: which fields a function leaves alone. \<open>AppSteps\<close>: the threads (the monitor, at most eight
    requests, the model job, the comparison) as one step relation \<open>step\<close> on \<open>sys\<close>, where a step is a section
    under the mutex; \<open>reachable\<close> and its invariant. \<open>AppFacts\<close>, \<open>AppScenes\<close>: the facts the properties rest on,
    and the concrete runs.

  What the lemmas show. Of the daemon: its sessions mirror the KV cache of the engine whatever is requested and
  however connections break; a peer without the token changes nothing; requests and answers of the client
  survive the wire, errors included; the JSON reader is total, its tokens are closed, and what a writer wrote
  is read back; the loops on the vocabulary agree with a selection of the best. Of the application: one user of
  the model at a time; a model is started by the job only after it was verified, and a removed file
  is one nothing runs; no key, no effect; the journal loses nothing it accepted and does not bring back
  what was deleted; a record, a request, a connection file is read back as written; the conversation the
  application believes the daemon to hold is the one it holds; the page can put the answer together from its
  stream; an observation that was appended is known at the next start; the medians are of one engine and workload;
  what setup reads of the status document is what the state says, and an older command line leaves a newer service alone.

  Interfaces are locales interpreted on the code's own definitions: the escape writers with their reader, the
  two slot tables, the bounded queue.

  Bounds and fuel. Loops are structural or have a measure. The reader of GGUF files recurses over nested arrays
  without a bound in the code: it takes fuel \<open>k\<close> and answers \<open>Deep\<close> when that is used up; \<open>gguf_roundtrip\<close> shows that the
  nesting depth is enough fuel, \<open>gguf_never_ends\<close> a file for which none is. \<open>follow_setup\<close> polls as long as the service works;
  151 readings are enough fuel while no work is seen (\<open>setup_ends\<close>). The tokens of \<open>json_parse\<close> are at most
  \<open>JSON_TOK_CAP\<close>, a header at most \<open>HEADER_CAP\<close>, a body at most \<open>REQUEST_CAP\<close>, as in the code. Integers that can
  wrap are words of their C width; lengths of texts that the code bounds are naturals.

  Parameters. The engine, geist-runtime (\<open>geistr_assess\<close>, the catalog, chat templates), the time of day, the
  answers of files, processes and sockets, the rounding of a double to a float, the table of tasks, the thresholds
  of the device verdict, what libcurl brings to the command line. \<open>errno\<close> after a call of the client and the formats \<open>%g\<close> are arguments too. A
  function that runs under the mutex reads the clock once.

  Not exact. A double is an exact rational, an infinity or NaN: comparison, clamping and classification are those
  of C, rounding to 53 bits is not modelled. In the step relation the stop of the child is one step, while
  the code gives the mutex away between the two signals; \<open>start_during_stop_is_killed\<close> has the split version.

  Not modelled, and why.
  \<^item> Starting the processes: the options and accept loop of geistd.c's \<open>main\<close>, src/src/app/main.c, src/src/net.c; the
    threads and sockets around what is modelled. Their turns are the steps of \<open>AppSteps\<close>.
  \<^item> src/src/app/platform.c and the macOS branch of resources.c: calls of the operating system, whose answers are
    arguments (\<open>app_hardware\<close>, \<open>sample_help\<close>).
  \<^item> The macOS branch of src/src/app/cli.c and its \<open>main\<close>, which starts libcurl.
  \<^item> In prefs.c the one-time migration of older measurements and the
    thresholds; in jobs.c the download itself, which is libcurl's.
\<close>

section \<open>The daemon\<close>

text \<open>C3. After any number of connections, from the start of the daemon on, every live session's history is exactly
  what the engine's KV cache holds, unless a call of the engine failed on this session since it was opened, pinned or
  reset last; its pinned part is the engine's pin, whatever failed, an attempt to pin apart. The
  history stays below the context and the pin within the history. \<open>watched E\<close> is the engine with a note
  at each session whether a call failed; without the notes the daemon is the same.\<close>

theorem daemon_mirrors_engine:
  assumes "serve_conns E R b vs k d cs = Some e" and "engine_keeps E kv pn" and "no_sessions d"
    and "i < n_max e" and "live (sesss e ! i)"
  shows "\<exists>e' s w. serve_conns (watched E) R b vs k (noted d) cs = Some e' \<and> e = bare_daemon e'
           \<and> handle_of (sesss e' ! i) = Some (s, w) \<and> handle_of (sesss e ! i) = Some s
           \<and> (w = In_Step \<longrightarrow> kv s = hist (sesss e ! i))
           \<and> (w \<noteq> standing.Lost \<longrightarrow> pn s = take (pinned (sesss e ! i)) (hist (sesss e ! i)))
           \<and> length (hist (sesss e ! i)) < CTX_CAP \<and> pinned (sesss e ! i) \<le> length (hist (sesss e ! i))"
  using served_mirror [OF assms] .

theorem daemon_mirrors_engine_witness:
  "\<exists>e s. serve_conns list_engine hi_runtime build0 (\<lambda>k n. env0) 0 (daemon0 None False) [conn0 (frame_of gd_wr open_hdr [])] = Some e
     \<and> live (sesss e ! 0) \<and> handle_of (sesss e ! 0) = Some s \<and> fst s = hist (sesss e ! 0)"
proof -
  obtain d' c' where s: "serve_conn list_engine hi_runtime build0 (\<lambda>n. env0) 0 (daemon0 None False)
       (conn0 (frame_of gd_wr open_hdr [])) = Some (d', c')" "sesss d' ! 0 = sess0 [] 0" "n_max d' = 2"
    using serve_open by blast
  have c: "serve_conns list_engine hi_runtime build0 (\<lambda>k n. env0) 0 (daemon0 None False) [conn0 (frame_of gd_wr open_hdr [])] = Some d'"
    by (simp add: s(1))
  have n: "no_sessions (daemon0 None False)" by (simp add: no_sessions_def daemon0_def SESS_MAX_def)
  have l: "0 < n_max d'" "live (sesss d' ! 0)" using s by (simp_all add: sess0_def)
  obtain e' s1 w where e': "serve_conns (watched list_engine) hi_runtime build0 (\<lambda>k n. env0) 0 (noted (daemon0 None False))
      [conn0 (frame_of gd_wr open_hdr [])] = Some e'" "d' = bare_daemon e'" "handle_of (sesss e' ! 0) = Some (s1, w)"
      "handle_of (sesss d' ! 0) = Some s1" "w = In_Step \<longrightarrow> fst s1 = hist (sesss d' ! 0)"
    using daemon_mirrors_engine [OF c list_engine_keeps n l] by blast
  have "table_ok sess_ok e'"
    using table_ok_serves [OF e'(1) table_ok_none [OF noted_none [OF n], where P = sess_ok, OF sess_ok_none] kept_sess_ok] .
  then have "live (sesss e' ! 0)" "0 < n_max e'" using l by (simp_all add: e'(2) table_ok_def)
  then have "w = In_Step" using steady_in_step [OF e'(1) noted_none [OF n] list_engine_steady, of 0] e'(3) by auto
  with e' c l show ?thesis by blast
qed

text \<open>The reset of a session does not look at the engine's answer: when the engine's reset fails and leaves
  its cache, the client is told that the history was cut back to the pin, and it no longer is the cache.\<close>

theorem failed_reset_unnoticed:
  assumes "handle_of x = Some s" and "g_reset E s = (False, s)" and "kv s = hist x" and "pinned x < length (hist x)"
  shows "\<exists>h x'. op_reset E x = (Ok h [], x') \<and> handle_of x' = Some s \<and> hist x' \<noteq> kv s"
proof -
  have "take (pinned x) (hist x) \<noteq> hist x" using assms(4) by (metis length_take min.absorb4 nat_neq_iff)
  then show ?thesis using assms by (simp add: op_reset_def Let_def)
qed

theorem failed_reset_unnoticed_witness:
  "\<exists>h x'. op_reset (list_engine\<lparr>g_reset := \<lambda>s. (False, s)\<rparr>) (sess0 [7] 0) = (Ok h [], x') \<and> hist x' \<noteq> [7]"
  using failed_reset_unnoticed [of "sess0 [7] 0" "([7], 0)" "list_engine\<lparr>g_reset := \<lambda>s. (False, s)\<rparr>" fst] by (auto simp: sess0_def)

text \<open>C13. With a token required, a connection that never says hello with it changes nothing in the
  daemon, whatever it sends.\<close>

theorem strangers_change_nothing:
  assumes "serve_conn E R b vs n d c = Some (d', c')" and "need_hello d" and "\<not> authed c"
    and "\<forall>h \<in> set (headers c). \<not> says_hello (auth_token d) h"
  shows "d' = d"
  using serve_unknown_peer assms .

theorem strangers_change_nothing_witness:
  "\<exists>c'. serve_conn list_engine hi_runtime build0 (\<lambda>n. env0) 0 (daemon0 (Some ''t'') True)
       (conn0 (frame_of gd_wr open_hdr [])) = Some (daemon0 (Some ''t'') True, c')"
proof -
  let ?d = "daemon0 (Some ''t'') True" and ?c = "conn0 (frame_of gd_wr open_hdr [])"
  obtain d' c' where s: "serve_conn list_engine hi_runtime build0 (\<lambda>n. env0) 0 ?d ?c = Some (d', c')"
    using serve_stranger by blast
  have "headers ?c = [open_hdr]" by (rule headers_open)
  then have "d' = ?d"
    using strangers_change_nothing [OF s] open_parse open_fields
    by (simp add: conn0_def daemon0_def says_hello_def)
  with s show ?thesis by blast
qed

text \<open>The byte-wise comparison of \<open>hello\<close> accepts the daemon's token and no other string.\<close>

theorem hello_token_exact: "hello_good own tk \<longleftrightarrow> own = None \<or> tk = own"
  by (rule hello_good_iff)

text \<open>C5. A prefill from the client's call to the engine and back: the call returns the two counts of
  the daemon, and the session then holds exactly the tokens of the call, of which the reused ones were
  there before.\<close>

theorem prefill_end_to_end:
  assumes "op_prefill E voc (ids_body ids) x = (Ok h b, x')" and "sess_ok x" and "live x"
    and "\<forall>i \<in> set ids. int32 i"
    and "cl_net g = Some (reply_bytes h b @ rest, room) # net" and "cl_token g = []"
    and "fits (fmt 100 (sess_hdr ''prefill'' k)) (ids_body ids)"
    and "8 + length (fmt 100 (sess_hdr ''prefill'' k)) + length (ids_body ids) \<le> room"
  shows "hist x' = ids \<and> (\<exists>reused \<le> length ids. take reused ids = take reused (hist x)
           \<and> fst (geistd_prefill k ids g) = Some (length ids - reused, reused))"
  using prefill_wire assms .

theorem prefill_end_to_end_witness:
  "\<exists>reused \<le> 2. fst (geistd_prefill ''0'' [7, 8] (client0 (reply_bytes (prefilled_hdr 1 1 2) []))) = Some (2 - reused, reused)"
proof -
  let ?k = "''0''"
  have "\<forall>i \<in> set [7, 8]. int32 i" by (simp add: int32_def)
  moreover have "cl_net (client0 (reply_bytes (prefilled_hdr 1 1 2) [])) = Some (reply_bytes (prefilled_hdr 1 1 2) [] @ [], 100000) # []"
    "cl_token (client0 (reply_bytes (prefilled_hdr 1 1 2) [])) = []" by (simp_all add: client0_def)
  moreover have "fits (fmt 100 (sess_hdr ''prefill'' ?k)) (ids_body [7, 8])"
    "8 + length (fmt 100 (sess_hdr ''prefill'' ?k)) + length (ids_body [7, 8]) \<le> 100000"
    by (simp_all add: fits_def fmt_def sess_hdr_def ids_body_def HDR_CAP_def BODY_CAP_def)
  ultimately show ?thesis
    using prefill_end_to_end [OF prefill_0, of _ "[]" 100000 "[]" ?k] sess_ok_0 by (fastforce simp: sess0_def)
qed

text \<open>C17. A successful prefill leaves the session with the tokens of the body, all of them in the
  vocabulary; a refused or failed one keeps the pinned prefix.\<close>

theorem prefill_holds_request:
  assumes "op_prefill E voc body x = (r, x')" and "sess_ok x" and "live x"
  shows "case r of
      Ok h b \<Rightarrow> hist x' = ids_of body \<and> hist x' \<noteq> [] \<and> (\<forall>t \<in> set (hist x'). 0 \<le> t \<and> nat t < voc)
    | Err m \<Rightarrow> take (pinned x) (hist x') = take (pinned x) (hist x) \<and> pinned x' = pinned x
    | Undefined \<Rightarrow> False"
  using op_prefill_exact [of E voc body x _ _ x'] op_prefill_err [of E voc body x _ x'] op_prefill_defined [of E voc body x] assms
  by (auto split: outcome.split)

theorem prefill_holds_request_witness: "hist (sess0 [7, 8] 0) = ids_of (ids_body [7, 8])"
  using prefill_holds_request [OF prefill_0 sess_ok_0] by (simp add: sess0_def)

text \<open>C18. The messages a client sends in a chat are the messages the daemon hands to the runtime:
  every role and content, byte by byte, whatever they contain.\<close>

theorem chat_messages_roundtrip:
  assumes "ms \<noteq> []" and "3 + 5 * length ms \<le> JSON_TOK_CAP"
  shows "send_msgs (chat_body ms) = Some (map (\<lambda>m. (Some (cstr (fst m)), Some (cstr (snd m)))) ms)"
  using send_msgs_chat_body assms .

theorem chat_messages_roundtrip_witness:
  \<open>send_msgs (chat_body [(''user'', ''say "hi"'')]) = Some [(Some ''user'', Some ''say "hi"'')]\<close>
  using chat_messages_roundtrip [of \<open>[(''user'', ''say "hi"'')]\<close>] by (simp add: JSON_TOK_CAP_def cstr_def)

text \<open>C6. A chat answer from the runtime to the caller: from the chat \<open>c1\<close> that has taken the messages on, each piece the
  runtime gives until it ends arrives once, in order, with its kind and its text up to a NUL byte, after the empty
  piece that ends the input.\<close>

theorem chat_answer_end_to_end:
  assumes "op_chat_send R j body x k = Some (True, x', k')" and "send_msgs body = Some ms"
    and "json_get j 0 ''max'' = -1"
    and "send_to R 0 ms (the (chat_of x)) = (GEISTR_OK, c1)"
    and "c_out k = []" and "cl_in g = c_out k'" and "\<And>got th s. part got th s"
    and "stats_ok (r_stats R (the (chat_of x')))" and "length (stats_json R (the (chat_of x'))) < 511"
    and "\<And>c st p c'. r_next R c = ((st, p), c') \<Longrightarrow> st \<in> {GEISTR_OK, GEISTR_CANCELLED} \<and> length (piece_hdr p) \<le> HDR_CAP"
  shows "\<exists>ps st c2 cs g'. gives R c1 ps st c2 \<and> chat_of x' = Some c2
           \<and> chat_stream part [] g = (True, cs, (False, []) # seen ps, g')"
proof -
  have cl: "json_clamp j (json_get j 0 ''max'') (Fin 0) (Fin 0) (Fin (of_nat CTX_CAP)) = (Fin 0, False)"
    by (simp add: assms(3) json_clamp_def json_num_def CTX_CAP_def)
  have s: "send_to R (dnat (Fin 0)) ms (the (chat_of x)) = (GEISTR_OK, c1)" using assms(4) by (simp add: dnat_def)
  obtain ps st c2 where w: "gives R c1 ps st c2" "chat_of x' = Some c2"
    "c_out k' = c_out k @ reply_bytes processed_hdr [] @ frames ps @ reply_bytes (last_hdr R st c2) []"
    by (rule op_chat_send_writes [OF assms(1,2), unfolded cl fst_conv snd_conv, OF _ s]) simp
  moreover have "\<forall>p \<in> set ps. length (piece_hdr p) \<le> HDR_CAP" "st = GEISTR_OK \<or> st = GEISTR_CANCELLED"
    using gives_all [OF w(1)] assms(10) by blast+
  ultimately show ?thesis
    using chat_answer [of g ps R st c2 "[]" part] assms(5-9) w by auto
qed

theorem chat_answer_end_to_end_witness:
  "\<exists>(k' :: conn) cs g'. chat_stream (\<lambda>got th s. True) [] (client0 []\<lparr>cl_in := c_out k'\<rparr>) = (True, cs, [(False, []), (False, ''hi'')], g')"
proof -
  obtain x' k' n where s: "op_chat_send hi_runtime open_json (chat_body [(''user'', ''hi'')]) chat0 (conn0 []) = Some (True, x', k')"
    "chat_of x' = Some (n, 1)"
    using chat_send_0 by blast
  have "\<exists>ps st c2 cs g'. gives hi_runtime (1, 1) ps st c2 \<and> chat_of x' = Some c2
      \<and> chat_stream (\<lambda>got th s. True) [] (client0 []\<lparr>cl_in := c_out k'\<rparr>) = (True, cs, (False, []) # seen ps, g')"
    using hi_stats hi_stats_short s(2) hi_pieces
    by (intro chat_answer_end_to_end [OF s(1) send_msgs_0]) (auto simp: open_fields conn0_def send_to_0)
  then obtain ps st c2 cs g' where "gives hi_runtime (1, 1) ps st c2"
    "chat_stream (\<lambda>got th s. True) [] (client0 []\<lparr>cl_in := c_out k'\<rparr>) = (True, cs, (False, []) # seen ps, g')" by blast
  with hi_gives show ?thesis by (fastforce simp: seen_def cstr_def)
qed

text \<open>C19. The error text the daemon sends is the text the client reports, cut to its buffer.\<close>

theorem error_reaches_caller:
  assumes "cl_net g = Some (reply_bytes (error_hdr msg) [] @ rest, room) # net" and "cl_token g = []"
    and "fits hdr req" and "8 + length hdr + length req \<le> room" and "length (error_hdr msg) \<le> HDR_CAP"
  shows "fst (gd_call hdr req g) = False
       \<and> cl_err (snd (gd_call hdr req g)) = take 255 (concat (map sb_esc msg))"
  using error_call assms .

theorem error_reaches_caller_witness:
  "cl_err (snd (gd_call open_hdr [] (client0 (reply_bytes (error_hdr ''unknown op'') [])))) = ''unknown op''"
  using error_reaches_caller [of "client0 (reply_bytes (error_hdr ''unknown op'') [])" "''unknown op''" "[]" 100000 "[]" open_hdr "[]"]
    fits_open by (simp add: client0_def open_hdr_def HDR_CAP_def error_hdr_def sb_json_str_def sb_esc_def)

section \<open>JSON\<close>

text \<open>C21. The tokens of a parsed text are within the capacity, each closed within the text and
  linked to an earlier parent.\<close>

theorem jsmn_tokens_closed:
  assumes "jsmn_parse js num = Inr (n, ts)"
  shows "n = int (length ts) \<and> length ts \<le> num \<and> (\<forall>i < length ts.
           0 \<le> tok_start (ts ! i) \<and> tok_start (ts ! i) \<le> tok_end (ts ! i) \<and> tok_end (ts ! i) \<le> int (length js)
         \<and> -1 \<le> tok_parent (ts ! i) \<and> tok_parent (ts ! i) < int i)"
  using jsmn_parse_closed [OF assms] by (auto simp: tok_closed_def)

theorem jsmn_tokens_closed_witness: "length (tok open_json) \<le> JSON_TOK_CAP"
  using jsmn_tokens_closed [of open_hdr JSON_TOK_CAP 3 "tok open_json"] open_tokens by simp

text \<open>C22. The walk to the parent that closes a bracket ends for every text, valid or not.\<close>

theorem jsmn_never_hangs: "jsmn_parse js num \<noteq> Inl JSMN_HANG"
  by (rule jsmn_parse_no_hang)

text \<open>C23. A string member of any object the daemon writes is read back, whatever bytes it holds, up
  to a NUL byte; so is a number.\<close>

theorem written_member_read:
  assumes "jfields_ok fs" and "ntoks (JObj fs) \<le> JSON_TOK_CAP" and "map_of (raw_fields sb_esc fs) key = Some v"
  shows "\<exists>j. json_parse (render sb_esc (JObj fs)) = Some j
     \<and> (case v of JStr s \<Rightarrow> json_strdup j (json_get j 0 key) = Some (cstr s)
        | JPrim p \<Rightarrow> (\<forall>k. p = dec k \<longrightarrow> json_num j (json_get j 0 key) d = Fin (of_nat k))
        | _ \<Rightarrow> True)"
proof -
  obtain j where j: "json_parse (render sb_esc (JObj fs)) = Some j" "is_at sb_esc j 0 (JObj fs)"
    using sb.root_render assms(1,2) .
  obtain m where "json_get j 0 key = int m" "is_at sb_esc j m v"
    using sb.get_render [OF j(2) assms(3)] by auto
  with j(1) sb.strdup_render sb.num_render show ?thesis by (fastforce split: jval.split)
qed

theorem written_member_read_witness:
  \<open>\<exists>j. json_parse (render sb_esc (JObj [(''op'', JStr ''a"b'')])) = Some j
       \<and> json_strdup j (json_get j 0 ''op'') = Some ''a"b''\<close>
  using written_member_read [of \<open>[(''op'', JStr ''a"b'')]\<close> "''op''" \<open>JStr ''a"b''\<close>]
  by (simp add: JSON_TOK_CAP_def raw_fields_def sb_esc_def cstr_def del: render.simps)

text \<open>The four writers of JSON strings and the two readers agree on every text.\<close>

theorem literals_read_back:
  "json_unescape (concat (map sb_esc s)) = s \<and> gd_unescape (concat (map sb_esc s)) = Some s
   \<and> json_unescape (concat (map gd_esc s)) = s \<and> json_unescape (concat (map tok_esc s)) = s
   \<and> json_unescape (concat (map app_esc s)) = s"
  by (simp add: sb.escaped_no_quote_end sb.gd_escaped gd.escaped_no_quote_end gd_tokenize.escaped_no_quote_end
      app_quoting.escaped_no_quote_end)

section \<open>Frames\<close>

text \<open>C24. The daemon reads exactly the frame a client wrote, and the stream goes on behind it.\<close>

theorem request_framing:
  assumes "fits hdr body" and "c_in c = frame_of gd_wr hdr body @ rest"
  shows "read_frame c = (Frame hdr body, c\<lparr>c_in := rest\<rparr>)"
  using read_frame_request assms .

theorem request_framing_witness:
  "read_frame (conn0 (frame_of gd_wr open_hdr [] @ ''x'')) = (Frame open_hdr [], conn0 ''x'')"
  using request_framing [OF fits_open, of "conn0 (frame_of gd_wr open_hdr [] @ ''x'')" "''x''"] by (simp add: conn0_def)

section \<open>Sampling\<close>

text \<open>C25. \<open>topk\<close> returns the first \<open>k\<close> of all candidates in the order of their logits, the smaller
  id first among equals.\<close>

theorem topk_is_best:
  assumes "0 < k" and "NaN \<notin> set x"
  shows "\<exists>ps. topk x k = Some (take k ps) \<and> mset ps = mset (zip x [0..<length x]) \<and> sorted_wrt above ps"
proof -
  have "numeric (zip x [0..<length x])" using assms(2) by (auto simp: numeric_def dest: set_zip_leftD)
  from best_sorted [OF this zip_upt_ids] topk_best [OF assms] show ?thesis by blast
qed

theorem topk_is_best_witness: "\<exists>ps. topk [Fin 1, Fin 3, Fin 2] 2 = Some (take 2 ps) \<and> sorted_wrt above ps"
  using topk_is_best [of 2 "[Fin 1, Fin 3, Fin 2]"] by auto

text \<open>A \<open>topk\<close> between 0 and 1 makes \<open>peek\<close> and \<open>step\<close> read outside their arrays.\<close>

theorem topk_fraction_undefined:
  assumes "json_num j (json_get j 0 ''topk'') (Fin 0) = Fin q" and "0 < q" and "q < 1" and "lg \<noteq> []"
  shows "topk_field E j lg = None"
proof -
  have "to_unsigned 64 (Fin q) = Some 0" using assms(2,3) by (simp add: to_unsigned_def)
  then show ?thesis using assms by (simp add: topk_field_def Let_def sb_topk_def topk_0)
qed

theorem topk_fraction_undefined_witness: "topk_field list_engine half_json [Fin 1] = None"
  by (rule topk_fraction_undefined [OF half_topk]) simp_all

text \<open>C27. A generation adds at most \<open>max\<close> tokens, stays below the context, counts every token it
  added but the one the peer did not take, and names the reason.\<close>

theorem generate_counts:
  assumes "gen_loop E m g (g_max g) 0 x [] c = (reason, k, x', c')" and "length (hist x) < CTX_CAP"
  shows "\<exists>ts. hist x' = hist x @ ts \<and> length ts \<le> g_max g \<and> length (hist x') < CTX_CAP
     \<and> (if reason = ''client'' then length ts \<in> {k, k + 1} else length ts = k)"
  using gen_loop_len [OF assms(1)] gen_loop_hist [OF assms(1)] assms(2) by fastforce

theorem generate_counts_witness:
  "\<exists>reason k x' c'. gen_loop list_engine (mo (daemon0 None False)) \<lparr>g_max = 2, g_stop_ids = [], g_stops = []\<rparr> 2 0 (sess0 [7] 0) [] (conn0 []) = (reason, k, x', c')
     \<and> length (hist x') \<le> 3"
proof -
  let ?g = "\<lparr>g_max = 2, g_stop_ids = [], g_stops = []\<rparr>"
  obtain reason k x' c' where "gen_loop list_engine (mo (daemon0 None False)) ?g (g_max ?g) 0 (sess0 [7] 0) [] (conn0 []) = (reason, k, x', c')"
    by (metis surj_pair)
  from generate_counts [OF this] this show ?thesis by (auto simp: sess0_def CTX_CAP_def)
qed

text \<open>The window in which stop strings are looked for is the last 511 bytes of the decoded text.\<close>

theorem stop_window:
  assumes "length tail \<le> 511"
  shows "tail_push tail p = drop (length (tail @ p) - 511) (tail @ p)"
  using tail_push_suffix assms .

theorem stop_window_witness: "tail_push ''ab'' ''c'' = ''abc''"
  using stop_window [of "''ab''" "''c''"] by simp

section \<open>Tables\<close>

text \<open>C28. Opening a session takes no live session that is neither idle nor the oldest of a full table.\<close>

theorem open_keeps_sessions:
  assumes "i < n_max d" and "n_max d \<le> length (sesss d)" and "live (sesss d ! i)"
    and "now v - used (sesss d ! i) \<le> idle_s d"
    and "\<exists>k < n_max d. \<not> live (sesss d ! k) \<or> used (sesss d ! k) < used (sesss d ! i)"
  shows "sesss (snd (op_open E v j d)) ! i = sesss d ! i"
  using op_open_keeps assms .

theorem open_keeps_sessions_witness:
  "sesss (snd (op_open list_engine env0 open_json (set_sess 1 (sess0 [7] 0) (daemon0 None False)))) ! 1 = sess0 [7] 0"
  using open_keeps_sessions [of 1 "set_sess 1 (sess0 [7] 0) (daemon0 None False)" env0 list_engine open_json]
  by (simp add: set_sess_def daemon0_def SESS_MAX_def sess0_def env0_def no_sess_def exI [of _ 0])

text \<open>With no chat slots the daemon still opens a chat and answers its id, and no request can
  ever find it.\<close>

theorem chat_without_slots:
  assumes "n_chats d = 0" and "op_chat_open R v j d = (Ok h b, d')" and "chats d \<noteq> []"
  shows "chat_live (chats d' ! 0) \<and> (\<forall>t key. fst (chat_find t key d') = None)"
  using assms by (auto simp: op_chat_open_def chat_pick_def slot_index_none set_chat_def chat_find_def find_slot_def Let_def
      split: option.splits prod.splits if_splits)

theorem chat_without_slots_witness:
  "\<exists>d'. chat_live (chats d' ! 0) \<and> fst (chat_find 0 (Some []) d') = None
     \<and> snd (op_chat_open hi_runtime env0 open_json (daemon0 None False\<lparr>n_chats := 0\<rparr>)) = d'"
proof -
  let ?d = "daemon0 None False\<lparr>n_chats := 0\<rparr>"
  have "\<exists>h b d'. op_chat_open hi_runtime env0 open_json ?d = (Ok h b, d')"
    using chat_opts_open by (cases "chat_opts_of open_json") (simp add: op_chat_open_def Let_def hi_runtime_def daemon0_def)
  then obtain h b d' where o1: "op_chat_open hi_runtime env0 open_json ?d = (Ok h b, d')" by blast
  have "n_chats ?d = 0" "chats ?d \<noteq> []" by (simp_all add: daemon0_def CHAT_MAX_def)
  from chat_without_slots [OF this(1) o1 this(2)] o1 show ?thesis by simp
qed

text \<open>A rewind request without \<open>keep\<close> rewinds the whole chat.\<close>

theorem rewind_without_keep:
  assumes "json_get j 0 ''keep'' = -1" and "r_rewind R (the (chat_of x)) 0 = (GEISTR_OK, c)"
  shows "\<exists>h. op_chat_rewind R j x = (Ok h [], x\<lparr>chat_of := Some c\<rparr>)"
  using assms by (simp add: op_chat_rewind_def json_clamp_def json_num_def dnat_def)

theorem rewind_without_keep_witness:
  "\<exists>h. op_chat_rewind hi_runtime open_json chat0 = (Ok h [], chat0\<lparr>chat_of := Some (0, 0)\<rparr>)"
  by (rule rewind_without_keep) (simp_all add: open_get hi_runtime_def chat0_def)

section \<open>The channel of the daemon's parent\<close>

text \<open>C15. What a reader of the lifecycle memory accepts is a whole sample, one that the writer had
  finished, whatever the interleaving of their loads and stores.\<close>

theorem no_torn_sample:
  assumes "lock_reach cs x" and "reader_at x = Accepted vs" and "incs x < 2 ^ 64"
  shows "vs \<in> set (past x)"
  using lock_inv_reach [OF assms(1)] assms(2,3) by (simp add: lock_inv_def)

theorem no_torn_sample_witness:
  "\<exists>x. lock_reach [5] x \<and> reader_at x = Accepted [5] \<and> [5] \<in> set (past x)"
proof -
  let ?r = "\<lambda>r. \<lparr>seqn = 0, cells = [5], writing = False, todo = [], reader_at = r, tries = 0,
                  incs = 0, at_read = 0, past = [[5]]\<rparr>"
  note go = lock_reach.more and st = lock_step.intros
  have "lock_reach [5] (?r (Reading 0 []))"
    using go [OF lock_reach.start read_begin, of "[5]"] by simp
  from go [OF this read_cell [of _ 0 "[]"]] have "lock_reach [5] (?r (Reading 0 [5]))" by simp
  from go [OF this read_accept [of _ 0 "[5]"]] have a: "lock_reach [5] (?r (Accepted [5]))" by simp
  from no_torn_sample [OF this, of "[5]"] a show ?thesis by auto
qed

section \<open>Model files\<close>

text \<open>C29. Reading the header of a GGUF file gives the metadata that were written into it, for every
  list of keys and values of the format, nested arrays included, and whatever follows them.\<close>

theorem gguf_roundtrip:
  assumes "\<forall>kv \<in> set kvs. kv_ok kv \<and> depth (snd kv) \<le> k" and "length kvs < 65536" and "tensors < 2 ^ 64"
    and "length (enc_file tensors kvs rest) < 2 ^ 62"
  shows "gguf_read_meta k (Some (enc_file tensors kvs rest)) = Done (fold note_kv kvs no_meta)"
  using gguf_read_enc assms .

theorem gguf_roundtrip_witness:
  "gguf_read_meta 2 (Some (enc_file 7 [(''general.architecture'', GStr ''bitnet''), (''x'', GArr GG_STR [GStr ''a''])] ''tensors''))
     = Done (no_meta\<lparr>arch := Some ''bitnet''\<rparr>)"
  using gguf_roundtrip [of "[(''general.architecture'', GStr ''bitnet''), (''x'', GArr GG_STR [GStr ''a''])]" 2 7 "''tensors''"]
  by (simp add: kv_ok_def gg_defs note_kv_def str_key_def set_str_def cstr_def enc_file_def enc_kv_def)

text \<open>C30. There is a header of 61 bytes on which the reader's recursion never ends: its fuel runs out
  however much of it there is.\<close>

theorem gguf_never_ends: "length loop_file = 61 \<and> gguf_read_meta k (Some loop_file) = Deep"
  using read_loop by (simp add: loop_file_def)

section \<open>The journal of observations\<close>

text \<open>Two allocations from the arena are aligned, disjoint, in order, and inside it.\<close>

theorem arena_disjoint:
  assumes "app_alloc max_align n1 e1 al1 a = (Some s1, a1)" and "app_alloc max_align n2 e2 al2 a1 = (Some s2, a2)"
    and "max_align \<le> 16"
  shows "unat s1 mod unat al1 = 0 \<and> unat s2 mod unat al2 = 0 \<and> unat (a_used a) \<le> unat s1
     \<and> unat s1 + unat n1 * unat e1 \<le> unat s2 \<and> unat s2 + unat n2 * unat e2 \<le> unat (a_cap a)"
  using app_alloc_region [OF assms(1,3)] app_alloc_region [OF assms(2,3)] by (auto simp: word_le_nat_alt)

theorem arena_disjoint_witness:
  "fst (app_alloc 16 3 1 1 \<lparr>a_used = 0, a_cap = 64\<rparr>) = Some 0 \<and> fst (app_alloc 16 2 8 8 \<lparr>a_used = 3, a_cap = 64\<rparr>) = Some 8
     \<and> (0 + 3 * 1 :: nat) \<le> 8"
proof -
  have "app_alloc 16 3 1 1 \<lparr>a_used = 0, a_cap = 64\<rparr> = (Some 0, \<lparr>a_used = 3, a_cap = 64\<rparr>)"
    "app_alloc 16 2 8 8 \<lparr>a_used = 3, a_cap = 64\<rparr> = (Some 8, \<lparr>a_used = 24, a_cap = 64\<rparr>)"
    by (simp_all add: app_alloc_def ckd_mul_def ckd_add_def)
  with arena_disjoint [OF this] show ?thesis by simp
qed

text \<open>A line of the journal, written through the application's buffer and read by the loader, is
  the record that was observed, up to what the journal does not keep.\<close>

theorem journal_line_roundtrip:
  assumes "perf_valid tm r" and "record_strings r" and "record_survives r" and "e_source_state (r_engine r) \<noteq> []"
    and "r_schema r \<noteq> 1" and "buf_ok b" and "b_data b = []" and "\<not> b_failed (record_json r b)"
  shows "perf_parse tm (b_data (record_json r b)) = Some (journaled_record r)"
  using record_through_buffer assms .

theorem journal_line_roundtrip_witness:
  "perf_parse 1000 (b_data (record_json record0 (buffer0 4096))) = Some (journaled_record record0)"
  using journal_line_roundtrip [OF valid_record0 strings_record0 survives_record0 _ _ buffer_ok [of 4096] _ record0_fits]
  by (simp add: record0_def buffer0_def)

text \<open>C14. The two segments a compaction writes hold exactly the observations it kept: loading them gives
  those back, in their order.\<close>

theorem compact_then_load:
  assumes "compact_history tm wrote p = (Some (old, new), p')" and "history_ok p"
    and "\<forall>r \<in> set (p_records p). dle (cutoff tm (p_days p)) (r_timestamp r) \<longrightarrow> journal_ok tm (p_days p) r"
    and "\<forall>r \<in> set (p_records p). record_strings r \<and> r_schema r \<noteq> 1"
    and "p_records q = []" and "p_days q = p_days p"
  shows "p_records (load tm (Content new) (load tm (Content old) q)) = map journaled_record (p_records p')"
  using compact_reload assms .

theorem compact_then_load_witness:
  "\<exists>old new p'. compact_history 1000 True history1 = (Some (old, new), p')
     \<and> p_records (load 1000 (Content new) (load 1000 (Content old) history0)) = [journaled_record record0]"
proof -
  obtain old new p' where c: "compact_history 1000 True history1 = (Some (old, new), p')" "p_records p' = [record0]"
    using compact_history1 by blast
  have "p_days history1 = 90" "p_records history1 = [record0]" "p_records history0 = []" "p_days history0 = 90"
    "r_schema record0 \<noteq> 1"
    by (simp_all add: history1_def history0_def record0_def)
  with compact_then_load [OF c(1) history1_ok(2), of history0] journal_record0 strings_record0 c
  show ?thesis by auto
qed

text \<open>C32. From its start on, whatever the files that were loaded hold, and whatever is called on it in whatever
  order and with whatever answers of the disk, the history has records of different ids, at most 8192, and a queue that is
  a ring inside its array.\<close>

theorem history_invariant:
  assumes "history_run q"
  shows "distinct (map r_id (p_records q)) \<and> length (p_records q) \<le> PERF_RECORDS \<and> ring_ok (p_queue q)"
  using history_runs_ok [OF assms] by (simp add: history_ok_def)

theorem history_invariant_witness:
  "distinct (map r_id (p_records (perf_submit 1000 record0 (perf_init 1000 (init_help0 (Content (journal_line record0))) history_before))))"
  by (rule history_invariant [OF history_run.moved [OF history_run.started history_move.submitted], THEN conjunct1])

text \<open>C33. Every accepted observation is queued, persisted or counted as dropped: submitting adds one to
  the sum exactly if the observation is accepted, and the writer keeps the sum.\<close>

theorem observations_accounted:
  "accounted (perf_submit tm r p) = accounted p + of_bool (accepts tm r p) \<and> accounted (writer_rounds rs p) = accounted p"
  by (simp add: submit_accounted rounds_accounted)

text \<open>The writer comes to an end: after as many rounds as the queue has records it is empty, whatever
  the disk answers, so that a shutdown loses none of them.\<close>

theorem writer_drains:
  assumes "q_len (p_queue p) \<le> length rs"
  shows "q_len (p_queue (writer_rounds rs p)) = 0"
  using assms by (simp add: rounds_queue)

theorem writer_drains_witness: "q_len (p_queue (writer_rounds [(1000, True, True, True)] history0)) = 0"
  by (rule writer_drains) (simp add: history0_def)

text \<open>After the user deletes the history, no observation that was begun before enters it again.\<close>

theorem deleted_stays_deleted:
  assumes "r_epoch r = p_epoch p"
  shows "p_records (perf_submit tm r (snd (perf_clear ok p))) = [] \<and> q_len (p_queue (perf_submit tm r (snd (perf_clear ok p)))) = 0"
  using clear_stops_old [OF assms] by (simp add: perf_clear_def)

theorem deleted_stays_deleted_witness: "p_records (perf_submit 2000 record0 (snd (perf_clear True history1))) = []"
  using deleted_stays_deleted [of record0 history1] by (simp add: record0_def history1_def history0_def)

text \<open>C34. The queue between the observers and the writer is first in, first out, loses nothing it took,
  and never has more than its 64 slots, for every sequence of moves.\<close>

theorem queue_fifo:
  assumes "ring.moves ms (q, ring_items q, []) = (q', acc, out)" and "ring_ok q"
  shows "ring_ok q' \<and> acc = out @ ring_items q' \<and> length (ring_items q') \<le> PERF_QUEUE"
  using ring.moves_fifo [OF assms] by simp

theorem queue_fifo_witness:
  "\<exists>q'. ring.moves [Put ''a'', Put ''b'', Take] (\<lparr>q_slots = replicate 64 [], q_head = 63, q_len = 0\<rparr>, [], []) = (q', [''a'', ''b''], [''a''])
     \<and> ring_items q' = [''b'']"
proof -
  let ?q = "\<lparr>q_slots = replicate 64 [], q_head = 63, q_len = 0\<rparr>"
  have i: "ring_items ?q = []" by (simp add: ring_items_def)
  have pq: "0 < PERF_QUEUE" "Suc 0 < PERF_QUEUE" "63 mod PERF_QUEUE = 63" "64 mod PERF_QUEUE = 0"
    by (simp_all add: PERF_QUEUE_def)
  obtain q' where m: "ring.moves [Put ''a'', Put ''b'', Take] (?q, [], []) = (q', [''a'', ''b''], [''a''])"
    using pq by (simp add: ring_items_def ring_put_def ring_take_def upt_rec nth_list_update)
  from queue_fifo [of _ ?q, unfolded i, OF m] m show ?thesis by (simp add: ring_ok_def PERF_QUEUE_def)
qed



text \<open>A tail that ends in a zero byte is sealed as well, and then the next observation in the file is skipped.\<close>

theorem zero_byte_hides_next:
  assumes "journal_ok tm days r"
  shows "load_lines tm False ([NUL, CHR 0x0A] @ journal_line r) p = p\<lparr>p_invalid := p_invalid p + 1\<rparr>"
  by (rule zero_tail_loses_next [OF assms])

theorem zero_byte_hides_next_witness:
  "load_lines 1000 False ([NUL, CHR 0x0A] @ journal_line record0) history0 = history0\<lparr>p_invalid := 1\<rparr>"
  using zero_byte_hides_next [OF journal_record0, of history0] by (simp add: history0_def)

text \<open>C26. The profile, computed in one walk over the history, is the one of its specification: of the records of this
  model and series that count and have no contention, newest first, those of the engine of the newest one, and
  of its comparison if it is of one; for each processor the newest record and, of those of its workload, at
  most thirty; and the twelve newest of the model.\<close>

theorem profile_is_of_workload:
  assumes "\<forall>r \<in> set records. r_id r \<noteq> []"
  shows "profile_of artifact series cpu gpu records = profile_spec artifact series cpu gpu (rev records)"
  by (rule profile_of_spec [OF assms])

theorem profile_is_of_workload_witness:
  "profile_of (r_artifact record0) (r_series record0) (r_backend record0) ''none'' [record0] =
     profile_spec (r_artifact record0) (r_series record0) (r_backend record0) ''none'' (rev [record0])
   \<and> pf_cpu (profile_of (r_artifact record0) (r_series record0) (r_backend record0) ''none'' [record0]) = [record0]"
proof -
  have "profile_of (r_artifact record0) (r_series record0) (r_backend record0) ''none'' [record0] =
     profile_spec (r_artifact record0) (r_series record0) (r_backend record0) ''none'' (rev [record0])"
    by (rule profile_is_of_workload) (simp add: record0_def)
  then show ?thesis using spec_of_record0 by simp
qed

text \<open>Two observations have the same group number exactly if they agree in all six of its parts.\<close>

theorem group_number_injective:
  "perf_group r = perf_group s \<longleftrightarrow>
     input_class (r_input r) = input_class (r_input s) \<and> output_class (r_output r) = output_class (r_output s)
     \<and> (r_reused r > 0 \<longleftrightarrow> r_reused s > 0) \<and> r_cold r = r_cold s \<and> r_contention r = r_contention s
     \<and> (r_source r = ''controlled_test'' \<longleftrightarrow> r_source s = ''controlled_test'')"
  by (rule perf_group_eq)

section \<open>What the application says of this machine\<close>

text \<open>C35. A model is recommended for setup only if the machine can hold it: enough memory in all, enough
  of it free unless the model runs already, and room on the disk for what is still to be downloaded and
  256 MiB, computed without wrapping.\<close>

theorem recommended_fits:
  assumes "is_eligible (app_recommend models h iv selected running)"
  shows "\<exists>i. chosen (app_recommend models h iv selected running) = Some i
     \<and> h_supported h \<and> ram_needed (models ! i) \<le> h_ram h
     \<and> (working_bytes (models ! i) \<le> h_available h \<or> running = Some (am_id (models ! i)))
     \<and> (installed (iv ! i) \<or> unat (am_bytes (models ! i)) + 268435456 \<le> unat (h_disk h)
          + (if partial_bytes (iv ! i) \<le> am_bytes (models ! i) then unat (partial_bytes (iv ! i)) else 0))"
proof -
  obtain i where "chosen (app_recommend models h iv selected running) = Some i"
    "setup_limit h (models ! i) (iv ! i) (app_model_find models selected = Some i \<and> running = Some (am_id (models ! i))) = None"
    using recommend_eligible [OF assms] by blast
  with setup_limit_fits [OF this(2)] show ?thesis by auto
qed

theorem recommended_fits_witness:
  "chosen (app_recommend [model0] device0 [inventory0] None None) = Some 0 \<and> ram_needed model0 \<le> h_ram device0"
proof -
  have e: "is_eligible (app_recommend [model0] device0 [inventory0] None None)"
    "chosen (app_recommend [model0] device0 [inventory0] None None) = Some 0"
    by (simp_all add: recommend_model0)
  from recommended_fits [OF e(1)] e(2) show ?thesis by auto
qed

text \<open>The application calls a device slow only if it measured below 8 tokens a second on every
  processor it has, and never calls a measured model unmeasured in its device verdict.\<close>

theorem slow_only_if_measured:
  assumes "app_rate_below_target (app_device_rate cpu gpu_available gpu)"
  shows "known_rate cpu \<and> dlt cpu (Fin 8) \<and> (gpu_available \<longrightarrow> known_rate gpu \<and> dlt gpu (Fin 8))
     \<and> as_reason (app_assess_device assess h m inst cpu gpu_available gpu) \<notin> {unmeasured_mac, unmeasured_device}"
  using slow_verdict [OF assms] never_unmeasured by blast

theorem slow_only_if_measured_witness: "known_rate (Fin 5) \<and> dlt (Fin 5) (Fin 8)"
  using slow_only_if_measured [of "Fin 5" False "Fin 0"]
  by (simp add: app_device_rate_def app_rate_below_target_def known_rate_def dfinite_def)

text \<open>With a speed of this session below 8 tokens a second, a model that the runtime calls limited for
  want of a measurement keeps the sentence that its speed has not been measured.\<close>

theorem measured_called_unmeasured:
  assumes "assess m h inst = (RESOURCE_LIMITED, ''not_measured'')" and "dlt (Fin 0) rate" and "dlt rate (Fin 8)"
  shows "as_reason (app_assess_observed assess h m inst rate) = unmeasured_device"
  using observed_keeps_unmeasured assms .

theorem measured_called_unmeasured_witness:
  "as_reason (app_assess_observed (\<lambda>m h i. (RESOURCE_LIMITED, ''not_measured'')) device0 model0 True (Fin 5)) = unmeasured_device"
  by (rule measured_called_unmeasured) simp_all

text \<open>C36. The phases of every activity that can be reached follow each other without a gap from its start,
  are at most 16, and its outcome is final.\<close>

theorem activity_trace:
  assumes "act_reach a"
  shows "contiguous (ac_phase a) \<and> length (ac_phase a) \<le> ACTIVITY_PHASES
     \<and> ph_start (hd (ac_phase a)) = ac_started a \<and> ph_stage (last (ac_phase a)) = ac_stage a
     \<and> (ac_outcome a \<noteq> [] \<longrightarrow> (\<forall>b. act_move a b \<longrightarrow> b = a))"
  using act_reach_inv [OF assms] ended_final [of a] by (auto simp: act_inv_def)

theorem activity_trace_witness:
  "\<exists>a. act_reach a \<and> map ph_stage (ac_phase a) = [ACT_STARTING, ACT_LOADING] \<and> contiguous (ac_phase a)"
proof -
  let ?a = "snd (activity_step 1 1 ACT_LOADING 5 (activity_begin 1 1 ACT_STARTING 2))"
  have r: "act_reach ?a" by (rule act_reach.moved [OF act_reach.begun act_move.stepped]) simp
  have m: "map ph_stage (ac_phase ?a) = [ACT_STARTING, ACT_LOADING]"
    by (simp add: activity_step_def activity_begin_def no_activity_def ACTIVITY_PHASES_def close_phase_def)
  show ?thesis by (intro exI [of _ ?a] conjI r m conjunct1 [OF activity_trace [OF r]])
qed

text \<open>The processor time read from a line of \<open>/proc/<pid>/stat\<close>, whatever the name of the process, is
  the sum of the two tick counts in nanoseconds, rounded down once, and the memory the pages times their size.\<close>

theorem process_time_exact:
  assumes "length fs = 21" and "\<forall>f \<in> set (st # fs). stat_word f"
    and "fs ! 10 = dec (unat (user :: u64))" and "fs ! 11 = dec (unat (sys :: u64))" and "fs ! 18 = dec (unat (start :: u64))" and "fs ! 20 = dec (unat (pages :: u64))"
    and "NUL \<notin> set pre" and "tail = [] \<or> field_end (hd tail)" and "CHR '')'' \<notin> set tail" and "NUL \<notin> set tail"
    and "app_process_parse_linux (pre @ CHR '')'' # spaced (st # fs) @ tail) hz page = Some (s, rss, cpu)"
  shows "s = start \<and> unat rss = unat pages * unat page \<and> unat cpu = (unat user + unat sys) * 1000000000 div unat hz"
  using parse_printed [OF assms(1-10)] parsed_time [OF _ _ assms(11)] by blast

theorem process_time_exact_witness:
  "\<exists>s rss cpu. app_process_parse_linux stat0 100 4096 = Some (s, rss, cpu) \<and> unat cpu = 12 * 1000000000 div 100"
proof -
  obtain s rss cpu where p: "app_process_parse_linux stat0 100 4096 = Some (s, rss, cpu)" using parse_stat0 by blast
  from process_time_exact [OF stat0_words stat0_values _ _ _ _ p [unfolded stat0_def]] p show ?thesis by simp
qed

section \<open>The requests of the application\<close>

text \<open>C7. The request the interface writes is the request the application reads, in whatever pieces it
  arrives, as long as its arena has room for a header and a body.\<close>

theorem request_in_pieces:
  assumes "word_ok 7 meth" and "word_ok 255 path" and "word_ok 127 host" and "word_ok 120 key"
    and "u \<or> loopback_host host" and "NUL \<notin> set body" and "length body \<le> REQUEST_CAP"
    and "length (request_head meth path host key (length body)) + 2 \<le> HEADER_CAP"
    and "arrived as = request_bytes meth path host key body"
    and "app_alloc 16 (of_nat HEADER_CAP + 1) 1 1 arena = (Some h, a1)" and "app_alloc 16 (of_nat REQUEST_CAP + 1) 1 1 a1 = (Some b, a2)"
  shows "fst (read_request u arena as) = Inr (written meth path host key body)"
  using read_request_of [OF assms(10,11), of u as] written_read [OF assms(1-8)] by (simp add: assms(9))

theorem request_in_pieces_witness:
  "fst (read_request False \<lparr>a_used = 0, a_cap = 65536\<rparr>
     [Bytes (take 30 (request_bytes ''GET'' ''/'' ''localhost:80'' ''k'' ''x'')), Bytes [],
      Bytes (drop 30 (request_bytes ''GET'' ''/'' ''localhost:80'' ''k'' ''x''))])
   = Inr (written ''GET'' ''/'' ''localhost:80'' ''k'' ''x'')"
proof -
  have n: "length (request_head ''GET'' ''/'' ''localhost:80'' ''k'' (length ''x'')) + 2 \<le> HEADER_CAP"
    by (simp add: request_head_def crlf_def CRLF_def dec.simps HEADER_CAP_def)
  have a: "app_alloc 16 (of_nat HEADER_CAP + 1) 1 1 \<lparr>a_used = 0, a_cap = 65536\<rparr> = (Some 0, \<lparr>a_used = 8193, a_cap = 65536\<rparr>)"
    "app_alloc 16 (of_nat REQUEST_CAP + 1) 1 1 \<lparr>a_used = 8193, a_cap = 65536\<rparr> = (Some 8193, \<lparr>a_used = 40962, a_cap = 65536\<rparr>)"
    by (simp_all add: app_alloc_def ckd_mul_def ckd_add_def HEADER_CAP_def REQUEST_CAP_def)
  show ?thesis
    by (rule request_in_pieces [OF word_get word_root word_host word_key disjI2 [OF local_host] _ _ n _ a])
       (simp_all only: arrived.simps append_Nil append_Nil2 append_take_drop_id REQUEST_CAP_def list.size list.set empty_iff insert_iff,
        simp_all)
qed

text \<open>C4. A caller without the key changes nothing and removes nothing, whatever it asks, and what it is
  answered does not depend on the state: two applications that both refuse it give it the same answer.\<close>

theorem no_key_no_effect:
  assumes "\<not> authorized (ap_token a) r" and "\<not> authorized (ap_token a') r"
    and "app_handle gen status w f (Inr r) arena a = (reply, gone, b)"
  shows "b = a \<and> gone = [] \<and> reply \<noteq> Admitted \<and> fst (app_handle gen status w f (Inr r) arena a') = reply"
  using assms(3) unfolding no_key_answer [OF assms(1)] no_key_answer [OF assms(2)]
  by (auto simp: public_reply_def split: option.splits if_splits)

theorem no_key_no_effect_witness:
  "\<exists>reply. app_handle no_generate no_status world0 folder0 (Inr (remove_request ''x'')) arena0 app0 = (reply, [], app0)"
proof -
  obtain reply gone b where h: "app_handle no_generate no_status world0 folder0 (Inr (remove_request ''x'')) arena0 app0 = (reply, gone, b)"
    by (metis prod_cases3)
  from no_key_no_effect [OF key0(2) key0(2) h] h show ?thesis by simp
qed

text \<open>C8. A file of the models folder is removed only for a request with the key to \<open>/app/remove\<close>, while
  nothing else runs; it is the file of the model of the catalog that the request's JSON names, or its partial download, it is a
  regular file, and if the model was running, its process was stopped.\<close>

theorem removal_is_safe:
  assumes "app_handle gen status w f req arena a = (reply, gone, b)" and "gone \<noteq> []"
  shows "\<exists>r m. req = Inr r \<and> authorized (ap_token a) r \<and> rq_method r = ''POST'' \<and> rq_path r = ''/app/remove''
     \<and> (\<exists>j. json_parse (rq_body r) = Some j \<and> json_strdup j (json_get j 0 ''id'') = Some (am_id m))
     \<and> m \<in> set (ap_models a) \<and> set gone \<subseteq> {n. fo_look f n = Regular} \<inter> {am_file m, am_file m @ ''.part''}
     \<and> \<not> closing a \<and> \<not> comparing a \<and> \<not> generating a \<and> \<not> job_running a
     \<and> (pid b = 0 \<or> active_id a \<noteq> am_id m \<and> path_join (ap_models_dir a) (am_file m) \<noteq> Some (ch_chosen (ap_child a)))"
proof -
  obtain r where r: "req = Inr r" "authorized (ap_token a) r" "rq_method r = ''POST''" "rq_path r = ''/app/remove''" "frees f (rq_body r) a gone b"
    using request_frees [OF assms] by blast
  from r(5) assms(2) obtain m where m: "m \<in> set (ap_models a)"
    "\<exists>j. json_parse (rq_body r) = Some j \<and> json_strdup j (json_get j 0 ''id'') = Some (am_id m)"
    "\<forall>n \<in> set gone. n \<in> {am_file m, am_file m @ ''.part''} \<and> fo_look f n = Regular"
    "\<not> closing a \<and> \<not> comparing a \<and> \<not> generating a \<and> \<not> job_running a"
    "pid b = 0 \<or> (active_id a \<noteq> am_id m \<and> path_join (ap_models_dir a) (am_file m) \<noteq> Some (ch_chosen (ap_child a)))"
    unfolding frees_def by blast
  show ?thesis by (intro exI [of _ r] exI [of _ m]) (use r m in auto)
qed

theorem removal_is_safe_witness:
  "\<exists>b. app_handle no_generate no_status world0 folder0 (Inr (remove_request ''k'')) arena0 app0 = (done_reply 200, [''m.gguf'', ''m.gguf.part''], b)
     \<and> (\<exists>m \<in> set (ap_models app0). ''m.gguf'' \<in> {am_file m, am_file m @ ''.part''})"
proof -
  obtain b where b: "app_handle no_generate no_status world0 folder0 (Inr (remove_request ''k'')) arena0 app0 = (done_reply 200, [''m.gguf'', ''m.gguf.part''], b)"
    using remove_scene by blast
  from removal_is_safe [OF b] b show ?thesis by auto
qed

text \<open>C37. What is let through to the model from another program is well formed: at least one message and
  no more than there is room for, each with one of the three roles; a model; and every number in its range.\<close>

theorem chat_request_well_formed:
  assumes "fst (app_chat_parse to_float json_bytes body arena) = Inr c"
  shows "c_messages c \<noteq> [] \<and> length (c_messages c) \<le> APP_CHAT_MESSAGES
     \<and> (\<forall>m \<in> set (c_messages c). fst m \<in> {''user'', ''assistant'', ''system''})
     \<and> c_model c \<noteq> [] \<and> 1 \<le> c_max_tokens c \<and> c_max_tokens c \<le> 4095
     \<and> (\<exists>q. 0 \<le> q \<and> q \<le> 2 \<and> c_temperature c = to_float q)
     \<and> (c_top_p c = 1 \<or> (\<exists>q. 0 < q \<and> q \<le> 1 \<and> c_top_p c = to_float q))"
  using chat_parse_ok [OF assms] by (simp add: chat_ok_def)

theorem chat_request_well_formed_witness:
  "fst (app_chat_parse (\<lambda>q. q) 1000 ask_body arena0) = Inr parsed_chat \<and> c_max_tokens parsed_chat \<le> 4095"
  using chat_request_well_formed [OF chat_scene] chat_scene by blast

text \<open>The check of a JSON primitive accepts exactly the numbers of the grammar of JSON.\<close>

theorem json_numbers_exact: "json_number s \<longleftrightarrow> number_grammar s"
  by (rule json_number_grammar)

text \<open>C38. The key a launcher makes or finds is the key another program reads from the connection file, with
  the port.\<close>

theorem connection_tells_key:
  assumes "app_key home k fs = (Some key, fs1)" and "\<forall>bs. k_random k = Some bs \<longrightarrow> (\<forall>b \<in> set bs. b < 256)"
    and "app_connection_write home port key (int child) h fs1 = (True, fs2)"
    and "1 \<le> port" and "port \<le> 65535" and "child < 2 ^ 63"
  shows "app_connection_read home fs2 = Some (port, key)"
proof -
  have "key_valid key" using app_key_again [OF assms(1,2)] by blast
  from connection_found [OF assms(3) this assms(4-6)] show ?thesis .
qed

theorem connection_tells_key_witness:
  "\<exists>key fs1 fs2. app_key ''/h'' random0 (\<lambda>_. None) = (Some key, fs1)
     \<and> app_connection_write ''/h'' 80 key (int 7) store0 fs1 = (True, fs2) \<and> app_connection_read ''/h'' fs2 = Some (80, key)"
proof -
  obtain key fs1 fs2 where s: "app_key ''/h'' random0 (\<lambda>_. None) = (Some key, fs1)"
    "app_connection_write ''/h'' 80 key (int 7) store0 fs1 = (True, fs2)" using connection_scene by blast
  from connection_tells_key [OF s(1) _ s(2)] s show ?thesis by (auto simp: random0_def)
qed

section \<open>The answer of the model\<close>

text \<open>C9. The chat the application keeps with the daemon is the conversation the daemon has: after a call that did not
  break off, what the application believes the chat to hold is what its openings, rewinds and sends made
  of it; and after an answer that is the conversation of the caller, message by message, followed by this answer.\<close>

theorem held_conversation:
  assumes "app_daemon_chat (booked S) (Some (w, b)) path ms mx t p reasoning part fault first spent h
             = ((rc, msg), r, h1, Some (w1, b1))"
    and "held_true h b" and "refuses_first S"
  shows "(rc \<notin> {499, 502, 504} \<longrightarrow> held_true h1 b1)
     \<and> (rc = 0 \<longrightarrow> b1 (hd_id h1) = Some (hd_msgs h1) \<and> list_all2 alike (hd_msgs h1) (ms @ [(''assistant'', rn_answer r)]))"
  by (rule held_is_book [OF assms])

theorem held_conversation_witness:
  "case app_daemon_chat (booked chat_service0) (Some ((), Map.empty)) ''s'' [(''user'', ''hello'')] 0 0 1 None
          (\<lambda>ps th t. True) NoFault 5 9 held0 of
     ((rc, msg), r, h1, conn) \<Rightarrow>
       rc = 0 \<and> (\<exists>b1. conn = Some ((), b1) \<and> b1 (hd_id h1) = Some (hd_msgs h1))
       \<and> list_all2 alike (hd_msgs h1) [(''user'', ''hello''), (''assistant'', ''hi'')]"
proof -
  obtain r h1 b1 msg where run: "app_daemon_chat (booked chat_service0) (Some ((), Map.empty)) ''s'' [(''user'', ''hello'')] 0 0 1 None
      (\<lambda>ps th t. True) NoFault 5 9 held0 = ((0, msg), r, h1, Some ((), b1))" and a: "rn_answer r = ''hi''"
    using chat0_run by blast
  have "held_true held0 Map.empty" by (simp add: held_true_def held0_def)
  from held_conversation [OF run this refuses_first0] show ?thesis by (simp add: run a)
qed

text \<open>C10. The page can put the answer together from its lines: if a generation ends well, the \<open>response\<close> fields of the
  lines it was sent, one after the other, are the pieces of the answer the model gave, with nothing of its
  thinking, and the last line is the one with the numbers of the run.\<close>

theorem answer_reaches_page:
  assumes "page_run ms (new_proxy room True tm, a, l) = (True, p1, a1, l1)" and "generate_finish tm1 e st p1 = (0, p2)"
    and "\<forall>m \<in> set ms. counts_ok (callback_run m)"
  shows "page_text (px_out p2) = concat (map callback_text ms)
     \<and> last (page_lines (px_out p2)) @ [CHR 0x0A] = done_line st (px_first p2)"
  using stream_reaches_page [OF assms] by (simp only: NL_def)

theorem answer_reaches_page_witness:
  "\<exists>p1 a1 l1 p2. page_run callbacks0 (new_proxy 4096 True 1, app0, last0) = (True, p1, a1, l1)
     \<and> generate_finish 4 (0, []) run_stats0 p1 = (0, p2) \<and> page_text (px_out p2) = ''hi there''"
proof -
  have "\<not> closing app0" "\<not> fl_request_cancelled (ap_flags app0)" "ap_request app0 = no_activity" by (simp_all add: app0_def)
  from page0 [OF this] obtain p1 a1 l1 p2
    where run: "page_run callbacks0 (new_proxy 4096 True 1, app0, last0) = (True, p1, a1, l1)"
      and g: "generate_finish 4 (0, []) run_stats0 p1 = (0, p2)"
    by (metis prod.collapse)
  have "\<forall>m \<in> set callbacks0. counts_ok (callback_run m)"
    by (simp add: callbacks0_def callback_run_def counts_ok_def no_run_def)
  from answer_reaches_page [OF run g this] have "page_text (px_out p2) = ''hi there''"
    by (simp add: callbacks0_def callback_text_def cstr_def)
  with run g show ?thesis by blast
qed

section \<open>The application as a whole\<close>

text \<open>C1. In every state the threads of the application can reach, at most one of them uses the model: one
  request of a user, or one measurement of a comparison, and never a job that will replace the model.\<close>

theorem one_user_at_a_time:
  assumes "reachable s"
  shows "sy_requests s \<le> 1 \<and> (generating (sy_app s) \<longleftrightarrow> sy_requests s = 1 \<or> sy_measuring s)
     \<and> (comparing (sy_app s) \<longrightarrow> sy_requests s = 0 \<and> \<not> job_running (sy_app s))
     \<and> (sy_measuring s \<longrightarrow> comparing (sy_app s))
     \<and> (generating (sy_app s) \<and> job_running (sy_app s) \<longrightarrow> \<not> jb_activate (ap_job (sy_app s)))"
  using reachable_invariant [OF assms] by (auto simp: one_user_def Let_def)

theorem one_user_at_a_time_witness: "sy_requests sys2 \<le> 1 \<and> job_running (sy_app sys2) \<and> \<not> comparing (sy_app sys2)"
  using one_user_at_a_time [OF reachable2] by (auto simp: sys2_def save_receipt_core app1)

text \<open>C2. The job starts a model only if the file it read had a stamp that was verified: in every reachable
  state, an end of the job that starts a process is one of a verdict that was good.\<close>

theorem started_only_if_verified:
  assumes "reachable s" and "sy_job s = Decided m ok reason st"
    and "ap_generation (job_finish tm h saved m ok reason (sy_app s)) \<noteq> ap_generation (sy_app s)"
  shows "ok \<and> (\<exists>x. st = Some x \<and> x \<in> set (sy_verified s)) \<and> \<not> cancelled (sy_app s) \<and> jb_activate (ap_job (sy_app s))"
  using started_known [OF assms] finish_starts [OF assms(3)] by blast

theorem started_only_if_verified_witness:
  "ap_generation (job_finish 1 spawn0 True model0 True (jv_why verdict0) (sy_app sys2)) = 1 \<and> stamp0 \<in> set (sy_verified sys2)"
  using started_only_if_verified [OF reachable2 decided2, of 1 spawn0 True] starts2 generation2 by simp

text \<open>C16. A stamp is verified only if the digest of the file, computed while its stamp did not change, is that
  of the catalog; and a file and a model with that stamp later on are this file, unchanged, and a model with
  this digest.\<close>

theorem verified_stamp_means:
  assumes "x \<in> set (new_stamps m download h (job_verdict stopped stopped2 m download cached h))"
    and "model_stamp m' (Some s) = Some x" and "CHR '' '' \<notin> set (am_sha256 m)" and "CHR '' '' \<notin> set (am_sha256 m')"
  shows "jh_hash h = Some (am_sha256 m) \<and> model_stamp m (jh_before h) = model_stamp m (jh_after h)
     \<and> am_sha256 m' = am_sha256 m \<and> (if download then jh_placed h else jh_after h) = Some s"
proof -
  note n = new_stamp_means [OF assms(1)]
  then obtain s' where s': "(if download then jh_placed h else jh_after h) = Some s'"
    by (cases "if download then jh_placed h else jh_after h") (auto simp: model_stamp_def)
  from stamp_injective [OF _ assms(2-4), of s'] n s' show ?thesis by metis
qed

theorem verified_stamp_means_witness: "jh_hash job0 = Some (am_sha256 model0) \<and> jh_after job0 = Some file0"
proof -
  have "stamp0 \<in> set (new_stamps model0 False job0 (job_verdict False False model0 False False job0))"
    using verdict0 [unfolded verdict0_def] by (intro verdict_new [OF refl]) simp
  from verified_stamp_means [OF this stamp0] show ?thesis by (simp add: model0_def)
qed

text \<open>C39. An import that is accepted while a model runs leaves it in the catalog with the same content.\<close>

theorem import_keeps_running_model:
  assumes "import_catalog w text a = (done_reply 200, b)" and "ready a" and "find_model a (Some (active_id a)) = Some old"
  shows "\<exists>new. find_model b (Some (active_id b)) = Some new \<and> active_id b = active_id a \<and> am_sha256 new = am_sha256 old
     \<and> am_file new = am_file old \<and> am_backends new = am_backends old \<and> am_bytes new = am_bytes old"
  using import_running [OF assms] .

theorem import_keeps_running_model_witness:
  "\<exists>b new. import_catalog world0 ''c'' app_running = (done_reply 200, b) \<and> find_model b (Some (active_id b)) = Some new
     \<and> am_file new = ''m.gguf''"
proof -
  obtain b where b: "import_catalog world0 ''c'' app_running = (done_reply 200, b)" using import_scene by blast
  from import_keeps_running_model [OF b running0(2,1)] b show ?thesis by (auto simp: model0_def)
qed

text \<open>C40. Whatever state was reached, the application can come to rest: there are steps of its threads after
  which no request is being answered, no job and no comparison is marked as running, and none of their threads
  is left. A thread steps only if it was made, so a flag that stays set when \<open>pthread_create\<close> fails is ruled out.\<close>

theorem can_come_to_rest:
  assumes "reachable s"
  shows "\<exists>s'. step\<^sup>*\<^sup>* s s' \<and> idle (sy_app s') \<and> sy_requests s' = 0 \<and> \<not> sy_measuring s'
           \<and> \<not> job_thread_runs (sy_app s') \<and> \<not> compare_thread_runs (sy_app s')"
  using rest [OF assms] by (auto simp: at_rest_def)

theorem can_come_to_rest_witness: "\<exists>s'. step\<^sup>*\<^sup>* sys2 s' \<and> idle (sy_app s') \<and> \<not> idle (sy_app sys2)"
proof -
  have "\<not> idle (sy_app sys2)" by (simp add: sys2_def idle_def save_receipt_core app1)
  with can_come_to_rest [OF reachable2] show ?thesis by blast
qed

section \<open>The command line and its service\<close>

text \<open>C12. What \<open>geisten setup\<close> reads of the status document, over the text, the parts it arrives in and the reader, is
  what the state says: \<open>setup_view\<close> takes it from the state. The strings of the state are C strings, its numbers are
  printed as JSON numbers, and the document has no more tokens than the reader holds.\<close>

theorem setup_reads_status:
  assumes "status_response h True w a = (Inr body, w1)" and "status_ok h a evidence" and "status_prints h a"
    and "STATUS_TOKENS h w1 a evidence \<le> JSON_TOK_CAP" and "answers ou ''/app/status'' None 5 c 200 body"
  shows "fst (setup_state_read ou want c) = Some (setup_view h a want)"
  by (rule setup_reads [OF assms])

theorem setup_reads_status_witness:
  "\<exists>body s. status_response help0 True no_window shown0 = (Inr body, no_window)
     \<and> fst (setup_state_read (outside0 body) None cli0) = Some s \<and> su_id s = Some ''smollm2-360m'' \<and> su_name s = Some ''SmolLM2''
     \<and> su_job s = Some ''smollm2-360m'' \<and> su_received s = Fin 1048576 \<and> su_bytes s = Fin 419430400 \<and> \<not> su_ready s"
proof -
  obtain body where b: "status_response help0 True no_window shown0 = (Inr body, no_window)" using status_built .
  from setup_reads_status [OF b status_ok0 status_prints0 tokens0 answers0, where c = cli0 and want = None]
  show ?thesis by (intro exI conjI) (rule b, assumption, simp_all add: view0)
qed

text \<open>C20. A service of a later version is left alone: the command line asks for its status once, ends with code 44, and
  neither stops it nor starts another.\<close>

theorem newer_service_is_left:
  assumes "answers ou ''/app/status'' None 2 c 200 text" and "length text < REPLY_CAP" and "NUL \<notin> set text"
    and "json_parse text = Some j" and "json_strdup j (json_get j 0 ''version'') = Some (dotted x y z)"
    and "x < 2 ^ 32" and "y < 2 ^ 32" and "z < 2 ^ 32" and "later [x, y, z] [0, 5, 30]"
  shows "\<exists>c1. start_service ou c = (False, c1) \<and> ci_start_error c1 = 44 \<and> ci_world c1 = ci_world (snd (cli_request ou ''/app/status'' None 2 c))"
  by (rule newer_left_alone [OF assms])

theorem newer_service_is_left_witness:
  \<open>\<exists>c1. start_service (outside0 ''{"version":"0.6.0"}'') cli0 = (False, c1) \<and> ci_start_error c1 = 44 \<and> ci_world c1 = 1\<close>
proof -
  let ?t = \<open>''{"version":"0.6.0"}''\<close>
  obtain j where j: "json_parse ?t = Some j" "json_strdup j (json_get j 0 ''version'') = Some (dotted 0 6 0)" using version_read .
  have l: "later [0, 6, 0] [0, 5, 30]" by (simp add: later_def)
  have "\<exists>c1. start_service (outside0 ?t) cli0 = (False, c1) \<and> ci_start_error c1 = 44
      \<and> ci_world c1 = ci_world (snd (cli_request (outside0 ?t) ''/app/status'' None 2 cli0))"
    by (rule newer_service_is_left [OF answers0 _ _ j _ _ _ l]) (simp_all add: REPLY_CAP_def)
  then show ?thesis by (simp add: world_after0)
qed

text \<open>C31. Setup that is never told of any work for its model ends after at most 151 looks at the service, and it ends with
  a loaded model only if the service said so.\<close>

theorem setup_ends:
  assumes "no_work ou key"
  shows "fst (follow_setup 151 ou key follow0 c) \<noteq> None
     \<and> (fst (follow_setup 151 ou key follow0 c) = Some Loaded
        \<longrightarrow> (\<exists>c1 s. fst (setup_state_read ou (Some key) c1) = Some s \<and> su_ready s \<and> su_active s = Some key))"
  using setup_gives_up [OF assms, of follow0 151 c] setup_told [of 151 ou key follow0 c] by (simp add: follow0_def)

theorem setup_ends_witness:
  "\<exists>body. status_response help0 True no_window shown0 = (Inr body, no_window)
     \<and> fst (follow_setup 151 (outside0 body) ''other'' follow0 cli0) \<noteq> None"
proof -
  obtain body where b: "status_response help0 True no_window shown0 = (Inr body, no_window)" using status_built .
  from setup_ends [OF idle0 [OF b], of cli0] b show ?thesis by blast
qed

section \<open>A stop in two steps\<close>

text \<open>A model the job starts while the monitor waits for the old one to end is killed by the monitor.\<close>

theorem start_during_stop_is_killed:
  assumes "start_child_mode tm h path i mode (stop_first a) = (True, b)"
  shows "sp_spawn h = Inr (pid b) \<and> fst (stop_last tm2 (stop_look tm2 False b)) = pid b
     \<and> pid (snd (stop_last tm2 (stop_look tm2 False b))) = 0"
  using start_during_stop [OF assms] by blast

end
